(* ===== verification/Prelude.thy ===== *)
theory Prelude
  imports Complex_Main "HOL-Library.Product_Lexorder" "HOL-Library.List_Lexorder"
    "HOL-Library.Char_ord"
begin

section \<open>Shared vocabulary of the development\<close>

text \<open>
  The types and operations every component uses: exact decimals, results with errors as
  values, database tables as lists of rows in primary-key order, the calendar that Python's
  \<open>datetime\<close> keeps, and the contract of a Django \<open>TextChoices\<close>-like class (a finite list of
  values with pairwise distinct strings).

  A table is a list of rows. \<open>Model.objects.filter(p)\<close> is \<open>filter p rows\<close>,
  \<open>.get(p)\<close> is \<open>objects_get (filter p rows)\<close>, \<open>.save()\<close> writes the fields of one
  primary key (\<open>save_row\<close>). Django's \<open>bulk_update\<close> is code outside the repository: the
  operations that use it take it as an argument, and the lemmas that rely on it assume
  \<open>bulk_update_law\<close>, the behaviour Django documents (if the objects hold duplicates, only the
  first one is written). \<open>first_update\<close> is a concrete function with that behaviour.
\<close>

named_theorems table_simps \<open>how the table operations act on keys, lengths and lookups\<close>
named_theorems choice_simps \<open>the strings of the choice classes and their inverses\<close>

type_synonym decimal = rat

subsection \<open>Results\<close>

definition bindr :: "'e + 'a \<Rightarrow> ('a \<Rightarrow> 'e + 'b) \<Rightarrow> 'e + 'b" where
  "bindr r f = (case r of Inl e \<Rightarrow> Inl e | Inr a \<Rightarrow> f a)"

lemma bindr_simps [simp]:
  "bindr (Inl e) f = Inl e"
  "bindr (Inr a) f = f a"
  by (simp_all add: bindr_def)

lemma bindr_eq_Inr: "bindr r f = Inr b \<longleftrightarrow> (\<exists>a. r = Inr a \<and> f a = Inr b)"
  by (simp add: bindr_def split: sum.splits)

lemma bindr_eq_Inl: "bindr r f = Inl e \<longleftrightarrow> r = Inl e \<or> (\<exists>a. r = Inr a \<and> f a = Inl e)"
  by (auto simp: bindr_def split: sum.splits)

definition guard :: "bool \<Rightarrow> 'e \<Rightarrow> 'e + unit" where
  "guard p e = (if p then Inr () else Inl e)"

lemma guard_eq_Inr [simp]: "guard p e = Inr u \<longleftrightarrow> p"
  by (simp add: guard_def)

lemma guard_eq_Inl [simp]: "guard p e = Inl e' \<longleftrightarrow> \<not> p \<and> e = e'"
  by (auto simp: guard_def)

text \<open>Running operations in sequence, stopping at the first error.\<close>

fun run_ops :: "('op \<Rightarrow> 's \<Rightarrow> 'e + 's) \<Rightarrow> 'op list \<Rightarrow> 's \<Rightarrow> 'e + 's" where
  "run_ops step [] s = Inr s"
| "run_ops step (x # xs) s = bindr (step x s) (run_ops step xs)"

lemma run_ops_invariant:
  assumes keep: "\<And>x s t. I s \<Longrightarrow> step x s = Inr t \<Longrightarrow> I t"
  shows "I s \<Longrightarrow> run_ops step xs s = Inr t \<Longrightarrow> I t"
  by (induction xs arbitrary: s) (auto simp: bindr_eq_Inr intro: keep)

text \<open>Python's \<open>xs[i]\<close>: a negative index counts from the end; out of range raises \<open>IndexError\<close>.\<close>

definition py_index :: "'a list \<Rightarrow> int \<Rightarrow> 'a option" where
  "py_index xs i =
     (let j = (if i < 0 then int (length xs) + i else i)
      in if 0 \<le> j \<and> j < int (length xs) then Some (xs ! nat j) else None)"

lemma py_index_in_range: "0 \<le> i \<Longrightarrow> i < int (length xs) \<Longrightarrow> py_index xs i = Some (xs ! nat i)"
  by (simp add: py_index_def)

subsection \<open>Decimals\<close>

text \<open>
  \<open>Decimal.quantize(Decimal(10) ** -p)\<close> of the standard library: the nearest multiple of
  \<open>10 ^ -p\<close>, a tie going to the even one (\<open>ROUND_HALF_EVEN\<close>, the default context). Decimals
  are exact here; the default context keeps 28 digits, more than any column of 12 digits
  and its products need.
\<close>

definition round_half_even :: "decimal \<Rightarrow> int" where
  "round_half_even x =
     (let n = \<lfloor>x\<rfloor>; d = x - of_int n
      in if d < 1/2 then n else if d > 1/2 then n + 1 else if even n then n else n + 1)"

definition quantize :: "nat \<Rightarrow> decimal \<Rightarrow> decimal" where
  "quantize p x = of_int (round_half_even (x * 10 ^ p)) / 10 ^ p"

lemma round_half_even_of_int [simp]: "round_half_even (of_int n) = n"
  by (simp add: round_half_even_def)

lemma round_half_even_near: "\<bar>of_int (round_half_even x) - x\<bar> \<le> 1/2"
proof -
  define d where "d = x - of_int \<lfloor>x\<rfloor>"
  have "0 \<le> d" "d < 1" by (simp_all add: d_def) linarith
  moreover have "of_int (round_half_even x) - x = (if d < 1/2 then - d else if d > 1/2 then 1 - d
      else if even \<lfloor>x\<rfloor> then - d else 1 - d)"
    by (simp add: round_half_even_def d_def Let_def)
  ultimately show ?thesis by (auto simp: abs_if split: if_splits)
qed

lemma round_half_even_mono: "x \<le> y \<Longrightarrow> round_half_even x \<le> round_half_even y"
proof -
  assume "x \<le> y"
  then have f: "\<lfloor>x\<rfloor> \<le> \<lfloor>y\<rfloor>" by (rule floor_mono)
  have r: "\<lfloor>z\<rfloor> \<le> round_half_even z" "round_half_even z \<le> \<lfloor>z\<rfloor> + 1" for z :: decimal
    by (simp_all add: round_half_even_def Let_def)
  show ?thesis
  proof (cases "\<lfloor>x\<rfloor> = \<lfloor>y\<rfloor>")
    case True
    with \<open>x \<le> y\<close> show ?thesis by (auto simp: round_half_even_def Let_def)
  next
    case False
    with f r [of x] r [of y] show ?thesis by linarith
  qed
qed

lemma quantize_near: "\<bar>quantize p x - x\<bar> \<le> 1 / 2 / 10 ^ p"
proof -
  have "quantize p x - x = (of_int (round_half_even (x * 10 ^ p)) - x * 10 ^ p) / 10 ^ p"
    by (simp add: quantize_def diff_divide_distrib)
  then have "\<bar>quantize p x - x\<bar> = \<bar>of_int (round_half_even (x * 10 ^ p)) - x * 10 ^ p\<bar> / 10 ^ p"
    by (simp add: abs_divide)
  then show ?thesis
    using divide_right_mono [OF round_half_even_near [of "x * 10 ^ p"], of "10 ^ p"] by simp
qed

lemma quantize_idem [simp]: "quantize p (quantize p x) = quantize p x"
  by (simp add: quantize_def)

lemma quantize_exact: "x * 10 ^ p = of_int n \<Longrightarrow> quantize p x = x"
  by (metis nonzero_mult_div_cancel_right power_not_zero quantize_def round_half_even_of_int
      zero_neq_numeral)

lemma quantize_mono: "x \<le> y \<Longrightarrow> quantize p x \<le> quantize p y"
  by (simp add: quantize_def divide_right_mono round_half_even_mono)

lemma quantize_zero [simp]: "quantize p 0 = 0"
  by (simp add: quantize_def round_half_even_def)

lemma quantize_nonneg: "0 \<le> x \<Longrightarrow> 0 \<le> quantize p x"
  using quantize_mono [of 0 x p] by simp

text \<open>
  \<open>quantize_price\<close> of \<^verbatim>\<open>core/prices.py\<close>; the number of places of a currency is Babel's
  \<open>get_currency_precision\<close>, a parameter.
\<close>

definition quantize_price :: "(string \<Rightarrow> nat) \<Rightarrow> decimal \<Rightarrow> string \<Rightarrow> decimal" where
  "quantize_price get_currency_precision price currency =
     (let precision = get_currency_precision currency in quantize precision price)"

subsection \<open>JSON parameters of events\<close>

datatype json =
    JNull
  | JBool bool
  | JInt int
  | JDec decimal
  | JStr string
  | JList "json list"
  | JObj "(string \<times> json) list"

subsection \<open>Tables\<close>

datatype lookup_error = DoesNotExist | MultipleObjectsReturned

fun objects_get :: "'r list \<Rightarrow> lookup_error + 'r" where
  "objects_get [] = Inl DoesNotExist"
| "objects_get [r] = Inr r"
| "objects_get (r # s # rs) = Inl MultipleObjectsReturned"

lemma objects_get_Inr: "objects_get rows = Inr r \<longleftrightarrow> rows = [r]"
  by (cases rows rule: objects_get.cases) auto

lemma objects_get_filter_Inr:
  "objects_get (filter p rows) = Inr r \<Longrightarrow> r \<in> set rows \<and> p r"
proof -
  assume "objects_get (filter p rows) = Inr r"
  then have "r \<in> set (filter p rows)" by (simp add: objects_get_Inr)
  then show ?thesis by simp
qed

definition exists_row :: "('r \<Rightarrow> bool) \<Rightarrow> 'r list \<Rightarrow> bool" where
  "exists_row p rows \<longleftrightarrow> list_ex p rows"

lemma exists_row_iff [table_simps]: "exists_row p rows \<longleftrightarrow> (\<exists>r \<in> set rows. p r)"
  by (simp add: exists_row_def list_ex_iff)

definition save_row :: "('r \<Rightarrow> 'k) \<Rightarrow> 'k \<Rightarrow> ('r \<Rightarrow> 'r) \<Rightarrow> 'r list \<Rightarrow> 'r list" where
  "save_row key k f rows = map (\<lambda>r. if key r = k then f r else r) rows"

lemma length_save_row [simp]: "length (save_row key k f rows) = length rows"
  by (simp add: save_row_def)

lemma keys_save_row [table_simps]:
  "(\<And>r. key (f r) = key r) \<Longrightarrow> map key (save_row key k f rows) = map key rows"
  by (simp add: save_row_def)

definition first_update :: "('r \<Rightarrow> 'k) \<Rightarrow> ('k \<times> ('r \<Rightarrow> 'r)) list \<Rightarrow> 'r list \<Rightarrow> 'r list" where
  "first_update key objs rows =
     map (\<lambda>r. case map_of objs (key r) of None \<Rightarrow> r | Some f \<Rightarrow> f r) rows"

definition bulk_update_law ::
    "('r \<Rightarrow> 'k) \<Rightarrow> (('k \<times> ('r \<Rightarrow> 'r)) list \<Rightarrow> 'r list \<Rightarrow> 'r list) \<Rightarrow> bool" where
  "bulk_update_law key bu \<longleftrightarrow> (\<forall>objs rows. bu objs rows = first_update key objs rows)"

lemma bulk_update_law_first_update [intro, simp]: "bulk_update_law key (first_update key)"
  by (simp add: bulk_update_law_def)

lemma bulk_update_lawD: "bulk_update_law key bu \<Longrightarrow> bu objs rows = first_update key objs rows"
  by (simp add: bulk_update_law_def)

lemma length_first_update [simp]: "length (first_update key objs rows) = length rows"
  by (simp add: first_update_def)

lemma keys_first_update [table_simps]:
  assumes "\<And>k f r. (k, f) \<in> set objs \<Longrightarrow> key (f r) = key r"
  shows "map key (first_update key objs rows) = map key rows"
proof -
  have "key (case map_of objs (key r) of None \<Rightarrow> r | Some f \<Rightarrow> f r) = key r" for r
    by (auto split: option.splits dest!: map_of_SomeD simp: assms)
  then show ?thesis by (simp add: first_update_def)
qed

lemma first_update_Nil [simp]: "first_update key [] rows = rows"
  by (simp add: first_update_def)

lemma find_SomeD: "find P xs = Some x \<Longrightarrow> x \<in> set xs \<and> P x"
  by (induction xs) (auto split: if_splits)

lemma find_append: "find P (xs @ ys) = (case find P xs of None \<Rightarrow> find P ys | Some x \<Rightarrow> Some x)"
  by (induction xs) auto

text \<open>Looking a row up by its key.\<close>

definition row_of :: "('r \<Rightarrow> 'k) \<Rightarrow> 'k \<Rightarrow> 'r list \<Rightarrow> 'r option" where
  "row_of key k rows = find (\<lambda>r. key r = k) rows"

lemma row_of_Nil [simp]: "row_of key k [] = None"
  by (simp add: row_of_def)

lemma row_of_Cons [simp]:
  "row_of key k (r # rows) = (if key r = k then Some r else row_of key k rows)"
  by (simp add: row_of_def)

lemma row_of_SomeD: "row_of key k rows = Some r \<Longrightarrow> r \<in> set rows \<and> key r = k"
  by (induction rows) (auto split: if_splits)

lemma row_of_eq_Some:
  "distinct (map key rows) \<Longrightarrow> row_of key k rows = Some r \<longleftrightarrow> r \<in> set rows \<and> key r = k"
  by (induction rows) (auto simp: image_iff)

lemma row_of_None: "row_of key k rows = None \<longleftrightarrow> k \<notin> key ` set rows"
  by (induction rows) auto

lemma row_of_save_row [table_simps]:
  assumes "\<And>r. key (f r) = key r"
  shows "row_of key k' (save_row key k f rows) =
           map_option (\<lambda>r. if k' = k then f r else r) (row_of key k' rows)"
  by (induction rows) (auto simp: save_row_def assms)

lemma row_of_first_update [table_simps]:
  assumes "\<And>k f r. (k, f) \<in> set objs \<Longrightarrow> key (f r) = key r"
  shows "row_of key k (first_update key objs rows) =
           map_option (\<lambda>r. case map_of objs k of None \<Rightarrow> r | Some f \<Rightarrow> f r) (row_of key k rows)"
proof -
  have "key (case map_of objs (key r) of None \<Rightarrow> r | Some f \<Rightarrow> f r) = key r" for r
    by (auto split: option.splits dest!: map_of_SomeD simp: assms)
  then show ?thesis
    by (induction rows) (auto simp: first_update_def)
qed

lemma row_of_append [table_simps]:
  "row_of key k (rows @ rows') =
     (case row_of key k rows of None \<Rightarrow> row_of key k rows' | Some r \<Rightarrow> Some r)"
  by (induction rows) auto

lemma row_of_map:
  "(\<And>r. r \<in> set rows \<Longrightarrow> key (g r) = key r) \<Longrightarrow>
     row_of key k (map g rows) = map_option g (row_of key k rows)"
  by (induction rows) auto

lemma filter_key:
  "distinct (map key rows) \<Longrightarrow> filter (\<lambda>r. key r = k) rows =
     (case row_of key k rows of None \<Rightarrow> [] | Some r \<Rightarrow> [r])"
proof (induction rows)
  case (Cons a rows)
  show ?case
  proof (cases "key a = k")
    case True
    with Cons.prems have "row_of key k rows = None" by (auto simp: row_of_None)
    with True Cons show ?thesis by simp
  qed (use Cons in simp)
qed simp

text \<open>Sums over the rows a query selects: \<open>aggregate(Sum(f))\<close> with SQL's NULL read as 0.\<close>

definition sum_rows :: "('r \<Rightarrow> 'n::comm_monoid_add) \<Rightarrow> 'r list \<Rightarrow> 'n" where
  "sum_rows f rows = sum_list (map f rows)"

lemma sum_rows_Nil [simp]: "sum_rows f [] = 0"
  by (simp add: sum_rows_def)

lemma sum_rows_Cons [simp]: "sum_rows f (r # rows) = f r + sum_rows f rows"
  by (simp add: sum_rows_def)

lemma sum_rows_append [simp]: "sum_rows f (rows @ rows') = sum_rows f rows + sum_rows f rows'"
  by (simp add: sum_rows_def)

subsection \<open>Dates\<close>

text \<open>
  A \<open>datetime\<close> is (year, month, day, microsecond of the day), compared lexicographically as
  Python compares them. \<open>toordinal\<close> is \<open>date.toordinal\<close> of the standard library.
\<close>

type_synonym datetime = "int \<times> int \<times> int \<times> int"

fun month_start :: "datetime \<Rightarrow> datetime" where
  "month_start (y, m, d, t) = (y, m, 1, 0)"

fun yymm :: "datetime \<Rightarrow> int" where
  "yymm (y, m, d, t) = (y mod 100) * 100 + m"

definition is_leap :: "int \<Rightarrow> bool" where
  "is_leap y \<longleftrightarrow> y mod 4 = 0 \<and> (y mod 100 \<noteq> 0 \<or> y mod 400 = 0)"

definition days_before_year :: "int \<Rightarrow> int" where
  "days_before_year y = (let p = y - 1 in p * 365 + p div 4 - p div 100 + p div 400)"

definition days_before_month :: "int \<Rightarrow> int \<Rightarrow> int" where
  "days_before_month y m =
     [0, 0, 31, 59, 90, 120, 151, 181, 212, 243, 273, 304, 334] ! nat m
     + (if m > 2 \<and> is_leap y then 1 else 0)"

fun toordinal :: "datetime \<Rightarrow> int" where
  "toordinal (y, m, d, t) = days_before_year y + days_before_month y m + d"

subsection \<open>Choice classes\<close>

text \<open>
  The code keeps its enumerations as classes of string constants with a list \<open>CHOICES\<close>.
  A choice class is a datatype with the list of its members and the string of each.
\<close>

locale choice_class =
  fixes members :: "'c list" and str_of :: "'c \<Rightarrow> string"
  assumes distinct_strings: "distinct (map str_of members)"
    and all_members: "\<And>c. c \<in> set members"
begin

definition of_str :: "string \<Rightarrow> 'c option" where
  "of_str s = row_of str_of s members"

lemma of_str_str_of: "of_str (str_of c) = Some c"
  using all_members distinct_strings by (simp add: of_str_def row_of_eq_Some)

lemma of_str_SomeD: "of_str s = Some c \<Longrightarrow> str_of c = s"
  by (auto simp: of_str_def dest: row_of_SomeD)

lemma str_of_inject: "str_of c = str_of d \<longleftrightarrow> c = d"
  by (metis of_str_str_of option.inject)

lemma distinct_members: "distinct members"
  using distinct_strings by (simp add: distinct_map)

end

subsection \<open>Numbering rows month by month\<close>

text \<open>
  Balance events and donations are numbered within the month: a new row takes the number of rows
  dated in the current month, plus one. As long as the clock does not run backwards, the numbers
  of a month are pairwise distinct.
\<close>

fun valid_datetime :: "datetime \<Rightarrow> bool" where
  "valid_datetime (y, m, d, t) \<longleftrightarrow> 1 \<le> m \<and> m \<le> 12 \<and> 1 \<le> d \<and> d \<le> 31 \<and> 0 \<le> t"

lemma month_start_le: "valid_datetime x \<Longrightarrow> month_start x \<le> x"
  by (cases x) auto

locale month_numbered =
  fixes date_of :: "'r \<Rightarrow> datetime" and number_of :: "'r \<Rightarrow> int"
    and next_number :: "datetime \<Rightarrow> 'r list \<Rightarrow> int"
  assumes next_number: "next_number now rows =
    int (length (filter (\<lambda>r. date_of r \<ge> month_start now) rows)) + 1"
begin

definition numbered :: "'r list \<Rightarrow> bool" where
  "numbered rows \<longleftrightarrow>
     (\<forall>i < length rows. valid_datetime (date_of (rows ! i))
        \<and> number_of (rows ! i) = next_number (date_of (rows ! i)) (take i rows))"

lemma numbered_Nil: "numbered []"
  by (simp add: numbered_def)

lemma numbered_snoc:
  "numbered (rows @ [r]) \<longleftrightarrow> numbered rows \<and> valid_datetime (date_of r)
     \<and> number_of r = next_number (date_of r) rows"
  by (auto simp: numbered_def nth_append less_Suc_eq)

lemma numbered_distinct:
  assumes "numbered rows" "i < j" "j < length rows"
    and "month_start (date_of (rows ! i)) = month_start (date_of (rows ! j))"
  shows "number_of (rows ! i) < number_of (rows ! j)"
proof -
  let ?m = "month_start (date_of (rows ! j))"
  let ?p = "\<lambda>r. date_of r \<ge> ?m"
  have n: "number_of (rows ! k) = int (length (filter (\<lambda>r. date_of r \<ge> month_start (date_of (rows ! k))) (take k rows))) + 1"
    if "k < length rows" for k
    using assms(1) that by (simp add: numbered_def next_number)
  have "take j rows = take (Suc i) rows @ drop (Suc i) (take j rows)"
    using assms(2) by (metis Suc_leI append_take_drop_id min.absorb1 take_take)
  also have "take (Suc i) rows = take i rows @ [rows ! i]"
    using assms(2,3) by (simp add: take_Suc_conv_app_nth)
  finally have "length (filter ?p (take j rows)) \<ge> length (filter ?p (take i rows @ [rows ! i]))"
    by (metis filter_append le_add1 length_append)
  moreover have "?p (rows ! i)"
    using assms month_start_le [of "date_of (rows ! i)"] by (simp add: numbered_def)
  ultimately show ?thesis
    using n [of i] n [of j] assms by simp
qed

end

end
