(* ===== verification/Permissions.thy ===== *)
theory Permissions
  imports Prelude
begin

section \<open>Permissions: enums, requestors and the permission checks\<close>

text \<open>
  \<^verbatim>\<open>saleor/permission/enums.py\<close>, \<^verbatim>\<open>permission/utils.py\<close>, \<^verbatim>\<open>permission/auth_filters.py\<close>, the
  permission part of \<^verbatim>\<open>account/models.py\<close> (User), \<^verbatim>\<open>app/models.py\<close> (App) and
  \<^verbatim>\<open>core/auth_backend.py\<close>, and the check of \<^verbatim>\<open>graphql/channel/mutations/channel_update.py\<close>.
  A permission row of the database is the enum member it was created from; \<open>user\<close> holds the
  permissions granted directly and through each group. Caches of computed permissions are not
  modelled: they return what was computed first in the same request.
\<close>

subsection \<open>The permission enums\<close>

datatype permission =
    MANAGE_USERS | MANAGE_STAFF | IMPERSONATE_USER | READ_USERS
  | MANAGE_APPS | MANAGE_OBSERVABILITY
  | MANAGE_CHECKOUTS | HANDLE_CHECKOUTS | HANDLE_TAXES | MANAGE_TAXES
  | MANAGE_CHANNELS
  | MANAGE_DISCOUNTS
  | MANAGE_GIFT_CARD
  | MANAGE_MENUS
  | MANAGE_ORDERS | MANAGE_ORDERS_IMPORT
  | MANAGE_PAGES
  | MANAGE_PAGE_TYPES_AND_ATTRIBUTES
  | HANDLE_PAYMENTS
  | MANAGE_PLUGINS
  | MANAGE_PRODUCTS
  | MANAGE_PRODUCT_TYPES_AND_ATTRIBUTES
  | MANAGE_SHIPPING
  | MANAGE_SETTINGS | MANAGE_TRANSLATIONS
  | ADD_DONATIONS | MANAGE_DONATIONS
  | MANAGE_BARCODE

fun permission_value :: "permission \<Rightarrow> string" where
  "permission_value MANAGE_USERS = ''account.manage_users''"
| "permission_value MANAGE_STAFF = ''account.manage_staff''"
| "permission_value IMPERSONATE_USER = ''account.impersonate_user''"
| "permission_value READ_USERS = ''account.read_users''"
| "permission_value MANAGE_APPS = ''app.manage_apps''"
| "permission_value MANAGE_OBSERVABILITY = ''app.manage_observability''"
| "permission_value MANAGE_CHANNELS = ''channel.manage_channels''"
| "permission_value MANAGE_DISCOUNTS = ''discount.manage_discounts''"
| "permission_value MANAGE_PLUGINS = ''plugins.manage_plugins''"
| "permission_value MANAGE_GIFT_CARD = ''giftcard.manage_gift_card''"
| "permission_value MANAGE_MENUS = ''menu.manage_menus''"
| "permission_value MANAGE_CHECKOUTS = ''checkout.manage_checkouts''"
| "permission_value HANDLE_CHECKOUTS = ''checkout.handle_checkouts''"
| "permission_value HANDLE_TAXES = ''checkout.handle_taxes''"
| "permission_value MANAGE_TAXES = ''checkout.manage_taxes''"
| "permission_value MANAGE_ORDERS = ''order.manage_orders''"
| "permission_value MANAGE_ORDERS_IMPORT = ''order.manage_orders_import''"
| "permission_value ADD_DONATIONS = ''donation.add_donations''"
| "permission_value MANAGE_DONATIONS = ''donation.manage_donations''"
| "permission_value HANDLE_PAYMENTS = ''payment.handle_payments''"
| "permission_value MANAGE_PAGES = ''page.manage_pages''"
| "permission_value MANAGE_PAGE_TYPES_AND_ATTRIBUTES = ''page.manage_page_types_and_attributes''"
| "permission_value MANAGE_PRODUCTS = ''product.manage_products''"
| "permission_value MANAGE_PRODUCT_TYPES_AND_ATTRIBUTES =
     ''product.manage_product_types_and_attributes''"
| "permission_value MANAGE_SHIPPING = ''shipping.manage_shipping''"
| "permission_value MANAGE_BARCODE = ''barcode.manage_barcodes''"
| "permission_value MANAGE_SETTINGS = ''site.manage_settings''"
| "permission_value MANAGE_TRANSLATIONS = ''site.manage_translations''"

text \<open>\<open>PERMISSIONS_ENUMS\<close>, the members of its classes in order.\<close>

definition PERMISSIONS_ENUMS :: "permission list" where
  "PERMISSIONS_ENUMS =
     [MANAGE_USERS, MANAGE_STAFF, IMPERSONATE_USER, READ_USERS,
      MANAGE_APPS, MANAGE_OBSERVABILITY,
      MANAGE_CHECKOUTS, HANDLE_CHECKOUTS, HANDLE_TAXES, MANAGE_TAXES,
      MANAGE_CHANNELS,
      MANAGE_DISCOUNTS,
      MANAGE_GIFT_CARD,
      MANAGE_MENUS,
      MANAGE_ORDERS, MANAGE_ORDERS_IMPORT,
      MANAGE_PAGES,
      MANAGE_PAGE_TYPES_AND_ATTRIBUTES,
      HANDLE_PAYMENTS,
      MANAGE_PLUGINS,
      MANAGE_PRODUCTS,
      MANAGE_PRODUCT_TYPES_AND_ATTRIBUTES,
      MANAGE_SHIPPING,
      MANAGE_SETTINGS, MANAGE_TRANSLATIONS,
      ADD_DONATIONS, MANAGE_DONATIONS,
      MANAGE_BARCODE]"

text \<open>\<open>value.split(".")\<close>: the segments between dots; \<open>[1]\<close> is the second one.\<close>

fun split_dot :: "string \<Rightarrow> string list" where
  "split_dot [] = [[]]"
| "split_dot (c # cs) =
     (if c = CHR ''.'' then [] # split_dot cs
      else case split_dot cs of [] \<Rightarrow> [[c]] | w # ws \<Rightarrow> (c # w) # ws)"

definition codename :: "permission \<Rightarrow> string" where
  "codename p = split_dot (permission_value p) ! 1"

definition get_permissions_codename :: "string list" where
  "get_permissions_codename = map codename PERMISSIONS_ENUMS"

definition split_permission_codename :: "string list \<Rightarrow> string list" where
  "split_permission_codename permissions = map (\<lambda>p. split_dot p ! 1) permissions"

text \<open>
  \<open>get_permissions\<close> selects rows by code name only, the application label being dropped by
  \<open>split_permission_codename\<close>; the rows are the enum members, one each.
\<close>

definition get_permissions_from_codenames :: "string list \<Rightarrow> permission list" where
  "get_permissions_from_codenames names =
     sort_key codename (filter (\<lambda>p. codename p \<in> set names) PERMISSIONS_ENUMS)"

definition get_permissions :: "string list option \<Rightarrow> permission list" where
  "get_permissions permissions =
     (let codenames = (case permissions of
            None \<Rightarrow> get_permissions_codename
          | Some ps \<Rightarrow> split_permission_codename ps)
      in get_permissions_from_codenames codenames)"

interpretation permission_enum: choice_class PERMISSIONS_ENUMS permission_value
proof
  show "distinct (map permission_value PERMISSIONS_ENUMS)"
    by (simp add: PERMISSIONS_ENUMS_def)
next
  show "p \<in> set PERMISSIONS_ENUMS" for p
    by (cases p) (simp_all add: PERMISSIONS_ENUMS_def)
qed

interpretation permission_codename: choice_class PERMISSIONS_ENUMS codename
proof
  show "distinct (map codename PERMISSIONS_ENUMS)"
    by (simp add: PERMISSIONS_ENUMS_def codename_def)
next
  show "p \<in> set PERMISSIONS_ENUMS" for p
    by (rule permission_enum.all_members)
qed

lemma split_codename_value [simp]:
  "split_permission_codename (map permission_value ps) = map codename ps"
  by (simp add: split_permission_codename_def codename_def)

lemma set_get_permissions_from_codenames:
  "set (get_permissions_from_codenames names) = {p. codename p \<in> set names}"
  using permission_enum.all_members by (auto simp: get_permissions_from_codenames_def)

subsection \<open>Users, apps and the request context\<close>

record user =
  user_pk :: nat
  user_email :: string
  user_code :: string
  user_account :: string
  user_first_name :: string
  user_last_name :: string
  user_type :: string
  user_invited_by :: string
  user_balance :: decimal
  user_continuous :: int
  user_last_login :: datetime
  user_date_joined :: datetime
  user_updated_at :: datetime
  user_is_staff :: bool
  user_is_active :: bool
  user_is_confirmed :: bool
  user_is_superuser :: bool
  user_billing_name :: "(string \<times> string) option"
  user_private_metadata :: "(string \<times> string) list"
  user_search_document :: string
  user_permissions :: "permission list"
  user_groups :: "permission list list"
  user_effective_override :: "permission list option"

record app =
  app_pk :: nat
  app_is_active :: bool
  app_permissions :: "permission list"

record request_context =
  ctx_app :: "app option"
  ctx_user :: "user option"

datatype requestor = UserRequestor user | AppRequestor app

definition get_user_or_app_from_context :: "request_context \<Rightarrow> requestor option" where
  "get_user_or_app_from_context c =
     (case ctx_app c of
        Some a \<Rightarrow> Some (AppRequestor a)
      | None \<Rightarrow> map_option UserRequestor (ctx_user c))"

text \<open>
  \<open>User.effective_permissions\<close>: the override set by the token, else every permission, for a
  user who is not superuser restricted to the ones granted directly or through a group.
\<close>

definition effective_permissions :: "user \<Rightarrow> permission list" where
  "effective_permissions u =
     (case user_effective_override u of
        Some ps \<Rightarrow> ps
      | None \<Rightarrow>
          (let ps = get_permissions None in
           if user_is_superuser u then ps
           else filter (\<lambda>p. p \<in> set (user_permissions u)
                          \<or> (\<exists>g \<in> set (user_groups u). p \<in> set g)) ps))"

definition backend_has_perm :: "user \<Rightarrow> permission \<Rightarrow> bool" where
  "backend_has_perm u p \<longleftrightarrow> user_is_active u \<and> p \<in> set (effective_permissions u)"

text \<open>\<open>User.has_perm\<close>: \<open>not self._effective_permissions\<close> holds of \<open>None\<close> and of an empty set.\<close>

definition has_perm :: "user \<Rightarrow> permission \<Rightarrow> bool" where
  "has_perm u p \<longleftrightarrow>
     (if user_is_active u \<and> user_is_superuser u
         \<and> (case user_effective_override u of None \<Rightarrow> True | Some ps \<Rightarrow> ps = [])
      then True else backend_has_perm u p)"

text \<open>\<open>User.has_perms\<close> goes through \<open>PermissionsMixin.has_perms\<close> to \<open>User.has_perm\<close>.\<close>

definition has_perms :: "user \<Rightarrow> permission list \<Rightarrow> bool" where
  "has_perms u ps \<longleftrightarrow> (\<forall>p \<in> set ps. has_perm u p)"

definition app_get_permissions :: "app \<Rightarrow> permission list" where
  "app_get_permissions a = (if \<not> app_is_active a then [] else app_permissions a)"

definition app_has_perm :: "app \<Rightarrow> permission \<Rightarrow> bool" where
  "app_has_perm a p \<longleftrightarrow> (if \<not> app_is_active a then False else p \<in> set (app_get_permissions a))"

definition app_has_perms :: "app \<Rightarrow> permission list \<Rightarrow> bool" where
  "app_has_perms a ps \<longleftrightarrow>
     (if \<not> app_is_active a then False
      else set ps \<inter> set (app_get_permissions a) = set ps)"

fun requestor_has_perm :: "requestor \<Rightarrow> permission \<Rightarrow> bool" where
  "requestor_has_perm (UserRequestor u) p = has_perm u p"
| "requestor_has_perm (AppRequestor a) p = app_has_perm a p"

subsection \<open>Authorization filters\<close>

datatype authorization_filter =
    AUTHENTICATED_APP | AUTHENTICATED_STAFF_USER | AUTHENTICATED_USER | OWNER

definition is_app :: "request_context \<Rightarrow> bool" where
  "is_app c \<longleftrightarrow> ctx_app c \<noteq> None"

definition is_user :: "request_context \<Rightarrow> bool" where
  "is_user c \<longleftrightarrow> (case ctx_user c of None \<Rightarrow> False | Some u \<Rightarrow> user_is_active u)"

definition is_staff_user :: "request_context \<Rightarrow> bool" where
  "is_staff_user c \<longleftrightarrow>
     is_user c \<and> (case ctx_user c of None \<Rightarrow> False | Some u \<Rightarrow> user_is_staff u)"

fun resolve_authorization_filter_fn :: "authorization_filter \<Rightarrow> (request_context \<Rightarrow> bool) option" where
  "resolve_authorization_filter_fn AUTHENTICATED_APP = Some is_app"
| "resolve_authorization_filter_fn AUTHENTICATED_USER = Some is_user"
| "resolve_authorization_filter_fn AUTHENTICATED_STAFF_USER = Some is_staff_user"
| "resolve_authorization_filter_fn OWNER = None"

subsection \<open>The checks of \<open>permission/utils.py\<close>\<close>

datatype access_rule = Perm permission | Auth authorization_filter

fun rule_perms :: "access_rule list \<Rightarrow> permission list" where
  "rule_perms [] = []"
| "rule_perms (Perm p # rs) = p # rule_perms rs"
| "rule_perms (Auth a # rs) = rule_perms rs"

fun rule_auths :: "access_rule list \<Rightarrow> authorization_filter list" where
  "rule_auths [] = []"
| "rule_auths (Perm p # rs) = rule_auths rs"
| "rule_auths (Auth a # rs) = a # rule_auths rs"

definition get_result_of_permissions_checks :: "request_context \<Rightarrow> access_rule list \<Rightarrow> bool list" where
  "get_result_of_permissions_checks c rules =
     (let permissions = rule_perms rules in
      case get_user_or_app_from_context c of
        None \<Rightarrow> []
      | Some requestor \<Rightarrow>
          if permissions \<noteq> [] then map (requestor_has_perm requestor) permissions else [])"

definition get_result_of_authorization_filters_checks ::
    "request_context \<Rightarrow> access_rule list \<Rightarrow> bool list" where
  "get_result_of_authorization_filters_checks c rules =
     List.map_filter (\<lambda>a. map_option (\<lambda>perm_fn. perm_fn c) (resolve_authorization_filter_fn a))
       (rule_auths rules)"

definition all_permissions_required :: "request_context \<Rightarrow> access_rule list \<Rightarrow> bool" where
  "all_permissions_required c permissions =
     (if permissions = [] then True
      else let perm_results = get_result_of_permissions_checks c permissions;
               auth_filters_results = get_result_of_authorization_filters_checks c permissions
           in if auth_filters_results \<noteq> []
              then list_all id perm_results \<and> list_ex id auth_filters_results
              else list_all id perm_results)"

definition one_of_permissions_or_auth_filter_required ::
    "request_context \<Rightarrow> access_rule list \<Rightarrow> bool" where
  "one_of_permissions_or_auth_filter_required c permissions =
     (if permissions = [] then True
      else let perm_results = get_result_of_permissions_checks c permissions;
               auth_filters_results = get_result_of_authorization_filters_checks c permissions
           in list_ex id perm_results \<or> list_ex id auth_filters_results)"

fun permission_required :: "requestor option \<Rightarrow> permission list \<Rightarrow> bool" where
  "permission_required (Some (UserRequestor u)) perms = has_perms u perms"
| "permission_required (Some (AppRequestor a)) perms =
     (if MANAGE_STAFF \<in> set perms then False else app_has_perms a perms)"
| "permission_required None perms = False"

fun any_permission_required :: "requestor \<Rightarrow> permission list \<Rightarrow> bool" where
  "any_permission_required r [] = False"
| "any_permission_required r (p # ps) =
     (if permission_required (Some r) [p] then True else any_permission_required r ps)"

definition has_one_of_permissions :: "requestor option \<Rightarrow> permission list \<Rightarrow> bool" where
  "has_one_of_permissions requestor permissions =
     (if permissions = [] then True
      else case requestor of None \<Rightarrow> False
      | Some r \<Rightarrow> any_permission_required r permissions)"

text \<open>\<open>check_permissions\<close> of \<open>BaseMutation\<close> (\<^verbatim>\<open>graphql/core/mutations.py\<close>).\<close>

definition check_permissions :: "request_context \<Rightarrow> access_rule list \<Rightarrow> bool \<Rightarrow> bool" where
  "check_permissions c all_permissions require_all_permissions =
     (if all_permissions = [] then True
      else if require_all_permissions then all_permissions_required c all_permissions
      else one_of_permissions_or_auth_filter_required c all_permissions)"

text \<open>Model instances are equal when their model and primary key are; \<open>None == None\<close> is true.\<close>

fun same_instance :: "requestor option \<Rightarrow> requestor option \<Rightarrow> bool" where
  "same_instance None None = True"
| "same_instance (Some (UserRequestor u)) (Some (UserRequestor v)) = (user_pk u = user_pk v)"
| "same_instance (Some (AppRequestor a)) (Some (AppRequestor b)) = (app_pk a = app_pk b)"
| "same_instance _ _ = False"

definition is_owner_or_has_one_of_perms ::
    "requestor option \<Rightarrow> requestor option \<Rightarrow> permission list \<Rightarrow> bool" where
  "is_owner_or_has_one_of_perms requestor owner perms \<longleftrightarrow>
     same_instance requestor owner \<or> has_one_of_permissions requestor perms"

text \<open>
  \<open>ChannelUpdate.check_permissions\<close>: \<open>input_keys\<close> are the keys of the mutation's input. A user
  without \<open>MANAGE_CHANNELS\<close> may still change the settings groups whose permission is theirs.
\<close>

definition settings_per_permission_map :: "string \<Rightarrow> permission option" where
  "settings_per_permission_map = map_of
     [(''order_settings'', MANAGE_ORDERS),
      (''checkout_settings'', MANAGE_CHECKOUTS),
      (''payment_settings'', HANDLE_PAYMENTS)]"

definition channel_update_check_permissions :: "request_context \<Rightarrow> string list \<Rightarrow> bool" where
  "channel_update_check_permissions c input_keys =
     (let has_permission = check_permissions c [Perm MANAGE_CHANNELS] False in
      if has_permission then has_permission
      else if \<exists>k \<in> set input_keys. settings_per_permission_map k = None then False
      else let permissions = List.map_filter (map_option Perm \<circ> settings_per_permission_map) input_keys
           in if permissions = [] then False
              else check_permissions c permissions True)"

subsection \<open>What the checks decide\<close>

lemma backend_effective:
  "backend_has_perm u p \<longleftrightarrow> user_is_active u \<and>
     (case user_effective_override u of Some ps \<Rightarrow> p \<in> set ps
      | None \<Rightarrow> user_is_superuser u \<or> p \<in> set (user_permissions u)
                \<or> (\<exists>g \<in> set (user_groups u). p \<in> set g))"
proof -
  have "set (get_permissions None) = UNIV"
    using permission_codename.all_members
    by (auto simp: get_permissions_def get_permissions_codename_def set_get_permissions_from_codenames)
  then show ?thesis
    by (auto simp: backend_has_perm_def effective_permissions_def Let_def split: option.splits)
qed

lemma any_permission_required_iff:
  "any_permission_required r ps \<longleftrightarrow> (\<exists>p \<in> set ps. permission_required (Some r) [p])"
  by (induction ps) auto

lemma permission_required_single:
  "permission_required (Some r) [p] \<longleftrightarrow>
     requestor_has_perm r p \<and> (case r of AppRequestor _ \<Rightarrow> p \<noteq> MANAGE_STAFF | UserRequestor _ \<Rightarrow> True)"
  by (cases r) (auto simp: has_perms_def app_has_perms_def app_has_perm_def)

text \<open>
  A requestor passes exactly when no permission is asked for or when it holds one of them,
  where an app never passes by MANAGE_STAFF
\<close>

theorem has_one_of_permissions_iff:
  "has_one_of_permissions requestor ps \<longleftrightarrow> ps = [] \<or>
     (\<exists>r. requestor = Some r \<and> (\<exists>p \<in> set ps. requestor_has_perm r p
        \<and> (case r of AppRequestor _ \<Rightarrow> p \<noteq> MANAGE_STAFF | UserRequestor _ \<Rightarrow> True)))"
  by (auto simp: has_one_of_permissions_def any_permission_required_iff permission_required_single
      split: option.splits)

text \<open>What a user may do: an active user has what a token's restriction lists when it lists
  anything, a superuser everything when there is no restriction or an empty one, any other user
  what is granted directly or through a group\<close>

theorem has_perm_iff:
  "has_perm u p \<longleftrightarrow> user_is_active u \<and>
     (case user_effective_override u of
        Some ps \<Rightarrow> p \<in> set ps \<or> (user_is_superuser u \<and> ps = [])
      | None \<Rightarrow> user_is_superuser u \<or> p \<in> set (user_permissions u)
                \<or> (\<exists>g \<in> set (user_groups u). p \<in> set g))"
  by (auto simp: has_perm_def backend_effective split: option.splits)

text \<open>
  Turning enum members into their dotted values and reading the values back as permissions,
  which drops the application label, selects exactly these members.
\<close>

theorem get_permissions_of_values:
  "set (get_permissions (Some (map permission_value ps))) = set ps"
  by (auto simp: get_permissions_def set_get_permissions_from_codenames
      permission_codename.str_of_inject)

definition channel_setting_perms :: "string list \<Rightarrow> permission list" where
  "channel_setting_perms input_keys = List.map_filter settings_per_permission_map input_keys"

lemma map_filter_Perm:
  "List.map_filter (map_option Perm \<circ> settings_per_permission_map) ks = map Perm (channel_setting_perms ks)"
  by (induction ks) (auto simp: channel_setting_perms_def List.map_filter_simps split: option.splits)

lemma rule_perms_Perm [simp]: "rule_perms (map Perm ps) = ps" "rule_auths (map Perm ps) = []"
  by (induction ps) auto

lemma checks_Perm:
  "get_result_of_authorization_filters_checks c (map Perm ps) = []"
  "get_result_of_permissions_checks c (map Perm ps) =
     (case get_user_or_app_from_context c of None \<Rightarrow> [] | Some r \<Rightarrow> map (requestor_has_perm r) ps)"
  by (simp_all add: get_result_of_authorization_filters_checks_def
      get_result_of_permissions_checks_def List.map_filter_simps split: option.splits)

lemma check_permissions_Perm:
  "ps \<noteq> [] \<Longrightarrow> check_permissions c (map Perm ps) require_all \<longleftrightarrow>
     (case get_user_or_app_from_context c of
        None \<Rightarrow> require_all
      | Some r \<Rightarrow> if require_all then \<forall>p \<in> set ps. requestor_has_perm r p
                  else \<exists>p \<in> set ps. requestor_has_perm r p)"
  by (auto simp: check_permissions_def all_permissions_required_def checks_Perm list_all_iff
      one_of_permissions_or_auth_filter_required_def list_ex_iff split: option.splits)

lemma channel_setting_perms_empty:
  "\<forall>k \<in> set ks. settings_per_permission_map k \<noteq> None \<Longrightarrow> channel_setting_perms ks = [] \<longleftrightarrow> ks = []"
  by (cases ks) (auto simp: channel_setting_perms_def List.map_filter_simps)

text \<open>Who may run the channel update: an identified requestor needs MANAGE_CHANNELS, or a non-
  empty input of settings groups only, holding the permission of every group named; a request
  without user and app passes as soon as its input names settings groups only\<close>

theorem channel_update_check:
  "channel_update_check_permissions c ks \<longleftrightarrow>
     (case get_user_or_app_from_context c of
        Some r \<Rightarrow> requestor_has_perm r MANAGE_CHANNELS
           \<or> (ks \<noteq> [] \<and> (\<forall>k \<in> set ks. \<exists>p. settings_per_permission_map k = Some p \<and> requestor_has_perm r p))
      | None \<Rightarrow> ks \<noteq> [] \<and> (\<forall>k \<in> set ks. settings_per_permission_map k \<noteq> None))"
proof -
  have chan: "check_permissions c [Perm MANAGE_CHANNELS] False \<longleftrightarrow>
      (case get_user_or_app_from_context c of None \<Rightarrow> False | Some r \<Rightarrow> requestor_has_perm r MANAGE_CHANNELS)"
    using check_permissions_Perm [of "[MANAGE_CHANNELS]" c False] by (simp split: option.splits)
  show ?thesis
  proof (cases "\<forall>k \<in> set ks. settings_per_permission_map k \<noteq> None")
    case False
    then show ?thesis
      by (auto simp: channel_update_check_permissions_def chan split: option.splits)
  next
    case True
    have "set (channel_setting_perms ks) = {p. \<exists>k \<in> set ks. settings_per_permission_map k = Some p}"
      by (induction ks) (auto simp: channel_setting_perms_def List.map_filter_simps split: option.splits)
    with True channel_setting_perms_empty [OF True] show ?thesis
      by (auto simp: channel_update_check_permissions_def chan map_filter_Perm check_permissions_Perm
          split: option.splits) fastforce+
  qed
qed

text \<open>Nobody may change the order settings of a channel, and does.\<close>

lemma channel_update_check_witness:
  "channel_update_check_permissions \<lparr>ctx_app = None, ctx_user = None\<rparr> [''order_settings'']
   \<and> \<not> channel_update_check_permissions \<lparr>ctx_app = None, ctx_user = None\<rparr> [''name'']"
  by (simp add: channel_update_check get_user_or_app_from_context_def settings_per_permission_map_def)

end
