(* ===== verification/Choices.thy ===== *)
theory Choices
  imports Prelude
begin

section \<open>The choice classes\<close>

text \<open>
  The classes of string constants the code uses as enumerations, one datatype each: the
  constructor \<open>Class_MEMBER\<close> is the class attribute \<open>Class.MEMBER\<close>, \<open>class_str\<close> its string as
  stored in the database, \<open>class_members\<close> the attributes in the order of the class body and
  \<open>class_choices\<close> the members its \<open>CHOICES\<close> lists, in that order (the labels shown to users are
  not modelled). Each interprets \<open>choice_class\<close>: the stored string determines the member.
\<close>

subsection \<open>\<open>DonationStatus\<close> (\<^verbatim>\<open>saleor/donation/__init__.py\<close>)\<close>

datatype donation_status =
    DonationStatus_UNREVIEWED | DonationStatus_COMPLETED | DonationStatus_REJECTED

fun donation_status_str :: "donation_status \<Rightarrow> string" where
  "donation_status_str DonationStatus_UNREVIEWED = ''unreviewed''"
| "donation_status_str DonationStatus_COMPLETED = ''completed''"
| "donation_status_str DonationStatus_REJECTED = ''rejected''"

definition donation_status_members :: "donation_status list" where
  "donation_status_members = [
     DonationStatus_UNREVIEWED, DonationStatus_COMPLETED, DonationStatus_REJECTED]"

definition donation_status_choices :: "donation_status list" where
  "donation_status_choices = [
     DonationStatus_UNREVIEWED, DonationStatus_COMPLETED, DonationStatus_REJECTED]"

interpretation donation_status: choice_class donation_status_members donation_status_str
proof
  show "distinct (map donation_status_str donation_status_members)"
    by (simp add: donation_status_members_def)
  show "c \<in> set donation_status_members" for c
    by (cases c) (simp_all add: donation_status_members_def)
qed

lemma donation_status_choices_complete:
  "set donation_status_choices = UNIV - {}"
  using donation_status.all_members by (auto simp: donation_status_choices_def donation_status_members_def)

subsection \<open>\<open>BalanceEvents\<close> (\<^verbatim>\<open>saleor/account/__init__.py\<close>)\<close>

datatype balance_events =
    BalanceEvents_DONATION_GRANTED | BalanceEvents_DONATION_REJECTED |
    BalanceEvents_MANUALLY_UPDATED | BalanceEvents_FIRST_LOGIN |
    BalanceEvents_INVITE_NEW_USER | BalanceEvents_SPECIAL_EVENT | BalanceEvents_BONUS |
    BalanceEvents_POOR_SIGN | BalanceEvents_CONSECUTIVE_LOGIN | BalanceEvents_CONSUMED |
    BalanceEvents_REFUNDED | BalanceEvents_OTHER | BalanceEvents_INVITATION_ACCEPTED

fun balance_events_str :: "balance_events \<Rightarrow> string" where
  "balance_events_str BalanceEvents_DONATION_GRANTED = ''donation_granted''"
| "balance_events_str BalanceEvents_DONATION_REJECTED = ''donation_rejected''"
| "balance_events_str BalanceEvents_MANUALLY_UPDATED = ''manually_updated''"
| "balance_events_str BalanceEvents_FIRST_LOGIN = ''first_login''"
| "balance_events_str BalanceEvents_INVITE_NEW_USER = ''invite_new_user''"
| "balance_events_str BalanceEvents_SPECIAL_EVENT = ''special_event''"
| "balance_events_str BalanceEvents_BONUS = ''bonus''"
| "balance_events_str BalanceEvents_POOR_SIGN = ''poor_sign''"
| "balance_events_str BalanceEvents_CONSECUTIVE_LOGIN = ''consecutive_login''"
| "balance_events_str BalanceEvents_CONSUMED = ''consumed''"
| "balance_events_str BalanceEvents_REFUNDED = ''refunded''"
| "balance_events_str BalanceEvents_OTHER = ''other''"
| "balance_events_str BalanceEvents_INVITATION_ACCEPTED = ''invitation_accepted''"

definition balance_events_members :: "balance_events list" where
  "balance_events_members = [
     BalanceEvents_DONATION_GRANTED, BalanceEvents_DONATION_REJECTED,
     BalanceEvents_MANUALLY_UPDATED, BalanceEvents_FIRST_LOGIN, BalanceEvents_INVITE_NEW_USER,
     BalanceEvents_SPECIAL_EVENT, BalanceEvents_BONUS, BalanceEvents_POOR_SIGN,
     BalanceEvents_CONSECUTIVE_LOGIN, BalanceEvents_CONSUMED, BalanceEvents_REFUNDED,
     BalanceEvents_OTHER, BalanceEvents_INVITATION_ACCEPTED]"

definition balance_events_choices :: "balance_events list" where
  "balance_events_choices = [
     BalanceEvents_DONATION_GRANTED, BalanceEvents_DONATION_REJECTED,
     BalanceEvents_FIRST_LOGIN, BalanceEvents_MANUALLY_UPDATED,
     BalanceEvents_CONSECUTIVE_LOGIN, BalanceEvents_CONSUMED, BalanceEvents_REFUNDED,
     BalanceEvents_INVITE_NEW_USER, BalanceEvents_SPECIAL_EVENT, BalanceEvents_BONUS,
     BalanceEvents_POOR_SIGN, BalanceEvents_OTHER, BalanceEvents_INVITATION_ACCEPTED]"

interpretation balance_events: choice_class balance_events_members balance_events_str
proof
  show "distinct (map balance_events_str balance_events_members)"
    by (simp add: balance_events_members_def)
  show "c \<in> set balance_events_members" for c
    by (cases c) (simp_all add: balance_events_members_def)
qed

lemma balance_events_choices_complete:
  "set balance_events_choices = UNIV - {}"
  using balance_events.all_members by (auto simp: balance_events_choices_def balance_events_members_def)

subsection \<open>\<open>CustomerEvents\<close> (\<^verbatim>\<open>saleor/account/__init__.py\<close>)\<close>

datatype customer_events =
    CustomerEvents_ACCOUNT_CREATED | CustomerEvents_ACCOUNT_ACTIVATED |
    CustomerEvents_ACCOUNT_DEACTIVATED | CustomerEvents_PASSWORD_RESET_LINK_SENT |
    CustomerEvents_PASSWORD_RESET | CustomerEvents_PASSWORD_CHANGED |
    CustomerEvents_EMAIL_CHANGE_REQUEST | CustomerEvents_EMAIL_CHANGED |
    CustomerEvents_PLACED_ORDER | CustomerEvents_NOTE_ADDED_TO_ORDER |
    CustomerEvents_DIGITAL_LINK_DOWNLOADED | CustomerEvents_CUSTOMER_DELETED |
    CustomerEvents_EMAIL_ASSIGNED | CustomerEvents_NAME_ASSIGNED | CustomerEvents_NOTE_ADDED

fun customer_events_str :: "customer_events \<Rightarrow> string" where
  "customer_events_str CustomerEvents_ACCOUNT_CREATED = ''account_created''"
| "customer_events_str CustomerEvents_ACCOUNT_ACTIVATED = ''account_activated''"
| "customer_events_str CustomerEvents_ACCOUNT_DEACTIVATED = ''account_deactivated''"
| "customer_events_str CustomerEvents_PASSWORD_RESET_LINK_SENT = ''password_reset_link_sent''"
| "customer_events_str CustomerEvents_PASSWORD_RESET = ''password_reset''"
| "customer_events_str CustomerEvents_PASSWORD_CHANGED = ''password_changed''"
| "customer_events_str CustomerEvents_EMAIL_CHANGE_REQUEST = ''email_changed_request''"
| "customer_events_str CustomerEvents_EMAIL_CHANGED = ''email_changed''"
| "customer_events_str CustomerEvents_PLACED_ORDER = ''placed_order''"
| "customer_events_str CustomerEvents_NOTE_ADDED_TO_ORDER = ''note_added_to_order''"
| "customer_events_str CustomerEvents_DIGITAL_LINK_DOWNLOADED = ''digital_link_downloaded''"
| "customer_events_str CustomerEvents_CUSTOMER_DELETED = ''customer_deleted''"
| "customer_events_str CustomerEvents_EMAIL_ASSIGNED = ''email_assigned''"
| "customer_events_str CustomerEvents_NAME_ASSIGNED = ''name_assigned''"
| "customer_events_str CustomerEvents_NOTE_ADDED = ''note_added''"

definition customer_events_members :: "customer_events list" where
  "customer_events_members = [
     CustomerEvents_ACCOUNT_CREATED, CustomerEvents_ACCOUNT_ACTIVATED,
     CustomerEvents_ACCOUNT_DEACTIVATED, CustomerEvents_PASSWORD_RESET_LINK_SENT,
     CustomerEvents_PASSWORD_RESET, CustomerEvents_PASSWORD_CHANGED,
     CustomerEvents_EMAIL_CHANGE_REQUEST, CustomerEvents_EMAIL_CHANGED,
     CustomerEvents_PLACED_ORDER, CustomerEvents_NOTE_ADDED_TO_ORDER,
     CustomerEvents_DIGITAL_LINK_DOWNLOADED, CustomerEvents_CUSTOMER_DELETED,
     CustomerEvents_EMAIL_ASSIGNED, CustomerEvents_NAME_ASSIGNED, CustomerEvents_NOTE_ADDED]"

definition customer_events_choices :: "customer_events list" where
  "customer_events_choices = [
     CustomerEvents_ACCOUNT_CREATED, CustomerEvents_ACCOUNT_ACTIVATED,
     CustomerEvents_ACCOUNT_DEACTIVATED, CustomerEvents_PASSWORD_RESET_LINK_SENT,
     CustomerEvents_PASSWORD_RESET, CustomerEvents_EMAIL_CHANGE_REQUEST,
     CustomerEvents_PASSWORD_CHANGED, CustomerEvents_EMAIL_CHANGED,
     CustomerEvents_PLACED_ORDER, CustomerEvents_NOTE_ADDED_TO_ORDER,
     CustomerEvents_DIGITAL_LINK_DOWNLOADED, CustomerEvents_CUSTOMER_DELETED,
     CustomerEvents_NAME_ASSIGNED, CustomerEvents_EMAIL_ASSIGNED, CustomerEvents_NOTE_ADDED]"

interpretation customer_events: choice_class customer_events_members customer_events_str
proof
  show "distinct (map customer_events_str customer_events_members)"
    by (simp add: customer_events_members_def)
  show "c \<in> set customer_events_members" for c
    by (cases c) (simp_all add: customer_events_members_def)
qed

lemma customer_events_choices_complete:
  "set customer_events_choices = UNIV - {}"
  using customer_events.all_members by (auto simp: customer_events_choices_def customer_events_members_def)

subsection \<open>\<open>OrderStatus\<close> (\<^verbatim>\<open>saleor/order/__init__.py\<close>)\<close>

datatype order_status =
    OrderStatus_DRAFT | OrderStatus_UNCONFIRMED | OrderStatus_UNFULFILLED |
    OrderStatus_PARTIALLY_FULFILLED | OrderStatus_FULFILLED | OrderStatus_PARTIALLY_RETURNED |
    OrderStatus_RETURNED | OrderStatus_CANCELED | OrderStatus_EXPIRED | OrderStatus_LEASED |
    OrderStatus_REFUNDED

fun order_status_str :: "order_status \<Rightarrow> string" where
  "order_status_str OrderStatus_DRAFT = ''draft''"
| "order_status_str OrderStatus_UNCONFIRMED = ''unconfirmed''"
| "order_status_str OrderStatus_UNFULFILLED = ''unfulfilled''"
| "order_status_str OrderStatus_PARTIALLY_FULFILLED = ''partially fulfilled''"
| "order_status_str OrderStatus_FULFILLED = ''fulfilled''"
| "order_status_str OrderStatus_PARTIALLY_RETURNED = ''partially_returned''"
| "order_status_str OrderStatus_RETURNED = ''returned''"
| "order_status_str OrderStatus_CANCELED = ''canceled''"
| "order_status_str OrderStatus_EXPIRED = ''expired''"
| "order_status_str OrderStatus_LEASED = ''leased''"
| "order_status_str OrderStatus_REFUNDED = ''refunded''"

definition order_status_members :: "order_status list" where
  "order_status_members = [
     OrderStatus_DRAFT, OrderStatus_UNCONFIRMED, OrderStatus_UNFULFILLED,
     OrderStatus_PARTIALLY_FULFILLED, OrderStatus_FULFILLED, OrderStatus_PARTIALLY_RETURNED,
     OrderStatus_RETURNED, OrderStatus_CANCELED, OrderStatus_EXPIRED, OrderStatus_LEASED,
     OrderStatus_REFUNDED]"

definition order_status_choices :: "order_status list" where
  "order_status_choices = [
     OrderStatus_DRAFT, OrderStatus_UNCONFIRMED, OrderStatus_UNFULFILLED,
     OrderStatus_PARTIALLY_FULFILLED, OrderStatus_PARTIALLY_RETURNED, OrderStatus_RETURNED,
     OrderStatus_FULFILLED, OrderStatus_CANCELED, OrderStatus_EXPIRED, OrderStatus_LEASED]"

interpretation order_status: choice_class order_status_members order_status_str
proof
  show "distinct (map order_status_str order_status_members)"
    by (simp add: order_status_members_def)
  show "c \<in> set order_status_members" for c
    by (cases c) (simp_all add: order_status_members_def)
qed

lemma order_status_choices_complete:
  "set order_status_choices = UNIV - {OrderStatus_REFUNDED}"
  using order_status.all_members by (auto simp: order_status_choices_def order_status_members_def)

subsection \<open>\<open>OrderOrigin\<close> (\<^verbatim>\<open>saleor/order/__init__.py\<close>)\<close>

datatype order_origin =
    OrderOrigin_CHECKOUT | OrderOrigin_DRAFT | OrderOrigin_REISSUE | OrderOrigin_BULK_CREATE

fun order_origin_str :: "order_origin \<Rightarrow> string" where
  "order_origin_str OrderOrigin_CHECKOUT = ''checkout''"
| "order_origin_str OrderOrigin_DRAFT = ''draft''"
| "order_origin_str OrderOrigin_REISSUE = ''reissue''"
| "order_origin_str OrderOrigin_BULK_CREATE = ''bulk_create''"

definition order_origin_members :: "order_origin list" where
  "order_origin_members = [
     OrderOrigin_CHECKOUT, OrderOrigin_DRAFT, OrderOrigin_REISSUE, OrderOrigin_BULK_CREATE]"

definition order_origin_choices :: "order_origin list" where
  "order_origin_choices = [
     OrderOrigin_CHECKOUT, OrderOrigin_DRAFT, OrderOrigin_REISSUE, OrderOrigin_BULK_CREATE]"

interpretation order_origin: choice_class order_origin_members order_origin_str
proof
  show "distinct (map order_origin_str order_origin_members)"
    by (simp add: order_origin_members_def)
  show "c \<in> set order_origin_members" for c
    by (cases c) (simp_all add: order_origin_members_def)
qed

lemma order_origin_choices_complete:
  "set order_origin_choices = UNIV - {}"
  using order_origin.all_members by (auto simp: order_origin_choices_def order_origin_members_def)

subsection \<open>\<open>FulfillmentStatus\<close> (\<^verbatim>\<open>saleor/order/__init__.py\<close>)\<close>

datatype fulfillment_status =
    FulfillmentStatus_FULFILLED | FulfillmentStatus_REFUNDED | FulfillmentStatus_RETURNED |
    FulfillmentStatus_REFUNDED_AND_RETURNED | FulfillmentStatus_REPLACED |
    FulfillmentStatus_CANCELED | FulfillmentStatus_WAITING_FOR_APPROVAL

fun fulfillment_status_str :: "fulfillment_status \<Rightarrow> string" where
  "fulfillment_status_str FulfillmentStatus_FULFILLED = ''fulfilled''"
| "fulfillment_status_str FulfillmentStatus_REFUNDED = ''refunded''"
| "fulfillment_status_str FulfillmentStatus_RETURNED = ''returned''"
| "fulfillment_status_str FulfillmentStatus_REFUNDED_AND_RETURNED = ''refunded_and_returned''"
| "fulfillment_status_str FulfillmentStatus_REPLACED = ''replaced''"
| "fulfillment_status_str FulfillmentStatus_CANCELED = ''canceled''"
| "fulfillment_status_str FulfillmentStatus_WAITING_FOR_APPROVAL = ''waiting_for_approval''"

definition fulfillment_status_members :: "fulfillment_status list" where
  "fulfillment_status_members = [
     FulfillmentStatus_FULFILLED, FulfillmentStatus_REFUNDED, FulfillmentStatus_RETURNED,
     FulfillmentStatus_REFUNDED_AND_RETURNED, FulfillmentStatus_REPLACED,
     FulfillmentStatus_CANCELED, FulfillmentStatus_WAITING_FOR_APPROVAL]"

definition fulfillment_status_choices :: "fulfillment_status list" where
  "fulfillment_status_choices = [
     FulfillmentStatus_FULFILLED, FulfillmentStatus_REFUNDED, FulfillmentStatus_RETURNED,
     FulfillmentStatus_REPLACED, FulfillmentStatus_REFUNDED_AND_RETURNED,
     FulfillmentStatus_CANCELED, FulfillmentStatus_WAITING_FOR_APPROVAL]"

interpretation fulfillment_status: choice_class fulfillment_status_members fulfillment_status_str
proof
  show "distinct (map fulfillment_status_str fulfillment_status_members)"
    by (simp add: fulfillment_status_members_def)
  show "c \<in> set fulfillment_status_members" for c
    by (cases c) (simp_all add: fulfillment_status_members_def)
qed

lemma fulfillment_status_choices_complete:
  "set fulfillment_status_choices = UNIV - {}"
  using fulfillment_status.all_members by (auto simp: fulfillment_status_choices_def fulfillment_status_members_def)

subsection \<open>\<open>OrderEvents\<close> (\<^verbatim>\<open>saleor/order/__init__.py\<close>)\<close>

datatype order_events =
    OrderEvents_CONFIRMED | OrderEvents_DRAFT_CREATED |
    OrderEvents_DRAFT_CREATED_FROM_REPLACE | OrderEvents_ADDED_PRODUCTS |
    OrderEvents_REMOVED_PRODUCTS | OrderEvents_PLACED | OrderEvents_PLACED_FROM_DRAFT |
    OrderEvents_OVERSOLD_ITEMS | OrderEvents_CANCELED | OrderEvents_EXPIRED |
    OrderEvents_ORDER_MARKED_AS_PAID | OrderEvents_ORDER_FULLY_PAID |
    OrderEvents_ORDER_REPLACEMENT_CREATED | OrderEvents_ORDER_DISCOUNT_ADDED |
    OrderEvents_ORDER_DISCOUNT_AUTOMATICALLY_UPDATED | OrderEvents_ORDER_DISCOUNT_UPDATED |
    OrderEvents_ORDER_DISCOUNT_DELETED | OrderEvents_ORDER_LINE_DISCOUNT_UPDATED |
    OrderEvents_ORDER_LINE_DISCOUNT_REMOVED | OrderEvents_ORDER_LINE_PRODUCT_DELETED |
    OrderEvents_ORDER_LINE_VARIANT_DELETED | OrderEvents_UPDATED_ADDRESS |
    OrderEvents_EMAIL_SENT | OrderEvents_PAYMENT_AUTHORIZED | OrderEvents_PAYMENT_CAPTURED |
    OrderEvents_PAYMENT_REFUNDED | OrderEvents_PAYMENT_VOIDED | OrderEvents_PAYMENT_FAILED |
    OrderEvents_TRANSACTION_EVENT | OrderEvents_TRANSACTION_CHARGE_REQUESTED |
    OrderEvents_TRANSACTION_REFUND_REQUESTED | OrderEvents_TRANSACTION_CANCEL_REQUESTED |
    OrderEvents_TRANSACTION_MARK_AS_PAID_FAILED | OrderEvents_EXTERNAL_SERVICE_NOTIFICATION |
    OrderEvents_INVOICE_REQUESTED | OrderEvents_INVOICE_GENERATED |
    OrderEvents_INVOICE_UPDATED | OrderEvents_INVOICE_SENT | OrderEvents_FULFILLMENT_CANCELED |
    OrderEvents_FULFILLMENT_RESTOCKED_ITEMS | OrderEvents_FULFILLMENT_FULFILLED_ITEMS |
    OrderEvents_FULFILLMENT_REFUNDED | OrderEvents_FULFILLMENT_RETURNED |
    OrderEvents_FULFILLMENT_REPLACED | OrderEvents_FULFILLMENT_AWAITS_APPROVAL |
    OrderEvents_TRACKING_UPDATED | OrderEvents_NOTE_ADDED | OrderEvents_NOTE_UPDATED |
    OrderEvents_OTHER

fun order_events_str :: "order_events \<Rightarrow> string" where
  "order_events_str OrderEvents_CONFIRMED = ''confirmed''"
| "order_events_str OrderEvents_DRAFT_CREATED = ''draft_created''"
| "order_events_str OrderEvents_DRAFT_CREATED_FROM_REPLACE = ''draft_created_from_replace''"
| "order_events_str OrderEvents_ADDED_PRODUCTS = ''added_products''"
| "order_events_str OrderEvents_REMOVED_PRODUCTS = ''removed_products''"
| "order_events_str OrderEvents_PLACED = ''placed''"
| "order_events_str OrderEvents_PLACED_FROM_DRAFT = ''placed_from_draft''"
| "order_events_str OrderEvents_OVERSOLD_ITEMS = ''oversold_items''"
| "order_events_str OrderEvents_CANCELED = ''canceled''"
| "order_events_str OrderEvents_EXPIRED = ''expired''"
| "order_events_str OrderEvents_ORDER_MARKED_AS_PAID = ''order_marked_as_paid''"
| "order_events_str OrderEvents_ORDER_FULLY_PAID = ''order_fully_paid''"
| "order_events_str OrderEvents_ORDER_REPLACEMENT_CREATED = ''order_replacement_created''"
| "order_events_str OrderEvents_ORDER_DISCOUNT_ADDED = ''order_discount_added''"
| "order_events_str OrderEvents_ORDER_DISCOUNT_AUTOMATICALLY_UPDATED = ''order_discount_automatically_updated''"
| "order_events_str OrderEvents_ORDER_DISCOUNT_UPDATED = ''order_discount_updated''"
| "order_events_str OrderEvents_ORDER_DISCOUNT_DELETED = ''order_discount_deleted''"
| "order_events_str OrderEvents_ORDER_LINE_DISCOUNT_UPDATED = ''order_line_discount_updated''"
| "order_events_str OrderEvents_ORDER_LINE_DISCOUNT_REMOVED = ''order_line_discount_removed''"
| "order_events_str OrderEvents_ORDER_LINE_PRODUCT_DELETED = ''order_line_product_deleted''"
| "order_events_str OrderEvents_ORDER_LINE_VARIANT_DELETED = ''order_line_variant_deleted''"
| "order_events_str OrderEvents_UPDATED_ADDRESS = ''updated_address''"
| "order_events_str OrderEvents_EMAIL_SENT = ''email_sent''"
| "order_events_str OrderEvents_PAYMENT_AUTHORIZED = ''payment_authorized''"
| "order_events_str OrderEvents_PAYMENT_CAPTURED = ''payment_captured''"
| "order_events_str OrderEvents_PAYMENT_REFUNDED = ''payment_refunded''"
| "order_events_str OrderEvents_PAYMENT_VOIDED = ''payment_voided''"
| "order_events_str OrderEvents_PAYMENT_FAILED = ''payment_failed''"
| "order_events_str OrderEvents_TRANSACTION_EVENT = ''transaction_event''"
| "order_events_str OrderEvents_TRANSACTION_CHARGE_REQUESTED = ''transaction_charge_requested''"
| "order_events_str OrderEvents_TRANSACTION_REFUND_REQUESTED = ''transaction_refund_requested''"
| "order_events_str OrderEvents_TRANSACTION_CANCEL_REQUESTED = ''transaction_cancel_requested''"
| "order_events_str OrderEvents_TRANSACTION_MARK_AS_PAID_FAILED = ''transaction_mark_as_paid_failed''"
| "order_events_str OrderEvents_EXTERNAL_SERVICE_NOTIFICATION = ''external_service_notification''"
| "order_events_str OrderEvents_INVOICE_REQUESTED = ''invoice_requested''"
| "order_events_str OrderEvents_INVOICE_GENERATED = ''invoice_generated''"
| "order_events_str OrderEvents_INVOICE_UPDATED = ''invoice_updated''"
| "order_events_str OrderEvents_INVOICE_SENT = ''invoice_sent''"
| "order_events_str OrderEvents_FULFILLMENT_CANCELED = ''fulfillment_canceled''"
| "order_events_str OrderEvents_FULFILLMENT_RESTOCKED_ITEMS = ''fulfillment_restocked_items''"
| "order_events_str OrderEvents_FULFILLMENT_FULFILLED_ITEMS = ''fulfillment_fulfilled_items''"
| "order_events_str OrderEvents_FULFILLMENT_REFUNDED = ''fulfillment_refunded''"
| "order_events_str OrderEvents_FULFILLMENT_RETURNED = ''fulfillment_returned''"
| "order_events_str OrderEvents_FULFILLMENT_REPLACED = ''fulfillment_replaced''"
| "order_events_str OrderEvents_FULFILLMENT_AWAITS_APPROVAL = ''fulfillment_awaits_approval''"
| "order_events_str OrderEvents_TRACKING_UPDATED = ''tracking_updated''"
| "order_events_str OrderEvents_NOTE_ADDED = ''note_added''"
| "order_events_str OrderEvents_NOTE_UPDATED = ''note_updated''"
| "order_events_str OrderEvents_OTHER = ''other''"

definition order_events_members :: "order_events list" where
  "order_events_members = [
     OrderEvents_CONFIRMED, OrderEvents_DRAFT_CREATED, OrderEvents_DRAFT_CREATED_FROM_REPLACE,
     OrderEvents_ADDED_PRODUCTS, OrderEvents_REMOVED_PRODUCTS, OrderEvents_PLACED,
     OrderEvents_PLACED_FROM_DRAFT, OrderEvents_OVERSOLD_ITEMS, OrderEvents_CANCELED,
     OrderEvents_EXPIRED, OrderEvents_ORDER_MARKED_AS_PAID, OrderEvents_ORDER_FULLY_PAID,
     OrderEvents_ORDER_REPLACEMENT_CREATED, OrderEvents_ORDER_DISCOUNT_ADDED,
     OrderEvents_ORDER_DISCOUNT_AUTOMATICALLY_UPDATED, OrderEvents_ORDER_DISCOUNT_UPDATED,
     OrderEvents_ORDER_DISCOUNT_DELETED, OrderEvents_ORDER_LINE_DISCOUNT_UPDATED,
     OrderEvents_ORDER_LINE_DISCOUNT_REMOVED, OrderEvents_ORDER_LINE_PRODUCT_DELETED,
     OrderEvents_ORDER_LINE_VARIANT_DELETED, OrderEvents_UPDATED_ADDRESS,
     OrderEvents_EMAIL_SENT, OrderEvents_PAYMENT_AUTHORIZED, OrderEvents_PAYMENT_CAPTURED,
     OrderEvents_PAYMENT_REFUNDED, OrderEvents_PAYMENT_VOIDED, OrderEvents_PAYMENT_FAILED,
     OrderEvents_TRANSACTION_EVENT, OrderEvents_TRANSACTION_CHARGE_REQUESTED,
     OrderEvents_TRANSACTION_REFUND_REQUESTED, OrderEvents_TRANSACTION_CANCEL_REQUESTED,
     OrderEvents_TRANSACTION_MARK_AS_PAID_FAILED, OrderEvents_EXTERNAL_SERVICE_NOTIFICATION,
     OrderEvents_INVOICE_REQUESTED, OrderEvents_INVOICE_GENERATED, OrderEvents_INVOICE_UPDATED,
     OrderEvents_INVOICE_SENT, OrderEvents_FULFILLMENT_CANCELED,
     OrderEvents_FULFILLMENT_RESTOCKED_ITEMS, OrderEvents_FULFILLMENT_FULFILLED_ITEMS,
     OrderEvents_FULFILLMENT_REFUNDED, OrderEvents_FULFILLMENT_RETURNED,
     OrderEvents_FULFILLMENT_REPLACED, OrderEvents_FULFILLMENT_AWAITS_APPROVAL,
     OrderEvents_TRACKING_UPDATED, OrderEvents_NOTE_ADDED, OrderEvents_NOTE_UPDATED,
     OrderEvents_OTHER]"

definition order_events_choices :: "order_events list" where
  "order_events_choices = [
     OrderEvents_DRAFT_CREATED, OrderEvents_DRAFT_CREATED_FROM_REPLACE,
     OrderEvents_ADDED_PRODUCTS, OrderEvents_REMOVED_PRODUCTS, OrderEvents_PLACED,
     OrderEvents_PLACED_FROM_DRAFT, OrderEvents_OVERSOLD_ITEMS, OrderEvents_CANCELED,
     OrderEvents_EXPIRED, OrderEvents_ORDER_MARKED_AS_PAID, OrderEvents_ORDER_FULLY_PAID,
     OrderEvents_ORDER_REPLACEMENT_CREATED, OrderEvents_ORDER_DISCOUNT_ADDED,
     OrderEvents_ORDER_DISCOUNT_AUTOMATICALLY_UPDATED, OrderEvents_ORDER_DISCOUNT_UPDATED,
     OrderEvents_ORDER_DISCOUNT_DELETED, OrderEvents_ORDER_LINE_DISCOUNT_UPDATED,
     OrderEvents_ORDER_LINE_DISCOUNT_REMOVED, OrderEvents_ORDER_LINE_PRODUCT_DELETED,
     OrderEvents_ORDER_LINE_VARIANT_DELETED, OrderEvents_UPDATED_ADDRESS,
     OrderEvents_EMAIL_SENT, OrderEvents_CONFIRMED, OrderEvents_PAYMENT_AUTHORIZED,
     OrderEvents_PAYMENT_CAPTURED, OrderEvents_EXTERNAL_SERVICE_NOTIFICATION,
     OrderEvents_PAYMENT_REFUNDED, OrderEvents_PAYMENT_VOIDED, OrderEvents_PAYMENT_FAILED,
     OrderEvents_TRANSACTION_EVENT, OrderEvents_TRANSACTION_CHARGE_REQUESTED,
     OrderEvents_TRANSACTION_REFUND_REQUESTED, OrderEvents_TRANSACTION_CANCEL_REQUESTED,
     OrderEvents_TRANSACTION_MARK_AS_PAID_FAILED, OrderEvents_INVOICE_REQUESTED,
     OrderEvents_INVOICE_GENERATED, OrderEvents_INVOICE_UPDATED, OrderEvents_INVOICE_SENT,
     OrderEvents_FULFILLMENT_CANCELED, OrderEvents_FULFILLMENT_RESTOCKED_ITEMS,
     OrderEvents_FULFILLMENT_FULFILLED_ITEMS, OrderEvents_FULFILLMENT_REFUNDED,
     OrderEvents_FULFILLMENT_RETURNED, OrderEvents_FULFILLMENT_REPLACED,
     OrderEvents_FULFILLMENT_AWAITS_APPROVAL, OrderEvents_TRACKING_UPDATED,
     OrderEvents_NOTE_ADDED, OrderEvents_NOTE_UPDATED, OrderEvents_OTHER]"

interpretation order_events: choice_class order_events_members order_events_str
proof
  show "distinct (map order_events_str order_events_members)"
    by (simp add: order_events_members_def)
  show "c \<in> set order_events_members" for c
    by (cases c) (simp_all add: order_events_members_def)
qed

lemma order_events_choices_complete:
  "set order_events_choices = UNIV - {}"
  using order_events.all_members by (auto simp: order_events_choices_def order_events_members_def)

subsection \<open>\<open>OrderEventsEmails\<close> (\<^verbatim>\<open>saleor/order/__init__.py\<close>)\<close>

datatype order_events_emails =
    OrderEventsEmails_CONFIRMED | OrderEventsEmails_PAYMENT | OrderEventsEmails_SHIPPING |
    OrderEventsEmails_TRACKING_UPDATED | OrderEventsEmails_ORDER_CONFIRMATION |
    OrderEventsEmails_ORDER_CANCEL | OrderEventsEmails_ORDER_REFUND |
    OrderEventsEmails_FULFILLMENT | OrderEventsEmails_DIGITAL_LINKS

fun order_events_emails_str :: "order_events_emails \<Rightarrow> string" where
  "order_events_emails_str OrderEventsEmails_CONFIRMED = ''confirmed''"
| "order_events_emails_str OrderEventsEmails_PAYMENT = ''payment_confirmation''"
| "order_events_emails_str OrderEventsEmails_SHIPPING = ''shipping_confirmation''"
| "order_events_emails_str OrderEventsEmails_TRACKING_UPDATED = ''tracking_updated''"
| "order_events_emails_str OrderEventsEmails_ORDER_CONFIRMATION = ''order_confirmation''"
| "order_events_emails_str OrderEventsEmails_ORDER_CANCEL = ''order_cancel''"
| "order_events_emails_str OrderEventsEmails_ORDER_REFUND = ''order_refund''"
| "order_events_emails_str OrderEventsEmails_FULFILLMENT = ''fulfillment_confirmation''"
| "order_events_emails_str OrderEventsEmails_DIGITAL_LINKS = ''digital_links''"

definition order_events_emails_members :: "order_events_emails list" where
  "order_events_emails_members = [
     OrderEventsEmails_CONFIRMED, OrderEventsEmails_PAYMENT, OrderEventsEmails_SHIPPING,
     OrderEventsEmails_TRACKING_UPDATED, OrderEventsEmails_ORDER_CONFIRMATION,
     OrderEventsEmails_ORDER_CANCEL, OrderEventsEmails_ORDER_REFUND,
     OrderEventsEmails_FULFILLMENT, OrderEventsEmails_DIGITAL_LINKS]"

definition order_events_emails_choices :: "order_events_emails list" where
  "order_events_emails_choices = [
     OrderEventsEmails_PAYMENT, OrderEventsEmails_CONFIRMED, OrderEventsEmails_SHIPPING,
     OrderEventsEmails_TRACKING_UPDATED, OrderEventsEmails_ORDER_CONFIRMATION,
     OrderEventsEmails_ORDER_CANCEL, OrderEventsEmails_ORDER_REFUND,
     OrderEventsEmails_FULFILLMENT, OrderEventsEmails_DIGITAL_LINKS]"

interpretation order_events_emails: choice_class order_events_emails_members order_events_emails_str
proof
  show "distinct (map order_events_emails_str order_events_emails_members)"
    by (simp add: order_events_emails_members_def)
  show "c \<in> set order_events_emails_members" for c
    by (cases c) (simp_all add: order_events_emails_members_def)
qed

lemma order_events_emails_choices_complete:
  "set order_events_emails_choices = UNIV - {}"
  using order_events_emails.all_members by (auto simp: order_events_emails_choices_def order_events_emails_members_def)

subsection \<open>\<open>OrderAuthorizeStatus\<close> (\<^verbatim>\<open>saleor/order/__init__.py\<close>)\<close>

datatype order_authorize_status =
    OrderAuthorizeStatus_NONE | OrderAuthorizeStatus_PARTIAL | OrderAuthorizeStatus_FULL

fun order_authorize_status_str :: "order_authorize_status \<Rightarrow> string" where
  "order_authorize_status_str OrderAuthorizeStatus_NONE = ''none''"
| "order_authorize_status_str OrderAuthorizeStatus_PARTIAL = ''partial''"
| "order_authorize_status_str OrderAuthorizeStatus_FULL = ''full''"

definition order_authorize_status_members :: "order_authorize_status list" where
  "order_authorize_status_members = [
     OrderAuthorizeStatus_NONE, OrderAuthorizeStatus_PARTIAL, OrderAuthorizeStatus_FULL]"

definition order_authorize_status_choices :: "order_authorize_status list" where
  "order_authorize_status_choices = [
     OrderAuthorizeStatus_NONE, OrderAuthorizeStatus_PARTIAL, OrderAuthorizeStatus_FULL]"

interpretation order_authorize_status: choice_class order_authorize_status_members order_authorize_status_str
proof
  show "distinct (map order_authorize_status_str order_authorize_status_members)"
    by (simp add: order_authorize_status_members_def)
  show "c \<in> set order_authorize_status_members" for c
    by (cases c) (simp_all add: order_authorize_status_members_def)
qed

lemma order_authorize_status_choices_complete:
  "set order_authorize_status_choices = UNIV - {}"
  using order_authorize_status.all_members by (auto simp: order_authorize_status_choices_def order_authorize_status_members_def)

subsection \<open>\<open>OrderChargeStatus\<close> (\<^verbatim>\<open>saleor/order/__init__.py\<close>)\<close>

datatype order_charge_status =
    OrderChargeStatus_NONE | OrderChargeStatus_PARTIAL | OrderChargeStatus_FULL |
    OrderChargeStatus_OVERCHARGED

fun order_charge_status_str :: "order_charge_status \<Rightarrow> string" where
  "order_charge_status_str OrderChargeStatus_NONE = ''none''"
| "order_charge_status_str OrderChargeStatus_PARTIAL = ''partial''"
| "order_charge_status_str OrderChargeStatus_FULL = ''full''"
| "order_charge_status_str OrderChargeStatus_OVERCHARGED = ''overcharged''"

definition order_charge_status_members :: "order_charge_status list" where
  "order_charge_status_members = [
     OrderChargeStatus_NONE, OrderChargeStatus_PARTIAL, OrderChargeStatus_FULL,
     OrderChargeStatus_OVERCHARGED]"

definition order_charge_status_choices :: "order_charge_status list" where
  "order_charge_status_choices = [
     OrderChargeStatus_NONE, OrderChargeStatus_PARTIAL, OrderChargeStatus_FULL,
     OrderChargeStatus_OVERCHARGED]"

interpretation order_charge_status: choice_class order_charge_status_members order_charge_status_str
proof
  show "distinct (map order_charge_status_str order_charge_status_members)"
    by (simp add: order_charge_status_members_def)
  show "c \<in> set order_charge_status_members" for c
    by (cases c) (simp_all add: order_charge_status_members_def)
qed

lemma order_charge_status_choices_complete:
  "set order_charge_status_choices = UNIV - {}"
  using order_charge_status.all_members by (auto simp: order_charge_status_choices_def order_charge_status_members_def)

subsection \<open>\<open>StockUpdatePolicy\<close> (\<^verbatim>\<open>saleor/order/__init__.py\<close>)\<close>

datatype stock_update_policy =
    StockUpdatePolicy_SKIP | StockUpdatePolicy_UPDATE | StockUpdatePolicy_FORCE

fun stock_update_policy_str :: "stock_update_policy \<Rightarrow> string" where
  "stock_update_policy_str StockUpdatePolicy_SKIP = ''skip''"
| "stock_update_policy_str StockUpdatePolicy_UPDATE = ''update''"
| "stock_update_policy_str StockUpdatePolicy_FORCE = ''force''"

definition stock_update_policy_members :: "stock_update_policy list" where
  "stock_update_policy_members = [
     StockUpdatePolicy_SKIP, StockUpdatePolicy_UPDATE, StockUpdatePolicy_FORCE]"

definition stock_update_policy_choices :: "stock_update_policy list" where
  "stock_update_policy_choices = [
     StockUpdatePolicy_SKIP, StockUpdatePolicy_UPDATE, StockUpdatePolicy_FORCE]"

interpretation stock_update_policy: choice_class stock_update_policy_members stock_update_policy_str
proof
  show "distinct (map stock_update_policy_str stock_update_policy_members)"
    by (simp add: stock_update_policy_members_def)
  show "c \<in> set stock_update_policy_members" for c
    by (cases c) (simp_all add: stock_update_policy_members_def)
qed

lemma stock_update_policy_choices_complete:
  "set stock_update_policy_choices = UNIV - {}"
  using stock_update_policy.all_members by (auto simp: stock_update_policy_choices_def stock_update_policy_members_def)

subsection \<open>\<open>TransactionKind\<close> (\<^verbatim>\<open>saleor/payment/__init__.py\<close>)\<close>

datatype transaction_kind =
    TransactionKind_EXTERNAL | TransactionKind_AUTH | TransactionKind_CAPTURE |
    TransactionKind_CAPTURE_FAILED | TransactionKind_ACTION_TO_CONFIRM | TransactionKind_VOID |
    TransactionKind_PENDING | TransactionKind_REFUND | TransactionKind_REFUND_ONGOING |
    TransactionKind_REFUND_FAILED | TransactionKind_REFUND_REVERSED | TransactionKind_CONFIRM |
    TransactionKind_CANCEL

fun transaction_kind_str :: "transaction_kind \<Rightarrow> string" where
  "transaction_kind_str TransactionKind_EXTERNAL = ''external''"
| "transaction_kind_str TransactionKind_AUTH = ''auth''"
| "transaction_kind_str TransactionKind_CAPTURE = ''capture''"
| "transaction_kind_str TransactionKind_CAPTURE_FAILED = ''capture_failed''"
| "transaction_kind_str TransactionKind_ACTION_TO_CONFIRM = ''action_to_confirm''"
| "transaction_kind_str TransactionKind_VOID = ''void''"
| "transaction_kind_str TransactionKind_PENDING = ''pending''"
| "transaction_kind_str TransactionKind_REFUND = ''refund''"
| "transaction_kind_str TransactionKind_REFUND_ONGOING = ''refund_ongoing''"
| "transaction_kind_str TransactionKind_REFUND_FAILED = ''refund_failed''"
| "transaction_kind_str TransactionKind_REFUND_REVERSED = ''refund_reversed''"
| "transaction_kind_str TransactionKind_CONFIRM = ''confirm''"
| "transaction_kind_str TransactionKind_CANCEL = ''cancel''"

definition transaction_kind_members :: "transaction_kind list" where
  "transaction_kind_members = [
     TransactionKind_EXTERNAL, TransactionKind_AUTH, TransactionKind_CAPTURE,
     TransactionKind_CAPTURE_FAILED, TransactionKind_ACTION_TO_CONFIRM, TransactionKind_VOID,
     TransactionKind_PENDING, TransactionKind_REFUND, TransactionKind_REFUND_ONGOING,
     TransactionKind_REFUND_FAILED, TransactionKind_REFUND_REVERSED, TransactionKind_CONFIRM,
     TransactionKind_CANCEL]"

definition transaction_kind_choices :: "transaction_kind list" where
  "transaction_kind_choices = [
     TransactionKind_EXTERNAL, TransactionKind_AUTH, TransactionKind_PENDING,
     TransactionKind_ACTION_TO_CONFIRM, TransactionKind_REFUND, TransactionKind_REFUND_ONGOING,
     TransactionKind_CAPTURE, TransactionKind_VOID, TransactionKind_CONFIRM,
     TransactionKind_CANCEL]"

interpretation transaction_kind: choice_class transaction_kind_members transaction_kind_str
proof
  show "distinct (map transaction_kind_str transaction_kind_members)"
    by (simp add: transaction_kind_members_def)
  show "c \<in> set transaction_kind_members" for c
    by (cases c) (simp_all add: transaction_kind_members_def)
qed

lemma transaction_kind_choices_complete:
  "set transaction_kind_choices = UNIV - {TransactionKind_CAPTURE_FAILED, TransactionKind_REFUND_FAILED, TransactionKind_REFUND_REVERSED}"
  using transaction_kind.all_members by (auto simp: transaction_kind_choices_def transaction_kind_members_def)

subsection \<open>\<open>ChargeStatus\<close> (\<^verbatim>\<open>saleor/payment/__init__.py\<close>)\<close>

datatype charge_status =
    ChargeStatus_NOT_CHARGED | ChargeStatus_PENDING | ChargeStatus_PARTIALLY_CHARGED |
    ChargeStatus_FULLY_CHARGED | ChargeStatus_PARTIALLY_REFUNDED |
    ChargeStatus_FULLY_REFUNDED | ChargeStatus_REFUSED | ChargeStatus_CANCELLED

fun charge_status_str :: "charge_status \<Rightarrow> string" where
  "charge_status_str ChargeStatus_NOT_CHARGED = ''not-charged''"
| "charge_status_str ChargeStatus_PENDING = ''pending''"
| "charge_status_str ChargeStatus_PARTIALLY_CHARGED = ''partially-charged''"
| "charge_status_str ChargeStatus_FULLY_CHARGED = ''fully-charged''"
| "charge_status_str ChargeStatus_PARTIALLY_REFUNDED = ''partially-refunded''"
| "charge_status_str ChargeStatus_FULLY_REFUNDED = ''fully-refunded''"
| "charge_status_str ChargeStatus_REFUSED = ''refused''"
| "charge_status_str ChargeStatus_CANCELLED = ''cancelled''"

definition charge_status_members :: "charge_status list" where
  "charge_status_members = [
     ChargeStatus_NOT_CHARGED, ChargeStatus_PENDING, ChargeStatus_PARTIALLY_CHARGED,
     ChargeStatus_FULLY_CHARGED, ChargeStatus_PARTIALLY_REFUNDED, ChargeStatus_FULLY_REFUNDED,
     ChargeStatus_REFUSED, ChargeStatus_CANCELLED]"

definition charge_status_choices :: "charge_status list" where
  "charge_status_choices = [
     ChargeStatus_NOT_CHARGED, ChargeStatus_PENDING, ChargeStatus_PARTIALLY_CHARGED,
     ChargeStatus_FULLY_CHARGED, ChargeStatus_PARTIALLY_REFUNDED, ChargeStatus_FULLY_REFUNDED,
     ChargeStatus_REFUSED, ChargeStatus_CANCELLED]"

interpretation charge_status: choice_class charge_status_members charge_status_str
proof
  show "distinct (map charge_status_str charge_status_members)"
    by (simp add: charge_status_members_def)
  show "c \<in> set charge_status_members" for c
    by (cases c) (simp_all add: charge_status_members_def)
qed

lemma charge_status_choices_complete:
  "set charge_status_choices = UNIV - {}"
  using charge_status.all_members by (auto simp: charge_status_choices_def charge_status_members_def)

subsection \<open>\<open>StorePaymentMethod\<close> (\<^verbatim>\<open>saleor/payment/__init__.py\<close>)\<close>

datatype store_payment_method =
    StorePaymentMethod_ON_SESSION | StorePaymentMethod_OFF_SESSION | StorePaymentMethod_NONE

fun store_payment_method_str :: "store_payment_method \<Rightarrow> string" where
  "store_payment_method_str StorePaymentMethod_ON_SESSION = ''on_session''"
| "store_payment_method_str StorePaymentMethod_OFF_SESSION = ''off_session''"
| "store_payment_method_str StorePaymentMethod_NONE = ''none''"

definition store_payment_method_members :: "store_payment_method list" where
  "store_payment_method_members = [
     StorePaymentMethod_ON_SESSION, StorePaymentMethod_OFF_SESSION, StorePaymentMethod_NONE]"

definition store_payment_method_choices :: "store_payment_method list" where
  "store_payment_method_choices = [
     StorePaymentMethod_ON_SESSION, StorePaymentMethod_OFF_SESSION, StorePaymentMethod_NONE]"

interpretation store_payment_method: choice_class store_payment_method_members store_payment_method_str
proof
  show "distinct (map store_payment_method_str store_payment_method_members)"
    by (simp add: store_payment_method_members_def)
  show "c \<in> set store_payment_method_members" for c
    by (cases c) (simp_all add: store_payment_method_members_def)
qed

lemma store_payment_method_choices_complete:
  "set store_payment_method_choices = UNIV - {}"
  using store_payment_method.all_members by (auto simp: store_payment_method_choices_def store_payment_method_members_def)

subsection \<open>\<open>TransactionAction\<close> (\<^verbatim>\<open>saleor/payment/__init__.py\<close>)\<close>

datatype transaction_action =
    TransactionAction_CHARGE | TransactionAction_REFUND | TransactionAction_CANCEL

fun transaction_action_str :: "transaction_action \<Rightarrow> string" where
  "transaction_action_str TransactionAction_CHARGE = ''charge''"
| "transaction_action_str TransactionAction_REFUND = ''refund''"
| "transaction_action_str TransactionAction_CANCEL = ''cancel''"

definition transaction_action_members :: "transaction_action list" where
  "transaction_action_members = [
     TransactionAction_CHARGE, TransactionAction_REFUND, TransactionAction_CANCEL]"

definition transaction_action_choices :: "transaction_action list" where
  "transaction_action_choices = [
     TransactionAction_CHARGE, TransactionAction_REFUND, TransactionAction_CANCEL]"

interpretation transaction_action: choice_class transaction_action_members transaction_action_str
proof
  show "distinct (map transaction_action_str transaction_action_members)"
    by (simp add: transaction_action_members_def)
  show "c \<in> set transaction_action_members" for c
    by (cases c) (simp_all add: transaction_action_members_def)
qed

lemma transaction_action_choices_complete:
  "set transaction_action_choices = UNIV - {}"
  using transaction_action.all_members by (auto simp: transaction_action_choices_def transaction_action_members_def)

subsection \<open>\<open>TransactionEventType\<close> (\<^verbatim>\<open>saleor/payment/__init__.py\<close>)\<close>

datatype transaction_event_type =
    TransactionEventType_AUTHORIZATION_SUCCESS | TransactionEventType_AUTHORIZATION_FAILURE |
    TransactionEventType_AUTHORIZATION_ADJUSTMENT |
    TransactionEventType_AUTHORIZATION_REQUEST |
    TransactionEventType_AUTHORIZATION_ACTION_REQUIRED | TransactionEventType_CHARGE_SUCCESS |
    TransactionEventType_CHARGE_FAILURE | TransactionEventType_CHARGE_BACK |
    TransactionEventType_CHARGE_ACTION_REQUIRED | TransactionEventType_CHARGE_REQUEST |
    TransactionEventType_REFUND_SUCCESS | TransactionEventType_REFUND_FAILURE |
    TransactionEventType_REFUND_REVERSE | TransactionEventType_REFUND_REQUEST |
    TransactionEventType_CANCEL_SUCCESS | TransactionEventType_CANCEL_FAILURE |
    TransactionEventType_CANCEL_REQUEST | TransactionEventType_INFO

fun transaction_event_type_str :: "transaction_event_type \<Rightarrow> string" where
  "transaction_event_type_str TransactionEventType_AUTHORIZATION_SUCCESS = ''authorization_success''"
| "transaction_event_type_str TransactionEventType_AUTHORIZATION_FAILURE = ''authorization_failure''"
| "transaction_event_type_str TransactionEventType_AUTHORIZATION_ADJUSTMENT = ''authorization_adjustment''"
| "transaction_event_type_str TransactionEventType_AUTHORIZATION_REQUEST = ''authorization_request''"
| "transaction_event_type_str TransactionEventType_AUTHORIZATION_ACTION_REQUIRED = ''authorization_action_required''"
| "transaction_event_type_str TransactionEventType_CHARGE_SUCCESS = ''charge_success''"
| "transaction_event_type_str TransactionEventType_CHARGE_FAILURE = ''charge_failure''"
| "transaction_event_type_str TransactionEventType_CHARGE_BACK = ''charge_back''"
| "transaction_event_type_str TransactionEventType_CHARGE_ACTION_REQUIRED = ''charge_action_required''"
| "transaction_event_type_str TransactionEventType_CHARGE_REQUEST = ''charge_request''"
| "transaction_event_type_str TransactionEventType_REFUND_SUCCESS = ''refund_success''"
| "transaction_event_type_str TransactionEventType_REFUND_FAILURE = ''refund_failure''"
| "transaction_event_type_str TransactionEventType_REFUND_REVERSE = ''refund_reverse''"
| "transaction_event_type_str TransactionEventType_REFUND_REQUEST = ''refund_request''"
| "transaction_event_type_str TransactionEventType_CANCEL_SUCCESS = ''cancel_success''"
| "transaction_event_type_str TransactionEventType_CANCEL_FAILURE = ''cancel_failure''"
| "transaction_event_type_str TransactionEventType_CANCEL_REQUEST = ''cancel_request''"
| "transaction_event_type_str TransactionEventType_INFO = ''info''"

definition transaction_event_type_members :: "transaction_event_type list" where
  "transaction_event_type_members = [
     TransactionEventType_AUTHORIZATION_SUCCESS, TransactionEventType_AUTHORIZATION_FAILURE,
     TransactionEventType_AUTHORIZATION_ADJUSTMENT, TransactionEventType_AUTHORIZATION_REQUEST,
     TransactionEventType_AUTHORIZATION_ACTION_REQUIRED, TransactionEventType_CHARGE_SUCCESS,
     TransactionEventType_CHARGE_FAILURE, TransactionEventType_CHARGE_BACK,
     TransactionEventType_CHARGE_ACTION_REQUIRED, TransactionEventType_CHARGE_REQUEST,
     TransactionEventType_REFUND_SUCCESS, TransactionEventType_REFUND_FAILURE,
     TransactionEventType_REFUND_REVERSE, TransactionEventType_REFUND_REQUEST,
     TransactionEventType_CANCEL_SUCCESS, TransactionEventType_CANCEL_FAILURE,
     TransactionEventType_CANCEL_REQUEST, TransactionEventType_INFO]"

definition transaction_event_type_choices :: "transaction_event_type list" where
  "transaction_event_type_choices = [
     TransactionEventType_AUTHORIZATION_SUCCESS, TransactionEventType_AUTHORIZATION_FAILURE,
     TransactionEventType_AUTHORIZATION_ADJUSTMENT, TransactionEventType_AUTHORIZATION_REQUEST,
     TransactionEventType_AUTHORIZATION_ACTION_REQUIRED,
     TransactionEventType_CHARGE_ACTION_REQUIRED, TransactionEventType_CHARGE_SUCCESS,
     TransactionEventType_CHARGE_FAILURE, TransactionEventType_CHARGE_BACK,
     TransactionEventType_CHARGE_REQUEST, TransactionEventType_REFUND_SUCCESS,
     TransactionEventType_REFUND_FAILURE, TransactionEventType_REFUND_REVERSE,
     TransactionEventType_REFUND_REQUEST, TransactionEventType_CANCEL_SUCCESS,
     TransactionEventType_CANCEL_FAILURE, TransactionEventType_CANCEL_REQUEST,
     TransactionEventType_INFO]"

interpretation transaction_event_type: choice_class transaction_event_type_members transaction_event_type_str
proof
  show "distinct (map transaction_event_type_str transaction_event_type_members)"
    by (simp add: transaction_event_type_members_def)
  show "c \<in> set transaction_event_type_members" for c
    by (cases c) (simp_all add: transaction_event_type_members_def)
qed

lemma transaction_event_type_choices_complete:
  "set transaction_event_type_choices = UNIV - {}"
  using transaction_event_type.all_members by (auto simp: transaction_event_type_choices_def transaction_event_type_members_def)

subsection \<open>\<open>WarehouseClickAndCollectOption\<close> (\<^verbatim>\<open>saleor/warehouse/__init__.py\<close>)\<close>

datatype warehouse_click_and_collect_option =
    WarehouseClickAndCollectOption_DISABLED | WarehouseClickAndCollectOption_LOCAL_STOCK |
    WarehouseClickAndCollectOption_ALL_WAREHOUSES

fun warehouse_click_and_collect_option_str :: "warehouse_click_and_collect_option \<Rightarrow> string" where
  "warehouse_click_and_collect_option_str WarehouseClickAndCollectOption_DISABLED = ''disabled''"
| "warehouse_click_and_collect_option_str WarehouseClickAndCollectOption_LOCAL_STOCK = ''local''"
| "warehouse_click_and_collect_option_str WarehouseClickAndCollectOption_ALL_WAREHOUSES = ''all''"

definition warehouse_click_and_collect_option_members :: "warehouse_click_and_collect_option list" where
  "warehouse_click_and_collect_option_members = [
     WarehouseClickAndCollectOption_DISABLED, WarehouseClickAndCollectOption_LOCAL_STOCK,
     WarehouseClickAndCollectOption_ALL_WAREHOUSES]"

definition warehouse_click_and_collect_option_choices :: "warehouse_click_and_collect_option list" where
  "warehouse_click_and_collect_option_choices = [
     WarehouseClickAndCollectOption_DISABLED, WarehouseClickAndCollectOption_LOCAL_STOCK,
     WarehouseClickAndCollectOption_ALL_WAREHOUSES]"

interpretation warehouse_click_and_collect_option: choice_class warehouse_click_and_collect_option_members warehouse_click_and_collect_option_str
proof
  show "distinct (map warehouse_click_and_collect_option_str warehouse_click_and_collect_option_members)"
    by (simp add: warehouse_click_and_collect_option_members_def)
  show "c \<in> set warehouse_click_and_collect_option_members" for c
    by (cases c) (simp_all add: warehouse_click_and_collect_option_members_def)
qed

lemma warehouse_click_and_collect_option_choices_complete:
  "set warehouse_click_and_collect_option_choices = UNIV - {}"
  using warehouse_click_and_collect_option.all_members by (auto simp: warehouse_click_and_collect_option_choices_def warehouse_click_and_collect_option_members_def)

subsection \<open>\<open>AllocationStrategy\<close> (\<^verbatim>\<open>saleor/channel/__init__.py\<close>)\<close>

datatype allocation_strategy =
    AllocationStrategy_PRIORITIZE_SORTING_ORDER | AllocationStrategy_PRIORITIZE_HIGH_STOCK

fun allocation_strategy_str :: "allocation_strategy \<Rightarrow> string" where
  "allocation_strategy_str AllocationStrategy_PRIORITIZE_SORTING_ORDER = ''prioritize-sorting-order''"
| "allocation_strategy_str AllocationStrategy_PRIORITIZE_HIGH_STOCK = ''prioritize-high-stock''"

definition allocation_strategy_members :: "allocation_strategy list" where
  "allocation_strategy_members = [
     AllocationStrategy_PRIORITIZE_SORTING_ORDER, AllocationStrategy_PRIORITIZE_HIGH_STOCK]"

definition allocation_strategy_choices :: "allocation_strategy list" where
  "allocation_strategy_choices = [
     AllocationStrategy_PRIORITIZE_SORTING_ORDER, AllocationStrategy_PRIORITIZE_HIGH_STOCK]"

interpretation allocation_strategy: choice_class allocation_strategy_members allocation_strategy_str
proof
  show "distinct (map allocation_strategy_str allocation_strategy_members)"
    by (simp add: allocation_strategy_members_def)
  show "c \<in> set allocation_strategy_members" for c
    by (cases c) (simp_all add: allocation_strategy_members_def)
qed

lemma allocation_strategy_choices_complete:
  "set allocation_strategy_choices = UNIV - {}"
  using allocation_strategy.all_members by (auto simp: allocation_strategy_choices_def allocation_strategy_members_def)

end
