(* ===== verification/Tables.thy ===== *)
theory Tables
  imports Permissions Choices
begin

section \<open>The database\<close>

text \<open>
  The rows of the tables that the credit components (accounts, donations, barcodes, the
  balance gateway, order confirmation) share, and the database \<open>db\<close> that holds them. Each
  table is a list of rows in primary-key order. A foreign key is the primary key of the row it
  refers to. \<open>charge_status\<close> of an order is kept as the string stored in the column, because
  two different classes of constants are written to it.
\<close>

record balance_event =
  bev_date :: datetime
  bev_type :: balance_events
  bev_number :: int
  bev_user :: nat
  bev_balance :: "decimal option"
  bev_delta :: "decimal option"

record customer_event =
  cev_date :: datetime
  cev_type :: customer_events
  cev_order :: "nat option"
  cev_parameters :: "(string \<times> json) list"
  cev_user :: "nat option"
  cev_app :: "nat option"

record donation =
  don_pk :: nat
  don_number :: int
  don_donator :: "string option"
  don_barcode :: "string option"
  don_created_at :: datetime
  don_updated_at :: datetime
  don_title :: "string option"
  don_description :: "string option"
  don_currency :: "string option"
  don_price_amount :: "decimal option"
  don_status :: donation_status
  don_quantity :: int

record barcode =
  bar_pk :: nat
  bar_year_month :: int
  bar_sub :: int
  bar_used :: bool
  bar_created_at :: datetime

record order =
  order_pk :: nat
  order_status :: order_status
  order_charge_status :: string
  order_user :: "nat option"
  order_user_email :: string
  order_created_at :: datetime
  order_updated_at :: datetime
  order_total_net_amount :: decimal
  order_total_gross_amount :: decimal
  order_total_charged_amount :: decimal
  order_display_gross_prices :: bool
  order_line_quantities :: "int list"

record payment =
  pay_pk :: nat
  pay_order :: "nat option"
  pay_gateway :: string
  pay_currency :: string
  pay_charge_status :: charge_status
  pay_total :: decimal
  pay_captured_amount :: decimal
  pay_partial :: bool

record order_event =
  oev_date :: datetime
  oev_type :: order_events
  oev_order :: nat
  oev_parameters :: "(string \<times> json) list"
  oev_user :: "nat option"
  oev_app :: "nat option"

record invitation =
  inv_code :: string
  inv_user :: "nat option"

record gift_card =
  gc_pk :: nat
  gc_code :: string
  gc_is_active :: bool
  gc_created_by :: "nat option"
  gc_used_by :: "nat option"
  gc_created_by_email :: "string option"
  gc_used_by_email :: "string option"
  gc_expiry_date :: "int option"
  gc_last_used_on :: "datetime option"
  gc_currency :: string
  gc_current_balance :: decimal
  gc_search_index_dirty :: bool

record db =
  users :: "user list"
  balance_events :: "balance_event list"
  customer_events :: "customer_event list"
  donations :: "donation list"
  barcodes :: "barcode list"
  orders :: "order list"
  payments :: "payment list"
  order_events :: "order_event list"
  invitations :: "invitation list"
  gift_cards :: "gift_card list"
  site_users :: int

subsection \<open>The credit ledger\<close>

text \<open>
  What an account's history says it holds: the sum of the deltas of its balance events (a NULL
  delta counts for nothing), and the state in which every stored balance is what the history
  says.
\<close>

definition event_delta :: "nat \<Rightarrow> balance_event \<Rightarrow> decimal" where
  "event_delta pk e = (if bev_user e = pk then case bev_delta e of None \<Rightarrow> 0 | Some d \<Rightarrow> d else 0)"

definition ledger_total :: "nat \<Rightarrow> balance_event list \<Rightarrow> decimal" where
  "ledger_total pk es = sum_rows (event_delta pk) es"

definition ledger_ok :: "db \<Rightarrow> bool" where
  "ledger_ok s \<longleftrightarrow>
     distinct (map user_pk (users s))
     \<and> (\<forall>u \<in> set (users s). user_balance u = ledger_total (user_pk u) (balance_events s))"

named_theorems ledger_simps \<open>how balance events add up\<close>

lemma ledger_total_Nil [ledger_simps, simp]: "ledger_total pk [] = 0"
  by (simp add: ledger_total_def)

lemma ledger_total_Cons [ledger_simps, simp]:
  "ledger_total pk (e # es) = event_delta pk e + ledger_total pk es"
  by (simp add: ledger_total_def)

lemma ledger_total_append [ledger_simps, simp]:
  "ledger_total pk (es @ es') = ledger_total pk es + ledger_total pk es'"
  by (simp add: ledger_total_def)

text \<open>
  The step every honest operation takes: one account's balance moves by \<open>d\<close> and an event with
  that delta is appended.
\<close>

lemma ledger_step:
  assumes ok: "ledger_ok s"
    and users: "users t = save_row user_pk pk f (users s)"
    and pk: "\<And>u. user_pk (f u) = user_pk u"
    and bal: "\<And>u. u \<in> set (users s) \<Longrightarrow> user_pk u = pk \<Longrightarrow> user_balance (f u) = user_balance u + d"
    and events: "balance_events t = balance_events s @ [e]"
    and e: "bev_user e = pk" "bev_delta e = Some d"
  shows "ledger_ok t"
proof -
  have keys: "map user_pk (users t) = map user_pk (users s)"
    by (simp add: users keys_save_row pk)
  have "user_balance u = ledger_total (user_pk u) (balance_events t)" if "u \<in> set (users t)" for u
  proof -
    from that obtain v where v: "v \<in> set (users s)" "u = (if user_pk v = pk then f v else v)"
      by (auto simp: users save_row_def)
    then show ?thesis
      using ok bal [of v] e by (auto simp: ledger_ok_def events event_delta_def pk)
  qed
  with ok keys show ?thesis by (simp add: ledger_ok_def)
qed

text \<open>Operations that touch neither balances, account keys nor balance events.\<close>

lemma ledger_frame:
  assumes "ledger_ok s" "balance_events t = balance_events s"
    and "map (\<lambda>u. (user_pk u, user_balance u)) (users t) =
         map (\<lambda>u. (user_pk u, user_balance u)) (users s)"
  shows "ledger_ok t"
proof -
  have pks: "map user_pk (users t) = map user_pk (users s)"
    using arg_cong [OF assms(3), of "map fst"] by (simp add: comp_def)
  have "user_balance u = ledger_total (user_pk u) (balance_events t)" if "u \<in> set (users t)" for u
  proof -
    from that have "(user_pk u, user_balance u) \<in> set (map (\<lambda>u. (user_pk u, user_balance u)) (users t))"
      by simp
    then have "(user_pk u, user_balance u) \<in> set (map (\<lambda>u. (user_pk u, user_balance u)) (users s))"
      by (simp only: assms(3))
    then obtain v where "v \<in> set (users s)" "user_pk v = user_pk u" "user_balance v = user_balance u"
      by auto
    with assms(1,2) show ?thesis by (auto simp: ledger_ok_def)
  qed
  with assms(1) pks show ?thesis by (simp add: ledger_ok_def)
qed

text \<open>Opening an account whose key is new and whose history is its opening balance.\<close>

lemma ledger_open:
  assumes ok: "ledger_ok s"
    and users: "users t = users s @ [u]"
    and fresh: "user_pk u \<notin> user_pk ` set (users s)"
    and no_history: "ledger_total (user_pk u) (balance_events s) = 0"
    and events: "balance_events t = balance_events s @ es"
    and es: "\<And>e. e \<in> set es \<Longrightarrow> bev_user e = user_pk u"
    and bal: "ledger_total (user_pk u) es = user_balance u"
  shows "ledger_ok t"
proof -
  have other: "ledger_total pk es = 0" if "pk \<noteq> user_pk u" for pk
    using es that by (induction es) (auto simp: event_delta_def)
  have "ledger_total (user_pk v) es = 0" if "v \<in> set (users s)" for v
  proof -
    from that fresh have "user_pk v \<noteq> user_pk u" by (metis image_eqI)
    then show ?thesis by (rule other)
  qed
  then show ?thesis
    using ok fresh no_history bal by (auto simp: ledger_ok_def users events)
qed

text \<open>
  The contract a component of the credit system keeps, and what follows for any sequence of its
  operations: the stored balances are always the history's.
\<close>

locale ledger_component =
  fixes step :: "'op \<Rightarrow> db \<Rightarrow> 'e + db"
  assumes step_keeps_ledger: "ledger_ok s \<Longrightarrow> step x s = Inr t \<Longrightarrow> ledger_ok t"
begin

lemma run_keeps_ledger: "ledger_ok s \<Longrightarrow> run_ops step xs s = Inr t \<Longrightarrow> ledger_ok t"
  by (rule run_ops_invariant [where I = ledger_ok]) (auto intro: step_keeps_ledger)

lemma run_balance:
  assumes "ledger_ok s" "run_ops step xs s = Inr t" "row_of user_pk pk (users t) = Some u"
  shows "user_balance u = ledger_total pk (balance_events t)"
proof -
  from assms(1,2) have "ledger_ok t" by (rule run_keeps_ledger)
  moreover from assms(3) have "u \<in> set (users t)" "user_pk u = pk"
    by (auto dest: row_of_SomeD)
  ultimately show ?thesis by (auto simp: ledger_ok_def)
qed

end

subsection \<open>Concrete databases\<close>

text \<open>An empty database and an account, for evaluating the operations on examples.\<close>

definition empty_db :: db where
  "empty_db = \<lparr>users = [], balance_events = [], customer_events = [], donations = [], barcodes = [],
     orders = [], payments = [], order_events = [], invitations = [], gift_cards = [], site_users = 0\<rparr>"

definition sample_user :: "nat \<Rightarrow> string \<Rightarrow> decimal \<Rightarrow> user" where
  "sample_user pk code balance =
     \<lparr>user_pk = pk, user_email = code @ ''@x'', user_code = code, user_account = code,
      user_first_name = [], user_last_name = [], user_type = ''student'', user_invited_by = [],
      user_balance = balance, user_continuous = 1, user_last_login = (2024, 3, 1, 0),
      user_date_joined = (2024, 1, 1, 0), user_updated_at = (2024, 1, 1, 0), user_is_staff = False,
      user_is_active = True, user_is_confirmed = True, user_is_superuser = False,
      user_billing_name = None, user_private_metadata = [], user_search_document = [],
      user_permissions = [ADD_DONATIONS, MANAGE_DONATIONS], user_groups = [],
      user_effective_override = None\<rparr>"

definition sample_event :: "nat \<Rightarrow> decimal \<Rightarrow> balance_event" where
  "sample_event pk delta =
     \<lparr>bev_date = (2024, 1, 1, 0), bev_type = BalanceEvents_FIRST_LOGIN, bev_number = 1,
      bev_user = pk, bev_balance = Some 0, bev_delta = Some delta\<rparr>"

definition sample_db :: db where
  "sample_db = empty_db\<lparr>users := [sample_user 1 ''A'' 5, sample_user 2 ''B'' 0],
     balance_events := [sample_event 1 5]\<rparr>"

definition sample_context :: request_context where
  "sample_context = \<lparr>ctx_app = None, ctx_user = Some (sample_user 1 ''A'' 5)\<rparr>"

lemmas sample_defs = empty_db_def sample_user_def sample_event_def sample_db_def sample_context_def

lemma sample_ledger_ok: "ledger_ok sample_db"
  by (simp add: ledger_ok_def sample_defs event_delta_def)

end
