(* ===== verification/Account.thy ===== *)
theory Account
  imports Tables
begin

section \<open>Accounts: events, logins, balances\<close>

text \<open>
  \<^verbatim>\<open>saleor/account/events.py\<close>, the parts of \<^verbatim>\<open>account/models.py\<close> that compute something
  (\<open>get_full_name\<close>, \<open>can_login\<close>, \<open>get_balance_event_number\<close>) and \<^verbatim>\<open>account/search.py\<close>
  (\<open>search_document\<close> of a user without addresses): balance events with their numbers, customer
  events, names. The logins are in \<^verbatim>\<open>Login\<close>, the mutations that set a balance in \<^verbatim>\<open>Credit\<close>.

  Parameters: \<open>now\<close> is the clock (\<open>timezone.now()\<close>, read once per call of an operation),
  \<open>to_shanghai\<close> is pytz's conversion to the time zone Asia/Shanghai, \<open>lower\<close> is \<open>str.lower\<close>.
\<close>

subsection \<open>Balance events\<close>

definition get_balance_event_number :: "datetime \<Rightarrow> balance_event list \<Rightarrow> int" where
  "get_balance_event_number now es =
     (let current_year_month = month_start now
      in int (length (filter (\<lambda>e. bev_date e \<ge> current_year_month) es)) + 1)"

definition create_balance_event ::
    "datetime \<Rightarrow> nat \<Rightarrow> balance_events \<Rightarrow> decimal option \<Rightarrow> decimal option \<Rightarrow> db \<Rightarrow> db" where
  "create_balance_event now user type balance delta s =
     s\<lparr>balance_events := balance_events s @
        [\<lparr>bev_date = now, bev_type = type,
          bev_number = get_balance_event_number now (balance_events s),
          bev_user = user, bev_balance = balance, bev_delta = delta\<rparr>]\<rparr>"

definition first_login_balance_event :: "datetime \<Rightarrow> user \<Rightarrow> db \<Rightarrow> db" where
  "first_login_balance_event now user =
     create_balance_event now (user_pk user) BalanceEvents_FIRST_LOGIN (Some 0) (Some 50)"

definition accept_invitation_balance_event :: "datetime \<Rightarrow> user \<Rightarrow> db \<Rightarrow> db" where
  "accept_invitation_balance_event now user =
     create_balance_event now (user_pk user) BalanceEvents_INVITATION_ACCEPTED (Some 0) (Some 25)"

definition consecutive_login_balance_event :: "datetime \<Rightarrow> user \<Rightarrow> decimal \<Rightarrow> db \<Rightarrow> db" where
  "consecutive_login_balance_event now user delta =
     create_balance_event now (user_pk user) BalanceEvents_CONSECUTIVE_LOGIN
       (Some (user_balance user)) (Some delta)"

definition change_balance_event :: "datetime \<Rightarrow> user \<Rightarrow> decimal \<Rightarrow> db \<Rightarrow> db" where
  "change_balance_event now user balance =
     create_balance_event now (user_pk user) BalanceEvents_MANUALLY_UPDATED
       (Some balance) (Some (balance - user_balance user))"

definition donation_granted_balance_event :: "datetime \<Rightarrow> user \<Rightarrow> donation \<Rightarrow> db \<Rightarrow> db" where
  "donation_granted_balance_event now user donation =
     create_balance_event now (user_pk user) BalanceEvents_DONATION_GRANTED
       (Some (user_balance user)) (don_price_amount donation)"

definition consumption_balance_event :: "datetime \<Rightarrow> user \<Rightarrow> order \<Rightarrow> db \<Rightarrow> db" where
  "consumption_balance_event now user order =
     create_balance_event now (user_pk user) BalanceEvents_CONSUMED
       (Some (user_balance user)) (Some (- order_total_net_amount order))"

text \<open>\<open>donation.price_amount or 0\<close>\<close>

definition price_or_zero :: "donation \<Rightarrow> decimal" where
  "price_or_zero donation = (case don_price_amount donation of None \<Rightarrow> 0 | Some p \<Rightarrow> p)"

definition donation_rejected_balance_event :: "datetime \<Rightarrow> user \<Rightarrow> donation \<Rightarrow> db \<Rightarrow> db" where
  "donation_rejected_balance_event now user donation =
     create_balance_event now (user_pk user) BalanceEvents_DONATION_REJECTED
       (Some (user_balance user)) (Some (- price_or_zero donation))"

definition refunded_balance_event :: "datetime \<Rightarrow> user \<Rightarrow> decimal \<Rightarrow> db \<Rightarrow> db" where
  "refunded_balance_event now user amount =
     create_balance_event now (user_pk user) BalanceEvents_REFUNDED
       (Some (user_balance user)) (Some amount)"

lemmas balance_event_defs =
  first_login_balance_event_def accept_invitation_balance_event_def
  consecutive_login_balance_event_def change_balance_event_def
  donation_granted_balance_event_def consumption_balance_event_def
  donation_rejected_balance_event_def refunded_balance_event_def

lemma create_balance_event_simps [simp]:
  "users (create_balance_event now u ty b d s) = users s"
  "donations (create_balance_event now u ty b d s) = donations s"
  "orders (create_balance_event now u ty b d s) = orders s"
  "payments (create_balance_event now u ty b d s) = payments s"
  "invitations (create_balance_event now u ty b d s) = invitations s"
  "customer_events (create_balance_event now u ty b d s) = customer_events s"
  "order_events (create_balance_event now u ty b d s) = order_events s"
  "site_users (create_balance_event now u ty b d s) = site_users s"
  "barcodes (create_balance_event now u ty b d s) = barcodes s"
  by (simp_all add: create_balance_event_def)

interpretation balance_number: month_numbered bev_date bev_number get_balance_event_number
  by standard (simp add: get_balance_event_number_def)

text \<open>A history of balance events written one after the other.\<close>

type_synonym event_entry = "datetime \<times> nat \<times> balance_events \<times> decimal option \<times> decimal option"

definition log_balance_events :: "event_entry list \<Rightarrow> db \<Rightarrow> db" where
  "log_balance_events entries s =
     fold (\<lambda>(now, u, ty, b, d). create_balance_event now u ty b d) entries s"

lemma log_balance_events_numbered:
  assumes "balance_number.numbered (balance_events s)" "\<forall>x \<in> set entries. valid_datetime (fst x)"
  shows "balance_number.numbered (balance_events (log_balance_events entries s))"
  using assms
proof (induction entries arbitrary: s)
  case (Cons x entries)
  obtain now u ty b d where x: "x = (now, u, ty, b, d)" by (cases x)
  have "balance_number.numbered (balance_events (create_balance_event now u ty b d s))"
    using Cons.prems by (simp add: create_balance_event_def balance_number.numbered_snoc x)
  then show ?case using Cons by (simp add: log_balance_events_def x)
qed (simp add: log_balance_events_def)

text \<open>
  Balance events written one after the other carry increasing, so distinct, numbers within
  a month of the clock, whatever the clock does in between
\<close>

theorem balance_event_numbers_increase:
  assumes "\<forall>x \<in> set entries. valid_datetime (fst x)"
    and "balance_events t = balance_events (log_balance_events entries empty_db)"
    and "i < j" "j < length (balance_events t)"
    and "month_start (bev_date (balance_events t ! i)) = month_start (bev_date (balance_events t ! j))"
  shows "bev_number (balance_events t ! i) < bev_number (balance_events t ! j)"
proof -
  have "balance_number.numbered (balance_events t)"
    using assms(1) unfolding assms(2)
    by (intro log_balance_events_numbered) (simp_all add: balance_number.numbered_Nil empty_db_def)
  then show ?thesis using assms(3-5) by (rule balance_number.numbered_distinct)
qed

definition numbers_example :: db where
  "numbers_example = log_balance_events
     [((2024, 3, 30, 5), 1, BalanceEvents_FIRST_LOGIN, Some 0, Some 50),
      ((2024, 3, 31, 7), 2, BalanceEvents_OTHER, None, Some 1),
      ((2024, 4, 1, 0), 1, BalanceEvents_OTHER, None, Some 1)] empty_db"

lemma balance_event_numbers_increase_witness:
  "map bev_number (balance_events numbers_example) = [1, 2, 1]
   \<and> bev_number (balance_events numbers_example ! 0) < bev_number (balance_events numbers_example ! 1)"
proof -
  have "map bev_number (balance_events numbers_example) = [1, 2, 1]" by code_simp
  moreover have "bev_number (balance_events numbers_example ! 0) < bev_number (balance_events numbers_example ! 1)"
    by (rule balance_event_numbers_increase [OF _ arg_cong [OF numbers_example_def, of balance_events]])
      (simp_all add: numbers_example_def log_balance_events_def create_balance_event_def empty_db_def)
  ultimately show ?thesis ..
qed

subsection \<open>Customer events\<close>

definition create_customer_event ::
    "datetime \<Rightarrow> nat option \<Rightarrow> nat option \<Rightarrow> nat option \<Rightarrow> customer_events
      \<Rightarrow> (string \<times> json) list \<Rightarrow> db \<Rightarrow> db" where
  "create_customer_event now user app order type parameters s =
     s\<lparr>customer_events := customer_events s @
        [\<lparr>cev_date = now, cev_type = type, cev_order = order, cev_parameters = parameters,
          cev_user = user, cev_app = app\<rparr>]\<rparr>"

definition customer_account_created_event :: "datetime \<Rightarrow> nat \<Rightarrow> db \<Rightarrow> db" where
  "customer_account_created_event now user =
     create_customer_event now (Some user) None None CustomerEvents_ACCOUNT_CREATED []"

definition customer_account_activated_event ::
    "datetime \<Rightarrow> nat option \<Rightarrow> nat option \<Rightarrow> nat \<Rightarrow> db \<Rightarrow> db" where
  "customer_account_activated_event now staff_user app account_id =
     create_customer_event now staff_user app None CustomerEvents_ACCOUNT_ACTIVATED
       [(''account_id'', JInt (int account_id))]"

definition customer_account_deactivated_event ::
    "datetime \<Rightarrow> nat option \<Rightarrow> nat option \<Rightarrow> nat \<Rightarrow> db \<Rightarrow> db" where
  "customer_account_deactivated_event now staff_user app account_id =
     create_customer_event now staff_user app None CustomerEvents_ACCOUNT_DEACTIVATED
       [(''account_id'', JInt (int account_id))]"

definition customer_password_reset_link_sent_event :: "datetime \<Rightarrow> nat \<Rightarrow> db \<Rightarrow> db" where
  "customer_password_reset_link_sent_event now user_id =
     create_customer_event now (Some user_id) None None
       CustomerEvents_PASSWORD_RESET_LINK_SENT []"

definition customer_password_reset_event :: "datetime \<Rightarrow> nat \<Rightarrow> db \<Rightarrow> db" where
  "customer_password_reset_event now user =
     create_customer_event now (Some user) None None CustomerEvents_PASSWORD_RESET []"

definition customer_password_changed_event :: "datetime \<Rightarrow> nat \<Rightarrow> db \<Rightarrow> db" where
  "customer_password_changed_event now user =
     create_customer_event now (Some user) None None CustomerEvents_PASSWORD_CHANGED []"

definition customer_email_change_request_event ::
    "datetime \<Rightarrow> nat \<Rightarrow> (string \<times> json) list \<Rightarrow> db \<Rightarrow> db" where
  "customer_email_change_request_event now user_id parameters =
     create_customer_event now (Some user_id) None None
       CustomerEvents_EMAIL_CHANGE_REQUEST parameters"

definition customer_email_changed_event ::
    "datetime \<Rightarrow> nat \<Rightarrow> (string \<times> json) list \<Rightarrow> db \<Rightarrow> db" where
  "customer_email_changed_event now user_id parameters =
     create_customer_event now (Some user_id) None None CustomerEvents_EMAIL_CHANGED parameters"

definition customer_placed_order_event :: "datetime \<Rightarrow> nat \<Rightarrow> order \<Rightarrow> db \<Rightarrow> db" where
  "customer_placed_order_event now user order =
     create_customer_event now (Some user) None (Some (order_pk order))
       CustomerEvents_PLACED_ORDER []"

definition customer_added_to_note_order_event ::
    "datetime \<Rightarrow> nat option \<Rightarrow> order \<Rightarrow> string \<Rightarrow> db \<Rightarrow> db" where
  "customer_added_to_note_order_event now user order message =
     create_customer_event now user None (Some (order_pk order))
       CustomerEvents_NOTE_ADDED_TO_ORDER [(''message'', JStr message)]"

text \<open>An order line is given by its key and its order's key.\<close>

definition customer_downloaded_a_digital_link_event ::
    "datetime \<Rightarrow> nat \<Rightarrow> nat \<times> nat \<Rightarrow> db \<Rightarrow> db" where
  "customer_downloaded_a_digital_link_event now user order_line =
     create_customer_event now (Some user) None (Some (snd order_line))
       CustomerEvents_DIGITAL_LINK_DOWNLOADED
       [(''order_line_pk'', JInt (int (fst order_line)))]"

definition customer_deleted_event ::
    "datetime \<Rightarrow> nat option \<Rightarrow> nat option \<Rightarrow> int \<Rightarrow> db \<Rightarrow> db" where
  "customer_deleted_event now staff_user app deleted_count =
     create_customer_event now staff_user app None CustomerEvents_CUSTOMER_DELETED
       [(''count'', JInt deleted_count)]"

definition assigned_email_to_a_customer_event ::
    "datetime \<Rightarrow> nat option \<Rightarrow> nat option \<Rightarrow> string \<Rightarrow> db \<Rightarrow> db" where
  "assigned_email_to_a_customer_event now staff_user app new_email =
     create_customer_event now staff_user app None CustomerEvents_EMAIL_ASSIGNED
       [(''message'', JStr new_email)]"

definition assigned_name_to_a_customer_event ::
    "datetime \<Rightarrow> nat option \<Rightarrow> nat option \<Rightarrow> string \<Rightarrow> db \<Rightarrow> db" where
  "assigned_name_to_a_customer_event now staff_user app new_name =
     create_customer_event now staff_user app None CustomerEvents_NAME_ASSIGNED
       [(''message'', JStr new_name)]"

lemma create_customer_event_simps [simp]:
  "users (create_customer_event now u a ord ty ps s) = users s"
  "balance_events (create_customer_event now u a ord ty ps s) = balance_events s"
  "orders (create_customer_event now u a ord ty ps s) = orders s"
  by (simp_all add: create_customer_event_def)

lemmas customer_event_defs =
  assigned_email_to_a_customer_event_def assigned_name_to_a_customer_event_def
  customer_account_activated_event_def customer_account_deactivated_event_def

subsection \<open>Names and permission to log in\<close>

definition is_space :: "char \<Rightarrow> bool" where
  "is_space c \<longleftrightarrow> c \<in> set [CHR '' '', CHR 0x09, CHR 0x0A, CHR 0x0B, CHR 0x0C, CHR 0x0D,
      CHR 0x1C, CHR 0x1D, CHR 0x1E, CHR 0x1F]"

definition strip :: "string \<Rightarrow> string" where
  "strip s = rev (dropWhile is_space (rev (dropWhile is_space s)))"

definition get_full_name :: "user \<Rightarrow> string" where
  "get_full_name u =
     (if user_first_name u \<noteq> [] \<or> user_last_name u \<noteq> []
      then strip (user_first_name u @ '' '' @ user_last_name u)
      else case user_billing_name u of
        None \<Rightarrow> user_email u
      | Some (first_name, last_name) \<Rightarrow>
          if first_name \<noteq> [] \<or> last_name \<noteq> [] then strip (first_name @ '' '' @ last_name)
          else user_email u)"

record site_settings =
  allow_login_without_confirmation :: bool
  enable_account_confirmation_by_email :: bool

definition can_login :: "user \<Rightarrow> site_settings \<Rightarrow> bool" where
  "can_login u settings \<longleftrightarrow>
     user_is_active u
     \<and> (allow_login_without_confirmation settings
        \<or> \<not> enable_account_confirmation_by_email settings
        \<or> user_is_confirmed u)"

text \<open>
  \<open>"\n".join(fields)\<close> over the non-empty fields. A user at the first login has no address, and
  the login passes \<open>attach_addresses_data=False\<close>.
\<close>

fun join_lines :: "string list \<Rightarrow> string" where
  "join_lines [] = []"
| "join_lines [x] = x"
| "join_lines (x # y # xs) = x @ [CHR 0x0A] @ join_lines (y # xs)"

definition generate_user_fields_search_document_value ::
    "(string \<Rightarrow> string) \<Rightarrow> user \<Rightarrow> string" where
  "generate_user_fields_search_document_value lower u =
     (let value = join_lines (filter (\<lambda>f. f \<noteq> [])
            [user_email u, user_first_name u, user_last_name u, user_code u]);
          value' = (if value \<noteq> [] then value @ [CHR 0x0A] else value)
      in lower value')"

definition prepare_user_search_document_value :: "(string \<Rightarrow> string) \<Rightarrow> user \<Rightarrow> string" where
  "prepare_user_search_document_value lower u =
     lower (generate_user_fields_search_document_value lower u)"

end
