(* ===== verification/Login.thy ===== *)
theory Login
  imports Account
begin

section \<open>The OpenID login and its rewards\<close>

text \<open>
  \<^verbatim>\<open>plugins/openid_connect/utils.py\<close>: \<open>get_or_create_user_from_payload\<close>,
  \<open>_update_user_details\<close>, \<open>_update_continuous_days\<close> and \<open>update_continuous_days\<close>. An exception
  is a value of \<open>login_error\<close>; the operations run in one transaction, so an error leaves the
  database as it was. \<open>new_pk\<close> is the key the database gives a created user.
\<close>

datatype login_error =
    IndexError
  | AuthenticationError
  | UserLookupError lookup_error
  | InvitationLookupError lookup_error
  | AttributeError

definition CONTINUOUS_BALANCE_ADD :: "decimal list" where
  "CONTINUOUS_BALANCE_ADD = [1/2, 1, 2]"

text \<open>The default of \<open>User.balance\<close>: \<open>Decimal(50) + Decimal(CONTINUOUS_BALANCE_ADD[0])\<close>.\<close>

definition default_balance :: decimal where
  "default_balance = 50 + CONTINUOUS_BALANCE_ADD ! 0"

text \<open>\<open>user.save(update_fields=fields)\<close>: the named fields of the object, onto its row.\<close>

definition copy_user_fields :: "string list \<Rightarrow> user \<Rightarrow> user \<Rightarrow> user" where
  "copy_user_fields fs u r =
     r\<lparr>user_balance := (if ''balance'' \<in> set fs then user_balance u else user_balance r),
       user_continuous := (if ''continuous'' \<in> set fs then user_continuous u else user_continuous r),
       user_last_login := (if ''last_login'' \<in> set fs then user_last_login u else user_last_login r),
       user_private_metadata := (if ''private_metadata'' \<in> set fs
         then user_private_metadata u else user_private_metadata r),
       user_email := (if ''email'' \<in> set fs then user_email u else user_email r),
       user_first_name := (if ''first_name'' \<in> set fs then user_first_name u else user_first_name r),
       user_last_name := (if ''last_name'' \<in> set fs then user_last_name u else user_last_name r),
       user_code := (if ''code'' \<in> set fs then user_code u else user_code r),
       user_type := (if ''user_type'' \<in> set fs then user_type u else user_type r),
       user_invited_by := (if ''invited_by'' \<in> set fs then user_invited_by u else user_invited_by r),
       user_updated_at := (if ''updated_at'' \<in> set fs then user_updated_at u else user_updated_at r),
       user_search_document := (if ''search_document'' \<in> set fs
         then user_search_document u else user_search_document r)\<rparr>"

definition save_user :: "string list \<Rightarrow> user \<Rightarrow> db \<Rightarrow> db" where
  "save_user fs u s =
     s\<lparr>users := save_row user_pk (user_pk u) (copy_user_fields fs u) (users s)\<rparr>"

lemma user_pk_copy_user_fields [simp]: "user_pk (copy_user_fields fs u r) = user_pk r"
  by (simp add: copy_user_fields_def)

lemma user_balance_copy_user_fields:
  "user_balance (copy_user_fields fs u r) =
     (if ''balance'' \<in> set fs then user_balance u else user_balance r)"
  by (simp add: copy_user_fields_def)

lemma save_user_simps [simp]:
  "balance_events (save_user fs u s) = balance_events s"
  "orders (save_user fs u s) = orders s"
  "donations (save_user fs u s) = donations s"
  "invitations (save_user fs u s) = invitations s"
  by (simp_all add: save_user_def)

subsection \<open>The login streak\<close>

text \<open>
  \<open>_update_continuous_days\<close>: the in-memory user, the names of the fs to save, and the
  database with the reward's event.
\<close>

definition do_update_continuous_days ::
    "(datetime \<Rightarrow> datetime) \<Rightarrow> datetime \<Rightarrow> user \<Rightarrow> datetime \<Rightarrow> string list \<Rightarrow> db
      \<Rightarrow> login_error + (user \<times> string list \<times> db)" where
  "do_update_continuous_days to_shanghai now user login_time fields_to_save s =
     (let delta = toordinal (to_shanghai login_time) - toordinal (to_shanghai (user_last_login user));
          user = (if delta > 1 then user\<lparr>user_continuous := 0\<rparr> else user)
      in bindr
        (if delta \<ge> 1 then
           let user = user\<lparr>user_continuous := user_continuous user + 1\<rparr> in
           bindr
             (if user_continuous user \<le> int (length CONTINUOUS_BALANCE_ADD)
              then (case py_index CONTINUOUS_BALANCE_ADD (user_continuous user - 1) of
                      None \<Rightarrow> Inl IndexError | Some d \<Rightarrow> Inr d)
              else Inr (last CONTINUOUS_BALANCE_ADD))
             (\<lambda>balance_delta.
               let user = user\<lparr>user_balance := user_balance user + balance_delta\<rparr> in
               Inr (user, fields_to_save @ [''balance''],
                    consecutive_login_balance_event now user balance_delta s))
         else Inr (user, fields_to_save, s))
        (\<lambda>(user, fs, s).
          Inr (user\<lparr>user_last_login := login_time\<rparr>, fs @ [''continuous'', ''last_login''], s)))"

definition get_user :: "(user \<Rightarrow> bool) \<Rightarrow> db \<Rightarrow> lookup_error + user" where
  "get_user p s = objects_get (filter p (users s))"

definition update_continuous_days ::
    "(datetime \<Rightarrow> datetime) \<Rightarrow> datetime \<Rightarrow> datetime \<Rightarrow> nat \<Rightarrow> db \<Rightarrow> login_error + db" where
  "update_continuous_days to_shanghai now local_now pk s =
     (case get_user (\<lambda>u. user_pk u = pk) s of
        Inl e \<Rightarrow> Inl (UserLookupError e)
      | Inr user \<Rightarrow>
          bindr (do_update_continuous_days to_shanghai now user local_now [] s)
            (\<lambda>(user, fs, s). Inr (save_user fs user s)))"

subsection \<open>The details of the identity provider\<close>

definition match_orders_with_new_user :: "user \<Rightarrow> db \<Rightarrow> db" where
  "match_orders_with_new_user user s =
     s\<lparr>orders := map (\<lambda>ord.
         if order_status ord \<notin> {OrderStatus_DRAFT, OrderStatus_UNCONFIRMED}
            \<and> order_user_email ord = user_email user \<and> order_user ord = None
         then ord\<lparr>order_user := Some (user_pk user)\<rparr> else ord) (orders s)\<rparr>"

lemma match_orders_with_new_user_simps [simp]:
  "users (match_orders_with_new_user u s) = users s"
  "balance_events (match_orders_with_new_user u s) = balance_events s"
  "invitations (match_orders_with_new_user u s) = invitations s"
  by (simp_all add: match_orders_with_new_user_def)

definition dict_set :: "'k \<Rightarrow> 'v \<Rightarrow> ('k \<times> 'v) list \<Rightarrow> ('k \<times> 'v) list" where
  "dict_set k v d = filter (\<lambda>(k', _). k' \<noteq> k) d @ [(k, v)]"

record login_details =
  ld_oidc_key :: string
  ld_email :: string
  ld_first_name :: string
  ld_last_name :: string
  ld_code :: string
  ld_type :: string
  ld_sub :: string

text \<open>
  \<open>_update_user_details\<close> in its three parts: the subject in the private metadata, the e-mail
  (a user keeps the old one when the new one is taken, and then nothing at all is saved), and,
  after the streak, the names, code and type. Each part extends the list of fields to save.
\<close>

definition sync_subject :: "login_details \<Rightarrow> user \<Rightarrow> user \<times> string list" where
  "sync_subject d user =
     (let user_sub = map_of (user_private_metadata user) (ld_oidc_key d)
      in if user_sub \<noteq> Some (ld_sub d)
         then (user\<lparr>user_private_metadata :=
                 dict_set (ld_oidc_key d) (ld_sub d) (user_private_metadata user)\<rparr>,
               [''private_metadata''])
         else (user, []))"

definition sync_email :: "login_details \<Rightarrow> user \<Rightarrow> string list \<Rightarrow> db \<Rightarrow> user \<times> string list \<times> db" where
  "sync_email d user fs s =
     (if user_email user \<noteq> ld_email d
      then let user = user\<lparr>user_email := ld_email d\<rparr> in
           (user, fs @ [''email'', ''search_document''], match_orders_with_new_user user s)
      else (user, fs, s))"

definition sync_field ::
    "bool \<Rightarrow> (user \<Rightarrow> user) \<Rightarrow> string \<Rightarrow> user \<times> string list \<Rightarrow> user \<times> string list" where
  "sync_field differs set_field name uf =
     (if differs then (set_field (fst uf), snd uf @ [name, ''search_document'']) else uf)"

definition sync_names :: "login_details \<Rightarrow> user \<Rightarrow> string list \<Rightarrow> user \<times> string list" where
  "sync_names d user fs =
     (let uf = sync_field (user_first_name user \<noteq> ld_first_name d)
                 (\<lambda>u. u\<lparr>user_first_name := ld_first_name d\<rparr>) ''first_name'' (user, fs);
          uf = sync_field (user_last_name user \<noteq> ld_last_name d)
                 (\<lambda>u. u\<lparr>user_last_name := ld_last_name d\<rparr>) ''last_name'' uf;
          uf = sync_field (ld_code d \<noteq> [] \<and> user_code user \<noteq> ld_code d)
                 (\<lambda>u. u\<lparr>user_code := ld_code d\<rparr>) ''code'' uf
      in sync_field (user_type user \<noteq> ld_type d)
                 (\<lambda>u. u\<lparr>user_type := ld_type d\<rparr>) ''user_type'' uf)"

definition refresh_search :: "(string \<Rightarrow> string) \<Rightarrow> string list \<Rightarrow> user \<Rightarrow> user" where
  "refresh_search lower fs user =
     (if ''search_document'' \<in> set fs
      then user\<lparr>user_search_document := prepare_user_search_document_value lower user\<rparr> else user)"

definition update_user_details ::
    "(string \<Rightarrow> string) \<Rightarrow> (datetime \<Rightarrow> datetime) \<Rightarrow> datetime \<Rightarrow> user \<Rightarrow> login_details
      \<Rightarrow> datetime \<Rightarrow> db \<Rightarrow> login_error + (user \<times> db)" where
  "update_user_details lower to_shanghai now user d login_time s =
     (case sync_subject d user of (user, fs) \<Rightarrow>
      if user_email user \<noteq> ld_email d \<and> exists_row (\<lambda>u. user_email u = ld_email d) (users s)
      then Inr (user, s)
      else case sync_email d user fs s of (user, fs, s) \<Rightarrow>
        bindr (do_update_continuous_days to_shanghai now user login_time fs s)
          (\<lambda>(user, fs, s).
            case sync_names d user fs of (user, fs) \<Rightarrow>
            let user = refresh_search lower fs user
            in Inr (user, if fs \<noteq> [] then save_user fs user s else s)))"

text \<open>None of the parts touches keys, balances or events, or saves a balance.\<close>

lemma sync_subject_frame:
  "sync_subject d u = (v, fs) \<Longrightarrow>
     user_pk v = user_pk u \<and> user_balance v = user_balance u \<and> ''balance'' \<notin> set fs"
  by (auto simp: sync_subject_def Let_def split: if_splits)

lemma sync_email_frame:
  "sync_email d u fs s = (v, fs', t) \<Longrightarrow>
     user_pk v = user_pk u \<and> user_balance v = user_balance u
     \<and> (''balance'' \<in> set fs' \<longleftrightarrow> ''balance'' \<in> set fs)
     \<and> users t = users s \<and> balance_events t = balance_events s"
  by (auto simp: sync_email_def Let_def split: if_splits)

lemma sync_names_frame:
  "sync_names d u fs = (v, fs') \<Longrightarrow>
     user_pk v = user_pk u \<and> user_balance v = user_balance u
     \<and> (''balance'' \<in> set fs' \<longleftrightarrow> ''balance'' \<in> set fs) \<and> (fs \<noteq> [] \<longrightarrow> fs' \<noteq> [])"
  by (auto simp: sync_names_def sync_field_def Let_def split: if_splits)

lemma refresh_search_frame [simp]:
  "user_pk (refresh_search lower fs u) = user_pk u"
  "user_balance (refresh_search lower fs u) = user_balance u"
  by (simp_all add: refresh_search_def)

subsection \<open>Finding or creating the user\<close>

text \<open>
  \<open>pl_code = None\<close> is a payload without a code: \<open>str(None)\<close> is the string None. A \<open>None\<close> of
  the other optional fs is a missing key, which takes the default of \<open>payload.get\<close>.
\<close>

record oidc_payload =
  pl_sub :: string
  pl_code :: "string option"
  pl_type :: "string option"
  pl_name :: "string option"
  pl_family_name :: "string option"

definition payload_details :: "oidc_payload \<Rightarrow> string \<Rightarrow> string \<Rightarrow> login_details" where
  "payload_details payload email_domain oauth_url =
     \<lparr>ld_oidc_key = ''oidc:'' @ oauth_url,
      ld_email = pl_sub payload @ email_domain,
      ld_first_name = (case pl_name payload of None \<Rightarrow> [] | Some x \<Rightarrow> x),
      ld_last_name = (case pl_family_name payload of None \<Rightarrow> [] | Some x \<Rightarrow> x),
      ld_code = (case pl_code payload of None \<Rightarrow> ''None'' | Some x \<Rightarrow> x),
      ld_type = (case pl_type payload of None \<Rightarrow> ''student'' | Some x \<Rightarrow> x),
      ld_sub = pl_sub payload\<rparr>"

definition new_user :: "nat \<Rightarrow> datetime \<Rightarrow> login_details \<Rightarrow> user" where
  "new_user new_pk now d =
     \<lparr>user_pk = new_pk, user_email = ld_email d, user_code = ld_code d, user_account = ld_sub d,
      user_first_name = ld_first_name d, user_last_name = ld_last_name d, user_type = ld_type d,
      user_invited_by = [], user_balance = default_balance, user_continuous = 1,
      user_last_login = now, user_date_joined = now, user_updated_at = now,
      user_is_staff = False, user_is_active = True, user_is_confirmed = True,
      user_is_superuser = False, user_billing_name = None,
      user_private_metadata = [(ld_oidc_key d, ld_sub d)], user_search_document = [],
      user_permissions = [], user_groups = [], user_effective_override = None\<rparr>"

text \<open>\<open>User.objects.get_or_create(email=..., defaults=...)\<close>\<close>

definition get_or_create_user :: "nat \<Rightarrow> datetime \<Rightarrow> login_details \<Rightarrow> db \<Rightarrow> login_error + (user \<times> db)" where
  "get_or_create_user new_pk now d s =
     (case get_user (\<lambda>u. user_email u = ld_email d) s of
        Inr u \<Rightarrow> Inr (u, s)
      | Inl DoesNotExist \<Rightarrow> (let u = new_user new_pk now d in Inr (u, s\<lparr>users := users s @ [u]\<rparr>))
      | Inl MultipleObjectsReturned \<Rightarrow> Inl (UserLookupError MultipleObjectsReturned))"

text \<open>The reward of the user who sent the invitation: 25, with its event.\<close>

definition accept_invitation ::
    "datetime \<Rightarrow> string \<Rightarrow> user \<Rightarrow> db \<Rightarrow> login_error + (user \<times> db)" where
  "accept_invitation now invitation_code user s =
     (case objects_get (filter (\<lambda>i. inv_code i = invitation_code) (invitations s)) of
        Inl e \<Rightarrow> Inl (InvitationLookupError e)
      | Inr invitation \<Rightarrow>
         (case inv_user invitation of
            None \<Rightarrow> Inl AttributeError
          | Some inviter_pk \<Rightarrow>
             (case get_user (\<lambda>u. user_pk u = inviter_pk) s of
                Inl e \<Rightarrow> Inl (UserLookupError e)
              | Inr inviter \<Rightarrow>
                 let inviter = inviter\<lparr>user_balance := user_balance inviter + 25,
                                       user_updated_at := now\<rparr>;
                     s = save_user [''balance'', ''updated_at''] inviter s;
                     s = accept_invitation_balance_event now inviter s;
                     user = user\<lparr>user_invited_by := user_account inviter\<rparr>
                 in Inr (user, save_user [''invited_by''] user s))))"

definition first_login ::
    "nat \<Rightarrow> datetime \<Rightarrow> string option \<Rightarrow> login_details \<Rightarrow> db \<Rightarrow> login_error + (user \<times> db)" where
  "first_login new_pk now invitation_code d s =
     bindr (get_or_create_user new_pk now d s) (\<lambda>(user, s).
       let s = first_login_balance_event now user s;
           s = consecutive_login_balance_event now user (CONTINUOUS_BALANCE_ADD ! 0) s;
           s = s\<lparr>site_users := site_users s + 1\<rparr>;
           s = match_orders_with_new_user user s
       in case invitation_code of
            None \<Rightarrow> Inr (user, s)
          | Some code \<Rightarrow> if code = [] then Inr (user, s) else accept_invitation now code user s)"

definition get_or_create_user_from_payload ::
    "(string \<Rightarrow> string) \<Rightarrow> (datetime \<Rightarrow> datetime) \<Rightarrow> datetime \<Rightarrow> site_settings \<Rightarrow> nat \<Rightarrow> nat option
      \<Rightarrow> oidc_payload \<Rightarrow> string \<Rightarrow> string \<Rightarrow> string option \<Rightarrow> db \<Rightarrow> login_error + (user \<times> db)" where
  "get_or_create_user_from_payload lower to_shanghai now settings new_pk cached_user_id
       payload email_domain oauth_url invitation_code s =
     (let d = payload_details payload email_domain oauth_url;
          found = (case cached_user_id of
                     Some user_id \<Rightarrow> get_user (\<lambda>u. user_pk u = user_id) s
                   | None \<Rightarrow> get_user (\<lambda>u. map_of (user_private_metadata u) (ld_oidc_key d)
                                             = Some (ld_sub d)) s)
      in bindr
        (case found of
           Inr user \<Rightarrow> Inr (user, s)
         | Inl DoesNotExist \<Rightarrow> first_login new_pk now invitation_code d s
         | Inl MultipleObjectsReturned \<Rightarrow> get_or_create_user new_pk now d s)
        (\<lambda>(user, s).
          if \<not> can_login user settings then Inl AuthenticationError
          else update_user_details lower to_shanghai now user d now s))"


subsection \<open>What a login does to the streak and the balance\<close>

text \<open>The days between the last login and this one, in Shanghai.\<close>

definition days_since_login :: "(datetime \<Rightarrow> datetime) \<Rightarrow> user \<Rightarrow> datetime \<Rightarrow> int" where
  "days_since_login to_shanghai user login_time =
     toordinal (to_shanghai login_time) - toordinal (to_shanghai (user_last_login user))"

text \<open>The promise of the login rewards: the n-th consecutive day earns 0.5, 1, then 2 for good.\<close>

definition streak_reward :: "int \<Rightarrow> decimal" where
  "streak_reward n = (if n = 1 then 1/2 else if n = 2 then 1 else 2)"

definition next_streak :: "int \<Rightarrow> int \<Rightarrow> int" where
  "next_streak days n = (if days > 1 then 1 else if days = 1 then n + 1 else n)"

lemma do_update_continuous_days_outcome:
  assumes "do_update_continuous_days sh now u login_time fs s = Inr (u', fs', s')"
  shows "users s' = users s" "invitations s' = invitations s"
    and "u' = u\<lparr>user_continuous := user_continuous u', user_balance := user_balance u',
               user_last_login := login_time\<rparr>"
    and "(days_since_login sh u login_time < 1 \<and> user_balance u' = user_balance u
            \<and> balance_events s' = balance_events s \<and> fs' = fs @ [''continuous'', ''last_login''])
         \<or> (\<exists>d e. days_since_login sh u login_time \<ge> 1 \<and> user_balance u' = user_balance u + d
            \<and> balance_events s' = balance_events s @ [e] \<and> bev_user e = user_pk u
            \<and> bev_delta e = Some d \<and> fs' = fs @ [''balance'', ''continuous'', ''last_login''])"
  using assms
  by (auto simp: do_update_continuous_days_def days_since_login_def bindr_eq_Inr Let_def
      consecutive_login_balance_event_def create_balance_event_def
      split: if_splits option.splits)

lemma do_update_continuous_days_streak:
  assumes "user_continuous u \<ge> 0"
  shows "do_update_continuous_days sh now u login_time fs s =
     (let days = days_since_login sh u login_time; n = next_streak days (user_continuous u);
          u' = u\<lparr>user_continuous := n,
                 user_balance := user_balance u + (if days \<ge> 1 then streak_reward n else 0)\<rparr>
      in Inr (u'\<lparr>user_last_login := login_time\<rparr>,
              fs @ (if days \<ge> 1 then [''balance''] else []) @ [''continuous'', ''last_login''],
              if days \<ge> 1 then consecutive_login_balance_event now u' (streak_reward n) s else s))"
proof -
  let ?days = "days_since_login sh u login_time"
  consider "?days < 1" | "?days = 1" | "?days > 1" by linarith
  then show ?thesis
  proof cases
    case 1
    then show ?thesis
      by (simp add: do_update_continuous_days_def days_since_login_def next_streak_def Let_def)
  next
    case 2
    consider "user_continuous u = 0" | "user_continuous u = 1" | "user_continuous u = 2"
      | "user_continuous u > 2"
      using assms by linarith
    then show ?thesis
      using 2
      by cases (simp_all add: do_update_continuous_days_def days_since_login_def next_streak_def
          Let_def py_index_def CONTINUOUS_BALANCE_ADD_def streak_reward_def)
  next
    case 3
    then show ?thesis
      by (simp add: do_update_continuous_days_def days_since_login_def next_streak_def Let_def
          py_index_def CONTINUOUS_BALANCE_ADD_def streak_reward_def)
  qed
qed

lemma get_user_InrD: "get_user p s = Inr u \<Longrightarrow> u \<in> set (users s) \<and> p u"
  by (auto simp: get_user_def dest: objects_get_filter_Inr)

subsection \<open>Logins keep the ledger\<close>

text \<open>
  Saving a user whose in-memory balance is the row's balance plus a reward \<open>d\<close> that one new
  event records.
\<close>

lemma ledger_save_reward:
  assumes ok: "ledger_ok s"
    and row: "r \<in> set (users s)" "user_pk r = user_pk u" "user_balance u = user_balance r + d"
    and fs: "''balance'' \<in> set fs"
    and t: "users t = users s" "balance_events t = balance_events s @ [e]"
    and e: "bev_user e = user_pk u" "bev_delta e = Some d"
  shows "ledger_ok (save_user fs u t)"
proof (rule ledger_step [OF ok, where f = "copy_user_fields fs u" and pk = "user_pk u" and d = d and e = e])
  show "user_balance (copy_user_fields fs u v) = user_balance v + d"
    if "v \<in> set (users s)" "user_pk v = user_pk u" for v
  proof -
    have "v = r"
      using ok that row(1,2) by (metis inj_onD ledger_ok_def distinct_map)
    with fs row(3) show ?thesis by (simp add: user_balance_copy_user_fields)
  qed
qed (simp_all add: t e save_user_def)

lemma ledger_save_no_balance:
  assumes "ledger_ok s" "''balance'' \<notin> set fs" "users t = users s"
    "balance_events t = balance_events s"
  shows "ledger_ok (save_user fs u t)"
proof (rule ledger_frame [OF assms(1)])
  show "map (\<lambda>u. (user_pk u, user_balance u)) (users (save_user fs u t)) =
        map (\<lambda>u. (user_pk u, user_balance u)) (users s)"
    using assms(2,3)
    by (simp add: save_user_def save_row_def user_balance_copy_user_fields comp_def)
qed (simp add: assms)

lemma update_continuous_days_keeps_ledger:
  assumes ok: "ledger_ok s" and run: "update_continuous_days sh now local_now pk s = Inr t"
  shows "ledger_ok t"
proof -
  from run obtain u u' fs s' where u: "get_user (\<lambda>u. user_pk u = pk) s = Inr u"
    and step: "do_update_continuous_days sh now u local_now [] s = Inr (u', fs, s')"
    and t: "t = save_user fs u' s'"
    by (auto simp: update_continuous_days_def bindr_eq_Inr split: sum.splits)
  note out = do_update_continuous_days_outcome [OF step]
  have u_in: "u \<in> set (users s)" using get_user_InrD [OF u] by simp
  have pk: "user_pk u' = user_pk u" by (subst out(3)) simp
  from out(4) show ?thesis
  proof
    assume "days_since_login sh u local_now < 1 \<and> user_balance u' = user_balance u
      \<and> balance_events s' = balance_events s \<and> fs = [] @ [''continuous'', ''last_login'']"
    then show ?thesis unfolding t by (intro ledger_save_no_balance [OF ok]) (auto simp: out(1))
  next
    assume "\<exists>d e. days_since_login sh u local_now \<ge> 1 \<and> user_balance u' = user_balance u + d
      \<and> balance_events s' = balance_events s @ [e] \<and> bev_user e = user_pk u
      \<and> bev_delta e = Some d \<and> fs = [] @ [''balance'', ''continuous'', ''last_login'']"
    then obtain d e where "user_balance u' = user_balance u + d"
      "balance_events s' = balance_events s @ [e]" "bev_user e = user_pk u'"
      "bev_delta e = Some d" "''balance'' \<in> set fs"
      using pk by auto
    then show ?thesis
      unfolding t by (intro ledger_save_reward [OF ok u_in _ _ _ out(1)]) (simp_all add: pk)
  qed
qed

interpretation daily: ledger_component
  "\<lambda>(sh, now, local_now, pk). update_continuous_days sh now local_now pk"
  by standard (auto intro: update_continuous_days_keeps_ledger)


lemma update_user_details_keeps_ledger:
  assumes ok: "ledger_ok s" and r: "r \<in> set (users s)" "user_pk r = user_pk u"
    "user_balance r = user_balance u"
    and run: "update_user_details lower sh now u d login_time s = Inr (u', t)"
  shows "ledger_ok t"
proof -
  obtain v fs where v: "sync_subject d u = (v, fs)" by fastforce
  obtain w fs' s1 where w: "sync_email d v fs s = (w, fs', s1)" by (metis prod_cases3)
  note frames = sync_subject_frame [OF v] sync_email_frame [OF w]
  show ?thesis
  proof (cases "user_email v \<noteq> ld_email d \<and> exists_row (\<lambda>u. user_email u = ld_email d) (users s)")
    case True
    with run ok v show ?thesis by (simp add: update_user_details_def)
  next
    case False
    with run v w obtain x fs2 s2
      where step: "do_update_continuous_days sh now w login_time fs' s1 = Inr (x, fs2, s2)"
        and rest: "(case sync_names d x fs2 of (user, fs) \<Rightarrow>
          Inr (refresh_search lower fs user,
               if fs \<noteq> [] then save_user fs (refresh_search lower fs user) s2 else s2))
          = (Inr (u', t) :: login_error + (user \<times> db))"
      by (auto simp: update_user_details_def bindr_eq_Inr Let_def simp del: split_paired_Ex)
    obtain y fs3 where y: "sync_names d x fs2 = (y, fs3)" by fastforce
    with rest have t: "t = (if fs3 \<noteq> [] then save_user fs3 (refresh_search lower fs3 y) s2 else s2)"
      by simp
    note out = do_update_continuous_days_outcome [OF step]
    have pk: "user_pk x = user_pk u" by (subst out(3)) (simp add: frames)
    have "fs2 \<noteq> []" using out(4) by auto
    with sync_names_frame [OF y] have t: "t = save_user fs3 (refresh_search lower fs3 y) s2"
      and y: "user_pk y = user_pk u" "user_balance y = user_balance x"
        "''balance'' \<in> set fs3 \<longleftrightarrow> ''balance'' \<in> set fs2"
      by (simp_all add: t pk)
    from out(4) show ?thesis
    proof
      assume a: "days_since_login sh w login_time < 1 \<and> user_balance x = user_balance w
        \<and> balance_events s2 = balance_events s1 \<and> fs2 = fs' @ [''continuous'', ''last_login'']"
      show ?thesis
        unfolding t using a y frames out(1) by (intro ledger_save_no_balance [OF ok]) auto
    next
      assume "\<exists>d e. days_since_login sh w login_time \<ge> 1 \<and> user_balance x = user_balance w + d
        \<and> balance_events s2 = balance_events s1 @ [e] \<and> bev_user e = user_pk w
        \<and> bev_delta e = Some d \<and> fs2 = fs' @ [''balance'', ''continuous'', ''last_login'']"
      then obtain rd e where "user_balance x = user_balance w + rd"
        "balance_events s2 = balance_events s1 @ [e]" "bev_user e = user_pk w"
        "bev_delta e = Some rd" "fs2 = fs' @ [''balance'', ''continuous'', ''last_login'']"
        by blast
      then show ?thesis
        unfolding t using y frames out(1) r
        by (intro ledger_save_reward [OF ok r(1), where d = rd and e = e]) auto
    qed
  qed
qed


text \<open>The key the database gives a new account: nothing in the database refers to it yet.\<close>

definition fresh_account :: "nat \<Rightarrow> db \<Rightarrow> bool" where
  "fresh_account pk s \<longleftrightarrow>
     pk \<notin> user_pk ` set (users s) \<and> pk \<notin> bev_user ` set (balance_events s)
     \<and> Some pk \<notin> inv_user ` set (invitations s)"

lemma fresh_account_ledger_total: "fresh_account pk s \<Longrightarrow> ledger_total pk (balance_events s) = 0"
proof -
  have "pk \<notin> bev_user ` set es \<Longrightarrow> ledger_total pk es = 0" for es
    by (induction es) (auto simp: event_delta_def)
  then show "fresh_account pk s \<Longrightarrow> ledger_total pk (balance_events s) = 0"
    by (simp add: fresh_account_def)
qed

lemma accept_invitation_keeps_ledger:
  assumes ok: "ledger_ok s" and run: "accept_invitation now code user s = Inr (u', t)"
    and own: "Some (user_pk user) \<notin> inv_user ` set (invitations s)"
    and row: "r \<in> set (users s)" "user_pk r = user_pk user" "user_balance r = user_balance user"
  shows "ledger_ok t"
    and "\<exists>r' \<in> set (users t). user_pk r' = user_pk u' \<and> user_balance r' = user_balance u'"
proof -
  from run obtain inv pk w where inv: "inv \<in> set (invitations s)" "inv_user inv = Some pk"
    and w: "get_user (\<lambda>u. user_pk u = pk) s = Inr w"
    and eqs: "u' = user\<lparr>user_invited_by := user_account w\<rparr>"
    and t: "t = save_user [''invited_by''] u'
      (accept_invitation_balance_event now (w\<lparr>user_balance := user_balance w + 25, user_updated_at := now\<rparr>)
        (save_user [''balance'', ''updated_at''] (w\<lparr>user_balance := user_balance w + 25, user_updated_at := now\<rparr>) s))"
    by (auto simp: accept_invitation_def Let_def dest!: objects_get_filter_Inr
        split: sum.splits option.splits)
  define w' where "w' = w\<lparr>user_balance := user_balance w + 25, user_updated_at := now\<rparr>"
  define s1 where "s1 = accept_invitation_balance_event now w' (save_user [''balance'', ''updated_at''] w' s)"
  have w_in: "w \<in> set (users s)" "user_pk w = pk" using get_user_InrD [OF w] by auto
  have "ledger_ok (save_user [''balance'', ''updated_at''] w' (accept_invitation_balance_event now w' s))"
    by (rule ledger_save_reward [OF ok w_in(1), where d = 25
          and e = "\<lparr>bev_date = now, bev_type = BalanceEvents_INVITATION_ACCEPTED,
            bev_number = get_balance_event_number now (balance_events s), bev_user = pk,
            bev_balance = Some 0, bev_delta = Some 25\<rparr>"])
      (simp_all add: w'_def w_in balance_event_defs create_balance_event_def)
  also have "save_user [''balance'', ''updated_at''] w' (accept_invitation_balance_event now w' s) = s1"
    by (simp add: s1_def save_user_def balance_event_defs create_balance_event_def)
  finally have s1: "ledger_ok s1" .
  have t': "t = save_user [''invited_by''] u' s1" by (simp add: t s1_def w'_def)
  show "ledger_ok t" unfolding t' by (rule ledger_save_no_balance [OF s1]) simp_all
  have "pk \<noteq> user_pk user" using inv own by force
  with row have "r \<in> set (users s1)"
    by (auto simp: s1_def save_user_def save_row_def balance_event_defs w'_def w_in image_iff
        intro!: bexI [of _ r])
  then have "copy_user_fields [''invited_by''] u' r \<in> set (users t)"
    using row(2) by (auto simp: t' save_user_def save_row_def eqs intro!: image_eqI [of _ _ r])
  moreover have "user_pk (copy_user_fields [''invited_by''] u' r) = user_pk u'"
    "user_balance (copy_user_fields [''invited_by''] u' r) = user_balance u'"
    using row by (simp_all add: eqs user_balance_copy_user_fields)
  ultimately show "\<exists>r' \<in> set (users t). user_pk r' = user_pk u' \<and> user_balance r' = user_balance u'"
    by blast
qed

lemma opening_keeps_ledger:
  assumes ok: "ledger_ok s" and fresh: "fresh_account new_pk s"
  shows "ledger_ok (consecutive_login_balance_event now (new_user new_pk now d) (CONTINUOUS_BALANCE_ADD ! 0)
           (first_login_balance_event now (new_user new_pk now d)
             (s\<lparr>users := users s @ [new_user new_pk now d]\<rparr>)))"
proof (rule ledger_open [OF ok, where u = "new_user new_pk now d"])
  show "user_pk (new_user new_pk now d) \<notin> user_pk ` set (users s)"
    using fresh by (simp add: fresh_account_def new_user_def)
  show "ledger_total (user_pk (new_user new_pk now d)) (balance_events s) = 0"
    using fresh by (simp add: fresh_account_ledger_total new_user_def)
  show "balance_events (consecutive_login_balance_event now (new_user new_pk now d) (CONTINUOUS_BALANCE_ADD ! 0)
           (first_login_balance_event now (new_user new_pk now d)
             (s\<lparr>users := users s @ [new_user new_pk now d]\<rparr>))) = balance_events s @ drop (length (balance_events s))
      (balance_events (consecutive_login_balance_event now (new_user new_pk now d) (CONTINUOUS_BALANCE_ADD ! 0)
           (first_login_balance_event now (new_user new_pk now d)
             (s\<lparr>users := users s @ [new_user new_pk now d]\<rparr>))))"
    by (simp add: balance_event_defs create_balance_event_def)
qed (auto simp: balance_event_defs create_balance_event_def new_user_def default_balance_def
    CONTINUOUS_BALANCE_ADD_def event_delta_def)

lemma first_login_keeps_ledger:
  assumes ok: "ledger_ok s" and fresh: "fresh_account new_pk s"
    and new: "\<not> exists_row (\<lambda>u. user_email u = ld_email d) (users s)"
    and run: "first_login new_pk now code d s = Inr (u, t)"
  shows "ledger_ok t"
    and "\<exists>r \<in> set (users t). user_pk r = user_pk u \<and> user_balance r = user_balance u"
proof -
  define nu where "nu = new_user new_pk now d"
  define s1 where "s1 = consecutive_login_balance_event now nu (CONTINUOUS_BALANCE_ADD ! 0)
    (first_login_balance_event now nu (s\<lparr>users := users s @ [nu]\<rparr>))"
  define s2 where "s2 = match_orders_with_new_user nu (s1\<lparr>site_users := site_users s1 + 1\<rparr>)"
  have "filter (\<lambda>u. user_email u = ld_email d) (users s) = []"
    using new by (auto simp: exists_row_iff filter_empty_conv)
  then have "get_or_create_user new_pk now d s = Inr (nu, s\<lparr>users := users s @ [nu]\<rparr>)"
    by (simp add: get_or_create_user_def get_user_def nu_def Let_def)
  with run have run: "(u = nu \<and> t = s2) \<or> (\<exists>c. accept_invitation now c nu s2 = Inr (u, t))"
    by (auto simp: first_login_def s1_def s2_def Let_def split: option.splits if_splits)
  have s1: "ledger_ok s1" unfolding s1_def nu_def by (rule opening_keeps_ledger [OF ok fresh])
  have s2: "ledger_ok s2" by (rule ledger_frame [OF s1]) (simp_all add: s2_def)
  have row: "nu \<in> set (users s2)" by (simp add: s2_def s1_def balance_event_defs)
  have own: "Some (user_pk nu) \<notin> inv_user ` set (invitations s2)"
    using fresh by (simp add: fresh_account_def s2_def s1_def balance_event_defs nu_def new_user_def)
  show "ledger_ok t"
    using run
  proof (elim disjE conjE exE)
    show "ledger_ok t" if "accept_invitation now c nu s2 = Inr (u, t)" for c
      by (rule accept_invitation_keeps_ledger(1) [OF s2 that own row refl refl])
  qed (simp add: s2)
  show "\<exists>r \<in> set (users t). user_pk r = user_pk u \<and> user_balance r = user_balance u"
    using run
  proof (elim disjE conjE exE)
    show ?thesis if "accept_invitation now c nu s2 = Inr (u, t)" for c
      by (rule accept_invitation_keeps_ledger(2) [OF s2 that own row refl refl])
  qed (use row in auto)
qed

text \<open>
  A login finds the right account, or none: the cached id names an account, or, without one, at most one account carries
  the subject; and only the account that is found may have the address of the payload.
\<close>

definition account_identified :: "nat option \<Rightarrow> login_details \<Rightarrow> db \<Rightarrow> bool" where
  "account_identified cached_user_id d s \<longleftrightarrow>
     (let subject = (\<lambda>u. map_of (user_private_metadata u) (ld_oidc_key d) = Some (ld_sub d))
      in case cached_user_id of
           Some k \<Rightarrow> k \<in> user_pk ` set (users s) \<or> (\<forall>u \<in> set (users s). user_email u \<noteq> ld_email d)
         | None \<Rightarrow> length (filter subject (users s)) \<le> 1
             \<and> (\<forall>u \<in> set (users s). user_email u = ld_email d \<longrightarrow> subject u))"

text \<open>
  C12: a login, with a cached user id or without, of a new account or an old one, with or
  without an invitation, keeps the ledger: every stored balance stays the sum of the deltas of
  the account's balance events. Provided the key for a new account is unused, and the account
  found is the one with the payload's address, if any: the cached id names an account or none
  has the address; without a cached id the subject is known at most once and an account with the
  address carries it
\<close>

theorem login_keeps_ledger:
  assumes ok: "ledger_ok s" and fresh: "fresh_account new_pk s"
    and known: "account_identified cached_user_id (payload_details payload email_domain oauth_url) s"
    and run: "get_or_create_user_from_payload lower sh now settings new_pk cached_user_id payload
                email_domain oauth_url code s = Inr (u, t)"
  shows "ledger_ok t"
proof -
  define d where "d = payload_details payload email_domain oauth_url"
  define p where "p = (case cached_user_id of Some k \<Rightarrow> (\<lambda>u. user_pk u = k)
    | None \<Rightarrow> (\<lambda>u :: user. map_of (user_private_metadata u) (ld_oidc_key d) = Some (ld_sub d)))"
  have "(case cached_user_id of Some k \<Rightarrow> get_user (\<lambda>u. user_pk u = k) s
      | None \<Rightarrow> get_user (\<lambda>u. map_of (user_private_metadata u) (ld_oidc_key d) = Some (ld_sub d)) s) = get_user p s"
    by (simp add: p_def split: option.split)
  with run obtain v s1 where found: "(case get_user p s of
       Inr user \<Rightarrow> Inr (user, s) | Inl DoesNotExist \<Rightarrow> first_login new_pk now code d s
     | Inl MultipleObjectsReturned \<Rightarrow> get_or_create_user new_pk now d s) = Inr (v, s1)"
    and upd: "update_user_details lower sh now v d now s1 = Inr (u, t)"
    by (auto simp: get_or_create_user_from_payload_def Let_def bindr_eq_Inr d_def [symmetric] split: if_splits)
  have one: "length (filter p (users s)) \<le> 1"
  proof (cases cached_user_id)
    case (Some k)
    have "distinct (map user_pk (users s))" using ok by (simp add: ledger_ok_def)
    then show ?thesis using filter_key [of user_pk "users s" k] by (simp add: p_def Some split: option.split)
  qed (use known in \<open>simp add: account_identified_def p_def d_def Let_def\<close>)
  have "ledger_ok s1 \<and> (\<exists>r \<in> set (users s1). user_pk r = user_pk v \<and> user_balance r = user_balance v)"
  proof (cases "get_user p s")
    case (Inr x)
    with found ok show ?thesis by (auto dest: get_user_InrD)
  next
    case (Inl e)
    have e: "e = DoesNotExist"
      using one Inl by (cases "filter p (users s)" rule: objects_get.cases) (auto simp: get_user_def)
    from this Inl have "filter p (users s) = []"
      by (cases "filter p (users s)" rule: objects_get.cases) (auto simp: get_user_def)
    then have "\<not> exists_row (\<lambda>u. user_email u = ld_email d) (users s)"
      using known by (auto simp: account_identified_def exists_row_iff filter_empty_conv p_def d_def Let_def
          split: option.splits)
    with e show ?thesis
      using found Inl first_login_keeps_ledger [OF ok fresh, of d now code v s1] by simp
  qed
  then obtain r where "ledger_ok s1" "r \<in> set (users s1)" "user_pk r = user_pk v"
    "user_balance r = user_balance v" by blast
  then show ?thesis using upd by (rule update_user_details_keeps_ledger)
qed

subsection \<open>The daily reward, on the database\<close>

lemma get_user_pk:
  assumes "distinct (map user_pk (users s))" "row_of user_pk pk (users s) = Some u"
  shows "get_user (\<lambda>u. user_pk u = pk) s = Inr u"
proof -
  show ?thesis using filter_key [OF assms(1), of pk] assms(2) by (simp add: get_user_def)
qed

text \<open>
  C39: the daily reward of an account, on every branch: it never fails for a non-negative
  streak, it sets the streak to 1 after a gap, to n + 1 after one day and leaves it on the same
  day, pays 0.5, 1 and then 2, records exactly that in one event, and changes no other account
\<close>

theorem daily_reward:
  assumes d: "distinct (map user_pk (users s))" and u: "row_of user_pk pk (users s) = Some u"
    and c: "user_continuous u \<ge> 0"
  shows "\<exists>t. update_continuous_days sh now local_now pk s = Inr t
    \<and> (let days = days_since_login sh u local_now; n = next_streak days (user_continuous u);
           reward = (if days \<ge> 1 then streak_reward n else 0)
       in row_of user_pk pk (users t) = Some (u\<lparr>user_continuous := n,
              user_balance := user_balance u + reward, user_last_login := local_now\<rparr>)
          \<and> (\<forall>k. k \<noteq> pk \<longrightarrow> row_of user_pk k (users t) = row_of user_pk k (users s))
          \<and> balance_events t = balance_events s @
              (if days \<ge> 1 then [\<lparr>bev_date = now, bev_type = BalanceEvents_CONSECUTIVE_LOGIN,
                 bev_number = get_balance_event_number now (balance_events s), bev_user = pk,
                 bev_balance = Some (user_balance u + reward), bev_delta = Some reward\<rparr>] else []))"
proof -
  have pk: "user_pk u = pk" using row_of_SomeD [OF u] by simp
  have copy:
    "copy_user_fields [''balance'', ''continuous'', ''last_login'']
       (u\<lparr>user_continuous := a, user_balance := b, user_last_login := l\<rparr>) u
     = u\<lparr>user_continuous := a, user_balance := b, user_last_login := l\<rparr>"
    "copy_user_fields [''continuous'', ''last_login''] (u\<lparr>user_continuous := a, user_last_login := l\<rparr>) u
     = u\<lparr>user_continuous := a, user_last_login := l\<rparr>" for a b l
    by (simp_all add: copy_user_fields_def)
  show ?thesis
    by (simp add: update_continuous_days_def get_user_pk [OF d u] do_update_continuous_days_streak [OF c]
        Let_def consecutive_login_balance_event_def create_balance_event_def save_user_def
        row_of_save_row u pk copy option.map_ident)
qed

lemma daily_reward_witness:
  "\<exists>t. update_continuous_days id (2024, 3, 2, 9) (2024, 3, 2, 8) 1 sample_db = Inr t
     \<and> map user_balance (users t) = [6, 0] \<and> map user_continuous (users t) = [2, 1]"
proof -
  let ?u = "sample_user 1 ''A'' 5"
  have "days_since_login id ?u (2024, 3, 2, 8) = 1" by code_simp
  moreover have "row_of user_pk 1 (users sample_db) = Some ?u" "distinct (map user_pk (users sample_db))"
    "user_continuous ?u \<ge> 0" by (simp_all add: sample_defs)
  ultimately obtain t where t: "update_continuous_days id (2024, 3, 2, 9) (2024, 3, 2, 8) 1 sample_db = Inr t"
    using daily_reward [of sample_db 1 ?u id "(2024, 3, 2, 9)" "(2024, 3, 2, 8)"] by blast
  have "case update_continuous_days id (2024, 3, 2, 9) (2024, 3, 2, 8) 1 sample_db of
      Inr t \<Rightarrow> map user_balance (users t) = [6, 0] \<and> map user_continuous (users t) = [2, 1] | Inl _ \<Rightarrow> False"
    by code_simp
  with t show ?thesis by simp
qed

subsection \<open>A first login of an address already known\<close>

text \<open>
  \<open>get_or_create\<close> may return an account that exists, one whose subject is not in its private
  metadata; the events of a new account are written all the same, the balance is not touched.
\<close>

text \<open>
  A first login whose address belongs to an existing account leaves every account's row as
  it is but writes the opening events, so the account's history exceeds its balance by 50.5.
\<close>

theorem first_login_of_known_address:
  assumes ok: "ledger_ok s" and known: "filter (\<lambda>u. user_email u = ld_email d) (users s) = [u]"
  shows "\<exists>t. first_login new_pk now None d s = Inr (u, t) \<and> users t = users s
    \<and> ledger_total (user_pk u) (balance_events t) = user_balance u + 50 + 1/2"
proof -
  have "u \<in> set (filter (\<lambda>u. user_email u = ld_email d) (users s))" using known by simp
  then have "user_balance u = ledger_total (user_pk u) (balance_events s)"
    using ok by (simp add: ledger_ok_def)
  then show ?thesis
    by (simp add: first_login_def get_or_create_user_def get_user_def known Let_def balance_event_defs
        create_balance_event_def event_delta_def CONTINUOUS_BALANCE_ADD_def
        match_orders_with_new_user_def)
qed

lemma first_login_of_known_address_witness:
  "\<exists>t. first_login 9 (2024, 3, 2, 9) None
       \<lparr>ld_oidc_key = ''oidc:x'', ld_email = ''A@x'', ld_first_name = [], ld_last_name = [],
        ld_code = [], ld_type = ''student'', ld_sub = ''A''\<rparr> sample_db
     = Inr (sample_user 1 ''A'' 5, t) \<and> ledger_total 1 (balance_events t) = 111/2"
proof -
  have "filter (\<lambda>u. user_email u = ''A@x'') (users sample_db) = [sample_user 1 ''A'' 5]"
    by (simp add: sample_defs)
  then show ?thesis
    using first_login_of_known_address [OF sample_ledger_ok, of "\<lparr>ld_oidc_key = ''oidc:x'',
        ld_email = ''A@x'', ld_first_name = [], ld_last_name = [], ld_code = [],
        ld_type = ''student'', ld_sub = ''A''\<rparr>" "sample_user 1 ''A'' 5" 9 "(2024, 3, 2, 9)"]
    by (auto simp: sample_user_def)
qed

definition login_example :: "login_error + (user \<times> db)" where
  "login_example = get_or_create_user_from_payload id id (2024, 3, 2, 9)
     \<lparr>allow_login_without_confirmation = True, enable_account_confirmation_by_email = False\<rparr> 9 None
     \<lparr>pl_sub = ''C'', pl_code = Some ''C1'', pl_type = None, pl_name = Some ''Li'', pl_family_name = None\<rparr>
     ''@x'' ''o'' None sample_db"

lemma login_keeps_ledger_witness:
  "\<exists>u t. login_example = Inr (u, t) \<and> user_balance u = 101/2 \<and> ledger_ok t"
proof -
  have "case login_example of Inr (u, t) \<Rightarrow> user_balance u = 101/2 | Inl _ \<Rightarrow> False" by code_simp
  then obtain u t where ut: "login_example = Inr (u, t)" "user_balance u = 101/2"
    by (auto split: sum.splits)
  have "ledger_ok t"
    by (rule login_keeps_ledger [OF sample_ledger_ok _ _ ut(1) [unfolded login_example_def]])
      (auto simp: sample_defs fresh_account_def account_identified_def payload_details_def)
  with ut show ?thesis by blast
qed

end
