(* ===== verification/Donation.thy ===== *)
theory Donation
  imports Login
begin

section \<open>Donations\<close>

text \<open>
  \<^verbatim>\<open>saleor/donation/models.py\<close> and \<^verbatim>\<open>saleor/graphql/donation\<close>: the validations of
  \<^verbatim>\<open>mutations/utils.py\<close>, the mutations that create, update, complete and delete a donation, the
  bulk completion, and the resolvers that select the donations a requestor may read.

  A GraphQL argument is missing, null or given (\<open>arg\<close>); a required argument is its value.
  \<open>full_clean\<close> stands for Django's validation of the model's columns. Keys of new rows
  (\<open>new_pk\<close>) come from the database. An error leaves the database unchanged, except
  \<open>TypeErrorAfterSave\<close>, which carries the database it leaves behind: completing a donation
  without a price saves the new status before adding \<open>None\<close> to the balance raises.
\<close>

datatype donation_error_code =
    GRAPHQL_ERROR | INVALID | NOT_FOUND | PERMISSION_DENIED | REQUIRED | CANNOT_ASSIGN_NODE

datatype donation_error =
    DonationError string donation_error_code
  | FullCleanError
  | TypeErrorAfterSave db

datatype 'a arg = Missing | Null | Given 'a

definition get_donation_number :: "datetime \<Rightarrow> donation list \<Rightarrow> int" where
  "get_donation_number now ds =
     (let current_year_month = month_start now
      in int (length (filter (\<lambda>d. don_created_at d \<ge> current_year_month) ds)) + 1)"

subsection \<open>Validations\<close>

definition validate_donation_price :: "decimal \<Rightarrow> donation_error + unit" where
  "validate_donation_price amount = guard (\<not> amount \<le> 0) (DonationError ''price'' INVALID)"

definition validate_donation_quantity :: "int \<Rightarrow> donation_error + unit" where
  "validate_donation_quantity quantity = guard (\<not> quantity \<le> 0) (DonationError ''quantity'' INVALID)"

definition validate_donation_barcode :: "nat \<Rightarrow> string \<Rightarrow> db \<Rightarrow> donation_error + unit" where
  "validate_donation_barcode pk code s =
     guard (\<not> exists_row (\<lambda>d. don_pk d \<noteq> pk \<and> don_barcode d = Some code) (donations s))
       (DonationError ''barcode'' INVALID)"

definition validate_donator :: "string \<Rightarrow> db \<Rightarrow> donation_error + unit" where
  "validate_donator donator s =
     guard (exists_row (\<lambda>u. user_code u = donator) (users s)) (DonationError ''donator'' INVALID)"

definition validate_create_permission :: "request_context \<Rightarrow> donation_error + unit" where
  "validate_create_permission c =
     (let requestor = get_user_or_app_from_context c
      in guard (\<not> (requestor = None
                  \<or> \<not> has_one_of_permissions requestor [MANAGE_DONATIONS, ADD_DONATIONS]))
           (DonationError ''requestor'' PERMISSION_DENIED))"

definition validate_update_permission :: "request_context \<Rightarrow> donation \<Rightarrow> donation_error + unit" where
  "validate_update_permission c instance =
     (let requestor = get_user_or_app_from_context c
      in if requestor = None then Inl (DonationError ''requestor'' PERMISSION_DENIED)
         else if don_status instance = DonationStatus_COMPLETED
         then Inl (DonationError ''donation'' INVALID)
         else guard (\<not> (don_status instance \<noteq> DonationStatus_COMPLETED
                       \<and> \<not> has_one_of_permissions requestor [ADD_DONATIONS]))
                (DonationError ''requestor'' PERMISSION_DENIED))"

definition validate_complete_permission :: "request_context \<Rightarrow> donation_error + unit" where
  "validate_complete_permission c =
     (let requestor = get_user_or_app_from_context c
      in guard (\<not> (requestor = None \<or> \<not> has_one_of_permissions requestor [MANAGE_DONATIONS]))
           (DonationError ''requestor'' PERMISSION_DENIED))"

subsection \<open>Creating\<close>

text \<open>Every argument of \<open>DonationCreateInput\<close> is required; the argument \<open>name\<close> names no column.\<close>

record donation_create_input =
  dci_title :: string
  dci_description :: string
  dci_quantity :: int
  dci_price_amount :: decimal
  dci_price_currency :: string
  dci_donator :: string
  dci_barcode :: string

definition validate_creation_input ::
    "request_context \<Rightarrow> nat \<Rightarrow> donation_create_input \<Rightarrow> db \<Rightarrow> donation_error + unit" where
  "validate_creation_input c pk i s =
     bindr (validate_donation_price (dci_price_amount i)) (\<lambda>_.
     bindr (validate_donation_quantity (dci_quantity i)) (\<lambda>_.
     bindr (validate_donation_barcode pk (dci_barcode i) s) (\<lambda>_.
     bindr (validate_donator (dci_donator i) s) (\<lambda>_.
     validate_create_permission c))))"

definition created_donation :: "datetime \<Rightarrow> nat \<Rightarrow> donation_create_input \<Rightarrow> db \<Rightarrow> donation" where
  "created_donation now new_pk i s =
     \<lparr>don_pk = new_pk, don_number = get_donation_number now (donations s),
      don_donator = Some (dci_donator i), don_barcode = Some (dci_barcode i),
      don_created_at = now, don_updated_at = now, don_title = Some (dci_title i),
      don_description = Some (dci_description i),
      don_currency = Some (dci_price_currency i),
      don_price_amount = Some (dci_price_amount i),
      don_status = DonationStatus_UNREVIEWED, don_quantity = dci_quantity i\<rparr>"

definition donation_create ::
    "(donation \<Rightarrow> bool) \<Rightarrow> datetime \<Rightarrow> nat \<Rightarrow> request_context \<Rightarrow> donation_create_input \<Rightarrow> db
      \<Rightarrow> donation_error + db" where
  "donation_create full_clean now new_pk c i s =
     bindr (validate_creation_input c new_pk i s) (\<lambda>_.
       let instance = created_donation now new_pk i s
       in if \<not> full_clean instance then Inl FullCleanError
          else Inr (s\<lparr>donations := donations s @ [instance]\<rparr>))"

subsection \<open>Updating\<close>

record donation_update_input =
  dui_title :: "string arg"
  dui_description :: "string arg"
  dui_quantity :: "int arg"
  dui_price :: "(decimal \<times> string) arg"
  dui_barcode :: "string arg"
  dui_donator :: "string arg"

text \<open>The guards \<open>if input.get(...)\<close> are about truth: 0 and the empty string count as absent.\<close>

definition validate_donation_input ::
    "request_context \<Rightarrow> donation \<Rightarrow> donation_update_input \<Rightarrow> db \<Rightarrow> donation_error + unit" where
  "validate_donation_input c instance i s =
     bindr (case dui_price i of Given (amount, _) \<Rightarrow> validate_donation_price amount | _ \<Rightarrow> Inr ()) (\<lambda>_.
     bindr (case dui_quantity i of
              Given q \<Rightarrow> if q \<noteq> 0 then validate_donation_quantity q else Inr () | _ \<Rightarrow> Inr ()) (\<lambda>_.
     bindr (case dui_barcode i of
              Given b \<Rightarrow> if b \<noteq> [] then validate_donation_barcode (don_pk instance) b s else Inr ()
            | _ \<Rightarrow> Inr ()) (\<lambda>_.
     bindr (case dui_donator i of
              Given d \<Rightarrow> if d \<noteq> [] then validate_donator d s else Inr () | _ \<Rightarrow> Inr ()) (\<lambda>_.
     validate_update_permission c instance))))"

definition set_nullable :: "'a arg \<Rightarrow> 'a option \<Rightarrow> 'a option" where
  "set_nullable a old = (case a of Missing \<Rightarrow> old | Null \<Rightarrow> None | Given v \<Rightarrow> Some v)"

definition construct_donation :: "datetime \<Rightarrow> donation_update_input \<Rightarrow> donation \<Rightarrow> donation" where
  "construct_donation now i d =
     d\<lparr>don_title := set_nullable (dui_title i) (don_title d),
       don_description := set_nullable (dui_description i) (don_description d),
       don_quantity := (case dui_quantity i of Missing \<Rightarrow> don_quantity d | Null \<Rightarrow> 1 | Given q \<Rightarrow> q),
       don_barcode := set_nullable (dui_barcode i) (don_barcode d),
       don_donator := set_nullable (dui_donator i) (don_donator d),
       don_currency := (case dui_price i of Given (_, cur) \<Rightarrow> Some cur | _ \<Rightarrow> don_currency d),
       don_price_amount := (case dui_price i of Given (a, _) \<Rightarrow> Some a | _ \<Rightarrow> don_price_amount d),
       don_status := DonationStatus_UNREVIEWED,
       don_updated_at := now\<rparr>"

definition get_donation :: "nat \<Rightarrow> db \<Rightarrow> donation_error + donation" where
  "get_donation pk s =
     (case row_of don_pk pk (donations s) of
        None \<Rightarrow> Inl (DonationError ''id'' NOT_FOUND) | Some d \<Rightarrow> Inr d)"

definition save_donation :: "donation \<Rightarrow> db \<Rightarrow> db" where
  "save_donation d s = s\<lparr>donations := save_row don_pk (don_pk d) (\<lambda>_. d) (donations s)\<rparr>"

definition donation_update ::
    "(donation \<Rightarrow> bool) \<Rightarrow> datetime \<Rightarrow> request_context \<Rightarrow> nat \<Rightarrow> donation_update_input \<Rightarrow> db
      \<Rightarrow> donation_error + db" where
  "donation_update full_clean now c pk i s =
     bindr (get_donation pk s) (\<lambda>instance.
     bindr (validate_donation_input c instance i s) (\<lambda>_.
       let instance = construct_donation now i instance
       in if \<not> full_clean instance then Inl FullCleanError else Inr (save_donation instance s)))"

subsection \<open>Completing\<close>

text \<open>The user a donation credits: the one with the donator's code, if there is exactly one.\<close>

definition donator_of :: "donation \<Rightarrow> db \<Rightarrow> user option" where
  "donator_of d s =
     (case don_donator d of
        None \<Rightarrow> None
      | Some code \<Rightarrow>
          if code = [] then None
          else (case get_user (\<lambda>u. user_code u = code) s of Inl _ \<Rightarrow> None | Inr u \<Rightarrow> Some u))"

definition complete_post_save ::
    "datetime \<Rightarrow> donation_status \<Rightarrow> donation \<Rightarrow> db \<Rightarrow> donation_error + db" where
  "complete_post_save now previous instance s =
     (if previous \<noteq> DonationStatus_COMPLETED \<and> don_status instance = DonationStatus_COMPLETED
      then (case donator_of instance s of
              None \<Rightarrow> Inr s
            | Some user \<Rightarrow>
               (case don_price_amount instance of
                  None \<Rightarrow> Inl (TypeErrorAfterSave s)
                | Some price \<Rightarrow>
                    let user = user\<lparr>user_balance := user_balance user + price\<rparr>
                    in Inr (donation_granted_balance_event now user instance
                              (save_user [''balance''] user s))))
      else if previous = DonationStatus_COMPLETED \<and> don_status instance = DonationStatus_REJECTED
      then (case donator_of instance s of
              None \<Rightarrow> Inr s
            | Some user \<Rightarrow>
               (case don_price_amount instance of
                  None \<Rightarrow> Inl (TypeErrorAfterSave s)
                | Some price \<Rightarrow>
                    let user = user\<lparr>user_balance := user_balance user - price\<rparr>
                    in Inr (donation_rejected_balance_event now user instance
                              (save_user [''balance''] user s))))
      else Inr s)"

definition donation_complete ::
    "(donation \<Rightarrow> bool) \<Rightarrow> datetime \<Rightarrow> request_context \<Rightarrow> nat \<Rightarrow> bool \<Rightarrow> db
      \<Rightarrow> donation_error + db" where
  "donation_complete full_clean now c pk accepted s =
     bindr (get_donation pk s) (\<lambda>instance.
     bindr (validate_complete_permission c) (\<lambda>_.
       let previous = don_status instance;
           instance = instance\<lparr>don_status := (if accepted then DonationStatus_COMPLETED
                                             else DonationStatus_REJECTED),
                               don_updated_at := now\<rparr>
       in if \<not> full_clean instance then Inl FullCleanError
          else complete_post_save now previous instance (save_donation instance s)))"

subsection \<open>Deleting\<close>

text \<open>The body of \<open>DonationDelete.perform_mutation\<close> is commented out: it answers \<open>success=False\<close>.\<close>

definition donation_delete :: "nat \<Rightarrow> db \<Rightarrow> bool \<times> db" where
  "donation_delete pk s = (False, s)"

subsection \<open>Completing in bulk\<close>

text \<open>
  The loop of \<open>bulk_action\<close> over the donations in the model's order (newest first, then by
  key). It reads each user from the database, which it writes only after the loop; the number
  of an unsaved event is computed from the events already in the database. \<open>bu_d\<close> and \<open>bu_u\<close>
  are \<open>bulk_update\<close> of the two tables.
\<close>

definition bulk_delta :: "bool \<Rightarrow> donation \<Rightarrow> decimal option" where
  "bulk_delta accepted d =
     (if don_status d \<noteq> DonationStatus_COMPLETED \<and> accepted then Some (price_or_zero d)
      else if don_status d = DonationStatus_COMPLETED \<and> \<not> accepted then Some (- price_or_zero d)
      else None)"

definition bulk_credit :: "bool \<Rightarrow> db \<Rightarrow> donation \<Rightarrow> (user \<times> decimal) list" where
  "bulk_credit accepted s d =
     (case bulk_delta accepted d of
        None \<Rightarrow> []
      | Some delta \<Rightarrow>
         (case donator_of d s of
            None \<Rightarrow> []
          | Some user \<Rightarrow> [(user\<lparr>user_balance := user_balance user + delta\<rparr>, delta)]))"

definition bulk_event :: "datetime \<Rightarrow> bool \<Rightarrow> db \<Rightarrow> user \<times> decimal \<Rightarrow> balance_event" where
  "bulk_event now accepted s credit =
     \<lparr>bev_date = now,
      bev_type = (if accepted then BalanceEvents_DONATION_GRANTED else BalanceEvents_DONATION_REJECTED),
      bev_number = get_balance_event_number now (balance_events s),
      bev_user = user_pk (fst credit), bev_balance = Some (user_balance (fst credit)),
      bev_delta = Some (snd credit)\<rparr>"

definition donation_order :: "donation list \<Rightarrow> donation list" where
  "donation_order ds = rev (sort_key don_created_at (rev ds))"

definition donation_bulk_action ::
    "((nat \<times> (donation \<Rightarrow> donation)) list \<Rightarrow> donation list \<Rightarrow> donation list)
      \<Rightarrow> ((nat \<times> (user \<Rightarrow> user)) list \<Rightarrow> user list \<Rightarrow> user list)
      \<Rightarrow> datetime \<Rightarrow> nat list \<Rightarrow> bool \<Rightarrow> db \<Rightarrow> nat \<times> db" where
  "donation_bulk_action bu_d bu_u now pks accepted s =
     (let ds = donation_order (filter (\<lambda>d. don_pk d \<in> set pks) (donations s));
          credits = concat (map (bulk_credit accepted s) ds);
          updates = map (\<lambda>d. (don_pk d, \<lambda>r. r\<lparr>don_status := (if accepted then DonationStatus_COMPLETED
                        else DonationStatus_REJECTED), don_updated_at := now\<rparr>)) ds;
          updated_users = map (\<lambda>(u, _). (user_pk u, \<lambda>r. r\<lparr>user_balance := user_balance u\<rparr>)) credits
      in (length updates,
          s\<lparr>donations := bu_d updates (donations s),
            users := bu_u updated_users (users s),
            balance_events := balance_events s @ map (bulk_event now accepted s) credits\<rparr>))"

text \<open>
  \<open>BaseBulkMutation.mutate\<close>: the permission check, then the action on the rows whose ids were
  given. Ids that resolve to no row are refused before the action.
\<close>

definition donation_bulk_complete ::
    "((nat \<times> (donation \<Rightarrow> donation)) list \<Rightarrow> donation list \<Rightarrow> donation list)
      \<Rightarrow> ((nat \<times> (user \<Rightarrow> user)) list \<Rightarrow> user list \<Rightarrow> user list)
      \<Rightarrow> datetime \<Rightarrow> request_context \<Rightarrow> nat list \<Rightarrow> bool \<Rightarrow> db \<Rightarrow> donation_error + nat \<times> db" where
  "donation_bulk_complete bu_d bu_u now c pks accepted s =
     (if \<not> check_permissions c [Perm MANAGE_DONATIONS] False
      then Inl (DonationError ''requestor'' PERMISSION_DENIED)
      else if pks = [] then Inr (0, s)
      else if \<exists>pk \<in> set pks. row_of don_pk pk (donations s) = None
      then Inl (DonationError ''id'' GRAPHQL_ERROR)
      else Inr (length pks, snd (donation_bulk_action bu_d bu_u now pks accepted s)))"

subsection \<open>Reading\<close>

text \<open>An app has no attribute \<open>code\<close>: the two resolvers raise when they read it.\<close>

datatype read_error = PermissionDenied | NoSuchAttribute

definition requestor_code :: "requestor \<Rightarrow> read_error + string" where
  "requestor_code r = (case r of UserRequestor u \<Rightarrow> Inr (user_code u) | AppRequestor _ \<Rightarrow> Inl NoSuchAttribute)"

definition resolve_donations :: "request_context \<Rightarrow> db \<Rightarrow> read_error + donation list" where
  "resolve_donations c s =
     (case get_user_or_app_from_context c of
        None \<Rightarrow> Inl PermissionDenied
      | Some r \<Rightarrow>
          if \<not> requestor_has_perm r ADD_DONATIONS
          then bindr (requestor_code r) (\<lambda>code. Inr (filter (\<lambda>d. don_donator d = Some code) (donations s)))
          else Inr (donations s))"

definition resolve_donation_by_id :: "request_context \<Rightarrow> donation \<Rightarrow> read_error + donation" where
  "resolve_donation_by_id c d =
     (case get_user_or_app_from_context c of
        None \<Rightarrow> Inl PermissionDenied
      | Some r \<Rightarrow>
          bindr (requestor_code r) (\<lambda>code.
            if Some code = don_donator d \<or> requestor_has_perm r ADD_DONATIONS
            then Inr d else Inl PermissionDenied))"

subsection \<open>Completing keeps the ledger\<close>

lemma save_donation_simps [simp]:
  "users (save_donation d s) = users s"
  "balance_events (save_donation d s) = balance_events s"
  by (simp_all add: save_donation_def)

lemma donator_of_save_donation [simp]: "donator_of d (save_donation e s) = donator_of d s"
  by (simp add: donator_of_def get_user_def split: option.splits)

lemma donator_of_SomeD:
  "donator_of d s = Some u \<Longrightarrow> u \<in> set (users s) \<and> don_donator d = Some (user_code u) \<and> user_code u \<noteq> []"
  by (auto simp: donator_of_def split: option.splits if_splits sum.splits dest!: get_user_InrD)

text \<open>The amount by which a change of status moves the donator's balance.\<close>

definition status_credit :: "donation_status \<Rightarrow> donation_status \<Rightarrow> decimal \<Rightarrow> decimal" where
  "status_credit old new price =
     (if old \<noteq> DonationStatus_COMPLETED \<and> new = DonationStatus_COMPLETED then price
      else if old = DonationStatus_COMPLETED \<and> new = DonationStatus_REJECTED then - price else 0)"

lemma complete_post_save_outcome:
  assumes "complete_post_save now previous d s = Inr t"
  shows "(t = s \<and> (donator_of d s = None \<or> status_credit previous (don_status d) (price_or_zero d) = 0))
    \<or> (\<exists>u e. donator_of d s = Some u \<and> donations t = donations s
         \<and> users t = save_row user_pk (user_pk u) (copy_user_fields [''balance'']
             (u\<lparr>user_balance := user_balance u + status_credit previous (don_status d) (price_or_zero d)\<rparr>)) (users s)
         \<and> balance_events t = balance_events s @ [e] \<and> bev_user e = user_pk u
         \<and> bev_delta e = Some (status_credit previous (don_status d) (price_or_zero d)))"
  using assms
  by (auto simp: complete_post_save_def status_credit_def price_or_zero_def Let_def save_user_def
      donation_granted_balance_event_def donation_rejected_balance_event_def
      create_balance_event_def split: if_splits option.splits)

lemma complete_post_save_keeps_ledger:
  assumes ok: "ledger_ok s" and run: "complete_post_save now previous d s = Inr t"
  shows "ledger_ok t"
  using complete_post_save_outcome [OF run]
proof (elim disjE exE conjE)
  fix u e
  assume u: "donator_of d s = Some u"
    and t: "users t = save_row user_pk (user_pk u) (copy_user_fields [''balance'']
             (u\<lparr>user_balance := user_balance u + status_credit previous (don_status d) (price_or_zero d)\<rparr>)) (users s)"
    and e: "balance_events t = balance_events s @ [e]" "bev_user e = user_pk u"
      "bev_delta e = Some (status_credit previous (don_status d) (price_or_zero d))"
  show "ledger_ok t"
  proof (rule ledger_step [OF ok t _ _ e])
    fix v assume v: "v \<in> set (users s)" "user_pk v = user_pk u"
    with donator_of_SomeD [OF u] ok have "v = u"
      by (metis inj_onD ledger_ok_def distinct_map)
    then show "user_balance (copy_user_fields [''balance'']
        (u\<lparr>user_balance := user_balance u + status_credit previous (don_status d) (price_or_zero d)\<rparr>) v)
      = user_balance v + status_credit previous (don_status d) (price_or_zero d)"
      by (simp add: user_balance_copy_user_fields)
  qed simp
qed (use ok in simp_all)

lemma ledger_ok_save_donation [simp]: "ledger_ok (save_donation d s) = ledger_ok s"
  by (simp add: ledger_ok_def)

lemma donation_complete_ok:
  assumes "donation_complete fc now c pk accepted s = Inr t"
  obtains d d' where "row_of don_pk pk (donations s) = Some d"
    "d' = d\<lparr>don_status := (if accepted then DonationStatus_COMPLETED else DonationStatus_REJECTED),
            don_updated_at := now\<rparr>"
    "complete_post_save now (don_status d) d' (save_donation d' s) = Inr t"
  using assms
  by (auto simp: donation_complete_def get_donation_def bindr_eq_Inr Let_def
      split: option.splits if_splits)

lemma donation_complete_ledger:
  "ledger_ok s \<Longrightarrow> donation_complete fc now c pk accepted s = Inr t \<Longrightarrow> ledger_ok t"
  by (elim donation_complete_ok) (auto intro: complete_post_save_keeps_ledger [rotated])

interpretation donation_review: ledger_component
  "\<lambda>(fc, now, c, pk, accepted). donation_complete fc now c pk accepted"
  by standard (auto intro: donation_complete_ledger)

text \<open>After any sequence of donation reviews each stored balance is still the sum of the deltas
  recorded for the account\<close>

theorem donation_reviews_keep_balances:
  assumes "ledger_ok s"
    and "run_ops (\<lambda>(fc, now, c, pk, accepted). donation_complete fc now c pk accepted) reviews s = Inr t"
    and "row_of user_pk pk (users t) = Some u"
  shows "user_balance u = ledger_total pk (balance_events t)"
  using assms by (rule donation_review.run_balance)

subsection \<open>What a donator holds because of donations\<close>

text \<open>
  The three operations on single donations, with the key a database gives a new row. \<open>clean\<close>
  is \<open>full_clean\<close>.
\<close>

datatype donation_op =
    CreateDonation datetime request_context donation_create_input
  | UpdateDonation datetime request_context nat donation_update_input
  | CompleteDonation datetime request_context nat bool

definition next_donation_pk :: "donation list \<Rightarrow> nat" where
  "next_donation_pk ds = Suc (sum_list (map don_pk ds))"

fun donation_step :: "(donation \<Rightarrow> bool) \<Rightarrow> donation_op \<Rightarrow> db \<Rightarrow> donation_error + db" where
  "donation_step clean (CreateDonation now c i) s =
     donation_create clean now (next_donation_pk (donations s)) c i s"
| "donation_step clean (UpdateDonation now c pk i) s = donation_update clean now c pk i s"
| "donation_step clean (CompleteDonation now c pk accepted) s =
     donation_complete clean now c pk accepted s"

lemma next_donation_pk_fresh: "next_donation_pk ds \<notin> don_pk ` set ds"
proof
  assume "next_donation_pk ds \<in> don_pk ` set ds"
  then obtain d where "d \<in> set ds" "don_pk d = Suc (sum_list (map don_pk ds))"
    by (auto simp: next_donation_pk_def)
  moreover from this(1) have "don_pk d \<le> sum_list (map don_pk ds)"
    by (simp add: member_le_sum_list)
  ultimately show False by simp
qed










lemma donation_create_outcome:
  "donation_create fc now new_pk c i s = Inr t \<Longrightarrow>
     t = s\<lparr>donations := donations s @ [created_donation now new_pk i s]\<rparr>
     \<and> validate_creation_input c new_pk i s = Inr ()"
  by (auto simp: donation_create_def bindr_eq_Inr Let_def split: if_splits)

lemma created_donation_simps [simp]:
  "don_pk (created_donation now new_pk i s) = new_pk"
  "don_status (created_donation now new_pk i s) = DonationStatus_UNREVIEWED"
  "don_barcode (created_donation now new_pk i s) = Some (dci_barcode i)"
  by (simp_all add: created_donation_def)

lemma construct_donation_simps [simp]:
  "don_pk (construct_donation now i d) = don_pk d"
  "don_status (construct_donation now i d) = DonationStatus_UNREVIEWED"
  by (simp_all add: construct_donation_def)









subsection \<open>What is true of every donation\<close>

text \<open>
  Prices are positive, quantities are not negative, no two donations share a barcode (the empty
  string apart), and whoever is named as donator was a user.
\<close>

definition donation_ok :: "user list \<Rightarrow> donation \<Rightarrow> bool" where
  "donation_ok us d \<longleftrightarrow>
     (case don_price_amount d of None \<Rightarrow> True | Some p \<Rightarrow> p > 0) \<and> don_quantity d \<ge> 0
     \<and> (case don_donator d of None \<Rightarrow> True | Some c \<Rightarrow> c = [] \<or> c \<in> user_code ` set us)"

definition barcodes_unique :: "donation list \<Rightarrow> bool" where
  "barcodes_unique ds \<longleftrightarrow>
     (\<forall>d \<in> set ds. \<forall>e \<in> set ds. don_barcode d = don_barcode e \<and> don_barcode d \<notin> {None, Some []}
        \<longrightarrow> don_pk d = don_pk e)"

lemma barcodes_unique_D:
  "barcodes_unique ds \<Longrightarrow> d \<in> set ds \<Longrightarrow> e \<in> set ds \<Longrightarrow> don_barcode d = Some b \<Longrightarrow>
     don_barcode e = Some b \<Longrightarrow> b \<noteq> [] \<Longrightarrow> don_pk d = don_pk e"
  unfolding barcodes_unique_def by (metis insertE option.distinct(1) option.inject singletonD)

definition donations_ok :: "db \<Rightarrow> bool" where
  "donations_ok s \<longleftrightarrow>
     distinct (map don_pk (donations s)) \<and> barcodes_unique (donations s)
     \<and> (\<forall>d \<in> set (donations s). donation_ok (users s) d)"

lemma set_save_row_const:
  "d' \<in> set (save_row key k (\<lambda>_. d) rows) \<Longrightarrow> d' = d \<or> (d' \<in> set rows \<and> key d' \<noteq> k)"
  by (auto simp: save_row_def)

lemma barcodes_unique_save:
  assumes "barcodes_unique ds"
    and "\<And>e b. e \<in> set ds \<Longrightarrow> don_pk e \<noteq> don_pk d \<Longrightarrow> don_barcode d = Some b \<Longrightarrow> b \<noteq> [] \<Longrightarrow> don_barcode e \<noteq> Some b"
  shows "barcodes_unique (save_row don_pk (don_pk d) (\<lambda>_. d) ds)"
  unfolding barcodes_unique_def
proof (intro ballI impI, elim conjE)
  fix x y
  assume x: "x \<in> set (save_row don_pk (don_pk d) (\<lambda>_. d) ds)"
    and y: "y \<in> set (save_row don_pk (don_pk d) (\<lambda>_. d) ds)"
    and eq: "don_barcode x = don_barcode y" and ne: "don_barcode x \<notin> {None, Some []}"
  from ne obtain b where b: "don_barcode x = Some b" "b \<noteq> []" by auto
  have old: "don_pk e = don_pk e'"
    if "e \<in> set ds" "e' \<in> set ds" "don_barcode e = Some b" "don_barcode e' = Some b" for e e'
    using barcodes_unique_D [OF assms(1) that b(2)] .
  from set_save_row_const [OF x] set_save_row_const [OF y] show "don_pk x = don_pk y"
    using assms(2) [of x b] assms(2) [of y b] eq b old [of x y] by metis
qed

lemma donations_ok_save:
  assumes "donations_ok s" "donation_ok (users s) d"
    and "\<And>e b. e \<in> set (donations s) \<Longrightarrow> don_pk e \<noteq> don_pk d \<Longrightarrow> don_barcode d = Some b \<Longrightarrow> b \<noteq> [] \<Longrightarrow>
           don_barcode e \<noteq> Some b"
  shows "donations_ok (save_donation d s)"
proof -
  have "map don_pk (save_row don_pk (don_pk d) (\<lambda>_. d) ds) = map don_pk ds" for ds
    by (simp add: save_row_def)
  moreover have "barcodes_unique (save_row don_pk (don_pk d) (\<lambda>_. d) (donations s))"
    using assms by (intro barcodes_unique_save) (auto simp: donations_ok_def)
  ultimately show ?thesis
    using assms by (auto simp: donations_ok_def save_donation_def dest!: set_save_row_const)
qed

lemma donations_ok_frame:
  "donations_ok s \<Longrightarrow> donations t = donations s \<Longrightarrow> map user_code (users t) = map user_code (users s)
     \<Longrightarrow> donations_ok t"
  by (auto simp: donations_ok_def donation_ok_def split: option.splits) (metis list.set_map)+

lemma donation_create_ok:
  assumes ok: "donations_ok s" and run: "donation_create fc now (next_donation_pk (donations s)) c i s = Inr t"
  shows "donations_ok t"
proof -
  define d where "d = created_donation now (next_donation_pk (donations s)) i s"
  note out = donation_create_outcome [OF run]
  then have "dci_donator i \<in> user_code ` set (users s)"
    by (auto simp: validate_creation_input_def validate_donator_def bindr_eq_Inr exists_row_iff
        intro: rev_image_eqI)
  with out have d: "don_pk d = next_donation_pk (donations s)" "donation_ok (users s) d"
      "don_barcode d = Some (dci_barcode i)"
    and bar: "\<And>e. e \<in> set (donations s) \<Longrightarrow> don_pk e \<noteq> don_pk d \<Longrightarrow> don_barcode e \<noteq> don_barcode d"
    by (auto simp: validate_creation_input_def validate_donation_price_def d_def donation_ok_def
        validate_donation_quantity_def validate_donation_barcode_def validate_donator_def bindr_eq_Inr
        exists_row_iff created_donation_def)
  have "barcodes_unique (donations s @ [d])"
    unfolding barcodes_unique_def
  proof (intro ballI impI, elim conjE)
    fix e e' assume e: "e \<in> set (donations s @ [d])" "e' \<in> set (donations s @ [d])"
      "don_barcode e = don_barcode e'" "don_barcode e \<notin> {None, Some []}"
    then obtain b where "don_barcode e = Some b" "don_barcode e' = Some b" "b \<noteq> []" by auto
    moreover have "barcodes_unique (donations s)" using ok by (simp add: donations_ok_def)
    ultimately show "don_pk e = don_pk e'"
      using e(1,2) bar [of e] bar [of e'] barcodes_unique_D [of "donations s" e e' b]
      by (auto; metis)
  qed
  then show ?thesis
    using out ok d next_donation_pk_fresh [of "donations s"] by (simp add: donations_ok_def d_def)
qed

lemma donation_update_ok:
  assumes ok: "donations_ok s" and run: "donation_update fc now c pk i s = Inr t"
  shows "donations_ok t"
proof -
  from run obtain d where d: "row_of don_pk pk (donations s) = Some d"
    and valid: "validate_donation_input c d i s = Inr ()"
    and t: "t = save_donation (construct_donation now i d) s"
    by (auto simp: donation_update_def get_donation_def bindr_eq_Inr Let_def
        split: option.splits if_splits)
  have din: "d \<in> set (donations s)" "don_pk d = pk" using row_of_SomeD [OF d] by auto
  have dok: "donation_ok (users s) d" using ok din by (simp add: donations_ok_def)
  have price: "case don_price_amount (construct_donation now i d) of None \<Rightarrow> True | Some p \<Rightarrow> p > 0"
    using dok valid by (cases "dui_price i") (auto simp: donation_ok_def validate_donation_input_def
        construct_donation_def validate_donation_price_def bindr_eq_Inr)
  have quantity: "don_quantity (construct_donation now i d) \<ge> 0"
    using dok valid by (cases "dui_quantity i") (auto simp: donation_ok_def validate_donation_input_def
        construct_donation_def validate_donation_quantity_def bindr_eq_Inr split: if_splits)
  have donator: "case don_donator (construct_donation now i d) of None \<Rightarrow> True
      | Some c \<Rightarrow> c = [] \<or> c \<in> user_code ` set (users s)"
    using dok valid by (cases "dui_donator i") (auto simp: donation_ok_def validate_donation_input_def
        construct_donation_def set_nullable_def validate_donator_def bindr_eq_Inr exists_row_iff
        image_iff split: if_splits)
  show ?thesis
    unfolding t
  proof (rule donations_ok_save [OF ok])
    show "donation_ok (users s) (construct_donation now i d)"
      using price quantity donator by (simp add: donation_ok_def)
    show "don_barcode e \<noteq> Some b"
      if "e \<in> set (donations s)" "don_pk e \<noteq> don_pk (construct_donation now i d)"
        "don_barcode (construct_donation now i d) = Some b" "b \<noteq> []" for e b
    proof (cases "dui_barcode i")
      case Missing
      with that have "don_barcode d = Some b" by (simp add: construct_donation_def set_nullable_def)
      with ok din that show ?thesis
        unfolding donations_ok_def by (metis barcodes_unique_D construct_donation_simps(1))
    next
      case Null
      with that show ?thesis by (simp add: construct_donation_def set_nullable_def)
    next
      case (Given b')
      with that valid show ?thesis
        by (auto simp: construct_donation_def set_nullable_def validate_donation_input_def
            validate_donation_barcode_def bindr_eq_Inr exists_row_iff)
    qed
  qed
qed

lemma complete_post_save_frame:
  assumes "complete_post_save now previous d s = Inr t"
  shows "donations t = donations s" "map user_code (users t) = map user_code (users s)"
  using complete_post_save_outcome [OF assms]
  by (auto simp: save_row_def copy_user_fields_def)

lemma donation_complete_valid:
  assumes ok: "donations_ok s" and run: "donation_complete fc now c pk accepted s = Inr t"
  shows "donations_ok t"
proof -
  from run obtain d d' where d: "row_of don_pk pk (donations s) = Some d"
    and d': "d' = d\<lparr>don_status := (if accepted then DonationStatus_COMPLETED else DonationStatus_REJECTED),
                     don_updated_at := now\<rparr>"
    and post: "complete_post_save now (don_status d) d' (save_donation d' s) = Inr t"
    by (rule donation_complete_ok)
  have din: "d \<in> set (donations s)" using row_of_SomeD [OF d] by auto
  have "donation_ok (users s) d" using ok din by (simp add: donations_ok_def)
  then have "donation_ok (users s) d'" by (simp add: donation_ok_def d')
  then have "donations_ok (save_donation d' s)"
  proof (rule donations_ok_save [OF ok])
    fix e b
    assume e: "e \<in> set (donations s)" "don_pk e \<noteq> don_pk d'" "don_barcode d' = Some b" "b \<noteq> []"
    then have "don_pk e \<noteq> don_pk d" "don_barcode d = Some b" by (simp_all add: d')
    with e(1,4) ok din show "don_barcode e \<noteq> Some b"
      unfolding donations_ok_def by (metis barcodes_unique_D)
  qed
  then show ?thesis
    using complete_post_save_frame [OF post] by (rule donations_ok_frame)
qed

lemma donation_step_valid: "donations_ok s \<Longrightarrow> donation_step fc x s = Inr t \<Longrightarrow> donations_ok t"
  by (cases x) (auto intro: donation_create_ok donation_update_ok donation_complete_valid)

text \<open>Creating, updating and reviewing keeps every donation valid: positive price, non-negative
  quantity, a known donator, and no barcode shared by two donations\<close>

theorem donations_stay_valid:
  assumes "donations_ok s" and "run_ops (donation_step clean) ops s = Inr t"
  shows "donations_ok t"
  using run_ops_invariant [where I = donations_ok, OF donation_step_valid assms] .

subsection \<open>Completing in bulk\<close>

text \<open>
  What the batch appends to an account's history is the sum of its credits; what it writes to
  the account is the first of them.
\<close>

definition batch_credits :: "nat list \<Rightarrow> bool \<Rightarrow> db \<Rightarrow> (user \<times> decimal) list" where
  "batch_credits pks accepted s =
     concat (map (bulk_credit accepted s)
       (donation_order (filter (\<lambda>d. don_pk d \<in> set pks) (donations s))))"

lemma bulk_credit_D:
  "(u, x) \<in> set (bulk_credit accepted s d) \<Longrightarrow>
     \<exists>v \<in> set (users s). user_pk u = user_pk v \<and> user_balance u = user_balance v + x"
  by (cases "bulk_delta accepted d"; cases "donator_of d s")
    (auto simp: bulk_credit_def dest!: donator_of_SomeD)

lemma batch_credits_D:
  "(u, x) \<in> set (batch_credits pks accepted s) \<Longrightarrow>
     \<exists>v \<in> set (users s). user_pk u = user_pk v \<and> user_balance u = user_balance v + x"
  by (auto simp: batch_credits_def dest: bulk_credit_D)

definition credits_for :: "nat \<Rightarrow> (user \<times> decimal) list \<Rightarrow> decimal list" where
  "credits_for pk credits = map snd (filter (\<lambda>c. user_pk (fst c) = pk) credits)"

lemma ledger_total_bulk_events:
  "ledger_total pk (map (bulk_event now accepted s) credits) = sum_list (credits_for pk credits)"
  by (induction credits) (auto simp: credits_for_def event_delta_def bulk_event_def)

lemma map_of_credits:
  "map_of (map (\<lambda>(u, _). (user_pk u, f u)) credits) pk =
     (case filter (\<lambda>c. user_pk (fst c) = pk) credits of [] \<Rightarrow> None | c # _ \<Rightarrow> Some (f (fst c)))"
  by (induction credits) auto

lemma bulk_action_balance:
  assumes law: "bulk_update_law user_pk bu_u" and d: "distinct (map user_pk (users s))"
    and row: "row_of user_pk pk (users s) = Some u"
    and t: "t = snd (donation_bulk_action bu_d bu_u now pks accepted s)"
  shows "\<exists>u'. row_of user_pk pk (users t) = Some u'
      \<and> user_balance u' = user_balance u
          + (case credits_for pk (batch_credits pks accepted s) of [] \<Rightarrow> 0 | x # _ \<Rightarrow> x)"
    and "ledger_total pk (balance_events t) =
           ledger_total pk (balance_events s) + sum_list (credits_for pk (batch_credits pks accepted s))"
proof -
  define cs where "cs = batch_credits pks accepted s"
  define upd where "upd = map (\<lambda>(u, _ :: decimal). (user_pk u, \<lambda>r :: user. r\<lparr>user_balance := user_balance u\<rparr>)) cs"
  have users_t: "users t = first_update user_pk upd (users s)"
    using bulk_update_lawD [OF law]
    by (simp add: t donation_bulk_action_def Let_def upd_def cs_def batch_credits_def)
  have "row_of user_pk pk (users t) = Some (case map_of upd pk of None \<Rightarrow> u | Some f \<Rightarrow> f u)"
    by (subst users_t, subst row_of_first_update) (auto simp: upd_def row)
  moreover have "user_balance (case map_of upd pk of None \<Rightarrow> u | Some f \<Rightarrow> f u) =
      user_balance u + (case credits_for pk cs of [] \<Rightarrow> 0 | x # _ \<Rightarrow> x)"
  proof (cases "filter (\<lambda>c. user_pk (fst c) = pk) cs")
    case Nil
    then show ?thesis by (simp add: upd_def map_of_credits credits_for_def)
  next
    case (Cons c rest)
    then have "c \<in> set (filter (\<lambda>c. user_pk (fst c) = pk) cs)" by simp
    then have c: "c \<in> set cs" "user_pk (fst c) = pk" by simp_all
    then obtain v where v: "v \<in> set (users s)" "user_pk v = pk" "user_balance (fst c) = user_balance v + snd c"
      using batch_credits_D [of "fst c" "snd c" pks accepted s] by (auto simp: cs_def)
    have "u = v" using v row d by (simp add: row_of_eq_Some distinct_map inj_on_def)
    with v Cons show ?thesis by (simp add: upd_def map_of_credits credits_for_def)
  qed
  ultimately show "\<exists>u'. row_of user_pk pk (users t) = Some u'
      \<and> user_balance u' = user_balance u
          + (case credits_for pk (batch_credits pks accepted s) of [] \<Rightarrow> 0 | x # _ \<Rightarrow> x)"
    by (simp add: cs_def)
  show "ledger_total pk (balance_events t) =
      ledger_total pk (balance_events s) + sum_list (credits_for pk (batch_credits pks accepted s))"
    by (simp add: t donation_bulk_action_def Let_def batch_credits_def [symmetric] ledger_total_bulk_events)
qed

lemma ledger_ok_row_of:
  assumes "distinct (map user_pk (users t))"
  shows "ledger_ok t \<longleftrightarrow> (\<forall>pk \<in> user_pk ` set (users t). \<exists>u'. row_of user_pk pk (users t) = Some u'
          \<and> user_balance u' = ledger_total pk (balance_events t))"
proof -
  have "row_of user_pk (user_pk u) (users t) = Some u" if "u \<in> set (users t)" for u
    using assms that by (simp add: row_of_eq_Some)
  with assms show ?thesis by (simp add: ledger_ok_def)
qed

text \<open>
  Completing donations in one batch keeps the ledger exactly when, for every account, the
  credits after its first one add up to nothing: bulk_update writes only the first of an
  account's credits, the events record all of them.
\<close>

theorem bulk_completion_ledger_iff:
  assumes law: "bulk_update_law user_pk bu_u" and ok: "ledger_ok s"
  shows "ledger_ok (snd (donation_bulk_action bu_d bu_u now pks accepted s)) \<longleftrightarrow>
    (\<forall>pk \<in> user_pk ` set (users s).
       case credits_for pk (batch_credits pks accepted s) of [] \<Rightarrow> True | x # xs \<Rightarrow> sum_list xs = 0)"
proof -
  define t where "t = snd (donation_bulk_action bu_d bu_u now pks accepted s)"
  have d: "distinct (map user_pk (users s))" using ok by (simp add: ledger_ok_def)
  have keys: "map user_pk (users t) = map user_pk (users s)"
    using bulk_update_lawD [OF law]
    by (simp add: t_def donation_bulk_action_def Let_def) (rule keys_first_update, auto)
  have dt: "distinct (map user_pk (users t))" using d by (simp add: keys)
  have step: "(\<exists>u'. row_of user_pk (user_pk u) (users t) = Some u'
        \<and> user_balance u' = ledger_total (user_pk u) (balance_events t))
      \<longleftrightarrow> (case credits_for (user_pk u) (batch_credits pks accepted s) of [] \<Rightarrow> True | x # xs \<Rightarrow> sum_list xs = 0)"
    if u: "u \<in> set (users s)" for u
  proof -
    have row: "row_of user_pk (user_pk u) (users s) = Some u" using u d by (simp add: row_of_eq_Some)
    have "user_balance u = ledger_total (user_pk u) (balance_events s)" using ok u by (simp add: ledger_ok_def)
    then show ?thesis
      using bulk_action_balance [OF law d row t_def]
      by (auto split: list.splits)
  qed
  have "ledger_ok t \<longleftrightarrow> (\<forall>pk \<in> user_pk ` set (users t). \<exists>u'. row_of user_pk pk (users t) = Some u'
          \<and> user_balance u' = ledger_total pk (balance_events t))"
    by (rule ledger_ok_row_of [OF dt])
  also have "user_pk ` set (users t) = user_pk ` set (users s)" using keys by (metis list.set_map)
  finally show ?thesis using step unfolding t_def by simp
qed

subsection \<open>Examples\<close>

definition sample_donation :: "nat \<Rightarrow> string \<Rightarrow> decimal \<Rightarrow> donation" where
  "sample_donation pk donator price =
     \<lparr>don_pk = pk, don_number = int pk, don_donator = Some donator, don_barcode = None,
      don_created_at = (2024, 2, int pk, 0), don_updated_at = (2024, 2, int pk, 0),
      don_title = None, don_description = None, don_currency = Some ''CNY'',
      don_price_amount = Some price, don_status = DonationStatus_UNREVIEWED, don_quantity = 1\<rparr>"

definition donation_db :: db where
  "donation_db = sample_db\<lparr>donations := [sample_donation 1 ''A'' 3, sample_donation 2 ''A'' 4]\<rparr>"

lemma donation_db_ledger: "ledger_ok donation_db"
  by (simp add: ledger_ok_def sample_defs event_delta_def donation_db_def)


lemma donation_db_valid: "donations_ok donation_db"
  by code_simp

definition reviewed_example :: "donation_error + db" where
  "reviewed_example = run_ops (\<lambda>(fc, now, c, pk, accepted). donation_complete fc now c pk accepted)
    [(\<lambda>_. True, (2024, 4, 1, 0), sample_context, 1, True),
     (\<lambda>_. True, (2024, 4, 1, 0), sample_context, 1, False),
     (\<lambda>_. True, (2024, 4, 2, 0), sample_context, 2, True)] donation_db"

lemma reviewed_example_value:
  "case reviewed_example of
     Inr t \<Rightarrow> row_of user_pk 1 (users t) = Some (sample_user 1 ''A'' 9) | Inl _ \<Rightarrow> False"
  by code_simp

lemma donation_reviews_keep_balances_witness:
  "\<exists>t. reviewed_example = Inr t \<and> ledger_total 1 (balance_events t) = 9"
proof -
  from reviewed_example_value obtain t where t: "reviewed_example = Inr t"
    "row_of user_pk 1 (users t) = Some (sample_user 1 ''A'' 9)"
    by (auto split: sum.splits)
  from donation_reviews_keep_balances [OF donation_db_ledger t(1) [unfolded reviewed_example_def] t(2)] t(1)
  show ?thesis by (auto simp: sample_defs)
qed

definition donation_ops_example :: "donation_op list" where
  "donation_ops_example =
     [CreateDonation (2024, 4, 1, 0) sample_context
        \<lparr>dci_title = ''book'', dci_description = [], dci_quantity = 2, dci_price_amount = 5,
         dci_price_currency = ''CNY'', dci_donator = ''B'', dci_barcode = ''240400001''\<rparr>,
      CompleteDonation (2024, 4, 1, 0) sample_context 4 True,
      UpdateDonation (2024, 4, 1, 0) sample_context 1
        \<lparr>dui_title = Missing, dui_description = Null, dui_quantity = Given 0, dui_price = Missing,
         dui_barcode = Missing, dui_donator = Given ''B''\<rparr>,
      CompleteDonation (2024, 4, 1, 0) sample_context 1 True]"

lemma donation_ops_example_value:
  "case run_ops (donation_step (\<lambda>_. True)) donation_ops_example donation_db of
     Inr t \<Rightarrow> map user_balance (users t) = [5, 8] \<and> map don_quantity (donations t) = [0, 1, 2]
   | Inl _ \<Rightarrow> False"
  by code_simp

lemma donation_ops_example_ok:
  "\<exists>t. run_ops (donation_step (\<lambda>_. True)) donation_ops_example donation_db = Inr t
     \<and> map user_balance (users t) = [5, 8]"
  using donation_ops_example_value by (auto split: sum.splits)


lemma donations_stay_valid_witness:
  "\<exists>t. map user_balance (users t) = [5, 8] \<and> donations_ok t"
proof -
  obtain t where t: "run_ops (donation_step (\<lambda>_. True)) donation_ops_example donation_db = Inr t"
    "map user_balance (users t) = [5, 8]" using donation_ops_example_ok by (elim exE conjE)
  then show ?thesis
    by (intro exI [of _ t] conjI donations_stay_valid [OF donation_db_valid t(1)])
qed

text \<open>Two donations of one donator, completed in one batch: 4 arrives, 7 is recorded.\<close>

lemma bulk_completion_ledger_iff_witness:
  "\<not> ledger_ok (snd (donation_bulk_action (first_update don_pk) (first_update user_pk)
     (2024, 4, 1, 0) [1, 2] True donation_db))"
proof -
  have "\<not> (\<forall>pk \<in> user_pk ` set (users donation_db).
       case credits_for pk (batch_credits [1, 2] True donation_db) of
         [] \<Rightarrow> True | x # xs \<Rightarrow> sum_list xs = 0)"
    by code_simp
  then show ?thesis
    using bulk_completion_ledger_iff [OF bulk_update_law_first_update donation_db_ledger] by blast
qed

end
