(* ===== verification/Credit.thy ===== *)
theory Credit
  imports Donation
begin

section \<open>Setting, spending and refunding balances\<close>

text \<open>
  The two mutations that set a balance (\<^verbatim>\<open>graphql/account/mutations\<close>: \<open>BalanceUpdate\<close> and
  \<open>CustomerUpdate\<close> with the \<open>clean_input\<close> and \<open>save\<close> of \<open>BaseCustomerCreate\<close>), the balance
  payment gateway (\<^verbatim>\<open>payment/gateways/balance\<close>), the confirmation of an order paid from the
  balance (\<^verbatim>\<open>graphql/order/mutations/order_confirm.py\<close>) and the management commands that delete
  accounts, donations and histories.

  Parameters: \<open>precision\<close> is Babel's number of places of a currency, \<open>full_clean\<close> Django's
  validation of a row, \<open>lower\<close> is \<open>str.lower\<close>, \<open>display_gross\<close> the tax configuration's answer for
  an order. Not modelled: addresses, metadata, notifications and webhooks of the two mutations.
\<close>

definition AXB :: string where
  "AXB = ''AXB''"

datatype account_error =
    AccountPermissionDenied | AccountNotFound | AccountFullClean

subsection \<open>\<open>BalanceUpdate\<close>\<close>

definition balance_update ::
    "datetime \<Rightarrow> request_context \<Rightarrow> nat \<Rightarrow> decimal \<Rightarrow> db \<Rightarrow> account_error + db" where
  "balance_update now c user_id balance s =
     (if \<not> check_permissions c [Perm MANAGE_USERS] False then Inl AccountPermissionDenied
      else case row_of user_pk user_id (users s) of
        None \<Rightarrow> Inl AccountNotFound
      | Some user \<Rightarrow>
          let user = user\<lparr>user_balance := balance\<rparr>;
              s = save_user [''balance''] user s
          in Inr (change_balance_event now user balance s))"

subsection \<open>\<open>CustomerUpdate\<close>\<close>

record customer_input =
  ci_first_name :: "string arg"
  ci_last_name :: "string arg"
  ci_code :: "string arg"
  ci_email :: "string arg"
  ci_is_active :: "bool arg"
  ci_is_confirmed :: "bool arg"
  ci_balance :: "decimal arg"

text \<open>
  \<open>clean_input\<close>: the balance is popped and put back quantized when it is truthy; the e-mail is
  lowered when it is truthy.
\<close>

definition customer_clean_input ::
    "(string \<Rightarrow> nat) \<Rightarrow> (string \<Rightarrow> string) \<Rightarrow> customer_input \<Rightarrow> customer_input" where
  "customer_clean_input precision lower i =
     i\<lparr>ci_balance := (case ci_balance i of
          Given b \<Rightarrow> if b \<noteq> 0 then Given (quantize_price precision b AXB) else Missing
        | _ \<Rightarrow> Missing),
       ci_email := (case ci_email i of Given e \<Rightarrow> if e \<noteq> [] then Given (lower e) else Given e | a \<Rightarrow> a)\<rparr>"

text \<open>\<open>construct_instance\<close>: a null of a column that is not nullable takes the column's default.\<close>

definition set_arg :: "'a \<Rightarrow> 'a arg \<Rightarrow> 'a \<Rightarrow> 'a" where
  "set_arg dflt a old = (case a of Missing \<Rightarrow> old | Null \<Rightarrow> dflt | Given v \<Rightarrow> v)"

definition construct_customer :: "customer_input \<Rightarrow> user \<Rightarrow> user" where
  "construct_customer i u =
     u\<lparr>user_first_name := set_arg [] (ci_first_name i) (user_first_name u),
       user_last_name := set_arg [] (ci_last_name i) (user_last_name u),
       user_code := set_arg [] (ci_code i) (user_code u),
       user_email := set_arg [] (ci_email i) (user_email u),
       user_is_active := set_arg True (ci_is_active i) (user_is_active u),
       user_is_confirmed := set_arg True (ci_is_confirmed i) (user_is_confirmed u),
       user_balance := set_arg default_balance (ci_balance i) (user_balance u)\<rparr>"

definition save_customer :: "(string \<Rightarrow> string) \<Rightarrow> datetime \<Rightarrow> user \<Rightarrow> db \<Rightarrow> user \<times> db" where
  "save_customer lower now u s =
     (let u = u\<lparr>user_updated_at := now\<rparr>;
          u = u\<lparr>user_search_document := prepare_user_search_document_value lower u\<rparr>
      in (u, s\<lparr>users := save_row user_pk (user_pk u) (\<lambda>_. u) (users s)\<rparr>))"

text \<open>\<^verbatim>\<open>giftcard/utils.py\<close>: \<open>assign_user_gift_cards\<close> and \<open>get_user_gift_cards\<close>.\<close>

definition assign_user_gift_cards :: "user \<Rightarrow> db \<Rightarrow> db" where
  "assign_user_gift_cards user s =
     s\<lparr>gift_cards := map (\<lambda>g.
         let g = (if gc_used_by_email g = Some (user_email user)
                  then g\<lparr>gc_used_by := Some (user_pk user)\<rparr> else g)
         in if gc_created_by_email g = Some (user_email user)
            then g\<lparr>gc_created_by := Some (user_pk user)\<rparr> else g) (gift_cards s)\<rparr>"

definition is_user_gift_card :: "user \<Rightarrow> gift_card \<Rightarrow> bool" where
  "is_user_gift_card user g \<longleftrightarrow>
     gc_used_by_email g = Some (user_email user) \<or> gc_created_by_email g = Some (user_email user)
     \<or> gc_used_by g = Some (user_pk user) \<or> gc_created_by g = Some (user_pk user)"

definition get_user_gift_cards :: "user \<Rightarrow> db \<Rightarrow> gift_card list" where
  "get_user_gift_cards user s = filter (is_user_gift_card user) (gift_cards s)"

definition when_db :: "bool \<Rightarrow> (db \<Rightarrow> db) \<Rightarrow> db \<Rightarrow> db" where
  "when_db p f s = (if p then f s else s)"

definition customer_generate_events ::
    "datetime \<Rightarrow> nat option \<Rightarrow> nat option \<Rightarrow> user \<Rightarrow> user \<Rightarrow> db \<Rightarrow> db" where
  "customer_generate_events now staff_user app_id old new s =
     (let new_email = user_email new;
          new_fullname = get_full_name new;
          has_new_name = get_full_name old \<noteq> new_fullname;
          has_new_balance = user_balance old \<noteq> user_balance new;
          has_new_email = user_email old \<noteq> new_email;
          was_activated = \<not> user_is_active old \<and> user_is_active new;
          was_deactivated = user_is_active old \<and> \<not> user_is_active new;
          being_confirmed = \<not> user_is_confirmed old \<and> user_is_confirmed new;
          s = when_db (has_new_email \<or> being_confirmed)
                (\<lambda>s. match_orders_with_new_user new (assign_user_gift_cards new s)) s;
          s = when_db has_new_email (assigned_email_to_a_customer_event now staff_user app_id new_email) s;
          s = when_db has_new_name (assigned_name_to_a_customer_event now staff_user app_id new_fullname) s;
          s = when_db was_activated (customer_account_activated_event now staff_user app_id (user_pk old)) s;
          s = when_db was_deactivated (customer_account_deactivated_event now staff_user app_id (user_pk old)) s
      in when_db has_new_balance (change_balance_event now old (user_balance new)) s)"

definition customer_update_gift_card_search_vector :: "user \<Rightarrow> user \<Rightarrow> db \<Rightarrow> db" where
  "customer_update_gift_card_search_vector old new s =
     when_db (user_email old \<noteq> user_email new \<or> get_full_name old \<noteq> get_full_name new)
       (\<lambda>s. s\<lparr>gift_cards := map (\<lambda>g. if is_user_gift_card new g
                                  then g\<lparr>gc_search_index_dirty := True\<rparr> else g) (gift_cards s)\<rparr>) s"

definition customer_update ::
    "(string \<Rightarrow> nat) \<Rightarrow> (string \<Rightarrow> string) \<Rightarrow> (user \<Rightarrow> bool) \<Rightarrow> datetime \<Rightarrow> request_context \<Rightarrow> nat
      \<Rightarrow> customer_input \<Rightarrow> db \<Rightarrow> account_error + db" where
  "customer_update precision lower full_clean now c user_id i s =
     (if \<not> check_permissions c [Perm MANAGE_USERS] False then Inl AccountPermissionDenied
      else case row_of user_pk user_id (users s) of
        None \<Rightarrow> Inl AccountNotFound
      | Some original \<Rightarrow>
          let new = construct_customer (customer_clean_input precision lower i) original
          in if \<not> full_clean new then Inl AccountFullClean
             else case save_customer lower now new s of (new, s) \<Rightarrow>
               let s = customer_generate_events now (map_option user_pk (ctx_user c))
                         (map_option app_pk (ctx_app c)) original new s
               in Inr (if get_user_gift_cards new s \<noteq> []
                       then customer_update_gift_card_search_vector original new s else s))"

subsection \<open>The balance gateway\<close>

record payment_data =
  pd_amount :: decimal
  pd_customer_id :: nat
  pd_order_id :: nat
  pd_currency :: string

record gateway_response =
  gr_is_success :: bool
  gr_kind :: transaction_kind
  gr_amount :: decimal
  gr_currency :: string
  gr_error :: "string option"

datatype gateway_error =
    GatewayUserLookup lookup_error
  | GatewayOrderLookup lookup_error
  | UnexpectedKeywords "string list"

text \<open>
  The names \<open>Payment(...)\<close> accepts: the fields of the model, the primary key and the metadata it
  inherits. \<open>Model.objects.create\<close> raises \<open>TypeError\<close> for any other keyword.
\<close>

definition payment_field_names :: "string list" where
  "payment_field_names =
     [''id'', ''pk'', ''metadata'', ''private_metadata'',
      ''gateway'', ''is_active'', ''to_confirm'', ''partial'', ''created_at'', ''modified_at'',
      ''charge_status'', ''token'', ''total'', ''captured_amount'', ''currency'', ''checkout'',
      ''checkout_id'', ''order'', ''order_id'', ''store_payment_method'', ''billing_email'',
      ''billing_first_name'', ''billing_last_name'', ''billing_company_name'',
      ''billing_address_1'', ''billing_address_2'', ''billing_city'', ''billing_city_area'',
      ''billing_postal_code'', ''billing_country_code'', ''billing_country_area'',
      ''cc_first_digits'', ''cc_last_digits'', ''cc_brand'', ''cc_exp_month'', ''cc_exp_year'',
      ''payment_method_type'', ''customer_ip_address'', ''extra_data'', ''return_url'',
      ''psp_reference'']"

definition gateway_payment_keywords :: "string list" where
  "gateway_payment_keywords =
     [''gateway'', ''currency'', ''charge_status'', ''total'', ''checkout'', ''order'',
      ''stored_payment_methods'', ''captured_amount'']"

definition create_gateway_payment :: "nat \<Rightarrow> payment_data \<Rightarrow> db \<Rightarrow> gateway_error + db" where
  "create_gateway_payment new_pk p s =
     (let unexpected = filter (\<lambda>k. k \<notin> set payment_field_names) gateway_payment_keywords
      in if unexpected \<noteq> [] then Inl (UnexpectedKeywords unexpected)
         else Inr (s\<lparr>payments := payments s @
            [\<lparr>pay_pk = new_pk, pay_order = Some (pd_order_id p), pay_gateway = AXB,
              pay_currency = AXB, pay_charge_status = ChargeStatus_FULLY_CHARGED,
              pay_total = pd_amount p, pay_captured_amount = pd_amount p, pay_partial = False\<rparr>]\<rparr>))"

text \<open>The transaction is atomic: an error leaves the database as it was.\<close>

definition process_payment ::
    "datetime \<Rightarrow> nat \<Rightarrow> payment_data \<Rightarrow> db \<Rightarrow> gateway_error + (gateway_response \<times> db)" where
  "process_payment now new_pk p s =
     (let amount = pd_amount p in
      case get_user (\<lambda>u. user_pk u = pd_customer_id p) s of
        Inl e \<Rightarrow> Inl (GatewayUserLookup e)
      | Inr user \<Rightarrow>
         if user_balance user < amount
         then Inr (\<lparr>gr_is_success = False, gr_kind = TransactionKind_VOID, gr_amount = amount,
                    gr_currency = pd_currency p, gr_error = Some ''Insufficient funds''\<rparr>, s)
         else let s = save_user [''balance'', ''updated_at'']
                        (user\<lparr>user_balance := user_balance user - amount, user_updated_at := now\<rparr>) s in
           (case objects_get (filter (\<lambda>o'. order_pk o' = pd_order_id p) (orders s)) of
              Inl e \<Rightarrow> Inl (GatewayOrderLookup e)
            | Inr ord \<Rightarrow>
               let s = s\<lparr>orders := save_row order_pk (order_pk ord)
                     (\<lambda>r. r\<lparr>order_status := OrderStatus_FULFILLED, order_updated_at := now\<rparr>) (orders s)\<rparr>
               in bindr (create_gateway_payment new_pk p s) (\<lambda>s.
                    Inr (\<lparr>gr_is_success = True, gr_kind = TransactionKind_CAPTURE, gr_amount = amount,
                          gr_currency = pd_currency p, gr_error = None\<rparr>, s))))"

definition refund_payment ::
    "datetime \<Rightarrow> payment_data \<Rightarrow> db \<Rightarrow> gateway_error + (gateway_response \<times> db)" where
  "refund_payment now p s =
     (let amount = pd_amount p in
      case get_user (\<lambda>u. user_pk u = pd_customer_id p) s of
        Inl e \<Rightarrow> Inl (GatewayUserLookup e)
      | Inr user \<Rightarrow>
         let user = user\<lparr>user_balance := user_balance user + amount, user_updated_at := now\<rparr>;
             s = save_user [''balance'', ''updated_at''] user s;
             s = refunded_balance_event now user amount s
         in Inr (\<lparr>gr_is_success = True, gr_kind = TransactionKind_REFUND, gr_amount = amount,
                  gr_currency = pd_currency p, gr_error = None\<rparr>, s))"

subsection \<open>Confirming an order\<close>

datatype confirm_error =
    ConfirmUserNotFound | ConfirmNotFound | ConfirmNotUnconfirmed | ConfirmNoProducts
  | ConfirmNoPayment | ConfirmBalance

text \<open>\<open>Order.get_last_payment\<close>: the one with the greatest key among those that are not partial.\<close>

definition get_last_payment :: "nat \<Rightarrow> db \<Rightarrow> payment option" where
  "get_last_payment pk s =
     (let ps = filter (\<lambda>p. pay_order p = Some pk \<and> \<not> pay_partial p) (payments s)
      in if ps = [] then None
         else Some (foldl (\<lambda>best p. if pay_pk p > pay_pk best then p else best) (hd ps) (tl ps)))"

definition is_unconfirmed :: "order \<Rightarrow> bool" where
  "is_unconfirmed ord \<longleftrightarrow> order_status ord = OrderStatus_UNCONFIRMED"

definition order_confirm_get_instance :: "nat \<Rightarrow> db \<Rightarrow> confirm_error + order" where
  "order_confirm_get_instance pk s =
     (case row_of order_pk pk (orders s) of
        None \<Rightarrow> Inl ConfirmNotFound
      | Some ord \<Rightarrow>
          if \<not> is_unconfirmed ord then Inl ConfirmNotUnconfirmed
          else if order_line_quantities ord = [] then Inl ConfirmNoProducts else Inr ord)"

definition order_confirmed_event :: "datetime \<Rightarrow> nat \<Rightarrow> nat option \<Rightarrow> nat option \<Rightarrow> db \<Rightarrow> db" where
  "order_confirmed_event now pk user app_id s =
     s\<lparr>order_events := order_events s @
        [\<lparr>oev_date = now, oev_type = OrderEvents_CONFIRMED, oev_order = pk, oev_parameters = [],
          oev_user = user, oev_app = app_id\<rparr>]\<rparr>"

text \<open>
  The user is the one of the request, with the balance read when the request was authenticated.
  The result is the database left behind and the error, if any: the first save of the order is
  outside the transaction. A missing payment raises in the transaction, before it has written
  anything. The charge status stored in the order is \<open>ChargeStatus.FULLY_CHARGED\<close>, the constant
  of payments.
\<close>

definition order_confirm ::
    "(string \<Rightarrow> nat) \<Rightarrow> (order \<Rightarrow> bool) \<Rightarrow> datetime \<Rightarrow> user option \<Rightarrow> nat \<Rightarrow> db \<Rightarrow> confirm_error option \<times> db" where
  "order_confirm precision display_gross now request_user pk s =
     (case request_user of
        None \<Rightarrow> (Some ConfirmUserNotFound, s)
      | Some user \<Rightarrow>
         (case order_confirm_get_instance pk s of
            Inl e \<Rightarrow> (Some e, s)
          | Inr ord \<Rightarrow>
             let s = s\<lparr>orders := save_row order_pk pk
                   (\<lambda>r. r\<lparr>order_updated_at := now, order_display_gross_prices := display_gross ord\<rparr>) (orders s)\<rparr>
             in if user_balance user \<ge> order_total_net_amount ord
                then (case get_last_payment pk s of
                   None \<Rightarrow> (Some ConfirmNoPayment, s)
                 | Some payment \<Rightarrow>
                    let total = order_total_net_amount ord;
                        user = user\<lparr>user_balance :=
                                 quantize_price precision (user_balance user - total) AXB\<rparr>;
                        s = s\<lparr>orders := save_row order_pk pk
                              (\<lambda>r. r\<lparr>order_status := OrderStatus_UNFULFILLED,
                                     order_charge_status := charge_status_str ChargeStatus_FULLY_CHARGED,
                                     order_total_charged_amount := total\<rparr>) (orders s)\<rparr>;
                        s = save_user [''balance''] user s;
                        s = s\<lparr>payments := save_row pay_pk (pay_pk payment)
                              (\<lambda>r. r\<lparr>pay_charge_status := ChargeStatus_FULLY_CHARGED,
                                     pay_captured_amount := total\<rparr>) (payments s)\<rparr>;
                        s = order_confirmed_event now pk (Some (user_pk user)) None s
                    in (None, consumption_balance_event now user ord s))
                else (Some ConfirmBalance, s)))"

subsection \<open>Management commands\<close>

text \<open>
  \<open>deletebalancelogs\<close>, \<open>deletedonations\<close> and \<open>deleteusers\<close>: the rows deleted and the database.
  Deleting a user deletes the user's balance events (\<open>on_delete=CASCADE\<close>).
\<close>

definition delete_balance_logs :: "datetime \<Rightarrow> db \<Rightarrow> nat \<times> db" where
  "delete_balance_logs date_cutoff s =
     (length (filter (\<lambda>e. bev_date e < date_cutoff) (balance_events s)),
      s\<lparr>balance_events := filter (\<lambda>e. \<not> bev_date e < date_cutoff) (balance_events s)\<rparr>)"

definition delete_donations :: "db \<Rightarrow> nat \<times> db" where
  "delete_donations s = (length (donations s), s\<lparr>donations := []\<rparr>)"

subsection \<open>The balance an administrator sets\<close>

text \<open>
  An administrator's balance update stores the new balance, but the event it writes has
  delta 0: the history still adds up to the old balance.
\<close>

theorem balance_update_is_not_recorded:
  assumes ok: "ledger_ok s" and u: "row_of user_pk pk (users s) = Some u"
    and perm: "check_permissions c [Perm MANAGE_USERS] False"
  shows "\<exists>t. balance_update now c pk b s = Inr t
    \<and> row_of user_pk pk (users t) = Some (u\<lparr>user_balance := b\<rparr>)
    \<and> ledger_total pk (balance_events t) = user_balance u"
proof -
  have u_in: "u \<in> set (users s)" "user_pk u = pk" using row_of_SomeD [OF u] by auto
  have copy: "copy_user_fields [''balance''] (u\<lparr>user_balance := b\<rparr>) u = u\<lparr>user_balance := b\<rparr>"
    by (simp add: copy_user_fields_def)
  have "user_balance u = ledger_total pk (balance_events s)"
    using ok u_in by (auto simp: ledger_ok_def)
  then show ?thesis
    using perm u u_in
    by (simp add: balance_update_def Let_def change_balance_event_def create_balance_event_def
        save_user_def row_of_save_row copy event_delta_def)
qed

definition admin_context :: request_context where
  "admin_context = \<lparr>ctx_app = None,
     ctx_user = Some (sample_user 7 ''Z'' 0\<lparr>user_permissions := [MANAGE_USERS]\<rparr>)\<rparr>"

lemma admin_context_check: "check_permissions admin_context [Perm MANAGE_USERS] False"
  by code_simp

lemma balance_update_is_not_recorded_witness:
  "\<exists>t. balance_update (2024, 4, 1, 0) admin_context 1 100 sample_db = Inr t
     \<and> row_of user_pk 1 (users t) = Some (sample_user 1 ''A'' 100)
     \<and> ledger_total 1 (balance_events t) = 5"
proof -
  have u: "row_of user_pk 1 (users sample_db) = Some (sample_user 1 ''A'' 5)"
    by (simp add: sample_defs)
  have eq: "sample_user 1 ''A'' 5\<lparr>user_balance := 100\<rparr> = sample_user 1 ''A'' 100"
    "user_balance (sample_user 1 ''A'' 5) = 5"
    by (simp_all add: sample_user_def)
  show ?thesis
    using balance_update_is_not_recorded [OF sample_ledger_ok u admin_context_check,
        of "(2024, 4, 1, 0)" 100] unfolding eq .
qed

subsection \<open>A customer update keeps the ledger\<close>

lemma when_db_users [simp]:
  "(\<And>s. users (f s) = users s) \<Longrightarrow> users (when_db p f s) = users s"
  by (simp add: when_db_def)

lemma when_db_balance_events [simp]:
  "(\<And>s. balance_events (f s) = balance_events s) \<Longrightarrow> balance_events (when_db p f s) = balance_events s"
  by (simp add: when_db_def)

lemma customer_events_frame [simp]:
  "users (assign_user_gift_cards u s) = users s"
  "balance_events (assign_user_gift_cards u s) = balance_events s"
  "users (customer_update_gift_card_search_vector old new s) = users s"
  "balance_events (customer_update_gift_card_search_vector old new s) = balance_events s"
  by (simp_all add: assign_user_gift_cards_def customer_update_gift_card_search_vector_def when_db_def)

lemma customer_generate_events_outcome:
  "users (customer_generate_events now su ap old new s) = users s"
  "balance_events (customer_generate_events now su ap old new s) = balance_events s @
     (if user_balance old \<noteq> user_balance new
      then [\<lparr>bev_date = now, bev_type = BalanceEvents_MANUALLY_UPDATED,
             bev_number = get_balance_event_number now (balance_events s), bev_user = user_pk old,
             bev_balance = Some (user_balance new),
             bev_delta = Some (user_balance new - user_balance old)\<rparr>] else [])"
  by (simp_all add: customer_generate_events_def Let_def customer_event_defs
      change_balance_event_def when_db_def [of "user_balance old \<noteq> user_balance new"]
      create_balance_event_def)

lemma construct_customer_simps [simp]:
  "user_pk (construct_customer i u) = user_pk u"
  "user_balance (construct_customer i u) = set_arg default_balance (ci_balance i) (user_balance u)"
  by (simp_all add: construct_customer_def)

text \<open>The balance the update asks for.\<close>

definition requested_balance :: "(string \<Rightarrow> nat) \<Rightarrow> customer_input \<Rightarrow> decimal \<Rightarrow> decimal" where
  "requested_balance precision i old =
     (case ci_balance i of Given b \<Rightarrow> if b = 0 then old else quantize (precision AXB) b | _ \<Rightarrow> old)"

lemma clean_input_balance:
  "set_arg d (ci_balance (customer_clean_input precision lower i)) old = requested_balance precision i old"
  by (simp add: customer_clean_input_def set_arg_def requested_balance_def quantize_price_def
      split: arg.splits)

text \<open>
  A customer update that succeeds keeps the ledger, and the balance it leaves is the
  requested one rounded to the currency, except that a requested balance of 0 is ignored
\<close>

theorem customer_update_balance:
  assumes ok: "ledger_ok s" and run: "customer_update precision lower fc now c pk i s = Inr t"
  shows "ledger_ok t
    \<and> (\<exists>u u'. row_of user_pk pk (users s) = Some u \<and> row_of user_pk pk (users t) = Some u'
         \<and> user_balance u' = requested_balance precision i (user_balance u))"
proof -
  from run obtain u where u: "row_of user_pk pk (users s) = Some u"
    by (auto simp: customer_update_def split: if_splits option.splits)
  have u_in: "u \<in> set (users s)" "user_pk u = pk" using row_of_SomeD [OF u] by auto
  define new where "new = construct_customer (customer_clean_input precision lower i) u"
  obtain v s1 where v: "save_customer lower now new s = (v, s1)" by fastforce
  have v_eq: "user_pk v = pk" "user_balance v = requested_balance precision i (user_balance u)"
    and s1: "users s1 = save_row user_pk pk (\<lambda>_. v) (users s)" "balance_events s1 = balance_events s"
    using v u_in by (auto simp: save_customer_def Let_def new_def clean_input_balance)
  define t1 where "t1 = customer_generate_events now (map_option user_pk (ctx_user c))
    (map_option app_pk (ctx_app c)) u v s1"
  have t: "t = (if get_user_gift_cards v t1 \<noteq> [] then customer_update_gift_card_search_vector u v t1 else t1)"
    using run u v by (auto simp: customer_update_def new_def Let_def t1_def split: if_splits)
  then have users_t: "users t = save_row user_pk pk (\<lambda>_. v) (users s)"
    and events_t: "balance_events t = balance_events t1"
    by (simp_all add: t1_def customer_generate_events_outcome s1)
  have row: "row_of user_pk pk (users t) = Some v"
  proof -
    have "user_pk ((\<lambda>_. v) r) = user_pk r" if "user_pk r = pk" for r using that v_eq by simp
    then have "row_of user_pk pk (save_row user_pk pk (\<lambda>_. v) us) = map_option (\<lambda>_. v) (row_of user_pk pk us)" for us
      by (induction us) (auto simp: save_row_def v_eq)
    then show ?thesis by (simp add: users_t u)
  qed
  have conv: "save_row user_pk pk (\<lambda>_. v) (users s) = save_row user_pk pk (\<lambda>r. if user_pk r = pk then v else r) (users s)"
    by (simp add: save_row_def)
  have only: "w = u" if "w \<in> set (users s)" "user_pk w = pk" for w
    using ok that u_in by (auto simp: ledger_ok_def distinct_map dest: inj_onD)
  have "ledger_ok t"
  proof (cases "user_balance u = user_balance v")
    case True
    show ?thesis
    proof (rule ledger_frame [OF ok])
      show "balance_events t = balance_events s"
        using True by (simp add: events_t t1_def customer_generate_events_outcome s1)
      show "map (\<lambda>u. (user_pk u, user_balance u)) (users t) = map (\<lambda>u. (user_pk u, user_balance u)) (users s)"
      proof -
        have "(user_pk (if user_pk w = pk then v else w), user_balance (if user_pk w = pk then v else w))
            = (user_pk w, user_balance w)" if "w \<in> set (users s)" for w
        proof (cases "user_pk w = pk")
          case True
          with only [OF that] \<open>user_balance u = user_balance v\<close> v_eq show ?thesis by simp
        qed simp
        then show ?thesis by (simp add: users_t save_row_def)
      qed
    qed
  next
    case False
    let ?e = "\<lparr>bev_date = now, bev_type = BalanceEvents_MANUALLY_UPDATED,
             bev_number = get_balance_event_number now (balance_events s1), bev_user = user_pk u,
             bev_balance = Some (user_balance v), bev_delta = Some (user_balance v - user_balance u)\<rparr>"
    show ?thesis
    proof (rule ledger_step [OF ok users_t [unfolded conv], where e = ?e and d = "user_balance v - user_balance u"])
      show "balance_events t = balance_events s @ [?e]"
        using False by (simp add: events_t t1_def customer_generate_events_outcome s1)
      show "user_balance (if user_pk w = pk then v else w) = user_balance w + (user_balance v - user_balance u)"
        if "w \<in> set (users s)" "user_pk w = pk" for w
        using only [OF that] that(2) by simp
    qed (simp_all add: v_eq u_in)
  qed
  with u row v_eq show ?thesis by blast
qed

definition customer_example :: customer_input where
  "customer_example = \<lparr>ci_first_name = Given ''Li'', ci_last_name = Missing, ci_code = Missing,
     ci_email = Missing, ci_is_active = Given False, ci_is_confirmed = Missing,
     ci_balance = Given (15/2)\<rparr>"

lemma customer_update_balance_witness:
  "\<exists>t. customer_update (\<lambda>_. 2) id (\<lambda>_. True) (2024, 4, 1, 0) admin_context 1 customer_example sample_db = Inr t
     \<and> ledger_ok t \<and> map user_balance (users t) = [15/2, 0] \<and> length (customer_events t) = 2"
proof -
  have "case customer_update (\<lambda>_. 2) id (\<lambda>_. True) (2024, 4, 1, 0) admin_context 1 customer_example sample_db of
      Inr t \<Rightarrow> map user_balance (users t) = [15/2, 0] \<and> length (customer_events t) = 2 | Inl _ \<Rightarrow> False"
    by code_simp
  then obtain t where t: "customer_update (\<lambda>_. 2) id (\<lambda>_. True) (2024, 4, 1, 0) admin_context 1
      customer_example sample_db = Inr t" "map user_balance (users t) = [15/2, 0]"
    "length (customer_events t) = 2" by (auto split: sum.splits)
  from customer_update_balance [OF sample_ledger_ok t(1)] have "ledger_ok t" by (rule conjunct1)
  with t show ?thesis by (intro exI [of _ t] conjI)
qed

subsection \<open>The gateway\<close>

lemma unexpected_keyword:
  "create_gateway_payment new_pk p s = Inl (UnexpectedKeywords [''stored_payment_methods''])"
  by (simp add: create_gateway_payment_def gateway_payment_keywords_def payment_field_names_def)

text \<open>The balance gateway on every branch: it reports insufficient funds or raises; with enough
  money and an existing order it always raises, because it creates the payment with a keyword
  the model does not have, and nothing is stored\<close>

theorem process_payment_never_succeeds:
  "process_payment now new_pk p s =
     (case get_user (\<lambda>u. user_pk u = pd_customer_id p) s of
        Inl e \<Rightarrow> Inl (GatewayUserLookup e)
      | Inr u \<Rightarrow>
         if user_balance u < pd_amount p
         then Inr (\<lparr>gr_is_success = False, gr_kind = TransactionKind_VOID, gr_amount = pd_amount p,
                    gr_currency = pd_currency p, gr_error = Some ''Insufficient funds''\<rparr>, s)
         else case objects_get (filter (\<lambda>ord. order_pk ord = pd_order_id p) (orders s)) of
           Inl e \<Rightarrow> Inl (GatewayOrderLookup e)
         | Inr _ \<Rightarrow> Inl (UnexpectedKeywords [''stored_payment_methods'']))"
  by (simp add: process_payment_def Let_def unexpected_keyword split: sum.split)

text \<open>A saved copy of an account whose balance moved by \<open>d\<close>, and the event that says so.\<close>

lemma ledger_step_user:
  assumes ok: "ledger_ok s" and u: "u \<in> set (users s)"
    and v: "user_pk v = user_pk u" "user_balance v = user_balance u + d"
    and fs: "''balance'' \<in> set fs"
    and t: "users t = save_row user_pk (user_pk u) (copy_user_fields fs v) (users s)"
      "balance_events t = balance_events s @ [e]"
    and e: "bev_user e = user_pk u" "bev_delta e = Some d"
  shows "ledger_ok t"
proof (rule ledger_step [OF ok t(1) _ _ t(2) e])
  fix w assume w: "w \<in> set (users s)" "user_pk w = user_pk u"
  with ok u have "w = u" by (auto simp: ledger_ok_def distinct_map dest: inj_onD)
  then show "user_balance (copy_user_fields fs v w) = user_balance w + d"
    using fs v by (simp add: user_balance_copy_user_fields)
qed simp

lemma refund_payment_keeps_ledger:
  assumes ok: "ledger_ok s" and run: "refund_payment now p s = Inr (r, t)"
  shows "ledger_ok t"
proof -
  from run obtain u where u: "u \<in> set (users s)" "user_pk u = pd_customer_id p"
    and t: "t = refunded_balance_event now (u\<lparr>user_balance := user_balance u + pd_amount p, user_updated_at := now\<rparr>)
      (pd_amount p) (save_user [''balance'', ''updated_at'']
        (u\<lparr>user_balance := user_balance u + pd_amount p, user_updated_at := now\<rparr>) s)"
    by (auto simp: refund_payment_def Let_def dest!: get_user_InrD split: sum.splits)
  show ?thesis
    by (rule ledger_step_user [OF ok u(1)])
      (simp_all add: t refunded_balance_event_def create_balance_event_def save_user_def)+
qed

interpretation gateway_refund: ledger_component
  "\<lambda>(now, p) s. bindr (refund_payment now p s) (\<lambda>(r, t). Inr t)"
  by standard (auto simp: bindr_eq_Inr intro: refund_payment_keeps_ledger)

subsection \<open>What a confirmation charges\<close>

text \<open>The events record the order's total; the balance written is rounded to the currency's places.\<close>

lemma order_confirm_success:
  assumes run: "order_confirm prec dg now (Some u) pk s = (None, t)"
  obtains ord pay e where "row_of order_pk pk (orders s) = Some ord"
    "order_status ord = OrderStatus_UNCONFIRMED" "order_line_quantities ord \<noteq> []"
    "order_total_net_amount ord \<le> user_balance u" "get_last_payment pk s = Some pay"
    "users t = save_row user_pk (user_pk u) (copy_user_fields [''balance'']
       (u\<lparr>user_balance := quantize (prec AXB) (user_balance u - order_total_net_amount ord)\<rparr>)) (users s)"
    "balance_events t = balance_events s @ [e]" "bev_user e = user_pk u"
    "bev_delta e = Some (- order_total_net_amount ord)"
    "row_of order_pk pk (orders t) = Some (ord\<lparr>order_updated_at := now,
        order_display_gross_prices := dg ord, order_status := OrderStatus_UNFULFILLED,
        order_charge_status := ''fully-charged'',
        order_total_charged_amount := order_total_net_amount ord\<rparr>)"
    "payments t = save_row pay_pk (pay_pk pay) (\<lambda>r. r\<lparr>pay_charge_status := ChargeStatus_FULLY_CHARGED,
        pay_captured_amount := order_total_net_amount ord\<rparr>) (payments s)"
proof -
  have last: "get_last_payment pk (s\<lparr>orders := os\<rparr>) = get_last_payment pk s" for os
    by (simp add: get_last_payment_def)
  from run obtain ord pay where ord: "order_confirm_get_instance pk s = Inr ord"
    and bal: "order_total_net_amount ord \<le> user_balance u" and pay: "get_last_payment pk s = Some pay"
    by (auto simp: order_confirm_def Let_def last split: sum.splits if_splits option.splits)
  from ord have ord': "row_of order_pk pk (orders s) = Some ord"
    "order_status ord = OrderStatus_UNCONFIRMED" "order_line_quantities ord \<noteq> []"
    by (auto simp: order_confirm_get_instance_def is_unconfirmed_def split: option.splits if_splits)
  have t: "t = snd (order_confirm prec dg now (Some u) pk s)" using run by simp
  note t = t [unfolded order_confirm_def, simplified ord bal pay last Let_def option.case sum.case if_True,
      simplified bal pay last if_True option.case snd_conv]
  show ?thesis
    by (rule that [OF ord' bal pay])
      (simp_all add: t order_confirmed_event_def consumption_balance_event_def
        create_balance_event_def save_user_def quantize_price_def row_of_save_row ord')+
qed

text \<open>
  C19: confirming an order succeeds only for an unconfirmed one that the payer's balance covers;
  it writes the order as unfulfilled, the charge status fully-charged and the total as the
  charged amount to the order and to its last payment, lowers the payer's balance to the rounded
  difference, never negative, records the unrounded total in one balance event, and changes no
  other account (the user of the request being as stored)
\<close>

theorem order_confirm_charges:
  assumes row: "row_of user_pk (user_pk u) (users s) = Some u"
    and run: "order_confirm prec dg now (Some u) pk s = (None, t)"
  shows "\<exists>ord pay e b. row_of order_pk pk (orders s) = Some ord \<and> get_last_payment pk s = Some pay
    \<and> order_status ord = OrderStatus_UNCONFIRMED \<and> order_total_net_amount ord \<le> user_balance u
    \<and> row_of order_pk pk (orders t) = Some (ord\<lparr>order_updated_at := now, order_display_gross_prices := dg ord,
        order_status := OrderStatus_UNFULFILLED, order_charge_status := ''fully-charged'',
        order_total_charged_amount := order_total_net_amount ord\<rparr>)
    \<and> payments t = save_row pay_pk (pay_pk pay) (\<lambda>r. r\<lparr>pay_charge_status := ChargeStatus_FULLY_CHARGED,
        pay_captured_amount := order_total_net_amount ord\<rparr>) (payments s)
    \<and> 0 \<le> b \<and> \<bar>b - (user_balance u - order_total_net_amount ord)\<bar> \<le> 1 / 2 / 10 ^ prec AXB
    \<and> (\<forall>k. row_of user_pk k (users t)
          = (if k = user_pk u then Some (u\<lparr>user_balance := b\<rparr>) else row_of user_pk k (users s)))
    \<and> balance_events t = balance_events s @ [e] \<and> bev_user e = user_pk u
    \<and> bev_delta e = Some (- order_total_net_amount ord)"
proof -
  from run obtain ord pay e where ord: "row_of order_pk pk (orders s) = Some ord" "order_status ord = OrderStatus_UNCONFIRMED"
    and bal: "order_total_net_amount ord \<le> user_balance u" and pay: "get_last_payment pk s = Some pay"
    and us: "users t = save_row user_pk (user_pk u) (copy_user_fields [''balance'']
       (u\<lparr>user_balance := quantize (prec AXB) (user_balance u - order_total_net_amount ord)\<rparr>)) (users s)"
    and ev: "balance_events t = balance_events s @ [e]" "bev_user e = user_pk u"
    "bev_delta e = Some (- order_total_net_amount ord)"
    and ord': "row_of order_pk pk (orders t) = Some (ord\<lparr>order_updated_at := now,
        order_display_gross_prices := dg ord, order_status := OrderStatus_UNFULFILLED,
        order_charge_status := ''fully-charged'',
        order_total_charged_amount := order_total_net_amount ord\<rparr>)"
    and pay': "payments t = save_row pay_pk (pay_pk pay) (\<lambda>r. r\<lparr>pay_charge_status := ChargeStatus_FULLY_CHARGED,
        pay_captured_amount := order_total_net_amount ord\<rparr>) (payments s)"
    by (rule order_confirm_success)
  let ?b = "quantize (prec AXB) (user_balance u - order_total_net_amount ord)"
  have "row_of user_pk k (users t) = (if k = user_pk u then Some (u\<lparr>user_balance := ?b\<rparr>) else row_of user_pk k (users s))" for k
    using row by (simp add: us row_of_save_row copy_user_fields_def option.map_ident)
  moreover have "0 \<le> ?b" using bal by (intro quantize_nonneg) simp
  ultimately show ?thesis
    using ord ord' pay pay' bal ev quantize_near [of "prec AXB" "user_balance u - order_total_net_amount ord"]
    by (intro exI [of _ ord] exI [of _ pay] exI [of _ e] exI [of _ ?b]) simp
qed

text \<open>
  A refused confirmation, whatever the reason, changes no balance, payment, event, order
  status or charge
\<close>

theorem order_confirm_refused:
  assumes "order_confirm prec dg now ru pk s = (Some e, t)"
  shows "users t = users s \<and> payments t = payments s \<and> balance_events t = balance_events s
    \<and> order_events t = order_events s
    \<and> map order_status (orders t) = map order_status (orders s)
    \<and> map order_charge_status (orders t) = map order_charge_status (orders s)
    \<and> map order_total_charged_amount (orders t) = map order_total_charged_amount (orders s)"
  using assms
  by (auto simp: order_confirm_def Let_def save_row_def split: option.splits sum.splits if_splits)

definition sample_order :: order where
  "sample_order = \<lparr>order_pk = 3, order_status = OrderStatus_UNCONFIRMED,
     order_charge_status = ''none'', order_user = Some 1, order_user_email = ''A@x'',
     order_created_at = (2024, 3, 1, 0), order_updated_at = (2024, 3, 1, 0),
     order_total_net_amount = 4, order_total_gross_amount = 4, order_total_charged_amount = 0,
     order_display_gross_prices = False, order_line_quantities = [1]\<rparr>"

definition sample_payment :: payment where
  "sample_payment = \<lparr>pay_pk = 1, pay_order = Some 3, pay_gateway = ''AXB'', pay_currency = ''AXB'',
     pay_charge_status = ChargeStatus_NOT_CHARGED, pay_total = 4, pay_captured_amount = 0,
     pay_partial = False\<rparr>"

definition order_db :: db where
  "order_db = sample_db\<lparr>orders := [sample_order], payments := [sample_payment]\<rparr>"

definition confirm_example :: "confirm_error option \<times> db" where
  "confirm_example = order_confirm (\<lambda>_. 2) (\<lambda>_. True) (2024, 4, 1, 0) (Some (sample_user 1 ''A'' 5)) 3 order_db"

lemma confirm_example_value:
  "fst confirm_example = None" "map user_balance (users (snd confirm_example)) = [1, 0]"
  by code_simp+

lemma order_confirm_charges_witness:
  "\<exists>ord'. row_of order_pk 3 (orders (snd confirm_example)) = Some ord'
     \<and> order_status ord' = OrderStatus_UNFULFILLED \<and> order_charge_status ord' = ''fully-charged''
     \<and> map user_balance (users (snd confirm_example)) = [1, 0]"
proof -
  let ?u = "sample_user 1 ''A'' 5"
  have row: "row_of user_pk (user_pk ?u) (users order_db) = Some ?u"
    by (simp add: order_db_def sample_defs)
  have run: "order_confirm (\<lambda>_. 2) (\<lambda>_. True) (2024, 4, 1, 0) (Some ?u) 3 order_db = (None, snd confirm_example)"
    using confirm_example_value(1) by (simp add: confirm_example_def prod_eq_iff)
  obtain ord where "row_of order_pk 3 (orders (snd confirm_example)) = Some (ord\<lparr>order_updated_at := (2024, 4, 1, 0),
      order_display_gross_prices := True, order_status := OrderStatus_UNFULFILLED, order_charge_status := ''fully-charged'',
      order_total_charged_amount := order_total_net_amount ord\<rparr>)"
    using order_confirm_charges [OF row run] by (elim exE conjE)
  with confirm_example_value(2) show ?thesis by simp
qed

definition refused_example :: "confirm_error option \<times> db" where
  "refused_example = order_confirm (\<lambda>_. 2) (\<lambda>_. True) (2024, 4, 1, 0) (Some (sample_user 1 ''A'' 3)) 3 order_db"

lemma refused_example_value:
  "fst refused_example = Some ConfirmBalance"
  by code_simp

lemma order_confirm_refused_witness:
  "fst refused_example = Some ConfirmBalance \<and> users (snd refused_example) = users order_db"
proof -
  have "order_confirm (\<lambda>_. 2) (\<lambda>_. True) (2024, 4, 1, 0) (Some (sample_user 1 ''A'' 3)) 3 order_db
      = (Some ConfirmBalance, snd refused_example)"
    using refused_example_value by (simp add: refused_example_def prod_eq_iff)
  from order_confirm_refused [OF this] refused_example_value show ?thesis by blast
qed

subsection \<open>Deleting history\<close>

lemma delete_balance_logs_total:
  "ledger_total pk (balance_events (snd (delete_balance_logs cutoff s))) =
     ledger_total pk (balance_events s)
     - ledger_total pk (filter (\<lambda>e. bev_date e < cutoff) (balance_events s))
   \<and> users (snd (delete_balance_logs cutoff s)) = users s
   \<and> fst (delete_balance_logs cutoff s) + length (balance_events (snd (delete_balance_logs cutoff s)))
     = length (balance_events s)"
proof -
  have "ledger_total pk (filter (\<lambda>e. \<not> bev_date e < cutoff) es) =
      ledger_total pk es - ledger_total pk (filter (\<lambda>e. bev_date e < cutoff) es)" for es
    by (induction es) auto
  then show ?thesis
    using sum_length_filter_compl [of "\<lambda>e. bev_date e < cutoff" "balance_events s"]
    by (simp add: delete_balance_logs_def)
qed

end
