(* ===== verification/Barcode.thy ===== *)
theory Barcode
  imports Tables
begin

section \<open>Barcodes\<close>

text \<open>
  \<^verbatim>\<open>saleor/barcode/models.py\<close> and \<^verbatim>\<open>saleor/graphql/barcode\<close>: the numbering within the
  month, the batch creation, the mutation that looks a number up (creating the barcode when it
  is missing) and marks it used, the number of a barcode, and who may list barcodes. Keys of new
  rows come from the database: the next key is one more than any before.
\<close>

definition current_year_month :: "datetime \<Rightarrow> int" where
  "current_year_month now = yymm now"

definition get_sub :: "datetime \<Rightarrow> barcode list \<Rightarrow> int" where
  "get_sub now bs =
     (let year_month = current_year_month now;
          subs = map bar_sub (filter (\<lambda>b. bar_year_month b = year_month) bs)
      in (if subs = [] then 0 else Max (set subs)) + 1)"

definition next_barcode_pk :: "barcode list \<Rightarrow> nat" where
  "next_barcode_pk bs = Suc (fold max (map bar_pk bs) 0)"

definition barcode_create :: "datetime \<Rightarrow> barcode list \<Rightarrow> barcode \<times> barcode list" where
  "barcode_create now bs =
     (let b = \<lparr>bar_pk = next_barcode_pk bs, bar_year_month = current_year_month now,
               bar_sub = get_sub now bs, bar_used = False, bar_created_at = now\<rparr>
      in (b, bs @ [b]))"

primrec barcode_creates :: "datetime \<Rightarrow> nat \<Rightarrow> barcode list \<Rightarrow> barcode list \<times> barcode list" where
  "barcode_creates now 0 bs = ([], bs)"
| "barcode_creates now (Suc n) bs =
     (let (b, bs) = barcode_create now bs; (new, bs) = barcode_creates now n bs in (b # new, bs))"

datatype barcode_error = BarcodePermissionDenied | BarcodeMultiple

text \<open>\<open>range(count)\<close> of a negative count is empty.\<close>

definition barcode_batch_create ::
    "datetime \<Rightarrow> request_context \<Rightarrow> int \<Rightarrow> barcode list \<Rightarrow> barcode_error + (barcode list \<times> barcode list)" where
  "barcode_batch_create now c count bs =
     (if \<not> check_permissions c [Perm MANAGE_BARCODE] False then Inl BarcodePermissionDenied
      else Inr (barcode_creates now (nat count) bs))"

definition resolve_number :: "barcode \<Rightarrow> int" where
  "resolve_number b = bar_year_month b * 100000 + bar_sub b"

record barcode_answer =
  ba_barcode :: barcode
  ba_created :: bool
  ba_used_before :: bool

definition barcode_default_create ::
    "datetime \<Rightarrow> request_context \<Rightarrow> int \<Rightarrow> barcode list \<Rightarrow> barcode_error + (barcode_answer \<times> barcode list)" where
  "barcode_default_create now c number bs =
     (if \<not> check_permissions c [Perm MANAGE_BARCODE] False then Inl BarcodePermissionDenied
      else
       let year_month = number div 100000; sub = number mod 100000 in
       bindr
        (case objects_get (filter (\<lambda>b. bar_year_month b = year_month \<and> bar_sub b = sub) bs) of
           Inr b \<Rightarrow> Inr (b, False, bs)
         | Inl DoesNotExist \<Rightarrow>
             (let b = \<lparr>bar_pk = next_barcode_pk bs, bar_year_month = year_month, bar_sub = sub,
                       bar_used = False, bar_created_at = now\<rparr>
              in Inr (b, True, bs @ [b]))
         | Inl MultipleObjectsReturned \<Rightarrow> Inl BarcodeMultiple)
        (\<lambda>(b, created, bs).
          let used_before = bar_used b;
              b' = b\<lparr>bar_used := True\<rparr>;
              bs' = (if \<not> bar_used b then save_row bar_pk (bar_pk b) (\<lambda>_. b') bs else bs)
          in Inr (\<lparr>ba_barcode = b', ba_created = created, ba_used_before = used_before\<rparr>, bs')))"

text \<open>
  \<open>resolve_barcodes\<close> compares the requestor with the owner \<open>None\<close>: a request without user and
  app has the requestor \<open>None\<close> and passes.
\<close>

definition resolve_barcodes :: "request_context \<Rightarrow> barcode list \<Rightarrow> barcode_error + barcode list" where
  "resolve_barcodes c bs =
     (if is_owner_or_has_one_of_perms (get_user_or_app_from_context c) None [MANAGE_BARCODE]
      then Inr bs else Inl BarcodePermissionDenied)"

subsection \<open>The subs of a batch\<close>

lemma fold_max_start: "(m :: nat) \<le> fold max xs m"
proof (induction xs arbitrary: m)
  case (Cons a xs)
  have "m \<le> max a m" by simp
  also have "\<dots> \<le> fold max xs (max a m)" by (rule Cons)
  finally show ?case by simp
qed simp

lemma fold_max_ge: "x \<in> set xs \<Longrightarrow> x \<le> fold max xs (m :: nat)"
proof (induction xs arbitrary: m)
  case (Cons a xs)
  have "a \<le> max a m" by simp
  also have "\<dots> \<le> fold max xs (max a m)" by (rule fold_max_start)
  finally show ?case using Cons by auto
qed simp

lemma next_barcode_pk_fresh: "b \<in> set bs \<Longrightarrow> bar_pk b < next_barcode_pk bs"
  using fold_max_ge [of "bar_pk b" "map bar_pk bs" 0] by (simp add: next_barcode_pk_def le_imp_less_Suc)

lemma get_sub_snoc:
  assumes "bar_year_month b = current_year_month now" "bar_sub b = get_sub now bs"
  shows "get_sub now (bs @ [b]) = get_sub now bs + 1"
proof -
  let ?subs = "map bar_sub (filter (\<lambda>b. bar_year_month b = current_year_month now) bs)"
  show ?thesis
  proof (cases "?subs = []")
    case False
    then have "Max (set ?subs) < get_sub now bs" by (simp add: get_sub_def Let_def)
    moreover have "Max (insert (get_sub now bs) (set ?subs)) = max (get_sub now bs) (Max (set ?subs))"
      using False by (intro Max_insert) (simp_all del: set_map map_is_Nil_conv)
    ultimately have "Max (insert (get_sub now bs) (set ?subs)) = get_sub now bs" by simp
    with False assms show ?thesis
      by (subst get_sub_def) (simp add: Let_def image_Un insert_commute)
  qed (simp add: assms get_sub_def)
qed

lemma barcode_creates_outcome:
  assumes "barcode_creates now n bs = (new, bs')"
  shows "bs' = bs @ new" "length new = n"
    and "i < n \<Longrightarrow> bar_year_month (new ! i) = current_year_month now
          \<and> bar_sub (new ! i) = get_sub now bs + int i \<and> \<not> bar_used (new ! i)"
    and "distinct (map bar_pk bs) \<Longrightarrow> distinct (map bar_pk bs')"
proof -
  have "bs' = bs @ new \<and> length new = n
      \<and> (\<forall>i < n. bar_year_month (new ! i) = current_year_month now
          \<and> bar_sub (new ! i) = get_sub now bs + int i \<and> \<not> bar_used (new ! i))
      \<and> (distinct (map bar_pk bs) \<longrightarrow> distinct (map bar_pk bs'))"
    using assms
  proof (induction n arbitrary: bs new)
    case (Suc n)
    obtain b bs1 where b: "barcode_create now bs = (b, bs1)" by fastforce
    obtain new1 where new1: "barcode_creates now n bs1 = (new1, bs')" "new = b # new1"
      using Suc.prems b by (auto split: prod.splits)
    have fresh: "next_barcode_pk bs \<notin> bar_pk ` set bs"
      using next_barcode_pk_fresh [of _ bs] by force
    have bs1: "bs1 = bs @ [b]" and bb: "bar_year_month b = current_year_month now"
      "bar_sub b = get_sub now bs" "\<not> bar_used b" "bar_pk b = next_barcode_pk bs"
      using b by (auto simp: barcode_create_def Let_def)
    have "distinct (map bar_pk bs) \<Longrightarrow> distinct (map bar_pk bs1)"
      using fresh by (simp add: bs1 bb)
    moreover have "bs' = bs1 @ new1" "length new1 = n"
      "\<And>i. i < n \<Longrightarrow> bar_year_month (new1 ! i) = current_year_month now
         \<and> bar_sub (new1 ! i) = get_sub now bs1 + int i \<and> \<not> bar_used (new1 ! i)"
      "distinct (map bar_pk bs1) \<Longrightarrow> distinct (map bar_pk bs')"
      using Suc.IH [OF new1(1)] by blast+
    moreover have "get_sub now bs1 = get_sub now bs + 1" using get_sub_snoc [OF bb(1,2)] by (simp add: bs1)
    moreover have "bar_year_month (new ! i) = current_year_month now
         \<and> bar_sub (new ! i) = get_sub now bs + int i \<and> \<not> bar_used (new ! i)" if "i < Suc n" for i
      using bb calculation that by (cases i) (auto simp: new1(2))
    ultimately show ?case
      by (simp add: new1(2) bs1)
  qed simp
  then show "bs' = bs @ new" "length new = n"
    "i < n \<Longrightarrow> bar_year_month (new ! i) = current_year_month now
          \<and> bar_sub (new ! i) = get_sub now bs + int i \<and> \<not> bar_used (new ! i)"
    "distinct (map bar_pk bs) \<Longrightarrow> distinct (map bar_pk bs')" by blast+
qed

text \<open>
  Numbers are a month and a sub of five digits; as long as no month has more than 99999
  barcodes, numbers and barcodes correspond one to one.
\<close>

definition barcodes_ok :: "barcode list \<Rightarrow> bool" where
  "barcodes_ok bs \<longleftrightarrow> distinct (map bar_pk bs) \<and> distinct (map resolve_number bs)
     \<and> (\<forall>b \<in> set bs. 0 \<le> bar_sub b \<and> bar_sub b < 100000)"

lemma resolve_number_parts:
  "0 \<le> bar_sub b \<Longrightarrow> bar_sub b < 100000 \<Longrightarrow>
     resolve_number b div 100000 = bar_year_month b \<and> resolve_number b mod 100000 = bar_sub b"
  by (simp add: resolve_number_def div_add1_eq)

lemma get_sub_bound: "b \<in> set bs \<Longrightarrow> bar_year_month b = current_year_month now \<Longrightarrow> bar_sub b < get_sub now bs"
proof -
  assume "b \<in> set bs" "bar_year_month b = current_year_month now"
  then have "bar_sub b \<in> set (map bar_sub (filter (\<lambda>b. bar_year_month b = current_year_month now) bs))"
    by auto
  then show ?thesis by (auto simp: get_sub_def Let_def simp del: set_map set_filter)
qed

lemma get_sub_pos:
  assumes "barcodes_ok bs"
  shows "0 < get_sub now bs"
proof (cases "filter (\<lambda>b. bar_year_month b = current_year_month now) bs")
  case (Cons b rest)
  then have "b \<in> set (filter (\<lambda>b. bar_year_month b = current_year_month now) bs)" by simp
  then have "b \<in> set bs" "bar_year_month b = current_year_month now" by simp_all
  with get_sub_bound [of b bs now] assms show ?thesis by (auto simp: barcodes_ok_def)
qed (simp add: get_sub_def)

text \<open>
  C40: a batch of n barcodes gets the n numbers that follow the highest one of the month, and
  numbers and keys stay unique, provided that highest number plus n is below 100000 (a number
  entered by hand may be 99999)
\<close>

theorem barcode_batch_ok:
  assumes ok: "barcodes_ok bs"
    and room: "get_sub now bs + int n \<le> 100000"
    and run: "barcode_creates now n bs = (new, bs')"
  shows "barcodes_ok bs' \<and> bs' = bs @ new
    \<and> map resolve_number new = map (\<lambda>i. current_year_month now * 100000 + get_sub now bs + int i) [0..<n]"
proof -
  note out = barcode_creates_outcome [OF run] and pos = get_sub_pos [OF ok, of now]
  have nums: "map resolve_number new = map (\<lambda>i. current_year_month now * 100000 + get_sub now bs + int i) [0..<n]"
    using out(2,3) by (intro nth_equalityI) (simp_all add: resolve_number_def)
  have sub_new: "0 \<le> bar_sub b \<and> bar_sub b < 100000 \<and> bar_year_month b = current_year_month now
      \<and> get_sub now bs \<le> bar_sub b" if "b \<in> set new" for b
    using that out(2,3) pos room by (auto simp: in_set_conv_nth)
  have "resolve_number b \<noteq> resolve_number b'" if "b \<in> set bs" "b' \<in> set new" for b b'
  proof
    assume eq: "resolve_number b = resolve_number b'"
    have b: "0 \<le> bar_sub b" "bar_sub b < 100000" using ok that(1) by (auto simp: barcodes_ok_def)
    from sub_new [OF that(2)] have b': "0 \<le> bar_sub b'" "bar_sub b' < 100000"
      "bar_year_month b' = current_year_month now" "get_sub now bs \<le> bar_sub b'" by auto
    have "bar_year_month b = bar_year_month b'" "bar_sub b = bar_sub b'"
      using resolve_number_parts [OF b] resolve_number_parts [OF b'(1,2)] eq by auto
    then show False using get_sub_bound [of b bs now] that(1) b' by simp
  qed
  moreover have "distinct (map resolve_number new)"
    by (simp add: nums distinct_map inj_on_def)
  ultimately have "distinct (map resolve_number (bs @ new))"
    using ok by (auto simp: barcodes_ok_def)
  then have "barcodes_ok bs'"
    using ok sub_new out(1) out(4) by (auto simp: barcodes_ok_def)
  with nums out(1) show ?thesis by simp
qed

definition barcode_admin :: request_context where
  "barcode_admin = \<lparr>ctx_app = None, ctx_user = Some
     \<lparr>user_pk = 1, user_email = [], user_code = [], user_account = [],
      user_first_name = [], user_last_name = [], user_type = [], user_invited_by = [],
      user_balance = 0, user_continuous = 1, user_last_login = (2024, 3, 1, 0),
      user_date_joined = (2024, 1, 1, 0), user_updated_at = (2024, 1, 1, 0), user_is_staff = True,
      user_is_active = True, user_is_confirmed = True, user_is_superuser = False,
      user_billing_name = None, user_private_metadata = [], user_search_document = [],
      user_permissions = [MANAGE_BARCODE], user_groups = [], user_effective_override = None\<rparr>\<rparr>"

definition barcode_rows :: "barcode list" where
  "barcode_rows = snd (barcode_creates (2024, 3, 1, 0) 2 [])"

lemma barcode_rows_ok: "barcodes_ok barcode_rows"
  by code_simp

lemma barcode_batch_ok_witness:
  "map resolve_number (fst (barcode_creates (2024, 3, 9, 0) 3 barcode_rows)) = [240300003, 240300004, 240300005]
   \<and> barcodes_ok (snd (barcode_creates (2024, 3, 9, 0) 3 barcode_rows))"
proof -
  have room: "get_sub (2024, 3, 9, 0) barcode_rows + int 3 \<le> 100000" by code_simp
  have "map resolve_number (fst (barcode_creates (2024, 3, 9, 0) 3 barcode_rows)) = [240300003, 240300004, 240300005]"
    by code_simp
  with barcode_batch_ok [OF barcode_rows_ok room prod.collapse [symmetric]] show ?thesis by blast
qed

subsection \<open>Looking a number up\<close>

lemma objects_get_number:
  assumes ok: "barcodes_ok bs"
  shows "objects_get (filter (\<lambda>b. bar_year_month b = number div 100000 \<and> bar_sub b = number mod 100000) bs) =
    (case row_of resolve_number number bs of None \<Rightarrow> Inl DoesNotExist | Some b \<Rightarrow> Inr b)"
proof -
  have eq: "filter (\<lambda>b. bar_year_month b = number div 100000 \<and> bar_sub b = number mod 100000) bs
      = filter (\<lambda>b. resolve_number b = number) bs"
  proof (rule filter_cong [OF refl])
    fix b assume "b \<in> set bs"
    with ok have "0 \<le> bar_sub b" "bar_sub b < 100000" by (auto simp: barcodes_ok_def)
    from resolve_number_parts [OF this]
    show "(bar_year_month b = number div 100000 \<and> bar_sub b = number mod 100000) = (resolve_number b = number)"
      by (metis resolve_number_def div_mult_mod_eq)
  qed
  show ?thesis
    using ok filter_key [of resolve_number bs number]
    by (simp add: eq barcodes_ok_def split: option.splits)
qed

text \<open>
  Looking a number up returns the barcode with exactly this number, marked used, creating
  it only when there was none, reports whether it had been used before, touches no other number,
  and keeps numbers unique.
\<close>

theorem barcode_default_create_ok:
  assumes ok: "barcodes_ok bs"
    and run: "barcode_default_create now c number bs = Inr (a, bs')"
  shows "barcodes_ok bs' \<and> resolve_number (ba_barcode a) = number
    \<and> row_of resolve_number number bs' = Some (ba_barcode a) \<and> bar_used (ba_barcode a)
    \<and> (ba_created a \<longleftrightarrow> row_of resolve_number number bs = None)
    \<and> (ba_used_before a \<longleftrightarrow> (\<exists>b. row_of resolve_number number bs = Some b \<and> bar_used b))
    \<and> (\<forall>n. n \<noteq> number \<longrightarrow> row_of resolve_number n bs' = row_of resolve_number n bs)"
proof -
  let ?row = "row_of resolve_number number bs"
  define b where "b = (case ?row of Some b \<Rightarrow> b | None \<Rightarrow>
    \<lparr>bar_pk = next_barcode_pk bs, bar_year_month = number div 100000,
     bar_sub = number mod 100000, bar_used = False, bar_created_at = now\<rparr>)"
  define bs1 where "bs1 = (case ?row of Some b \<Rightarrow> bs | None \<Rightarrow> bs @ [b])"
  have out: "a = \<lparr>ba_barcode = b\<lparr>bar_used := True\<rparr>, ba_created = (?row = None), ba_used_before = bar_used b\<rparr>"
    "bs' = (if \<not> bar_used b then save_row bar_pk (bar_pk b) (\<lambda>_. b\<lparr>bar_used := True\<rparr>) bs1 else bs1)"
    using run
    by (auto simp: barcode_default_create_def objects_get_number [OF ok] b_def bs1_def Let_def
        split: if_splits option.splits)
  have num: "resolve_number b = number"
    by (auto simp: b_def resolve_number_def dest!: row_of_SomeD split: option.splits)
  have fresh: "next_barcode_pk bs \<notin> bar_pk ` set bs"
    using next_barcode_pk_fresh [of _ bs] by force
  have ok1: "barcodes_ok bs1"
  proof (cases ?row)
    case None
    then have "bs1 = bs @ [b]" "bar_pk b = next_barcode_pk bs" "0 \<le> bar_sub b \<and> bar_sub b < 100000"
      by (simp_all add: bs1_def b_def)
    moreover from None have "number \<notin> resolve_number ` set bs" by (simp add: row_of_None)
    ultimately show ?thesis using ok fresh num by (auto simp: barcodes_ok_def)
  next
    case (Some x)
    with ok show ?thesis by (simp add: bs1_def)
  qed
  have row1: "row_of resolve_number n bs1 = (if n = number then Some b else row_of resolve_number n bs)" for n
    using num by (auto simp: bs1_def b_def row_of_append split: option.splits)
  have b_in: "b \<in> set bs1"
    using row1 [of number] by (auto dest: row_of_SomeD)
  define g where "g r = (if bar_pk r = bar_pk b then b\<lparr>bar_used := True\<rparr> else r)" for r
  have same: "r = b" if "r \<in> set bs1" "bar_pk r = bar_pk b" for r
    using ok1 that b_in by (auto simp: barcodes_ok_def distinct_map dest: inj_onD)
  have g: "resolve_number (g r) = resolve_number r" "bar_pk (g r) = bar_pk r" "bar_sub (g r) = bar_sub r"
    if "r \<in> set bs1" for r
    using same [OF that] by (auto simp: g_def resolve_number_def)
  have bs': "bs' = map g bs1"
  proof (cases "bar_used b")
    case True
    then have "b\<lparr>bar_used := True\<rparr> = b" by (cases b) simp
    then have "g r = r" if "r \<in> set bs1" for r using same [OF that] by (auto simp: g_def)
    with True show ?thesis by (simp add: out map_idI)
  qed (simp add: out save_row_def g_def)
  have "barcodes_ok bs'"
    using ok1 g by (auto simp: barcodes_ok_def bs' comp_def cong: map_cong)
  moreover have "row_of resolve_number n bs' = map_option g (row_of resolve_number n bs1)" for n
    unfolding bs' by (rule row_of_map) (rule g)
  moreover have "map_option g (row_of resolve_number n bs) = row_of resolve_number n bs" if "n \<noteq> number" for n
  proof (cases "row_of resolve_number n bs")
    case (Some r)
    then have "r \<in> set bs1" "resolve_number r = n" using row1 [of n] that by (auto dest: row_of_SomeD)
    with that num same [of r] have "g r = r" by (auto simp: g_def)
    with Some show ?thesis by simp
  qed simp
  moreover have "g b = b\<lparr>bar_used := True\<rparr>" by (simp add: g_def)
  ultimately show ?thesis
    using num by (auto simp: row1 out b_def resolve_number_def split: option.splits)
qed

definition default_example :: "barcode_error + (barcode_answer \<times> barcode list)" where
  "default_example = barcode_default_create (2024, 3, 9, 0) barcode_admin 240300002 barcode_rows"

lemma barcode_default_create_ok_witness:
  "\<exists>a bs'. default_example = Inr (a, bs') \<and> barcodes_ok bs' \<and> \<not> ba_used_before a
     \<and> map bar_used bs' = [False, True]"
proof -
  have "case default_example of Inr (a, bs') \<Rightarrow> \<not> ba_used_before a \<and> map bar_used bs' = [False, True]
      | Inl _ \<Rightarrow> False"
    by code_simp
  then obtain a bs' where e: "default_example = Inr (a, bs')" "\<not> ba_used_before a"
    "map bar_used bs' = [False, True]" by (auto split: sum.splits)
  from barcode_default_create_ok [OF barcode_rows_ok e(1) [unfolded default_example_def]]
  have "barcodes_ok bs'" by (rule conjunct1)
  with e show ?thesis by (intro exI [of _ a] exI [of _ bs'] conjI)
qed

text \<open>After the number that ends a month was entered by hand, the next one of the batch belongs to the next month.\<close>

lemma last_number_overflows:
  "case barcode_default_create (2024, 3, 9, 0) barcode_admin 240399999 [] of
     Inr (_, bs) \<Rightarrow> map resolve_number (fst (barcode_creates (2024, 3, 9, 0) 1 bs)) = [240400000] | Inl _ \<Rightarrow> False"
  by code_simp

subsection \<open>Who may list barcodes\<close>

text \<open>
  The list of all barcodes is answered to requestors with MANAGE_BARCODE and to requests
  without user and app
\<close>

theorem resolve_barcodes_access:
  "resolve_barcodes c bs = Inr bs' \<longleftrightarrow> bs' = bs
     \<and> (case get_user_or_app_from_context c of None \<Rightarrow> True | Some r \<Rightarrow> requestor_has_perm r MANAGE_BARCODE)"
proof -
  have "is_owner_or_has_one_of_perms (get_user_or_app_from_context c) None [MANAGE_BARCODE] \<longleftrightarrow>
      (case get_user_or_app_from_context c of None \<Rightarrow> True | Some r \<Rightarrow> requestor_has_perm r MANAGE_BARCODE)"
    by (auto simp: is_owner_or_has_one_of_perms_def has_one_of_permissions_def permission_required_single
        split: option.splits requestor.splits)
  then show ?thesis by (auto simp: resolve_barcodes_def)
qed

end
