(* ===== verification/Report.thy ===== *)
theory Report
  imports Tables "HOL-Library.Monad_Syntax"
begin

section \<open>Reports over ranges of dates\<close>

text \<open>
  \<^verbatim>\<open>saleor/graphql/report/resolvers.py\<close>: the range a request asks for, its division into days,
  months or years, and the totals of orders, registrations and donations in each.

  A date is its ordinal (\<open>date.toordinal\<close>), a time stamp the ordinal of its day and the
  microsecond of the day, in the current time zone. Django compares a date with a time stamp as
  that day's midnight. \<open>add_delta\<close> is the addition of a \<open>relativedelta\<close> of one day, month or year:
  code of dateutil, of which only \<open>progress\<close> is used, a later date.
\<close>

datatype granularity = DAILY | MONTHLY | YEARLY

type_synonym day = int
type_synonym stamp = "int \<times> int"

fun stamp_of :: "datetime \<Rightarrow> stamp" where
  "stamp_of (y, m, d, t) = (toordinal (y, m, d, t), t)"

definition progress :: "(granularity \<Rightarrow> day \<Rightarrow> day) \<Rightarrow> bool" where
  "progress add_delta \<longleftrightarrow> (\<forall>g x. x < add_delta g x)"

record date_range =
  dr_gte :: "day option"
  dr_lte :: "day option"

text \<open>\<open>_revise_date_input\<close>: a missing bound is the date of the first or last row.\<close>

definition revise_date_input :: "stamp list \<Rightarrow> date_range \<Rightarrow> (day \<times> day) option" where
  "revise_date_input qs date =
     (let lte = (case dr_lte date of Some d \<Rightarrow> Some d
                 | None \<Rightarrow> if qs = [] then None else Some (Max (fst ` set qs)));
          gte = (case dr_gte date of Some d \<Rightarrow> Some d
                 | None \<Rightarrow> if qs = [] then None else Some (Min (fst ` set qs)))
      in case (gte, lte) of (Some g, Some l) \<Rightarrow> Some (g, l) | _ \<Rightarrow> None)"

text \<open>\<open>_split_date_input\<close>: the loop, which would not end if adding the delta made no progress.\<close>

partial_function (option) split_date_input ::
    "(granularity \<Rightarrow> day \<Rightarrow> day) \<Rightarrow> granularity \<Rightarrow> day \<Rightarrow> day \<Rightarrow> (day \<times> day) list option" where
  [code]: "split_date_input add_delta g x y =
     (if add_delta g x < y
      then do { rest \<leftarrow> split_date_input add_delta g (add_delta g x) y; Some ((x, add_delta g x) # rest) }
      else Some [(x, add_delta g x)])"

definition midnight :: "day \<Rightarrow> stamp" where
  "midnight d = (d, 0)"

text \<open>\<open>filter_range_field\<close> with both bounds given.\<close>

definition in_range :: "day \<times> day \<Rightarrow> stamp \<Rightarrow> bool" where
  "in_range r k \<longleftrightarrow> midnight (fst r) \<le> k \<and> k \<le> midnight (snd r)"

definition filter_range_field :: "('r \<Rightarrow> stamp) \<Rightarrow> day \<times> day \<Rightarrow> 'r list \<Rightarrow> 'r list" where
  "filter_range_field field r rows = filter (\<lambda>x. in_range r (field x)) rows"

text \<open>\<open>Sum\<close> ignores NULL and is NULL when there is nothing to add.\<close>

fun sql_sum :: "'n::comm_monoid_add option list \<Rightarrow> 'n option" where
  "sql_sum [] = None"
| "sql_sum (None # xs) = sql_sum xs"
| "sql_sum (Some x # xs) = Some (x + (case sql_sum xs of None \<Rightarrow> 0 | Some y \<Rightarrow> y))"

record base_report =
  br_collection_total :: nat
  br_quantities_total :: "int option"
  br_amount_total :: "decimal option"

definition resolve_order_reports ::
    "(granularity \<Rightarrow> day \<Rightarrow> day) \<Rightarrow> date_range \<Rightarrow> granularity \<Rightarrow> db \<Rightarrow> base_report list option" where
  "resolve_order_reports add_delta date g s =
     (let stamp = (\<lambda>ord. stamp_of (order_created_at ord));
          qs = filter (\<lambda>ord. order_status ord \<notin>
                  {OrderStatus_CANCELED, OrderStatus_UNCONFIRMED, OrderStatus_EXPIRED}) (orders s)
      in case revise_date_input (map stamp qs) date of
           None \<Rightarrow> Some []
         | Some (gte, lte) \<Rightarrow> do {
             ranges \<leftarrow> split_date_input add_delta g gte lte;
             Some (map (\<lambda>dt. let qss = filter_range_field stamp dt qs in
                \<lparr>br_collection_total = length qss,
                 br_quantities_total = sql_sum (map (\<lambda>ord. sql_sum (map Some (order_line_quantities ord))) qss),
                 br_amount_total = sql_sum (map (\<lambda>ord. Some (order_total_net_amount ord)) qss)\<rparr>) ranges) })"

definition resolve_customers_registered ::
    "(granularity \<Rightarrow> day \<Rightarrow> day) \<Rightarrow> date_range \<Rightarrow> granularity \<Rightarrow> db \<Rightarrow> nat list option" where
  "resolve_customers_registered add_delta date g s =
     (let stamp = (\<lambda>u. stamp_of (user_date_joined u))
      in case revise_date_input (map stamp (users s)) date of
           None \<Rightarrow> Some []
         | Some (gte, lte) \<Rightarrow> do {
             ranges \<leftarrow> split_date_input add_delta g gte lte;
             Some (map (\<lambda>dt. length (filter_range_field stamp dt (users s))) ranges) })"

definition resolve_donation_reports ::
    "(granularity \<Rightarrow> day \<Rightarrow> day) \<Rightarrow> date_range \<Rightarrow> granularity \<Rightarrow> db \<Rightarrow> base_report list option" where
  "resolve_donation_reports add_delta date g s =
     (let stamp = (\<lambda>d. stamp_of (don_created_at d));
          qs = filter (\<lambda>d. don_status d = DonationStatus_COMPLETED) (donations s)
      in case revise_date_input (map stamp qs) date of
           None \<Rightarrow> Some []
         | Some (gte, lte) \<Rightarrow> do {
             ranges \<leftarrow> split_date_input add_delta g gte lte;
             Some (map (\<lambda>dt. let qss = filter_range_field stamp dt qs in
                \<lparr>br_collection_total = length qss,
                 br_quantities_total = sql_sum (map (\<lambda>d. Some (don_quantity d)) qss),
                 br_amount_total = sql_sum (map don_price_amount qss)\<rparr>) ranges) })"

subsection \<open>The ranges\<close>

text \<open>The boundaries a division runs through: each is one delta after the one before.\<close>

fun consecutive :: "(day \<Rightarrow> day) \<Rightarrow> day \<Rightarrow> (day \<times> day) list \<Rightarrow> bool" where
  "consecutive step x [] = True"
| "consecutive step x ((a, b) # rs) \<longleftrightarrow> a = x \<and> b = step x \<and> consecutive step b rs"

lemma split_terminates:
  assumes "progress add_delta"
  shows "\<exists>rs. split_date_input add_delta g x y = Some rs \<and> rs \<noteq> [] \<and> consecutive (add_delta g) x rs
    \<and> y \<le> snd (last rs) \<and> (\<forall>r \<in> set (butlast rs). snd r < y)"
proof (induction "nat (y - x)" arbitrary: x rule: less_induct)
  case less
  have lt: "x < add_delta g x" using assms by (simp add: progress_def)
  show ?case
  proof (cases "add_delta g x < y")
    case True
    then have "nat (y - add_delta g x) < nat (y - x)" using lt by simp
    from less [OF this] obtain rs where rs: "split_date_input add_delta g (add_delta g x) y = Some rs" "rs \<noteq> []"
      "consecutive (add_delta g) (add_delta g x) rs" "y \<le> snd (last rs)" "\<forall>r \<in> set (butlast rs). snd r < y" by blast
    then show ?thesis
      by (subst split_date_input.simps) (simp add: True)
  qed (subst split_date_input.simps, simp)
qed

text \<open>
  Counting range by range counts everything between the first and the last boundary, and once
  more whatever lies at midnight of a boundary in between.
\<close>

definition count_in :: "(stamp \<Rightarrow> bool) \<Rightarrow> stamp list \<Rightarrow> nat" where
  "count_in p ks = length (filter p ks)"

lemma count_in_adjacent:
  assumes "a \<le> b" "b \<le> c"
  shows "count_in (in_range (a, b)) ks + count_in (in_range (b, c)) ks =
         count_in (in_range (a, c)) ks + count_in (\<lambda>k. k = midnight b) ks"
  using assms
  by (induction ks) (auto simp: count_in_def in_range_def midnight_def less_eq_prod_def)

lemma consecutive_le_last:
  assumes "progress add_delta" "consecutive (add_delta g) x rs" "rs \<noteq> []"
  shows "x < snd (last rs)"
  using assms(2,3)
proof (induction rs arbitrary: x)
  case (Cons r rs)
  have lt: "x < add_delta g x" using assms(1) by (simp add: progress_def)
  obtain a b where r: "r = (a, b)" by (cases r)
  show ?case
  proof (cases "rs = []")
    case True
    with Cons.prems lt show ?thesis by (simp add: r)
  next
    case False
    have "consecutive (add_delta g) (add_delta g x) rs" using Cons.prems by (auto simp: r)
    then have "add_delta g x < snd (last rs)" using False by (rule Cons.IH)
    with lt False show ?thesis by simp
  qed
qed simp

lemma count_consecutive:
  assumes "progress add_delta" "consecutive (add_delta g) x rs" "rs \<noteq> []"
  shows "sum_list (map (\<lambda>r. count_in (in_range r) ks) rs) =
    count_in (in_range (x, snd (last rs))) ks
    + sum_list (map (\<lambda>r. count_in (\<lambda>k. k = midnight (snd r)) ks) (butlast rs))"
  using assms(2,3)
proof (induction rs arbitrary: x)
  case (Cons r rs)
  then have r: "r = (x, add_delta g x)" and rs: "consecutive (add_delta g) (add_delta g x) rs" by (cases r; simp)+
  show ?case
  proof (cases "rs = []")
    case False
    have "x \<le> add_delta g x" using assms(1) by (simp add: progress_def less_imp_le)
    moreover have "add_delta g x \<le> snd (last rs)"
      using consecutive_le_last [OF assms(1) rs False] by simp
    ultimately show ?thesis
      using Cons.IH [OF rs False] count_in_adjacent [of x "add_delta g x" "snd (last rs)" ks] False
      by (simp add: r)
  qed (simp add: r)
qed simp

text \<open>
  The division of a range ends whenever adding the delta moves a date forward, and yields
  consecutive ranges from the first date until the first boundary on or after the last date.
\<close>

theorem report_ranges:
  assumes "progress add_delta"
  shows "\<exists>rs. split_date_input add_delta g x y = Some rs \<and> rs \<noteq> [] \<and> consecutive (add_delta g) x rs
    \<and> y \<le> snd (last rs) \<and> (\<forall>r \<in> set (butlast rs). snd r < y)"
  using assms by (rule split_terminates)

definition day_steps :: "granularity \<Rightarrow> day \<Rightarrow> day" where
  "day_steps g x = (case g of DAILY \<Rightarrow> x + 1 | MONTHLY \<Rightarrow> x + 30 | YEARLY \<Rightarrow> x + 365)"

lemma day_steps_progress: "progress day_steps"
  by (simp add: progress_def day_steps_def split: granularity.split)

lemma report_ranges_witness:
  "\<exists>rs. split_date_input day_steps DAILY 10 12 = Some rs \<and> rs \<noteq> [] \<and> 12 \<le> snd (last rs)"
  using report_ranges [OF day_steps_progress, of DAILY 10 12] by blast

text \<open>
  The counts of a registration report add up to the registrations between the first date
  and the midnight of the last boundary, plus once more every registration exactly at midnight
  of an inner boundary.
\<close>

theorem registrations_report:
  assumes prog: "progress add_delta"
    and range: "revise_date_input (map (\<lambda>u. stamp_of (user_date_joined u)) (users s)) date = Some (x, y)"
  shows "\<exists>rs counts. split_date_input add_delta g x y = Some rs
    \<and> resolve_customers_registered add_delta date g s = Some counts
    \<and> sum_list counts
        = count_in (in_range (x, snd (last rs))) (map (\<lambda>u. stamp_of (user_date_joined u)) (users s))
        + sum_list (map (\<lambda>r. count_in (\<lambda>k. k = midnight (snd r))
            (map (\<lambda>u. stamp_of (user_date_joined u)) (users s))) (butlast rs))"
proof -
  obtain rs where rs: "split_date_input add_delta g x y = Some rs" "rs \<noteq> []"
    "consecutive (add_delta g) x rs"
    using split_terminates [OF prog, of g x y] by blast
  have "length (filter_range_field (\<lambda>u. stamp_of (user_date_joined u)) r (users s)) =
      count_in (in_range r) (map (\<lambda>u. stamp_of (user_date_joined u)) (users s))" for r
    by (simp add: filter_range_field_def count_in_def filter_map comp_def)
  then show ?thesis
    using count_consecutive [OF prog rs(3,2)] rs
    by (simp add: resolve_customers_registered_def range)
qed

text \<open>
  With the whole range left open and more than a day of registrations, the day of the last one
  is the last boundary: what was registered on it after midnight is in no range.
\<close>

definition report_db :: db where
  "report_db = empty_db\<lparr>users := [sample_user 1 ''A'' 0\<lparr>user_date_joined := (2024, 1, 1, 7)\<rparr>,
     sample_user 2 ''B'' 0\<lparr>user_date_joined := (2024, 1, 2, 0)\<rparr>,
     sample_user 3 ''C'' 0\<lparr>user_date_joined := (2024, 1, 3, 7)\<rparr>]\<rparr>"

lemma report_db_range:
  "revise_date_input (map (\<lambda>u. stamp_of (user_date_joined u)) (users report_db)) \<lparr>dr_gte = None, dr_lte = None\<rparr>
     = Some (738886, 738888)"
  by code_simp

lemma report_db_split: "split_date_input day_steps DAILY 738886 738888 = Some [(738886, 738887), (738887, 738888)]"
  by (simp add: split_date_input.simps day_steps_def)

lemma registrations_report_witness:
  "\<exists>counts. resolve_customers_registered day_steps \<lparr>dr_gte = None, dr_lte = None\<rparr> DAILY report_db = Some counts
     \<and> sum_list counts = 3 \<and> counts = [2, 1]"
proof -
  obtain rs counts where r: "split_date_input day_steps DAILY 738886 738888 = Some rs"
    "resolve_customers_registered day_steps \<lparr>dr_gte = None, dr_lte = None\<rparr> DAILY report_db = Some counts"
    "sum_list counts = count_in (in_range (738886, snd (last rs))) (map (\<lambda>u. stamp_of (user_date_joined u)) (users report_db))
        + sum_list (map (\<lambda>r. count_in (\<lambda>k. k = midnight (snd r))
            (map (\<lambda>u. stamp_of (user_date_joined u)) (users report_db))) (butlast rs))"
    using registrations_report [OF day_steps_progress report_db_range, of DAILY] by blast
  have rs: "rs = [(738886, 738887), (738887, 738888)]" using r(1) report_db_split by simp
  have "count_in (in_range (738886, 738888)) (map (\<lambda>u. stamp_of (user_date_joined u)) (users report_db)) = 2"
    "count_in (\<lambda>k. k = midnight 738887) (map (\<lambda>u. stamp_of (user_date_joined u)) (users report_db)) = 1"
    by code_simp+
  with r(3) have "sum_list counts = 3" by (simp add: rs)
  moreover have "counts = [2, 1]"
  proof -
    have "map (\<lambda>dt. length (filter_range_field (\<lambda>u. stamp_of (user_date_joined u)) dt (users report_db)))
        [(738886, 738887), (738887, 738888)] = [2, 1]" by code_simp
    with r(2) show ?thesis
      by (simp add: resolve_customers_registered_def report_db_range report_db_split)
  qed
  ultimately show ?thesis using r(2) by blast
qed

end
