(* ===== verification/Stock.thy ===== *)
theory Stock
  imports Choices
begin

section \<open>Stocks, allocations and preorders\<close>

text \<open>
  \<^verbatim>\<open>saleor/warehouse/management.py\<close> and the querysets of \<^verbatim>\<open>saleor/warehouse/models.py\<close> it uses:
  which stocks serve a channel, allocating and deallocating stock for order lines, changing
  quantities, preorder allocations and the end of a preorder.

  The records hold the columns these operations and those of \<^verbatim>\<open>Availability\<close> read. Rows are in
  primary-key order. \<open>Stock.quantity_allocated\<close> is a stored counter beside the
  allocation rows; it is changed by \<open>bulk_update\<close> with \<open>F\<close> expressions, so \<open>bu\<close> (\<open>bulk_update\<close>
  of stocks) takes functions of the row. Row locks, which serialise concurrent calls, are not
  modelled: an operation is one transaction. The callbacks registered with \<open>on_commit\<close> are
  recorded in \<open>sd_notices\<close>; they are lambdas over a loop variable, so each of them names the
  last object of its loop.
\<close>

record variant =
  va_pk :: nat
  va_product :: nat
  va_track_inventory :: bool
  va_is_preorder :: bool
  va_preorder_end_date :: "datetime option"
  va_preorder_global_threshold :: "int option"
  va_return_on_cancel :: bool
  va_quantity_limit_per_customer :: "int option"

record stock =
  st_pk :: nat
  st_warehouse :: nat
  st_variant :: nat
  st_quantity :: int
  st_quantity_allocated :: int

record allocation =
  al_pk :: nat
  al_order_line :: nat
  al_stock :: nat
  al_quantity :: int

record reservation =
  rs_order_line :: "nat option"
  rs_checkout_line :: "nat option"
  rs_stock :: nat
  rs_quantity :: int
  rs_reserved_until :: datetime

record channel_listing =
  cl_pk :: nat
  cl_channel_slug :: string
  cl_variant :: nat
  cl_preorder_quantity_threshold :: "int option"

record preorder_allocation =
  pa_order_line :: nat
  pa_listing :: nat
  pa_quantity :: int

record preorder_reservation =
  pr_checkout_line :: nat
  pr_listing :: nat
  pr_quantity :: int
  pr_reserved_until :: datetime

record warehouse =
  wh_pk :: nat
  wh_click_and_collect_option :: warehouse_click_and_collect_option

record shipping_zone =
  sz_pk :: nat
  sz_countries :: "string list"
  sz_channels :: "nat list"
  sz_warehouses :: "nat list"

record channel =
  ch_pk :: nat
  ch_slug :: string
  ch_allocation_strategy :: allocation_strategy

record order_head =
  oh_pk :: nat
  oh_user :: "nat option"
  oh_status :: order_status
  oh_shipping_zone :: "nat option"
  oh_country :: string
  oh_channel_slug :: string
  oh_shipping_price_gross_amount :: decimal

record order_line =
  ol_pk :: nat
  ol_order :: nat
  ol_variant :: "nat option"
  ol_quantity :: int
  ol_quantity_fulfilled :: int
  ol_unit_price_gross_amount :: decimal
  ol_is_gift_card :: bool

datatype notice = OutOfStock nat | BackInStock nat

record stock_db =
  sd_variants :: "variant list"
  sd_stocks :: "stock list"
  sd_allocations :: "allocation list"
  sd_reservations :: "reservation list"
  sd_listings :: "channel_listing list"
  sd_preorder_allocations :: "preorder_allocation list"
  sd_preorder_reservations :: "preorder_reservation list"
  sd_warehouses :: "warehouse list"
  sd_zones :: "shipping_zone list"
  sd_channels :: "channel list"
  sd_channel_warehouses :: "(nat \<times> nat) list"
  sd_orders :: "order_head list"
  sd_order_lines :: "order_line list"
  sd_notices :: "notice list"

record line_info =
  li_line :: nat
  li_variant :: "variant option"
  li_quantity :: int
  li_warehouse :: "nat option"

record insufficient =
  is_available_quantity :: int
  is_variant :: "nat option"
  is_order_line :: "nat option"
  is_warehouse :: "nat option"

datatype stock_error =
    InsufficientStock "insufficient list"
  | AllocationError "nat list"
  | PreorderAllocationError nat
  | AssertionFailed
  | NoneUnpacked
  | NotInList
  | KeyMissing
  | NoVariant
  | IntegrityError

type_synonym stock_bulk_update = "(nat \<times> (stock \<Rightarrow> stock)) list \<Rightarrow> stock list \<Rightarrow> stock list"

subsection \<open>Querysets\<close>

definition channels_with_slug :: "string \<Rightarrow> stock_db \<Rightarrow> nat list" where
  "channels_with_slug slug s = map ch_pk (filter (\<lambda>c. ch_slug c = slug) (sd_channels s))"

definition channel_warehouse_ids :: "string \<Rightarrow> stock_db \<Rightarrow> nat list" where
  "channel_warehouse_ids slug s =
     map snd (filter (\<lambda>(c, _). c \<in> set (channels_with_slug slug s)) (sd_channel_warehouses s))"

definition for_channel_and_click_and_collect :: "string \<Rightarrow> stock_db \<Rightarrow> stock list" where
  "for_channel_and_click_and_collect slug s =
     filter (\<lambda>st. st_warehouse st \<in> set (channel_warehouse_ids slug s)) (sd_stocks s)"

text \<open>A country code that is missing or empty selects every zone of the channel.\<close>

definition has_country :: "string option \<Rightarrow> bool" where
  "has_country country = (case country of None \<Rightarrow> False | Some c \<Rightarrow> c \<noteq> [])"

definition zone_serves :: "string \<Rightarrow> string option \<Rightarrow> stock_db \<Rightarrow> shipping_zone \<Rightarrow> bool" where
  "zone_serves slug country s z \<longleftrightarrow>
     (\<exists>c \<in> set (sz_channels z). c \<in> set (channels_with_slug slug s))
     \<and> (has_country country \<longrightarrow> the country \<in> set (sz_countries z))"

definition for_channel_and_country :: "string \<Rightarrow> string option \<Rightarrow> bool \<Rightarrow> stock_db \<Rightarrow> stock list" where
  "for_channel_and_country slug country include_cc_warehouses s =
     (let channel_ids = channel_warehouse_ids slug s;
          zone_ids = concat (map sz_warehouses (filter (zone_serves slug country s) (sd_zones s)));
          cc_ids = (if \<not> has_country country \<or> include_cc_warehouses
                    then map wh_pk (filter (\<lambda>w. wh_pk w \<in> set channel_ids
                           \<and> wh_click_and_collect_option w \<in>
                               {WarehouseClickAndCollectOption_LOCAL_STOCK,
                                WarehouseClickAndCollectOption_ALL_WAREHOUSES}) (sd_warehouses s))
                    else [])
      in filter (\<lambda>st. (st_warehouse st \<in> set zone_ids \<and> st_warehouse st \<in> set channel_ids)
                      \<or> st_warehouse st \<in> set cc_ids) (sd_stocks s))"

definition get_variant_stocks_for_country :: "string \<Rightarrow> string \<Rightarrow> nat \<Rightarrow> stock_db \<Rightarrow> stock list" where
  "get_variant_stocks_for_country country slug variant s =
     filter (\<lambda>st. st_variant st = variant) (for_channel_and_country slug (Some country) False s)"

definition get_variants_stocks_for_country :: "string \<Rightarrow> string \<Rightarrow> nat list \<Rightarrow> stock_db \<Rightarrow> stock list" where
  "get_variants_stocks_for_country country slug variants s =
     filter (\<lambda>st. st_variant st \<in> set variants) (for_channel_and_country slug (Some country) False s)"

text \<open>What the allocation rows say is allocated of a stock, and what is left of it.\<close>

definition stock_allocated :: "allocation list \<Rightarrow> nat \<Rightarrow> int" where
  "stock_allocated als k = sum_rows al_quantity (filter (\<lambda>a. al_stock a = k) als)"

definition available_quantity_for_stock :: "stock_db \<Rightarrow> stock \<Rightarrow> int" where
  "available_quantity_for_stock s st = max (st_quantity st - stock_allocated (sd_allocations s) (st_pk st)) 0"

definition positive_allocated :: "allocation list \<Rightarrow> nat \<Rightarrow> int" where
  "positive_allocated als k =
     sum_rows al_quantity (filter (\<lambda>a. al_stock a = k \<and> al_quantity a > 0) als)"

definition annotate_available_quantity :: "stock_db \<Rightarrow> stock \<Rightarrow> int" where
  "annotate_available_quantity s st = st_quantity st - positive_allocated (sd_allocations s) (st_pk st)"

definition annotate_stock_available_quantity :: "stock_db \<Rightarrow> stock \<Rightarrow> int" where
  "annotate_stock_available_quantity s st = st_quantity st - stock_allocated (sd_allocations s) (st_pk st)"

definition not_expired :: "datetime \<Rightarrow> datetime \<Rightarrow> bool" where
  "not_expired now reserved_until \<longleftrightarrow> reserved_until > now"

definition exclude_checkout_lines :: "nat list \<Rightarrow> nat option \<Rightarrow> bool" where
  "exclude_checkout_lines checkout_lines line \<longleftrightarrow>
     (if checkout_lines = [] then True else line \<notin> Some ` set checkout_lines)"

subsection \<open>Allocating\<close>

definition is_preorder_active :: "datetime \<Rightarrow> variant \<Rightarrow> bool" where
  "is_preorder_active now v \<longleftrightarrow> va_is_preorder v
     \<and> (case va_preorder_end_date v of None \<Rightarrow> True | Some e \<Rightarrow> now \<le> e)"

definition get_order_lines_with_track_inventory :: "datetime \<Rightarrow> line_info list \<Rightarrow> line_info list" where
  "get_order_lines_with_track_inventory now lines =
     filter (\<lambda>i. case li_variant i of None \<Rightarrow> False
             | Some v \<Rightarrow> va_track_inventory v \<and> \<not> is_preorder_active now v) lines"

definition get_order_lines_with_preorder :: "datetime \<Rightarrow> line_info list \<Rightarrow> line_info list" where
  "get_order_lines_with_preorder now lines =
     filter (\<lambda>i. case li_variant i of None \<Rightarrow> False | Some v \<Rightarrow> is_preorder_active now v) lines"

definition line_variant :: "line_info \<Rightarrow> nat" where
  "line_variant i = (case li_variant i of None \<Rightarrow> 0 | Some v \<Rightarrow> va_pk v)"

text \<open>
  \<open>stocks_id\<close> is a generator: the first query that iterates over it exhausts it, a later one
  finds nothing. The pair is what the query of the reservations and the query of the allocations
  receive.
\<close>

definition generator_reads :: "bool \<Rightarrow> nat list \<Rightarrow> nat list \<times> nat list" where
  "generator_reads check_reservations ids = (if check_reservations then (ids, []) else ([], ids))"

definition prepare_stock_to_reserved_quantity_map ::
    "datetime \<Rightarrow> nat list \<Rightarrow> bool \<Rightarrow> nat list \<Rightarrow> stock_db \<Rightarrow> nat \<Rightarrow> int" where
  "prepare_stock_to_reserved_quantity_map now checkout_lines check_reservations stocks_id s k =
     (if check_reservations \<and> k \<in> set stocks_id
      then sum_rows rs_quantity (filter (\<lambda>r. rs_stock r = k \<and> not_expired now (rs_reserved_until r)
              \<and> exclude_checkout_lines checkout_lines (rs_checkout_line r)) (sd_reservations s))
      else 0)"

definition quantity_allocation_for_stocks :: "nat list \<Rightarrow> allocation list \<Rightarrow> nat \<Rightarrow> int" where
  "quantity_allocation_for_stocks stocks_id als k =
     (if k \<in> set stocks_id then positive_allocated als k else 0)"

fun py_list_index :: "'a list \<Rightarrow> 'a \<Rightarrow> nat option" where
  "py_list_index [] x = None"
| "py_list_index (y # ys) x = (if x = y then Some 0 else map_option Suc (py_list_index ys x))"

definition sort_stocks ::
    "allocation_strategy \<Rightarrow> stock list \<Rightarrow> nat \<Rightarrow> (nat \<Rightarrow> int) \<Rightarrow> nat option \<Rightarrow> stock_db
      \<Rightarrow> stock_error + stock list" where
  "sort_stocks strategy stocks channel_pk allocated collection_point_pk s =
     (let warehouse_ids = map st_warehouse stocks;
          channel_warehouse_ids = map snd (filter (\<lambda>(c, w). c = channel_pk \<and> w \<in> set warehouse_ids)
                                     (sd_channel_warehouses s))
      in case strategy of
        AllocationStrategy_PRIORITIZE_HIGH_STOCK \<Rightarrow>
          Inr (sort_key (\<lambda>st. if Some (st_warehouse st) = collection_point_pk then (0 :: int, 0)
                 else (1, allocated (st_pk st) - st_quantity st)) stocks)
      | AllocationStrategy_PRIORITIZE_SORTING_ORDER \<Rightarrow>
          if \<exists>st \<in> set stocks. Some (st_warehouse st) \<noteq> collection_point_pk
               \<and> py_list_index channel_warehouse_ids (st_warehouse st) = None
          then Inl NotInList
          else Inr (sort_key (\<lambda>st. if Some (st_warehouse st) = collection_point_pk then (0 :: int, 0)
                 else (1, int (the (py_list_index channel_warehouse_ids (st_warehouse st))))) stocks))"

text \<open>
  The loop of \<open>_create_allocations\<close>: the pieces taken, what they add up to, and whether it
  returned from within. A line of quantity 0 runs through the loop, fails the test for a shortage
  and falls off the end of the function: the caller unpacks \<open>None\<close>.
\<close>

fun allocation_loop ::
    "int \<Rightarrow> (stock \<Rightarrow> int) \<Rightarrow> int \<Rightarrow> stock list \<Rightarrow> (nat \<times> int) list \<times> int \<times> bool" where
  "allocation_loop quantity available allocated [] = ([], allocated, False)"
| "allocation_loop quantity available allocated (st # sts) =
     (let quantity_to_allocate = min (quantity - allocated) (available st)
      in if quantity_to_allocate > 0
         then if allocated + quantity_to_allocate = quantity
              then ([(st_pk st, quantity_to_allocate)], quantity, True)
              else (case allocation_loop quantity available (allocated + quantity_to_allocate) sts of
                      (pieces, taken, returned) \<Rightarrow> ((st_pk st, quantity_to_allocate) # pieces, taken, returned))
         else allocation_loop quantity available allocated sts)"

type_synonym new_allocation = "nat \<times> nat \<times> int"

definition create_allocations ::
    "line_info \<Rightarrow> stock list \<Rightarrow> (nat \<Rightarrow> int) \<Rightarrow> (nat \<Rightarrow> int)
      \<Rightarrow> stock_error + (insufficient list \<times> new_allocation list)" where
  "create_allocations line stocks allocated reserved =
     (let available = (\<lambda>st. st_quantity st - allocated (st_pk st) - reserved (st_pk st))
      in case allocation_loop (li_quantity line) available 0 stocks of
        (pieces, taken, returned) \<Rightarrow>
          if returned then Inr ([], map (\<lambda>(k, q). (li_line line, k, q)) pieces)
          else if taken \<noteq> li_quantity line
          then Inr ([\<lparr>is_available_quantity = 0, is_variant = map_option va_pk (li_variant line),
                      is_order_line = Some (li_line line), is_warehouse = None\<rparr>], [])
          else Inl NoneUnpacked)"

fun create_all_allocations ::
    "line_info list \<Rightarrow> stock list \<Rightarrow> (nat \<Rightarrow> int) \<Rightarrow> (nat \<Rightarrow> int)
      \<Rightarrow> stock_error + (insufficient list \<times> new_allocation list)" where
  "create_all_allocations [] stocks allocated reserved = Inr ([], [])"
| "create_all_allocations (line # lines) stocks allocated reserved =
     bindr (create_allocations line (filter (\<lambda>st. st_variant st = line_variant line) stocks)
              allocated reserved) (\<lambda>(ins, als).
     bindr (create_all_allocations lines stocks allocated reserved) (\<lambda>(ins', als').
       Inr (ins @ ins', als @ als')))"

text \<open>
  \<open>bulk_create\<close> of allocations; a line has at most one allocation per stock
  (\<open>unique_together\<close>).
\<close>

definition next_allocation_pk :: "allocation list \<Rightarrow> nat" where
  "next_allocation_pk als = Suc (sum_list (map al_pk als))"

fun allocation_rows :: "nat \<Rightarrow> new_allocation list \<Rightarrow> allocation list" where
  "allocation_rows pk [] = []"
| "allocation_rows pk ((line, k, q) # news) =
     \<lparr>al_pk = pk, al_order_line = line, al_stock = k, al_quantity = q\<rparr> # allocation_rows (Suc pk) news"

definition allocation_bulk_create :: "new_allocation list \<Rightarrow> stock_db \<Rightarrow> stock_error + stock_db" where
  "allocation_bulk_create news s =
     (let als = sd_allocations s @ allocation_rows (next_allocation_pk (sd_allocations s)) news
      in if distinct (map (\<lambda>a. (al_order_line a, al_stock a)) als)
         then Inr (s\<lparr>sd_allocations := als\<rparr>) else Inl IntegrityError)"

text \<open>\<open>stock.quantity_allocated = F("quantity_allocated") + d\<close>\<close>

definition add_allocated :: "nat \<times> int \<Rightarrow> nat \<times> (stock \<Rightarrow> stock)" where
  "add_allocated kd = (fst kd, \<lambda>st. st\<lparr>st_quantity_allocated := st_quantity_allocated st + snd kd\<rparr>)"

definition update_allocated :: "stock_bulk_update \<Rightarrow> (nat \<times> int) list \<Rightarrow> stock_db \<Rightarrow> stock_db" where
  "update_allocated bu deltas s = s\<lparr>sd_stocks := bu (map add_allocated deltas) (sd_stocks s)\<rparr>"

text \<open>Callbacks of a loop that name its variable: when they run it is the last object.\<close>

definition late_notices :: "(nat \<Rightarrow> notice) \<Rightarrow> nat list \<Rightarrow> (nat \<Rightarrow> bool) \<Rightarrow> notice list" where
  "late_notices make_notice loop fires = map (\<lambda>_. make_notice (last loop)) (filter fires loop)"

definition save_allocations :: "stock_bulk_update \<Rightarrow> new_allocation list \<Rightarrow> stock_db \<Rightarrow> stock_error + stock_db" where
  "save_allocations bu news s =
     (if news = [] then Inr s
      else bindr (allocation_bulk_create news s) (\<lambda>s.
        let s = update_allocated bu (map snd news) s;
            exhausted = (\<lambda>k. case row_of st_pk k (sd_stocks s) of None \<Rightarrow> False
               | Some st \<Rightarrow> max (st_quantity st - stock_allocated (sd_allocations s) k) 0 = 0)
        in Inr (s\<lparr>sd_notices := sd_notices s
             @ late_notices OutOfStock (map (fst \<circ> snd) news) exhausted\<rparr>)))"

definition allocate_stocks ::
    "stock_bulk_update \<Rightarrow> datetime \<Rightarrow> line_info list \<Rightarrow> string \<Rightarrow> channel \<Rightarrow> nat option
      \<Rightarrow> (stock \<Rightarrow> bool) \<Rightarrow> bool \<Rightarrow> nat list \<Rightarrow> stock_db \<Rightarrow> stock_error + stock_db" where
  "allocate_stocks bu now order_lines_info country_code channel collection_point_pk
       additional_filter check_reservations checkout_lines s =
     (let lines = get_order_lines_with_track_inventory now order_lines_info in
      if lines = [] then Inr s
      else
       let variants = map line_variant lines;
           stocks = filter (\<lambda>st. st_variant st \<in> set variants \<and> additional_filter st)
             (if collection_point_pk \<noteq> None
              then for_channel_and_click_and_collect (ch_slug channel) s
              else for_channel_and_country (ch_slug channel) (Some country_code) False s);
           (reserved_ids, allocated_ids) = generator_reads check_reservations (map st_pk stocks);
           reserved = prepare_stock_to_reserved_quantity_map now checkout_lines check_reservations
                        reserved_ids s;
           allocated = quantity_allocation_for_stocks allocated_ids (sd_allocations s)
       in bindr (sort_stocks (ch_allocation_strategy channel) stocks (ch_pk channel) allocated
                   collection_point_pk s) (\<lambda>stocks.
          bindr (create_all_allocations lines stocks allocated reserved) (\<lambda>(insufficient_stock, news).
            if insufficient_stock \<noteq> [] then Inl (InsufficientStock insufficient_stock)
            else save_allocations bu news s)))"

subsection \<open>Deallocating\<close>

text \<open>
  The loop over one line's allocations: pieces (allocation key, stock, quantity) and what they
  add up to.
\<close>

fun deallocation_loop :: "int \<Rightarrow> int \<Rightarrow> allocation list \<Rightarrow> (nat \<times> nat \<times> int) list \<times> int" where
  "deallocation_loop quantity deallocated [] = ([], deallocated)"
| "deallocation_loop quantity deallocated (a # als) =
     (let quantity_to_deallocate = min (quantity - deallocated) (al_quantity a)
      in if quantity_to_deallocate > 0
         then if deallocated + quantity_to_deallocate = quantity
              then ([(al_pk a, al_stock a, quantity_to_deallocate)], quantity)
              else (case deallocation_loop quantity (deallocated + quantity_to_deallocate) als of
                      (pieces, done) \<Rightarrow> ((al_pk a, al_stock a, quantity_to_deallocate) # pieces, done))
         else deallocation_loop quantity deallocated als)"

text \<open>
  The loop over the lines: the in-memory allocations are changed by it, so a line that occurs
  twice finds what the first pass left.
\<close>

definition take_pieces :: "(nat \<times> nat \<times> int) list \<Rightarrow> allocation list \<Rightarrow> allocation list" where
  "take_pieces pieces als =
     map (\<lambda>a. a\<lparr>al_quantity := al_quantity a
            - sum_list (map (snd \<circ> snd) (filter (\<lambda>p. fst p = al_pk a) pieces))\<rparr>) als"

fun deallocate_lines ::
    "line_info list \<Rightarrow> allocation list \<Rightarrow> (nat \<times> nat \<times> int) list \<times> allocation list \<times> nat list" where
  "deallocate_lines [] als = ([], als, [])"
| "deallocate_lines (line # lines) als =
     (case deallocation_loop (li_quantity line) 0 (filter (\<lambda>a. al_order_line a = li_line line) als) of
        (pieces, done) \<Rightarrow>
       (case deallocate_lines lines (take_pieces pieces als) of (pieces', als', failed) \<Rightarrow>
          (pieces @ pieces', als', (if done = li_quantity line then [] else [li_line line]) @ failed)))"

text \<open>
  \<open>deallocate_stock\<close>: the database it leaves (also when it raises) and the lines it could not
  deallocate. The objects saved by the \<open>bulk_update\<close> of allocations are the ones the loop
  changed, with their final quantities.
\<close>

definition deallocate_stock :: "stock_bulk_update \<Rightarrow> line_info list \<Rightarrow> stock_db \<Rightarrow> nat list \<times> stock_db" where
  "deallocate_stock bu order_lines_data s =
     (let lines = map li_line order_lines_data;
          lines_allocations = sort_key al_stock
            (filter (\<lambda>a. al_order_line a \<in> set lines) (sd_allocations s))
      in case deallocate_lines order_lines_data lines_allocations of (pieces, als', not_deallocated) \<Rightarrow>
        let touched = map fst pieces;
            before = filter (\<lambda>a. al_pk a \<in> set touched) (sd_allocations s);
            available = (\<lambda>s' k. case row_of st_pk k (sd_stocks s') of None \<Rightarrow> 0
               | Some st \<Rightarrow> annotate_stock_available_quantity s' st);
            s' = s\<lparr>sd_allocations := map (\<lambda>a.
                  if al_pk a \<in> set touched
                  then (case row_of al_pk (al_pk a) als' of None \<Rightarrow> a
                        | Some a' \<Rightarrow> a\<lparr>al_quantity := al_quantity a'\<rparr>) else a) (sd_allocations s)\<rparr>;
            notices = late_notices BackInStock (map al_stock before)
              (\<lambda>k. available s k \<le> 0 \<and> max (available s' k) 0 > 0);
            s' = update_allocated bu (map (\<lambda>(_, k, q). (k, - q)) pieces) s'
        in (not_deallocated, s'\<lparr>sd_notices := sd_notices s' @ notices\<rparr>))"

definition deallocate_stock_raising :: "stock_bulk_update \<Rightarrow> line_info list \<Rightarrow> stock_db \<Rightarrow> stock_error + stock_db" where
  "deallocate_stock_raising bu lines s =
     (case deallocate_stock bu lines s of (failed, s') \<Rightarrow>
        if failed \<noteq> [] then Inl (AllocationError failed) else Inr s')"

subsection \<open>Changing quantities\<close>

definition next_stock_pk :: "stock list \<Rightarrow> nat" where
  "next_stock_pk sts = Suc (sum_list (map st_pk sts))"

definition save_stock :: "nat \<Rightarrow> (stock \<Rightarrow> stock) \<Rightarrow> stock_db \<Rightarrow> stock_db" where
  "save_stock k f s = s\<lparr>sd_stocks := save_row st_pk k f (sd_stocks s)\<rparr>"

definition Stock_increase_stock :: "int \<Rightarrow> nat \<Rightarrow> stock_db \<Rightarrow> stock_db" where
  "Stock_increase_stock quantity k = save_stock k (\<lambda>st. st\<lparr>st_quantity := st_quantity st + quantity\<rparr>)"

definition Stock_decrease_stock :: "int \<Rightarrow> nat \<Rightarrow> stock_db \<Rightarrow> stock_db" where
  "Stock_decrease_stock quantity k = save_stock k (\<lambda>st. st\<lparr>st_quantity := st_quantity st - quantity\<rparr>)"

definition increase_stock ::
    "nat \<Rightarrow> nat option \<Rightarrow> nat \<Rightarrow> int \<Rightarrow> bool \<Rightarrow> stock_db \<Rightarrow> stock_error + stock_db" where
  "increase_stock order_line variant warehouse quantity allocate s =
     (case variant of
        None \<Rightarrow> Inl AssertionFailed
      | Some v \<Rightarrow>
         let (k, s) = (case find (\<lambda>st. st_warehouse st = warehouse \<and> st_variant st = v) (sd_stocks s) of
               Some st \<Rightarrow> (st_pk st, Stock_increase_stock quantity (st_pk st) s)
             | None \<Rightarrow> (let k = next_stock_pk (sd_stocks s)
                 in (k, s\<lparr>sd_stocks := sd_stocks s @ [\<lparr>st_pk = k, st_warehouse = warehouse,
                        st_variant = v, st_quantity = quantity, st_quantity_allocated = 0\<rparr>]\<rparr>)))
         in if \<not> allocate then Inr s
            else
             let s = (case find (\<lambda>a. al_order_line a = order_line \<and> al_stock a = k) (sd_allocations s) of
                   Some a \<Rightarrow> s\<lparr>sd_allocations := save_row al_pk (al_pk a)
                      (\<lambda>a. a\<lparr>al_quantity := al_quantity a + quantity\<rparr>) (sd_allocations s)\<rparr>
                 | None \<Rightarrow> s\<lparr>sd_allocations := sd_allocations s @
                      [\<lparr>al_pk = next_allocation_pk (sd_allocations s), al_order_line = order_line,
                        al_stock = k, al_quantity = quantity\<rparr>]\<rparr>)
             in Inr (save_stock k (\<lambda>st. st\<lparr>st_quantity_allocated := st_quantity_allocated st + quantity\<rparr>) s))"

definition increase_allocations ::
    "stock_bulk_update \<Rightarrow> datetime \<Rightarrow> line_info list \<Rightarrow> string \<Rightarrow> channel \<Rightarrow> stock_db \<Rightarrow> stock_error + stock_db" where
  "increase_allocations bu now lines_info country_code channel s =
     (let line_pks = map li_line lines_info;
          als = filter (\<lambda>a. al_order_line a \<in> set line_pks) (sd_allocations s);
          lines_info = map (\<lambda>i. i\<lparr>li_quantity := li_quantity i
                + sum_rows al_quantity (filter (\<lambda>a. al_order_line a = li_line i) als)\<rparr>) lines_info;
          s = s\<lparr>sd_allocations := filter (\<lambda>a. al_pk a \<notin> set (map al_pk als)) (sd_allocations s)\<rparr>;
          s = update_allocated bu (map (\<lambda>a. (al_stock a, - al_quantity a)) als) s
      in allocate_stocks bu now lines_info country_code channel None (\<lambda>_. True) False [] s)"

text \<open>
  \<open>_decrease_stocks_quantity\<close>: the stock objects are shared by the lines that name them, so
  quantities taken by one line are gone for the next. \<open>m\<close> is the quantity of each object. A line
  with a warehouse and no variant raises when \<open>variant.pk\<close> is read (\<open>NoVariant\<close>).
\<close>

fun decrease_quantities ::
    "line_info list \<Rightarrow> (nat \<Rightarrow> nat \<Rightarrow> stock option) \<Rightarrow> (nat \<Rightarrow> int) \<Rightarrow> bool \<Rightarrow> (nat \<Rightarrow> int)
      \<Rightarrow> insufficient list \<times> nat list \<times> (nat \<Rightarrow> int)" where
  "decrease_quantities [] find_stock allocated exceed m = ([], [], m)"
| "decrease_quantities (line # lines) find_stock allocated exceed m =
     (let lacking = [\<lparr>is_available_quantity = 0, is_variant = map_option va_pk (li_variant line),
             is_order_line = Some (li_line line), is_warehouse = li_warehouse line\<rparr>]
      in case (case li_warehouse line of None \<Rightarrow> None | Some w \<Rightarrow> find_stock (line_variant line) w) of
        None \<Rightarrow>
          (case decrease_quantities lines find_stock allocated exceed m of
             (ins, touched, m') \<Rightarrow> ((if exceed then [] else lacking) @ ins, touched, m'))
      | Some st \<Rightarrow>
          if m (st_pk st) - allocated (st_pk st) < li_quantity line \<and> \<not> exceed
          then (case decrease_quantities lines find_stock allocated exceed m of
                  (ins, touched, m') \<Rightarrow> (lacking @ ins, touched, m'))
          else (case decrease_quantities lines find_stock allocated exceed
                       (m(st_pk st := m (st_pk st) - li_quantity line)) of
                  (ins, touched, m') \<Rightarrow> (ins, st_pk st # touched, m')))"

definition decrease_stock ::
    "stock_bulk_update \<Rightarrow> line_info list \<Rightarrow> bool \<Rightarrow> bool \<Rightarrow> stock_db \<Rightarrow> stock_error + stock_db" where
  "decrease_stock bu order_lines_info update_stocks allow_stock_to_be_exceeded s =
     (let variants = List.map_filter (\<lambda>i. map_option va_pk (li_variant i)) order_lines_info;
          warehouse_pks = map li_warehouse order_lines_info;
          (failed, s) = deallocate_stock bu order_lines_info s;
          s = s\<lparr>sd_allocations := map (\<lambda>a. if al_order_line a \<in> set failed
                  then a\<lparr>al_quantity := 0\<rparr> else a) (sd_allocations s)\<rparr>
      in if \<not> update_stocks then Inr s
         else if \<exists>i \<in> set order_lines_info. li_variant i = None \<and> li_warehouse i \<noteq> None
         then Inl NoVariant
         else
          let stocks = filter (\<lambda>st. st_variant st \<in> set variants
                  \<and> Some (st_warehouse st) \<in> set warehouse_pks) (sd_stocks s);
              find_stock = (\<lambda>v w. find (\<lambda>st. st_variant st = v \<and> st_warehouse st = w) (rev stocks));
              allocated = quantity_allocation_for_stocks (map st_pk stocks) (sd_allocations s);
              m = (\<lambda>k. case row_of st_pk k stocks of None \<Rightarrow> 0 | Some st \<Rightarrow> st_quantity st)
          in (case decrease_quantities order_lines_info find_stock allocated allow_stock_to_be_exceeded m of
            (insufficient_stocks, touched, m') \<Rightarrow>
              if insufficient_stocks \<noteq> [] then Inl (InsufficientStock insufficient_stocks)
              else
               let s = s\<lparr>sd_stocks := bu (map (\<lambda>k. (k, \<lambda>st. st\<lparr>st_quantity := m' k\<rparr>)) touched) (sd_stocks s)\<rparr>;
                   empty = (\<lambda>k. case row_of st_pk k (sd_stocks s) of None \<Rightarrow> False
                      | Some st \<Rightarrow> annotate_available_quantity s st \<le> 0)
               in Inr (s\<lparr>sd_notices := sd_notices s @ late_notices OutOfStock (map st_pk stocks) empty\<rparr>)))"

definition decrease_allocations ::
    "stock_bulk_update \<Rightarrow> datetime \<Rightarrow> line_info list \<Rightarrow> stock_db \<Rightarrow> stock_error + stock_db" where
  "decrease_allocations bu now lines_info s =
     (let tracked_lines = get_order_lines_with_track_inventory now lines_info
      in if tracked_lines = [] then Inr s else decrease_stock bu tracked_lines False False s)"

subsection \<open>Whole orders\<close>

definition remove_reservations_for_order :: "nat \<Rightarrow> stock_db \<Rightarrow> stock_db" where
  "remove_reservations_for_order ord s =
     (let lines = map ol_pk (filter (\<lambda>l. ol_order l = ord) (sd_order_lines s))
      in s\<lparr>sd_reservations := filter (\<lambda>r. rs_order_line r \<notin> Some ` set lines) (sd_reservations s)\<rparr>)"

text \<open>What \<open>deallocate_stock_for_order\<close> and \<open>deallocate_stock_for_orders\<close> share.\<close>

definition deallocate_lines_fully :: "stock_bulk_update \<Rightarrow> nat list \<Rightarrow> stock_db \<Rightarrow> stock_db" where
  "deallocate_lines_fully bu lines s =
     (let als = filter (\<lambda>a. al_order_line a \<in> set lines \<and> al_quantity a > 0) (sd_allocations s);
          notices = late_notices BackInStock (map al_stock als)
            (\<lambda>k. case row_of st_pk k (sd_stocks s) of None \<Rightarrow> False
                 | Some st \<Rightarrow> annotate_stock_available_quantity s st \<le> 0);
          s = s\<lparr>sd_allocations := map (\<lambda>a. if al_order_line a \<in> set lines \<and> al_quantity a > 0
                  then a\<lparr>al_quantity := 0\<rparr> else a) (sd_allocations s)\<rparr>;
          s = update_allocated bu (map (\<lambda>a. (al_stock a, - al_quantity a)) als) s
      in s\<lparr>sd_notices := sd_notices s @ notices\<rparr>)"

definition deallocate_stock_for_order :: "stock_bulk_update \<Rightarrow> nat \<Rightarrow> stock_db \<Rightarrow> stock_db" where
  "deallocate_stock_for_order bu ord s =
     deallocate_lines_fully bu (map ol_pk (filter (\<lambda>l. ol_order l = ord) (sd_order_lines s))) s"

definition deallocate_stock_for_orders :: "stock_bulk_update \<Rightarrow> nat list \<Rightarrow> stock_db \<Rightarrow> stock_db" where
  "deallocate_stock_for_orders bu orders_id s =
     deallocate_lines_fully bu (map ol_pk (filter (\<lambda>l. ol_order l \<in> set orders_id
         \<and> (\<exists>h \<in> set (sd_orders s). oh_pk h = ol_order l
              \<and> (oh_status h = OrderStatus_UNCONFIRMED
                 \<or> (oh_status h = OrderStatus_UNFULFILLED
                    \<and> (\<exists>v \<in> set (sd_variants s). ol_variant l = Some (va_pk v) \<and> va_return_on_cancel v)))))
         (sd_order_lines s))) s"

subsection \<open>Preorders\<close>

definition sum_listing :: "preorder_allocation list \<Rightarrow> nat \<Rightarrow> int" where
  "sum_listing pas k = sum_rows pa_quantity (filter (\<lambda>p. pa_listing p = k \<and> pa_quantity p > 0) pas)"

definition listing_reservations ::
    "datetime \<Rightarrow> bool \<Rightarrow> nat list \<Rightarrow> preorder_reservation list \<Rightarrow> nat \<Rightarrow> int" where
  "listing_reservations now check_reservations checkout_lines prs k =
     (if check_reservations
      then sum_rows pr_quantity (filter (\<lambda>r. pr_listing r = k \<and> pr_quantity r > 0
             \<and> not_expired now (pr_reserved_until r)
             \<and> exclude_checkout_lines checkout_lines (Some (pr_checkout_line r))) prs)
      else 0)"

definition create_preorder_allocation ::
    "line_info \<Rightarrow> variant \<Rightarrow> nat \<times> int option \<Rightarrow> int \<Rightarrow> nat list \<Rightarrow> (nat \<Rightarrow> int) \<Rightarrow> (nat \<Rightarrow> int)
      \<Rightarrow> insufficient + preorder_allocation" where
  "create_preorder_allocation line variant channel_data global_allocation listing_ids allocated reserved =
     (let quantity = li_quantity line;
          lacking = (\<lambda>n. \<lparr>is_available_quantity = n, is_variant = Some (va_pk variant),
                           is_order_line = None, is_warehouse = None\<rparr>)
      in case channel_data of (listing, threshold) \<Rightarrow>
       bindr (case threshold of
                None \<Rightarrow> Inr ()
              | Some t \<Rightarrow> (let channel_availability = max (t - allocated listing - reserved listing) 0
                           in if quantity > channel_availability then Inl (lacking channel_availability)
                              else Inr ())) (\<lambda>_.
       bindr (case va_preorder_global_threshold variant of
                None \<Rightarrow> Inr ()
              | Some t \<Rightarrow> (let global_availability =
                             max (t - global_allocation - sum_list (map reserved listing_ids)) 0
                           in if quantity > global_availability then Inl (lacking global_availability)
                              else Inr ())) (\<lambda>_.
         Inr \<lparr>pa_order_line = li_line line, pa_listing = listing, pa_quantity = quantity\<rparr>)))"

fun create_preorder_allocations ::
    "(line_info \<Rightarrow> variant \<Rightarrow> stock_error + (insufficient + preorder_allocation)) \<Rightarrow> line_info list
      \<Rightarrow> stock_error + (insufficient list \<times> preorder_allocation list)" where
  "create_preorder_allocations create [] = Inr ([], [])"
| "create_preorder_allocations create (line # lines) =
     (case li_variant line of
        None \<Rightarrow> create_preorder_allocations create lines
      | Some v \<Rightarrow> bindr (create line v) (\<lambda>r.
          bindr (create_preorder_allocations create lines) (\<lambda>(ins, als).
            Inr (case r of Inl i \<Rightarrow> (i # ins, als) | Inr a \<Rightarrow> (ins, a # als)))))"

definition preorder_bulk_create :: "preorder_allocation list \<Rightarrow> stock_db \<Rightarrow> stock_error + stock_db" where
  "preorder_bulk_create news s =
     (let pas = sd_preorder_allocations s @ news
      in if distinct (map (\<lambda>p. (pa_order_line p, pa_listing p)) pas)
         then Inr (s\<lparr>sd_preorder_allocations := pas\<rparr>) else Inl IntegrityError)"

text \<open>The listing of a variant in the channel is the last one, as a dictionary keeps it.\<close>

definition allocate_preorders ::
    "datetime \<Rightarrow> line_info list \<Rightarrow> string \<Rightarrow> bool \<Rightarrow> nat list \<Rightarrow> stock_db \<Rightarrow> stock_error + stock_db" where
  "allocate_preorders now order_lines_info channel_slug check_reservations checkout_lines s =
     (let lines = get_order_lines_with_preorder now order_lines_info in
      if lines = [] then Inr s
      else
       let listings = filter (\<lambda>c. cl_variant c \<in> set (map line_variant lines)) (sd_listings s);
           listings_of = (\<lambda>v. map cl_pk (filter (\<lambda>c. cl_variant c = v) listings));
           allocated = (\<lambda>k. if k \<in> set (map cl_pk listings) then sum_listing (sd_preorder_allocations s) k else 0);
           reserved = (\<lambda>k. if k \<in> set (map cl_pk listings) then listing_reservations now check_reservations
                             checkout_lines (sd_preorder_reservations s) k else 0);
           create = (\<lambda>line v.
             case find (\<lambda>c. cl_variant c = va_pk v \<and> cl_channel_slug c = channel_slug) (rev listings) of
               None \<Rightarrow> Inl KeyMissing
             | Some c \<Rightarrow> Inr (create_preorder_allocation line v
                   (cl_pk c, cl_preorder_quantity_threshold c)
                   (sum_list (map allocated (listings_of (va_pk v)))) (listings_of (va_pk v))
                   allocated reserved))
       in bindr (create_preorder_allocations create lines) (\<lambda>(insufficient_stocks, news).
            if insufficient_stocks \<noteq> [] then Inl (InsufficientStock insufficient_stocks)
            else if news = [] then Inr s else preorder_bulk_create news s))"

text \<open>
  \<open>_get_stock_for_preorder_allocation\<close>: the key of the stock found, or the warehouse of the one
  to create. \<open>sd_warehouses\<close> is in the order of the model (by slug, descending).
\<close>

definition get_stock_for_preorder_allocation ::
    "preorder_allocation \<Rightarrow> nat \<Rightarrow> stock_db \<Rightarrow> stock_error + (nat + nat)" where
  "get_stock_for_preorder_allocation pa variant s =
     (let warehouse =
        (case row_of ol_pk (pa_order_line pa) (sd_order_lines s) of
           None \<Rightarrow> None
         | Some l \<Rightarrow>
            (case row_of oh_pk (ol_order l) (sd_orders s) of
               None \<Rightarrow> None
             | Some ord \<Rightarrow>
                let serves = (case oh_shipping_zone ord of
                      Some z \<Rightarrow> (\<lambda>zone. sz_pk zone = z)
                    | None \<Rightarrow> (\<lambda>zone. oh_country ord \<in> set (sz_countries zone)))
                in find (\<lambda>w. \<exists>zone \<in> set (sd_zones s). serves zone \<and> wh_pk w \<in> set (sz_warehouses zone))
                     (sd_warehouses s)))
      in case warehouse of
           None \<Rightarrow> Inl (PreorderAllocationError (pa_order_line pa))
         | Some w \<Rightarrow>
             (case find (\<lambda>st. st_warehouse st = wh_pk w \<and> st_variant st = variant) (sd_stocks s) of
                Some st \<Rightarrow> Inr (Inl (st_pk st)) | None \<Rightarrow> Inr (Inr (wh_pk w))))"

fun get_stocks_for_preorders ::
    "preorder_allocation list \<Rightarrow> nat \<Rightarrow> stock_db
      \<Rightarrow> stock_error + (preorder_allocation \<times> (nat + nat)) list" where
  "get_stocks_for_preorders [] variant s = Inr []"
| "get_stocks_for_preorders (pa # pas) variant s =
     bindr (get_stock_for_preorder_allocation pa variant s) (\<lambda>r.
     bindr (get_stocks_for_preorders pas variant s) (\<lambda>rs. Inr ((pa, r) # rs)))"

text \<open>
  New stocks take consecutive keys; each has the quantity of its preorder allocated. Two of
  them for one warehouse violate \<open>unique_together\<close>.
\<close>

fun place_preorders ::
    "nat \<Rightarrow> nat \<Rightarrow> (preorder_allocation \<times> (nat + nat)) list
      \<Rightarrow> stock list \<times> (nat \<times> int) list \<times> new_allocation list" where
  "place_preorders pk variant [] = ([], [], [])"
| "place_preorders pk variant ((pa, Inl k) # rest) =
     (case place_preorders pk variant rest of (sts, deltas, news) \<Rightarrow>
        (sts, (k, pa_quantity pa) # deltas, (pa_order_line pa, k, pa_quantity pa) # news))"
| "place_preorders pk variant ((pa, Inr w) # rest) =
     (case place_preorders (Suc pk) variant rest of (sts, deltas, news) \<Rightarrow>
        (\<lparr>st_pk = pk, st_warehouse = w, st_variant = variant, st_quantity = 0,
          st_quantity_allocated = pa_quantity pa\<rparr> # sts, deltas,
         (pa_order_line pa, pk, pa_quantity pa) # news))"

definition stock_bulk_create :: "stock list \<Rightarrow> stock_db \<Rightarrow> stock_error + stock_db" where
  "stock_bulk_create news s =
     (let sts = sd_stocks s @ news
      in if distinct (map (\<lambda>st. (st_warehouse st, st_variant st)) sts)
         then Inr (s\<lparr>sd_stocks := sts\<rparr>) else Inl IntegrityError)"

definition deactivate_preorder_for_variant :: "stock_bulk_update \<Rightarrow> variant \<Rightarrow> stock_db \<Rightarrow> stock_error + stock_db" where
  "deactivate_preorder_for_variant bu v s =
     (if \<not> va_is_preorder v then Inr s
      else
       let listing_ids = map cl_pk (filter (\<lambda>c. cl_variant c = va_pk v) (sd_listings s));
           pas = filter (\<lambda>p. pa_listing p \<in> set listing_ids) (sd_preorder_allocations s)
       in bindr (get_stocks_for_preorders pas (va_pk v) s) (\<lambda>placed.
          case place_preorders (next_stock_pk (sd_stocks s)) (va_pk v) placed of (sts, deltas, news) \<Rightarrow>
          bindr (if sts = [] then Inr s else stock_bulk_create sts s) (\<lambda>s.
          let s = (if deltas = [] then s else update_allocated bu deltas s) in
          bindr (if news = [] then Inr s else allocation_bulk_create news s) (\<lambda>s.
            Inr (s\<lparr>sd_preorder_allocations :=
                     filter (\<lambda>p. pa_listing p \<notin> set listing_ids) (sd_preorder_allocations s),
                   sd_variants := save_row va_pk (va_pk v) (\<lambda>r. r\<lparr>va_preorder_global_threshold := None,
                       va_preorder_end_date := None, va_is_preorder := False\<rparr>) (sd_variants s),
                   sd_listings := map (\<lambda>c. if cl_variant c = va_pk v
                       then c\<lparr>cl_preorder_quantity_threshold := None\<rparr> else c) (sd_listings s)\<rparr>)))))"

end
