(* ===== verification/StockLaws.thy ===== *)
theory StockLaws
  imports Stock
begin

section \<open>What the stock operations keep\<close>

text \<open>
  Two facts make the warehouse consistent: the counter stored with a stock is the sum of its
  allocation rows (\<open>counters_ok\<close>), and no more is allocated of a stock than it holds
  (\<open>no_oversell\<close>). The lemmas follow an operation in the order of its code: the pieces a line
  takes or gives back, their rows, the counters.
\<close>

definition stock_wf :: "stock_db \<Rightarrow> bool" where
  "stock_wf s \<longleftrightarrow> distinct (map st_pk (sd_stocks s)) \<and> distinct (map al_pk (sd_allocations s))
     \<and> (\<forall>a \<in> set (sd_allocations s). al_quantity a \<ge> 0)"

definition counters_ok :: "stock_db \<Rightarrow> bool" where
  "counters_ok s \<longleftrightarrow>
     (\<forall>st \<in> set (sd_stocks s). st_quantity_allocated st = stock_allocated (sd_allocations s) (st_pk st))"

definition no_oversell :: "stock_db \<Rightarrow> bool" where
  "no_oversell s \<longleftrightarrow>
     (\<forall>st \<in> set (sd_stocks s). stock_allocated (sd_allocations s) (st_pk st) \<le> st_quantity st)"

definition line_allocated :: "allocation list \<Rightarrow> nat \<Rightarrow> int" where
  "line_allocated als l = sum_rows al_quantity (filter (\<lambda>a. al_order_line a = l) als)"

subsection \<open>Counters\<close>

definition deltas_of :: "(nat \<times> int) list \<Rightarrow> nat \<Rightarrow> int list" where
  "deltas_of ds k = map snd (filter (\<lambda>d. fst d = k) ds)"

definition first_delta :: "(nat \<times> int) list \<Rightarrow> nat \<Rightarrow> int" where
  "first_delta ds k = (case deltas_of ds k of [] \<Rightarrow> 0 | d # _ \<Rightarrow> d)"

lemma deltas_of_simps [simp]:
  "deltas_of [] k = []"
  "deltas_of (d # ds) k = (if fst d = k then snd d # deltas_of ds k else deltas_of ds k)"
  "deltas_of (ds @ ds') k = deltas_of ds k @ deltas_of ds' k"
  by (simp_all add: deltas_of_def)

lemma first_delta_distinct:
  "distinct (map fst ds) \<Longrightarrow> first_delta ds k = sum_list (deltas_of ds k)"
proof (induction ds)
  case (Cons d ds)
  have "deltas_of ds k = []" if "fst d = k"
  proof -
    have "fst x \<noteq> k" if "x \<in> set ds" for x
    proof -
      have "fst x \<in> fst ` set ds" using that by (rule imageI)
      moreover have "fst d \<notin> fst ` set ds" using Cons.prems by simp
      ultimately show ?thesis using \<open>fst d = k\<close> by metis
    qed
    then show ?thesis by (simp add: deltas_of_def filter_empty_conv)
  qed
  with Cons show ?case by (auto simp: first_delta_def)
qed (simp add: first_delta_def)

lemma update_allocated_stocks:
  assumes "bulk_update_law st_pk bu"
  shows "sd_stocks (update_allocated bu ds s) =
    map (\<lambda>st. st\<lparr>st_quantity_allocated := st_quantity_allocated st + first_delta ds (st_pk st)\<rparr>) (sd_stocks s)"
proof -
  have "map_of (map add_allocated ds) k =
      (case deltas_of ds k of [] \<Rightarrow> None
       | d # _ \<Rightarrow> Some (\<lambda>st. st\<lparr>st_quantity_allocated := st_quantity_allocated st + d\<rparr>))" for k
    by (induction ds) (auto simp: add_allocated_def)
  then show ?thesis
    using bulk_update_lawD [OF assms]
    by (auto simp: update_allocated_def first_update_def first_delta_def split: list.splits)
qed

lemma update_allocated_frame [simp]:
  "sd_allocations (update_allocated bu ds s) = sd_allocations s"
  by (simp add: update_allocated_def)

text \<open>
  The counters after an update whose deltas are what the rows changed by: they are right for a
  stock exactly when the deltas after its first one add up to nothing.
\<close>

lemma counters_after_update:
  assumes law: "bulk_update_law st_pk bu" and ok: "counters_ok s"
    and als: "\<And>k. k \<in> st_pk ` set (sd_stocks s) \<Longrightarrow> stock_allocated als k
                = stock_allocated (sd_allocations s) k + sum_list (deltas_of ds k)"
  shows "counters_ok (update_allocated bu ds (s\<lparr>sd_allocations := als\<rparr>)) \<longleftrightarrow>
    (\<forall>k \<in> st_pk ` set (sd_stocks s). first_delta ds k = sum_list (deltas_of ds k))"
  using ok by (simp add: counters_ok_def update_allocated_stocks [OF law] als)

lemma stock_allocated_append [simp]:
  "stock_allocated (als @ als') k = stock_allocated als k + stock_allocated als' k"
  by (simp add: stock_allocated_def)

lemma stock_allocated_rows:
  "stock_allocated (allocation_rows pk news) k = sum_list (deltas_of (map snd news) k)"
  by (induction pk news rule: allocation_rows.induct) (auto simp: stock_allocated_def)

lemma line_allocated_rows:
  "line_allocated (allocation_rows pk news) l = sum_list (map (snd \<circ> snd) (filter (\<lambda>n. fst n = l) news))"
  by (induction pk news rule: allocation_rows.induct) (auto simp: line_allocated_def)

lemma stock_allocated_nonneg:
  "\<forall>a \<in> set als. al_quantity a \<ge> 0 \<Longrightarrow> stock_allocated als k \<ge> 0"
  by (induction als) (auto simp: stock_allocated_def)

lemma positive_allocated_eq:
  "\<forall>a \<in> set als. al_quantity a \<ge> 0 \<Longrightarrow> positive_allocated als k = stock_allocated als k"
  by (induction als) (auto simp: stock_allocated_def positive_allocated_def)

subsection \<open>The pieces a line takes\<close>

lemma allocation_loop_outcome:
  assumes "allocation_loop q av a sts = (pieces, t, ret)"
  shows "t = a + sum_list (map snd pieces) \<and> (ret \<longrightarrow> t = q)
    \<and> (\<forall>p \<in> set pieces. 0 < snd p \<and> (\<exists>st \<in> set sts. st_pk st = fst p \<and> snd p \<le> av st))
    \<and> (distinct (map st_pk sts) \<longrightarrow> distinct (map fst pieces))"
  using assms
proof (induction sts arbitrary: a pieces t ret)
  case (Cons st sts)
  let ?q = "min (q - a) (av st)"
  show ?case
  proof (cases "?q > 0 \<and> a + ?q \<noteq> q")
    case True
    obtain ps t' r where rec: "allocation_loop q av (a + ?q) sts = (ps, t', r)" by (metis prod_cases3)
    with Cons.prems True have eq: "pieces = (st_pk st, ?q) # ps" "t = t'" "ret = r"
      by (auto simp: Let_def)
    from Cons.IH [OF rec] have ih: "t' = a + ?q + sum_list (map snd ps)" "r \<longrightarrow> t' = q"
      "\<forall>p \<in> set ps. 0 < snd p \<and> (\<exists>st \<in> set sts. st_pk st = fst p \<and> snd p \<le> av st)"
      "distinct (map st_pk sts) \<longrightarrow> distinct (map fst ps)" by blast+
    have "st_pk st \<notin> fst ` set ps" if "distinct (map st_pk (st # sts))"
    proof
      assume "st_pk st \<in> fst ` set ps"
      then obtain p where "p \<in> set ps" "fst p = st_pk st" by auto
      with ih(3) obtain st' where "st' \<in> set sts" "st_pk st' = st_pk st" by metis
      with that show False by (auto simp: image_iff)
    qed
    with ih True show ?thesis by (auto simp: eq)
  next
    case False
    show ?thesis
    proof (cases "?q > 0")
      case True
      with False Cons.prems show ?thesis by (auto simp: Let_def)
    next
      case f: False
      then have "allocation_loop q av a (st # sts) = allocation_loop q av a sts"
        by (simp only: allocation_loop.simps Let_def if_False)
      then have "allocation_loop q av a sts = (pieces, t, ret)" using Cons.prems by simp
      from Cons.IH [OF this] show ?thesis by fastforce
    qed
  qed
qed auto

lemma create_allocations_outcome:
  assumes "create_allocations line sts al rv = Inr ([], news)"
  shows "news = map (\<lambda>(k, q). (li_line line, k, q)) (map snd news)
    \<and> sum_list (map (snd \<circ> snd) news) = li_quantity line
    \<and> (\<forall>n \<in> set news. 0 < snd (snd n) \<and> fst n = li_line line
         \<and> (\<exists>st \<in> set sts. st_pk st = fst (snd n) \<and> snd (snd n) \<le> st_quantity st - al (st_pk st) - rv (st_pk st)))
    \<and> (distinct (map st_pk sts) \<longrightarrow> distinct (map (fst \<circ> snd) news))"
proof -
  obtain ps t r where loop: "allocation_loop (li_quantity line)
      (\<lambda>st. st_quantity st - al (st_pk st) - rv (st_pk st)) 0 sts = (ps, t, r)" by (metis prod_cases3)
  with assms have r: "r" and news: "news = map (\<lambda>(k, q). (li_line line, k, q)) ps"
    by (auto simp: create_allocations_def split: if_splits)
  have "map snd news = ps" by (simp add: news comp_def case_prod_unfold)
  with allocation_loop_outcome [OF loop] r show ?thesis
    by (auto simp: news comp_def case_prod_unfold)
qed

lemma create_all_outcome:
  assumes "create_all_allocations lines sts al rv = Inr ([], news)"
    and "distinct (map line_variant lines)" "distinct (map st_pk sts)"
  shows "(\<forall>n \<in> set news. 0 < snd (snd n) \<and> (\<exists>line \<in> set lines. fst n = li_line line
        \<and> (\<exists>st \<in> set sts. st_pk st = fst (snd n) \<and> st_variant st = line_variant line
             \<and> snd (snd n) \<le> st_quantity st - al (st_pk st) - rv (st_pk st))))
    \<and> distinct (map (fst \<circ> snd) news)
    \<and> (\<forall>l. sum_list (map (snd \<circ> snd) (filter (\<lambda>n. fst n = l) news))
           = sum_list (map li_quantity (filter (\<lambda>i. li_line i = l) lines)))"
  using assms(1,2)
proof (induction lines arbitrary: news)
  case (Cons line lines)
  let ?mine = "filter (\<lambda>st. st_variant st = line_variant line) sts"
  from Cons.prems(1) obtain n1 n2 where n1: "create_allocations line ?mine al rv = Inr ([], n1)"
    and n2: "create_all_allocations lines sts al rv = Inr ([], n2)" and news: "news = n1 @ n2"
    by (auto simp: bindr_eq_Inr)
  have d: "distinct (map st_pk ?mine)" using assms(3) by (simp add: distinct_map_filter)
  from create_allocations_outcome [OF n1] d
  have o1: "\<And>n. n \<in> set n1 \<Longrightarrow> 0 < snd (snd n) \<and> fst n = li_line line
        \<and> (\<exists>st \<in> set ?mine. st_pk st = fst (snd n) \<and> snd (snd n) \<le> st_quantity st - al (st_pk st) - rv (st_pk st))"
    "distinct (map (fst \<circ> snd) n1)" "sum_list (map (snd \<circ> snd) n1) = li_quantity line" by blast+
  have "distinct (map line_variant lines)" using Cons.prems(2) by simp
  from Cons.IH [OF n2 this]
  have o2: "\<And>n. n \<in> set n2 \<Longrightarrow> 0 < snd (snd n) \<and> (\<exists>line \<in> set lines. fst n = li_line line
        \<and> (\<exists>st \<in> set sts. st_pk st = fst (snd n) \<and> st_variant st = line_variant line
             \<and> snd (snd n) \<le> st_quantity st - al (st_pk st) - rv (st_pk st)))"
    "distinct (map (fst \<circ> snd) n2)"
    "\<And>l. sum_list (map (snd \<circ> snd) (filter (\<lambda>n. fst n = l) n2))
           = sum_list (map li_quantity (filter (\<lambda>i. li_line i = l) lines))" by blast+
  have apart: "fst (snd n) \<noteq> fst (snd m)" if "n \<in> set n1" "m \<in> set n2" for n m
  proof
    assume eq: "fst (snd n) = fst (snd m)"
    from o1(1) [OF that(1)] obtain st where st: "st \<in> set sts" "st_variant st = line_variant line"
      "st_pk st = fst (snd n)" by auto
    from o2(1) [OF that(2)] obtain l' st' where st': "l' \<in> set lines" "st' \<in> set sts"
      "st_variant st' = line_variant l'" "st_pk st' = fst (snd m)" by auto
    have "st = st'" using assms(3) st st' eq by (metis inj_onD distinct_map)
    then have "line_variant line \<in> line_variant ` set lines" using st st' by (metis image_eqI)
    with Cons.prems(2) show False by simp
  qed
  have f1: "filter (\<lambda>n. fst n = l) n1 = (if l = li_line line then n1 else [])" for l
    using o1(1) by (auto intro!: filter_True filter_False)
  have "distinct (map (fst \<circ> snd) (n1 @ n2))"
    using o1(2) o2(2) apart by (force simp: comp_def)
  moreover have "sum_list (map (snd \<circ> snd) (filter (\<lambda>n. fst n = l) (n1 @ n2)))
      = sum_list (map li_quantity (filter (\<lambda>i. li_line i = l) (line # lines)))" for l
    using o1(3) o2(3) [of l] by (simp add: f1)
  moreover have "0 < snd (snd n) \<and> (\<exists>i \<in> set (line # lines). fst n = li_line i
        \<and> (\<exists>st \<in> set sts. st_pk st = fst (snd n) \<and> st_variant st = line_variant i
             \<and> snd (snd n) \<le> st_quantity st - al (st_pk st) - rv (st_pk st)))"
    if "n \<in> set (n1 @ n2)" for n
  proof (cases "n \<in> set n1")
    case True
    with o1(1) [OF this] show ?thesis by auto
  next
    case False
    with that o2(1) [of n] show ?thesis by auto
  qed
  ultimately show ?case unfolding news by blast
qed simp

subsection \<open>Allocating keeps the warehouse consistent\<close>

lemma sort_stocks_outcome:
  assumes "sort_stocks strategy sts ch al cp s = Inr sts'"
  shows "set sts' = set sts" "distinct (map st_pk sts) \<Longrightarrow> distinct (map st_pk sts')"
proof -
  have "\<exists>f :: stock \<Rightarrow> int \<times> int. sts' = sort_key f sts"
    using assms by (cases strategy) (auto simp: sort_stocks_def Let_def split: if_splits)
  then obtain f :: "stock \<Rightarrow> int \<times> int" where f: "sts' = sort_key f sts" ..
  then show "set sts' = set sts" by simp
  show "distinct (map st_pk sts')" if "distinct (map st_pk sts)"
    using that by (simp add: f distinct_map)
qed

lemma save_allocations_outcome:
  assumes law: "bulk_update_law st_pk bu" and run: "save_allocations bu news s = Inr t" and ne: "news \<noteq> []"
  shows "sd_allocations t = sd_allocations s @ allocation_rows (next_allocation_pk (sd_allocations s)) news"
    and "sd_stocks t = map (\<lambda>st. st\<lparr>st_quantity_allocated := st_quantity_allocated st
           + first_delta (map snd news) (st_pk st)\<rparr>) (sd_stocks s)"
proof -
  define als where "als = sd_allocations s @ allocation_rows (next_allocation_pk (sd_allocations s)) news"
  from run ne have "\<exists>ns. t = (update_allocated bu (map snd news) (s\<lparr>sd_allocations := als\<rparr>))\<lparr>sd_notices := ns\<rparr>"
    by (auto simp: save_allocations_def allocation_bulk_create_def als_def Let_def bindr_eq_Inr
        split: if_splits)
  then show "sd_allocations t = sd_allocations s @ allocation_rows (next_allocation_pk (sd_allocations s)) news"
    "sd_stocks t = map (\<lambda>st. st\<lparr>st_quantity_allocated := st_quantity_allocated st
           + first_delta (map snd news) (st_pk st)\<rparr>) (sd_stocks s)"
    by (auto simp: update_allocated_stocks [OF law] als_def)
qed

lemma allocate_stocks_run:
  assumes run: "allocate_stocks bu now lines country ch cp extra check cls s = Inr t"
    and ne: "get_order_lines_with_track_inventory now lines \<noteq> []"
  obtains sts sts' al rv news where
    "set sts \<subseteq> set (sd_stocks s)" "distinct (map st_pk (sd_stocks s)) \<longrightarrow> distinct (map st_pk sts)"
    "al = quantity_allocation_for_stocks (snd (generator_reads check (map st_pk sts))) (sd_allocations s)"
    "rv = prepare_stock_to_reserved_quantity_map now cls check (fst (generator_reads check (map st_pk sts))) s"
    "set sts' = set sts" "distinct (map st_pk sts) \<longrightarrow> distinct (map st_pk sts')"
    "create_all_allocations (get_order_lines_with_track_inventory now lines) sts' al rv = Inr ([], news)"
    "save_allocations bu news s = Inr t"
proof -
  let ?tracked = "get_order_lines_with_track_inventory now lines"
  define base where "base = (if cp \<noteq> None then for_channel_and_click_and_collect (ch_slug ch) s
      else for_channel_and_country (ch_slug ch) (Some country) False s)"
  define sts where "sts = filter (\<lambda>st. st_variant st \<in> set (map line_variant ?tracked) \<and> extra st) base"
  have base: "\<exists>p. base = filter p (sd_stocks s)"
    by (auto simp: base_def for_channel_and_click_and_collect_def for_channel_and_country_def Let_def)
  obtain ri ai where gr: "generator_reads check (map st_pk sts) = (ri, ai)" by fastforce
  note run' = run [unfolded allocate_stocks_def Let_def, folded base_def, folded sts_def,
      unfolded gr prod.case if_not_P [OF ne]]
  from run' obtain sts' news where
    sorted: "sort_stocks (ch_allocation_strategy ch) sts (ch_pk ch)
      (quantity_allocation_for_stocks ai (sd_allocations s)) cp s = Inr sts'"
    and all: "create_all_allocations ?tracked sts' (quantity_allocation_for_stocks ai (sd_allocations s))
      (prepare_stock_to_reserved_quantity_map now cls check ri s) = Inr ([], news)"
    and save: "save_allocations bu news s = Inr t"
    by (auto simp: bindr_eq_Inr split: if_splits prod.splits)
  have sub: "set sts \<subseteq> set (sd_stocks s)" using base by (auto simp: sts_def)
  have dist: "distinct (map st_pk sts)" if "distinct (map st_pk (sd_stocks s))"
    using base that by (auto simp: sts_def distinct_map_filter)
  show ?thesis
    by (rule that [OF sub _ _ _ sort_stocks_outcome(1) [OF sorted] _ all save])
      (simp_all add: gr dist sort_stocks_outcome(2) [OF sorted])
qed

lemma line_allocated_append [simp]:
  "line_allocated (als @ als') l = line_allocated als l + line_allocated als' l"
  by (simp add: line_allocated_def)

text \<open>What allocating lines of distinct variants adds: pieces that fit into what their stocks have left.\<close>

definition fitting_pieces :: "stock_db \<Rightarrow> new_allocation list \<Rightarrow> bool" where
  "fitting_pieces s news \<longleftrightarrow> distinct (map fst (map snd news))
     \<and> (\<forall>n \<in> set news. 0 < snd (snd n) \<and> (\<exists>st \<in> set (sd_stocks s). st_pk st = fst (snd n)
          \<and> snd (snd n) \<le> st_quantity st - stock_allocated (sd_allocations s) (st_pk st)))"

lemma allocate_stocks_outcome:
  assumes law: "bulk_update_law st_pk bu" and wf: "stock_wf s"
    and dv: "distinct (map line_variant (get_order_lines_with_track_inventory now lines))"
    and run: "allocate_stocks bu now lines country ch cp extra False cls s = Inr t"
  obtains news where "fitting_pieces s news"
    "sd_allocations t = sd_allocations s @ allocation_rows (next_allocation_pk (sd_allocations s)) news"
    "sd_stocks t = map (\<lambda>st. st\<lparr>st_quantity_allocated := st_quantity_allocated st
       + first_delta (map snd news) (st_pk st)\<rparr>) (sd_stocks s)"
    "\<forall>l. sum_list (map (snd \<circ> snd) (filter (\<lambda>n. fst n = l) news)) = sum_list (map li_quantity
       (filter (\<lambda>i. li_line i = l) (get_order_lines_with_track_inventory now lines)))"
proof (cases "get_order_lines_with_track_inventory now lines = []")
  case True
  with run have "t = s" by (simp add: allocate_stocks_def)
  then show ?thesis using that [of "[]"] by (simp add: True fitting_pieces_def first_delta_def)
next
  case False
  let ?tracked = "get_order_lines_with_track_inventory now lines"
  have nonneg: "\<forall>a \<in> set (sd_allocations s). al_quantity a \<ge> 0" and ds: "distinct (map st_pk (sd_stocks s))"
    using wf by (auto simp: stock_wf_def)
  from run False obtain sts sts' al rv news where
    sub: "set sts \<subseteq> set (sd_stocks s)" and dsts: "distinct (map st_pk (sd_stocks s)) \<longrightarrow> distinct (map st_pk sts)"
    and al: "al = quantity_allocation_for_stocks (snd (generator_reads False (map st_pk sts))) (sd_allocations s)"
    and rv: "rv = prepare_stock_to_reserved_quantity_map now cls False (fst (generator_reads False (map st_pk sts))) s"
    and sts': "set sts' = set sts" "distinct (map st_pk sts) \<longrightarrow> distinct (map st_pk sts')"
    and all: "create_all_allocations ?tracked sts' al rv = Inr ([], news)"
    and save: "save_allocations bu news s = Inr t"
    by (rule allocate_stocks_run)
  have dsts': "distinct (map st_pk sts')" using sts'(2) dsts ds by blast
  have al_k: "al k = stock_allocated (sd_allocations s) k" if "k \<in> st_pk ` set sts" for k
    using that nonneg by (simp add: al generator_reads_def quantity_allocation_for_stocks_def positive_allocated_eq)
  have rv_k: "rv k = 0" for k by (simp add: rv prepare_stock_to_reserved_quantity_map_def)
  note out = create_all_outcome [OF all dv dsts']
  have "\<exists>st \<in> set (sd_stocks s). st_pk st = fst (snd n)
      \<and> snd (snd n) \<le> st_quantity st - stock_allocated (sd_allocations s) (st_pk st)" if "n \<in> set news" for n
  proof -
    from out that obtain st where "st \<in> set sts'" "st_pk st = fst (snd n)"
      "snd (snd n) \<le> st_quantity st - al (st_pk st) - rv (st_pk st)" by blast
    moreover from this sts'(1) have "al (st_pk st) = stock_allocated (sd_allocations s) (st_pk st)"
      by (intro al_k imageI) simp
    ultimately show ?thesis using sub sts'(1) by (intro bexI [of _ st]) (auto simp: rv_k)
  qed
  then have fit: "fitting_pieces s news" using out by (simp add: fitting_pieces_def comp_def)
  show ?thesis
  proof (cases "news = []")
    case True
    with save have "t = s" by (simp add: save_allocations_def)
    with True out show ?thesis by (intro that [OF fit]) (auto simp: first_delta_def)
  next
    case ne: False
    from save_allocations_outcome [OF law save ne] out show ?thesis by (intro that [OF fit]) blast+
  qed
qed

lemma fitting_pieces_total:
  assumes fit: "fitting_pieces s news" and wf: "stock_wf s" and st: "st \<in> set (sd_stocks s)" and ok: "no_oversell s"
  shows "stock_allocated (sd_allocations s) (st_pk st) + first_delta (map snd news) (st_pk st) \<le> st_quantity st"
proof (cases "filter (\<lambda>d. fst d = st_pk st) (map snd news)")
  case Nil
  then show ?thesis using ok st by (simp add: first_delta_def deltas_of_def no_oversell_def)
next
  case (Cons d rest)
  then have "d \<in> set (filter (\<lambda>d. fst d = st_pk st) (map snd news))" by simp
  then obtain n where n: "n \<in> set news" "snd n = d" "fst d = st_pk st" by auto
  with fit obtain st2 where st2: "st2 \<in> set (sd_stocks s)" "st_pk st2 = st_pk st"
    "snd d \<le> st_quantity st2 - stock_allocated (sd_allocations s) (st_pk st2)"
    unfolding fitting_pieces_def by metis
  have "st2 = st" using wf st st2(1,2) unfolding stock_wf_def by (metis inj_onD distinct_map)
  with st2(3) Cons show ?thesis by (simp add: first_delta_def deltas_of_def)
qed

lemma allocate_stocks_keeps:
  assumes law: "bulk_update_law st_pk bu" and wf: "stock_wf s"
    and dv: "distinct (map line_variant (get_order_lines_with_track_inventory now lines))"
    and run: "allocate_stocks bu now lines country ch cp extra False cls s = Inr t"
  shows "counters_ok s \<Longrightarrow> counters_ok t" "no_oversell s \<Longrightarrow> no_oversell t"
    "line_allocated (sd_allocations t) l = line_allocated (sd_allocations s) l
      + sum_list (map li_quantity (filter (\<lambda>i. li_line i = l) (get_order_lines_with_track_inventory now lines)))"
proof -
  from law wf dv run obtain news where fit: "fitting_pieces s news"
    and als: "sd_allocations t = sd_allocations s @ allocation_rows (next_allocation_pk (sd_allocations s)) news"
    and stocks: "sd_stocks t = map (\<lambda>st. st\<lparr>st_quantity_allocated := st_quantity_allocated st
       + first_delta (map snd news) (st_pk st)\<rparr>) (sd_stocks s)"
    and sums: "\<forall>l. sum_list (map (snd \<circ> snd) (filter (\<lambda>n. fst n = l) news)) = sum_list (map li_quantity
       (filter (\<lambda>i. li_line i = l) (get_order_lines_with_track_inventory now lines)))"
    by (rule allocate_stocks_outcome)
  have "first_delta (map snd news) k = sum_list (deltas_of (map snd news) k)" for k
    using fit by (intro first_delta_distinct) (simp add: fitting_pieces_def)
  then have tot: "stock_allocated (sd_allocations t) k
      = stock_allocated (sd_allocations s) k + first_delta (map snd news) k" for k
    by (simp add: als stock_allocated_rows)
  show "counters_ok s \<Longrightarrow> counters_ok t" by (simp add: counters_ok_def stocks tot)
  show "no_oversell t" if "no_oversell s"
    using fitting_pieces_total [OF fit wf _ that] by (auto simp: no_oversell_def [of t] stocks tot)
  show "line_allocated (sd_allocations t) l = line_allocated (sd_allocations s) l
      + sum_list (map li_quantity (filter (\<lambda>i. li_line i = l) (get_order_lines_with_track_inventory now lines)))"
    using sums by (simp add: als line_allocated_rows)
qed

text \<open>
  C20: allocating order lines of distinct variants without looking at reservations keeps the
  stored counters equal to the allocation rows and never allocates more of a stock than it
  holds, and every tracked line gets exactly its quantity
\<close>

theorem allocate_stocks_consistent:
  assumes law: "bulk_update_law st_pk bu"
    and wf: "stock_wf s" and counters: "counters_ok s"
    and dv: "distinct (map line_variant (get_order_lines_with_track_inventory now lines))"
    and run: "allocate_stocks bu now lines country ch cp extra False cls s = Inr t"
  shows "counters_ok t \<and> (no_oversell s \<longrightarrow> no_oversell t)
    \<and> (\<forall>l. line_allocated (sd_allocations t) l = line_allocated (sd_allocations s) l
          + sum_list (map li_quantity (filter (\<lambda>i. li_line i = l)
              (get_order_lines_with_track_inventory now lines))))"
  using allocate_stocks_keeps [OF law wf dv run] counters by blast

subsection \<open>Examples\<close>

definition sample_variant :: "nat \<Rightarrow> variant" where
  "sample_variant pk = \<lparr>va_pk = pk, va_product = 1, va_track_inventory = True, va_is_preorder = False,
     va_preorder_end_date = None, va_preorder_global_threshold = None, va_return_on_cancel = True,
     va_quantity_limit_per_customer = None\<rparr>"

definition sample_channel :: channel where
  "sample_channel = \<lparr>ch_pk = 1, ch_slug = ''main'',
     ch_allocation_strategy = AllocationStrategy_PRIORITIZE_HIGH_STOCK\<rparr>"

definition sample_line :: "nat \<Rightarrow> nat \<Rightarrow> int \<Rightarrow> line_info" where
  "sample_line line v q = \<lparr>li_line = line, li_variant = Some (sample_variant v), li_quantity = q,
     li_warehouse = Some 1\<rparr>"

text \<open>Two warehouses; 5 pieces of variant 1 in the first, 3 of them taken, 4 in the second.\<close>

definition stock_example :: stock_db where
  "stock_example = \<lparr>sd_variants = [sample_variant 1, sample_variant 2],
     sd_stocks = [\<lparr>st_pk = 1, st_warehouse = 1, st_variant = 1, st_quantity = 5, st_quantity_allocated = 3\<rparr>,
                  \<lparr>st_pk = 2, st_warehouse = 2, st_variant = 1, st_quantity = 4, st_quantity_allocated = 0\<rparr>,
                  \<lparr>st_pk = 3, st_warehouse = 1, st_variant = 2, st_quantity = 2, st_quantity_allocated = 0\<rparr>],
     sd_allocations = [\<lparr>al_pk = 1, al_order_line = 10, al_stock = 1, al_quantity = 1\<rparr>,
                       \<lparr>al_pk = 2, al_order_line = 11, al_stock = 1, al_quantity = 2\<rparr>],
     sd_reservations = [], sd_listings = [], sd_preorder_allocations = [],
     sd_preorder_reservations = [],
     sd_warehouses = [\<lparr>wh_pk = 1, wh_click_and_collect_option = WarehouseClickAndCollectOption_DISABLED\<rparr>,
                      \<lparr>wh_pk = 2, wh_click_and_collect_option = WarehouseClickAndCollectOption_DISABLED\<rparr>],
     sd_zones = [\<lparr>sz_pk = 1, sz_countries = [''CN''], sz_channels = [1], sz_warehouses = [1, 2]\<rparr>],
     sd_channels = [sample_channel], sd_channel_warehouses = [(1, 1), (1, 2)],
     sd_orders = [\<lparr>oh_pk = 7, oh_user = Some 3, oh_status = OrderStatus_UNCONFIRMED, oh_shipping_zone = None, oh_country = ''CN'',
       oh_channel_slug = ''main'', oh_shipping_price_gross_amount = 0\<rparr>],
     sd_order_lines = [\<lparr>ol_pk = 10, ol_order = 7, ol_variant = Some 1, ol_quantity = 2,
       ol_quantity_fulfilled = 0, ol_unit_price_gross_amount = 15, ol_is_gift_card = False\<rparr>,
                       \<lparr>ol_pk = 11, ol_order = 7, ol_variant = Some 1, ol_quantity = 2,
       ol_quantity_fulfilled = 0, ol_unit_price_gross_amount = 15, ol_is_gift_card = False\<rparr>],
     sd_notices = []\<rparr>"

lemma stock_example_ok:
  "stock_wf stock_example" "counters_ok stock_example" "no_oversell stock_example"
  by code_simp+

definition allocate_example :: "stock_error + stock_db" where
  "allocate_example = allocate_stocks (first_update st_pk) (2024, 3, 1, 0)
     [sample_line 20 1 5, sample_line 21 2 2] ''CN'' sample_channel None (\<lambda>_. True) False [] stock_example"

lemma allocate_stocks_consistent_witness:
  "\<exists>t. allocate_example = Inr t \<and> counters_ok t \<and> no_oversell t
     \<and> map st_quantity_allocated (sd_stocks t) = [4, 4, 2] \<and> sd_notices t = [OutOfStock 3, OutOfStock 3]"
proof -
  have "case allocate_example of Inr t \<Rightarrow> map st_quantity_allocated (sd_stocks t) = [4, 4, 2]
      \<and> sd_notices t = [OutOfStock 3, OutOfStock 3] | Inl _ \<Rightarrow> False"
    by code_simp
  then obtain t where t: "allocate_example = Inr t" "map st_quantity_allocated (sd_stocks t) = [4, 4, 2]"
    "sd_notices t = [OutOfStock 3, OutOfStock 3]"
    by (auto split: sum.splits)
  have dv: "distinct (map line_variant (get_order_lines_with_track_inventory (2024, 3, 1, 0)
      [sample_line 20 1 5, sample_line 21 2 2]))" by code_simp
  from allocate_stocks_consistent [OF bulk_update_law_first_update stock_example_ok(1,2) dv
      t(1) [unfolded allocate_example_def]] stock_example_ok(3)
  have "counters_ok t" "no_oversell t" by blast+
  with t show ?thesis by (intro exI [of _ t] conjI)
qed

text \<open>With the check of reservations the existing allocations are forgotten.\<close>

lemma reserved_allocation_oversells:
  "\<exists>t. allocate_stocks (first_update st_pk) (2024, 3, 1, 0) [sample_line 20 1 9] ''CN'' sample_channel
        None (\<lambda>_. True) True [] stock_example = Inr t
     \<and> no_oversell stock_example \<and> \<not> no_oversell t"
proof -
  have "case allocate_stocks (first_update st_pk) (2024, 3, 1, 0) [sample_line 20 1 9] ''CN'' sample_channel
        None (\<lambda>_. True) True [] stock_example of Inr t \<Rightarrow> \<not> no_oversell t | Inl _ \<Rightarrow> False"
    by code_simp
  then show ?thesis using stock_example_ok(3) by (auto split: sum.splits)
qed

text \<open>Two lines of a variant.\<close>

lemma two_line_allocation_oversells:
  "\<exists>t. allocate_stocks (first_update st_pk) (2024, 3, 1, 0) [sample_line 20 2 2, sample_line 21 2 2] ''CN''
        sample_channel None (\<lambda>_. True) False [] stock_example = Inr t
     \<and> no_oversell stock_example \<and> \<not> no_oversell t \<and> \<not> counters_ok t"
proof -
  have "case allocate_stocks (first_update st_pk) (2024, 3, 1, 0) [sample_line 20 2 2, sample_line 21 2 2] ''CN''
        sample_channel None (\<lambda>_. True) False [] stock_example of
      Inr t \<Rightarrow> \<not> no_oversell t \<and> \<not> counters_ok t | Inl _ \<Rightarrow> False"
    by code_simp
  then show ?thesis using stock_example_ok(3) by (auto split: sum.splits)
qed

text \<open>
  Two ways to allocate more than there is: with the check of reservations a line of 9
  pieces is allocated although 3 of the 9 in stock are allocated already; and two lines of one
  variant are both allocated the same 2 pieces, of which the stored counter counts one.
\<close>

theorem allocations_can_oversell:
  "(\<exists>t. allocate_stocks (first_update st_pk) (2024, 3, 1, 0) [sample_line 20 1 9] ''CN'' sample_channel
        None (\<lambda>_. True) True [] stock_example = Inr t
     \<and> no_oversell stock_example \<and> \<not> no_oversell t)
   \<and> (\<exists>t. allocate_stocks (first_update st_pk) (2024, 3, 1, 0) [sample_line 20 2 2, sample_line 21 2 2] ''CN''
        sample_channel None (\<lambda>_. True) False [] stock_example = Inr t
     \<and> no_oversell stock_example \<and> \<not> no_oversell t \<and> \<not> counters_ok t)"
  using reserved_allocation_oversells two_line_allocation_oversells by blast

subsection \<open>Releasing a whole order\<close>

lemma sum_negatives:
  "\<forall>x \<in> set xs. x < (0 :: int) \<Longrightarrow> sum_list xs = 0 \<longleftrightarrow> xs = []"
proof (induction xs)
  case (Cons x xs)
  have "sum_list ys \<le> 0" if "\<forall>y \<in> set ys. y < (0 :: int)" for ys
    using that by (induction ys) auto
  with Cons.prems have "sum_list (x # xs) < 0" by (simp add: add_neg_nonpos)
  then show ?case by simp
qed simp

lemma first_delta_negatives:
  assumes "\<forall>d \<in> set ds. snd d < 0"
  shows "first_delta ds k = sum_list (deltas_of ds k) \<longleftrightarrow> length (deltas_of ds k) \<le> 1"
proof -
  have "\<forall>x \<in> set (deltas_of ds k). x < 0" using assms by (auto simp: deltas_of_def)
  then show ?thesis
    using sum_negatives by (cases "deltas_of ds k") (auto simp: first_delta_def)
qed

definition released :: "nat list \<Rightarrow> allocation \<Rightarrow> bool" where
  "released lines a \<longleftrightarrow> al_order_line a \<in> set lines \<and> al_quantity a > 0"

lemma stock_allocated_zeroed:
  "stock_allocated (map (\<lambda>a. if p a then a\<lparr>al_quantity := 0\<rparr> else a) als) k
     = stock_allocated als k + sum_list (deltas_of (map (\<lambda>a. (al_stock a, - al_quantity a)) (filter p als)) k)"
  by (induction als) (auto simp: stock_allocated_def)

lemma length_deltas_of_map:
  "length (deltas_of (map (\<lambda>a. (al_stock a, f a)) als) k) = length (filter (\<lambda>a. al_stock a = k) als)"
  by (induction als) auto

lemma deallocate_lines_fully_counters:
  assumes law: "bulk_update_law st_pk bu" and ok: "counters_ok s"
  shows "counters_ok (deallocate_lines_fully bu lines s) \<longleftrightarrow>
    (\<forall>k \<in> st_pk ` set (sd_stocks s).
       length (filter (\<lambda>a. al_stock a = k) (filter (released lines) (sd_allocations s))) \<le> 1)"
proof -
  define als where "als = filter (released lines) (sd_allocations s)"
  define ds where "ds = map (\<lambda>a. (al_stock a, - al_quantity a)) als"
  define new where "new = map (\<lambda>a. if released lines a then a\<lparr>al_quantity := 0\<rparr> else a) (sd_allocations s)"
  have rel: "released lines = (\<lambda>a. al_order_line a \<in> set lines \<and> 0 < al_quantity a)"
    by (simp add: fun_eq_iff released_def)
  obtain ns where t: "deallocate_lines_fully bu lines s =
      (update_allocated bu ds (s\<lparr>sd_allocations := new\<rparr>))\<lparr>sd_notices := ns\<rparr>"
    by (simp add: deallocate_lines_fully_def Let_def ds_def als_def new_def rel)
  have "counters_ok (deallocate_lines_fully bu lines s) =
      counters_ok (update_allocated bu ds (s\<lparr>sd_allocations := new\<rparr>))"
    by (simp add: t counters_ok_def)
  also have "\<dots> \<longleftrightarrow> (\<forall>k \<in> st_pk ` set (sd_stocks s). first_delta ds k = sum_list (deltas_of ds k))"
    by (rule counters_after_update [OF law ok]) (simp add: new_def ds_def als_def stock_allocated_zeroed)
  also have "\<dots> \<longleftrightarrow> (\<forall>k \<in> st_pk ` set (sd_stocks s). length (deltas_of ds k) \<le> 1)"
  proof (intro ball_cong refl first_delta_negatives ballI)
    fix d assume "d \<in> set ds" then show "snd d < 0" by (auto simp: ds_def als_def released_def)
  qed
  finally show ?thesis by (simp add: ds_def als_def length_deltas_of_map)
qed

lemma deallocate_lines_fully_lines:
  assumes "\<forall>a \<in> set (sd_allocations s). al_quantity a \<ge> 0"
  shows "line_allocated (sd_allocations (deallocate_lines_fully bu lines s)) l =
    (if l \<in> set lines then 0 else line_allocated (sd_allocations s) l)"
proof -
  have "\<forall>a \<in> set als. al_quantity a \<ge> 0 \<Longrightarrow>
      line_allocated (map (\<lambda>a. if al_order_line a \<in> set lines \<and> al_quantity a > 0
        then a\<lparr>al_quantity := 0\<rparr> else a) als) l = (if l \<in> set lines then 0 else line_allocated als l)" for als
    by (induction als) (auto simp: line_allocated_def)
  with assms show ?thesis by (simp add: deallocate_lines_fully_def Let_def)
qed

text \<open>
  Cancelling an order's allocations leaves its lines with nothing, and the stored counters
  right exactly when no stock holds two of the released allocations.
\<close>

theorem deallocate_order_counters:
  assumes law: "bulk_update_law st_pk bu" and wf: "stock_wf s" and ok: "counters_ok s"
  shows "(counters_ok (deallocate_stock_for_order bu ord s) \<longleftrightarrow>
      (\<forall>k \<in> st_pk ` set (sd_stocks s). length (filter (\<lambda>a. al_stock a = k \<and> al_quantity a > 0
         \<and> (\<exists>l \<in> set (sd_order_lines s). ol_order l = ord \<and> ol_pk l = al_order_line a))
         (sd_allocations s)) \<le> 1))
    \<and> (\<forall>l \<in> set (sd_order_lines s). ol_order l = ord \<longrightarrow>
         line_allocated (sd_allocations (deallocate_stock_for_order bu ord s)) (ol_pk l) = 0)"
proof -
  let ?lines = "map ol_pk (filter (\<lambda>l. ol_order l = ord) (sd_order_lines s))"
  have "filter (\<lambda>a. al_stock a = k) (filter (released ?lines) als) =
      filter (\<lambda>a. al_stock a = k \<and> al_quantity a > 0
         \<and> (\<exists>l \<in> set (sd_order_lines s). ol_order l = ord \<and> ol_pk l = al_order_line a)) als" for k als
    by (auto simp: released_def intro!: filter_cong)
      (metis (mono_tags, lifting) image_eqI mem_Collect_eq)
  then show ?thesis
    using deallocate_lines_fully_counters [OF law ok, of ?lines]
      deallocate_lines_fully_lines [of s bu ?lines] wf
    by (simp add: deallocate_stock_for_order_def stock_wf_def)
qed

text \<open>Two lines of the cancelled order share a stock: 3 pieces are released, 1 is subtracted.\<close>

lemma deallocate_order_counters_witness:
  "\<not> counters_ok (deallocate_stock_for_order (first_update st_pk) 7 stock_example)
   \<and> map st_quantity_allocated (sd_stocks (deallocate_stock_for_order (first_update st_pk) 7 stock_example)) = [2, 0, 0]"
proof
  have "\<not> (\<forall>k \<in> st_pk ` set (sd_stocks stock_example). length (filter (\<lambda>a. al_stock a = k \<and> al_quantity a > 0
         \<and> (\<exists>l \<in> set (sd_order_lines stock_example). ol_order l = 7 \<and> ol_pk l = al_order_line a))
         (sd_allocations stock_example)) \<le> 1)"
    by code_simp
  with deallocate_order_counters [OF bulk_update_law_first_update stock_example_ok(1,2), of 7]
  show "\<not> counters_ok (deallocate_stock_for_order (first_update st_pk) 7 stock_example)" by blast
  show "map st_quantity_allocated (sd_stocks (deallocate_stock_for_order (first_update st_pk) 7 stock_example)) = [2, 0, 0]"
    by code_simp
qed

subsection \<open>Giving pieces back\<close>

definition pieces_of :: "(nat \<times> nat \<times> int) list \<Rightarrow> nat \<Rightarrow> int" where
  "pieces_of pieces k = sum_list (map (snd \<circ> snd) (filter (\<lambda>p. fst p = k) pieces))"

lemma pieces_of_simps [simp]:
  "pieces_of [] k = 0"
  "pieces_of (p # ps) k = (if fst p = k then snd (snd p) else 0) + pieces_of ps k"
  "pieces_of (ps @ ps') k = pieces_of ps k + pieces_of ps' k"
  by (simp_all add: pieces_of_def)

lemma take_pieces_eq:
  "take_pieces ps als = map (\<lambda>a. a\<lparr>al_quantity := al_quantity a - pieces_of ps (al_pk a)\<rparr>) als"
  by (simp add: take_pieces_def pieces_of_def)

lemma take_pieces_simps [simp]:
  "take_pieces [] als = als"
  "map al_pk (take_pieces ps als) = map al_pk als"
  "take_pieces ps' (take_pieces ps als) = take_pieces (ps @ ps') als"
  by (simp_all add: take_pieces_eq comp_def algebra_simps)

text \<open>Pieces that lie in given allocations: each positive, no allocation gives more than it has.\<close>

definition pieces_in :: "(nat \<times> nat \<times> int) list \<Rightarrow> allocation list \<Rightarrow> bool" where
  "pieces_in ps als \<longleftrightarrow>
     (\<forall>p \<in> set ps. 0 < snd (snd p) \<and> (\<exists>a \<in> set als. al_pk a = fst p \<and> al_stock a = fst (snd p)))
     \<and> (\<forall>a \<in> set als. 0 \<le> pieces_of ps (al_pk a) \<and> pieces_of ps (al_pk a) \<le> al_quantity a)"

lemma pieces_of_outside:
  "pieces_in ps als \<Longrightarrow> k \<notin> al_pk ` set als \<Longrightarrow> pieces_of ps k = 0"
proof -
  assume ps: "pieces_in ps als" and k: "k \<notin> al_pk ` set als"
  have "fst p \<noteq> k" if "p \<in> set ps" for p
    using ps that k unfolding pieces_in_def by (metis image_eqI)
  then have "filter (\<lambda>p. fst p = k) ps = []" by (simp add: filter_empty_conv)
  then show ?thesis by (simp add: pieces_of_def)
qed

lemma deallocation_loop_outcome:
  assumes "deallocation_loop q d als = (ps, t)" "distinct (map al_pk als)"
    "\<forall>a \<in> set als. al_quantity a \<ge> 0"
  shows "pieces_in ps als \<and> t = d + (\<Sum>p\<leftarrow>ps. snd (snd p))"
  using assms
proof (induction als arbitrary: d ps t)
  case (Cons a als)
  let ?q = "min (q - d) (al_quantity a)"
  have fresh: "al_pk a \<notin> al_pk ` set als" using Cons.prems(2) by simp
  show ?case
  proof (cases "?q > 0 \<and> d + ?q \<noteq> q")
    case True
    obtain ps' t' where rec: "deallocation_loop q (d + ?q) als = (ps', t')" by fastforce
    with Cons.prems(1) True have eq: "ps = (al_pk a, al_stock a, ?q) # ps'" "t = t'"
      by (auto simp: Let_def)
    from Cons.IH [OF rec] Cons.prems have ih: "pieces_in ps' als" "t' = d + ?q + (\<Sum>p\<leftarrow>ps'. snd (snd p))"
      by auto
    have z: "pieces_of ps' (al_pk a) = 0" by (rule pieces_of_outside [OF ih(1) fresh])
    have ne: "al_pk a \<noteq> al_pk b" if "b \<in> set als" for b using fresh that by (metis imageI)
    from ih z True show ?thesis by (auto simp: eq pieces_in_def ne)
  next
    case False
    show ?thesis
    proof (cases "?q > 0")
      case True
      have ne: "al_pk a \<noteq> al_pk b" if "b \<in> set als" for b using fresh that by (metis imageI)
      from False True Cons.prems show ?thesis by (auto simp: Let_def pieces_in_def ne)
    next
      case f: False
      then have "deallocation_loop q d (a # als) = deallocation_loop q d als"
        by (simp only: deallocation_loop.simps Let_def if_False)
      with Cons.prems(1) have rec: "deallocation_loop q d als = (ps, t)" by simp
      from Cons.IH [OF rec] Cons.prems have ih: "pieces_in ps als" "t = d + (\<Sum>p\<leftarrow>ps. snd (snd p))"
        by auto
      have z: "pieces_of ps (al_pk a) = 0" by (rule pieces_of_outside [OF ih(1) fresh])
      with ih Cons.prems(3) show ?thesis by (auto simp: pieces_in_def)
    qed
  qed
qed (auto simp: pieces_in_def)

lemma pieces_in_mono:
  assumes "pieces_in ps als" "set als \<subseteq> set als'" "distinct (map al_pk als')" "\<forall>a \<in> set als'. al_quantity a \<ge> 0"
  shows "pieces_in ps als'"
proof -
  have "0 \<le> pieces_of ps (al_pk a) \<and> pieces_of ps (al_pk a) \<le> al_quantity a" if "a \<in> set als'" for a
  proof (cases "al_pk a \<in> al_pk ` set als")
    case True
    then obtain b where b: "b \<in> set als" "al_pk b = al_pk a" by auto
    then have "b = a" using assms(2,3) that by (metis inj_onD distinct_map subsetD)
    with b assms(1) show ?thesis by (auto simp: pieces_in_def)
  next
    case False
    with pieces_of_outside [OF assms(1)] assms(4) that show ?thesis by simp
  qed
  moreover have "0 < snd (snd p) \<and> (\<exists>a \<in> set als'. al_pk a = fst p \<and> al_stock a = fst (snd p))"
    if "p \<in> set ps" for p
    using assms(1,2) that unfolding pieces_in_def by (meson subsetD)
  ultimately show ?thesis unfolding pieces_in_def by blast
qed

lemma pieces_in_append:
  assumes "pieces_in ps als" "pieces_in ps' (take_pieces ps als)"
  shows "pieces_in (ps @ ps') als"
proof -
  have two: "0 \<le> pieces_of ps' (al_pk a) \<and> pieces_of ps' (al_pk a) \<le> al_quantity a - pieces_of ps (al_pk a)"
    if "a \<in> set als" for a
    using assms(2) that by (force simp: pieces_in_def take_pieces_eq)
  have "\<exists>a \<in> set als. al_pk a = fst p \<and> al_stock a = fst (snd p)" "0 < snd (snd p)" if "p \<in> set ps'" for p
    using assms(2) that by (force simp: pieces_in_def take_pieces_eq)+
  with assms(1) two show ?thesis by (fastforce simp: pieces_in_def)
qed

lemma deallocate_lines_outcome:
  assumes "deallocate_lines lines als = (ps, als', failed)" "distinct (map al_pk als)"
    "\<forall>a \<in> set als. al_quantity a \<ge> 0"
  shows "pieces_in ps als \<and> als' = take_pieces ps als"
  using assms
proof (induction lines arbitrary: als ps als' failed)
  case (Cons line lines)
  obtain ps1 d where loop: "deallocation_loop (li_quantity line) 0
      (filter (\<lambda>a. al_order_line a = li_line line) als) = (ps1, d)" by fastforce
  obtain ps2 als2 f2 where rec: "deallocate_lines lines (take_pieces ps1 als) = (ps2, als2, f2)"
    by (metis prod_cases3)
  from Cons.prems(1) loop rec have eq: "ps = ps1 @ ps2" "als' = als2" by auto
  have "pieces_in ps1 (filter (\<lambda>a. al_order_line a = li_line line) als)"
    using deallocation_loop_outcome [OF loop] Cons.prems(2,3) by (simp add: distinct_map_filter)
  then have ps1: "pieces_in ps1 als" by (rule pieces_in_mono) (use Cons.prems in auto)
  then have "\<forall>a \<in> set (take_pieces ps1 als). al_quantity a \<ge> 0"
    by (auto simp: take_pieces_eq pieces_in_def)
  with Cons.IH [OF rec] Cons.prems(2) have "pieces_in ps2 (take_pieces ps1 als)" "als2 = take_pieces ps2 (take_pieces ps1 als)"
    by auto
  with ps1 show ?case by (simp add: eq pieces_in_append)
qed (auto simp: pieces_in_def)

definition piece_deltas :: "(nat \<times> nat \<times> int) list \<Rightarrow> (nat \<times> int) list" where
  "piece_deltas ps = map (\<lambda>(_, k, q). (k, - q)) ps"

lemma stock_allocated_take_pieces:
  assumes "\<forall>p \<in> set ps. \<exists>a \<in> set als. al_pk a = fst p \<and> al_stock a = fst (snd p)"
    and "distinct (map al_pk als)"
  shows "stock_allocated (take_pieces ps als) k = stock_allocated als k + sum_list (deltas_of (piece_deltas ps) k)"
  using assms(1)
proof (induction ps)
  case (Cons p ps)
  obtain pk st q where p: "p = (pk, st, q)" by (cases p)
  from Cons.prems obtain a where a: "a \<in> set als" "al_pk a = pk" "al_stock a = st" by (auto simp: p)
  have one: "stock_allocated (map (\<lambda>a. a\<lparr>al_quantity := al_quantity a - (if pk = al_pk a then q else 0) - pieces_of ps (al_pk a)\<rparr>) bs) k
      = stock_allocated (take_pieces ps bs) k - (if st = k then q else 0)"
    if "distinct (map al_pk bs)" "a \<in> set bs" for bs
    using that
  proof (induction bs)
    case (Cons b bs)
    have none: "stock_allocated (map (\<lambda>a. a\<lparr>al_quantity := al_quantity a - (if pk = al_pk a then q else 0) - pieces_of ps (al_pk a)\<rparr>) cs) k
      = stock_allocated (take_pieces ps cs) k" if "pk \<notin> al_pk ` set cs" for cs
      using that by (induction cs) (auto simp: stock_allocated_def take_pieces_eq)
    show ?case
    proof (cases "b = a")
      case True
      with Cons.prems a have "pk \<notin> al_pk ` set bs" by auto
      from none [OF this] True a show ?thesis by (auto simp: stock_allocated_def take_pieces_eq)
    next
      case False
      with Cons.prems a have "pk \<noteq> al_pk b" by (auto simp: image_iff)
      with Cons False show ?thesis by (auto simp: stock_allocated_def take_pieces_eq)
    qed
  qed simp
  have "take_pieces (p # ps) als =
      map (\<lambda>a. a\<lparr>al_quantity := al_quantity a - (if pk = al_pk a then q else 0) - pieces_of ps (al_pk a)\<rparr>) als"
    by (simp add: take_pieces_eq p algebra_simps)
  then have "stock_allocated (take_pieces (p # ps) als) k =
      stock_allocated (take_pieces ps als) k - (if st = k then q else 0)"
    using one [OF assms(2) a(1)] by simp
  with Cons show ?case by (simp add: piece_deltas_def p)
qed (simp add: piece_deltas_def)

lemma deallocate_stock_outcome:
  assumes wf: "stock_wf s" and run: "deallocate_stock bu lines s = (failed, t)"
  obtains ps ns where "pieces_in ps (sd_allocations s)"
    "t = (update_allocated bu (piece_deltas ps) (s\<lparr>sd_allocations := take_pieces ps (sd_allocations s)\<rparr>))\<lparr>sd_notices := ns\<rparr>"
    "failed = snd (snd (deallocate_lines lines (sort_key al_stock
        (filter (\<lambda>a. al_order_line a \<in> set (map li_line lines)) (sd_allocations s)))))"
    "ps = fst (deallocate_lines lines (sort_key al_stock
        (filter (\<lambda>a. al_order_line a \<in> set (map li_line lines)) (sd_allocations s))))"
proof -
  let ?als = "sd_allocations s"
  define own where "own = sort_key al_stock (filter (\<lambda>a. al_order_line a \<in> set (map li_line lines)) ?als)"
  have nonneg: "\<forall>a \<in> set ?als. al_quantity a \<ge> 0" and d: "distinct (map al_pk ?als)"
    using wf by (auto simp: stock_wf_def)
  have sub: "set own \<subseteq> set ?als" by (auto simp: own_def)
  have d_own: "distinct (map al_pk own)"
    using d by (simp add: own_def distinct_map) (auto intro: inj_on_subset)
  obtain ps als' f where dl: "deallocate_lines lines own = (ps, als', f)" by (metis prod_cases3)
  have out: "pieces_in ps own" "als' = take_pieces ps own"
    using deallocate_lines_outcome [OF dl d_own] nonneg sub by auto
  have pin: "pieces_in ps ?als" by (rule pieces_in_mono [OF out(1) sub d nonneg])
  have new: "map (\<lambda>a. if al_pk a \<in> set (map fst ps)
        then (case row_of al_pk (al_pk a) als' of None \<Rightarrow> a | Some a' \<Rightarrow> a\<lparr>al_quantity := al_quantity a'\<rparr>)
        else a) ?als = take_pieces ps ?als"
    unfolding take_pieces_eq
  proof (rule map_cong [OF refl])
    fix a assume a: "a \<in> set ?als"
    show "(if al_pk a \<in> set (map fst ps)
        then (case row_of al_pk (al_pk a) als' of None \<Rightarrow> a | Some a' \<Rightarrow> a\<lparr>al_quantity := al_quantity a'\<rparr>)
        else a) = a\<lparr>al_quantity := al_quantity a - pieces_of ps (al_pk a)\<rparr>"
    proof (cases "al_pk a \<in> set (map fst ps)")
      case True
      then obtain p where "p \<in> set ps" "fst p = al_pk a" by auto
      with out(1) obtain b where b: "b \<in> set own" "al_pk b = al_pk a" unfolding pieces_in_def by metis
      with sub d a have "b = a" by (metis inj_onD distinct_map subsetD)
      with b d_own have "row_of al_pk (al_pk a) own = Some a" by (simp add: row_of_eq_Some)
      then have "row_of al_pk (al_pk a) als' = Some (a\<lparr>al_quantity := al_quantity a - pieces_of ps (al_pk a)\<rparr>)"
        by (simp add: out(2) take_pieces_eq row_of_map)
      with True show ?thesis by simp
    next
      case False
      then have "filter (\<lambda>p. fst p = al_pk a) ps = []" by (auto simp: filter_empty_conv image_iff)
      then have "pieces_of ps (al_pk a) = 0" by (simp add: pieces_of_def)
      with False show ?thesis by simp
    qed
  qed
  obtain ns where t: "t = (update_allocated bu (piece_deltas ps) (s\<lparr>sd_allocations := take_pieces ps ?als\<rparr>))\<lparr>sd_notices := ns\<rparr>"
    and f: "failed = f"
    using run unfolding deallocate_stock_def Let_def own_def [symmetric] dl prod.case new piece_deltas_def
    by auto
  show ?thesis
    by (rule that [OF pin t]) (simp_all only: f own_def [symmetric] dl fst_conv snd_conv)
qed

lemma deltas_of_pieces_nonpos:
  "\<forall>p \<in> set ps. 0 < snd (snd p) \<Longrightarrow> sum_list (deltas_of (piece_deltas ps) k) \<le> 0"
  by (induction ps) (auto simp: piece_deltas_def)

text \<open>What an operation on allocations leaves of a stock: all but its counter.\<close>

definition stock_head :: "stock \<Rightarrow> nat \<times> nat \<times> nat \<times> int" where
  "stock_head st = (st_pk st, st_warehouse st, st_variant st, st_quantity st)"

lemma deallocate_stock_frame:
  assumes law: "bulk_update_law st_pk bu" and wf: "stock_wf s" and run: "deallocate_stock bu lines s = (failed, t)"
  shows "stock_wf t" "map stock_head (sd_stocks t) = map stock_head (sd_stocks s)"
    "stock_allocated (sd_allocations t) k \<le> stock_allocated (sd_allocations s) k"
    "map (\<lambda>a. (al_pk a, al_stock a)) (sd_allocations t) = map (\<lambda>a. (al_pk a, al_stock a)) (sd_allocations s)"
proof -
  from wf run obtain ps ns where ps: "pieces_in ps (sd_allocations s)"
    and t: "t = (update_allocated bu (piece_deltas ps) (s\<lparr>sd_allocations := take_pieces ps (sd_allocations s)\<rparr>))\<lparr>sd_notices := ns\<rparr>"
    by (rule deallocate_stock_outcome)
  show "map (\<lambda>a. (al_pk a, al_stock a)) (sd_allocations t) = map (\<lambda>a. (al_pk a, al_stock a)) (sd_allocations s)"
    by (simp add: t take_pieces_eq)
  have stocks: "sd_stocks t = map (\<lambda>st. st\<lparr>st_quantity_allocated := st_quantity_allocated st
      + first_delta (piece_deltas ps) (st_pk st)\<rparr>) (sd_stocks s)"
    by (simp add: t update_allocated_stocks [OF law])
  then show "map stock_head (sd_stocks t) = map stock_head (sd_stocks s)"
    by (simp add: stock_head_def)
  have "\<forall>a \<in> set (take_pieces ps (sd_allocations s)). al_quantity a \<ge> 0"
    using ps by (auto simp: take_pieces_eq pieces_in_def)
  then show "stock_wf t" using wf by (simp add: stock_wf_def stocks comp_def) (simp add: t)
  have "\<forall>p \<in> set ps. \<exists>a \<in> set (sd_allocations s). al_pk a = fst p \<and> al_stock a = fst (snd p)"
    "\<forall>p \<in> set ps. 0 < snd (snd p)" using ps by (auto simp: pieces_in_def)
  with stock_allocated_take_pieces [OF this(1)] deltas_of_pieces_nonpos [OF this(2)] wf
  show "stock_allocated (sd_allocations t) k \<le> stock_allocated (sd_allocations s) k"
    by (simp add: t stock_wf_def)
qed

end
