(* ===== verification/StockMoves.thy ===== *)
theory StockMoves
  imports StockLaws "HOL-Library.Multiset"
begin

section \<open>Moving quantities and ending preorders\<close>

text \<open>
  The operations that change what a stock holds: fulfilling lines (\<open>decrease_stock\<close>),
  returning or restocking (\<open>increase_stock\<close>), and the operations on preorders, whose
  thresholds bound what may be promised before there is any stock.
\<close>

subsection \<open>Taking quantities\<close>

definition line_stock :: "(nat \<Rightarrow> nat \<Rightarrow> stock option) \<Rightarrow> line_info \<Rightarrow> nat option" where
  "line_stock find_stock i =
     (case li_warehouse i of None \<Rightarrow> None | Some w \<Rightarrow> map_option st_pk (find_stock (line_variant i) w))"

definition taken_by :: "(line_info \<Rightarrow> bool) \<Rightarrow> line_info list \<Rightarrow> int" where
  "taken_by p lines = sum_list (map li_quantity (filter p lines))"

lemma taken_by_simps [simp]:
  "taken_by p [] = 0"
  "taken_by p (i # lines) = (if p i then li_quantity i else 0) + taken_by p lines"
  by (simp_all add: taken_by_def)

lemma decrease_quantities_outcome:
  assumes "decrease_quantities lines fs al False m = ([], touched, m')"
  shows "m' k = m k - taken_by (\<lambda>i. line_stock fs i = Some k) lines
    \<and> (k \<in> set touched \<longrightarrow> al k \<le> m' k)
    \<and> (k \<in> set touched \<longleftrightarrow> Some k \<in> line_stock fs ` set lines)
    \<and> None \<notin> line_stock fs ` set lines"
  using assms
proof (induction lines arbitrary: m touched m')
  case (Cons i lines)
  show ?case
  proof (cases "case li_warehouse i of None \<Rightarrow> None | Some w \<Rightarrow> fs (line_variant i) w")
    case None
    with Cons.prems show ?thesis by (auto split: prod.splits)
  next
    case (Some st)
    then have ls: "line_stock fs i = Some (st_pk st)" by (auto simp: line_stock_def split: option.splits)
    from Cons.prems Some have enough: "li_quantity i \<le> m (st_pk st) - al (st_pk st)"
      by (auto split: prod.splits if_splits)
    with Cons.prems Some obtain ts where rec: "decrease_quantities lines fs al False
        (m(st_pk st := m (st_pk st) - li_quantity i)) = ([], ts, m')" and touched: "touched = st_pk st # ts"
      by (auto split: prod.splits if_splits)
    from Cons.IH [OF rec] have ih: "m' k = (m(st_pk st := m (st_pk st) - li_quantity i)) k
        - taken_by (\<lambda>i. line_stock fs i = Some k) lines"
      "k \<in> set ts \<longrightarrow> al k \<le> m' k" "k \<in> set ts \<longleftrightarrow> Some k \<in> line_stock fs ` set lines"
      "None \<notin> line_stock fs ` set lines" by blast+
    have none: "taken_by (\<lambda>i. line_stock fs i = Some k) lines = 0" if "k \<notin> set ts"
    proof -
      have "filter (\<lambda>i. line_stock fs i = Some k) lines = []"
        using that ih(3) by (force simp: filter_empty_conv image_iff)
      then show ?thesis by (simp add: taken_by_def)
    qed
    show ?thesis
    proof (cases "k \<in> set ts")
      case True
      with ih show ?thesis by (auto simp: ls touched)
    next
      case False
      with ih none [OF False] enough show ?thesis by (auto simp: ls touched)
    qed
  qed
qed auto

text \<open>One stock per warehouse and variant, as the table's \<open>unique_together\<close> has it.\<close>

definition one_stock_each :: "stock_db \<Rightarrow> bool" where
  "one_stock_each s \<longleftrightarrow> distinct (map (\<lambda>st. (st_warehouse st, st_variant st)) (sd_stocks s))"

lemma stock_heads_agree:
  assumes heads: "map stock_head xs = map stock_head ys" and x: "x \<in> set xs"
  obtains y where "y \<in> set ys" "stock_head y = stock_head x"
proof -
  have "stock_head x \<in> stock_head ` set ys" using x heads by (metis image_eqI image_set)
  then show ?thesis using that by force
qed

lemma maps_of_heads:
  assumes "map stock_head xs = map stock_head ys"
  shows "map st_pk xs = map st_pk ys" "map st_quantity xs = map st_quantity ys"
    "map (\<lambda>st. (st_warehouse st, st_variant st)) xs = map (\<lambda>st. (st_warehouse st, st_variant st)) ys"
proof -
  show "map st_pk xs = map st_pk ys"
    using arg_cong [OF assms, of "map fst"] by (simp add: comp_def stock_head_def)
  show "map st_quantity xs = map st_quantity ys"
    using arg_cong [OF assms, of "map (snd \<circ> snd \<circ> snd)"] by (simp add: comp_def stock_head_def)
  show "map (\<lambda>st. (st_warehouse st, st_variant st)) xs = map (\<lambda>st. (st_warehouse st, st_variant st)) ys"
    using arg_cong [OF assms, of "map (\<lambda>h. (fst (snd h), fst (snd (snd h))))"] by (simp add: comp_def stock_head_def)
qed

text \<open>Clearing what is left of the lines that could not be deallocated.\<close>

definition clear_lines :: "nat list \<Rightarrow> allocation list \<Rightarrow> allocation list" where
  "clear_lines failed als = map (\<lambda>a. if al_order_line a \<in> set failed then a\<lparr>al_quantity := 0\<rparr> else a) als"

lemma clear_lines_laws:
  assumes "\<forall>a \<in> set als. al_quantity a \<ge> 0"
  shows "stock_allocated (clear_lines failed als) k \<le> stock_allocated als k"
    "\<forall>a \<in> set (clear_lines failed als). al_quantity a \<ge> 0"
    "map al_pk (clear_lines failed als) = map al_pk als"
  using assms by (induction als) (auto simp: clear_lines_def stock_allocated_def)

text \<open>The state in which \<open>decrease_stock\<close> checks and takes the quantities.\<close>

definition after_deallocation :: "stock_bulk_update \<Rightarrow> line_info list \<Rightarrow> stock_db \<Rightarrow> stock_db" where
  "after_deallocation bu lines s = (case deallocate_stock bu lines s of (failed, s1) \<Rightarrow>
     s1\<lparr>sd_allocations := clear_lines failed (sd_allocations s1)\<rparr>)"

lemma after_deallocation_laws:
  assumes law: "bulk_update_law st_pk bu" and wf: "stock_wf s"
  shows "stock_wf (after_deallocation bu lines s)"
    "map stock_head (sd_stocks (after_deallocation bu lines s)) = map stock_head (sd_stocks s)"
    "stock_allocated (sd_allocations (after_deallocation bu lines s)) k \<le> stock_allocated (sd_allocations s) k"
proof -
  obtain failed s1 where run: "deallocate_stock bu lines s = (failed, s1)" by fastforce
  note frame = deallocate_stock_frame [OF law wf run]
  have "\<forall>a \<in> set (sd_allocations s1). al_quantity a \<ge> 0" using frame(1) by (simp add: stock_wf_def)
  note clear = clear_lines_laws [OF this, of failed]
  show "stock_wf (after_deallocation bu lines s)"
    using frame(1) clear by (simp add: after_deallocation_def run stock_wf_def)
  show "map stock_head (sd_stocks (after_deallocation bu lines s)) = map stock_head (sd_stocks s)"
    using frame(2) by (simp add: after_deallocation_def run)
  show "stock_allocated (sd_allocations (after_deallocation bu lines s)) k \<le> stock_allocated (sd_allocations s) k"
    using frame(3) [of k] clear(1) [of k] by (simp add: after_deallocation_def run)
qed

lemma decrease_stock_without_update:
  "decrease_stock bu lines False exceed s = Inr (after_deallocation bu lines s)"
  by (simp add: decrease_stock_def after_deallocation_def clear_lines_def split: prod.split)

text \<open>The stock of a line among the rows read: the last one, as a dictionary keeps it.\<close>

definition last_stock :: "stock list \<Rightarrow> nat \<Rightarrow> nat \<Rightarrow> stock option" where
  "last_stock stocks = (\<lambda>v w. find (\<lambda>st. st_variant st = v \<and> st_warehouse st = w) (rev stocks))"

lemma line_stock_found:
  "line_stock (last_stock stocks) i = Some k \<Longrightarrow>
     \<exists>st \<in> set stocks. st_pk st = k \<and> li_warehouse i = Some (st_warehouse st) \<and> line_variant i = st_variant st"
proof -
  assume "line_stock (last_stock stocks) i = Some k"
  then obtain w st where "li_warehouse i = Some w" "last_stock stocks (line_variant i) w = Some st" "st_pk st = k"
    by (auto simp: line_stock_def split: option.splits)
  then show ?thesis by (fastforce simp: last_stock_def dest: find_SomeD)
qed

lemma line_stock_iff:
  assumes sub: "set stocks \<subseteq> set rows" and d: "distinct (map st_pk rows)"
    and each: "distinct (map (\<lambda>st. (st_warehouse st, st_variant st)) rows)"
    and some: "line_stock (last_stock stocks) i \<noteq> None" and st: "st \<in> set rows"
  shows "line_stock (last_stock stocks) i = Some (st_pk st) \<longleftrightarrow>
      li_warehouse i = Some (st_warehouse st) \<and> line_variant i = st_variant st"
proof -
  from some obtain k where k: "line_stock (last_stock stocks) i = Some k" by auto
  from line_stock_found [OF k] sub obtain st' where st': "st' \<in> set rows" "st_pk st' = k"
    "li_warehouse i = Some (st_warehouse st')" "line_variant i = st_variant st'" by blast
  have "st' = st" if "st_pk st' = st_pk st"
    using d st'(1) st that by (metis inj_onD distinct_map)
  moreover have "st' = st" if "st_warehouse st' = st_warehouse st" "st_variant st' = st_variant st"
    using each st'(1) st that by (auto simp: distinct_map dest!: inj_onD)
  ultimately show ?thesis using k st' by auto
qed

lemma quantity_taken:
  assumes q: "decrease_quantities lines (last_stock stocks) al False
       (\<lambda>k. case row_of st_pk k stocks of None \<Rightarrow> 0 | Some st \<Rightarrow> st_quantity st) = ([], touched, m')"
    and sub: "set stocks \<subseteq> set rows" and dst: "distinct (map st_pk stocks)" and d: "distinct (map st_pk rows)"
    and each: "distinct (map (\<lambda>st. (st_warehouse st, st_variant st)) rows)" and st: "st \<in> set rows"
  shows "(if st_pk st \<in> set touched then m' (st_pk st) else st_quantity st) = st_quantity st
      - taken_by (\<lambda>i. li_warehouse i = Some (st_warehouse st) \<and> line_variant i = st_variant st) lines"
    "st_pk st \<in> set touched \<Longrightarrow> st \<in> set stocks \<and> al (st_pk st) \<le> m' (st_pk st)"
proof -
  note out = decrease_quantities_outcome [OF q, of "st_pk st"]
  have "line_stock (last_stock stocks) i \<noteq> None" if "i \<in> set lines" for i using out that by (metis image_eqI)
  from line_stock_iff [OF sub d each this st]
  have same: "taken_by (\<lambda>i. line_stock (last_stock stocks) i = Some (st_pk st)) lines =
      taken_by (\<lambda>i. li_warehouse i = Some (st_warehouse st) \<and> line_variant i = st_variant st) lines"
    by (simp add: taken_by_def cong: filter_cong)
  have mem: "st \<in> set stocks" if touched: "st_pk st \<in> set touched"
  proof -
    from touched out obtain i where "i \<in> set lines" "line_stock (last_stock stocks) i = Some (st_pk st)" by force
    with line_stock_found sub d st show ?thesis by (metis inj_onD distinct_map subsetD)
  qed
  then show "st_pk st \<in> set touched \<Longrightarrow> st \<in> set stocks \<and> al (st_pk st) \<le> m' (st_pk st)" using out by blast
  show "(if st_pk st \<in> set touched then m' (st_pk st) else st_quantity st) = st_quantity st
      - taken_by (\<lambda>i. li_warehouse i = Some (st_warehouse st) \<and> line_variant i = st_variant st) lines"
  proof (cases "st_pk st \<in> set touched")
    case True
    with mem dst have "row_of st_pk (st_pk st) stocks = Some st" by (simp add: row_of_eq_Some)
    with True out same show ?thesis by simp
  next
    case False
    with out have "Some (st_pk st) \<notin> line_stock (last_stock stocks) ` set lines" by simp
    then have "filter (\<lambda>i. line_stock (last_stock stocks) i = Some (st_pk st)) lines = []"
      by (force simp: filter_empty_conv image_iff)
    then have "taken_by (\<lambda>i. line_stock (last_stock stocks) i = Some (st_pk st)) lines = 0"
      by (simp add: taken_by_def)
    with False same show ?thesis by simp
  qed
qed

lemma decrease_stock_run:
  assumes law: "bulk_update_law st_pk bu" and run: "decrease_stock bu lines True False s = Inr t"
  obtains stocks touched m' where
    "set stocks \<subseteq> set (sd_stocks (after_deallocation bu lines s))"
    "decrease_quantities lines (last_stock stocks)
       (quantity_allocation_for_stocks (map st_pk stocks) (sd_allocations (after_deallocation bu lines s))) False
       (\<lambda>k. case row_of st_pk k stocks of None \<Rightarrow> 0 | Some st \<Rightarrow> st_quantity st) = ([], touched, m')"
    "distinct (map st_pk (sd_stocks (after_deallocation bu lines s))) \<longrightarrow> distinct (map st_pk stocks)"
    "sd_allocations t = sd_allocations (after_deallocation bu lines s)"
    "sd_stocks t = map (\<lambda>st. if st_pk st \<in> set touched then st\<lparr>st_quantity := m' (st_pk st)\<rparr> else st)
       (sd_stocks (after_deallocation bu lines s))"
proof -
  let ?a = "after_deallocation bu lines s"
  obtain failed s1 where d: "deallocate_stock bu lines s = (failed, s1)" by fastforce
  have a: "?a = s1\<lparr>sd_allocations := clear_lines failed (sd_allocations s1)\<rparr>"
    by (simp add: after_deallocation_def d)
  define stocks where "stocks = filter (\<lambda>st. st_variant st \<in> set (List.map_filter (\<lambda>i. map_option va_pk (li_variant i)) lines)
      \<and> Some (st_warehouse st) \<in> set (map li_warehouse lines)) (sd_stocks ?a)"
  obtain ins touched m' where q: "decrease_quantities lines
      (last_stock stocks)
      (quantity_allocation_for_stocks (map st_pk stocks) (sd_allocations ?a)) False
      (\<lambda>k. case row_of st_pk k stocks of None \<Rightarrow> 0 | Some st \<Rightarrow> st_quantity st) = (ins, touched, m')"
    by (metis prod_cases3)
  note run' = run [unfolded decrease_stock_def Let_def d prod.case clear_lines_def [symmetric],
      folded last_stock_def, folded a, folded stocks_def, unfolded q prod.case]
  from run' have ins: "ins = []" by (auto split: if_splits)
  from run' obtain ns where t: "t = ?a\<lparr>sd_stocks := bu (map (\<lambda>k. (k, \<lambda>st. st\<lparr>st_quantity := m' k\<rparr>)) touched)
      (sd_stocks ?a), sd_notices := ns\<rparr>"
    by (auto split: if_splits)
  have m: "map_of (map (\<lambda>k. (k, \<lambda>st. st\<lparr>st_quantity := m' k\<rparr>)) touched) k =
      (if k \<in> set touched then Some (\<lambda>st. st\<lparr>st_quantity := m' k\<rparr>) else None)" for k
    by (induction touched) auto
  have st: "sd_stocks t = map (\<lambda>st. if st_pk st \<in> set touched then st\<lparr>st_quantity := m' (st_pk st)\<rparr> else st) (sd_stocks ?a)"
    by (auto simp: t bulk_update_lawD [OF law] first_update_def m)
  show ?thesis
    by (rule that [OF _ q [unfolded ins] _ _ st]) (auto simp: stocks_def t distinct_map_filter)
qed

lemma decrease_stock_keeps:
  assumes law: "bulk_update_law st_pk bu" and wf: "stock_wf s" and one: "one_stock_each s"
    and run: "decrease_stock bu lines True False s = Inr t"
  shows "map st_quantity (sd_stocks t) = map (\<lambda>st. st_quantity st
      - taken_by (\<lambda>i. li_warehouse i = Some (st_warehouse st) \<and> line_variant i = st_variant st) lines) (sd_stocks s)"
    "no_oversell s \<Longrightarrow> no_oversell t"
    "sd_allocations t = sd_allocations (after_deallocation bu lines s)"
    "map (\<lambda>st. (st_pk st, st_warehouse st, st_variant st)) (sd_stocks t)
       = map (\<lambda>st. (st_pk st, st_warehouse st, st_variant st)) (sd_stocks s)"
proof -
  let ?a = "after_deallocation bu lines s"
  from law run obtain stocks touched m' where sub: "set stocks \<subseteq> set (sd_stocks ?a)"
    and q: "decrease_quantities lines (last_stock stocks)
       (quantity_allocation_for_stocks (map st_pk stocks) (sd_allocations ?a)) False
       (\<lambda>k. case row_of st_pk k stocks of None \<Rightarrow> 0 | Some st \<Rightarrow> st_quantity st) = ([], touched, m')"
    and dst: "distinct (map st_pk (sd_stocks ?a)) \<longrightarrow> distinct (map st_pk stocks)"
    and tal: "sd_allocations t = sd_allocations ?a"
    and tst: "sd_stocks t = map (\<lambda>st. if st_pk st \<in> set touched then st\<lparr>st_quantity := m' (st_pk st)\<rparr> else st) (sd_stocks ?a)"
    by (rule decrease_stock_run)
  note laws = after_deallocation_laws [OF law wf, of lines]
  note heads = maps_of_heads [OF laws(2)]
  have d: "distinct (map st_pk (sd_stocks ?a))" "\<forall>a \<in> set (sd_allocations ?a). al_quantity a \<ge> 0"
    using laws(1) by (auto simp: stock_wf_def)
  have "distinct (map (\<lambda>st. (st_warehouse st, st_variant st)) (sd_stocks ?a))"
    using one heads(3) by (simp add: one_stock_each_def)
  note taken = quantity_taken [OF q sub _ d(1) this]
  have "map st_quantity (sd_stocks t) = map (\<lambda>st. st_quantity st
      - taken_by (\<lambda>i. li_warehouse i = Some (st_warehouse st) \<and> line_variant i = st_variant st) lines) (sd_stocks ?a)"
    using taken(1) dst d(1) by (simp add: tst comp_def if_distrib [of st_quantity] cong: if_cong)
  also have "\<dots> = map (\<lambda>st. st_quantity st
      - taken_by (\<lambda>i. li_warehouse i = Some (st_warehouse st) \<and> line_variant i = st_variant st) lines) (sd_stocks s)"
    using arg_cong [OF laws(2), of "map (\<lambda>(_, w, v, n). n - taken_by (\<lambda>i. li_warehouse i = Some w \<and> line_variant i = v) lines)"]
    by (simp add: comp_def stock_head_def)
  finally show "map st_quantity (sd_stocks t) = map (\<lambda>st. st_quantity st
      - taken_by (\<lambda>i. li_warehouse i = Some (st_warehouse st) \<and> line_variant i = st_variant st) lines) (sd_stocks s)" .
  show "sd_allocations t = sd_allocations ?a" by (rule tal)
  have "map (\<lambda>st. (st_pk st, st_warehouse st, st_variant st)) (sd_stocks ?a)
      = map (\<lambda>st. (st_pk st, st_warehouse st, st_variant st)) (sd_stocks s)"
    using arg_cong [OF laws(2), of "map (\<lambda>(k, w, v, n). (k, w, v))"] by (simp add: comp_def stock_head_def)
  then show "map (\<lambda>st. (st_pk st, st_warehouse st, st_variant st)) (sd_stocks t)
      = map (\<lambda>st. (st_pk st, st_warehouse st, st_variant st)) (sd_stocks s)"
    by (simp add: tst comp_def if_distrib [of st_pk] if_distrib [of st_warehouse] if_distrib [of st_variant] cong: if_cong)
  show "no_oversell t" if "no_oversell s"
    unfolding no_oversell_def tal
  proof
    fix st' assume "st' \<in> set (sd_stocks t)"
    then obtain st where st: "st \<in> set (sd_stocks ?a)"
      "st' = (if st_pk st \<in> set touched then st\<lparr>st_quantity := m' (st_pk st)\<rparr> else st)" by (auto simp: tst)
    show "stock_allocated (sd_allocations ?a) (st_pk st') \<le> st_quantity st'"
    proof (cases "st_pk st \<in> set touched")
      case True
      with taken(2) [OF _ st(1)] dst d(1) have "st \<in> set stocks"
        "quantity_allocation_for_stocks (map st_pk stocks) (sd_allocations ?a) (st_pk st) \<le> m' (st_pk st)" by blast+
      with True st d(2) show ?thesis
        by (simp add: quantity_allocation_for_stocks_def positive_allocated_eq)
    next
      case False
      from stock_heads_agree [OF laws(2) st(1)] obtain y where "y \<in> set (sd_stocks s)" "stock_head y = stock_head st" .
      with that laws(3) [of "st_pk st"] False st(2) show ?thesis
        by (force simp: no_oversell_def stock_head_def)
    qed
  qed
qed

text \<open>
  C36: a decrease that writes the stocks and may not exceed them, when it succeeds, takes from
  each stock exactly the quantities of the lines that name its warehouse and variant; and if no
  stock had more allocated than it held, none has afterwards
\<close>

theorem decrease_stock_takes_quantities:
  assumes law: "bulk_update_law st_pk bu" and wf: "stock_wf s" and one: "one_stock_each s"
    and run: "decrease_stock bu lines True False s = Inr t"
  shows "map st_quantity (sd_stocks t) = map (\<lambda>st. st_quantity st
      - taken_by (\<lambda>i. li_warehouse i = Some (st_warehouse st) \<and> line_variant i = st_variant st) lines) (sd_stocks s)
    \<and> (no_oversell s \<longrightarrow> no_oversell t)"
  using decrease_stock_keeps [OF law wf one run] by blast

definition decrease_example :: "stock_error + stock_db" where
  "decrease_example = decrease_stock (first_update st_pk)
     [sample_line 10 1 2, sample_line 11 1 1] True False stock_example"

lemma stock_example_one_each: "one_stock_each stock_example"
  by code_simp

lemma decrease_stock_takes_quantities_witness:
  "\<exists>t. decrease_example = Inr t \<and> map st_quantity (sd_stocks t) = [2, 4, 2] \<and> no_oversell t
     \<and> map al_quantity (sd_allocations t) = [0, 1]"
proof -
  have "case decrease_example of Inr t \<Rightarrow> map al_quantity (sd_allocations t) = [0, 1] | Inl _ \<Rightarrow> False"
    by code_simp
  then obtain t where t: "decrease_example = Inr t" "map al_quantity (sd_allocations t) = [0, 1]"
    by (auto split: sum.splits)
  have "map (\<lambda>st. st_quantity st - taken_by (\<lambda>i. li_warehouse i = Some (st_warehouse st) \<and> line_variant i = st_variant st)
      [sample_line 10 1 2, sample_line 11 1 1]) (sd_stocks stock_example) = [2, 4, 2]"
    by code_simp
  with decrease_stock_takes_quantities [OF bulk_update_law_first_update stock_example_ok(1) stock_example_one_each
      t(1) [unfolded decrease_example_def]] stock_example_ok(3) t
  show ?thesis by auto
qed

subsection \<open>Adding quantities\<close>

definition allocations_have_stock :: "stock_db \<Rightarrow> bool" where
  "allocations_have_stock s \<longleftrightarrow> (\<forall>a \<in> set (sd_allocations s). al_stock a \<in> st_pk ` set (sd_stocks s))"

lemma next_stock_pk_fresh: "next_stock_pk sts \<notin> st_pk ` set sts"
proof
  assume "next_stock_pk sts \<in> st_pk ` set sts"
  then have "next_stock_pk sts \<in> set (map st_pk sts)" by simp
  then have "next_stock_pk sts \<le> sum_list (map st_pk sts)" by (rule member_le_sum_list) simp
  then show False by (simp add: next_stock_pk_def)
qed

lemma stock_allocated_none:
  "\<forall>a \<in> set als. al_stock a \<noteq> k \<Longrightarrow> stock_allocated als k = 0"
  by (induction als) (auto simp: stock_allocated_def)

definition allocate_more :: "nat \<Rightarrow> nat \<Rightarrow> int \<Rightarrow> allocation list \<Rightarrow> allocation list" where
  "allocate_more line k q als =
     (case find (\<lambda>a. al_order_line a = line \<and> al_stock a = k) als of
        Some a \<Rightarrow> save_row al_pk (al_pk a) (\<lambda>a. a\<lparr>al_quantity := al_quantity a + q\<rparr>) als
      | None \<Rightarrow> als @ [\<lparr>al_pk = next_allocation_pk als, al_order_line = line, al_stock = k, al_quantity = q\<rparr>])"

lemma save_allocation_sums:
  assumes "distinct (map al_pk als)" "a \<in> set als"
  shows "stock_allocated (save_row al_pk (al_pk a) (\<lambda>a. a\<lparr>al_quantity := al_quantity a + q\<rparr>) als) k
      = stock_allocated als k + (if k = al_stock a then q else 0)"
    "line_allocated (save_row al_pk (al_pk a) (\<lambda>a. a\<lparr>al_quantity := al_quantity a + q\<rparr>) als) l
      = line_allocated als l + (if l = al_order_line a then q else 0)"
proof -
  have same: "save_row al_pk (al_pk a) (\<lambda>a. a\<lparr>al_quantity := al_quantity a + q\<rparr>) bs = bs"
    if "al_pk a \<notin> al_pk ` set bs" for bs
    using that by (induction bs) (auto simp: save_row_def)
  have "stock_allocated (save_row al_pk (al_pk a) (\<lambda>a. a\<lparr>al_quantity := al_quantity a + q\<rparr>) als) k
      = stock_allocated als k + (if k = al_stock a then q else 0)
    \<and> line_allocated (save_row al_pk (al_pk a) (\<lambda>a. a\<lparr>al_quantity := al_quantity a + q\<rparr>) als) l
      = line_allocated als l + (if l = al_order_line a then q else 0)"
    using assms
  proof (induction als)
    case (Cons b als)
    show ?case
    proof (cases "a = b")
      case True
      with Cons.prems same [of als] show ?thesis
        by (auto simp: save_row_def stock_allocated_def line_allocated_def)
    next
      case False
      with Cons.prems have "al_pk b \<noteq> al_pk a" by (auto simp: image_iff)
      with False Cons show ?thesis by (auto simp: save_row_def stock_allocated_def line_allocated_def)
    qed
  qed simp
  then show "stock_allocated (save_row al_pk (al_pk a) (\<lambda>a. a\<lparr>al_quantity := al_quantity a + q\<rparr>) als) k
      = stock_allocated als k + (if k = al_stock a then q else 0)"
    "line_allocated (save_row al_pk (al_pk a) (\<lambda>a. a\<lparr>al_quantity := al_quantity a + q\<rparr>) als) l
      = line_allocated als l + (if l = al_order_line a then q else 0)" by blast+
qed

lemma allocate_more_sums:
  assumes "distinct (map al_pk als)"
  shows "stock_allocated (allocate_more line k q als) k' = stock_allocated als k' + (if k' = k then q else 0)"
    "line_allocated (allocate_more line k q als) l = line_allocated als l + (if l = line then q else 0)"
proof -
  show "stock_allocated (allocate_more line k q als) k' = stock_allocated als k' + (if k' = k then q else 0)"
    "line_allocated (allocate_more line k q als) l = line_allocated als l + (if l = line then q else 0)"
    using save_allocation_sums [OF assms]
    by (auto simp: allocate_more_def stock_allocated_def [of "[_]"] line_allocated_def [of "[_]"] split: option.splits
        dest: find_SomeD)
qed

text \<open>The stock a quantity goes to, and the stocks afterwards.\<close>

definition restocked :: "nat \<Rightarrow> nat \<Rightarrow> int \<Rightarrow> stock list \<Rightarrow> nat \<times> stock list" where
  "restocked v w q sts =
     (case find (\<lambda>st. st_warehouse st = w \<and> st_variant st = v) sts of
        Some st \<Rightarrow> (st_pk st, save_row st_pk (st_pk st) (\<lambda>st. st\<lparr>st_quantity := st_quantity st + q\<rparr>) sts)
      | None \<Rightarrow> (next_stock_pk sts, sts @ [\<lparr>st_pk = next_stock_pk sts, st_warehouse = w,
           st_variant = v, st_quantity = q, st_quantity_allocated = 0\<rparr>]))"

lemma increase_stock_run:
  assumes "increase_stock line variant w q allocate s = Inr t"
  obtains v k sts where "variant = Some v" "restocked v w q (sd_stocks s) = (k, sts)"
    "sd_allocations t = (if allocate then allocate_more line k q (sd_allocations s) else sd_allocations s)"
    "sd_stocks t = (if allocate then save_row st_pk k
        (\<lambda>st. st\<lparr>st_quantity_allocated := st_quantity_allocated st + q\<rparr>) sts else sts)"
  using assms
  by (cases variant; cases "find (\<lambda>st. st_warehouse st = w \<and> st_variant st = the variant) (sd_stocks s)"; cases allocate)
    (auto simp: increase_stock_def restocked_def save_stock_def Stock_increase_stock_def allocate_more_def Let_def
      split: option.splits)

lemma restocked_outcome:
  assumes "restocked v w q sts = (k, sts')" "distinct (map st_pk sts)"
  shows "(\<forall>st' \<in> set sts'.
      (\<exists>st \<in> set sts. st' = (if st_pk st = k then st\<lparr>st_quantity := st_quantity st + q\<rparr> else st))
      \<or> (k \<notin> st_pk ` set sts \<and> st_pk st' = k \<and> st_quantity st' = q \<and> st_quantity_allocated st' = 0))
    \<and> sum_rows st_quantity (filter (\<lambda>st. st_warehouse st = w \<and> st_variant st = v) sts')
       = sum_rows st_quantity (filter (\<lambda>st. st_warehouse st = w \<and> st_variant st = v) sts) + q"
proof (cases "find (\<lambda>st. st_warehouse st = w \<and> st_variant st = v) sts")
  case None
  then have "\<forall>st \<in> set sts. \<not> (st_warehouse st = w \<and> st_variant st = v)" by (simp add: find_None_iff)
  then have "filter (\<lambda>st. st_warehouse st = w \<and> st_variant st = v) sts = []" by (simp add: filter_empty_conv)
  with None assms next_stock_pk_fresh [of sts] show ?thesis
    by (auto simp: restocked_def image_iff) metis+
next
  case (Some st)
  have st: "st \<in> set sts" "st_warehouse st = w \<and> st_variant st = v"
    using Some by (auto simp: find_Some_iff)
  have "sum_rows st_quantity (filter (\<lambda>st. st_warehouse st = w \<and> st_variant st = v)
        (save_row st_pk (st_pk st) (\<lambda>st. st\<lparr>st_quantity := st_quantity st + q\<rparr>) xs))
      = sum_rows st_quantity (filter (\<lambda>st. st_warehouse st = w \<and> st_variant st = v) xs) + (if st \<in> set xs then q else 0)"
    if "set xs \<subseteq> set sts" "distinct (map st_pk xs)" for xs
    using that
  proof (induction xs)
    case (Cons x xs)
    show ?case
    proof (cases "st_pk x = st_pk st")
      case True
      with Cons.prems st assms(2) have "x = st" by (metis inj_onD distinct_map list.set_intros(1) subsetD)
      with Cons st show ?thesis by (auto simp: save_row_def)
    next
      case False
      with Cons show ?thesis by (auto simp: save_row_def)
    qed
  qed (simp add: save_row_def)
  from this [of sts] Some assms st show ?thesis
    by (auto simp: restocked_def save_row_def comp_def if_distrib [of st_pk] image_iff cong: if_cong)
qed

text \<open>
  What a restocked stock looks like: the old row with the quantity added, or a new one nothing
  is allocated of yet.
\<close>

definition grown_row :: "nat \<Rightarrow> int \<Rightarrow> bool \<Rightarrow> stock_db \<Rightarrow> stock \<Rightarrow> bool" where
  "grown_row k q allocate s st' \<longleftrightarrow>
     (\<exists>st \<in> set (sd_stocks s). st_pk st' = st_pk st \<and> st_quantity st' = st_quantity st + (if st_pk st = k then q else 0)
        \<and> st_quantity_allocated st' = st_quantity_allocated st + (if allocate \<and> st_pk st = k then q else 0))
     \<or> (stock_allocated (sd_allocations s) k = 0 \<and> st_pk st' = k \<and> st_quantity st' = q
        \<and> st_quantity_allocated st' = (if allocate then q else 0))"

lemma increase_stock_rows:
  assumes wf: "stock_wf s" and fk: "allocations_have_stock s"
    and run: "increase_stock line (Some v) w q allocate s = Inr t"
  obtains k where "\<forall>k'. stock_allocated (sd_allocations t) k'
        = stock_allocated (sd_allocations s) k' + (if allocate \<and> k' = k then q else 0)"
    "\<forall>l. line_allocated (sd_allocations t) l
        = line_allocated (sd_allocations s) l + (if allocate \<and> l = line then q else 0)"
    "sum_rows st_quantity (filter (\<lambda>st. st_warehouse st = w \<and> st_variant st = v) (sd_stocks t))
       = sum_rows st_quantity (filter (\<lambda>st. st_warehouse st = w \<and> st_variant st = v) (sd_stocks s)) + q"
    "\<forall>st' \<in> set (sd_stocks t). grown_row k q allocate s st'"
proof -
  from run obtain k sts where restock: "restocked v w q (sd_stocks s) = (k, sts)"
    and als: "sd_allocations t = (if allocate then allocate_more line k q (sd_allocations s) else sd_allocations s)"
    and stocks: "sd_stocks t = (if allocate then save_row st_pk k
        (\<lambda>st. st\<lparr>st_quantity_allocated := st_quantity_allocated st + q\<rparr>) sts else sts)"
    by (rule increase_stock_run) auto
  have d: "distinct (map st_pk (sd_stocks s))" "distinct (map al_pk (sd_allocations s))"
    using wf by (auto simp: stock_wf_def)
  note out = restocked_outcome [OF restock d(1)]
  have fresh: "stock_allocated (sd_allocations s) k = 0" if "k \<notin> st_pk ` set (sd_stocks s)"
    using fk that by (intro stock_allocated_none) (auto simp: allocations_have_stock_def)
  have kept: "sum_rows st_quantity (filter p (save_row st_pk k (\<lambda>st. st\<lparr>st_quantity_allocated := st_quantity_allocated st + q\<rparr>) xs))
      = sum_rows st_quantity (filter p xs)" if "\<And>st n. p (st\<lparr>st_quantity_allocated := n\<rparr>) = p st" for p and xs :: "stock list"
    by (induction xs) (auto simp: save_row_def that)
  have counted: "sum_rows st_quantity (filter (\<lambda>st. st_warehouse st = w \<and> st_variant st = v) (sd_stocks t))
       = sum_rows st_quantity (filter (\<lambda>st. st_warehouse st = w \<and> st_variant st = v) sts)"
    using kept [of "\<lambda>st. st_warehouse st = w \<and> st_variant st = v"] by (simp add: stocks)
  have "grown_row k q allocate s st'" if mem: "st' \<in> set (sd_stocks t)" for st'
  proof -
    from mem obtain st2 where st2: "st2 \<in> set sts" "st' = (if allocate \<and> st_pk st2 = k
        then st2\<lparr>st_quantity_allocated := st_quantity_allocated st2 + q\<rparr> else st2)"
      by (auto simp: stocks save_row_def split: if_splits)
    from out st2(1) consider (old) st where "st \<in> set (sd_stocks s)"
        "st2 = (if st_pk st = k then st\<lparr>st_quantity := st_quantity st + q\<rparr> else st)"
      | (new) "k \<notin> st_pk ` set (sd_stocks s)" "st_pk st2 = k" "st_quantity st2 = q" "st_quantity_allocated st2 = 0"
      by blast
    then show ?thesis
    proof cases
      case old
      then show ?thesis unfolding grown_row_def
        by (intro disjI1 bexI [of _ st]) (auto simp: st2(2))
    next
      case new
      with fresh show ?thesis by (simp add: st2(2) grown_row_def)
    qed
  qed
  then show ?thesis
    using out counted allocate_more_sums [OF d(2)] by (intro that [of k]) (auto simp: als)
qed

lemma increase_stock_keeps:
  assumes wf: "stock_wf s" and fk: "allocations_have_stock s"
    and run: "increase_stock line (Some v) w q allocate s = Inr t"
  shows "sum_rows st_quantity (filter (\<lambda>st. st_warehouse st = w \<and> st_variant st = v) (sd_stocks t))
       = sum_rows st_quantity (filter (\<lambda>st. st_warehouse st = w \<and> st_variant st = v) (sd_stocks s)) + q
    \<and> line_allocated (sd_allocations t) line = line_allocated (sd_allocations s) line + (if allocate then q else 0)
    \<and> (counters_ok s \<longrightarrow> counters_ok t)
    \<and> (no_oversell s \<and> (allocate \<or> 0 \<le> q) \<longrightarrow> no_oversell t)"
proof -
  from wf fk run obtain k where sums: "\<forall>k'. stock_allocated (sd_allocations t) k'
        = stock_allocated (sd_allocations s) k' + (if allocate \<and> k' = k then q else 0)"
      "\<forall>l. line_allocated (sd_allocations t) l
        = line_allocated (sd_allocations s) l + (if allocate \<and> l = line then q else 0)"
    and total: "sum_rows st_quantity (filter (\<lambda>st. st_warehouse st = w \<and> st_variant st = v) (sd_stocks t))
       = sum_rows st_quantity (filter (\<lambda>st. st_warehouse st = w \<and> st_variant st = v) (sd_stocks s)) + q"
    and rows: "\<forall>st' \<in> set (sd_stocks t). grown_row k q allocate s st'"
    by (rule increase_stock_rows)
  have "st_quantity_allocated st' = stock_allocated (sd_allocations t) (st_pk st')"
    if "counters_ok s" "grown_row k q allocate s st'" for st'
    using that(2) unfolding grown_row_def
    by (elim disjE bexE) (use that(1) in \<open>simp_all add: counters_ok_def sums\<close>)
  moreover have "stock_allocated (sd_allocations t) (st_pk st') \<le> st_quantity st'"
    if "no_oversell s" "allocate \<or> 0 \<le> q" "grown_row k q allocate s st'" for st'
    using that(3) unfolding grown_row_def
  proof (elim disjE bexE conjE)
    fix st assume st: "st \<in> set (sd_stocks s)" "st_pk st' = st_pk st"
      "st_quantity st' = st_quantity st + (if st_pk st = k then q else 0)"
    with that(1) have "stock_allocated (sd_allocations s) (st_pk st) \<le> st_quantity st" by (simp add: no_oversell_def)
    with that(2) st show ?thesis by (cases "st_pk st = k"; cases allocate) (simp_all add: sums)
  next
    assume "stock_allocated (sd_allocations s) k = 0" "st_pk st' = k" "st_quantity st' = q"
    with that(2) show ?thesis by (cases allocate) (simp_all add: sums)
  qed
  ultimately show ?thesis
    using rows total by (simp add: sums counters_ok_def [of t] no_oversell_def [of t])
qed

text \<open>
  Increasing a stock, or creating it, adds the quantity to the warehouse's pieces of the
  variant, allocates it to the line when asked to, and keeps the counters and the bound on
  allocations
\<close>

theorem increase_stock_adds:
  assumes wf: "stock_wf s" and fk: "allocations_have_stock s"
    and run: "increase_stock line (Some v) w q allocate s = Inr t"
  shows "sum_rows st_quantity (filter (\<lambda>st. st_warehouse st = w \<and> st_variant st = v) (sd_stocks t))
       = sum_rows st_quantity (filter (\<lambda>st. st_warehouse st = w \<and> st_variant st = v) (sd_stocks s)) + q
    \<and> line_allocated (sd_allocations t) line = line_allocated (sd_allocations s) line + (if allocate then q else 0)
    \<and> (counters_ok s \<longrightarrow> counters_ok t)
    \<and> (no_oversell s \<and> (allocate \<or> 0 \<le> q) \<longrightarrow> no_oversell t)"
  by (rule increase_stock_keeps [OF wf fk run])

definition increase_example :: "stock_error + stock_db" where
  "increase_example = increase_stock 10 (Some 2) 2 6 True stock_example"

lemma increase_stock_adds_witness:
  "\<exists>t. increase_example = Inr t \<and> counters_ok t \<and> no_oversell t
     \<and> map (\<lambda>st. (st_pk st, st_quantity st, st_quantity_allocated st)) (sd_stocks t)
         = [(1, 5, 3), (2, 4, 0), (3, 2, 0), (7, 6, 6)]"
proof -
  have "case increase_example of Inr t \<Rightarrow> map (\<lambda>st. (st_pk st, st_quantity st, st_quantity_allocated st)) (sd_stocks t)
         = [(1, 5, 3), (2, 4, 0), (3, 2, 0), (7, 6, 6)] | Inl _ \<Rightarrow> False"
    by code_simp
  then obtain t where t: "increase_example = Inr t"
    "map (\<lambda>st. (st_pk st, st_quantity st, st_quantity_allocated st)) (sd_stocks t)
         = [(1, 5, 3), (2, 4, 0), (3, 2, 0), (7, 6, 6)]"
    by (auto split: sum.splits)
  have "allocations_have_stock stock_example" by code_simp
  from increase_stock_adds [OF stock_example_ok(1) this t(1) [unfolded increase_example_def]] stock_example_ok
  have "counters_ok t" "no_oversell t" by blast+
  with t show ?thesis by (intro exI [of _ t] conjI)
qed

subsection \<open>Preorders stay within their thresholds\<close>

text \<open>What is promised of the listings that satisfy a predicate.\<close>

definition promised :: "(nat \<Rightarrow> bool) \<Rightarrow> preorder_allocation list \<Rightarrow> int" where
  "promised P pas = sum_rows pa_quantity (filter (\<lambda>p. P (pa_listing p) \<and> pa_quantity p > 0) pas)"

lemma promised_simps [simp]:
  "promised P [] = 0"
  "promised P (p # pas) = (if P (pa_listing p) \<and> pa_quantity p > 0 then pa_quantity p else 0) + promised P pas"
  "promised P (pas @ pas') = promised P pas + promised P pas'"
  by (simp_all add: promised_def)

lemma sum_listing_promised: "sum_listing pas k = promised (\<lambda>l. l = k) pas"
  by (simp add: sum_listing_def promised_def)

lemma sum_listings_promised:
  "distinct ks \<Longrightarrow> sum_list (map (sum_listing pas) ks) = promised (\<lambda>l. l \<in> set ks) pas"
proof (induction ks)
  case (Cons k ks)
  have "k \<notin> set ks" using Cons.prems by simp
  then have "promised (\<lambda>l. l = k \<or> l \<in> set ks) pas = promised (\<lambda>l. l = k) pas + promised (\<lambda>l. l \<in> set ks) pas"
    by (induction pas) auto
  with Cons show ?case by (simp add: sum_listing_promised)
qed (simp add: promised_def)

lemma listing_reservations_nonneg: "0 \<le> listing_reservations now check cls prs k"
  by (induction prs) (auto simp: listing_reservations_def)

text \<open>Lines of different variants promise at most one piece of the listings of a variant.\<close>

lemma promised_once:
  assumes "list_all2 R lines news" "distinct (map line_variant lines)"
    and owner: "\<forall>i a. R i a \<longrightarrow> P (pa_listing a) \<longrightarrow> line_variant i = v"
  shows "promised P news = 0 \<or> (\<exists>i a. i \<in> set lines \<and> a \<in> set news \<and> R i a \<and> P (pa_listing a)
    \<and> 0 < pa_quantity a \<and> promised P news = pa_quantity a)"
  using assms(1,2)
proof (induction rule: list_all2_induct)
  case (Cons i lines a news)
  have none: "promised P news = 0" if v: "line_variant i = v"
  proof -
    have "\<not> P (pa_listing b)" if "b \<in> set news" for b
    proof
      assume "P (pa_listing b)"
      from Cons(2) that obtain j where "j \<in> set lines" "R j b"
        by (metis in_set_conv_nth list_all2_conv_all_nth)
      with owner \<open>P (pa_listing b)\<close> v have "line_variant i \<in> line_variant ` set lines" by (metis image_eqI)
      with Cons.prems show False by simp
    qed
    then show ?thesis by (simp add: promised_def filter_empty_conv)
  qed
  show ?case
  proof (cases "P (pa_listing a) \<and> 0 < pa_quantity a")
    case True
    with none owner Cons(1) show ?thesis by auto
  next
    case False
    with Cons show ?thesis by auto
  qed
qed simp

lemma create_preorder_allocations_all:
  assumes "create_preorder_allocations create lines = Inr ([], news)" "\<forall>i \<in> set lines. li_variant i \<noteq> None"
  shows "list_all2 (\<lambda>i a. \<exists>v. li_variant i = Some v \<and> create i v = Inr (Inr a)) lines news"
  using assms
proof (induction lines arbitrary: news)
  case (Cons i lines)
  from Cons.prems(2) obtain v where v: "li_variant i = Some v" by auto
  from Cons.prems(1) obtain r ins als where "create i v = Inr r"
    "create_preorder_allocations create lines = Inr (ins, als)"
    "(case r of Inl i \<Rightarrow> (i # ins, als) | Inr a \<Rightarrow> (ins, a # als)) = ([], news)"
    by (auto simp: v bindr_eq_Inr)
  with Cons.IH Cons.prems(2) v show ?case by (auto split: sum.splits)
qed simp

lemma create_preorder_allocation_within:
  assumes "create_preorder_allocation line v (listing, threshold) global ids al rv = Inr a"
    and "\<And>k. 0 \<le> rv k"
  shows "pa_listing a = listing \<and> pa_order_line a = li_line line \<and> pa_quantity a = li_quantity line
    \<and> (0 < li_quantity line \<longrightarrow>
        (\<forall>n. threshold = Some n \<longrightarrow> al listing + li_quantity line \<le> n)
      \<and> (\<forall>g. va_preorder_global_threshold v = Some g \<longrightarrow> global + li_quantity line \<le> g))"
proof -
  have "0 \<le> sum_list (map rv ids)" by (induction ids) (simp_all add: assms(2))
  moreover have "0 \<le> rv listing" by (rule assms(2))
  ultimately show ?thesis using assms(1)
    by (auto simp: create_preorder_allocation_def bindr_eq_Inr Let_def max_def split: option.splits if_splits)
qed

lemma preorder_lines_variant:
  "i \<in> set (get_order_lines_with_preorder now lines) \<Longrightarrow> li_variant i \<noteq> None"
  by (cases "li_variant i") (auto simp: get_order_lines_with_preorder_def)

text \<open>
  The allocation a line gets: for a listing of the line's variant, within that listing's
  threshold and, with all listings of the variant, within the variant's.
\<close>

definition fits :: "stock_db \<Rightarrow> line_info \<Rightarrow> preorder_allocation \<Rightarrow> bool" where
  "fits s i a \<longleftrightarrow> pa_order_line a = li_line i \<and> pa_quantity a = li_quantity i
     \<and> (\<exists>c \<in> set (sd_listings s). \<exists>v. cl_pk c = pa_listing a \<and> li_variant i = Some v \<and> cl_variant c = va_pk v
       \<and> (0 < li_quantity i \<longrightarrow>
           (\<forall>n. cl_preorder_quantity_threshold c = Some n \<longrightarrow>
              sum_listing (sd_preorder_allocations s) (cl_pk c) + li_quantity i \<le> n)
         \<and> (\<forall>g. va_preorder_global_threshold v = Some g \<longrightarrow>
              sum_list (map (sum_listing (sd_preorder_allocations s))
                (map cl_pk (filter (\<lambda>c. cl_variant c = va_pk v) (sd_listings s)))) + li_quantity i \<le> g)))"

lemma allocate_preorders_run:
  assumes run: "allocate_preorders now lines slug check cls s = Inr t"
  obtains news where "list_all2 (fits s) (get_order_lines_with_preorder now lines) news"
    "sd_preorder_allocations t = sd_preorder_allocations s @ news" "sd_listings t = sd_listings s"
proof (cases "get_order_lines_with_preorder now lines = []")
  case True
  with run have "t = s" by (simp add: allocate_preorders_def)
  then show ?thesis using that [of "[]"] by (simp add: True)
next
  case False
  let ?lines = "get_order_lines_with_preorder now lines"
  define listings where "listings = filter (\<lambda>c. cl_variant c \<in> set (map line_variant ?lines)) (sd_listings s)"
  define al where "al = (\<lambda>k. if k \<in> set (map cl_pk listings) then sum_listing (sd_preorder_allocations s) k else 0)"
  define rv where "rv = (\<lambda>k. if k \<in> set (map cl_pk listings) then listing_reservations now check cls (sd_preorder_reservations s) k else 0)"
  define create where "create = (\<lambda>line v.
     case find (\<lambda>c. cl_variant c = va_pk v \<and> cl_channel_slug c = slug) (rev listings) of
       None \<Rightarrow> Inl KeyMissing
     | Some c \<Rightarrow> Inr (create_preorder_allocation line v (cl_pk c, cl_preorder_quantity_threshold c)
         (sum_list (map al (map cl_pk (filter (\<lambda>c. cl_variant c = va_pk v) listings)))) (map cl_pk (filter (\<lambda>c. cl_variant c = va_pk v) listings)) al rv))"
  note run' = run [unfolded allocate_preorders_def Let_def, folded listings_def, folded al_def rv_def,
      folded create_def, unfolded if_not_P [OF False]]
  from run' obtain news where all: "create_preorder_allocations create ?lines = Inr ([], news)"
    and t: "(if news = [] then Inr s else preorder_bulk_create news s) = Inr t"
    by (auto simp: bindr_eq_Inr split: if_splits)
  have rv: "0 \<le> rv k" for k by (simp add: rv_def listing_reservations_nonneg)
  have fit: "fits s i a" if i: "i \<in> set ?lines" and v: "li_variant i = Some v" and a: "create i v = Inr (Inr a)" for i v a
  proof -
    from a obtain c where c: "find (\<lambda>c. cl_variant c = va_pk v \<and> cl_channel_slug c = slug) (rev listings) = Some c"
      and cr: "create_preorder_allocation i v (cl_pk c, cl_preorder_quantity_threshold c)
         (sum_list (map al (map cl_pk (filter (\<lambda>c. cl_variant c = va_pk v) listings)))) (map cl_pk (filter (\<lambda>c. cl_variant c = va_pk v) listings)) al rv = Inr a"
      by (auto simp: create_def split: option.splits)
    have mem: "c \<in> set listings" "cl_variant c = va_pk v"
      using c by (auto simp: find_Some_iff rev_nth)
    have own: "va_pk v \<in> set (map line_variant ?lines)" using i v by (force simp: line_variant_def)
    have same: "filter (\<lambda>c. cl_variant c = va_pk v) listings = filter (\<lambda>c. cl_variant c = va_pk v) (sd_listings s)"
      using own by (auto simp: listings_def intro!: filter_cong)
    have "al (cl_pk c) = sum_listing (sd_preorder_allocations s) (cl_pk c)" if "c \<in> set listings" for c
      using that by (simp add: al_def)
    then have "sum_list (map al (map cl_pk (filter (\<lambda>c. cl_variant c = va_pk v) listings))) =
        sum_list (map (sum_listing (sd_preorder_allocations s))
          (map cl_pk (filter (\<lambda>c. cl_variant c = va_pk v) (sd_listings s))))"
      unfolding same [symmetric] by (auto intro!: arg_cong [of _ _ sum_list])
    with create_preorder_allocation_within [OF cr rv] mem v show ?thesis
      unfolding fits_def by (auto simp: al_def listings_def)
  qed
  have "list_all2 (fits s) ?lines news"
    using create_preorder_allocations_all [OF all] preorder_lines_variant fit
    by (auto elim!: list_all2_mono simp: list_all2_conv_all_nth)
  moreover have "sd_preorder_allocations t = sd_preorder_allocations s @ news" "sd_listings t = sd_listings s"
    using t by (auto simp: preorder_bulk_create_def Let_def split: if_splits)
  ultimately show ?thesis by (rule that)
qed

lemma fitsD:
  assumes "fits s i a" "distinct (map cl_pk (sd_listings s))" "c \<in> set (sd_listings s)" "cl_pk c = pa_listing a"
  shows "pa_quantity a = li_quantity i" "line_variant i = cl_variant c"
    "0 < li_quantity i \<Longrightarrow> cl_preorder_quantity_threshold c = Some n \<Longrightarrow>
       sum_listing (sd_preorder_allocations s) (cl_pk c) + li_quantity i \<le> n"
    "0 < li_quantity i \<Longrightarrow> li_variant i = Some v \<Longrightarrow> va_preorder_global_threshold v = Some g \<Longrightarrow>
       sum_list (map (sum_listing (sd_preorder_allocations s))
         (map cl_pk (filter (\<lambda>c. cl_variant c = va_pk v) (sd_listings s)))) + li_quantity i \<le> g"
proof -
  from assms(1) obtain c' w where c': "c' \<in> set (sd_listings s)" "cl_pk c' = pa_listing a"
    "li_variant i = Some w" "cl_variant c' = va_pk w" unfolding fits_def by blast
  have "c'' = c" if "c'' \<in> set (sd_listings s)" "cl_pk c'' = pa_listing a" for c''
    using assms(2-4) that by (metis inj_onD distinct_map)
  with assms(1) c' show "pa_quantity a = li_quantity i" "line_variant i = cl_variant c"
    "0 < li_quantity i \<Longrightarrow> cl_preorder_quantity_threshold c = Some n \<Longrightarrow>
       sum_listing (sd_preorder_allocations s) (cl_pk c) + li_quantity i \<le> n"
    "0 < li_quantity i \<Longrightarrow> li_variant i = Some v \<Longrightarrow> va_preorder_global_threshold v = Some g \<Longrightarrow>
       sum_list (map (sum_listing (sd_preorder_allocations s))
         (map cl_pk (filter (\<lambda>c. cl_variant c = va_pk v) (sd_listings s)))) + li_quantity i \<le> g"
    unfolding fits_def by (fastforce simp: line_variant_def)+
qed

lemma listing_within_threshold:
  assumes d: "distinct (map cl_pk (sd_listings s))" and fit: "list_all2 (fits s) lines news"
    and dv: "distinct (map line_variant lines)"
    and c: "c \<in> set (sd_listings s)" "cl_preorder_quantity_threshold c = Some n"
  shows "sum_listing (sd_preorder_allocations s @ news) (cl_pk c)
      \<le> max n (sum_listing (sd_preorder_allocations s) (cl_pk c))"
proof -
  have "\<forall>i a. fits s i a \<longrightarrow> pa_listing a = cl_pk c \<longrightarrow> line_variant i = cl_variant c"
    using fitsD(2) [OF _ d c(1)] by simp
  from promised_once [OF fit dv, of "\<lambda>l. l = cl_pk c", OF this] show ?thesis
  proof (elim disjE exE conjE)
    fix i a assume a: "fits s i a" "pa_listing a = cl_pk c" "0 < pa_quantity a"
      and sum: "promised (\<lambda>l. l = cl_pk c) news = pa_quantity a"
    note D = fitsD [OF a(1) d c(1) a(2) [symmetric]]
    from a(3) D(1) D(3) [OF _ c(2)] sum show ?thesis by (simp add: sum_listing_promised)
  qed (simp_all add: sum_listing_promised)
qed

lemma variant_within_threshold:
  assumes d: "distinct (map cl_pk (sd_listings s))" and fit: "list_all2 (fits s) lines news"
    and dv: "distinct (map line_variant lines)"
    and i: "i \<in> set lines" "li_variant i = Some v" "va_preorder_global_threshold v = Some g"
    and ks: "ks = map cl_pk (filter (\<lambda>c. cl_variant c = va_pk v) (sd_listings s))"
  shows "sum_list (map (sum_listing (sd_preorder_allocations s @ news)) ks)
      \<le> max g (sum_list (map (sum_listing (sd_preorder_allocations s)) ks))"
proof -
  have dks: "distinct ks" using d by (simp add: ks distinct_map_filter)
  have owner: "line_variant j = line_variant i" if fits: "fits s j a" "pa_listing a \<in> set ks" for j a
  proof -
    from that(2) obtain c where "c \<in> set (sd_listings s)" "cl_variant c = va_pk v" "cl_pk c = pa_listing a"
      by (auto simp: ks)
    with fitsD(2) [OF that(1) d] i(2) show ?thesis by (simp add: line_variant_def)
  qed
  have "promised (\<lambda>l. l \<in> set ks) news = 0 \<or> (\<exists>j a. j \<in> set lines \<and> a \<in> set news \<and> fits s j a
      \<and> pa_listing a \<in> set ks \<and> 0 < pa_quantity a \<and> promised (\<lambda>l. l \<in> set ks) news = pa_quantity a)"
    by (rule promised_once [OF fit dv]) (use owner in blast)
  then show ?thesis
  proof (elim disjE exE conjE)
    fix j a assume j: "j \<in> set lines" "fits s j a" "pa_listing a \<in> set ks" "0 < pa_quantity a"
      and sum: "promised (\<lambda>l. l \<in> set ks) news = pa_quantity a"
    from j(3) obtain c where c: "c \<in> set (sd_listings s)" "cl_pk c = pa_listing a" by (auto simp: ks)
    have "j = i" using owner [OF j(2,3)] dv i(1) j(1) by (metis inj_onD distinct_map)
    then have "0 < li_quantity i" "pa_quantity a = li_quantity i"
      using j(4) fitsD(1) [OF j(2) d c] by simp_all
    moreover from this(1) have "sum_list (map (sum_listing (sd_preorder_allocations s)) ks) + li_quantity i \<le> g"
      using fitsD(4) [OF j(2) d c _ _ i(3)] i(2) \<open>j = i\<close> unfolding ks by simp
    ultimately show ?thesis using sum by (simp add: sum_listings_promised [OF dks])
  qed (simp_all add: sum_listings_promised [OF dks])
qed

text \<open>Preorders of distinct variants never push what is promised of a listing above its
  threshold, nor what is promised of a variant above its global threshold\<close>

theorem preorders_within_thresholds:
  assumes d: "distinct (map cl_pk (sd_listings s))"
    and dv: "distinct (map line_variant (get_order_lines_with_preorder now lines))"
    and run: "allocate_preorders now lines slug check cls s = Inr t"
  shows "(\<forall>c n. c \<in> set (sd_listings s) \<and> cl_preorder_quantity_threshold c = Some n \<longrightarrow>
      sum_listing (sd_preorder_allocations t) (cl_pk c)
        \<le> max n (sum_listing (sd_preorder_allocations s) (cl_pk c)))
    \<and> (\<forall>i v g. i \<in> set (get_order_lines_with_preorder now lines) \<and> li_variant i = Some v
         \<and> va_preorder_global_threshold v = Some g \<longrightarrow>
      sum_list (map (\<lambda>c. sum_listing (sd_preorder_allocations t) (cl_pk c))
          (filter (\<lambda>c. cl_variant c = va_pk v) (sd_listings s)))
        \<le> max g (sum_list (map (\<lambda>c. sum_listing (sd_preorder_allocations s) (cl_pk c))
          (filter (\<lambda>c. cl_variant c = va_pk v) (sd_listings s)))))"
proof -
  from run obtain news where "list_all2 (fits s) (get_order_lines_with_preorder now lines) news"
    and "sd_preorder_allocations t = sd_preorder_allocations s @ news" by (rule allocate_preorders_run)
  then show ?thesis
    using listing_within_threshold [OF d _ dv] variant_within_threshold [OF d _ dv _ _ _ refl]
    by (simp add: comp_def) blast
qed

definition preorder_example :: stock_db where
  "preorder_example = stock_example\<lparr>
     sd_listings := [\<lparr>cl_pk = 1, cl_channel_slug = ''main'', cl_variant = 4, cl_preorder_quantity_threshold = Some 5\<rparr>,
                     \<lparr>cl_pk = 2, cl_channel_slug = ''b2b'', cl_variant = 4, cl_preorder_quantity_threshold = None\<rparr>],
     sd_preorder_allocations := [\<lparr>pa_order_line = 10, pa_listing = 1, pa_quantity = 2\<rparr>,
                                 \<lparr>pa_order_line = 11, pa_listing = 2, pa_quantity = 4\<rparr>]\<rparr>"

definition preorder_line :: "int \<Rightarrow> line_info" where
  "preorder_line q = \<lparr>li_line = 20, li_variant = Some ((sample_variant 4)\<lparr>va_is_preorder := True,
     va_preorder_global_threshold := Some 9\<rparr>), li_quantity = q, li_warehouse = None\<rparr>"

lemma preorders_within_thresholds_witness:
  "\<exists>t. allocate_preorders (2024, 3, 1, 0) [preorder_line 3] ''main'' False [] preorder_example = Inr t
     \<and> sum_listing (sd_preorder_allocations t) 1 = 5 \<and> sum_listing (sd_preorder_allocations t) 1 \<le> max 5 2"
proof -
  have "case allocate_preorders (2024, 3, 1, 0) [preorder_line 3] ''main'' False [] preorder_example of
      Inr t \<Rightarrow> sum_listing (sd_preorder_allocations t) 1 = 5 | Inl _ \<Rightarrow> False"
    by code_simp
  then obtain t where t: "allocate_preorders (2024, 3, 1, 0) [preorder_line 3] ''main'' False [] preorder_example = Inr t"
    "sum_listing (sd_preorder_allocations t) 1 = 5"
    by (auto split: sum.splits)
  define c where "c = \<lparr>cl_pk = 1, cl_channel_slug = ''main'', cl_variant = 4, cl_preorder_quantity_threshold = Some 5\<rparr>"
  have dl: "distinct (map cl_pk (sd_listings preorder_example))" by code_simp
  have dv: "distinct (map line_variant (get_order_lines_with_preorder (2024, 3, 1, 0) [preorder_line 3]))" by code_simp
  have c: "c \<in> set (sd_listings preorder_example) \<and> cl_preorder_quantity_threshold c = Some 5"
    by (simp add: c_def preorder_example_def)
  have "sum_listing (sd_preorder_allocations preorder_example) 1 = 2" by code_simp
  moreover from preorders_within_thresholds [OF dl dv t(1)] c
  have "sum_listing (sd_preorder_allocations t) (cl_pk c)
      \<le> max 5 (sum_listing (sd_preorder_allocations preorder_example) (cl_pk c))" by blast
  ultimately show ?thesis using t by (intro exI [of _ t]) (simp add: c_def)
qed

subsection \<open>Deallocating takes what was asked for, or all there is\<close>

lemma deallocation_loop_total:
  "\<forall>a \<in> set als. al_quantity a \<ge> 0 \<Longrightarrow> d \<le> q \<Longrightarrow>
     snd (deallocation_loop q d als) = min q (d + sum_rows al_quantity als)"
proof (induction als arbitrary: d)
  case (Cons a als)
  have nn: "0 \<le> sum_rows al_quantity als" using Cons.prems(1) by (induction als) auto
  show ?case
  proof (cases "min (q - d) (al_quantity a) > 0 \<and> d + min (q - d) (al_quantity a) \<noteq> q")
    case True
    then have "min (q - d) (al_quantity a) = al_quantity a" "d + al_quantity a \<le> q" by auto
    with True Cons.IH [of "d + al_quantity a"] Cons.prems(1) show ?thesis
      by (auto simp: Let_def add.assoc split: prod.split)
  next
    case False
    with Cons nn show ?thesis by (auto simp: Let_def min_def split: if_splits)
  qed
qed simp

lemma sum_pieces_of:
  "distinct ks \<Longrightarrow> \<forall>p \<in> set ps. fst p \<in> set ks \<Longrightarrow> sum_list (map (pieces_of ps) ks) = sum_list (map (snd \<circ> snd) ps)"
proof (induction ps)
  case Nil
  show ?case by (induction ks) simp_all
next
  case (Cons p ps)
  have "sum_list (map (\<lambda>k. (if fst p = k then snd (snd p) else 0) + pieces_of ps k) ks)
      = (if fst p \<in> set ks then snd (snd p) else 0) + sum_list (map (pieces_of ps) ks)"
    using Cons.prems(1) by (induction ks) auto
  with Cons show ?case by simp
qed

lemma line_allocated_take_pieces:
  assumes ps: "pieces_in ps (filter (\<lambda>a. al_order_line a = l') als)" and d: "distinct (map al_pk als)"
  shows "line_allocated (take_pieces ps als) l =
    line_allocated als l - (if l = l' then sum_list (map (snd \<circ> snd) ps) else 0)"
proof -
  have sum: "line_allocated (take_pieces ps als) l = line_allocated als l
      - sum_list (map (pieces_of ps) (map al_pk (filter (\<lambda>a. al_order_line a = l) als)))" for als :: "allocation list"
    by (induction als) (auto simp: line_allocated_def take_pieces_eq)
  show ?thesis
  proof (cases "l = l'")
    case True
    have "distinct (map al_pk (filter (\<lambda>a. al_order_line a = l) als))" using d by (simp add: distinct_map_filter)
    moreover have "\<forall>p \<in> set ps. fst p \<in> set (map al_pk (filter (\<lambda>a. al_order_line a = l) als))"
      using ps True by (fastforce simp: pieces_in_def)
    ultimately have "sum_list (map (pieces_of ps) (map al_pk (filter (\<lambda>a. al_order_line a = l) als)))
        = sum_list (map (snd \<circ> snd) ps)" by (rule sum_pieces_of)
    then show ?thesis by (simp only: sum True [symmetric] if_True refl)
  next
    case False
    have "al_pk a \<notin> al_pk ` set (filter (\<lambda>a. al_order_line a = l') als)"
      if "a \<in> set als" "al_order_line a = l" for a
      using that False d by (auto simp: distinct_map dest: inj_onD)
    then have "\<forall>a \<in> set (filter (\<lambda>a. al_order_line a = l) als). pieces_of ps (al_pk a) = 0"
      using pieces_of_outside [OF ps] by simp
    then have "map (pieces_of ps) (map al_pk (filter (\<lambda>a. al_order_line a = l) als))
        = map (\<lambda>_. 0) (filter (\<lambda>a. al_order_line a = l) als)" by simp
    then show ?thesis using False by (simp only: sum) (simp add: sum_list_0)
  qed
qed

definition released_of :: "line_info list \<Rightarrow> allocation list \<Rightarrow> nat \<Rightarrow> int" where
  "released_of lines als l =
     sum_list (map (\<lambda>i. min (li_quantity i) (line_allocated als l)) (filter (\<lambda>i. li_line i = l) lines))"

lemma deallocate_lines_total:
  assumes "deallocate_lines lines als = (ps, als', failed)" "distinct (map al_pk als)"
    "\<forall>a \<in> set als. al_quantity a \<ge> 0" "distinct (map li_line lines)" "\<forall>i \<in> set lines. li_quantity i \<ge> 0"
  shows "(\<forall>l. line_allocated als' l = line_allocated als l - released_of lines als l)
    \<and> failed = map li_line (filter (\<lambda>i. line_allocated als (li_line i) < li_quantity i) lines)"
  using assms
proof (induction lines arbitrary: als ps als' failed)
  case (Cons i lines)
  let ?own = "filter (\<lambda>a. al_order_line a = li_line i) als"
  obtain ps1 d where loop: "deallocation_loop (li_quantity i) 0 ?own = (ps1, d)" by fastforce
  obtain ps2 als2 f2 where rec: "deallocate_lines lines (take_pieces ps1 als) = (ps2, als2, f2)"
    by (metis prod_cases3)
  from Cons.prems(1) loop rec have eq: "als' = als2"
    "failed = (if d = li_quantity i then [] else [li_line i]) @ f2" by auto
  have own: "pieces_in ps1 ?own \<and> d = sum_list (map (snd \<circ> snd) ps1)"
    using deallocation_loop_outcome [OF loop] Cons.prems(2,3) by (simp add: distinct_map_filter comp_def)
  have d: "d = min (li_quantity i) (line_allocated als (li_line i))"
    using deallocation_loop_total [of ?own 0 "li_quantity i"] Cons.prems(3,5) loop by (simp add: line_allocated_def)
  have ps1: "pieces_in ps1 als" by (rule pieces_in_mono [OF conjunct1 [OF own]]) (use Cons.prems in auto)
  then have nn: "\<forall>a \<in> set (take_pieces ps1 als). al_quantity a \<ge> 0"
    by (auto simp: take_pieces_eq pieces_in_def)
  have la: "line_allocated (take_pieces ps1 als) l = line_allocated als l - (if l = li_line i then d else 0)" for l
    using line_allocated_take_pieces [OF conjunct1 [OF own] Cons.prems(2), of l] own by simp
  have other: "li_line j \<noteq> li_line i" if "j \<in> set lines" for j
    using Cons.prems(4) that by (auto simp: image_iff)
  have rel: "released_of lines (take_pieces ps1 als) l = released_of lines als l" for l
    using other by (cases "l = li_line i") (auto simp: released_of_def la)
  have rel0: "released_of lines als (li_line i) = 0"
    using other by (simp add: released_of_def filter_empty_conv)
  from Cons.IH [OF rec] Cons.prems nn have ih: "\<And>l. line_allocated als2 l = line_allocated (take_pieces ps1 als) l - released_of lines als l"
    "f2 = map li_line (filter (\<lambda>j. line_allocated (take_pieces ps1 als) (li_line j) < li_quantity j) lines)"
    by (simp_all add: rel)
  have "f2 = map li_line (filter (\<lambda>j. line_allocated als (li_line j) < li_quantity j) lines)"
    unfolding ih(2) using other by (simp add: la cong: filter_cong)
  moreover have "line_allocated als2 l = line_allocated als l - released_of (i # lines) als l" for l
    using ih(1) [of l] d rel0 by (simp add: la released_of_def)
  ultimately show ?case by (auto simp: eq d)
qed (simp add: released_of_def)

lemma line_allocated_mset: "mset als = mset als' \<Longrightarrow> line_allocated als l = line_allocated als' l"
proof -
  assume eq: "mset als = mset als'"
  have "line_allocated xs l = (\<Sum>a \<in># filter_mset (\<lambda>a. al_order_line a = l) (mset xs). al_quantity a)" for xs
    by (induction xs) (auto simp: line_allocated_def)
  with eq show ?thesis by simp
qed

text \<open>
  Deallocating releases from each line what was asked for or all it has, reports exactly
  the lines that had less, keeps the quantities of the stocks, and allocates nothing new beyond
  what a stock holds.
\<close>

theorem deallocate_stock_releases:
  assumes law: "bulk_update_law st_pk bu" and wf: "stock_wf s"
    and lines: "distinct (map li_line lines)" "\<forall>i \<in> set lines. li_quantity i \<ge> 0"
    and run: "deallocate_stock bu lines s = (failed, t)"
  shows "failed = map li_line (filter (\<lambda>i. line_allocated (sd_allocations s) (li_line i) < li_quantity i) lines)
    \<and> (\<forall>i \<in> set lines. line_allocated (sd_allocations t) (li_line i) =
          line_allocated (sd_allocations s) (li_line i)
            - min (li_quantity i) (line_allocated (sd_allocations s) (li_line i)))
    \<and> map st_quantity (sd_stocks t) = map st_quantity (sd_stocks s)
    \<and> (no_oversell s \<longrightarrow> no_oversell t)"
proof -
  let ?als = "sd_allocations s"
  define mine where "mine = filter (\<lambda>a. al_order_line a \<in> set (map li_line lines)) ?als"
  define own where "own = sort_key al_stock mine"
  from wf run obtain ps ns where pin: "pieces_in ps ?als"
    and t: "t = (update_allocated bu (piece_deltas ps) (s\<lparr>sd_allocations := take_pieces ps ?als\<rparr>))\<lparr>sd_notices := ns\<rparr>"
    and failed: "failed = snd (snd (deallocate_lines lines own))" and ps: "ps = fst (deallocate_lines lines own)"
    unfolding own_def mine_def by (rule deallocate_stock_outcome)
  have nonneg: "\<forall>a \<in> set own. al_quantity a \<ge> 0" and d: "distinct (map al_pk own)"
    using wf by (auto simp: stock_wf_def own_def mine_def distinct_map intro: inj_on_subset)
  obtain als' where dl: "deallocate_lines lines own = (ps, als', failed)" by (metis failed ps prod.collapse)
  have als': "als' = take_pieces ps own" using deallocate_lines_outcome [OF dl d nonneg] by blast
  note total = deallocate_lines_total [OF dl d nonneg lines]
  have old: "line_allocated own (li_line i) = line_allocated ?als (li_line i)" if "i \<in> set lines" for i
  proof -
    have "line_allocated own (li_line i) = line_allocated mine (li_line i)"
      by (rule line_allocated_mset) (simp add: own_def)
    also have "\<dots> = line_allocated ?als (li_line i)"
      using that by (auto simp: line_allocated_def mine_def intro!: arg_cong [of _ _ "sum_rows al_quantity"] filter_cong)
    finally show ?thesis .
  qed
  have new: "line_allocated (take_pieces ps own) (li_line i) = line_allocated (take_pieces ps ?als) (li_line i)"
    if "i \<in> set lines" for i
  proof -
    have "line_allocated (take_pieces ps own) (li_line i) = line_allocated (take_pieces ps mine) (li_line i)"
      by (rule line_allocated_mset) (simp add: own_def take_pieces_eq)
    also have "\<dots> = line_allocated (take_pieces ps ?als) (li_line i)"
      using that by (auto simp: line_allocated_def mine_def take_pieces_eq filter_map comp_def
          intro!: arg_cong [of _ _ "sum_rows al_quantity"] arg_cong [of _ _ "map _"] filter_cong)
    finally show ?thesis .
  qed
  have "released_of lines own (li_line i) = min (li_quantity i) (line_allocated own (li_line i))"
    if "i \<in> set lines" for i
    using that lines(1) by (simp add: released_of_def filter_key row_of_eq_Some [THEN iffD2])
  moreover note frame = deallocate_stock_frame [OF law wf run]
  moreover have "no_oversell t" if "no_oversell s"
    unfolding no_oversell_def
  proof
    fix st' assume "st' \<in> set (sd_stocks t)"
    from stock_heads_agree [OF frame(2) this] obtain st where "st \<in> set (sd_stocks s)" "stock_head st = stock_head st'" .
    with that frame(3) [of "st_pk st"] show "stock_allocated (sd_allocations t) (st_pk st') \<le> st_quantity st'"
      by (force simp: no_oversell_def stock_head_def)
  qed
  ultimately show ?thesis
    using total maps_of_heads(2) [OF frame(2)] old new by (simp add: t als' cong: filter_cong)
qed

definition deallocate_example :: "nat list \<times> stock_db" where
  "deallocate_example = deallocate_stock (first_update st_pk) [sample_line 10 1 3, sample_line 11 1 1] stock_example"

lemma deallocate_stock_releases_witness:
  "fst deallocate_example = [10]
   \<and> line_allocated (sd_allocations (snd deallocate_example)) 10 = 0
   \<and> line_allocated (sd_allocations (snd deallocate_example)) 11 = 1
   \<and> no_oversell (snd deallocate_example)"
proof -
  let ?lines = "[sample_line 10 1 3, sample_line 11 1 1]"
  have lines: "distinct (map li_line ?lines)" "\<forall>i \<in> set ?lines. li_quantity i \<ge> 0" by code_simp+
  have old: "map (\<lambda>i. line_allocated (sd_allocations stock_example) (li_line i)) ?lines = [1, 2]" by code_simp
  have run: "deallocate_stock (first_update st_pk) ?lines stock_example =
      (fst deallocate_example, snd deallocate_example)" by (simp add: deallocate_example_def)
  from deallocate_stock_releases [OF bulk_update_law_first_update stock_example_ok(1) lines run]
    old stock_example_ok(3)
  show ?thesis by (simp add: sample_line_def)
qed

end
