(* ===== verification/Availability.thy ===== *)
theory Availability
  imports StockLaws
begin

section \<open>Availability\<close>

text \<open>
  \<^verbatim>\<open>warehouse/availability.py\<close>: whether a quantity of a variant may be ordered, by stock, by the
  customer's limit and, for preorders, by the thresholds. A \<open>checkout_line\<close> carries the variant
  object the code reads through it. A check that raises is the \<open>Inl\<close> of its exception. The lemmas
  state what the checks decide, against a reference, and where they are wrong.
\<close>

datatype availability_error =
    NotEnough "insufficient list"
  | QuantityGreaterThanLimit int
  | MissingArgument
  | ListingMissing
  | VariantMissing
  | DuplicateReservation
  | SortFailed stock_error

record checkout_line =
  co_pk :: nat
  co_variant :: variant
  co_quantity :: int

record delivery_method_info =
  dm_delivery_method :: bool
  dm_warehouse_pk :: "nat option"

definition short_of :: "variant \<Rightarrow> int \<Rightarrow> nat option \<Rightarrow> insufficient" where
  "short_of v n line = \<lparr>is_available_quantity = n, is_variant = Some (va_pk v),
     is_order_line = line, is_warehouse = None\<rparr>"

subsection \<open>Stock that can be ordered\<close>

text \<open>The reservations of the stocks: neither expiry nor the checkout's own lines are looked at.\<close>

definition get_reserved_stock_quantity :: "stock list \<Rightarrow> stock_db \<Rightarrow> int" where
  "get_reserved_stock_quantity stocks s =
     sum_rows rs_quantity (filter (\<lambda>r. rs_stock r \<in> set (map st_pk stocks)) (sd_reservations s))"

definition get_reserved_stock_quantity_bulk :: "stock list \<Rightarrow> stock_db \<Rightarrow> nat \<Rightarrow> int" where
  "get_reserved_stock_quantity_bulk stocks s v =
     sum_rows rs_quantity (filter (\<lambda>r. \<exists>st \<in> set stocks. st_pk st = rs_stock r \<and> st_variant st = v)
       (sd_reservations s))"

text \<open>\<open>Sum("quantity", distinct=True)\<close> adds up the distinct quantities.\<close>

definition available_quantity_of :: "stock list \<Rightarrow> bool \<Rightarrow> stock_db \<Rightarrow> int" where
  "available_quantity_of stocks check_reservations s =
     (let total_quantity = sum_list (remdups (map st_quantity stocks));
          quantity_allocated = sum_list (map (\<lambda>st. stock_allocated (sd_allocations s) (st_pk st)) stocks);
          quantity_reserved = (if check_reservations then get_reserved_stock_quantity stocks s else 0)
      in max (total_quantity - quantity_allocated - quantity_reserved) 0)"

definition get_available_quantity :: "nat \<Rightarrow> string \<Rightarrow> string \<Rightarrow> bool \<Rightarrow> stock_db \<Rightarrow> int" where
  "get_available_quantity variant country slug check_reservations s =
     (let stocks = get_variant_stocks_for_country country slug variant s
      in if stocks = [] then 0 else available_quantity_of stocks check_reservations s)"

definition check_stock_quantity ::
    "variant \<Rightarrow> string \<Rightarrow> string \<Rightarrow> int \<Rightarrow> bool \<Rightarrow> nat option \<Rightarrow> stock_db \<Rightarrow> availability_error + unit" where
  "check_stock_quantity variant country slug quantity check_reservations order_line s =
     (if va_track_inventory variant
      then (let stocks = get_variant_stocks_for_country country slug (va_pk variant) s
            in if stocks = [] then Inl (NotEnough [short_of variant 0 order_line])
               else if quantity > available_quantity_of stocks check_reservations s
               then Inl (NotEnough [short_of variant 0 order_line]) else Inr ())
      else Inr ())"

definition get_product_stocks_for_country_and_channel :: "string \<Rightarrow> string \<Rightarrow> nat \<Rightarrow> stock_db \<Rightarrow> stock list" where
  "get_product_stocks_for_country_and_channel country slug product s =
     filter (\<lambda>st. \<exists>v \<in> set (sd_variants s). va_pk v = st_variant st \<and> va_product v = product)
       (for_channel_and_country slug (Some country) False s)"

text \<open>\<open>any\<close> of the available quantities: a negative one counts as true.\<close>

definition is_product_in_stock :: "nat \<Rightarrow> string \<Rightarrow> string \<Rightarrow> stock_db \<Rightarrow> bool" where
  "is_product_in_stock product country slug s \<longleftrightarrow>
     list_ex (\<lambda>st. annotate_available_quantity s st \<noteq> 0)
       (get_product_stocks_for_country_and_channel country slug product s)"

subsection \<open>Limits per customer\<close>

text \<open>\<open>filter(order__user=user)\<close> with no user selects the orders without a user.\<close>

definition variant_quantity_allowed :: "nat option \<Rightarrow> variant \<Rightarrow> int option \<Rightarrow> stock_db \<Rightarrow> int" where
  "variant_quantity_allowed user variant global_quantity_limit s =
     (let truthy = (\<lambda>l. case l of None \<Rightarrow> False | Some n \<Rightarrow> n \<noteq> 0);
          quantity_limit = (if truthy (va_quantity_limit_per_customer variant)
            then va_quantity_limit_per_customer variant else global_quantity_limit)
      in if truthy quantity_limit
         then (let lines = filter (\<lambda>l. ol_variant l = Some (va_pk variant)
                  \<and> (\<exists>h \<in> set (sd_orders s). oh_pk h = ol_order l \<and> oh_user h = user
                       \<and> oh_status h \<notin> {OrderStatus_CANCELED, OrderStatus_REFUNDED, OrderStatus_EXPIRED}))
                  (sd_order_lines s)
               in the quantity_limit - sum_rows ol_quantity lines)
         else - 1)"

definition check_quantity_limits ::
    "nat option \<Rightarrow> variant \<Rightarrow> int \<Rightarrow> int option \<Rightarrow> stock_db \<Rightarrow> availability_error + unit" where
  "check_quantity_limits user variant quantity global_quantity_limit s =
     (let quantity_allowed = variant_quantity_allowed user variant global_quantity_limit s
      in if quantity_allowed \<noteq> - 1 \<and> quantity > quantity_allowed
         then Inl (QuantityGreaterThanLimit quantity_allowed) else Inr ())"

subsection \<open>Checks of several variants\<close>

text \<open>The loop of \<open>check_stock_quantity_bulk\<close>; \<open>known\<close> holds the quantities of the existing lines.\<close>

definition line_quantities :: "checkout_line list \<Rightarrow> nat \<Rightarrow> int" where
  "line_quantities existing_lines v =
     (case find (\<lambda>l. va_pk (co_variant l) = v) (rev existing_lines) of None \<Rightarrow> 0 | Some l \<Rightarrow> co_quantity l)"

fun check_stock_loop ::
    "nat option \<Rightarrow> int option \<Rightarrow> (nat \<Rightarrow> stock list) \<Rightarrow> (nat \<Rightarrow> int) \<Rightarrow> (nat \<Rightarrow> int) \<Rightarrow> stock_db
      \<Rightarrow> (variant \<times> int) list \<Rightarrow> availability_error + insufficient list" where
  "check_stock_loop user limit variant_stocks reserved known s [] = Inr []"
| "check_stock_loop user limit variant_stocks reserved known s ((variant, quantity) # rest) =
     (let quantity = quantity + known (va_pk variant);
          stocks = variant_stocks (va_pk variant);
          available_quantity = max (sum_list (map (annotate_available_quantity s) stocks)
                                    - reserved (va_pk variant)) 0;
          lacking = (if stocks = [] \<or> (va_track_inventory variant \<and> quantity > available_quantity)
                     then [short_of variant available_quantity None] else [])
      in if quantity > 0
         then bindr (check_quantity_limits user variant quantity limit s) (\<lambda>_.
              bindr (check_stock_loop user limit variant_stocks reserved known s rest) (\<lambda>ins.
                Inr (lacking @ ins)))
         else check_stock_loop user limit variant_stocks reserved known s rest)"

definition stocks_for_check ::
    "variant list \<Rightarrow> string \<Rightarrow> string \<Rightarrow> delivery_method_info option \<Rightarrow> (stock \<Rightarrow> bool) \<Rightarrow> stock_db \<Rightarrow> stock list" where
  "stocks_for_check variants country slug delivery additional_filter s =
     (let include_cc_warehouses = (case delivery of None \<Rightarrow> True | Some d \<Rightarrow> \<not> dm_delivery_method d);
          collection_point = (case delivery of None \<Rightarrow> None | Some d \<Rightarrow> dm_warehouse_pk d)
      in filter (\<lambda>st. st_variant st \<in> set (map va_pk variants) \<and> additional_filter st)
           (if collection_point \<noteq> None then for_channel_and_click_and_collect slug s
            else for_channel_and_country slug (Some country) include_cc_warehouses s))"

definition check_stock_quantity_bulk ::
    "nat option \<Rightarrow> (variant \<times> int) list \<Rightarrow> string \<Rightarrow> string \<Rightarrow> int option \<Rightarrow> delivery_method_info option
      \<Rightarrow> (stock \<Rightarrow> bool) \<Rightarrow> checkout_line list \<Rightarrow> bool \<Rightarrow> bool \<Rightarrow> stock_db \<Rightarrow> availability_error + unit" where
  "check_stock_quantity_bulk user variants country slug limit delivery additional_filter existing_lines
       replace check_reservations s =
     (let stocks = stocks_for_check (map fst variants) country slug delivery additional_filter s;
          variant_stocks = (\<lambda>v. filter (\<lambda>st. st_variant st = v) stocks);
          reserved = (\<lambda>v. if check_reservations then get_reserved_stock_quantity_bulk stocks s v else 0);
          known = (\<lambda>v. if replace then 0 else line_quantities existing_lines v)
      in bindr (check_stock_loop user limit variant_stocks reserved known s variants) (\<lambda>insufficient_stocks.
           if insufficient_stocks \<noteq> [] then Inl (NotEnough insufficient_stocks) else Inr ()))"

subsection \<open>Preorders\<close>

text \<open>
  What \<open>_get_variants_channel_availbility_info\<close> finds: the listing of a variant in the channel
  (the last one), all listings of a variant, and what all its listings have promised.
\<close>

definition listing_allocated :: "nat \<Rightarrow> stock_db \<Rightarrow> int" where
  "listing_allocated k s =
     sum_rows pa_quantity (filter (\<lambda>p. pa_listing p = k) (sd_preorder_allocations s))"

definition channel_listing_of :: "string \<Rightarrow> nat \<Rightarrow> stock_db \<Rightarrow> channel_listing option" where
  "channel_listing_of slug v s =
     find (\<lambda>c. cl_variant c = v \<and> cl_channel_slug c = slug) (rev (sd_listings s))"

definition listings_of_variant :: "nat \<Rightarrow> stock_db \<Rightarrow> nat list" where
  "listings_of_variant v s = map cl_pk (filter (\<lambda>c. cl_variant c = v) (sd_listings s))"

definition variants_global_allocation :: "nat \<Rightarrow> stock_db \<Rightarrow> int" where
  "variants_global_allocation v s = sum_list (map (\<lambda>k. listing_allocated k s) (listings_of_variant v s))"

definition get_listings_reservations :: "datetime \<Rightarrow> nat list \<Rightarrow> stock_db \<Rightarrow> nat \<Rightarrow> int" where
  "get_listings_reservations now checkout_lines s k =
     listing_reservations now True checkout_lines (sd_preorder_reservations s) k"

definition channel_shortage ::
    "variant \<Rightarrow> int \<Rightarrow> channel_listing \<Rightarrow> (nat \<Rightarrow> int) \<Rightarrow> stock_db \<Rightarrow> insufficient list" where
  "channel_shortage variant quantity listing reserved s =
     (case cl_preorder_quantity_threshold listing of
        None \<Rightarrow> []
      | Some t \<Rightarrow> (let available_channel_quantity = max (t - listing_allocated (cl_pk listing) s - reserved (cl_pk listing)) 0
                   in if quantity > available_channel_quantity
                      then [short_of variant available_channel_quantity None] else []))"

definition global_shortage :: "variant \<Rightarrow> int \<Rightarrow> (nat \<Rightarrow> int) \<Rightarrow> stock_db \<Rightarrow> insufficient list" where
  "global_shortage variant quantity reserved s =
     (case va_preorder_global_threshold variant of
        None \<Rightarrow> []
      | Some t \<Rightarrow> (let global_availability = max (t - variants_global_allocation (va_pk variant) s
                         - sum_list (map reserved (listings_of_variant (va_pk variant) s))) 0
                   in if quantity > global_availability
                      then [short_of variant global_availability None] else []))"

text \<open>In orders the global threshold is looked at only when the channel has one.\<close>

definition check_preorder_threshold_in_orders ::
    "datetime \<Rightarrow> variant \<Rightarrow> int \<Rightarrow> string \<Rightarrow> nat list \<Rightarrow> bool \<Rightarrow> stock_db \<Rightarrow> availability_error + unit" where
  "check_preorder_threshold_in_orders now variant quantity slug checkout_lines check_reservations s =
     (let reserved = (\<lambda>k. if check_reservations then get_listings_reservations now checkout_lines s k else 0)
      in case channel_listing_of slug (va_pk variant) s of
           None \<Rightarrow> Inl ListingMissing
         | Some listing \<Rightarrow>
             let insufficient_stocks = (if cl_preorder_quantity_threshold listing \<noteq> None
                   then channel_shortage variant quantity listing reserved s
                        @ global_shortage variant quantity reserved s else [])
             in if insufficient_stocks \<noteq> [] then Inl (NotEnough insufficient_stocks) else Inr ())"

definition check_stock_and_preorder_quantity ::
    "datetime \<Rightarrow> variant \<Rightarrow> string \<Rightarrow> string \<Rightarrow> int \<Rightarrow> nat list \<Rightarrow> bool \<Rightarrow> nat option \<Rightarrow> stock_db
      \<Rightarrow> availability_error + unit" where
  "check_stock_and_preorder_quantity now variant country slug quantity checkout_lines check_reservations order_line s =
     (if is_preorder_active now variant
      then check_preorder_threshold_in_orders now variant quantity slug checkout_lines check_reservations s
      else check_stock_quantity variant country slug quantity check_reservations order_line s)"

text \<open>
  The loop of \<open>check_preorder_threshold_bulk\<close>: it calls \<open>_check_quantity_limits\<close> without the user,
  three arguments for four parameters, which raises \<open>TypeError\<close> (\<open>MissingArgument\<close>).
\<close>

fun check_preorder_loop ::
    "string \<Rightarrow> (nat \<Rightarrow> int) \<Rightarrow> stock_db \<Rightarrow> (variant \<times> int) list \<Rightarrow> availability_error + insufficient list" where
  "check_preorder_loop slug reserved s [] = Inr []"
| "check_preorder_loop slug reserved s ((variant, quantity) # rest) =
     (if quantity > 0 then Inl MissingArgument
      else case channel_listing_of slug (va_pk variant) s of
        None \<Rightarrow> Inl ListingMissing
      | Some listing \<Rightarrow>
          bindr (check_preorder_loop slug reserved s rest) (\<lambda>ins.
            Inr (channel_shortage variant quantity listing reserved s
                 @ global_shortage variant quantity reserved s @ ins)))"

definition check_preorder_threshold_bulk ::
    "datetime \<Rightarrow> (variant \<times> int) list \<Rightarrow> string \<Rightarrow> checkout_line list \<Rightarrow> bool \<Rightarrow> stock_db \<Rightarrow> availability_error + unit" where
  "check_preorder_threshold_bulk now variants slug existing_lines check_reservations s =
     (let reserved = (\<lambda>k. if check_reservations
            then get_listings_reservations now (map co_pk existing_lines) s k else 0)
      in bindr (check_preorder_loop slug reserved s variants) (\<lambda>insufficient_stocks.
           if insufficient_stocks \<noteq> [] then Inl (NotEnough insufficient_stocks) else Inr ()))"

definition split_lines_for_trackable_and_preorder ::
    "datetime \<Rightarrow> (variant \<times> int) list \<Rightarrow> (variant \<times> int) list \<times> (variant \<times> int) list" where
  "split_lines_for_trackable_and_preorder now variants =
     (filter (\<lambda>(v, _). \<not> is_preorder_active now v) variants,
      filter (\<lambda>(v, _). is_preorder_active now v) variants)"

definition check_stock_and_preorder_quantity_bulk ::
    "datetime \<Rightarrow> nat option \<Rightarrow> (variant \<times> int) list \<Rightarrow> string \<Rightarrow> string \<Rightarrow> int option \<Rightarrow> delivery_method_info option
      \<Rightarrow> (stock \<Rightarrow> bool) \<Rightarrow> checkout_line list \<Rightarrow> bool \<Rightarrow> bool \<Rightarrow> stock_db \<Rightarrow> availability_error + unit" where
  "check_stock_and_preorder_quantity_bulk now user variants country slug limit delivery additional_filter
       existing_lines replace check_reservations s =
     (case split_lines_for_trackable_and_preorder now variants of (stock_variants, preorder_variants) \<Rightarrow>
        bindr (if stock_variants = [] then Inr ()
               else check_stock_quantity_bulk user stock_variants country slug limit delivery
                      additional_filter existing_lines replace check_reservations s) (\<lambda>_.
          if preorder_variants = [] then Inr ()
          else check_preorder_threshold_bulk now preorder_variants slug existing_lines check_reservations s))"

subsection \<open>What the checks decide\<close>

text \<open>The limit that holds for a customer, and what the customer has ordered already.\<close>

definition customer_limit :: "variant \<Rightarrow> int option \<Rightarrow> int option" where
  "customer_limit v global_limit =
     (case va_quantity_limit_per_customer v of
        Some n \<Rightarrow> if n \<noteq> 0 then Some n else (if global_limit = Some 0 then None else global_limit)
      | None \<Rightarrow> if global_limit = Some 0 then None else global_limit)"

definition ordered_already :: "nat option \<Rightarrow> variant \<Rightarrow> stock_db \<Rightarrow> int" where
  "ordered_already user v s = sum_rows ol_quantity (filter (\<lambda>l. ol_variant l = Some (va_pk v)
     \<and> (\<exists>h \<in> set (sd_orders s). oh_pk h = ol_order l \<and> oh_user h = user
          \<and> oh_status h \<notin> {OrderStatus_CANCELED, OrderStatus_REFUNDED, OrderStatus_EXPIRED}))
     (sd_order_lines s))"

lemma variant_quantity_allowed_eq:
  "variant_quantity_allowed user v limit s =
     (case customer_limit v limit of None \<Rightarrow> - 1 | Some n \<Rightarrow> n - ordered_already user v s)"
  by (auto simp: variant_quantity_allowed_def customer_limit_def ordered_already_def Let_def
      split: option.splits)

definition within_limit :: "nat option \<Rightarrow> variant \<Rightarrow> int \<Rightarrow> int option \<Rightarrow> stock_db \<Rightarrow> bool" where
  "within_limit user v quantity limit s \<longleftrightarrow>
     (case customer_limit v limit of None \<Rightarrow> True | Some n \<Rightarrow> ordered_already user v s + quantity \<le> n)"

lemma check_quantity_limits_iff:
  "check_quantity_limits user v quantity limit s = Inr () \<longleftrightarrow>
     within_limit user v quantity limit s
     \<or> (\<exists>n. customer_limit v limit = Some n \<and> ordered_already user v s = n + 1)"
  by (auto simp: check_quantity_limits_def variant_quantity_allowed_eq within_limit_def Let_def
      split: option.splits)

lemma check_quantity_limits_error:
  "check_quantity_limits user v quantity limit s = Inl e \<Longrightarrow> \<exists>n. e = QuantityGreaterThanLimit n \<and> n < quantity"
  by (auto simp: check_quantity_limits_def Let_def split: if_splits)

definition stock_left :: "(nat \<Rightarrow> stock list) \<Rightarrow> (nat \<Rightarrow> int) \<Rightarrow> stock_db \<Rightarrow> nat \<Rightarrow> int" where
  "stock_left variant_stocks reserved s v =
     max (sum_list (map (annotate_available_quantity s) (variant_stocks v)) - reserved v) 0"

definition lacks_stock ::
    "(nat \<Rightarrow> stock list) \<Rightarrow> (nat \<Rightarrow> int) \<Rightarrow> (nat \<Rightarrow> int) \<Rightarrow> stock_db \<Rightarrow> variant \<times> int \<Rightarrow> bool" where
  "lacks_stock variant_stocks reserved known s vq \<longleftrightarrow> snd vq + known (va_pk (fst vq)) > 0
     \<and> (variant_stocks (va_pk (fst vq)) = []
        \<or> (va_track_inventory (fst vq)
            \<and> snd vq + known (va_pk (fst vq)) > stock_left variant_stocks reserved s (va_pk (fst vq))))"

definition limit_passed ::
    "nat option \<Rightarrow> int option \<Rightarrow> (nat \<Rightarrow> int) \<Rightarrow> stock_db \<Rightarrow> variant \<times> int \<Rightarrow> bool" where
  "limit_passed user limit known s vq \<longleftrightarrow> snd vq + known (va_pk (fst vq)) \<le> 0
     \<or> check_quantity_limits user (fst vq) (snd vq + known (va_pk (fst vq))) limit s = Inr ()"

lemma check_stock_loop_iff:
  "check_stock_loop user limit variant_stocks reserved known s vqs = Inr ins \<longleftrightarrow>
     list_all (limit_passed user limit known s) vqs
     \<and> ins = map (\<lambda>vq. short_of (fst vq) (stock_left variant_stocks reserved s (va_pk (fst vq))) None)
         (filter (lacks_stock variant_stocks reserved known s) vqs)"
proof (induction vqs arbitrary: ins)
  case (Cons vq vqs)
  obtain v q where vq: "vq = (v, q)" by (cases vq)
  have "check_stock_loop user limit variant_stocks reserved known s ((v, q) # vqs) =
      (if q + known (va_pk v) > 0
       then bindr (check_quantity_limits user v (q + known (va_pk v)) limit s) (\<lambda>_.
              bindr (check_stock_loop user limit variant_stocks reserved known s vqs) (\<lambda>ins.
                Inr ((if lacks_stock variant_stocks reserved known s (v, q)
                      then [short_of v (stock_left variant_stocks reserved s (va_pk v)) None] else []) @ ins)))
       else check_stock_loop user limit variant_stocks reserved known s vqs)"
    by (simp add: Let_def lacks_stock_def stock_left_def)
  then show ?case
    by (auto simp: vq Cons.IH bindr_eq_Inr limit_passed_def lacks_stock_def)
qed auto

text \<open>
  The reference: every variant asked for in a positive quantity (with what the checkout holds of it)
  passes the customer's limit, has a stock, and, when it is tracked, no more is asked than the
  stocks have left.
\<close>

definition bulk_check_reference ::
    "nat option \<Rightarrow> (variant \<times> int) list \<Rightarrow> stock list \<Rightarrow> int option \<Rightarrow> (nat \<Rightarrow> int) \<Rightarrow> bool \<Rightarrow> stock_db \<Rightarrow> bool" where
  "bulk_check_reference user variants stocks limit known check_reservations s \<longleftrightarrow>
     (\<forall>(v, q) \<in> set variants. let mine = filter (\<lambda>st. st_variant st = va_pk v) stocks;
          asked = q + known (va_pk v);
          held = (if check_reservations then get_reserved_stock_quantity_bulk stocks s (va_pk v) else 0)
        in asked > 0 \<longrightarrow>
          (within_limit user v asked limit s
             \<or> (\<exists>n. customer_limit v limit = Some n \<and> ordered_already user v s = n + 1))
          \<and> mine \<noteq> []
          \<and> (va_track_inventory v \<longrightarrow> asked + held \<le> sum_list (map (annotate_available_quantity s) mine)))"

lemma check_stock_quantity_bulk_iff:
  "check_stock_quantity_bulk user variants country slug limit delivery extra existing_lines replace chk s = Inr ()
     \<longleftrightarrow> bulk_check_reference user variants (stocks_for_check (map fst variants) country slug delivery extra s)
           limit (\<lambda>v. if replace then 0 else line_quantities existing_lines v) chk s"
proof -
  define stocks where "stocks = stocks_for_check (map fst variants) country slug delivery extra s"
  define known where "known = (\<lambda>v. if replace then 0 else line_quantities existing_lines v)"
  define held where "held = (\<lambda>v. if chk then get_reserved_stock_quantity_bulk stocks s v else 0)"
  define mine where "mine = (\<lambda>v. filter (\<lambda>st. st_variant st = v) stocks)"
  have "check_stock_quantity_bulk user variants country slug limit delivery extra existing_lines replace chk s = Inr ()
      \<longleftrightarrow> list_all (limit_passed user limit known s) variants
          \<and> filter (lacks_stock mine held known s) variants = []"
    unfolding check_stock_quantity_bulk_def Let_def stocks_def [symmetric] known_def [symmetric]
      held_def [symmetric] mine_def [symmetric]
    by (auto simp: bindr_eq_Inr check_stock_loop_iff)
  also have "\<dots> \<longleftrightarrow> (\<forall>vq \<in> set variants. limit_passed user limit known s vq \<and> \<not> lacks_stock mine held known s vq)"
    by (auto simp: list_all_iff filter_empty_conv)
  also have "\<dots> \<longleftrightarrow> bulk_check_reference user variants stocks limit known chk s"
    unfolding bulk_check_reference_def
    by (intro ball_cong [OF refl])
      (auto simp: limit_passed_def lacks_stock_def check_quantity_limits_iff stock_left_def mine_def held_def Let_def)
  finally show ?thesis by (simp only: stocks_def known_def)
qed

text \<open>The bulk check passes exactly when every variant asked for has a stock, is within the
  customer's limit (or the customer is exactly one piece over it) and, when tracked, is left in
  the wanted quantity\<close>

theorem bulk_check_decides:
  "check_stock_quantity_bulk user variants country slug limit delivery extra existing_lines replace chk s = Inr ()
     \<longleftrightarrow> bulk_check_reference user variants (stocks_for_check (map fst variants) country slug delivery extra s)
           limit (\<lambda>v. if replace then 0 else line_quantities existing_lines v) chk s"
  by (rule check_stock_quantity_bulk_iff)

lemma sum_distinct_quantities:
  assumes "\<forall>st \<in> set sts. st_quantity st \<ge> 0"
  shows "sum_list (remdups (map st_quantity sts)) \<le> sum_list (map st_quantity sts)"
  using assms by (induction sts) auto

text \<open>What is really left of a variant in a country: all its stocks, less allocations and reservations.\<close>

definition truly_available :: "nat \<Rightarrow> string \<Rightarrow> string \<Rightarrow> bool \<Rightarrow> stock_db \<Rightarrow> int" where
  "truly_available variant country slug check_reservations s =
     (let stocks = get_variant_stocks_for_country country slug variant s
      in max (sum_list (map (annotate_stock_available_quantity s) stocks)
              - (if check_reservations then get_reserved_stock_quantity stocks s else 0)) 0)"

lemma get_variant_stocks_subset:
  "set (get_variant_stocks_for_country country slug variant s) \<subseteq> set (sd_stocks s)"
  by (auto simp: get_variant_stocks_for_country_def for_channel_and_country_def Let_def)

lemma sum_available:
  "sum_list (map (annotate_stock_available_quantity s) sts) = sum_list (map st_quantity sts)
     - sum_list (map (\<lambda>st. stock_allocated (sd_allocations s) (st_pk st)) sts)"
  by (induction sts) (auto simp: annotate_stock_available_quantity_def)

lemma get_available_quantity_cases:
  assumes nonneg: "\<forall>st \<in> set (sd_stocks s). st_quantity st \<ge> 0"
    and held: "\<forall>r \<in> set (sd_reservations s). rs_quantity r \<ge> 0"
  shows "get_available_quantity v country slug chk s \<le> truly_available v country slug chk s"
    and "distinct (map st_quantity (get_variant_stocks_for_country country slug v s))
      \<Longrightarrow> get_available_quantity v country slug chk s = truly_available v country slug chk s"
proof -
  let ?sts = "get_variant_stocks_for_country country slug v s"
  have "\<forall>st \<in> set ?sts. st_quantity st \<ge> 0" using nonneg get_variant_stocks_subset by blast
  note le = sum_distinct_quantities [OF this]
  have "sum_rows rs_quantity rs \<ge> 0" if "set rs \<subseteq> set (sd_reservations s)" for rs
    using held that by (induction rs) auto
  then have "get_reserved_stock_quantity ?sts s \<ge> 0" by (auto simp: get_reserved_stock_quantity_def)
  with le show "get_available_quantity v country slug chk s \<le> truly_available v country slug chk s"
    by (auto simp: get_available_quantity_def truly_available_def available_quantity_of_def Let_def sum_available)
  assume "distinct (map st_quantity ?sts)"
  then have "sum_list (remdups (map st_quantity ?sts)) = sum_list (map st_quantity ?sts)"
    by (simp only: distinct_remdups_id)
  then show "get_available_quantity v country slug chk s = truly_available v country slug chk s"
    using \<open>get_reserved_stock_quantity ?sts s \<ge> 0\<close>
    by (auto simp: get_available_quantity_def truly_available_def available_quantity_of_def Let_def sum_available)
qed

text \<open>The available quantity of a variant never exceeds what its stocks have left, and equals
  it when no two of the stocks hold the same quantity\<close>

theorem available_quantity_underestimates:
  assumes "\<forall>st \<in> set (sd_stocks s). st_quantity st \<ge> 0"
    and "\<forall>r \<in> set (sd_reservations s). rs_quantity r \<ge> 0"
  shows "get_available_quantity v country slug chk s \<le> truly_available v country slug chk s
    \<and> (distinct (map st_quantity (get_variant_stocks_for_country country slug v s))
         \<longrightarrow> get_available_quantity v country slug chk s = truly_available v country slug chk s)"
  using get_available_quantity_cases [OF assms] by blast

text \<open>Two warehouses with 4 pieces each offer 4 pieces.\<close>

definition equal_stocks_example :: stock_db where
  "equal_stocks_example = stock_example\<lparr>sd_allocations := [],
     sd_stocks := map (\<lambda>st. st\<lparr>st_quantity := 4, st_quantity_allocated := 0\<rparr>) (sd_stocks stock_example)\<rparr>"

lemma available_quantity_underestimates_witness:
  "get_available_quantity 1 ''CN'' ''main'' True equal_stocks_example = 4
   \<and> truly_available 1 ''CN'' ''main'' True equal_stocks_example = 8
   \<and> get_available_quantity 2 ''CN'' ''main'' True equal_stocks_example
       = truly_available 2 ''CN'' ''main'' True equal_stocks_example"
proof -
  have "\<forall>st \<in> set (sd_stocks equal_stocks_example). st_quantity st \<ge> 0"
    "\<forall>r \<in> set (sd_reservations equal_stocks_example). rs_quantity r \<ge> 0"
    "distinct (map st_quantity (get_variant_stocks_for_country ''CN'' ''main'' 2 equal_stocks_example))"
    by code_simp+
  with available_quantity_underestimates [of equal_stocks_example 2 "''CN''" "''main''" True]
  have "get_available_quantity 2 ''CN'' ''main'' True equal_stocks_example
      = truly_available 2 ''CN'' ''main'' True equal_stocks_example" by blast
  moreover have "get_available_quantity 1 ''CN'' ''main'' True equal_stocks_example = 4"
    "truly_available 1 ''CN'' ''main'' True equal_stocks_example = 8" by code_simp+
  ultimately show ?thesis by blast
qed

subsection \<open>Preorders cannot be bought in bulk\<close>

lemma check_preorder_loop_fails:
  "(v, q) \<in> set vqs \<Longrightarrow> q > 0 \<Longrightarrow> check_preorder_loop slug reserved s vqs \<in> {Inl MissingArgument, Inl ListingMissing}"
proof (induction vqs)
  case (Cons vq vqs)
  obtain v' q' where vq: "vq = (v', q')" by (cases vq)
  show ?case
  proof (cases "q' > 0")
    case False
    with Cons vq have "check_preorder_loop slug reserved s vqs \<in> {Inl MissingArgument, Inl ListingMissing}" by auto
    with False show ?thesis by (auto simp: vq split: option.splits)
  qed (simp add: vq)
qed simp

text \<open>
  A bulk check that contains a preorder variant in a positive quantity always ends in an
  exception.
\<close>

theorem preorder_check_never_passes:
  assumes "(v, q) \<in> set variants" "is_preorder_active now v" "q > 0"
  shows "\<exists>e. check_stock_and_preorder_quantity_bulk now user variants country slug limit delivery extra
           existing_lines replace chk s = Inl e"
proof -
  let ?pre = "snd (split_lines_for_trackable_and_preorder now variants)"
  have mem: "(v, q) \<in> set ?pre" using assms(1,2) by (simp add: split_lines_for_trackable_and_preorder_def)
  then have ne: "?pre \<noteq> []" by auto
  have "\<exists>e. check_preorder_threshold_bulk now ?pre slug existing_lines chk s = Inl e"
    unfolding check_preorder_threshold_bulk_def Let_def
    using check_preorder_loop_fails [OF mem assms(3), of slug "\<lambda>k. if chk then get_listings_reservations now
        (map co_pk existing_lines) s k else 0" s]
    by auto
  then show ?thesis using ne
    by (auto simp: check_stock_and_preorder_quantity_bulk_def bindr_def split: prod.splits sum.splits)
qed

definition preorder_variant :: variant where
  "preorder_variant = (sample_variant 1)\<lparr>va_is_preorder := True\<rparr>"

lemma preorder_check_never_passes_witness:
  "\<exists>e. check_stock_and_preorder_quantity_bulk (2024, 3, 1, 0) (Some 3) [(preorder_variant, 1)] ''CN'' ''main''
         None None (\<lambda>_. True) [] False False
         (stock_example\<lparr>sd_listings := [\<lparr>cl_pk = 1, cl_channel_slug = ''main'', cl_variant = 1,
            cl_preorder_quantity_threshold = None\<rparr>]\<rparr>) = Inl e"
  by (rule preorder_check_never_passes [of preorder_variant 1]) code_simp+

end
