(* ===== verification/Reservations.thy ===== *)
theory Reservations
  imports Availability
begin

section \<open>Reservations and the upkeep of the warehouse\<close>

text \<open>
  \<^verbatim>\<open>warehouse/reservations.py\<close>: a checkout holds stock (\<open>reserve_stocks\<close>) and preorders
  (\<open>reserve_preorders\<close>) for its lines until a time, and \<^verbatim>\<open>warehouse/tasks.py\<close>: the periodic jobs
  that delete empty allocations and expired reservations and repair the stored counters.
\<close>

subsection \<open>Adding minutes to a time\<close>

definition month_length :: "int \<Rightarrow> int \<Rightarrow> int" where
  "month_length y m = (if m = 2 then if is_leap y then 29 else 28
     else if m \<in> {4, 6, 9, 11} then 30 else 31)"

fun next_day :: "datetime \<Rightarrow> datetime" where
  "next_day (y, m, d, t) =
     (if d < month_length y m then (y, m, d + 1, t)
      else if m < 12 then (y, m + 1, 1, t) else (y + 1, 1, 1, t))"

fun previous_day :: "datetime \<Rightarrow> datetime" where
  "previous_day (y, m, d, t) =
     (if d > 1 then (y, m, d - 1, t)
      else if m > 1 then (y, m - 1, month_length y (m - 1), t) else (y - 1, 12, 31, t))"

definition day_microseconds :: int where
  "day_microseconds = 24 * 60 * 60 * 1000000"

fun add_minutes :: "datetime \<Rightarrow> int \<Rightarrow> datetime" where
  "add_minutes (y, m, d, t) n =
     (let t' = t + n * 60 * 1000000; days = t' div day_microseconds
      in (if days \<ge> 0 then next_day ^^ nat days else previous_day ^^ nat (- days))
           (y, m, d, t' mod day_microseconds))"

lemma add_minutes_examples:
  "add_minutes (2024, 2, 28, 23 * 3600 * 1000000) 120 = (2024, 2, 29, 3600 * 1000000)"
  "add_minutes (2024, 12, 31, 0) 1440 = (2025, 1, 1, 0)"
  "add_minutes (2024, 3, 1, 0) (- 1) = (2024, 2, 29, 1439 * 60 * 1000000)"
  by code_simp+

subsection \<open>Settings\<close>

record reservation_settings =
  reserve_stock_duration_authenticated_user :: "int option"
  reserve_stock_duration_anonymous_user :: "int option"

definition is_reservation_enabled :: "reservation_settings \<Rightarrow> bool" where
  "is_reservation_enabled settings \<longleftrightarrow>
     (\<exists>n \<in> {reserve_stock_duration_authenticated_user settings, reserve_stock_duration_anonymous_user settings}.
        n \<noteq> None \<and> n \<noteq> Some 0)"

definition get_reservation_length :: "reservation_settings \<Rightarrow> nat option \<Rightarrow> int option" where
  "get_reservation_length settings user =
     (if user \<noteq> None then reserve_stock_duration_authenticated_user settings
      else reserve_stock_duration_anonymous_user settings)"

subsection \<open>Reserving stock\<close>

definition variants_of_lines :: "checkout_line list \<Rightarrow> variant list \<Rightarrow> variant list" where
  "variants_of_lines lines variants =
     filter (\<lambda>v. va_pk v \<in> set (map (va_pk \<circ> co_variant) lines)) variants"

text \<open>\<open>variants_map\<close>: of variants with the same key the last one counts.\<close>

fun get_checkout_lines_to_reserve ::
    "checkout_line list \<Rightarrow> variant list \<Rightarrow> availability_error + checkout_line list" where
  "get_checkout_lines_to_reserve [] variants = Inr []"
| "get_checkout_lines_to_reserve (line # lines) variants =
     (if co_quantity line = 0 then get_checkout_lines_to_reserve lines variants
      else case row_of va_pk (va_pk (co_variant line)) (rev variants) of
        None \<Rightarrow> Inl VariantMissing
      | Some v \<Rightarrow> bindr (get_checkout_lines_to_reserve lines variants) (\<lambda>valid_lines.
          Inr (if va_track_inventory v then line # valid_lines else valid_lines)))"

definition quantity_reservation_for_stocks ::
    "datetime \<Rightarrow> checkout_line list \<Rightarrow> nat list \<Rightarrow> stock_db \<Rightarrow> nat \<Rightarrow> int" where
  "quantity_reservation_for_stocks now lines stocks_id s k =
     (if k \<in> set stocks_id
      then sum_rows rs_quantity (filter (\<lambda>r. rs_stock r = k \<and> rs_quantity r > 0
              \<and> not_expired now (rs_reserved_until r)
              \<and> exclude_checkout_lines (map co_pk lines) (rs_checkout_line r)) (sd_reservations s))
      else 0)"

text \<open>
  One line: its pieces, or the line among the insufficient ones with the quantity asked for as
  the available one. A line of quantity 0 would make the function forget the lines before it.
\<close>

definition create_stock_reservations ::
    "checkout_line \<Rightarrow> stock list \<Rightarrow> (nat \<Rightarrow> int) \<Rightarrow> (nat \<Rightarrow> int) \<Rightarrow> insufficient list
      \<Rightarrow> insufficient list \<times> new_allocation list" where
  "create_stock_reservations line stocks allocated reserved insufficient_stocks =
     (let quantity = co_quantity line;
          available = (\<lambda>st. max (st_quantity st - allocated (st_pk st) - reserved (st_pk st)) 0)
      in case allocation_loop quantity available 0 stocks of
        (pieces, quantity_reserved, returned) \<Rightarrow>
          if returned then (insufficient_stocks, map (\<lambda>(k, q). (co_pk line, k, q)) pieces)
          else if quantity_reserved \<noteq> quantity
          then (insufficient_stocks @ [short_of (co_variant line) quantity None], [])
          else ([], []))"

fun create_all_reservations ::
    "checkout_line list \<Rightarrow> stock list \<Rightarrow> (nat \<Rightarrow> int) \<Rightarrow> (nat \<Rightarrow> int) \<Rightarrow> insufficient list
      \<Rightarrow> insufficient list \<times> new_allocation list" where
  "create_all_reservations [] stocks allocated reserved insufficient_stocks = (insufficient_stocks, [])"
| "create_all_reservations (line # lines) stocks allocated reserved insufficient_stocks =
     (case create_stock_reservations line (filter (\<lambda>st. st_variant st = va_pk (co_variant line)) stocks)
             allocated reserved insufficient_stocks of
        (insufficient_stocks, news) \<Rightarrow>
     (case create_all_reservations lines stocks allocated reserved insufficient_stocks of
        (insufficient_stocks, news') \<Rightarrow> (insufficient_stocks, news @ news')))"

definition reservation_row :: "datetime \<Rightarrow> new_allocation \<Rightarrow> reservation" where
  "reservation_row reserved_until n = \<lparr>rs_order_line = None, rs_checkout_line = Some (fst n),
     rs_stock = fst (snd n), rs_quantity = snd (snd n), rs_reserved_until = reserved_until\<rparr>"

text \<open>A checkout line has at most one reservation per stock (\<open>unique_together\<close>; null is not compared).\<close>

definition reservation_bulk_create :: "reservation list \<Rightarrow> stock_db \<Rightarrow> availability_error + stock_db" where
  "reservation_bulk_create news s =
     (let rows = sd_reservations s @ news
      in if distinct (map (\<lambda>r. (rs_checkout_line r, rs_stock r)) (filter (\<lambda>r. rs_checkout_line r \<noteq> None) rows))
         then Inr (s\<lparr>sd_reservations := rows\<rparr>) else Inl DuplicateReservation)"

definition delete_reservations_of :: "checkout_line list \<Rightarrow> stock_db \<Rightarrow> stock_db" where
  "delete_reservations_of lines s =
     s\<lparr>sd_reservations := filter (\<lambda>r. rs_checkout_line r \<notin> Some ` set (map co_pk lines)) (sd_reservations s)\<rparr>"

definition reserve_stocks ::
    "datetime \<Rightarrow> checkout_line list \<Rightarrow> variant list \<Rightarrow> string \<Rightarrow> channel \<Rightarrow> datetime \<Rightarrow> bool \<Rightarrow> stock_db
      \<Rightarrow> availability_error + stock_db" where
  "reserve_stocks now checkout_lines variants country_code channel reserved_until replace s =
     (let variants = variants_of_lines checkout_lines variants
      in bindr (get_checkout_lines_to_reserve checkout_lines variants) (\<lambda>lines.
        if lines = [] then Inr s
        else
         let stocks = get_variants_stocks_for_country country_code (ch_slug channel) (map va_pk variants) s;
             allocated = quantity_allocation_for_stocks (map st_pk stocks) (sd_allocations s);
             reserved = quantity_reservation_for_stocks now lines (map st_pk stocks) s
         in case sort_stocks (ch_allocation_strategy channel) stocks (ch_pk channel) allocated None s of
              Inl e \<Rightarrow> Inl (SortFailed e)
            | Inr stocks \<Rightarrow>
                (case create_all_reservations lines stocks allocated reserved [] of
                  (insufficient_stocks, news) \<Rightarrow>
                    if insufficient_stocks \<noteq> [] then Inl (NotEnough insufficient_stocks)
                    else if news = [] then Inr s
                    else reservation_bulk_create (map (reservation_row reserved_until) news)
                           (if replace then delete_reservations_of lines s else s))))"

subsection \<open>Reserving preorders\<close>

definition truthy_threshold :: "int option \<Rightarrow> bool" where
  "truthy_threshold t \<longleftrightarrow> t \<noteq> None \<and> t \<noteq> Some 0"

text \<open>
  A line is to be reserved when the channel's listing or the variant itself limits preorders; its
  listing in the channel is looked up for every line.
\<close>

fun preorder_lines_to_reserve ::
    "checkout_line list \<Rightarrow> (nat \<Rightarrow> channel_listing option) \<Rightarrow> availability_error + (checkout_line \<times> channel_listing) list" where
  "preorder_lines_to_reserve [] listing_of = Inr []"
| "preorder_lines_to_reserve (line # lines) listing_of =
     (case listing_of (va_pk (co_variant line)) of
        None \<Rightarrow> Inl ListingMissing
      | Some listing \<Rightarrow> bindr (preorder_lines_to_reserve lines listing_of) (\<lambda>rest.
          Inr (if truthy_threshold (va_preorder_global_threshold (co_variant line))
                  \<or> cl_preorder_quantity_threshold listing \<noteq> None
               then (line, listing) # rest else rest)))"

definition create_preorder_reservation ::
    "checkout_line \<Rightarrow> variant \<Rightarrow> channel_listing \<Rightarrow> nat list \<Rightarrow> (nat \<Rightarrow> int) \<Rightarrow> datetime \<Rightarrow> stock_db
      \<Rightarrow> insufficient list \<times> preorder_reservation option" where
  "create_preorder_reservation line variant listing all_listings listings_reservations reserved_until s =
     (let quantity = co_quantity line;
          in_channel = channel_shortage variant quantity listing listings_reservations s;
          global_threshold = va_preorder_global_threshold variant;
          available_global_quantity = max (the global_threshold - sum_list (map (\<lambda>k. listing_allocated k s) all_listings)
              - sum_list (map listings_reservations all_listings)) 0;
          in_general = (if truthy_threshold global_threshold \<and> quantity > available_global_quantity
                        then [short_of variant available_global_quantity None] else [])
      in (in_channel @ in_general,
          if truthy_threshold (cl_preorder_quantity_threshold listing) \<or> truthy_threshold global_threshold
          then Some \<lparr>pr_checkout_line = co_pk line, pr_listing = cl_pk listing, pr_quantity = quantity,
                     pr_reserved_until = reserved_until\<rparr>
          else None))"

definition preorder_reservation_bulk_create ::
    "preorder_reservation list \<Rightarrow> stock_db \<Rightarrow> availability_error + stock_db" where
  "preorder_reservation_bulk_create news s =
     (let rows = sd_preorder_reservations s @ news
      in if distinct (map (\<lambda>r. (pr_checkout_line r, pr_listing r)) rows)
         then Inr (s\<lparr>sd_preorder_reservations := rows\<rparr>) else Inl DuplicateReservation)"

definition delete_preorder_reservations_of :: "checkout_line list \<Rightarrow> stock_db \<Rightarrow> stock_db" where
  "delete_preorder_reservations_of lines s =
     s\<lparr>sd_preorder_reservations :=
        filter (\<lambda>r. pr_checkout_line r \<notin> set (map co_pk lines)) (sd_preorder_reservations s)\<rparr>"

text \<open>
  The reservations are written when the loop's last one (\<open>if reservation\<close>) exists.
\<close>

definition reserve_preorders ::
    "datetime \<Rightarrow> checkout_line list \<Rightarrow> variant list \<Rightarrow> string \<Rightarrow> datetime \<Rightarrow> bool \<Rightarrow> stock_db
      \<Rightarrow> availability_error + stock_db" where
  "reserve_preorders now checkout_lines variants channel_slug reserved_until replace s =
     (let variants = variants_of_lines checkout_lines variants;
          all_listings = filter (\<lambda>c. cl_variant c \<in> set (map va_pk variants)) (sd_listings s);
          listing_of = (\<lambda>v. find (\<lambda>c. cl_variant c = v \<and> cl_channel_slug c = channel_slug) (rev all_listings));
          listings_reservations = get_listings_reservations now (map co_pk checkout_lines) s
      in bindr (preorder_lines_to_reserve checkout_lines listing_of) (\<lambda>to_reserve.
        if to_reserve = [] then Inr s
        else
         let results = map (\<lambda>(line, listing).
               create_preorder_reservation line
                 (case row_of va_pk (va_pk (co_variant line)) (rev variants) of
                    None \<Rightarrow> co_variant line | Some v \<Rightarrow> v)
                 listing (listings_of_variant (va_pk (co_variant line)) s) listings_reservations reserved_until s)
               to_reserve;
             insufficient_stocks = concat (map fst results)
         in if insufficient_stocks \<noteq> [] then Inl (NotEnough insufficient_stocks)
            else if snd (last results) = None then Inr s
            else preorder_reservation_bulk_create (concat (map (\<lambda>r. case snd r of None \<Rightarrow> [] | Some p \<Rightarrow> [p]) results))
                   (if replace then delete_preorder_reservations_of (map fst to_reserve) s else s)))"

subsection \<open>Reserving both\<close>

definition refresh_reservations :: "datetime \<Rightarrow> checkout_line list \<Rightarrow> stock_db \<Rightarrow> stock_db" where
  "refresh_reservations reserved_until lines s =
     s\<lparr>sd_reservations := map (\<lambda>r. if rs_checkout_line r \<in> Some ` set (map co_pk lines)
         then r\<lparr>rs_reserved_until := reserved_until\<rparr> else r) (sd_reservations s)\<rparr>"

definition refresh_preorder_reservations :: "datetime \<Rightarrow> checkout_line list \<Rightarrow> stock_db \<Rightarrow> stock_db" where
  "refresh_preorder_reservations reserved_until lines s =
     s\<lparr>sd_preorder_reservations := map (\<lambda>r. if pr_checkout_line r \<in> set (map co_pk lines)
         then r\<lparr>pr_reserved_until := reserved_until\<rparr> else r) (sd_preorder_reservations s)\<rparr>"

definition reserve_stocks_and_preorders ::
    "datetime \<Rightarrow> checkout_line list \<Rightarrow> checkout_line list \<Rightarrow> variant list \<Rightarrow> string \<Rightarrow> channel \<Rightarrow> int \<Rightarrow> bool
      \<Rightarrow> stock_db \<Rightarrow> availability_error + stock_db" where
  "reserve_stocks_and_preorders now checkout_lines lines_to_update variants country_code channel
       length_in_minutes replace s =
     (let preorder = is_preorder_active now;
          stock_variants = filter (\<lambda>v. \<not> preorder v) variants;
          preorder_variants = filter preorder variants;
          stock_lines = filter (\<lambda>l. \<not> preorder (co_variant l)) checkout_lines;
          preorder_lines = filter (\<lambda>l. preorder (co_variant l)) checkout_lines;
          reserved_until = add_minutes now length_in_minutes
      in bindr (if stock_lines = [] then Inr s
                else bindr (reserve_stocks now stock_lines stock_variants country_code channel reserved_until replace s)
                       (\<lambda>s. Inr (refresh_reservations reserved_until lines_to_update s))) (\<lambda>s.
         if preorder_lines = [] then Inr s
         else bindr (reserve_preorders now preorder_lines preorder_variants (ch_slug channel) reserved_until replace s)
                (\<lambda>s. Inr (refresh_preorder_reservations reserved_until lines_to_update s))))"

subsection \<open>Periodic jobs\<close>

definition delete_empty_allocations_task :: "stock_db \<Rightarrow> stock_db" where
  "delete_empty_allocations_task s =
     s\<lparr>sd_allocations := filter (\<lambda>a. al_quantity a \<noteq> 0) (sd_allocations s)\<rparr>"

definition delete_expired_reservations_task :: "datetime \<Rightarrow> stock_db \<Rightarrow> stock_db" where
  "delete_expired_reservations_task now s =
     s\<lparr>sd_reservations := filter (\<lambda>r. \<not> rs_reserved_until r < now) (sd_reservations s),
       sd_preorder_reservations := filter (\<lambda>r. \<not> pr_reserved_until r < now) (sd_preorder_reservations s)\<rparr>"

definition set_allocated :: "nat \<times> int \<Rightarrow> nat \<times> (stock \<Rightarrow> stock)" where
  "set_allocated kn = (fst kn, \<lambda>st. st\<lparr>st_quantity_allocated := snd kn\<rparr>)"

definition update_stocks_quantity_allocated_task :: "stock_bulk_update \<Rightarrow> stock_db \<Rightarrow> stock_db" where
  "update_stocks_quantity_allocated_task bu s =
     (let mismatched = filter (\<lambda>st. st_quantity_allocated st \<noteq> stock_allocated (sd_allocations s) (st_pk st)) (sd_stocks s);
          stocks_to_update = map (\<lambda>st. (st_pk st, stock_allocated (sd_allocations s) (st_pk st))) mismatched
      in s\<lparr>sd_stocks := bu (map set_allocated stocks_to_update) (sd_stocks s)\<rparr>)"

text \<open>\<^verbatim>\<open>warehouse/validation.py\<close>: may these zones be given to this warehouse (\<open>None\<close>: not saved yet)?\<close>

definition validate_warehouse_count :: "nat list \<Rightarrow> nat option \<Rightarrow> stock_db \<Rightarrow> bool" where
  "validate_warehouse_count zones instance_id s =
     (let warehouses = remdups (concat (map sz_warehouses (filter (\<lambda>z. sz_pk z \<in> set zones) (sd_zones s))))
      in if warehouses = [] then True
         else if length warehouses > 1 then False
         else instance_id \<noteq> None \<and> set warehouses = {the instance_id})"

subsection \<open>Reservations fit into what is left\<close>

text \<open>
  What lines reserve is what they would be allocated: \<open>as_info\<close> reads a checkout line as an order
  line, and the lemmas on allocating apply.
\<close>

definition as_info :: "checkout_line \<Rightarrow> line_info" where
  "as_info line = \<lparr>li_line = co_pk line, li_variant = Some (co_variant line), li_quantity = co_quantity line,
     li_warehouse = None\<rparr>"

lemma as_info_simps [simp]:
  "li_line (as_info l) = co_pk l" "line_variant (as_info l) = va_pk (co_variant l)"
  "li_quantity (as_info l) = co_quantity l"
  by (simp_all add: as_info_def line_variant_def)

lemma allocation_loop_floor:
  "allocation_loop q (\<lambda>st. max (av st) 0) a sts = allocation_loop q av a sts"
proof (induction sts arbitrary: a)
  case (Cons st sts)
  show ?case
  proof (cases "av st > 0")
    case True
    with Cons show ?thesis by (simp add: Let_def)
  next
    case False
    then have "\<not> min (q - a) (max (av st) 0) > 0" "\<not> min (q - a) (av st) > 0" by auto
    with Cons show ?thesis by (simp only: allocation_loop.simps Let_def if_False)
  qed
qed simp

lemma allocation_loop_short:
  "allocation_loop q av a sts = (ps, t, False) \<Longrightarrow> a \<noteq> q \<Longrightarrow> t \<noteq> q"
proof (induction sts arbitrary: a ps t)
  case (Cons st sts)
  show ?case
  proof (cases "min (q - a) (av st) > 0")
    case True
    obtain ps' t' r where rec: "allocation_loop q av (a + min (q - a) (av st)) sts = (ps', t', r)"
      by (metis prod_cases3)
    from Cons.prems True rec have "a + min (q - a) (av st) \<noteq> q" "t' = t" "\<not> r"
      by (auto simp: Let_def split: if_splits)
    with Cons.IH [of "a + min (q - a) (av st)" ps' t] rec show ?thesis by simp
  next
    case False
    then have "allocation_loop q av a (st # sts) = allocation_loop q av a sts"
      by (simp only: allocation_loop.simps Let_def if_False)
    with Cons.prems(1) have "allocation_loop q av a sts = (ps, t, False)" by (simp only:)
    from Cons.IH [OF this Cons.prems(2)] show ?thesis .
  qed
qed simp

lemma create_stock_reservations_outcome:
  assumes "create_stock_reservations line sts al rv ins = ([], news)" "co_quantity line \<noteq> 0"
  shows "ins = [] \<and> create_allocations (as_info line) sts al rv = Inr ([], news)"
proof -
  obtain ps t r where loop: "allocation_loop (co_quantity line)
      (\<lambda>st. st_quantity st - al (st_pk st) - rv (st_pk st)) 0 sts = (ps, t, r)" by (metis prod_cases3)
  note res = assms(1) [unfolded create_stock_reservations_def Let_def, unfolded allocation_loop_floor loop prod.case]
  have "r"
  proof (rule ccontr)
    assume "\<not> r"
    with loop allocation_loop_short assms(2) have "t \<noteq> co_quantity line" by auto
    with \<open>\<not> r\<close> res show False by simp
  qed
  with res show ?thesis by (auto simp: create_allocations_def loop)
qed

lemma create_all_reservations_outcome:
  assumes "create_all_reservations lines sts al rv ins = ([], news)" "\<forall>l \<in> set lines. co_quantity l \<noteq> 0"
  shows "ins = [] \<and> create_all_allocations (map as_info lines) sts al rv = Inr ([], news)"
  using assms
proof (induction lines arbitrary: ins news)
  case (Cons line lines)
  let ?mine = "filter (\<lambda>st. st_variant st = va_pk (co_variant line)) sts"
  obtain ins1 n1 where one: "create_stock_reservations line ?mine al rv ins = (ins1, n1)" by fastforce
  obtain ins2 n2 where rest: "create_all_reservations lines sts al rv ins1 = (ins2, n2)" by fastforce
  from Cons.prems one rest have eq: "ins2 = []" "news = n1 @ n2" by auto
  from Cons.IH [of ins1 n2] rest eq Cons.prems(2) have
    ih: "ins1 = []" "create_all_allocations (map as_info lines) sts al rv = Inr ([], n2)" by auto
  from create_stock_reservations_outcome [of line ?mine al rv ins n1] one ih Cons.prems(2)
  have "ins = []" "create_allocations (as_info line) ?mine al rv = Inr ([], n1)" by auto
  with ih show ?case by (simp add: eq)
qed simp

definition reservable :: "variant list \<Rightarrow> checkout_line \<Rightarrow> bool" where
  "reservable vs line \<longleftrightarrow> co_quantity line \<noteq> 0
     \<and> (case row_of va_pk (va_pk (co_variant line)) (rev vs) of None \<Rightarrow> False | Some v \<Rightarrow> va_track_inventory v)"

lemma get_checkout_lines_to_reserve_outcome:
  "get_checkout_lines_to_reserve lines vs = Inr valid \<Longrightarrow> valid = filter (reservable vs) lines"
  by (induction lines arbitrary: valid) (auto simp: bindr_eq_Inr reservable_def split: if_splits option.splits)

text \<open>What is held of a stock at a time, and that it fits beside what is allocated.\<close>

definition live_reserved :: "datetime \<Rightarrow> reservation list \<Rightarrow> nat \<Rightarrow> int" where
  "live_reserved now rs k =
     sum_rows rs_quantity (filter (\<lambda>r. rs_stock r = k \<and> not_expired now (rs_reserved_until r)) rs)"

definition reservations_fit :: "datetime \<Rightarrow> stock_db \<Rightarrow> bool" where
  "reservations_fit now s \<longleftrightarrow> (\<forall>st \<in> set (sd_stocks s).
     stock_allocated (sd_allocations s) (st_pk st) + live_reserved now (sd_reservations s) (st_pk st) \<le> st_quantity st)"

definition line_reserved :: "reservation list \<Rightarrow> nat \<Rightarrow> int" where
  "line_reserved rs l = sum_rows rs_quantity (filter (\<lambda>r. rs_checkout_line r = Some l) rs)"

lemma live_reserved_append [simp]:
  "live_reserved now (rs @ rs') k = live_reserved now rs k + live_reserved now rs' k"
  by (simp add: live_reserved_def)

lemma live_reserved_rows:
  "\<forall>n \<in> set news. snd (snd n) > 0 \<Longrightarrow> live_reserved now (map (reservation_row until) news) k
     \<le> sum_list (deltas_of (map snd news) k)"
  "\<forall>n \<in> set news. snd (snd n) > 0 \<Longrightarrow> sum_list (deltas_of (map snd news) k) \<ge> 0"
  by (induction news) (auto simp: live_reserved_def reservation_row_def)

lemma line_reserved_rows:
  "line_reserved (map (reservation_row until) news) l = sum_list (map (snd \<circ> snd) (filter (\<lambda>n. fst n = l) news))"
  by (induction news) (auto simp: line_reserved_def reservation_row_def)

lemma line_reserved_append [simp]:
  "line_reserved (rs @ rs') l = line_reserved rs l + line_reserved rs' l"
  by (simp add: line_reserved_def)

text \<open>What the other checkouts hold of a stock is what stays when the lines' reservations are deleted.\<close>

lemma held_by_others:
  assumes "\<forall>r \<in> set (sd_reservations s). rs_quantity r \<ge> 0" "k \<in> set ids" "lines \<noteq> []"
  shows "quantity_reservation_for_stocks now lines ids s k
    = live_reserved now (sd_reservations (delete_reservations_of lines s)) k"
proof -
  have "sum_rows rs_quantity (filter (\<lambda>r. rs_stock r = k \<and> rs_quantity r > 0
          \<and> not_expired now (rs_reserved_until r) \<and> P r) rs)
      = sum_rows rs_quantity (filter (\<lambda>r. rs_stock r = k \<and> not_expired now (rs_reserved_until r)) (filter P rs))"
    if "\<forall>r \<in> set rs. rs_quantity r \<ge> 0" for P rs
    using that by (induction rs) auto
  from this [OF assms(1)] assms(2,3) show ?thesis
    by (simp add: quantity_reservation_for_stocks_def live_reserved_def delete_reservations_of_def
        exclude_checkout_lines_def del: filter_filter)
qed

lemma delete_reservations_less:
  assumes "\<forall>r \<in> set (sd_reservations s). rs_quantity r \<ge> 0"
  shows "live_reserved now (sd_reservations (delete_reservations_of lines s)) k \<le> live_reserved now (sd_reservations s) k"
proof -
  have "live_reserved now (filter p rs) k \<le> live_reserved now rs k" if "\<forall>r \<in> set rs. rs_quantity r \<ge> 0" for p rs
    using that by (induction rs) (auto simp: live_reserved_def)
  with assms show ?thesis by (simp add: delete_reservations_of_def)
qed

lemma pieces_within:
  assumes "distinct (map fst ds)" "d \<in> set ds" "fst d = k"
  shows "sum_list (deltas_of ds k) = snd d"
proof -
  have "row_of fst k ds = Some d" using assms by (simp add: row_of_eq_Some)
  with assms(1) show ?thesis by (simp add: deltas_of_def filter_key)
qed

lemma reserve_stocks_outcome:
  assumes wf: "stock_wf s" and dv: "distinct (map (va_pk \<circ> co_variant) lines)"
    and held: "\<forall>r \<in> set (sd_reservations s). rs_quantity r \<ge> 0"
    and run: "reserve_stocks now lines variants country ch until replace s = Inr t"
    and ne: "filter (reservable (variants_of_lines lines variants)) lines \<noteq> []"
  obtains news where
    "sd_reservations t = sd_reservations (if replace
       then delete_reservations_of (filter (reservable (variants_of_lines lines variants)) lines) s else s)
       @ map (reservation_row until) news"
    "t = s\<lparr>sd_reservations := sd_reservations t\<rparr>"
    "distinct (map fst (map snd news))"
    "\<forall>n \<in> set news. 0 < snd (snd n) \<and> (\<exists>st \<in> set (sd_stocks s). st_pk st = fst (snd n)
       \<and> snd (snd n) \<le> st_quantity st - stock_allocated (sd_allocations s) (st_pk st)
           - live_reserved now (sd_reservations
               (delete_reservations_of (filter (reservable (variants_of_lines lines variants)) lines) s)) (st_pk st))"
    "\<forall>l. sum_list (map (snd \<circ> snd) (filter (\<lambda>n. fst n = l) news)) = sum_list (map co_quantity
       (filter (\<lambda>i. co_pk i = l) (filter (reservable (variants_of_lines lines variants)) lines)))"
proof -
  let ?vs = "variants_of_lines lines variants"
  define valid where "valid = filter (reservable ?vs) lines"
  define sts where "sts = get_variants_stocks_for_country country (ch_slug ch) (map va_pk ?vs) s"
  define al where "al = quantity_allocation_for_stocks (map st_pk sts) (sd_allocations s)"
  define rv where "rv = quantity_reservation_for_stocks now valid (map st_pk sts) s"
  have nv: "valid \<noteq> []" using ne by (simp add: valid_def)
  from run obtain valid' where "get_checkout_lines_to_reserve lines ?vs = Inr valid'"
    by (auto simp: reserve_stocks_def Let_def bindr_eq_Inr)
  with get_checkout_lines_to_reserve_outcome have got: "get_checkout_lines_to_reserve lines ?vs = Inr valid"
    by (metis valid_def)
  obtain sts' where sorted: "sort_stocks (ch_allocation_strategy ch) sts (ch_pk ch) al None s = Inr sts'"
    using run got nv by (auto simp: reserve_stocks_def Let_def sts_def al_def split: sum.splits)
  obtain ins news where all: "create_all_reservations valid sts' al rv [] = (ins, news)" by fastforce
  note run' = run [unfolded reserve_stocks_def Let_def got bindr_simps if_not_P [OF nv], folded sts_def,
      folded al_def rv_def, unfolded sorted sum.case all prod.case]
  have "ins = []" using run' by (auto split: if_splits)
  with all create_all_reservations_outcome have
    all: "create_all_allocations (map as_info valid) sts' al rv = Inr ([], news)"
    by (auto simp: valid_def reservable_def)
  have sub: "set sts \<subseteq> set (sd_stocks s)" and dsts: "distinct (map st_pk sts)"
    using wf by (auto simp: sts_def get_variants_stocks_for_country_def for_channel_and_country_def Let_def
        stock_wf_def distinct_map_filter)
  have "distinct (map (va_pk \<circ> co_variant) valid)" using dv by (simp add: valid_def distinct_map_filter)
  then have "distinct (map line_variant (map as_info valid))" by (simp add: comp_def)
  note out = create_all_outcome [OF all this sort_stocks_outcome(2) [OF sorted dsts]]
  from out have total: "sum_list (map (snd \<circ> snd) (filter (\<lambda>n. fst n = l) news))
      = sum_list (map co_quantity (filter (\<lambda>i. co_pk i = l) valid))" for l
    by (simp add: filter_map comp_def)
  have "news \<noteq> []"
  proof
    assume none: "news = []"
    obtain l ls where valid: "valid = l # ls" using nv by (cases valid) auto
    then have "co_quantity l \<noteq> 0" by (auto simp: valid_def reservable_def filter_eq_Cons_iff)
    with all valid none create_allocations_outcome show False by (fastforce simp: bindr_eq_Inr)
  qed
  with run' \<open>ins = []\<close> have "reservation_bulk_create (map (reservation_row until) news)
      (if replace then delete_reservations_of valid s else s) = Inr t" by simp
  then have t: "t = s\<lparr>sd_reservations := sd_reservations t\<rparr>" "sd_reservations t = sd_reservations (if replace
       then delete_reservations_of valid s else s) @ map (reservation_row until) news"
    by (auto simp: reservation_bulk_create_def delete_reservations_of_def Let_def split: if_splits)
  have fits: "st_quantity st - al (st_pk st) - rv (st_pk st) = st_quantity st
      - stock_allocated (sd_allocations s) (st_pk st)
      - live_reserved now (sd_reservations (delete_reservations_of valid s)) (st_pk st)" if "st \<in> set sts" for st
    using that wf held_by_others [OF held _ nv]
    by (simp add: al_def rv_def quantity_allocation_for_stocks_def positive_allocated_eq stock_wf_def)
  have "0 < snd (snd n) \<and> (\<exists>st \<in> set (sd_stocks s). st_pk st = fst (snd n)
       \<and> snd (snd n) \<le> st_quantity st - stock_allocated (sd_allocations s) (st_pk st)
           - live_reserved now (sd_reservations (delete_reservations_of valid s)) (st_pk st))"
    if n: "n \<in> set news" for n
  proof -
    from out n obtain st where "st \<in> set sts'" "st_pk st = fst (snd n)" "0 < snd (snd n)"
      "snd (snd n) \<le> st_quantity st - al (st_pk st) - rv (st_pk st)" by blast
    with fits [of st] sort_stocks_outcome(1) [OF sorted] sub show ?thesis by auto
  qed
  with that [of news] t out total show ?thesis by (simp add: valid_def comp_def)
qed

lemma reserve_stocks_keeps:
  assumes wf: "stock_wf s" and dv: "distinct (map (va_pk \<circ> co_variant) lines)"
    and held: "\<forall>r \<in> set (sd_reservations s). rs_quantity r \<ge> 0"
    and run: "reserve_stocks now lines variants country ch until True s = Inr t"
    and fit: "reservations_fit now s"
  shows "reservations_fit now t"
    and "distinct (map co_pk lines) \<Longrightarrow> l \<in> set lines \<Longrightarrow> reservable (variants_of_lines lines variants) l
      \<Longrightarrow> line_reserved (sd_reservations t) (co_pk l) = co_quantity l"
proof -
  let ?valid = "filter (reservable (variants_of_lines lines variants)) lines"
  have "reservations_fit now t \<and> (distinct (map co_pk lines) \<longrightarrow> l \<in> set ?valid
      \<longrightarrow> line_reserved (sd_reservations t) (co_pk l) = co_quantity l)"
  proof (cases "?valid = []")
    case True
    with run have "t = s"
      by (auto simp: reserve_stocks_def Let_def bindr_eq_Inr dest: get_checkout_lines_to_reserve_outcome)
    with fit True show ?thesis by simp
  next
    case False
    let ?rest = "sd_reservations (delete_reservations_of ?valid s)"
    from reserve_stocks_outcome [OF wf dv held run False] obtain news where
      res: "sd_reservations t = ?rest @ map (reservation_row until) news"
      and t: "t = s\<lparr>sd_reservations := sd_reservations t\<rparr>"
      and dn: "distinct (map fst (map snd news))"
      and pieces: "\<forall>n \<in> set news. 0 < snd (snd n) \<and> (\<exists>st \<in> set (sd_stocks s). st_pk st = fst (snd n)
         \<and> snd (snd n) \<le> st_quantity st - stock_allocated (sd_allocations s) (st_pk st) - live_reserved now ?rest (st_pk st))"
      and total: "\<forall>l. sum_list (map (snd \<circ> snd) (filter (\<lambda>n. fst n = l) news))
         = sum_list (map co_quantity (filter (\<lambda>i. co_pk i = l) ?valid))"
      by auto
    have pos: "\<forall>n \<in> set news. snd (snd n) > 0" using pieces by blast
    have frame: "sd_stocks t = sd_stocks s" "sd_allocations t = sd_allocations s" by (subst t; simp)+
    have "stock_allocated (sd_allocations s) (st_pk st) + live_reserved now (sd_reservations t) (st_pk st) \<le> st_quantity st"
      if st: "st \<in> set (sd_stocks s)" for st
    proof -
      let ?k = "st_pk st"
      have le: "live_reserved now (sd_reservations t) ?k \<le> live_reserved now ?rest ?k + sum_list (deltas_of (map snd news) ?k)"
        using live_reserved_rows(1) [OF pos] by (simp add: res)
      show ?thesis
      proof (cases "?k \<in> fst ` set (map snd news)")
        case False
        then have "deltas_of (map snd news) ?k = []" by (force simp: deltas_of_def filter_empty_conv)
        with le delete_reservations_less [OF held, of now ?valid ?k] fit st
        show ?thesis by (fastforce simp: reservations_fit_def)
      next
        case True
        then obtain n where n: "n \<in> set news" "fst (snd n) = ?k" by auto
        with pieces obtain st' where st': "st' \<in> set (sd_stocks s)" "st_pk st' = ?k" "snd (snd n) \<le> st_quantity st'
            - stock_allocated (sd_allocations s) ?k - live_reserved now ?rest ?k" by metis
        have "st' = st" using wf st st'(1,2) unfolding stock_wf_def by (metis inj_onD distinct_map)
        moreover have "sum_list (deltas_of (map snd news) ?k) = snd (snd n)"
          by (rule pieces_within [OF dn]) (use n in auto)
        ultimately show ?thesis using le st'(3) by simp
      qed
    qed
    then have "reservations_fit now t" by (simp add: reservations_fit_def frame)
    moreover have "line_reserved (sd_reservations t) (co_pk l) = co_quantity l"
      if "distinct (map co_pk lines)" "l \<in> set ?valid"
    proof -
      have "filter (\<lambda>r. rs_checkout_line r = Some (co_pk l)) ?rest = []"
        using that(2) by (auto simp: delete_reservations_of_def filter_empty_conv)
      then have "line_reserved ?rest (co_pk l) = 0" by (simp only: line_reserved_def sum_rows_Nil)
      moreover have "filter (\<lambda>i. co_pk i = co_pk l) ?valid = [l]"
        using that filter_key [of co_pk ?valid "co_pk l"] row_of_eq_Some [of co_pk ?valid "co_pk l" l]
        by (simp add: distinct_map_filter)
      ultimately show ?thesis using total by (simp add: res line_reserved_rows)
    qed
    ultimately show ?thesis by blast
  qed
  then show "reservations_fit now t"
    and "distinct (map co_pk lines) \<Longrightarrow> l \<in> set lines \<Longrightarrow> reservable (variants_of_lines lines variants) l
      \<Longrightarrow> line_reserved (sd_reservations t) (co_pk l) = co_quantity l" by simp_all
qed

text \<open>
  C8: reserving stock for checkout lines of distinct variants never holds and allocates more of
  a stock than it has, and every line that is to be reserved holds exactly its quantity
\<close>

theorem reserving_never_overbooks:
  assumes "stock_wf s" "\<forall>r \<in> set (sd_reservations s). rs_quantity r \<ge> 0"
    and "distinct (map (va_pk \<circ> co_variant) lines)" "distinct (map co_pk lines)"
    and "reservations_fit now s" "reserve_stocks now lines variants country ch until True s = Inr t"
  shows "reservations_fit now t
    \<and> (\<forall>l \<in> set lines. reservable (variants_of_lines lines variants) l
         \<longrightarrow> line_reserved (sd_reservations t) (co_pk l) = co_quantity l)"
  using reserve_stocks_keeps [OF assms(1,3,2,6,5)] assms(4) by blast

text \<open>Line 40 holds 1 piece and asks for 6; line 42 of another checkout holds 2 of the first stock.\<close>

definition sample_checkout_line :: "nat \<Rightarrow> nat \<Rightarrow> int \<Rightarrow> checkout_line" where
  "sample_checkout_line pk v q = \<lparr>co_pk = pk, co_variant = sample_variant v, co_quantity = q\<rparr>"

definition reserve_example :: stock_db where
  "reserve_example = stock_example\<lparr>sd_reservations :=
     [\<lparr>rs_order_line = None, rs_checkout_line = Some 40, rs_stock = 2, rs_quantity = 1, rs_reserved_until = (2024, 3, 2, 0)\<rparr>,
      \<lparr>rs_order_line = None, rs_checkout_line = Some 42, rs_stock = 1, rs_quantity = 1, rs_reserved_until = (2024, 3, 2, 0)\<rparr>]\<rparr>"

lemma reserving_never_overbooks_witness:
  "\<exists>t. reserve_stocks (2024, 3, 1, 0) [sample_checkout_line 40 1 5, sample_checkout_line 41 2 1]
         [sample_variant 1, sample_variant 2] ''CN'' sample_channel (2024, 3, 3, 0) True reserve_example = Inr t
     \<and> reservations_fit (2024, 3, 1, 0) t \<and> line_reserved (sd_reservations t) 40 = 5
     \<and> map (\<lambda>r. (rs_checkout_line r, rs_stock r, rs_quantity r)) (sd_reservations t)
         = [(Some 42, 1, 1), (Some 40, 2, 4), (Some 40, 1, 1), (Some 41, 3, 1)]"
proof -
  let ?lines = "[sample_checkout_line 40 1 5, sample_checkout_line 41 2 1]"
  let ?run = "reserve_stocks (2024, 3, 1, 0) ?lines
         [sample_variant 1, sample_variant 2] ''CN'' sample_channel (2024, 3, 3, 0) True reserve_example"
  have "case ?run of Inl _ \<Rightarrow> False | Inr t \<Rightarrow>
      map (\<lambda>r. (rs_checkout_line r, rs_stock r, rs_quantity r)) (sd_reservations t)
         = [(Some 42, 1, 1), (Some 40, 2, 4), (Some 40, 1, 1), (Some 41, 3, 1)]" by code_simp
  then obtain t where t: "?run = Inr t" "map (\<lambda>r. (rs_checkout_line r, rs_stock r, rs_quantity r)) (sd_reservations t)
         = [(Some 42, 1, 1), (Some 40, 2, 4), (Some 40, 1, 1), (Some 41, 3, 1)]"
    by (auto split: sum.splits)
  have pre: "stock_wf reserve_example" "\<forall>r \<in> set (sd_reservations reserve_example). rs_quantity r \<ge> 0"
    "distinct (map (va_pk \<circ> co_variant) ?lines)" "distinct (map co_pk ?lines)"
    "reservations_fit (2024, 3, 1, 0) reserve_example"
    "reservable (variants_of_lines ?lines [sample_variant 1, sample_variant 2]) (sample_checkout_line 40 1 5)"
    "co_pk (sample_checkout_line 40 1 5) = 40" "co_quantity (sample_checkout_line 40 1 5) = 5"
    by code_simp+
  note fit = reserving_never_overbooks [OF pre(1-5) t(1)]
  have "sample_checkout_line 40 1 5 \<in> set ?lines" by (rule list.set_intros(1))
  from mp [OF bspec [OF conjunct2 [OF fit] this] pre(6)] have "line_reserved (sd_reservations t) 40 = 5"
    unfolding pre(7,8) .
  with t conjunct1 [OF fit] show ?thesis by (intro exI [of _ t] conjI)
qed

text \<open>Two lines of one variant are both promised the same 2 pieces.\<close>

lemma two_lines_overbook:
  "case reserve_stocks (2024, 3, 1, 0) [sample_checkout_line 40 2 2, sample_checkout_line 41 2 2]
         [sample_variant 2] ''CN'' sample_channel (2024, 3, 3, 0) True stock_example of
     Inl _ \<Rightarrow> False
   | Inr t \<Rightarrow> reservations_fit (2024, 3, 1, 0) stock_example \<and> \<not> reservations_fit (2024, 3, 1, 0) t"
  by code_simp

subsection \<open>The job that repairs the counters\<close>

lemma map_of_set_allocated:
  "map_of (map set_allocated (map (\<lambda>st. (st_pk st, f (st_pk st))) sts)) k =
     (if k \<in> st_pk ` set sts then Some (\<lambda>st. st\<lparr>st_quantity_allocated := f k\<rparr>) else None)"
  by (induction sts) (auto simp: set_allocated_def)

lemma repaired_stocks:
  assumes law: "bulk_update_law st_pk bu"
  shows "update_stocks_quantity_allocated_task bu s = s\<lparr>sd_stocks :=
    map (\<lambda>st. st\<lparr>st_quantity_allocated := stock_allocated (sd_allocations s) (st_pk st)\<rparr>) (sd_stocks s)\<rparr>"
proof -
  let ?f = "stock_allocated (sd_allocations s)"
  let ?bad = "filter (\<lambda>st. st_quantity_allocated st \<noteq> ?f (st_pk st)) (sd_stocks s)"
  have "first_update st_pk (map set_allocated (map (\<lambda>st. (st_pk st, ?f (st_pk st))) ?bad)) (sd_stocks s)
      = map (\<lambda>st. st\<lparr>st_quantity_allocated := ?f (st_pk st)\<rparr>) (sd_stocks s)"
    unfolding first_update_def map_of_set_allocated by (rule map_cong) auto
  then show ?thesis by (simp add: update_stocks_quantity_allocated_task_def Let_def bulk_update_lawD [OF law])
qed

text \<open>
  The periodic job sets every stored counter to the sum of the stock's allocations, changes
  nothing else, and does nothing when the counters are right.
\<close>

theorem counters_are_repaired:
  assumes "bulk_update_law st_pk bu"
  shows "counters_ok (update_stocks_quantity_allocated_task bu s)
    \<and> sd_allocations (update_stocks_quantity_allocated_task bu s) = sd_allocations s
    \<and> map stock_head (sd_stocks (update_stocks_quantity_allocated_task bu s)) = map stock_head (sd_stocks s)
    \<and> (counters_ok s \<longrightarrow> update_stocks_quantity_allocated_task bu s = s)"
proof -
  have "map (\<lambda>st. st\<lparr>st_quantity_allocated := stock_allocated (sd_allocations s) (st_pk st)\<rparr>) (sd_stocks s) = sd_stocks s"
    if "counters_ok s"
    using that by (intro map_idI) (simp add: counters_ok_def)
  then show ?thesis
    by (simp add: repaired_stocks [OF assms] counters_ok_def stock_head_def)
qed

text \<open>The counter that two lines of one variant leave behind (2 for 4 allocated pieces) is set right.\<close>

lemma counters_are_repaired_witness:
  "\<exists>t. allocate_stocks (first_update st_pk) (2024, 3, 1, 0) [sample_line 20 2 2, sample_line 21 2 2] ''CN''
          sample_channel None (\<lambda>_. True) False [] stock_example = Inr t
     \<and> \<not> counters_ok t \<and> counters_ok (update_stocks_quantity_allocated_task (first_update st_pk) t)"
proof -
  have "case allocate_stocks (first_update st_pk) (2024, 3, 1, 0) [sample_line 20 2 2, sample_line 21 2 2] ''CN''
          sample_channel None (\<lambda>_. True) False [] stock_example of Inr t \<Rightarrow> \<not> counters_ok t | Inl _ \<Rightarrow> False"
    by code_simp
  with counters_are_repaired [OF bulk_update_law_first_update] show ?thesis by (auto split: sum.splits)
qed

subsection \<open>The jobs keep what the other operations keep\<close>

lemma empty_allocations_sum:
  "stock_allocated (sd_allocations (delete_empty_allocations_task s)) k = stock_allocated (sd_allocations s) k"
proof -
  have "stock_allocated (filter (\<lambda>a. al_quantity a \<noteq> 0) als) k = stock_allocated als k" for als
    by (induction als) (auto simp: stock_allocated_def)
  then show ?thesis by (simp add: delete_empty_allocations_task_def)
qed

lemma delete_empty_allocations_keeps:
  "stock_wf s \<Longrightarrow> stock_wf (delete_empty_allocations_task s)"
  "counters_ok (delete_empty_allocations_task s) = counters_ok s"
  "no_oversell (delete_empty_allocations_task s) = no_oversell s"
  by (simp_all add: stock_wf_def distinct_map_filter counters_ok_def no_oversell_def empty_allocations_sum
      delete_empty_allocations_task_def [of s, THEN arg_cong [of _ _ sd_stocks], simplified])
   (auto simp: delete_empty_allocations_task_def distinct_map_filter)

lemma delete_expired_keeps_live:
  assumes "now \<le> later"
  shows "live_reserved later (sd_reservations (delete_expired_reservations_task now s)) k
    = live_reserved later (sd_reservations s) k"
proof -
  have "live_reserved later (filter (\<lambda>r. \<not> rs_reserved_until r < now) rs) k = live_reserved later rs k" for rs
    using assms by (induction rs) (auto simp: live_reserved_def not_expired_def)
  then show ?thesis by (simp add: delete_expired_reservations_task_def)
qed

text \<open>Reserving touches nothing but reservations.\<close>

lemma reserve_stocks_frame:
  assumes "reserve_stocks now lines vs country ch until replace s = Inr t"
  shows "sd_stocks t = sd_stocks s \<and> sd_allocations t = sd_allocations s"
  using assms by (auto simp: reserve_stocks_def Let_def bindr_eq_Inr reservation_bulk_create_def delete_reservations_of_def
      split: if_splits sum.splits prod.splits)

lemma reserve_preorders_frame:
  assumes "reserve_preorders now lines vs slug until replace s = Inr t"
  shows "sd_stocks t = sd_stocks s \<and> sd_allocations t = sd_allocations s"
  using assms by (auto simp: reserve_preorders_def Let_def bindr_eq_Inr preorder_reservation_bulk_create_def
      delete_preorder_reservations_of_def split: if_splits)

lemma reserving_frame:
  assumes run: "reserve_stocks_and_preorders now lines refreshed vs country ch len replace s = Inr t"
  shows "sd_stocks t = sd_stocks s" "sd_allocations t = sd_allocations s"
proof -
  let ?until = "add_minutes now len"
  let ?stock = "filter (\<lambda>l. \<not> is_preorder_active now (co_variant l)) lines"
  let ?pre = "filter (\<lambda>l. is_preorder_active now (co_variant l)) lines"
  from run obtain m where first: "(if ?stock = [] then Inr s
      else bindr (reserve_stocks now ?stock (filter (\<lambda>v. \<not> is_preorder_active now v) vs) country ch ?until replace s)
             (\<lambda>s. Inr (refresh_reservations ?until refreshed s))) = Inr m"
    and second: "(if ?pre = [] then Inr m
      else bindr (reserve_preorders now ?pre (filter (is_preorder_active now) vs) (ch_slug ch) ?until replace m)
             (\<lambda>s. Inr (refresh_preorder_reservations ?until refreshed s))) = Inr t"
    unfolding reserve_stocks_and_preorders_def Let_def bindr_eq_Inr by blast
  have "sd_stocks m = sd_stocks s \<and> sd_allocations m = sd_allocations s"
    using first by (cases "?stock = []")
      (auto simp: bindr_eq_Inr refresh_reservations_def dest: reserve_stocks_frame)
  moreover have "sd_stocks t = sd_stocks m \<and> sd_allocations t = sd_allocations m"
    using second by (cases "?pre = []")
      (auto simp: bindr_eq_Inr refresh_preorder_reservations_def dest: reserve_preorders_frame)
  ultimately show "sd_stocks t = sd_stocks s" "sd_allocations t = sd_allocations s" by simp_all
qed

end
