(* ===== verification/StockRuns.thy ===== *)
theory StockRuns
  imports StockMoves Reservations
begin

section \<open>Every history of a warehouse\<close>

text \<open>
  The stock operations as the steps of one transition system, and what every history of them
  keeps: whatever is allocated is there. A step is one call of an operation of
  \<^verbatim>\<open>warehouse/management.py\<close> or \<^verbatim>\<open>warehouse/reservations.py\<close> that returns, or a run of a periodic
  job of \<^verbatim>\<open>warehouse/tasks.py\<close>; calls that raise are rolled back by the
  transaction they open. Calls that may oversell are not steps: the allocation of two lines of one
  variant and the allocation that checks reservations (see \<^verbatim>\<open>StockLaws\<close>), \<open>decrease_stock\<close> with
  \<open>allow_stock_to_be_exceeded\<close>, which is made for that (\<open>exceeding_decrease_oversells\<close>), and
  \<open>deactivate_preorder_for_variant\<close>, which allocates what was preordered whatever the stock holds
  (\<open>ended_preorder_oversells\<close>).
\<close>

definition consistent :: "stock_db \<Rightarrow> bool" where
  "consistent s \<longleftrightarrow> stock_wf s \<and> one_stock_each s \<and> allocations_have_stock s \<and> no_oversell s"

text \<open>The contract of an operation on the warehouse, and what follows for sequences of calls.\<close>

locale warehouse_operation =
  fixes op :: "stock_db \<Rightarrow> stock_db \<Rightarrow> bool"
  assumes keeps: "consistent s \<Longrightarrow> op s t \<Longrightarrow> consistent t"
begin

lemma history_keeps: "op\<^sup>*\<^sup>* s t \<Longrightarrow> consistent s \<Longrightarrow> consistent t"
  by (induction rule: rtranclp_induct) (auto intro: keeps)

end

subsection \<open>Operations that only release\<close>

text \<open>
  Nothing but counters of stocks and quantities of allocations changes, and no stock has more
  allocated than before.
\<close>

definition only_releases :: "stock_db \<Rightarrow> stock_db \<Rightarrow> bool" where
  "only_releases s t \<longleftrightarrow> map stock_head (sd_stocks t) = map stock_head (sd_stocks s)
     \<and> map (\<lambda>a. (al_pk a, al_stock a)) (sd_allocations t) = map (\<lambda>a. (al_pk a, al_stock a)) (sd_allocations s)
     \<and> (\<forall>a \<in> set (sd_allocations t). al_quantity a \<ge> 0)
     \<and> (\<forall>k. stock_allocated (sd_allocations t) k \<le> stock_allocated (sd_allocations s) k)"

lemma map_via:
  assumes "map f xs = map f ys" "\<And>x. g x = h (f x)"
  shows "map g xs = map g ys"
proof -
  have "map h (map f xs) = map h (map f ys)" by (simp only: assms(1))
  then show ?thesis by (simp add: comp_def flip: assms(2))
qed

interpretation releasing: warehouse_operation only_releases
proof
  fix s t assume ok: "consistent s" and rel: "only_releases s t"
  have st: "map stock_head (sd_stocks t) = map stock_head (sd_stocks s)"
    and al: "map (\<lambda>a. (al_pk a, al_stock a)) (sd_allocations t) = map (\<lambda>a. (al_pk a, al_stock a)) (sd_allocations s)"
    using rel by (auto simp: only_releases_def)
  note heads = maps_of_heads [OF st]
  have al2: "map al_pk (sd_allocations t) = map al_pk (sd_allocations s)"
      "map al_stock (sd_allocations t) = map al_stock (sd_allocations s)"
    by (rule map_via [OF al, where h = fst], simp) (rule map_via [OF al, where h = snd], simp)
  have "stock_wf t" using ok rel heads al2 by (simp add: consistent_def stock_wf_def only_releases_def)
  moreover have "one_stock_each t" using ok heads by (simp add: consistent_def one_stock_each_def)
  moreover have "allocations_have_stock t"
  proof -
    have "set (map al_stock (sd_allocations t)) \<subseteq> set (map st_pk (sd_stocks t))"
      using ok unfolding al2 heads by (auto simp: consistent_def allocations_have_stock_def)
    then show ?thesis by (auto simp: allocations_have_stock_def)
  qed
  moreover have "no_oversell t"
    unfolding no_oversell_def
  proof
    fix st' assume "st' \<in> set (sd_stocks t)"
    from stock_heads_agree [OF st this] obtain y where "y \<in> set (sd_stocks s)" "stock_head y = stock_head st'" .
    moreover have "stock_allocated (sd_allocations t) (st_pk st') \<le> stock_allocated (sd_allocations s) (st_pk st')"
      using rel by (simp add: only_releases_def)
    ultimately show "stock_allocated (sd_allocations t) (st_pk st') \<le> st_quantity st'"
      using ok by (force simp: consistent_def no_oversell_def stock_head_def)
  qed
  ultimately show "consistent t" by (simp add: consistent_def)
qed

lemma deallocate_only_releases:
  assumes law: "bulk_update_law st_pk bu" and wf: "stock_wf s"
  shows "only_releases s (snd (deallocate_stock bu lines s))"
    "only_releases s (after_deallocation bu lines s)"
proof -
  obtain failed t where run: "deallocate_stock bu lines s = (failed, t)" by fastforce
  note frame = deallocate_stock_frame [OF law wf run]
  show "only_releases s (snd (deallocate_stock bu lines s))"
    using frame by (simp add: run only_releases_def stock_wf_def)
  have nn: "\<forall>a \<in> set (sd_allocations t). al_quantity a \<ge> 0" using frame(1) by (simp add: stock_wf_def)
  have "map (\<lambda>a. (al_pk a, al_stock a)) (clear_lines failed als) = map (\<lambda>a. (al_pk a, al_stock a)) als" for als
    by (simp add: clear_lines_def)
  then show "only_releases s (after_deallocation bu lines s)"
    using frame clear_lines_laws [OF nn, of failed] order_trans
    by (fastforce simp: run after_deallocation_def only_releases_def)
qed

lemma cancel_only_releases:
  assumes law: "bulk_update_law st_pk bu" and wf: "stock_wf s"
  shows "only_releases s (deallocate_lines_fully bu lines s)"
proof -
  let ?new = "map (\<lambda>a. if al_order_line a \<in> set lines \<and> al_quantity a > 0 then a\<lparr>al_quantity := 0\<rparr> else a) (sd_allocations s)"
  have nn: "\<forall>a \<in> set (sd_allocations s). al_quantity a \<ge> 0" using wf by (simp add: stock_wf_def)
  have "stock_allocated (map (\<lambda>a. if al_order_line a \<in> set lines \<and> al_quantity a > 0 then a\<lparr>al_quantity := 0\<rparr> else a) als) k
      \<le> stock_allocated als k" if "\<forall>a \<in> set als. al_quantity a \<ge> 0" for k and als :: "allocation list"
    using that by (induction als) (auto simp: stock_allocated_def)
  then have "stock_allocated ?new k \<le> stock_allocated (sd_allocations s) k" for k using nn by blast
  moreover have "map stock_head (sd_stocks (update_allocated bu ds u)) = map stock_head (sd_stocks u)" for ds u
    by (simp add: update_allocated_stocks [OF law] stock_head_def)
  ultimately show ?thesis
    using nn by (auto simp: only_releases_def deallocate_lines_fully_def Let_def)
qed

subsection \<open>Operations that promise or move\<close>

lemma next_allocation_pk_fresh: "a \<in> set als \<Longrightarrow> al_pk a < next_allocation_pk als"
proof -
  assume "a \<in> set als"
  then have "al_pk a \<in> set (map al_pk als)" by simp
  then have "al_pk a \<le> sum_list (map al_pk als)" by (rule member_le_sum_list) simp
  then show ?thesis by (simp add: next_allocation_pk_def)
qed

lemma allocation_rows_laws:
  "(\<forall>a \<in> set (allocation_rows k news). k \<le> al_pk a) \<and> distinct (map al_pk (allocation_rows k news))
   \<and> (\<forall>a \<in> set (allocation_rows k news). \<exists>n \<in> set news. al_stock a = fst (snd n) \<and> al_quantity a = snd (snd n))"
  by (induction k news rule: allocation_rows.induct) (auto dest: Suc_leD)

lemma allocate_consistent:
  assumes law: "bulk_update_law st_pk bu" and ok: "consistent s"
    and dv: "distinct (map line_variant (get_order_lines_with_track_inventory now lines))"
    and run: "allocate_stocks bu now lines country ch cp extra False cls s = Inr t"
  shows "consistent t"
proof -
  have wf: "stock_wf s" and over: "no_oversell s" using ok by (simp_all add: consistent_def)
  from law wf dv run obtain news where fit: "fitting_pieces s news"
    and als: "sd_allocations t = sd_allocations s @ allocation_rows (next_allocation_pk (sd_allocations s)) news"
    and stocks: "sd_stocks t = map (\<lambda>st. st\<lparr>st_quantity_allocated := st_quantity_allocated st
       + first_delta (map snd news) (st_pk st)\<rparr>) (sd_stocks s)"
    by (rule allocate_stocks_outcome)
  note rows = allocation_rows_laws [of "next_allocation_pk (sd_allocations s)" news]
  have piece: "al_quantity a \<ge> 0 \<and> al_stock a \<in> st_pk ` set (sd_stocks s)"
    if a: "a \<in> set (allocation_rows (next_allocation_pk (sd_allocations s)) news)" for a
  proof -
    from rows a obtain n where "n \<in> set news" "al_stock a = fst (snd n)" "al_quantity a = snd (snd n)" by blast
    with fit show ?thesis by (force simp: fitting_pieces_def)
  qed
  have keys: "distinct (map al_pk (sd_allocations t))"
    using wf rows next_allocation_pk_fresh by (fastforce simp: als stock_wf_def)
  have "stock_wf t" using wf piece keys by (auto simp: stock_wf_def als stocks comp_def)
  moreover have "one_stock_each t" using ok by (simp add: consistent_def one_stock_each_def stocks comp_def)
  moreover have "allocations_have_stock t"
    using ok piece by (auto simp: consistent_def allocations_have_stock_def als stocks image_image)
  ultimately show ?thesis using allocate_stocks_keeps(2) [OF law wf dv run over] by (simp add: consistent_def)
qed

lemma decrease_consistent:
  assumes law: "bulk_update_law st_pk bu" and ok: "consistent s"
    and run: "decrease_stock bu lines True False s = Inr t"
  shows "consistent t"
proof -
  have wf: "stock_wf s" and one: "one_stock_each s" and over: "no_oversell s"
    using ok by (simp_all add: consistent_def)
  have mid: "consistent (after_deallocation bu lines s)"
    using releasing.keeps [OF ok] deallocate_only_releases(2) [OF law wf] by blast
  note keeps = decrease_stock_keeps [OF law wf one run]
  have keys: "map st_pk (sd_stocks t) = map st_pk (sd_stocks s)"
    "map (\<lambda>st. (st_warehouse st, st_variant st)) (sd_stocks t) = map (\<lambda>st. (st_warehouse st, st_variant st)) (sd_stocks s)"
    by (rule map_via [OF keeps(4), where h = fst], simp) (rule map_via [OF keeps(4), where h = snd], simp)
  have pks: "st_pk ` set (sd_stocks t) = st_pk ` set (sd_stocks (after_deallocation bu lines s))"
    using arg_cong [OF keys(1), of set] maps_of_heads(1) [OF after_deallocation_laws(2) [OF law wf], of lines]
    by (metis image_set)
  show ?thesis
    using mid ok keys keeps(2) [OF over]
    by (simp add: consistent_def stock_wf_def one_stock_each_def allocations_have_stock_def keeps(3) pks)
qed

lemma increase_consistent:
  assumes ok: "consistent s" and q: "0 \<le> q" and run: "increase_stock line (Some v) w q allocate s = Inr t"
  shows "consistent t"
proof -
  have wf: "stock_wf s" and fk: "allocations_have_stock s" and one: "one_stock_each s" and over: "no_oversell s"
    using ok by (simp_all add: consistent_def)
  from run obtain k sts where restock: "restocked v w q (sd_stocks s) = (k, sts)"
    and als: "sd_allocations t = (if allocate then allocate_more line k q (sd_allocations s) else sd_allocations s)"
    and stocks: "sd_stocks t = (if allocate then save_row st_pk k
        (\<lambda>st. st\<lparr>st_quantity_allocated := st_quantity_allocated st + q\<rparr>) sts else sts)"
    by (rule increase_stock_run) auto
  have keys: "distinct (map st_pk sts) \<and> distinct (map (\<lambda>st. (st_warehouse st, st_variant st)) sts)
      \<and> st_pk ` set (sd_stocks s) \<subseteq> st_pk ` set sts \<and> k \<in> st_pk ` set sts"
  proof (cases "find (\<lambda>st. st_warehouse st = w \<and> st_variant st = v) (sd_stocks s)")
    case None
    with restock wf one next_stock_pk_fresh [of "sd_stocks s"] show ?thesis
      by (auto simp: restocked_def stock_wf_def one_stock_each_def find_None_iff)
  next
    case (Some st)
    then have "st \<in> set (sd_stocks s)" by (auto simp: find_Some_iff)
    moreover have "map st_pk sts = map st_pk (sd_stocks s)"
      "map (\<lambda>st. (st_warehouse st, st_variant st)) sts = map (\<lambda>st. (st_warehouse st, st_variant st)) (sd_stocks s)"
      using restock Some by (auto simp: restocked_def save_row_def)
    moreover from this(1) have "st_pk ` set sts = st_pk ` set (sd_stocks s)" by (metis image_set)
    moreover have "k = st_pk st" using restock Some by (simp add: restocked_def)
    ultimately show ?thesis using wf one by (simp add: stock_wf_def one_stock_each_def)
  qed
  have same: "map st_pk (sd_stocks t) = map st_pk sts"
    "map (\<lambda>st. (st_warehouse st, st_variant st)) (sd_stocks t) = map (\<lambda>st. (st_warehouse st, st_variant st)) sts"
    by (auto simp: stocks save_row_def)
  have pks: "st_pk ` set (sd_stocks t) = st_pk ` set sts" using arg_cong [OF same(1), of set] by simp
  have rows: "distinct (map al_pk (allocate_more line k q as)) \<and> (\<forall>a \<in> set (allocate_more line k q as).
      al_quantity a \<ge> 0 \<and> (al_stock a = k \<or> al_stock a \<in> al_stock ` set as))"
    if "distinct (map al_pk as)" "\<forall>a \<in> set as. al_quantity a \<ge> 0" for as
    using that q next_allocation_pk_fresh [of _ as]
    by (fastforce simp: allocate_more_def save_row_def comp_def if_distrib [of al_pk] split: option.splits cong: if_cong)
  have "stock_wf t"
    using wf rows [of "sd_allocations s"] keys by (auto simp: stock_wf_def same als)
  moreover have "one_stock_each t" using keys by (simp add: one_stock_each_def same)
  moreover have "allocations_have_stock t"
    unfolding allocations_have_stock_def pks
  proof
    fix a assume a: "a \<in> set (sd_allocations t)"
    have "al_stock a = k \<or> al_stock a \<in> al_stock ` set (sd_allocations s)"
      using a wf rows [of "sd_allocations s"] by (cases allocate) (simp_all add: als stock_wf_def)
    moreover have "al_stock ` set (sd_allocations s) \<subseteq> st_pk ` set (sd_stocks s)"
      using fk by (auto simp: allocations_have_stock_def)
    ultimately show "al_stock a \<in> st_pk ` set sts" using keys by blast
  qed
  ultimately show ?thesis using increase_stock_keeps [OF wf fk run] over q by (simp add: consistent_def)
qed

text \<open>Increasing allocations drops the allocations of the lines and allocates the sums anew.\<close>

lemma stock_allocated_filter_le:
  "\<forall>a \<in> set als. al_quantity a \<ge> 0 \<Longrightarrow> stock_allocated (filter Q als) k \<le> stock_allocated als k"
  by (induction als) (auto simp: stock_allocated_def)

lemma dropped_allocations_consistent:
  assumes law: "bulk_update_law st_pk bu" and ok: "consistent s"
  shows "consistent (update_allocated bu ds (s\<lparr>sd_allocations := filter Q (sd_allocations s)\<rparr>))" (is "consistent ?t")
proof -
  have st: "map stock_head (sd_stocks ?t) = map stock_head (sd_stocks s)"
    by (simp add: update_allocated_stocks [OF law] stock_head_def)
  have al: "sd_allocations ?t = filter Q (sd_allocations s)" by (simp add: update_allocated_def)
  note heads = maps_of_heads [OF st]
  have "stock_wf ?t" using ok by (auto simp: consistent_def stock_wf_def heads al distinct_map_filter)
  moreover have "one_stock_each ?t" using ok by (simp add: consistent_def one_stock_each_def heads)
  moreover have "allocations_have_stock ?t"
    using ok arg_cong [OF heads(1), of set] by (auto simp: consistent_def allocations_have_stock_def al)
  moreover have "no_oversell ?t"
    unfolding no_oversell_def
  proof
    fix st' assume "st' \<in> set (sd_stocks ?t)"
    from stock_heads_agree [OF st this] obtain y where "y \<in> set (sd_stocks s)" "stock_head y = stock_head st'" .
    moreover have "stock_allocated (sd_allocations ?t) (st_pk st') \<le> stock_allocated (sd_allocations s) (st_pk st')"
      unfolding al by (rule stock_allocated_filter_le) (use ok in \<open>simp add: consistent_def stock_wf_def\<close>)
    ultimately show "stock_allocated (sd_allocations ?t) (st_pk st') \<le> st_quantity st'"
      using ok by (force simp: consistent_def no_oversell_def stock_head_def)
  qed
  ultimately show ?thesis by (simp add: consistent_def)
qed

lemma tracked_variants_requantified:
  "map line_variant (get_order_lines_with_track_inventory now (map (\<lambda>i. i\<lparr>li_quantity := f i\<rparr>) lines))
     = map line_variant (get_order_lines_with_track_inventory now lines)"
  by (induction lines) (simp_all add: get_order_lines_with_track_inventory_def line_variant_def)

lemma increase_allocations_consistent:
  assumes "bulk_update_law st_pk bu" "consistent s"
    and "distinct (map line_variant (get_order_lines_with_track_inventory now lines))"
    and "increase_allocations bu now lines country ch s = Inr t"
  shows "consistent t"
  by (rule allocate_consistent [OF assms(1) dropped_allocations_consistent [OF assms(1,2)]
        _ assms(4) [unfolded increase_allocations_def Let_def]])
    (use assms(3) in \<open>simp only: tracked_variants_requantified\<close>)

subsection \<open>Histories\<close>

inductive stock_step :: "stock_db \<Rightarrow> stock_db \<Rightarrow> bool" where
  step_allocate:
    "allocate_stocks bu now lines country ch cp extra False cls s = Inr t \<Longrightarrow>
     bulk_update_law st_pk bu \<Longrightarrow>
     distinct (map line_variant (get_order_lines_with_track_inventory now lines)) \<Longrightarrow> stock_step s t"
| step_deallocate:
    "deallocate_stock bu lines s = (failed, t) \<Longrightarrow> bulk_update_law st_pk bu \<Longrightarrow> stock_step s t"
| step_decrease:
    "decrease_stock bu lines True False s = Inr t \<Longrightarrow> bulk_update_law st_pk bu \<Longrightarrow> stock_step s t"
| step_decrease_allocations:
    "decrease_allocations bu now lines s = Inr t \<Longrightarrow> bulk_update_law st_pk bu \<Longrightarrow> stock_step s t"
| step_increase_allocations:
    "increase_allocations bu now lines country ch s = Inr t \<Longrightarrow> bulk_update_law st_pk bu \<Longrightarrow>
     distinct (map line_variant (get_order_lines_with_track_inventory now lines)) \<Longrightarrow> stock_step s t"
| step_increase:
    "increase_stock line (Some v) w q allocate s = Inr t \<Longrightarrow> 0 \<le> q \<Longrightarrow> stock_step s t"
| step_cancel: "bulk_update_law st_pk bu \<Longrightarrow> stock_step s (deallocate_stock_for_order bu ord s)"
| step_cancel_many: "bulk_update_law st_pk bu \<Longrightarrow> stock_step s (deallocate_stock_for_orders bu ords s)"
| step_forget: "stock_step s (remove_reservations_for_order ord s)"
| step_reserve:
    "reserve_stocks_and_preorders now lines refreshed vs country ch len replace s = Inr t \<Longrightarrow> stock_step s t"
| step_sweep: "stock_step s (delete_empty_allocations_task s)"
| step_expire: "stock_step s (delete_expired_reservations_task now s)"
| step_repair: "bulk_update_law st_pk bu \<Longrightarrow> stock_step s (update_stocks_quantity_allocated_task bu s)"

inductive_cases stock_stepE: "stock_step s t"

lemma only_releases_refl: "stock_wf s \<Longrightarrow> only_releases s s"
  by (simp add: only_releases_def stock_wf_def)

lemma decrease_allocations_only_releases:
  assumes "bulk_update_law st_pk bu" "stock_wf s" "decrease_allocations bu now lines s = Inr t"
  shows "only_releases s t"
proof (cases "get_order_lines_with_track_inventory now lines = []")
  case True
  with assms show ?thesis by (simp add: decrease_allocations_def only_releases_refl)
next
  case False
  with assms(3) have "t = after_deallocation bu (get_order_lines_with_track_inventory now lines) s"
    by (simp add: decrease_allocations_def decrease_stock_without_update)
  with deallocate_only_releases(2) [OF assms(1,2)] show ?thesis by simp
qed

lemma consistent_same:
  "sd_stocks t = sd_stocks s \<Longrightarrow> sd_allocations t = sd_allocations s \<Longrightarrow> consistent t = consistent s"
  by (simp add: consistent_def stock_wf_def one_stock_each_def allocations_have_stock_def no_oversell_def)

interpretation steps: warehouse_operation stock_step
proof
  fix s t assume ok: "consistent s" and step: "stock_step s t"
  have wf: "stock_wf s" using ok by (simp add: consistent_def)
  note released = releasing.keeps [OF ok]
  from step show "consistent t"
  proof cases
    case step_allocate
    then show ?thesis using allocate_consistent ok by blast
  next
    case step_deallocate
    then show ?thesis using released deallocate_only_releases(1) [OF _ wf] by (metis snd_conv)
  next
    case step_decrease
    then show ?thesis using decrease_consistent ok by blast
  next
    case step_decrease_allocations
    then show ?thesis using released decrease_allocations_only_releases [OF _ wf] by blast
  next
    case step_increase_allocations
    then show ?thesis using increase_allocations_consistent ok by blast
  next
    case step_increase
    then show ?thesis using increase_consistent [OF ok] by blast
  next
    case step_cancel
    then show ?thesis using released cancel_only_releases [OF _ wf] by (simp add: deallocate_stock_for_order_def)
  next
    case step_cancel_many
    then show ?thesis using released cancel_only_releases [OF _ wf] by (simp add: deallocate_stock_for_orders_def)
  next
    case step_forget
    then show ?thesis using ok
      by (simp add: remove_reservations_for_order_def Let_def consistent_def stock_wf_def one_stock_each_def
          allocations_have_stock_def no_oversell_def)
  next
    case step_reserve
    from consistent_same [OF reserving_frame [OF this]] show ?thesis using ok by blast
  next
    case step_sweep
    have "sd_stocks (delete_empty_allocations_task s) = sd_stocks s"
      "set (sd_allocations (delete_empty_allocations_task s)) \<subseteq> set (sd_allocations s)"
      by (auto simp: delete_empty_allocations_task_def)
    then have "one_stock_each (delete_empty_allocations_task s)" "allocations_have_stock (delete_empty_allocations_task s)"
      using ok by (auto simp: consistent_def one_stock_each_def allocations_have_stock_def)
    then show ?thesis using step_sweep ok by (simp add: consistent_def delete_empty_allocations_keeps)
  next
    case step_expire
    moreover have "consistent (delete_expired_reservations_task now s) = consistent s" for now
      by (rule consistent_same) (simp_all add: delete_expired_reservations_task_def)
    ultimately show ?thesis using ok by blast
  next
    case step_repair
    then show ?thesis using ok by (simp add: repaired_stocks consistent_def stock_wf_def comp_def one_stock_each_def
          allocations_have_stock_def no_oversell_def image_image)
  qed
qed

text \<open>
  C4: along every history of stock operations, reservations and periodic jobs that starts with
  nothing allocated and no negative stock, and in which no stock is increased by a negative
  quantity, no stock has more allocated than it holds, whatever the stored counters say. Left
  out are the calls that may oversell: allocating or increasing two lines of one variant,
  allocating with a look at reservations, decreasing with allow_stock_to_be_exceeded, and ending
  a preorder (deactivate_preorder_for_variant); the last two are shown to oversell
\<close>

theorem warehouse_never_oversells:
  assumes start: "sd_allocations s0 = []" "stock_wf s0" "one_stock_each s0"
    "\<forall>st \<in> set (sd_stocks s0). 0 \<le> st_quantity st"
    and history: "stock_step\<^sup>*\<^sup>* s0 s"
  shows "no_oversell s \<and> one_stock_each s \<and> allocations_have_stock s"
proof -
  have "consistent s0"
    using start by (simp add: consistent_def allocations_have_stock_def no_oversell_def stock_allocated_def)
  from steps.history_keeps [OF history this] show ?thesis by (simp add: consistent_def)
qed

text \<open>The two calls that are left out do oversell.\<close>

lemma exceeding_decrease_oversells:
  "case decrease_stock (first_update st_pk) [(sample_line 20 1 50)\<lparr>li_warehouse := Some 1\<rparr>] True True stock_example of
     Inl _ \<Rightarrow> False | Inr t \<Rightarrow> \<not> no_oversell t"
  by code_simp

lemma ended_preorder_oversells:
  "case deactivate_preorder_for_variant (first_update st_pk) ((sample_variant 4)\<lparr>va_is_preorder := True\<rparr>)
     (preorder_example\<lparr>sd_preorder_allocations := take 1 (sd_preorder_allocations preorder_example)\<rparr>) of
     Inl _ \<Rightarrow> False | Inr t \<Rightarrow> \<not> no_oversell t"
  by code_simp

text \<open>An allocation, then the cancellation of an order, from a warehouse with nothing allocated.\<close>

definition fresh_example :: stock_db where
  "fresh_example = stock_example\<lparr>sd_allocations := []\<rparr>"

lemma warehouse_never_oversells_witness:
  "\<exists>t. stock_step\<^sup>*\<^sup>* fresh_example t \<and> no_oversell t \<and> map al_quantity (sd_allocations t) = [0, 0, 2]"
proof -
  let ?lines = "[(sample_line 10 1 7), sample_line 20 2 2]"
  define run where "run = allocate_stocks (first_update st_pk) (2024, 3, 1, 0) ?lines ''CN'' sample_channel None
      (\<lambda>_. True) False [] fresh_example"
  have "case run of Inr t \<Rightarrow> map al_quantity (sd_allocations
      (deallocate_stock_for_order (first_update st_pk) 7 t)) = [0, 0, 2] | Inl _ \<Rightarrow> False"
    unfolding run_def by code_simp
  then obtain t where t: "run = Inr t" and q: "map al_quantity (sd_allocations
      (deallocate_stock_for_order (first_update st_pk) 7 t)) = [0, 0, 2]" by (auto split: sum.splits)
  have dv: "distinct (map line_variant (get_order_lines_with_track_inventory (2024, 3, 1, 0) ?lines))" by code_simp
  from t [unfolded run_def] have "stock_step fresh_example t"
    by (rule step_allocate [OF _ bulk_update_law_first_update dv])
  moreover have "stock_step t (deallocate_stock_for_order (first_update st_pk) 7 t)"
    by (rule step_cancel) simp
  ultimately have history: "stock_step\<^sup>*\<^sup>* fresh_example (deallocate_stock_for_order (first_update st_pk) 7 t)"
    by (meson rtranclp.simps)
  have "sd_allocations fresh_example = []" "stock_wf fresh_example" "one_stock_each fresh_example"
    "\<forall>st \<in> set (sd_stocks fresh_example). 0 \<le> st_quantity st" by code_simp+
  from warehouse_never_oversells [OF this history] have "no_oversell (deallocate_stock_for_order (first_update st_pk) 7 t)"
    by (rule conjunct1)
  with history q show ?thesis by (intro exI conjI)
qed

end
