(* ===== verification/TransactionAmounts.thy ===== *)
theory TransactionAmounts
  imports Choices
begin

section \<open>The amounts of a transaction\<close>

text \<open>
  \<^verbatim>\<open>saleor/payment/transaction_item_calculations.py\<close>: the eight amounts of a transaction item,
  recomputed from its events. The amount columns are named by strings in the code
  (\<open>getattr\<close>, \<open>setattr\<close>); here a column is a member of \<open>amount_field\<close> and the amounts of an item are
  a function of it. The dictionaries of events per PSP reference are association lists in
  insertion order. Events with equal times are taken in key order.

  The lemmas relate the loops over the dictionaries to a reference that looks up, for each
  reference and type, the newest event, and derive that money is neither made nor lost.
\<close>

subsection \<open>Rows\<close>

datatype amount_field =
    authorized_value | charged_value | refunded_value | canceled_value
  | authorize_pending_value | charge_pending_value | refund_pending_value | cancel_pending_value

type_synonym amounts = "amount_field \<Rightarrow> decimal"

record transaction_event =
  te_pk :: nat
  te_created_at :: datetime
  te_psp_reference :: "string option"
  te_transaction :: nat
  te_type :: transaction_event_type
  te_amount_value :: decimal
  te_include_in_calculations :: bool

record transaction_item =
  ti_pk :: nat
  ti_modified_at :: datetime
  ti_amounts :: amounts

text \<open>The events of one action and one reference.\<close>

record base_event =
  be_request :: "transaction_event option"
  be_success :: "transaction_event option"
  be_failure :: "transaction_event option"

record authorization_events = base_event +
  ae_adjustment :: "transaction_event option"

record charge_events = base_event +
  ce_back :: "transaction_event option"

record refund_events = base_event +
  re_reverse :: "transaction_event option"

type_synonym cancel_events = base_event

record action_event_map =
  am_without_psp_reference :: "transaction_event list"
  am_authorization :: "(string \<times> authorization_events) list"
  am_charge :: "(string \<times> charge_events) list"
  am_refund :: "(string \<times> refund_events) list"
  am_cancel :: "(string \<times> cancel_events) list"

subsection \<open>Amounts of one action\<close>

definition should_increase_pending_amount ::
    "transaction_event option \<Rightarrow> transaction_event option \<Rightarrow> transaction_event option \<Rightarrow> bool" where
  "should_increase_pending_amount request success failure \<longleftrightarrow>
     request \<noteq> None \<and> failure = None \<and> success = None"

definition should_increse_amount :: "transaction_event option \<Rightarrow> transaction_event option \<Rightarrow> bool" where
  "should_increse_amount success failure =
     (case success of None \<Rightarrow> False
      | Some sc \<Rightarrow> (case failure of None \<Rightarrow> True | Some fl \<Rightarrow> te_created_at sc > te_created_at fl))"

definition recalculate_base_amounts ::
    "amounts \<Rightarrow> transaction_event option \<Rightarrow> transaction_event option \<Rightarrow> transaction_event option
      \<Rightarrow> amount_field \<Rightarrow> amount_field \<Rightarrow> amount_field option \<Rightarrow> amounts" where
  "recalculate_base_amounts t request success failure pending_field amount_field previous_field =
     (let take = (\<lambda>x t. case previous_field of None \<Rightarrow> t | Some p \<Rightarrow> t(p := t p - x));
          t = (if should_increase_pending_amount request success failure
               then (let x = te_amount_value (the request)
                     in take x (t(pending_field := t pending_field + x))) else t)
      in if should_increse_amount success failure
         then (let x = te_amount_value (the success)
               in take x (t(amount_field := t amount_field + x))) else t)"

definition recalculate_authorization_amounts :: "amounts \<Rightarrow> authorization_events \<Rightarrow> amounts" where
  "recalculate_authorization_amounts t e =
     (let t = (case ae_adjustment e of None \<Rightarrow> t | Some a \<Rightarrow> t(authorized_value := te_amount_value a))
      in recalculate_base_amounts t (be_request e) (be_success e) (be_failure e)
           authorize_pending_value authorized_value None)"

definition recalculate_charge_amounts :: "amounts \<Rightarrow> charge_events \<Rightarrow> amounts" where
  "recalculate_charge_amounts t e =
     (let t = (case ce_back e of None \<Rightarrow> t
               | Some b \<Rightarrow> t(charged_value := t charged_value - te_amount_value b))
      in recalculate_base_amounts t (be_request e) (be_success e) (be_failure e)
           charge_pending_value charged_value (Some authorized_value))"

definition recalculate_refund_amounts :: "amounts \<Rightarrow> refund_events \<Rightarrow> amounts" where
  "recalculate_refund_amounts t e =
     (let t = (case re_reverse e of None \<Rightarrow> t
               | Some r \<Rightarrow> t(charged_value := t charged_value + te_amount_value r,
                              refunded_value := t refunded_value - te_amount_value r))
      in recalculate_base_amounts t (be_request e) (be_success e) (be_failure e)
           refund_pending_value refunded_value (Some charged_value))"

definition recalculate_cancel_amounts :: "amounts \<Rightarrow> cancel_events \<Rightarrow> amounts" where
  "recalculate_cancel_amounts t e =
     recalculate_base_amounts t (be_request e) (be_success e) (be_failure e)
       cancel_pending_value canceled_value (Some authorized_value)"

subsection \<open>Sorting the events\<close>

definition AUTHORIZATION_EVENTS :: "transaction_event_type list" where
  "AUTHORIZATION_EVENTS =
     [TransactionEventType_AUTHORIZATION_SUCCESS, TransactionEventType_AUTHORIZATION_FAILURE,
      TransactionEventType_AUTHORIZATION_ADJUSTMENT, TransactionEventType_AUTHORIZATION_REQUEST]"

definition is_adjustment :: "transaction_event \<Rightarrow> bool" where
  "is_adjustment e \<longleftrightarrow> te_type e = TransactionEventType_AUTHORIZATION_ADJUSTMENT"

text \<open>Model instances are equal when their keys are: \<open>index\<close> finds the event of the same key.\<close>

definition get_authorize_events :: "transaction_event list \<Rightarrow> transaction_event list" where
  "get_authorize_events events =
     (let authorize_events = filter (\<lambda>e. te_type e \<in> set AUTHORIZATION_EVENTS) events
      in case find is_adjustment (rev authorize_events) of
           None \<Rightarrow> authorize_events
         | Some a \<Rightarrow> dropWhile (\<lambda>e. te_pk e \<noteq> te_pk a) authorize_events)"

definition handle_event_without_psp_reference :: "transaction_event \<Rightarrow> amounts \<Rightarrow> amounts" where
  "handle_event_without_psp_reference e t =
     (let x = te_amount_value e in
      case te_type e of
        TransactionEventType_AUTHORIZATION_SUCCESS \<Rightarrow> t(authorized_value := t authorized_value + x)
      | TransactionEventType_AUTHORIZATION_ADJUSTMENT \<Rightarrow> t(authorized_value := x)
      | TransactionEventType_CHARGE_SUCCESS \<Rightarrow> t(charged_value := t charged_value + x)
      | TransactionEventType_CHARGE_BACK \<Rightarrow> t(charged_value := t charged_value - x)
      | TransactionEventType_REFUND_SUCCESS \<Rightarrow> t(refunded_value := t refunded_value + x)
      | TransactionEventType_REFUND_REVERSE \<Rightarrow> t(charged_value := t charged_value + x)
      | TransactionEventType_CANCEL_SUCCESS \<Rightarrow> t(canceled_value := t canceled_value + x)
      | _ \<Rightarrow> t)"

definition handle_events_without_psp_reference :: "amounts \<Rightarrow> transaction_event list \<Rightarrow> amounts" where
  "handle_events_without_psp_reference t events = fold handle_event_without_psp_reference events t"

text \<open>\<open>d[k]\<close> of a \<open>defaultdict\<close>, changed by \<open>f\<close>.\<close>

fun dict_update :: "'v \<Rightarrow> ('v \<Rightarrow> 'v) \<Rightarrow> 'k \<Rightarrow> ('k \<times> 'v) list \<Rightarrow> ('k \<times> 'v) list" where
  "dict_update dflt f k [] = [(k, f dflt)]"
| "dict_update dflt f k ((k', v) # d) = (if k = k' then (k', f v) # d else (k', v) # dict_update dflt f k d)"

definition no_authorization :: authorization_events where
  "no_authorization = \<lparr>be_request = None, be_success = None, be_failure = None, ae_adjustment = None\<rparr>"

definition no_charge :: charge_events where
  "no_charge = \<lparr>be_request = None, be_success = None, be_failure = None, ce_back = None\<rparr>"

definition no_refund :: refund_events where
  "no_refund = \<lparr>be_request = None, be_success = None, be_failure = None, re_reverse = None\<rparr>"

definition no_cancel :: cancel_events where
  "no_cancel = \<lparr>be_request = None, be_success = None, be_failure = None\<rparr>"

text \<open>What an event writes into the entry of its reference; \<open>None\<close> when it is of no such type.\<close>

definition authorization_slot :: "transaction_event \<Rightarrow> (authorization_events \<Rightarrow> authorization_events) option" where
  "authorization_slot e =
     (case te_type e of
        TransactionEventType_AUTHORIZATION_REQUEST \<Rightarrow> Some (\<lambda>r. r\<lparr>be_request := Some e\<rparr>)
      | TransactionEventType_AUTHORIZATION_SUCCESS \<Rightarrow> Some (\<lambda>r. r\<lparr>be_success := Some e\<rparr>)
      | TransactionEventType_AUTHORIZATION_FAILURE \<Rightarrow> Some (\<lambda>r. r\<lparr>be_failure := Some e\<rparr>)
      | TransactionEventType_AUTHORIZATION_ADJUSTMENT \<Rightarrow> Some (\<lambda>r. r\<lparr>ae_adjustment := Some e\<rparr>)
      | _ \<Rightarrow> None)"

definition charge_slot :: "transaction_event \<Rightarrow> (charge_events \<Rightarrow> charge_events) option" where
  "charge_slot e =
     (case te_type e of
        TransactionEventType_CHARGE_REQUEST \<Rightarrow> Some (\<lambda>r. r\<lparr>be_request := Some e\<rparr>)
      | TransactionEventType_CHARGE_SUCCESS \<Rightarrow> Some (\<lambda>r. r\<lparr>be_success := Some e\<rparr>)
      | TransactionEventType_CHARGE_FAILURE \<Rightarrow> Some (\<lambda>r. r\<lparr>be_failure := Some e\<rparr>)
      | TransactionEventType_CHARGE_BACK \<Rightarrow> Some (\<lambda>r. r\<lparr>ce_back := Some e\<rparr>)
      | _ \<Rightarrow> None)"

definition refund_slot :: "transaction_event \<Rightarrow> (refund_events \<Rightarrow> refund_events) option" where
  "refund_slot e =
     (case te_type e of
        TransactionEventType_REFUND_REQUEST \<Rightarrow> Some (\<lambda>r. r\<lparr>be_request := Some e\<rparr>)
      | TransactionEventType_REFUND_SUCCESS \<Rightarrow> Some (\<lambda>r. r\<lparr>be_success := Some e\<rparr>)
      | TransactionEventType_REFUND_FAILURE \<Rightarrow> Some (\<lambda>r. r\<lparr>be_failure := Some e\<rparr>)
      | TransactionEventType_REFUND_REVERSE \<Rightarrow> Some (\<lambda>r. r\<lparr>re_reverse := Some e\<rparr>)
      | _ \<Rightarrow> None)"

definition cancel_slot :: "transaction_event \<Rightarrow> (cancel_events \<Rightarrow> cancel_events) option" where
  "cancel_slot e =
     (case te_type e of
        TransactionEventType_CANCEL_REQUEST \<Rightarrow> Some (\<lambda>r. r\<lparr>be_request := Some e\<rparr>)
      | TransactionEventType_CANCEL_SUCCESS \<Rightarrow> Some (\<lambda>r. r\<lparr>be_success := Some e\<rparr>)
      | TransactionEventType_CANCEL_FAILURE \<Rightarrow> Some (\<lambda>r. r\<lparr>be_failure := Some e\<rparr>)
      | _ \<Rightarrow> None)"

definition put_slot ::
    "'v \<Rightarrow> (transaction_event \<Rightarrow> ('v \<Rightarrow> 'v) option) \<Rightarrow> transaction_event
      \<Rightarrow> (string \<times> 'v) list \<Rightarrow> (string \<times> 'v) list" where
  "put_slot dflt slot e d =
     (case (te_psp_reference e, slot e) of
        (Some p, Some f) \<Rightarrow> dict_update dflt f p d | _ \<Rightarrow> d)"

definition has_psp_reference :: "transaction_event \<Rightarrow> bool" where
  "has_psp_reference e \<longleftrightarrow> te_psp_reference e \<noteq> None \<and> te_psp_reference e \<noteq> Some []"

text \<open>The two loops: authorization events first, then the others.\<close>

definition add_authorize_event :: "transaction_event \<Rightarrow> action_event_map \<Rightarrow> action_event_map" where
  "add_authorize_event e m =
     (if \<not> has_psp_reference e
      then m\<lparr>am_without_psp_reference := am_without_psp_reference m @ [e]\<rparr>
      else m\<lparr>am_authorization := put_slot no_authorization authorization_slot e (am_authorization m)\<rparr>)"

definition add_other_event :: "transaction_event \<Rightarrow> action_event_map \<Rightarrow> action_event_map" where
  "add_other_event e m =
     (if \<not> has_psp_reference e
      then m\<lparr>am_without_psp_reference := am_without_psp_reference m @ [e]\<rparr>
      else m\<lparr>am_charge := put_slot no_charge charge_slot e (am_charge m),
              am_refund := put_slot no_refund refund_slot e (am_refund m),
              am_cancel := put_slot no_cancel cancel_slot e (am_cancel m)\<rparr>)"

definition initilize_action_map :: "transaction_event list \<Rightarrow> action_event_map" where
  "initilize_action_map events =
     (let authorize_events = get_authorize_events events;
          events_without_authorize = filter (\<lambda>e. te_type e \<notin> set AUTHORIZATION_EVENTS) events;
          m = \<lparr>am_without_psp_reference = [], am_authorization = [], am_charge = [],
               am_refund = [], am_cancel = []\<rparr>
      in fold add_other_event events_without_authorize (fold add_authorize_event authorize_events m))"

subsection \<open>Recalculating\<close>

definition calculation_events :: "nat \<Rightarrow> transaction_event list \<Rightarrow> transaction_event list" where
  "calculation_events pk events = sort_key te_created_at
     (filter (\<lambda>e. te_transaction e = pk \<and> te_include_in_calculations e) events)"

definition calculate_amounts :: "transaction_event list \<Rightarrow> amounts" where
  "calculate_amounts events =
     (let m = initilize_action_map events;
          t = (\<lambda>_. 0);
          t = handle_events_without_psp_reference t (am_without_psp_reference m);
          t = fold (\<lambda>(_, e) t. recalculate_authorization_amounts t e) (am_authorization m) t;
          t = fold (\<lambda>(_, e) t. recalculate_charge_amounts t e) (am_charge m) t;
          t = fold (\<lambda>(_, e) t. recalculate_refund_amounts t e) (am_refund m) t
      in fold (\<lambda>(_, e) t. recalculate_cancel_amounts t e) (am_cancel m) t)"

definition calculate_transaction_amount_based_on_events ::
    "transaction_event list \<Rightarrow> transaction_item \<Rightarrow> transaction_item" where
  "calculate_transaction_amount_based_on_events events item =
     item\<lparr>ti_amounts := calculate_amounts (calculation_events (ti_pk item) events)\<rparr>"

text \<open>The object recalculated, and the rows: with \<open>save\<close> the amounts and \<open>modified_at\<close> are written.\<close>

definition recalculate_transaction_amounts ::
    "datetime \<Rightarrow> bool \<Rightarrow> transaction_event list \<Rightarrow> transaction_item \<Rightarrow> transaction_item list
      \<Rightarrow> transaction_item \<times> transaction_item list" where
  "recalculate_transaction_amounts now save events item items =
     (let item = calculate_transaction_amount_based_on_events events item;
          t = ti_amounts item;
          t = t(authorized_value := max (t authorized_value) 0);
          t = t(authorize_pending_value := max (t authorize_pending_value) 0);
          item = item\<lparr>ti_amounts := t\<rparr>
      in if save
         then (item\<lparr>ti_modified_at := now\<rparr>,
               save_row ti_pk (ti_pk item) (\<lambda>r. r\<lparr>ti_amounts := t, ti_modified_at := now\<rparr>) items)
         else (item, items))"

subsection \<open>What each action adds\<close>

definition pending_amount ::
    "transaction_event option \<Rightarrow> transaction_event option \<Rightarrow> transaction_event option \<Rightarrow> decimal" where
  "pending_amount rq sc fl = (if should_increase_pending_amount rq sc fl then te_amount_value (the rq) else 0)"

definition counted_amount :: "transaction_event option \<Rightarrow> transaction_event option \<Rightarrow> decimal" where
  "counted_amount sc fl = (if should_increse_amount sc fl then te_amount_value (the sc) else 0)"

definition amount_of :: "transaction_event option \<Rightarrow> decimal" where
  "amount_of e = (case e of None \<Rightarrow> 0 | Some e \<Rightarrow> te_amount_value e)"

text \<open>The move of an action: from one column, if any, to its pending and its own column.\<close>

definition moved ::
    "decimal \<Rightarrow> decimal \<Rightarrow> amount_field \<Rightarrow> amount_field \<Rightarrow> amount_field option \<Rightarrow> amounts" where
  "moved pending counted pending_field amount_field previous_field = (\<lambda>f.
     (if f = pending_field then pending else 0) + (if f = amount_field then counted else 0)
     - (if previous_field = Some f then pending + counted else 0))"

lemma recalculate_base_amounts_eq:
  assumes "pf \<noteq> af" "prev \<noteq> Some pf" "prev \<noteq> Some af"
  shows "recalculate_base_amounts t rq sc fl pf af prev f =
    t f + moved (pending_amount rq sc fl) (counted_amount sc fl) pf af prev f"
  using assms
    by (cases prev) (auto simp: recalculate_base_amounts_def Let_def moved_def pending_amount_def counted_amount_def)

definition authorization_added :: "authorization_events \<Rightarrow> amounts" where
  "authorization_added e = moved (pending_amount (be_request e) (be_success e) (be_failure e))
     (counted_amount (be_success e) (be_failure e)) authorize_pending_value authorized_value None"

definition charge_added :: "charge_events \<Rightarrow> amounts" where
  "charge_added e = (\<lambda>f. moved (pending_amount (be_request e) (be_success e) (be_failure e))
     (counted_amount (be_success e) (be_failure e)) charge_pending_value charged_value (Some authorized_value) f
     - (if f = charged_value then amount_of (ce_back e) else 0))"

definition refund_added :: "refund_events \<Rightarrow> amounts" where
  "refund_added e = (\<lambda>f. moved (pending_amount (be_request e) (be_success e) (be_failure e))
     (counted_amount (be_success e) (be_failure e)) refund_pending_value refunded_value (Some charged_value) f
     + (if f = charged_value then amount_of (re_reverse e) else 0)
     - (if f = refunded_value then amount_of (re_reverse e) else 0))"

definition cancel_added :: "cancel_events \<Rightarrow> amounts" where
  "cancel_added e = moved (pending_amount (be_request e) (be_success e) (be_failure e))
     (counted_amount (be_success e) (be_failure e)) cancel_pending_value canceled_value (Some authorized_value)"

lemma recalculate_adds:
  "recalculate_authorization_amounts t ae f =
     (if f = authorized_value \<and> ae_adjustment ae \<noteq> None then amount_of (ae_adjustment ae) else t f)
     + authorization_added ae f"
  "recalculate_charge_amounts t ce f = t f + charge_added ce f"
  "recalculate_refund_amounts t re f = t f + refund_added re f"
  "recalculate_cancel_amounts t ca f = t f + cancel_added ca f"
  by (auto simp: recalculate_authorization_amounts_def recalculate_charge_amounts_def
      recalculate_refund_amounts_def recalculate_cancel_amounts_def recalculate_base_amounts_eq
      authorization_added_def charge_added_def refund_added_def cancel_added_def amount_of_def
      split: option.splits)

lemma fold_adds:
  assumes "\<And>t e f. R t e f = t f + (added e :: amounts) f"
  shows "fold (\<lambda>(_, e) t. R t e) d t f = t f + (\<Sum>(_, e) \<leftarrow> d. added e f)"
  by (induction d arbitrary: t) (auto simp: assms)

lemma added_nothing [simp]:
  "authorization_added no_authorization f = 0" "charge_added no_charge f = 0"
  "refund_added no_refund f = 0" "cancel_added no_cancel f = 0"
  by (simp_all add: authorization_added_def charge_added_def refund_added_def cancel_added_def moved_def
      no_authorization_def no_charge_def no_refund_def no_cancel_def pending_amount_def counted_amount_def
      should_increase_pending_amount_def should_increse_amount_def amount_of_def)

subsection \<open>The dictionaries\<close>

lemma dict_update_keys: "fst ` set (dict_update dflt f k d) = insert k (fst ` set d)"
  by (induction dflt f k d rule: dict_update.induct) (simp_all add: insert_commute)

lemma distinct_dict_update: "distinct (map fst d) \<Longrightarrow> distinct (map fst (dict_update dflt f k d))"
  by (induction dflt f k d rule: dict_update.induct) (simp_all add: dict_update_keys)

lemma map_of_dict_update:
  "map_of (dict_update dflt f k d) k' =
     (if k' = k then Some (f (case map_of d k of None \<Rightarrow> dflt | Some v \<Rightarrow> v)) else map_of d k')"
  by (induction d) auto

text \<open>What the entry of a reference has become after some events.\<close>

definition entry_of ::
    "'v \<Rightarrow> (transaction_event \<Rightarrow> ('v \<Rightarrow> 'v) option) \<Rightarrow> string \<Rightarrow> transaction_event list \<Rightarrow> 'v" where
  "entry_of dflt slot p events = fold (\<lambda>e v. if te_psp_reference e = Some p
     then (case slot e of None \<Rightarrow> v | Some f \<Rightarrow> f v) else v) events dflt"

lemma entry_of_simps [simp]:
  "entry_of dflt slot p [] = dflt"
  "entry_of dflt slot p (events @ [e]) = (if te_psp_reference e = Some p
     then (case slot e of None \<Rightarrow> entry_of dflt slot p events | Some f \<Rightarrow> f (entry_of dflt slot p events))
     else entry_of dflt slot p events)"
  by (simp_all add: entry_of_def split: option.split)

lemma dictionary:
  "distinct (map fst (fold (put_slot dflt slot) events []))"
  "p \<in> fst ` set (fold (put_slot dflt slot) events []) \<Longrightarrow> Some p \<in> te_psp_reference ` set events"
  "map_of (fold (put_slot dflt slot) events []) p =
     (if p \<in> fst ` set (fold (put_slot dflt slot) events []) then Some (entry_of dflt slot p events) else None)"
  "p \<notin> fst ` set (fold (put_slot dflt slot) events []) \<Longrightarrow> entry_of dflt slot p events = dflt"
proof (induction events arbitrary: p rule: rev_induct)
  case (snoc e events)
  let ?d = "fold (put_slot dflt slot) events []"
  { case 1 show ?case using snoc.IH(1) by (auto simp: put_slot_def distinct_dict_update split: option.splits) }
  { case 2 then show ?case using snoc.IH(2) by (auto simp: put_slot_def dict_update_keys split: option.splits) }
  { case 4 then show ?case using snoc.IH(4) by (auto simp: put_slot_def dict_update_keys split: option.splits) }
  { case 3 show ?case using snoc.IH(3,4)
      by (auto simp: put_slot_def dict_update_keys map_of_dict_update split: option.splits) }
qed simp_all

lemma sum_dictionary:
  assumes P: "finite P" "{p. Some p \<in> te_psp_reference ` set events} \<subseteq> P" and zero: "g dflt = (0 :: decimal)"
  shows "(\<Sum>(_, v) \<leftarrow> fold (put_slot dflt slot) events []. g v) = (\<Sum>p \<in> P. g (entry_of dflt slot p events))"
proof -
  let ?d = "fold (put_slot dflt slot) events []"
  have "(\<Sum>(_, v) \<leftarrow> ?d. g v) = (\<Sum>(p, v) \<leftarrow> ?d. g (entry_of dflt slot p events))"
  proof (rule arg_cong [of _ _ sum_list], rule map_cong [OF refl], clarify)
    fix p v assume "(p, v) \<in> set ?d"
    then have "map_of ?d p = Some v" using dictionary(1) by (metis map_of_eq_Some_iff)
    then show "g v = g (entry_of dflt slot p events)" using dictionary(3) [of dflt slot events p]
      by (auto split: if_splits)
  qed
  also have "\<dots> = (\<Sum>p \<leftarrow> map fst ?d. g (entry_of dflt slot p events))"
    by (simp add: comp_def case_prod_unfold)
  also have "\<dots> = (\<Sum>p \<in> fst ` set ?d. g (entry_of dflt slot p events))"
    by (simp only: sum_list_distinct_conv_sum_set [OF dictionary(1)] set_map)
  also have "\<dots> = (\<Sum>p \<in> P. g (entry_of dflt slot p events))"
  proof (rule sum.mono_neutral_left [OF P(1)])
    show "fst ` set ?d \<subseteq> P"
    proof
      fix p assume "p \<in> fst ` set ?d"
      then have "Some p \<in> te_psp_reference ` set events" by (rule dictionary(2))
      then show "p \<in> P" using P(2) by auto
    qed
    show "\<forall>p \<in> P - fst ` set ?d. g (entry_of dflt slot p events) = 0"
    proof
      fix p assume "p \<in> P - fst ` set ?d"
      then have "p \<notin> fst ` set ?d" by simp
      then have "entry_of dflt slot p events = dflt" by (rule dictionary(4))
      then show "g (entry_of dflt slot p events) = 0" by (simp add: zero)
    qed
  qed
  finally show ?thesis .
qed

lemma dictionary_entries:
  "(p, v) \<in> set (fold (put_slot dflt slot) events []) \<Longrightarrow> v = entry_of dflt slot p events"
proof -
  assume mem: "(p, v) \<in> set (fold (put_slot dflt slot) events [])"
  then have "map_of (fold (put_slot dflt slot) events []) p = Some v"
    using dictionary(1) by (metis map_of_eq_Some_iff)
  moreover have "p \<in> fst ` set (fold (put_slot dflt slot) events [])" using mem by force
  ultimately show ?thesis using dictionary(3) [of dflt slot events p] by simp
qed

lemma fold_put_head: "\<exists>v' d'. fold (put_slot dflt slot) events ((k, v) # d) = (k, v') # d'"
proof (induction events arbitrary: v d)
  case (Cons e events)
  have "\<exists>w c. put_slot dflt slot e ((k, v) # d) = (k, w) # c"
    by (auto simp: put_slot_def split: option.splits)
  with Cons show ?case by fastforce
qed simp

subsection \<open>The reference\<close>

text \<open>The newest event of a type and a reference.\<close>

definition newest :: "transaction_event_type \<Rightarrow> string \<Rightarrow> transaction_event list \<Rightarrow> transaction_event option" where
  "newest ty p events = find (\<lambda>e. te_type e = ty \<and> te_psp_reference e = Some p) (rev events)"

lemma newest_simps [simp]:
  "newest ty p [] = None"
  "newest ty p (events @ [e]) =
     (if te_type e = ty \<and> te_psp_reference e = Some p then Some e else newest ty p events)"
  by (simp_all add: newest_def)

lemma newest_filter:
  "(\<And>e. te_psp_reference e = Some p \<Longrightarrow> te_type e = ty \<Longrightarrow> Q e) \<Longrightarrow> newest ty p (filter Q events) = newest ty p events"
  by (induction events rule: rev_induct) auto

lemma newest_None: "\<forall>e \<in> set events. te_type e \<noteq> ty \<Longrightarrow> newest ty p events = None"
  by (auto simp: newest_def find_None_iff)

lemma newest_Cons:
  "newest ty p (e # events) = (case newest ty p events of Some e' \<Rightarrow> Some e'
     | None \<Rightarrow> if te_type e = ty \<and> te_psp_reference e = Some p then Some e else None)"
  by (simp add: newest_def find_append split: option.splits)

lemma entries_are_newest:
  "entry_of no_authorization authorization_slot p events =
     \<lparr>be_request = newest TransactionEventType_AUTHORIZATION_REQUEST p events,
      be_success = newest TransactionEventType_AUTHORIZATION_SUCCESS p events,
      be_failure = newest TransactionEventType_AUTHORIZATION_FAILURE p events,
      ae_adjustment = newest TransactionEventType_AUTHORIZATION_ADJUSTMENT p events\<rparr>"
  "entry_of no_charge charge_slot p events =
     \<lparr>be_request = newest TransactionEventType_CHARGE_REQUEST p events,
      be_success = newest TransactionEventType_CHARGE_SUCCESS p events,
      be_failure = newest TransactionEventType_CHARGE_FAILURE p events,
      ce_back = newest TransactionEventType_CHARGE_BACK p events\<rparr>"
  "entry_of no_refund refund_slot p events =
     \<lparr>be_request = newest TransactionEventType_REFUND_REQUEST p events,
      be_success = newest TransactionEventType_REFUND_SUCCESS p events,
      be_failure = newest TransactionEventType_REFUND_FAILURE p events,
      re_reverse = newest TransactionEventType_REFUND_REVERSE p events\<rparr>"
  "entry_of no_cancel cancel_slot p events =
     \<lparr>be_request = newest TransactionEventType_CANCEL_REQUEST p events,
      be_success = newest TransactionEventType_CANCEL_SUCCESS p events,
      be_failure = newest TransactionEventType_CANCEL_FAILURE p events\<rparr>"
  by (induction events rule: rev_induct)
    (auto simp: no_authorization_def no_charge_def no_refund_def no_cancel_def authorization_slot_def
      charge_slot_def refund_slot_def cancel_slot_def split: transaction_event_type.splits)

text \<open>What an event without a reference adds.\<close>

definition loose_amount :: "transaction_event \<Rightarrow> amounts" where
  "loose_amount e = (\<lambda>f.
     let x = te_amount_value e in
     case te_type e of
       TransactionEventType_AUTHORIZATION_SUCCESS \<Rightarrow> if f = authorized_value then x else 0
     | TransactionEventType_CHARGE_SUCCESS \<Rightarrow> if f = charged_value then x else 0
     | TransactionEventType_CHARGE_BACK \<Rightarrow> if f = charged_value then - x else 0
     | TransactionEventType_REFUND_SUCCESS \<Rightarrow> if f = refunded_value then x else 0
     | TransactionEventType_REFUND_REVERSE \<Rightarrow> if f = charged_value then x else 0
     | TransactionEventType_CANCEL_SUCCESS \<Rightarrow> if f = canceled_value then x else 0
     | _ \<Rightarrow> 0)"

definition psp_references :: "transaction_event list \<Rightarrow> string list" where
  "psp_references events = remdups (map (\<lambda>e. the (te_psp_reference e)) (filter has_psp_reference events))"

definition action_amount ::
    "transaction_event_type \<Rightarrow> transaction_event_type \<Rightarrow> transaction_event_type \<Rightarrow> amount_field \<Rightarrow> amount_field
      \<Rightarrow> amount_field option \<Rightarrow> transaction_event list \<Rightarrow> string \<Rightarrow> amounts" where
  "action_amount rq sc fl pf af prev events p =
     moved (pending_amount (newest rq p events) (newest sc p events) (newest fl p events))
           (counted_amount (newest sc p events) (newest fl p events)) pf af prev"

definition authorization_amount :: "transaction_event list \<Rightarrow> string \<Rightarrow> amounts" where
  "authorization_amount since p =
     action_amount TransactionEventType_AUTHORIZATION_REQUEST TransactionEventType_AUTHORIZATION_SUCCESS
       TransactionEventType_AUTHORIZATION_FAILURE authorize_pending_value authorized_value None since p"

definition other_amount :: "transaction_event list \<Rightarrow> string \<Rightarrow> amounts" where
  "other_amount events p = (\<lambda>f.
     action_amount TransactionEventType_CHARGE_REQUEST TransactionEventType_CHARGE_SUCCESS
       TransactionEventType_CHARGE_FAILURE charge_pending_value charged_value (Some authorized_value) events p f
   + action_amount TransactionEventType_REFUND_REQUEST TransactionEventType_REFUND_SUCCESS
       TransactionEventType_REFUND_FAILURE refund_pending_value refunded_value (Some charged_value) events p f
   + action_amount TransactionEventType_CANCEL_REQUEST TransactionEventType_CANCEL_SUCCESS
       TransactionEventType_CANCEL_FAILURE cancel_pending_value canceled_value (Some authorized_value) events p f
   + (if f = charged_value then amount_of (newest TransactionEventType_REFUND_REVERSE p events)
        - amount_of (newest TransactionEventType_CHARGE_BACK p events) else 0)
   - (if f = refunded_value then amount_of (newest TransactionEventType_REFUND_REVERSE p events) else 0))"

text \<open>
  The amounts by direct lookup: the newest adjustment, the authorization events since it, the
  events without a reference, and for each reference the newest event of each type.
\<close>

definition reference_amounts :: "transaction_event list \<Rightarrow> amounts" where
  "reference_amounts events = (\<lambda>f.
     let authorize = filter (\<lambda>e. te_type e \<in> set AUTHORIZATION_EVENTS) events;
         since = rev (takeWhile (\<lambda>e. \<not> is_adjustment e) (rev authorize));
         loose = filter (\<lambda>e. \<not> has_psp_reference e);
         others = filter (\<lambda>e. te_type e \<notin> set AUTHORIZATION_EVENTS) events;
         adjusted = (case find is_adjustment (rev authorize) of
             None \<Rightarrow> 0 | Some a \<Rightarrow> if f = authorized_value then te_amount_value a else 0)
     in adjusted + (\<Sum>e \<leftarrow> loose since. loose_amount e f) + (\<Sum>e \<leftarrow> loose others. loose_amount e f)
        + (\<Sum>p \<leftarrow> psp_references events. authorization_amount since p f)
        + (\<Sum>p \<leftarrow> psp_references events. other_amount events p f))"

text \<open>
  What the code leaves out: authorizations without a reference that are newer than the newest adjustment are
  documented to count, but the loop over the references writes an adjustment with a reference after they were added.
\<close>

definition overwritten_authorizations :: "transaction_event list \<Rightarrow> decimal" where
  "overwritten_authorizations events =
     (let authorize = filter (\<lambda>e. te_type e \<in> set AUTHORIZATION_EVENTS) events
      in case find is_adjustment (rev authorize) of
           None \<Rightarrow> 0
         | Some a \<Rightarrow>
             if has_psp_reference a
             then (\<Sum>e \<leftarrow> filter (\<lambda>e. \<not> has_psp_reference e) (rev (takeWhile (\<lambda>e. \<not> is_adjustment e) (rev authorize))).
               loose_amount e authorized_value)
             else 0)"

subsection \<open>The code computes the reference\<close>

lemma authorize_split:
  assumes "distinct (map te_pk xs)"
  shows "(case find is_adjustment (rev xs) of None \<Rightarrow> xs | Some a \<Rightarrow> dropWhile (\<lambda>e. te_pk e \<noteq> te_pk a) xs)
    = (case find is_adjustment (rev xs) of None \<Rightarrow> [] | Some a \<Rightarrow> [a])
      @ rev (takeWhile (\<lambda>e. \<not> is_adjustment e) (rev xs))"
proof (cases "\<exists>e \<in> set xs. is_adjustment e")
  case True
  then obtain ys a zs where xs: "xs = ys @ a # zs" and a: "is_adjustment a" and zs: "\<forall>z \<in> set zs. \<not> is_adjustment z"
    using split_list_last_prop [of xs is_adjustment] by blast
  have find: "find is_adjustment (rev xs) = Some a"
    using a zs by (simp add: xs find_append find_None_iff split: option.split) (metis find_None_iff option.distinct(1) set_rev)
  have "takeWhile (\<lambda>e. \<not> is_adjustment e) (rev xs) = rev zs"
    using a zs by (simp add: xs, subst takeWhile_append2) auto
  moreover have "dropWhile (\<lambda>e. te_pk e \<noteq> te_pk a) xs = a # zs"
    using assms by (subst xs, subst dropWhile_append2) (auto simp: xs image_iff)
  ultimately show ?thesis by (simp add: find)
next
  case False
  then have "find is_adjustment (rev xs) = None" by (simp add: find_None_iff)
  moreover have "takeWhile (\<lambda>e. \<not> is_adjustment e) (rev xs) = rev xs"
    using False by (intro takeWhile_eq_all_conv [THEN iffD2]) auto
  ultimately show ?thesis by (simp only: option.case append_Nil rev_rev_ident)
qed

lemma action_map_parts:
  "am_without_psp_reference (fold add_authorize_event es m) = am_without_psp_reference m @ filter (\<lambda>e. \<not> has_psp_reference e) es"
  "am_authorization (fold add_authorize_event es m) = fold (put_slot no_authorization authorization_slot) (filter has_psp_reference es) (am_authorization m)"
  "am_charge (fold add_authorize_event es m) = am_charge m" "am_refund (fold add_authorize_event es m) = am_refund m"
  "am_cancel (fold add_authorize_event es m) = am_cancel m"
  "am_without_psp_reference (fold add_other_event es m) = am_without_psp_reference m @ filter (\<lambda>e. \<not> has_psp_reference e) es"
  "am_authorization (fold add_other_event es m) = am_authorization m"
  "am_charge (fold add_other_event es m) = fold (put_slot no_charge charge_slot) (filter has_psp_reference es) (am_charge m)"
  "am_refund (fold add_other_event es m) = fold (put_slot no_refund refund_slot) (filter has_psp_reference es) (am_refund m)"
  "am_cancel (fold add_other_event es m) = fold (put_slot no_cancel cancel_slot) (filter has_psp_reference es) (am_cancel m)"
  by (induction es arbitrary: m) (simp_all add: add_authorize_event_def add_other_event_def)

lemma handle_loose:
  "\<forall>e \<in> set es. \<not> is_adjustment e \<Longrightarrow>
     handle_events_without_psp_reference t es f = t f + (\<Sum>e \<leftarrow> es. loose_amount e f)"
  unfolding handle_events_without_psp_reference_def
  by (induction es arbitrary: t)
    (auto simp: handle_event_without_psp_reference_def loose_amount_def is_adjustment_def Let_def
      split: transaction_event_type.splits)

lemma fold_authorization:
  "\<forall>(p, v) \<in> set d. ae_adjustment v = None \<Longrightarrow>
     fold (\<lambda>(_, e) t. recalculate_authorization_amounts t e) d t f = t f + (\<Sum>(_, e) \<leftarrow> d. authorization_added e f)"
  by (induction d arbitrary: t) (auto simp: recalculate_adds)

lemma fold_authorization_adjusted:
  assumes "d = (p, v) # d'" "ae_adjustment v = Some a" "\<forall>(p, v) \<in> set d'. ae_adjustment v = None"
  shows "fold (\<lambda>(_, e) t. recalculate_authorization_amounts t e) d t f =
    (if f = authorized_value then te_amount_value a else t f) + (\<Sum>(_, e) \<leftarrow> d. authorization_added e f)"
  using assms(2,3) by (simp add: assms(1) fold_authorization recalculate_adds amount_of_def)

lemma psp_references_laws:
  "distinct (psp_references events)" "p \<in> set (psp_references events) \<Longrightarrow> p \<noteq> []"
  "set es \<subseteq> set events \<Longrightarrow> {p. Some p \<in> te_psp_reference ` set (filter has_psp_reference es)} \<subseteq> set (psp_references events)"
  by (force simp: psp_references_def has_psp_reference_def)+

lemma newest_with_reference:
  "p \<noteq> [] \<Longrightarrow> newest ty p (filter has_psp_reference es) = newest ty p es"
  by (rule newest_filter) (simp add: has_psp_reference_def)

lemma newest_of_others:
  "ty \<notin> set AUTHORIZATION_EVENTS \<Longrightarrow>
     newest ty p (filter (\<lambda>e. te_type e \<notin> set AUTHORIZATION_EVENTS) events) = newest ty p events"
  by (rule newest_filter) simp

lemma sum_references:
  assumes es: "set es \<subseteq> set events" and zero: "added dflt f = (0 :: decimal)"
    and entry: "\<And>p. p \<noteq> [] \<Longrightarrow> added (entry_of dflt slot p (filter has_psp_reference es)) f = amt p"
  shows "(\<Sum>(_, v) \<leftarrow> fold (put_slot dflt slot) (filter has_psp_reference es) []. added v f)
    = (\<Sum>p \<leftarrow> psp_references events. amt p)"
proof -
  have "(\<Sum>(_, v) \<leftarrow> fold (put_slot dflt slot) (filter has_psp_reference es) []. added v f)
      = (\<Sum>p \<in> set (psp_references events). added (entry_of dflt slot p (filter has_psp_reference es)) f)"
    by (rule sum_dictionary [OF _ psp_references_laws(3) [OF es]]) (simp_all add: zero)
  also have "\<dots> = (\<Sum>p \<in> set (psp_references events). amt p)"
    by (rule sum.cong [OF refl]) (simp add: entry psp_references_laws(2))
  also have "\<dots> = (\<Sum>p \<leftarrow> psp_references events. amt p)"
    by (simp add: sum_list_distinct_conv_sum_set psp_references_laws(1))
  finally show ?thesis .
qed

lemma loose_columns:
  "te_type e \<in> set AUTHORIZATION_EVENTS \<Longrightarrow> f \<noteq> authorized_value \<Longrightarrow> loose_amount e f = 0"
  "te_type e \<notin> set AUTHORIZATION_EVENTS \<Longrightarrow> loose_amount e authorized_value = 0"
  by (auto simp: loose_amount_def AUTHORIZATION_EVENTS_def Let_def split: transaction_event_type.splits)

lemma sum_loose_zero: "\<forall>e \<in> set es. loose_amount e f = 0 \<Longrightarrow> (\<Sum>e \<leftarrow> es. loose_amount e f) = 0"
  by (induction es) auto

definition adjustment_list :: "transaction_event list \<Rightarrow> transaction_event list" where
  "adjustment_list xs = (case find is_adjustment (rev xs) of None \<Rightarrow> [] | Some a \<Rightarrow> [a])"

definition since_adjustment :: "transaction_event list \<Rightarrow> transaction_event list" where
  "since_adjustment xs = rev (takeWhile (\<lambda>e. \<not> is_adjustment e) (rev xs))"

lemma since_adjustment_laws:
  "set (since_adjustment xs) \<subseteq> set xs" "\<forall>e \<in> set (since_adjustment xs). \<not> is_adjustment e"
  "\<forall>a \<in> set (adjustment_list xs). a \<in> set xs \<and> is_adjustment a"
proof -
  show "set (since_adjustment xs) \<subseteq> set xs" "\<forall>e \<in> set (since_adjustment xs). \<not> is_adjustment e"
    by (auto simp: since_adjustment_def dest: set_takeWhileD)
  show "\<forall>a \<in> set (adjustment_list xs). a \<in> set xs \<and> is_adjustment a"
    by (cases "find is_adjustment (rev xs)") (auto simp: adjustment_list_def dest: find_SomeD)
qed

text \<open>The authorization dictionary, with and without an adjustment that has a reference.\<close>

lemma authorization_sum:
  fixes xs :: "transaction_event list"
  defines "A \<equiv> adjustment_list xs @ since_adjustment xs"
  assumes xs: "set xs \<subseteq> set events"
  shows "fold (\<lambda>(_, e) t. recalculate_authorization_amounts t e)
      (fold (put_slot no_authorization authorization_slot) (filter has_psp_reference A) []) t f =
    (if f = authorized_value \<and> filter has_psp_reference (adjustment_list xs) \<noteq> []
     then te_amount_value (hd (adjustment_list xs)) else t f)
    + (\<Sum>p \<leftarrow> psp_references events. authorization_amount (since_adjustment xs) p f)"
proof -
  let ?d = "fold (put_slot no_authorization authorization_slot) (filter has_psp_reference A) []"
  note laws = since_adjustment_laws [of xs]
  have sub: "set A \<subseteq> set events" using laws xs by (auto simp: A_def)
  have newest_A: "newest ty p A = newest ty p (since_adjustment xs)"
    if "ty \<noteq> TransactionEventType_AUTHORIZATION_ADJUSTMENT" for ty p
    using that laws(3) by (cases "find is_adjustment (rev xs)")
      (auto simp: A_def adjustment_list_def newest_Cons is_adjustment_def split: option.splits)
  have sum: "(\<Sum>(_, e) \<leftarrow> ?d. authorization_added e f) = 
      (\<Sum>p \<leftarrow> psp_references events. authorization_amount (since_adjustment xs) p f)"
  proof (rule sum_references [OF sub])
    show "authorization_added no_authorization f = 0" by simp
  qed (simp add: entries_are_newest newest_with_reference newest_A authorization_amount_def action_amount_def authorization_added_def)
  have adj: "ae_adjustment v = newest TransactionEventType_AUTHORIZATION_ADJUSTMENT p (filter has_psp_reference A)"
    if "(p, v) \<in> set ?d" for p v
    using dictionary_entries [OF that] by (simp add: entries_are_newest)
  have none: "newest TransactionEventType_AUTHORIZATION_ADJUSTMENT p (filter has_psp_reference (since_adjustment xs)) = None" for p
    using laws(2) by (intro newest_None) (auto simp: is_adjustment_def)
  show ?thesis
  proof (cases "filter has_psp_reference (adjustment_list xs)")
    case Nil
    then have "\<forall>(p, v) \<in> set ?d. ae_adjustment v = None"
      using adj none by (auto simp: A_def)
    from fold_authorization [OF this, of t f] Nil sum show ?thesis by simp
  next
    case (Cons a rest)
    then have a: "adjustment_list xs = [a]" "has_psp_reference a"
      by (auto simp: adjustment_list_def split: option.splits if_splits)
    then obtain p0 where p0: "te_psp_reference a = Some p0" by (auto simp: has_psp_reference_def)
    have ty: "te_type a = TransactionEventType_AUTHORIZATION_ADJUSTMENT" using laws(3) a(1) by (simp add: is_adjustment_def)
    have "?d = fold (put_slot no_authorization authorization_slot) (filter has_psp_reference (since_adjustment xs))
        [(p0, no_authorization\<lparr>ae_adjustment := Some a\<rparr>)]"
      by (simp add: A_def a put_slot_def p0 authorization_slot_def ty)
    then obtain v d' where d: "?d = (p0, v) # d'" using fold_put_head by metis
    have newest_adj: "newest TransactionEventType_AUTHORIZATION_ADJUSTMENT p (filter has_psp_reference A) =
        (if p = p0 then Some a else None)" for p
      using none [of p] by (simp add: A_def a newest_Cons ty p0)
    have "ae_adjustment v = Some a" using adj [of p0 v] newest_adj [of p0] by (simp add: d)
    moreover have "\<forall>(p, v) \<in> set d'. ae_adjustment v = None"
    proof (clarify)
      fix p w assume w: "(p, w) \<in> set d'"
      have "distinct (map fst ((p0, v) # d'))" unfolding d [symmetric] by (rule dictionary(1))
      with w have "p \<noteq> p0" by force
      with adj [of p w] newest_adj [of p] w show "ae_adjustment w = None" by (simp add: d)
    qed
    ultimately show ?thesis using fold_authorization_adjusted [OF d, of a t f] sum by (simp add: a)
  qed
qed

lemma get_authorize_events_eq:
  assumes "distinct (map te_pk events)"
  shows "get_authorize_events events =
      adjustment_list (filter (\<lambda>e. te_type e \<in> set AUTHORIZATION_EVENTS) events)
    @ since_adjustment (filter (\<lambda>e. te_type e \<in> set AUTHORIZATION_EVENTS) events)"
  using authorize_split [of "filter (\<lambda>e. te_type e \<in> set AUTHORIZATION_EVENTS) events"] assms
  by (simp add: get_authorize_events_def adjustment_list_def since_adjustment_def Let_def distinct_map_filter)

lemma other_types:
  "TransactionEventType_CHARGE_REQUEST \<notin> set AUTHORIZATION_EVENTS"
  "TransactionEventType_CHARGE_SUCCESS \<notin> set AUTHORIZATION_EVENTS"
  "TransactionEventType_CHARGE_FAILURE \<notin> set AUTHORIZATION_EVENTS"
  "TransactionEventType_CHARGE_BACK \<notin> set AUTHORIZATION_EVENTS"
  "TransactionEventType_REFUND_REQUEST \<notin> set AUTHORIZATION_EVENTS"
  "TransactionEventType_REFUND_SUCCESS \<notin> set AUTHORIZATION_EVENTS"
  "TransactionEventType_REFUND_FAILURE \<notin> set AUTHORIZATION_EVENTS"
  "TransactionEventType_REFUND_REVERSE \<notin> set AUTHORIZATION_EVENTS"
  "TransactionEventType_CANCEL_REQUEST \<notin> set AUTHORIZATION_EVENTS"
  "TransactionEventType_CANCEL_SUCCESS \<notin> set AUTHORIZATION_EVENTS"
  "TransactionEventType_CANCEL_FAILURE \<notin> set AUTHORIZATION_EVENTS"
  by (simp_all add: AUTHORIZATION_EVENTS_def)

lemma other_sums:
  fixes events :: "transaction_event list"
  defines "others \<equiv> filter has_psp_reference (filter (\<lambda>e. te_type e \<notin> set AUTHORIZATION_EVENTS) events)"
  shows "(\<Sum>(_, v) \<leftarrow> fold (put_slot no_charge charge_slot) others []. charge_added v f)
    + (\<Sum>(_, v) \<leftarrow> fold (put_slot no_refund refund_slot) others []. refund_added v f)
    + (\<Sum>(_, v) \<leftarrow> fold (put_slot no_cancel cancel_slot) others []. cancel_added v f)
    = (\<Sum>p \<leftarrow> psp_references events. other_amount events p f)"
proof -
  have sub: "set (filter (\<lambda>e. te_type e \<notin> set AUTHORIZATION_EVENTS) events) \<subseteq> set events" by auto
  note newest_eq = newest_of_others newest_with_reference other_types entries_are_newest
  have c: "(\<Sum>(_, v) \<leftarrow> fold (put_slot no_charge charge_slot) others []. charge_added v f)
      = (\<Sum>p \<leftarrow> psp_references events. charge_added (entry_of no_charge charge_slot p events) f)"
    unfolding others_def by (rule sum_references [OF sub]) (simp_all only: added_nothing, simp add: newest_eq del: filter_filter)
  have r: "(\<Sum>(_, v) \<leftarrow> fold (put_slot no_refund refund_slot) others []. refund_added v f)
      = (\<Sum>p \<leftarrow> psp_references events. refund_added (entry_of no_refund refund_slot p events) f)"
    unfolding others_def by (rule sum_references [OF sub]) (simp_all only: added_nothing, simp add: newest_eq del: filter_filter)
  have x: "(\<Sum>(_, v) \<leftarrow> fold (put_slot no_cancel cancel_slot) others []. cancel_added v f)
      = (\<Sum>p \<leftarrow> psp_references events. cancel_added (entry_of no_cancel cancel_slot p events) f)"
    unfolding others_def by (rule sum_references [OF sub]) (simp_all only: added_nothing, simp add: newest_eq del: filter_filter)
  have "other_amount events p f = charge_added (entry_of no_charge charge_slot p events) f
      + refund_added (entry_of no_refund refund_slot p events) f
      + cancel_added (entry_of no_cancel cancel_slot p events) f" for p
    by (simp add: other_amount_def action_amount_def entries_are_newest charge_added_def refund_added_def cancel_added_def)
  then show ?thesis by (simp add: c r x sum_list_addf)
qed

lemma loose_sum:
  fixes xs others :: "transaction_event list"
  assumes xs: "\<forall>e \<in> set xs. te_type e \<in> set AUTHORIZATION_EVENTS"
    and others: "\<forall>e \<in> set others. te_type e \<notin> set AUTHORIZATION_EVENTS"
  shows "(if f = authorized_value \<and> filter has_psp_reference (adjustment_list xs) \<noteq> []
      then te_amount_value (hd (adjustment_list xs))
      else handle_events_without_psp_reference (\<lambda>_. 0)
        (filter (\<lambda>e. \<not> has_psp_reference e) (adjustment_list xs @ since_adjustment xs)
         @ filter (\<lambda>e. \<not> has_psp_reference e) others) f)
    = (case find is_adjustment (rev xs) of
         None \<Rightarrow> (\<Sum>e \<leftarrow> filter (\<lambda>e. \<not> has_psp_reference e) (since_adjustment xs). loose_amount e f)
       | Some a \<Rightarrow> (if f = authorized_value then te_amount_value a else 0)
           + (if has_psp_reference a then 0
              else (\<Sum>e \<leftarrow> filter (\<lambda>e. \<not> has_psp_reference e) (since_adjustment xs). loose_amount e f)))
      + (\<Sum>e \<leftarrow> filter (\<lambda>e. \<not> has_psp_reference e) others. loose_amount e f)"
proof -
  let ?loose = "filter (\<lambda>e. \<not> has_psp_reference e)"
  note laws = since_adjustment_laws [of xs]
  have plain: "\<forall>e \<in> set (?loose (since_adjustment xs) @ ?loose others). \<not> is_adjustment e"
    using laws(2) others by (auto simp: is_adjustment_def AUTHORIZATION_EVENTS_def)
  have rest: "(\<Sum>e \<leftarrow> ?loose others. loose_amount e authorized_value) = 0"
    using others by (intro sum_loose_zero) (simp add: loose_columns)
  have since: "(\<Sum>e \<leftarrow> ?loose (since_adjustment xs). loose_amount e f) = 0" if "f \<noteq> authorized_value"
    using that xs laws(1) by (intro sum_loose_zero) (auto simp: loose_columns)
  show ?thesis
  proof (cases "find is_adjustment (rev xs)")
    case None
    then show ?thesis using handle_loose [OF plain] by (simp add: adjustment_list_def)
  next
    case (Some a)
    then have "is_adjustment a" by (auto dest: find_SomeD)
    then have first: "handle_events_without_psp_reference t (a # es)
        = handle_events_without_psp_reference (t(authorized_value := te_amount_value a)) es" for t es
      by (simp add: handle_events_without_psp_reference_def handle_event_without_psp_reference_def is_adjustment_def)
    show ?thesis using Some handle_loose [OF plain] rest since
      by (cases "has_psp_reference a"; cases "f = authorized_value") (simp_all add: adjustment_list_def first)
  qed
qed

lemma calculate_amounts_reference:
  assumes d: "distinct (map te_pk events)"
  shows "calculate_amounts events f = reference_amounts events f
    - (if f = authorized_value then overwritten_authorizations events else 0)"
proof -
  let ?xs = "filter (\<lambda>e. te_type e \<in> set AUTHORIZATION_EVENTS) events"
  let ?others = "filter (\<lambda>e. te_type e \<notin> set AUTHORIZATION_EVENTS) events"
  have sub: "set ?xs \<subseteq> set events" by auto
  have "calculate_amounts events f =
      (if f = authorized_value \<and> filter has_psp_reference (adjustment_list ?xs) \<noteq> []
       then te_amount_value (hd (adjustment_list ?xs))
       else handle_events_without_psp_reference (\<lambda>_. 0)
         (filter (\<lambda>e. \<not> has_psp_reference e) (adjustment_list ?xs @ since_adjustment ?xs)
          @ filter (\<lambda>e. \<not> has_psp_reference e) ?others) f)
      + (\<Sum>p \<leftarrow> psp_references events. authorization_amount (since_adjustment ?xs) p f)
      + (\<Sum>p \<leftarrow> psp_references events. other_amount events p f)"
    using authorization_sum [OF sub] other_sums [where events = events and f = f, symmetric]
    by (simp add: calculate_amounts_def initilize_action_map_def Let_def get_authorize_events_eq [OF d]
        action_map_parts fold_adds [of recalculate_charge_amounts charge_added, OF recalculate_adds(2)]
        fold_adds [of recalculate_refund_amounts refund_added, OF recalculate_adds(3)]
        fold_adds [of recalculate_cancel_amounts cancel_added, OF recalculate_adds(4)])
  moreover have "\<forall>e \<in> set ?xs. te_type e \<in> set AUTHORIZATION_EVENTS"
    "\<forall>e \<in> set ?others. te_type e \<notin> set AUTHORIZATION_EVENTS" by simp_all
  note loose_sum [OF this, of f]
  moreover have "(\<Sum>e \<leftarrow> filter (\<lambda>e. \<not> has_psp_reference e) (since_adjustment ?xs). loose_amount e f) = 0"
    if "f \<noteq> authorized_value"
    using that since_adjustment_laws(1) [of ?xs] by (intro sum_loose_zero) (auto simp: loose_columns)
  ultimately show ?thesis
    unfolding reference_amounts_def overwritten_authorizations_def Let_def since_adjustment_def [symmetric]
    by (cases "f = authorized_value") (simp_all split: option.splits del: filter_filter)
qed

lemma distinct_calculation_events:
  "distinct (map te_pk events) \<Longrightarrow> distinct (map te_pk (calculation_events pk events))"
  by (simp add: calculation_events_def distinct_map) (auto intro: inj_on_subset)

text \<open>
  C11: the recalculated amounts are those of a reference that looks up, for each PSP reference
  and type, the newest event: the newest adjustment and the authorizations since it, with or
  without a reference, make the authorization, requests count while neither success nor failure
  is known, successes unless a failure is as new. The one difference: authorizations without a
  reference that are newer than an adjustment with one are left out, contrary to the docstring.
  Authorizations are floored at zero, and saving writes exactly these amounts
\<close>

theorem recalculation_is_reference:
  assumes d: "distinct (map te_pk events)"
    and run: "recalculate_transaction_amounts now save events item items = (item', items')"
    and es: "es = calculation_events (ti_pk item) events"
  shows "ti_amounts item' = (\<lambda>f. if f = authorized_value
          then max (reference_amounts es authorized_value - overwritten_authorizations es) 0
        else if f = authorize_pending_value then max (reference_amounts es f) 0
        else reference_amounts es f)
    \<and> items' = (if save then save_row ti_pk (ti_pk item)
        (\<lambda>r. r\<lparr>ti_amounts := ti_amounts item', ti_modified_at := now\<rparr>) items else items)"
  using run unfolding es by (cases save) (auto simp: recalculate_transaction_amounts_def Let_def fun_eq_iff
      calculate_transaction_amount_based_on_events_def calculate_amounts_reference [OF distinct_calculation_events [OF d]])

text \<open>
  A request of 30 is charged, then partly refunded; a later adjustment of the authorization by
  the provider sets it to 10 and hides a newer success of 5 that has no reference.
\<close>

definition tx_event :: "nat \<Rightarrow> int \<Rightarrow> string option \<Rightarrow> transaction_event_type \<Rightarrow> decimal \<Rightarrow> transaction_event" where
  "tx_event pk minute psp ty x = \<lparr>te_pk = pk, te_created_at = (2024, 3, 1, minute), te_psp_reference = psp,
     te_transaction = 1, te_type = ty, te_amount_value = x, te_include_in_calculations = True\<rparr>"

definition tx_example :: "transaction_event list" where
  "tx_example =
     [tx_event 1 0 (Some ''a'') TransactionEventType_AUTHORIZATION_SUCCESS 40,
      tx_event 2 1 (Some ''c'') TransactionEventType_CHARGE_REQUEST 30,
      tx_event 3 2 (Some ''c'') TransactionEventType_CHARGE_SUCCESS 30,
      tx_event 4 3 (Some ''r'') TransactionEventType_REFUND_REQUEST 8,
      tx_event 5 4 (Some ''d'') TransactionEventType_AUTHORIZATION_ADJUSTMENT 50,
      tx_event 6 5 None TransactionEventType_AUTHORIZATION_SUCCESS 5]"

definition tx_item :: transaction_item where
  "tx_item = \<lparr>ti_pk = 1, ti_modified_at = (2024, 3, 1, 0), ti_amounts = (\<lambda>_. 0)\<rparr>"

lemma recalculation_is_reference_witness:
  "map (ti_amounts (fst (recalculate_transaction_amounts (2024, 3, 2, 0) True tx_example tx_item [tx_item])))
     [authorized_value, charged_value, refunded_value, refund_pending_value, charge_pending_value] = [20, 22, 0, 8, 0]
   \<and> overwritten_authorizations (calculation_events 1 tx_example) = 5"
proof -
  have d: "distinct (map te_pk tx_example)" by code_simp
  obtain item' items' where run:
    "recalculate_transaction_amounts (2024, 3, 2, 0) True tx_example tx_item [tx_item] = (item', items')" by fastforce
  let ?es = "calculation_events (ti_pk tx_item) tx_example"
  have "map (\<lambda>f. if f = authorized_value then max (reference_amounts ?es authorized_value - overwritten_authorizations ?es) 0
        else if f = authorize_pending_value then max (reference_amounts ?es f) 0 else reference_amounts ?es f)
      [authorized_value, charged_value, refunded_value, refund_pending_value, charge_pending_value] = [20, 22, 0, 8, 0]"
    by code_simp
  moreover have "overwritten_authorizations (calculation_events 1 tx_example) = 5" by code_simp
  ultimately show ?thesis using recalculation_is_reference [OF d run refl] by (simp add: run)
qed

subsection \<open>Money is neither made nor lost\<close>

text \<open>
  The columns hold what was authorized, or what was charged and cancelled when that is
  more, and the authorizations that are pending, less the chargebacks.
\<close>

definition held :: "amounts \<Rightarrow> decimal" where
  "held t = t authorized_value + t authorize_pending_value + t charged_value + t charge_pending_value
     + t refunded_value + t refund_pending_value + t canceled_value + t cancel_pending_value"

definition authorized_in_all :: "transaction_event list \<Rightarrow> decimal" where
  "authorized_in_all events =
     (let authorize = filter (\<lambda>e. te_type e \<in> set AUTHORIZATION_EVENTS) events;
          since = since_adjustment authorize
      in amount_of (find is_adjustment (rev authorize))
       + (\<Sum>p \<leftarrow> psp_references events. counted_amount (newest TransactionEventType_AUTHORIZATION_SUCCESS p since)
            (newest TransactionEventType_AUTHORIZATION_FAILURE p since)))"

definition authorizations_pending :: "transaction_event list \<Rightarrow> decimal" where
  "authorizations_pending events =
     (let since = since_adjustment (filter (\<lambda>e. te_type e \<in> set AUTHORIZATION_EVENTS) events)
      in \<Sum>p \<leftarrow> psp_references events. pending_amount (newest TransactionEventType_AUTHORIZATION_REQUEST p since)
           (newest TransactionEventType_AUTHORIZATION_SUCCESS p since) (newest TransactionEventType_AUTHORIZATION_FAILURE p since))"

text \<open>What requested or successful charges and cancellations of one reference take.\<close>

definition taken_for :: "transaction_event list \<Rightarrow> string \<Rightarrow> decimal" where
  "taken_for events p =
     pending_amount (newest TransactionEventType_CHARGE_REQUEST p events) (newest TransactionEventType_CHARGE_SUCCESS p events)
       (newest TransactionEventType_CHARGE_FAILURE p events)
     + counted_amount (newest TransactionEventType_CHARGE_SUCCESS p events) (newest TransactionEventType_CHARGE_FAILURE p events)
     + pending_amount (newest TransactionEventType_CANCEL_REQUEST p events) (newest TransactionEventType_CANCEL_SUCCESS p events)
         (newest TransactionEventType_CANCEL_FAILURE p events)
     + counted_amount (newest TransactionEventType_CANCEL_SUCCESS p events) (newest TransactionEventType_CANCEL_FAILURE p events)"

definition charged_or_cancelled :: "transaction_event list \<Rightarrow> decimal" where
  "charged_or_cancelled events = (\<Sum>p \<leftarrow> psp_references events. taken_for events p)"

definition charged_back :: "transaction_event list \<Rightarrow> decimal" where
  "charged_back events = (\<Sum>p \<leftarrow> psp_references events. amount_of (newest TransactionEventType_CHARGE_BACK p events))"

lemma amounts_with_references:
  assumes d: "distinct (map te_pk es)" and psp: "\<forall>e \<in> set es. has_psp_reference e"
  shows "calculate_amounts es authorized_value = authorized_in_all es - charged_or_cancelled es"
    "calculate_amounts es authorize_pending_value = authorizations_pending es"
    "held (calculate_amounts es) = authorized_in_all es + authorizations_pending es - charged_back es"
proof -
  let ?authorize = "filter (\<lambda>e. te_type e \<in> set AUTHORIZATION_EVENTS) es"
  let ?since = "since_adjustment ?authorize"
  have loose: "filter (\<lambda>e. \<not> has_psp_reference e) xs = []" if "set xs \<subseteq> set es" for xs
    using psp that by (auto simp: filter_empty_conv)
  have sub: "set ?since \<subseteq> set es" using since_adjustment_laws(1) by fastforce
  have none: "overwritten_authorizations es = 0"
    using loose [OF sub] by (simp add: overwritten_authorizations_def Let_def since_adjustment_def split: option.splits)
  have calc: "calculate_amounts es f = (if f = authorized_value then amount_of (find is_adjustment (rev ?authorize)) else 0)
      + (\<Sum>p \<leftarrow> psp_references es. authorization_amount ?since p f) + (\<Sum>p \<leftarrow> psp_references es. other_amount es p f)" for f
    using loose [OF sub] loose [of "filter (\<lambda>e. te_type e \<notin> set AUTHORIZATION_EVENTS) es"]
    by (simp add: calculate_amounts_reference [OF d] none reference_amounts_def Let_def since_adjustment_def amount_of_def
        del: filter_filter split: option.splits)
  have neg: "(\<Sum>p \<leftarrow> ps. - g p) = - (\<Sum>p \<leftarrow> ps. g p :: decimal)" for g and ps :: "string list"
    by (induction ps) simp_all
  have other: "other_amount es p authorized_value = - taken_for es p" "other_amount es p authorize_pending_value = 0"
    "held (other_amount es p) = - amount_of (newest TransactionEventType_CHARGE_BACK p es)" for p
    by (simp_all add: other_amount_def action_amount_def moved_def taken_for_def held_def)
  show "calculate_amounts es authorized_value = authorized_in_all es - charged_or_cancelled es"
    by (simp add: calc other neg authorized_in_all_def charged_or_cancelled_def Let_def authorization_amount_def action_amount_def
        moved_def)
  show P: "calculate_amounts es authorize_pending_value = authorizations_pending es"
    by (simp add: calc other authorizations_pending_def Let_def authorization_amount_def action_amount_def moved_def)
  have sums: "held (\<lambda>f. \<Sum>p \<leftarrow> ps. g p f) = (\<Sum>p \<leftarrow> ps. held (g p))" for g and ps :: "string list"
    by (induction ps) (simp_all add: held_def)
  have auth: "held (authorization_amount ?since p) = counted_amount (newest TransactionEventType_AUTHORIZATION_SUCCESS p ?since)
        (newest TransactionEventType_AUTHORIZATION_FAILURE p ?since)
      + pending_amount (newest TransactionEventType_AUTHORIZATION_REQUEST p ?since)
          (newest TransactionEventType_AUTHORIZATION_SUCCESS p ?since) (newest TransactionEventType_AUTHORIZATION_FAILURE p ?since)" for p
    by (simp add: held_def authorization_amount_def action_amount_def moved_def)
  have "held (calculate_amounts es) = amount_of (find is_adjustment (rev ?authorize))
      + held (\<lambda>f. \<Sum>p \<leftarrow> psp_references es. authorization_amount ?since p f)
      + held (\<lambda>f. \<Sum>p \<leftarrow> psp_references es. other_amount es p f)"
    by (simp add: held_def calc)
  then show "held (calculate_amounts es) = authorized_in_all es + authorizations_pending es - charged_back es"
    unfolding sums auth other(3)
    by (simp add: neg sum_list_addf authorized_in_all_def authorizations_pending_def charged_back_def Let_def)
qed

text \<open>
  C10: when every event that counts has a PSP reference, all columns of a recalculated
  transaction, floored as the code floors them, add up to what was authorized (the newest
  adjustment and the authorizations since it) or to what was charged and cancelled, whichever is
  more, and the pending authorizations, less the chargebacks: refunds, charges and cancellations
  only move money between columns
\<close>

theorem transaction_money_conserved:
  assumes d: "distinct (map te_pk events)"
    and run: "recalculate_transaction_amounts now save events item items = (item', items')"
    and es: "es = calculation_events (ti_pk item) events" and psp: "\<forall>e \<in> set es. has_psp_reference e"
  shows "held (ti_amounts item') =
      max (authorized_in_all es) (charged_or_cancelled es) + max 0 (authorizations_pending es) - charged_back es"
proof -
  let ?t = "calculate_amounts es"
  have t: "ti_amounts item' = ?t(authorized_value := max (?t authorized_value) 0,
      authorize_pending_value := max (?t authorize_pending_value) 0)"
    using run unfolding es by (cases save) (auto simp: recalculate_transaction_amounts_def Let_def
        calculate_transaction_amount_based_on_events_def)
  have "distinct (map te_pk es)" unfolding es by (rule distinct_calculation_events [OF d])
  from amounts_with_references [OF this psp] show ?thesis
    by (simp add: t held_def max_def)
qed

text \<open>Forty are authorized; thirty of them and eleven that were never authorized are charged, eight refunded.\<close>

lemma transaction_money_conserved_witness:
  "\<exists>item' items'. recalculate_transaction_amounts (2024, 3, 2, 0) True
      (take 4 tx_example @ [tx_event 7 6 (Some ''e'') TransactionEventType_CHARGE_SUCCESS 11]) tx_item [tx_item] = (item', items')
    \<and> held (ti_amounts item') = 41 \<and> ti_amounts item' authorized_value = 0 \<and> ti_amounts item' charged_value = 33"
proof -
  let ?events = "take 4 tx_example @ [tx_event 7 6 (Some ''e'') TransactionEventType_CHARGE_SUCCESS 11]"
  let ?es = "calculation_events (ti_pk tx_item) ?events"
  obtain item' items' where run: "recalculate_transaction_amounts (2024, 3, 2, 0) True ?events tx_item [tx_item] = (item', items')"
    by fastforce
  have d: "distinct (map te_pk ?events)" by code_simp
  have psp: "\<forall>e \<in> set ?es. has_psp_reference e" by code_simp
  have "max (authorized_in_all ?es) (charged_or_cancelled ?es) + max 0 (authorizations_pending ?es) - charged_back ?es = 41"
    by code_simp
  with transaction_money_conserved [OF d run refl psp] have "held (ti_amounts item') = 41" by simp
  moreover have "ti_amounts (fst (recalculate_transaction_amounts (2024, 3, 2, 0) True ?events tx_item [tx_item])) authorized_value = 0"
    "ti_amounts (fst (recalculate_transaction_amounts (2024, 3, 2, 0) True ?events tx_item [tx_item])) charged_value = 33"
    by code_simp+
  ultimately show ?thesis using run by (intro exI conjI) simp_all
qed

end
