(* ===== verification/Payments.thy ===== *)
theory Payments
  imports Tables TransactionAmounts
begin

section \<open>Payments and the money of an order\<close>

text \<open>
  \<^verbatim>\<open>payment/gateway.py\<close> (processing, authorizing, capturing, refunding, voiding and confirming a
  payment), the operations of \<^verbatim>\<open>payment/utils.py\<close> it uses, the rules of \<^verbatim>\<open>payment/models.py\<close>, and what
  they write into the order: the charged and authorized amounts and their statuses
  (\<^verbatim>\<open>order/utils.py\<close>, \<^verbatim>\<open>payment/model_helpers.py\<close>).

  The plugin that talks to the payment provider is a parameter: \<open>call\<close> maps the request to what the
  plugin manager returns or raises. An operation takes the key of a payment and returns its result, an
  exception or the transaction, together with the database: the exception raised for an unsuccessful
  transaction comes after the commit, every other one rolls back. \<open>prec\<close> is babel's currency precision.
\<close>

subsection \<open>Rows\<close>

record gateway_payment = payment +
  gp_is_active :: bool
  gp_to_confirm :: bool
  gp_token :: string
  gp_extra_data :: string
  gp_customer_ip_address :: string
  gp_psp_reference :: string
  gp_cc_brand :: string
  gp_cc_last_digits :: string
  gp_cc_exp_year :: "int option"
  gp_cc_exp_month :: "int option"
  gp_payment_method_type :: string

record pay_transaction =
  tr_pk :: nat
  tr_payment :: nat
  tr_token :: string
  tr_kind :: transaction_kind
  tr_is_success :: bool
  tr_action_required :: bool
  tr_currency :: string
  tr_amount :: decimal
  tr_error :: "string option"
  tr_customer_id :: "nat option"
  tr_already_processed :: bool

text \<open>The order's money; \<open>order_charge_status\<close> holds the string written into the column.\<close>

record money_order = order +
  mo_currency :: string
  mo_total_authorized_amount :: decimal
  mo_authorize_status :: order_authorize_status

record order_transaction_item = transaction_item +
  oi_order :: "nat option"

record granted_refund =
  rf_order :: nat
  rf_amount :: decimal

record pay_db =
  pd_payments :: "gateway_payment list"
  pd_transactions :: "pay_transaction list"
  pd_orders :: "money_order list"
  pd_items :: "order_transaction_item list"
  pd_granted_refunds :: "granted_refund list"

record payment_method_info =
  pm_brand :: "string option"
  pm_last_4 :: "string option"
  pm_exp_year :: "int option"
  pm_exp_month :: "int option"
  pm_type :: "string option"

text \<open>\<open>kind\<close> is \<open>None\<close> when the plugin answers with a string that no constant of \<open>TransactionKind\<close> has.\<close>

record provider_response =
  ga_is_success :: bool
  ga_action_required :: bool
  ga_kind :: "transaction_kind option"
  ga_amount :: decimal
  ga_currency :: string
  ga_transaction_id :: string
  ga_error :: "string option"
  ga_customer_id :: "nat option"
  ga_payment_method_info :: "payment_method_info option"
  ga_transaction_already_processed :: bool
  ga_psp_reference :: "string option"
  ga_serializable :: bool

record provider_request =
  pi_gateway :: string
  pi_token :: "string option"
  pi_amount :: decimal
  pi_currency :: string
  pi_payment_id :: nat
  pi_customer_id :: "nat option"
  pi_psp_reference :: string

datatype gateway_outcome = Answered provider_response | NotAResponse | CallFailed

type_synonym gateway_call = "provider_request \<Rightarrow> gateway_outcome"

datatype pay_error = PaymentError string | PaymentMissing | NoOrder | SeveralPayments

type_synonym 'a pay_result = "pay_error + 'a"

subsection \<open>What a payment allows\<close>

definition transactions_of :: "pay_db \<Rightarrow> nat \<Rightarrow> pay_transaction list" where
  "transactions_of s k = filter (\<lambda>t. tr_payment t = k) (pd_transactions s)"

definition get_charge_amount :: "gateway_payment \<Rightarrow> decimal" where
  "get_charge_amount p = pay_total p - pay_captured_amount p"

definition get_authorized_amount :: "pay_db \<Rightarrow> gateway_payment \<Rightarrow> decimal" where
  "get_authorized_amount s p =
     (let txns = transactions_of s (pay_pk p)
      in if \<exists>t \<in> set txns. tr_kind t = TransactionKind_CAPTURE \<and> tr_is_success t then 0
         else sum_rows tr_amount (filter (\<lambda>t. tr_kind t = TransactionKind_AUTH \<and> tr_is_success t
                \<and> \<not> tr_action_required t) txns))"

definition is_authorized :: "pay_db \<Rightarrow> gateway_payment \<Rightarrow> bool" where
  "is_authorized s p \<longleftrightarrow> (\<exists>t \<in> set (transactions_of s (pay_pk p)).
     tr_kind t = TransactionKind_AUTH \<and> tr_is_success t \<and> \<not> tr_action_required t)"

definition not_charged :: "gateway_payment \<Rightarrow> bool" where
  "not_charged p \<longleftrightarrow> pay_charge_status p = ChargeStatus_NOT_CHARGED"

definition can_authorize :: "gateway_payment \<Rightarrow> bool" where
  "can_authorize p \<longleftrightarrow> gp_is_active p \<and> not_charged p"

definition can_capture :: "gateway_payment \<Rightarrow> bool" where
  "can_capture p \<longleftrightarrow> (if \<not> (gp_is_active p \<and> not_charged p) then False else True)"

definition can_void :: "pay_db \<Rightarrow> gateway_payment \<Rightarrow> bool" where
  "can_void s p \<longleftrightarrow> not_charged p \<and> is_authorized s p"

definition can_refund :: "gateway_payment \<Rightarrow> bool" where
  "can_refund p \<longleftrightarrow> pay_charge_status p \<in>
     {ChargeStatus_PARTIALLY_CHARGED, ChargeStatus_FULLY_CHARGED, ChargeStatus_PARTIALLY_REFUNDED}"

definition can_confirm :: "gateway_payment \<Rightarrow> bool" where
  "can_confirm p \<longleftrightarrow> gp_is_active p \<and> not_charged p"

definition is_manual :: "gateway_payment \<Rightarrow> bool" where
  "is_manual p \<longleftrightarrow> pay_gateway p = ''manual''"

definition clean_capture :: "gateway_payment \<Rightarrow> decimal \<Rightarrow> unit pay_result" where
  "clean_capture p amount =
     (if amount \<le> 0 then Inl (PaymentError ''Amount should be a positive number.'')
      else if \<not> can_capture p then Inl (PaymentError ''This payment cannot be captured.'')
      else if amount > pay_total p \<or> amount > pay_total p - pay_captured_amount p
      then Inl (PaymentError ''Unable to charge more than un-captured amount.'') else Inr ())"

definition clean_authorize :: "gateway_payment \<Rightarrow> unit pay_result" where
  "clean_authorize p =
     (if can_authorize p then Inr ()
      else Inl (PaymentError ''Charged transactions cannot be authorized again.''))"

definition validate_refund_amount :: "gateway_payment \<Rightarrow> decimal \<Rightarrow> unit pay_result" where
  "validate_refund_amount p amount =
     (if amount \<le> 0 then Inl (PaymentError ''Amount should be a positive number.'')
      else if amount > pay_captured_amount p then Inl (PaymentError ''Cannot refund more than captured.'')
      else Inr ())"

subsection \<open>The money of an order\<close>

definition latest_payment :: "gateway_payment list \<Rightarrow> gateway_payment option" where
  "latest_payment order_payments =
     (case filter (\<lambda>p. \<not> pay_partial p) order_payments of
        [] \<Rightarrow> None
      | p # ps \<Rightarrow> Some (fold (\<lambda>q m. if pay_pk q > pay_pk m then q else m) ps p))"

definition get_total_authorized :: "pay_db \<Rightarrow> gateway_payment list \<Rightarrow> decimal" where
  "get_total_authorized s order_payments =
     (case latest_payment order_payments of
        None \<Rightarrow> 0
      | Some p \<Rightarrow> if gp_is_active p then get_authorized_amount s p else 0)"

definition payments_of_order :: "pay_db \<Rightarrow> nat \<Rightarrow> gateway_payment list" where
  "payments_of_order s k = filter (\<lambda>p. pay_order p = Some k) (pd_payments s)"

definition items_of_order :: "pay_db \<Rightarrow> nat \<Rightarrow> order_transaction_item list" where
  "items_of_order s k = filter (\<lambda>i. oi_order i = Some k) (pd_items s)"

definition granted_of_order :: "pay_db \<Rightarrow> nat \<Rightarrow> decimal" where
  "granted_of_order s k = sum_rows rf_amount (filter (\<lambda>r. rf_order r = k) (pd_granted_refunds s))"

definition update_order_charge_status :: "(string \<Rightarrow> nat) \<Rightarrow> decimal \<Rightarrow> money_order \<Rightarrow> money_order" where
  "update_order_charge_status prec granted_refund_amount ord =
     (let total_charged = quantize_price prec (order_total_charged_amount ord) (mo_currency ord);
          current_total_gross = quantize_price prec
            (max (order_total_gross_amount ord - granted_refund_amount) 0) (mo_currency ord)
      in ord\<lparr>order_charge_status := order_charge_status_str
           (if total_charged = current_total_gross then OrderChargeStatus_FULL
            else if total_charged \<le> 0 then OrderChargeStatus_NONE
            else if total_charged < current_total_gross then OrderChargeStatus_PARTIAL
            else OrderChargeStatus_OVERCHARGED)\<rparr>)"

definition update_order_total_charged ::
    "gateway_payment list \<Rightarrow> order_transaction_item list \<Rightarrow> money_order \<Rightarrow> money_order" where
  "update_order_total_charged order_payments items ord =
     ord\<lparr>order_total_charged_amount := sum_rows pay_captured_amount order_payments
         + sum_rows (\<lambda>i. ti_amounts i charged_value) items\<rparr>"

definition update_order_authorize_status :: "(string \<Rightarrow> nat) \<Rightarrow> decimal \<Rightarrow> money_order \<Rightarrow> money_order" where
  "update_order_authorize_status prec granted_refund_amount ord =
     (let total_covered = quantize_price prec
            (mo_total_authorized_amount ord + order_total_charged_amount ord) (mo_currency ord);
          current_total_gross = quantize_price prec
            (max (order_total_gross_amount ord - granted_refund_amount) 0) (mo_currency ord)
      in ord\<lparr>mo_authorize_status :=
           (if total_covered = 0 \<and> order_total_gross_amount ord = 0 then OrderAuthorizeStatus_FULL
            else if total_covered = 0 then OrderAuthorizeStatus_NONE
            else if total_covered \<ge> current_total_gross then OrderAuthorizeStatus_FULL
            else OrderAuthorizeStatus_PARTIAL)\<rparr>)"

definition update_order_total_authorized ::
    "pay_db \<Rightarrow> gateway_payment list \<Rightarrow> order_transaction_item list \<Rightarrow> money_order \<Rightarrow> money_order" where
  "update_order_total_authorized s order_payments items ord =
     ord\<lparr>mo_total_authorized_amount := get_total_authorized s order_payments
         + sum_rows (\<lambda>i. ti_amounts i authorized_value) items\<rparr>"

definition save_order :: "nat \<Rightarrow> (money_order \<Rightarrow> money_order) \<Rightarrow> pay_db \<Rightarrow> pay_db" where
  "save_order k f s = s\<lparr>pd_orders := save_row order_pk k f (pd_orders s)\<rparr>"

text \<open>The three functions that refresh an order, each saving what it computes.\<close>

definition charge_data :: "(string \<Rightarrow> nat) \<Rightarrow> pay_db \<Rightarrow> nat \<Rightarrow> money_order \<Rightarrow> money_order" where
  "charge_data prec s k ord = update_order_charge_status prec (granted_of_order s k)
     (update_order_total_charged (payments_of_order s k) (items_of_order s k) ord)"

definition authorize_data :: "(string \<Rightarrow> nat) \<Rightarrow> pay_db \<Rightarrow> nat \<Rightarrow> money_order \<Rightarrow> money_order" where
  "authorize_data prec s k ord = update_order_authorize_status prec (granted_of_order s k)
     (update_order_total_authorized s (payments_of_order s k) (items_of_order s k) ord)"

definition update_order_charge_data :: "(string \<Rightarrow> nat) \<Rightarrow> nat \<Rightarrow> pay_db \<Rightarrow> pay_db" where
  "update_order_charge_data prec k s = save_order k (charge_data prec s k) s"

definition update_order_authorize_data :: "(string \<Rightarrow> nat) \<Rightarrow> nat \<Rightarrow> pay_db \<Rightarrow> pay_db" where
  "update_order_authorize_data prec k s = save_order k (authorize_data prec s k) s"

definition updates_amounts_for_order :: "(string \<Rightarrow> nat) \<Rightarrow> nat \<Rightarrow> pay_db \<Rightarrow> pay_db" where
  "updates_amounts_for_order prec k s = save_order k (authorize_data prec s k \<circ> charge_data prec s k) s"

subsection \<open>What a transaction does to its payment\<close>

definition save_payment :: "nat \<Rightarrow> (gateway_payment \<Rightarrow> gateway_payment) \<Rightarrow> pay_db \<Rightarrow> pay_db" where
  "save_payment k f s = s\<lparr>pd_payments := save_row pay_pk k f (pd_payments s)\<rparr>"

definition save_transaction :: "nat \<Rightarrow> (pay_transaction \<Rightarrow> pay_transaction) \<Rightarrow> pay_db \<Rightarrow> pay_db" where
  "save_transaction k f s = s\<lparr>pd_transactions := save_row tr_pk k f (pd_transactions s)\<rparr>"

text \<open>
  The fields \<open>update_payment_charge_status\<close> saves, and whether \<open>captured_amount\<close> is among them. A
  capture sets \<open>is_active\<close> on the object only: the field is not saved.
\<close>

definition charged_payment :: "pay_transaction \<Rightarrow> gateway_payment \<Rightarrow> gateway_payment \<times> bool" where
  "charged_payment t p =
     (case tr_kind t of
        TransactionKind_VOID \<Rightarrow> (p\<lparr>gp_is_active := False\<rparr>, False)
      | TransactionKind_REFUND \<Rightarrow>
          (let captured = pay_captured_amount p - tr_amount t
           in if captured \<le> 0
              then (p\<lparr>pay_captured_amount := 0, pay_charge_status := ChargeStatus_FULLY_REFUNDED,
                      gp_is_active := False\<rparr>, True)
              else (p\<lparr>pay_captured_amount := captured, pay_charge_status := ChargeStatus_PARTIALLY_REFUNDED\<rparr>, True))
      | TransactionKind_PENDING \<Rightarrow> (p\<lparr>pay_charge_status := ChargeStatus_PENDING\<rparr>, False)
      | TransactionKind_CANCEL \<Rightarrow> (p\<lparr>pay_charge_status := ChargeStatus_CANCELLED, gp_is_active := False\<rparr>, False)
      | TransactionKind_CAPTURE_FAILED \<Rightarrow>
          if pay_charge_status p \<in> {ChargeStatus_PARTIALLY_CHARGED, ChargeStatus_FULLY_CHARGED}
          then (let captured = pay_captured_amount p - tr_amount t
                in (p\<lparr>pay_captured_amount := captured, pay_charge_status :=
                       (if captured \<le> 0 then ChargeStatus_NOT_CHARGED else ChargeStatus_PARTIALLY_CHARGED)\<rparr>, True))
          else (p, False)
      | k \<Rightarrow> if k \<in> {TransactionKind_CAPTURE, TransactionKind_REFUND_REVERSED}
          then (let captured = pay_captured_amount p + tr_amount t
                in (p\<lparr>pay_captured_amount := captured, pay_charge_status :=
                       (if pay_total p - captured \<le> 0 then ChargeStatus_FULLY_CHARGED
                        else ChargeStatus_PARTIALLY_CHARGED)\<rparr>, True))
          else (p, False))"

definition update_payment_charge_status :: "(string \<Rightarrow> nat) \<Rightarrow> pay_transaction \<Rightarrow> gateway_payment \<Rightarrow> pay_db \<Rightarrow> pay_db" where
  "update_payment_charge_status prec t p s =
     (let (p', captured_changed) = charged_payment t p;
          s = save_payment (pay_pk p) (\<lambda>_. p') s;
          s = save_transaction (tr_pk t) (\<lambda>t. t\<lparr>tr_already_processed := True\<rparr>) s;
          s = (case pay_order p of
                 Some k \<Rightarrow> if captured_changed then updates_amounts_for_order prec k s else s | None \<Rightarrow> s)
      in case pay_order p of
           Some k \<Rightarrow> if tr_kind t = TransactionKind_AUTH then update_order_authorize_data prec k s else s
         | None \<Rightarrow> s)"

definition gateway_postprocess :: "(string \<Rightarrow> nat) \<Rightarrow> pay_transaction \<Rightarrow> gateway_payment \<Rightarrow> pay_db \<Rightarrow> pay_db" where
  "gateway_postprocess prec t p s =
     (if \<not> tr_is_success t \<or> tr_already_processed t then s
      else if tr_action_required t then save_payment (pay_pk p) (\<lambda>p. p\<lparr>gp_to_confirm := True\<rparr>) s
      else update_payment_charge_status prec t (p\<lparr>gp_to_confirm := False\<rparr>) s)"

subsection \<open>Asking the plugin\<close>

definition validate_gateway_response :: "provider_response \<Rightarrow> bool" where
  "validate_gateway_response r \<longleftrightarrow>
     (case ga_kind r of None \<Rightarrow> False | Some k \<Rightarrow> k \<in> set transaction_kind_choices) \<and> ga_serializable r"

definition ERROR_MSG :: string where
  "ERROR_MSG = ''Oops! Something went wrong.''"

definition GENERIC_TRANSACTION_ERROR :: string where
  "GENERIC_TRANSACTION_ERROR = ''Transaction was unsuccessful.''"

definition fetch_gateway_response :: "gateway_call \<Rightarrow> provider_request \<Rightarrow> provider_response option \<times> string option" where
  "fetch_gateway_response call data =
     (case call data of
        Answered r \<Rightarrow> if validate_gateway_response r then (Some r, None) else (None, Some ERROR_MSG)
      | _ \<Rightarrow> (None, Some ERROR_MSG))"

text \<open>\<open>amount or payment.total\<close>: an amount of 0 stands for the total.\<close>

definition create_payment_information ::
    "gateway_payment \<Rightarrow> string option \<Rightarrow> decimal option \<Rightarrow> nat option \<Rightarrow> provider_request" where
  "create_payment_information p payment_token amount customer_id =
     \<lparr>pi_gateway = pay_gateway p, pi_token = payment_token,
      pi_amount = (case amount of None \<Rightarrow> pay_total p | Some a \<Rightarrow> if a = 0 then pay_total p else a),
      pi_currency = pay_currency p, pi_payment_id = pay_pk p, pi_customer_id = customer_id,
      pi_psp_reference = gp_psp_reference p\<rparr>"

definition get_already_processed_transaction ::
    "pay_db \<Rightarrow> gateway_payment \<Rightarrow> provider_response \<Rightarrow> pay_transaction option" where
  "get_already_processed_transaction s p r =
     (case filter (\<lambda>t. tr_is_success t = ga_is_success r \<and> tr_action_required t = ga_action_required r
             \<and> tr_token t = ga_transaction_id r \<and> Some (tr_kind t) = ga_kind r \<and> tr_amount t = ga_amount r
             \<and> tr_currency t = ga_currency r) (transactions_of s (pay_pk p)) of
        [] \<Rightarrow> None | ts \<Rightarrow> Some (last ts))"

definition next_transaction_pk :: "pay_db \<Rightarrow> nat" where
  "next_transaction_pk s = Suc (sum_list (map tr_pk (pd_transactions s)))"

text \<open>Without a usable response the row is filled from the request, with \<open>is_success\<close> as given.\<close>

definition create_transaction ::
    "gateway_payment \<Rightarrow> transaction_kind \<Rightarrow> provider_request \<Rightarrow> bool \<Rightarrow> provider_response option \<Rightarrow> string option
      \<Rightarrow> bool \<Rightarrow> pay_db \<Rightarrow> pay_transaction \<times> pay_db" where
  "create_transaction p kind data action_required response error_msg is_success s =
     (let t = (case response of
            None \<Rightarrow> \<lparr>tr_pk = next_transaction_pk s, tr_payment = pay_pk p,
                tr_token = (case pi_token data of None \<Rightarrow> [] | Some tok \<Rightarrow> tok), tr_kind = kind,
                tr_is_success = is_success, tr_action_required = action_required,
                tr_currency = pi_currency data, tr_amount = pi_amount data, tr_error = error_msg,
                tr_customer_id = None, tr_already_processed = False\<rparr>
          | Some r \<Rightarrow> \<lparr>tr_pk = next_transaction_pk s, tr_payment = pay_pk p, tr_token = ga_transaction_id r,
                tr_kind = (case ga_kind r of None \<Rightarrow> kind | Some k \<Rightarrow> k), tr_is_success = ga_is_success r,
                tr_action_required = action_required, tr_currency = ga_currency r, tr_amount = ga_amount r,
                tr_error = ga_error r, tr_customer_id = ga_customer_id r, tr_already_processed = False\<rparr>)
      in (t, s\<lparr>pd_transactions := pd_transactions s @ [t]\<rparr>))"

definition get_already_processed_transaction_or_create_new_transaction ::
    "gateway_payment \<Rightarrow> transaction_kind \<Rightarrow> provider_request \<Rightarrow> bool \<Rightarrow> provider_response option \<Rightarrow> string option
      \<Rightarrow> pay_db \<Rightarrow> pay_transaction \<times> pay_db" where
  "get_already_processed_transaction_or_create_new_transaction p kind data action_required response error_msg s =
     (case response of
        Some r \<Rightarrow>
          (case if ga_transaction_already_processed r then get_already_processed_transaction s p r else None of
             Some t \<Rightarrow> (t, s)
           | None \<Rightarrow> create_transaction p kind data action_required response error_msg False s)
      | None \<Rightarrow> create_transaction p kind data action_required response error_msg False s)"

text \<open>What the response says of the payment itself; empty strings and zeros are not taken over.\<close>

definition update_payment_method_details :: "payment_method_info \<Rightarrow> gateway_payment \<Rightarrow> gateway_payment" where
  "update_payment_method_details i p =
     (let text = (\<lambda>new old. case new of None \<Rightarrow> old | Some x \<Rightarrow> if x = [] then old else x);
          number = (\<lambda>new old. case new of None \<Rightarrow> old | Some (n :: int) \<Rightarrow> if n = 0 then old else Some n)
      in p\<lparr>gp_cc_brand := text (pm_brand i) (gp_cc_brand p),
           gp_cc_last_digits := text (pm_last_4 i) (gp_cc_last_digits p),
           gp_cc_exp_year := number (pm_exp_year i) (gp_cc_exp_year p),
           gp_cc_exp_month := number (pm_exp_month i) (gp_cc_exp_month p),
           gp_payment_method_type := text (pm_type i) (gp_payment_method_type p)\<rparr>)"

definition update_payment :: "provider_response \<Rightarrow> gateway_payment \<Rightarrow> gateway_payment" where
  "update_payment r p =
     (let p = (case ga_psp_reference r of None \<Rightarrow> p
               | Some ref \<Rightarrow> if ref = [] then p else p\<lparr>gp_psp_reference := ref\<rparr>)
      in case ga_payment_method_info r of None \<Rightarrow> p | Some i \<Rightarrow> update_payment_method_details i p)"

definition get_past_transaction_token :: "pay_db \<Rightarrow> gateway_payment \<Rightarrow> transaction_kind \<Rightarrow> string" where
  "get_past_transaction_token s p kind =
     (case filter (\<lambda>t. tr_kind t = kind \<and> tr_is_success t) (transactions_of s (pay_pk p)) of
        [] \<Rightarrow> ''test_token'' | ts \<Rightarrow> tr_token (last ts))"

subsection \<open>The operations\<close>

text \<open>
  \<open>with_locked_payment\<close>, \<open>payment_postprocess\<close> and \<open>raise_payment_error\<close> around a body: the payment is
  read afresh, the body's transaction is processed on it, the whole is rolled back when the body raises;
  then an unsuccessful transaction raises.
\<close>

definition locked_operation ::
    "(string \<Rightarrow> nat) \<Rightarrow> (gateway_payment \<Rightarrow> pay_db \<Rightarrow> (gateway_payment \<times> pay_transaction \<times> pay_db) pay_result)
      \<Rightarrow> nat \<Rightarrow> pay_db \<Rightarrow> pay_transaction pay_result \<times> pay_db" where
  "locked_operation prec body k s =
     (case row_of pay_pk k (pd_payments s) of
        None \<Rightarrow> (Inl PaymentMissing, s)
      | Some p \<Rightarrow> (case body p s of
            Inl e \<Rightarrow> (Inl e, s)
          | Inr (p, t, s) \<Rightarrow> (if tr_is_success t then Inr t
                else Inl (PaymentError (case tr_error t of None \<Rightarrow> GENERIC_TRANSACTION_ERROR
                       | Some m \<Rightarrow> if m = [] then GENERIC_TRANSACTION_ERROR else m)),
              gateway_postprocess prec t p s)))"

definition when_active ::
    "(nat \<Rightarrow> pay_db \<Rightarrow> pay_transaction pay_result \<times> pay_db) \<Rightarrow> nat \<Rightarrow> pay_db \<Rightarrow> pay_transaction pay_result \<times> pay_db" where
  "when_active operation k s =
     (case row_of pay_pk k (pd_payments s) of
        None \<Rightarrow> (Inl PaymentMissing, s)
      | Some p \<Rightarrow> if gp_is_active p then operation k s
                  else (Inl (PaymentError ''This payment is no longer active.''), s))"

text \<open>
  What processing, authorizing, capturing and confirming share: ask the plugin, take over what the
  response says of the payment (not when refunding or voiding), find or write the transaction.
\<close>

definition ask_plugin ::
    "gateway_call \<Rightarrow> bool \<Rightarrow> bool \<Rightarrow> transaction_kind \<Rightarrow> provider_request \<Rightarrow> gateway_payment \<Rightarrow> pay_db
      \<Rightarrow> gateway_payment \<times> pay_transaction \<times> pay_db" where
  "ask_plugin call take_over may_require_action kind data p s =
     (let (response, error) = fetch_gateway_response call data;
          action_required = (may_require_action \<and> (case response of None \<Rightarrow> False | Some r \<Rightarrow> ga_action_required r));
          p = (case response of Some r \<Rightarrow> if take_over then update_payment r p else p | None \<Rightarrow> p);
          s = save_payment (pay_pk p) (\<lambda>_. p) s;
          (t, s) = get_already_processed_transaction_or_create_new_transaction p kind data action_required
                     response error s
      in (p, t, s))"

type_synonym payment_body = "gateway_payment \<Rightarrow> pay_db \<Rightarrow> (gateway_payment \<times> pay_transaction \<times> pay_db) pay_result"

definition process_body :: "gateway_call \<Rightarrow> string \<Rightarrow> nat option \<Rightarrow> payment_body" where
  "process_body call token customer_id p s =
     Inr (ask_plugin call True True TransactionKind_CAPTURE
            (create_payment_information p (Some token) None customer_id) p s)"

definition process_gateway_payment ::
    "(string \<Rightarrow> nat) \<Rightarrow> gateway_call \<Rightarrow> string \<Rightarrow> nat option \<Rightarrow> nat \<Rightarrow> pay_db \<Rightarrow> pay_transaction pay_result \<times> pay_db" where
  "process_gateway_payment prec call token customer_id =
     when_active (locked_operation prec (process_body call token customer_id))"

definition authorize_body :: "gateway_call \<Rightarrow> string \<Rightarrow> nat option \<Rightarrow> payment_body" where
  "authorize_body call token customer_id p s =
     bindr (clean_authorize p) (\<lambda>_.
       Inr (ask_plugin call True False TransactionKind_AUTH
              (create_payment_information p (Some token) None customer_id) p s))"

definition authorize_payment ::
    "(string \<Rightarrow> nat) \<Rightarrow> gateway_call \<Rightarrow> string \<Rightarrow> nat option \<Rightarrow> nat \<Rightarrow> pay_db \<Rightarrow> pay_transaction pay_result \<times> pay_db" where
  "authorize_payment prec call token customer_id =
     when_active (locked_operation prec (authorize_body call token customer_id))"

definition capture_body :: "gateway_call \<Rightarrow> decimal option \<Rightarrow> nat option \<Rightarrow> payment_body" where
  "capture_body call amount customer_id p s =
     (let amount = (case amount of None \<Rightarrow> get_charge_amount p | Some a \<Rightarrow> a)
      in bindr (clean_capture p amount) (\<lambda>_.
        Inr (ask_plugin call True False TransactionKind_CAPTURE
          (create_payment_information p (Some (get_past_transaction_token s p TransactionKind_AUTH))
             (Some amount) customer_id) p s)))"

text \<open>\<open>capture\<close> has \<open>payment_postprocess\<close> also outside; it looks at the same transaction object again.\<close>

definition postprocess_again :: "(string \<Rightarrow> nat) \<Rightarrow> pay_transaction \<Rightarrow> pay_db \<Rightarrow> pay_db" where
  "postprocess_again prec t s =
     (case (row_of tr_pk (tr_pk t) (pd_transactions s), row_of pay_pk (tr_payment t) (pd_payments s)) of
        (Some t, Some p) \<Rightarrow> gateway_postprocess prec t p s
      | _ \<Rightarrow> s)"

definition capture_payment ::
    "(string \<Rightarrow> nat) \<Rightarrow> gateway_call \<Rightarrow> decimal option \<Rightarrow> nat option \<Rightarrow> nat \<Rightarrow> pay_db \<Rightarrow> pay_transaction pay_result \<times> pay_db" where
  "capture_payment prec call amount customer_id k s =
     (case when_active (locked_operation prec (capture_body call amount customer_id)) k s of
        (Inl e, s) \<Rightarrow> (Inl e, s)
      | (Inr t, s) \<Rightarrow> (Inr t, postprocess_again prec t s))"

text \<open>A manual payment is refunded without asking anybody.\<close>

definition refund_body :: "gateway_call \<Rightarrow> decimal option \<Rightarrow> nat option \<Rightarrow> payment_body" where
  "refund_body call amount customer_id p s =
     (let amount = (case amount of None \<Rightarrow> pay_captured_amount p | Some a \<Rightarrow> a)
      in bindr (validate_refund_amount p amount) (\<lambda>_.
         if \<not> can_refund p then Inl (PaymentError ''This payment cannot be refunded.'')
         else
          let kind = (if is_manual p then TransactionKind_EXTERNAL else TransactionKind_CAPTURE);
              data = create_payment_information p (Some (get_past_transaction_token s p kind))
                       (Some amount) customer_id
          in Inr (if is_manual p
             then (case create_transaction p TransactionKind_REFUND data False None None True s of (t, s) \<Rightarrow> (p, t, s))
             else ask_plugin call False False TransactionKind_REFUND data p s)))"

definition refund_payment_of ::
    "(string \<Rightarrow> nat) \<Rightarrow> gateway_call \<Rightarrow> decimal option \<Rightarrow> nat option \<Rightarrow> nat \<Rightarrow> pay_db \<Rightarrow> pay_transaction pay_result \<times> pay_db" where
  "refund_payment_of prec call amount customer_id = locked_operation prec (refund_body call amount customer_id)"

definition void_body :: "gateway_call \<Rightarrow> payment_body" where
  "void_body call p s =
     Inr (ask_plugin call False False TransactionKind_VOID
       (create_payment_information p (Some (get_past_transaction_token s p TransactionKind_AUTH)) None None) p s)"

definition void_payment ::
    "(string \<Rightarrow> nat) \<Rightarrow> gateway_call \<Rightarrow> nat \<Rightarrow> pay_db \<Rightarrow> pay_transaction pay_result \<times> pay_db" where
  "void_payment prec call = locked_operation prec (void_body call)"

definition confirm_body :: "gateway_call \<Rightarrow> payment_body" where
  "confirm_body call p s =
     (let token = (case filter (\<lambda>t. tr_kind t = TransactionKind_ACTION_TO_CONFIRM \<and> tr_is_success t)
                          (transactions_of s (pay_pk p)) of [] \<Rightarrow> [] | ts \<Rightarrow> tr_token (last ts))
      in Inr (ask_plugin call True True TransactionKind_CONFIRM
                (create_payment_information p (Some token) None None) p s))"

definition confirm_payment ::
    "(string \<Rightarrow> nat) \<Rightarrow> gateway_call \<Rightarrow> nat \<Rightarrow> pay_db \<Rightarrow> pay_transaction pay_result \<times> pay_db" where
  "confirm_payment prec call = when_active (locked_operation prec (confirm_body call))"

definition get_success_transaction ::
    "pay_db \<Rightarrow> transaction_kind \<Rightarrow> gateway_payment \<Rightarrow> string option \<Rightarrow> pay_transaction option" where
  "get_success_transaction s kind p transaction_id =
     (let token = (case transaction_id of
            None \<Rightarrow> get_past_transaction_token s p kind
          | Some i \<Rightarrow> if i = [] then get_past_transaction_token s p kind else i)
      in case filter (\<lambda>t. tr_token t = token \<and> \<not> tr_action_required t \<and> tr_is_success t \<and> tr_kind t = kind)
                (transactions_of s (pay_pk p)) of
           [] \<Rightarrow> None | ts \<Rightarrow> Some (last ts))"

definition payment_refund_or_void ::
    "(string \<Rightarrow> nat) \<Rightarrow> gateway_call \<Rightarrow> gateway_call \<Rightarrow> nat \<Rightarrow> string option \<Rightarrow> pay_db \<Rightarrow> unit pay_result \<times> pay_db" where
  "payment_refund_or_void prec refund_call void_call k transaction_id s =
     (case row_of pay_pk k (pd_payments s) of
        None \<Rightarrow> (Inr (), s)
      | Some p \<Rightarrow>
          if can_refund p
          then (case get_success_transaction s TransactionKind_REFUND_ONGOING p transaction_id of
                  Some t \<Rightarrow> if tr_amount t < pay_captured_amount p
                     then (case refund_payment_of prec refund_call None None k s of (r, s) \<Rightarrow> (bindr r (\<lambda>_. Inr ()), s))
                     else (Inr (), s)
                | None \<Rightarrow> (case refund_payment_of prec refund_call None None k s of (r, s) \<Rightarrow> (bindr r (\<lambda>_. Inr ()), s)))
          else if can_void s p
          then (case get_success_transaction s TransactionKind_VOID p transaction_id of
                  Some _ \<Rightarrow> (Inr (), s)
                | None \<Rightarrow> (case void_payment prec void_call k s of (r, s) \<Rightarrow> (bindr r (\<lambda>_. Inr ()), s)))
          else (Inr (), s))"

text \<open>A \<open>PaymentError\<close> of the refund or void is logged and forgotten.\<close>

definition try_void_or_refund_inactive_payment ::
    "(string \<Rightarrow> nat) \<Rightarrow> gateway_call \<Rightarrow> gateway_call \<Rightarrow> pay_transaction \<Rightarrow> nat \<Rightarrow> pay_db \<Rightarrow> pay_db" where
  "try_void_or_refund_inactive_payment prec refund_call void_call t k s =
     (if \<not> tr_is_success t then s
      else case row_of pay_pk k (pd_payments s) of
        None \<Rightarrow> s
      | Some p \<Rightarrow> (let s = (if tr_already_processed t then s else update_payment_charge_status prec t p s)
                   in snd (payment_refund_or_void prec refund_call void_call k None s)))"

subsection \<open>Marking an order as paid\<close>

definition next_payment_pk :: "pay_db \<Rightarrow> nat" where
  "next_payment_pk s = Suc (sum_list (map pay_pk (pd_payments s)))"

text \<open>
  \<open>create_payment\<close> for an order: \<open>get_or_create\<close> by the flag, the address, the extra data, the token
  and the order. \<open>billed\<close> tells whether the order has a billing address.
\<close>

definition create_payment ::
    "bool \<Rightarrow> string \<Rightarrow> decimal \<Rightarrow> string \<Rightarrow> string option \<Rightarrow> nat \<Rightarrow> pay_db \<Rightarrow> (nat \<times> pay_db) pay_result" where
  "create_payment billed gateway total_amount currency external_reference k s =
     (if \<not> billed then Inl (PaymentError ''Order does not have a billing address.'')
      else case filter (\<lambda>p. gp_is_active p \<and> gp_customer_ip_address p = [] \<and> gp_extra_data p = ''{}''
                  \<and> gp_token p = [] \<and> pay_order p = Some k) (pd_payments s) of
        [p] \<Rightarrow> Inr (pay_pk p, s)
      | _ # _ # _ \<Rightarrow> Inl SeveralPayments
      | [] \<Rightarrow> Inr (next_payment_pk s, s\<lparr>pd_payments := pd_payments s @
          [\<lparr>pay_pk = next_payment_pk s, pay_order = Some k, pay_gateway = gateway, pay_currency = currency,
            pay_charge_status = ChargeStatus_NOT_CHARGED, pay_total = total_amount, pay_captured_amount = 0,
            pay_partial = False, gp_is_active = True, gp_to_confirm = False, gp_token = [],
            gp_extra_data = ''{}'', gp_customer_ip_address = [],
            gp_psp_reference = (case external_reference of None \<Rightarrow> [] | Some r \<Rightarrow> r),
            gp_cc_brand = [], gp_cc_last_digits = [], gp_cc_exp_year = None, gp_cc_exp_month = None,
            gp_payment_method_type = []\<rparr>]\<rparr>))"

definition clean_mark_order_as_paid :: "nat \<Rightarrow> pay_db \<Rightarrow> unit pay_result" where
  "clean_mark_order_as_paid k s =
     (if payments_of_order s k \<noteq> []
      then Inl (PaymentError ''Orders with payments can not be manually marked as paid.'')
      else if items_of_order s k \<noteq> []
      then Inl (PaymentError ''Orders with transactions can not be manually marked as paid.'')
      else Inr ())"

definition mark_order_as_paid_with_payment ::
    "(string \<Rightarrow> nat) \<Rightarrow> bool \<Rightarrow> string option \<Rightarrow> nat \<Rightarrow> pay_db \<Rightarrow> pay_db pay_result" where
  "mark_order_as_paid_with_payment prec billed external_reference k s =
     (case row_of order_pk k (pd_orders s) of
        None \<Rightarrow> Inl NoOrder
      | Some ord \<Rightarrow>
          bindr (create_payment billed ''manual'' (order_total_gross_amount ord) (mo_currency ord)
                   external_reference k s) (\<lambda>(pk, s).
            let s = save_payment pk (\<lambda>p. p\<lparr>pay_charge_status := ChargeStatus_FULLY_CHARGED,
                  pay_captured_amount := order_total_gross_amount ord\<rparr>) s;
                t = \<lparr>tr_pk = next_transaction_pk s, tr_payment = pk,
                  tr_token = (case external_reference of None \<Rightarrow> [] | Some r \<Rightarrow> r),
                  tr_kind = TransactionKind_EXTERNAL, tr_is_success = True, tr_action_required = False,
                  tr_currency = mo_currency ord, tr_amount = order_total_gross_amount ord, tr_error = None,
                  tr_customer_id = None, tr_already_processed = False\<rparr>;
                s = s\<lparr>pd_transactions := pd_transactions s @ [t]\<rparr>
            in Inr (update_order_authorize_data prec k (update_order_charge_data prec k s))))"

end
