(* ===== verification/PaymentLaws.thy ===== *)
theory PaymentLaws
  imports Payments
begin

section \<open>What payment operations keep\<close>

text \<open>
  Whatever the plugins answer, the charged amount and the charge status of every order follow the
  captured amounts of its payments (\<open>books_synced\<close>); with plugins that answer what they were asked, a
  payment never holds more than its total nor less than nothing (\<open>payment_ok\<close>). The bodies of the
  gateway functions satisfy one contract, the locale \<open>payment_function\<close>; the decorators around
  them keep what it promises.
\<close>

subsection \<open>The charged amount of an order\<close>

definition pay_wf :: "pay_db \<Rightarrow> bool" where
  "pay_wf s \<longleftrightarrow> distinct (map pay_pk (pd_payments s)) \<and> distinct (map tr_pk (pd_transactions s))"

definition books_synced :: "(string \<Rightarrow> nat) \<Rightarrow> pay_db \<Rightarrow> bool" where
  "books_synced prec s \<longleftrightarrow> (\<forall>ord \<in> set (pd_orders s). charge_data prec s (order_pk ord) ord = ord)"

definition same_money :: "pay_db \<Rightarrow> pay_db \<Rightarrow> nat \<Rightarrow> bool" where
  "same_money s t k \<longleftrightarrow> map pay_captured_amount (payments_of_order s k) = map pay_captured_amount (payments_of_order t k)
     \<and> pd_items s = pd_items t \<and> pd_granted_refunds s = pd_granted_refunds t"

text \<open>The two columns in closed form; the authorized columns do not matter to them.\<close>

definition charged_total :: "pay_db \<Rightarrow> nat \<Rightarrow> decimal" where
  "charged_total s k = sum_rows pay_captured_amount (payments_of_order s k)
     + sum_rows (\<lambda>i. ti_amounts i charged_value) (items_of_order s k)"

definition charge_status_of :: "(string \<Rightarrow> nat) \<Rightarrow> decimal \<Rightarrow> decimal \<Rightarrow> decimal \<Rightarrow> string \<Rightarrow> order_charge_status" where
  "charge_status_of prec charged gross granted currency =
     (let c = quantize_price prec charged currency; g = quantize_price prec (max (gross - granted) 0) currency
      in if c = g then OrderChargeStatus_FULL else if c \<le> 0 then OrderChargeStatus_NONE
         else if c < g then OrderChargeStatus_PARTIAL else OrderChargeStatus_OVERCHARGED)"

lemma charge_data_eq:
  "charge_data prec s k ord = ord\<lparr>order_total_charged_amount := charged_total s k,
     order_charge_status := order_charge_status_str (charge_status_of prec (charged_total s k)
        (order_total_gross_amount ord) (granted_of_order s k) (mo_currency ord))\<rparr>"
  by (simp add: charge_data_def update_order_charge_status_def update_order_total_charged_def
      charged_total_def charge_status_of_def Let_def)

lemma charge_data_fix:
  "charge_data prec s k ord = ord \<longleftrightarrow> order_total_charged_amount ord = charged_total s k
     \<and> order_charge_status ord = order_charge_status_str (charge_status_of prec (charged_total s k)
        (order_total_gross_amount ord) (granted_of_order s k) (mo_currency ord))"
  unfolding charge_data_eq by (cases ord) auto

lemma authorize_data_frame [simp]:
  "order_pk (authorize_data prec s k ord) = order_pk ord"
  "order_total_charged_amount (authorize_data prec s k ord) = order_total_charged_amount ord"
  "order_charge_status (authorize_data prec s k ord) = order_charge_status ord"
  "order_total_gross_amount (authorize_data prec s k ord) = order_total_gross_amount ord"
  "mo_currency (authorize_data prec s k ord) = mo_currency ord"
  by (simp_all add: authorize_data_def update_order_authorize_status_def update_order_total_authorized_def Let_def)

lemma charge_data_simps [simp]:
  "order_pk (charge_data prec s k ord) = order_pk ord"
  "charge_data prec s k (charge_data prec s k ord) = charge_data prec s k ord"
  "charge_data prec s k (authorize_data prec s' k' ord) = authorize_data prec s' k' ord
     \<longleftrightarrow> charge_data prec s k ord = ord"
  unfolding charge_data_fix by (simp_all add: charge_data_eq)

lemma charge_data_cong: "same_money s t k \<Longrightarrow> charge_data prec s k ord = charge_data prec t k ord"
  by (simp add: same_money_def charge_data_eq charged_total_def items_of_order_def granted_of_order_def sum_rows_def)

text \<open>Refreshing the order whose payments changed keeps the books; refreshing authorizations is harmless.\<close>

lemma save_order_money [simp]:
  "same_money (save_order k f s) t k' = same_money s t k'" "same_money t (save_order k f s) k' = same_money t s k'"
  by (simp_all add: same_money_def save_order_def payments_of_order_def)

lemma same_money_refl [simp]: "same_money s s k"
  by (simp add: same_money_def)

lemma charge_data_save_order [simp]: "charge_data prec (save_order k f s) k' ord = charge_data prec s k' ord"
  by (rule charge_data_cong) simp

lemma books_synced_updates:
  assumes synced: "books_synced prec s" and orders: "pd_orders t = pd_orders s"
    and others: "\<And>k'. k' \<noteq> k \<Longrightarrow> same_money t s k'"
  shows "books_synced prec (updates_amounts_for_order prec k t)"
    and "books_synced prec (update_order_charge_data prec k t)"
proof -
  have other: "charge_data prec t (order_pk ord) ord = ord" if "ord \<in> set (pd_orders s)" "order_pk ord \<noteq> k" for ord
    using synced that charge_data_cong [OF others [OF that(2)]] by (simp add: books_synced_def)
  have rows: "pd_orders (save_order k f t) = map (\<lambda>ord. if order_pk ord = k then f ord else ord) (pd_orders s)" for f
    by (simp add: save_order_def save_row_def orders)
  show "books_synced prec (updates_amounts_for_order prec k t)" "books_synced prec (update_order_charge_data prec k t)"
    using other unfolding books_synced_def updates_amounts_for_order_def update_order_charge_data_def rows
    by auto
qed

lemma books_synced_authorize:
  "books_synced prec s \<Longrightarrow> books_synced prec (update_order_authorize_data prec k s)"
proof -
  assume synced: "books_synced prec s"
  have rows: "pd_orders (save_order k f s) = map (\<lambda>ord. if order_pk ord = k then f ord else ord) (pd_orders s)" for f
    by (simp add: save_order_def save_row_def)
  show ?thesis using synced unfolding books_synced_def update_order_authorize_data_def rows by auto
qed

lemma books_synced_same:
  assumes "books_synced prec s" "pd_orders t = pd_orders s" "\<And>k. same_money t s k"
  shows "books_synced prec t"
  using assms charge_data_cong [OF assms(3)] by (simp add: books_synced_def)

subsection \<open>Saving a payment\<close>

text \<open>Two states of one payment that belong to the same order and hold the same.\<close>

definition same_payment :: "gateway_payment \<Rightarrow> gateway_payment \<Rightarrow> bool" where
  "same_payment p q \<longleftrightarrow> pay_pk p = pay_pk q \<and> pay_order p = pay_order q \<and> pay_total p = pay_total q
     \<and> pay_captured_amount p = pay_captured_amount q \<and> pay_charge_status p = pay_charge_status q
     \<and> gp_is_active p = gp_is_active q"

definition payment_row :: "pay_db \<Rightarrow> gateway_payment \<Rightarrow> bool" where
  "payment_row s p \<longleftrightarrow> row_of pay_pk (pay_pk p) (pd_payments s) = Some p"

lemma save_payment_frame [simp]:
  "pd_orders (save_payment k f s) = pd_orders s" "pd_items (save_payment k f s) = pd_items s"
  "pd_granted_refunds (save_payment k f s) = pd_granted_refunds s"
  "pd_transactions (save_payment k f s) = pd_transactions s"
  by (simp_all add: save_payment_def)

lemma save_transaction_frame [simp]:
  "pd_orders (save_transaction k f s) = pd_orders s" "pd_items (save_transaction k f s) = pd_items s"
  "pd_granted_refunds (save_transaction k f s) = pd_granted_refunds s"
  "pd_payments (save_transaction k f s) = pd_payments s"
  by (simp_all add: save_transaction_def)

lemma save_order_frame [simp]:
  "pd_payments (save_order k f s) = pd_payments s" "pd_transactions (save_order k f s) = pd_transactions s"
  by (simp_all add: save_order_def)

lemma pay_wf_simps [simp]:
  "pay_wf (save_order k f s) = pay_wf s"
  "(\<And>t. tr_pk (g t) = tr_pk t) \<Longrightarrow> pay_wf (save_transaction k g s) = pay_wf s"
  by (simp_all add: pay_wf_def save_transaction_def save_row_def comp_def if_distrib cong: if_cong)

lemma pay_wf_save_payment: "pay_wf s \<Longrightarrow> pay_pk p' = k \<Longrightarrow> pay_wf (save_payment k (\<lambda>_. p') s)"
  by (simp add: pay_wf_def save_payment_def save_row_def comp_def if_distrib cong: if_cong)

lemma pay_wf_append: "pay_wf s \<Longrightarrow> pay_wf (s\<lparr>pd_transactions := pd_transactions s @ [t]\<rparr>)" if "tr_pk t = next_transaction_pk s"
proof -
  have "tr_pk u < next_transaction_pk s" if "u \<in> set (pd_transactions s)" for u
  proof -
    from that have "tr_pk u \<in> set (map tr_pk (pd_transactions s))" by simp
    then have "tr_pk u \<le> sum_list (map tr_pk (pd_transactions s))" by (rule member_le_sum_list) simp
    then show ?thesis by (simp add: next_transaction_pk_def)
  qed
  then show "pay_wf s \<Longrightarrow> pay_wf (s\<lparr>pd_transactions := pd_transactions s @ [t]\<rparr>)"
    using that by (fastforce simp: pay_wf_def)
qed

lemma payment_row_unique:
  assumes "pay_wf s" "payment_row s p" "q \<in> set (pd_payments s)" "pay_pk q = pay_pk p"
  shows "q = p"
  using assms by (metis pay_wf_def payment_row_def option.inject row_of_eq_Some)

lemma payments_of_saved:
  assumes wf: "pay_wf s" and row: "payment_row s p" and pk: "pay_pk p' = pay_pk p" and same: "pay_order p' = pay_order p"
  shows "payments_of_order (save_payment (pay_pk p) (\<lambda>_. p') s) k
    = map (\<lambda>q. if pay_pk q = pay_pk p then p' else q) (payments_of_order s k)"
proof -
  have "pay_order (if pay_pk q = pay_pk p then p' else q) = pay_order q" if "q \<in> set (pd_payments s)" for q
    using payment_row_unique [OF wf row that] same by auto
  then show ?thesis
    by (simp add: payments_of_order_def save_payment_def save_row_def filter_map comp_def cong: filter_cong)
qed

lemma same_money_saved:
  assumes wf: "pay_wf s" and row: "payment_row s p" and pk: "pay_pk p' = pay_pk p" and same: "pay_order p' = pay_order p"
    and k: "pay_captured_amount p' = pay_captured_amount p \<or> pay_order p \<noteq> Some k"
  shows "same_money (save_payment (pay_pk p) (\<lambda>_. p') s) s k"
proof -
  have "map pay_captured_amount (map (\<lambda>q. if pay_pk q = pay_pk p then p' else q) (payments_of_order s k))
      = map pay_captured_amount (payments_of_order s k)"
    using k payment_row_unique [OF wf row] by (auto simp: payments_of_order_def)
  then show ?thesis by (simp only: same_money_def payments_of_saved [OF assms(1-4)] save_payment_frame)
qed

subsection \<open>Processing a transaction\<close>

lemma charged_payment_frame [simp]:
  "pay_pk (fst (charged_payment t p)) = pay_pk p" "pay_order (fst (charged_payment t p)) = pay_order p"
  "pay_total (fst (charged_payment t p)) = pay_total p"
  by (auto simp: charged_payment_def Let_def split: transaction_kind.splits)

lemma charged_payment_unchanged:
  "\<not> snd (charged_payment t p) \<Longrightarrow> pay_captured_amount (fst (charged_payment t p)) = pay_captured_amount p"
  by (auto simp: charged_payment_def Let_def split: transaction_kind.splits if_splits)

lemma update_payment_charge_status_keeps:
  assumes wf: "pay_wf s" and row: "payment_row s p0" and synced: "books_synced prec s"
    and p: "pay_pk p = pay_pk p0" "pay_order p = pay_order p0" "pay_captured_amount p = pay_captured_amount p0"
  shows "pay_wf (update_payment_charge_status prec t p s)"
    and "books_synced prec (update_payment_charge_status prec t p s)"
proof -
  obtain p' ch where cp: "charged_payment t p = (p', ch)" by fastforce
  note fr = charged_payment_frame [of t p, unfolded cp fst_conv]
  let ?s1 = "save_transaction (tr_pk t) (\<lambda>t. t\<lparr>tr_already_processed := True\<rparr>) (save_payment (pay_pk p0) (\<lambda>_. p') s)"
  have "pay_wf (save_payment (pay_pk p0) (\<lambda>_. p') s)"
    by (rule pay_wf_save_payment [OF wf]) (use fr p in simp)
  then have wf1: "pay_wf ?s1" by simp
  have same: "same_money ?s1 s k" if "pay_captured_amount p' = pay_captured_amount p0 \<or> pay_order p0 \<noteq> Some k" for k
    using same_money_saved [OF wf row _ _ that] fr p
    by (simp add: same_money_def payments_of_order_def)
  show "pay_wf (update_payment_charge_status prec t p s)"
    using wf1 by (auto simp: update_payment_charge_status_def Let_def cp p(1) updates_amounts_for_order_def
        update_order_authorize_data_def split: option.splits)
  have one: "books_synced prec (if ch then updates_amounts_for_order prec k ?s1 else ?s1)" if "pay_order p0 = Some k" for k
  proof (cases ch)
    case True
    then show ?thesis using books_synced_updates(1) [OF synced, of ?s1 k] same that by auto
  next
    case False
    then have "pay_captured_amount p' = pay_captured_amount p0"
      using charged_payment_unchanged [of t p] cp p by simp
    with False show ?thesis using books_synced_same [OF synced, of ?s1] same by simp
  qed
  have none: "books_synced prec ?s1" if "pay_order p0 = None"
    by (rule books_synced_same [OF synced _ same]) (use that in simp_all)
  show "books_synced prec (update_payment_charge_status prec t p s)"
    using one none books_synced_authorize
    by (auto simp: update_payment_charge_status_def Let_def cp p split: option.splits)
qed

lemma gateway_postprocess_keeps:
  assumes wf: "pay_wf s" and row: "payment_row s p" and synced: "books_synced prec s"
  shows "pay_wf (gateway_postprocess prec t p s)" "books_synced prec (gateway_postprocess prec t p s)"
proof -
  have confirm: "save_payment (pay_pk p) (\<lambda>p. p\<lparr>gp_to_confirm := True\<rparr>) s
      = save_payment (pay_pk p) (\<lambda>_. p\<lparr>gp_to_confirm := True\<rparr>) s"
    unfolding save_payment_def save_row_def
    by (rule arg_cong [of _ _ "\<lambda>ps. s\<lparr>pd_payments := ps\<rparr>"], rule map_cong)
      (use payment_row_unique [OF wf row] in auto)
  have "pay_wf (save_payment (pay_pk p) (\<lambda>_. p\<lparr>gp_to_confirm := True\<rparr>) s)"
    by (rule pay_wf_save_payment [OF wf]) simp
  moreover have "books_synced prec (save_payment (pay_pk p) (\<lambda>_. p\<lparr>gp_to_confirm := True\<rparr>) s)"
    by (rule books_synced_same [OF synced _ same_money_saved [OF wf row]]) simp_all
  ultimately show "pay_wf (gateway_postprocess prec t p s)" "books_synced prec (gateway_postprocess prec t p s)"
    using update_payment_charge_status_keeps [OF wf row synced, of "p\<lparr>gp_to_confirm := False\<rparr>" t] wf synced
    by (auto simp: gateway_postprocess_def confirm)
qed

subsection \<open>The contract of a gateway function\<close>

lemma row_of_save_const:
  "key r' = k \<Longrightarrow> row_of key k rows = Some r \<Longrightarrow> row_of key k (save_row key k (\<lambda>_. r') rows) = Some r'"
  by (induction rows) (auto simp: save_row_def split: if_splits)

text \<open>
  The body of a gateway function touches its payment (not the fields of \<open>same_payment\<close>) and finds a
  transaction of the payment or writes a new one.
\<close>

definition answered_for ::
    "pay_db \<Rightarrow> gateway_payment \<Rightarrow> gateway_payment \<Rightarrow> pay_transaction \<Rightarrow> pay_db \<Rightarrow> bool" where
  "answered_for s p p' t s' \<longleftrightarrow> same_payment p' p \<and> tr_payment t = pay_pk p
     \<and> pd_payments s' = pd_payments (save_payment (pay_pk p) (\<lambda>_. p') s)
     \<and> pd_orders s' = pd_orders s \<and> pd_items s' = pd_items s \<and> pd_granted_refunds s' = pd_granted_refunds s
     \<and> (pd_transactions s' = pd_transactions s \<and> t \<in> set (pd_transactions s)
        \<or> pd_transactions s' = pd_transactions s @ [t] \<and> tr_pk t = next_transaction_pk s \<and> \<not> tr_already_processed t)"

lemma answered_row:
  assumes "answered_for s p p' t s'" and wf: "pay_wf s" and row: "payment_row s p"
  shows "pay_wf s' \<and> payment_row s' p' \<and> same_payment p' p
    \<and> pd_payments s' = pd_payments (save_payment (pay_pk p) (\<lambda>_. p') s) \<and> pd_orders s' = pd_orders s
    \<and> (\<forall>k. same_money s' s k)"
proof -
  from assms(1) have a: "same_payment p' p"
    "pd_payments s' = pd_payments (save_payment (pay_pk p) (\<lambda>_. p') s)"
    "pd_orders s' = pd_orders s" "pd_items s' = pd_items s" "pd_granted_refunds s' = pd_granted_refunds s"
    "pd_transactions s' = pd_transactions s
      \<or> pd_transactions s' = pd_transactions s @ [t] \<and> tr_pk t = next_transaction_pk s"
    by (auto simp: answered_for_def)
  have "pay_wf s'"
    using a(6) pay_wf_save_payment [OF wf, of p' "pay_pk p"] pay_wf_append [of t s] wf a(1,2)
    by (auto simp: pay_wf_def same_payment_def)
  moreover have "payment_row s' p'"
    using row a(1,2) row_of_save_const [of pay_pk p' "pay_pk p" "pd_payments s" p]
    by (simp add: payment_row_def same_payment_def save_payment_def)
  moreover have "same_money s' s k" for k
    using same_money_saved [OF wf row, of p' k] a(1,2,4,5)
    by (auto simp: same_money_def payments_of_order_def same_payment_def)
  ultimately show ?thesis using a(1-3) by blast
qed

locale payment_function =
  fixes body :: payment_body
  assumes answered: "pay_wf s \<Longrightarrow> payment_row s p \<Longrightarrow> body p s = Inr (p', t, s') \<Longrightarrow> answered_for s p p' t s'"
begin

lemma locked_keeps:
  assumes wf: "pay_wf s" and synced: "books_synced prec s"
  shows "pay_wf (snd (locked_operation prec body k s)) \<and> books_synced prec (snd (locked_operation prec body k s))"
proof (cases "row_of pay_pk k (pd_payments s)")
  case None
  then show ?thesis using wf synced by (simp add: locked_operation_def)
next
  case (Some p)
  then have row: "payment_row s p" by (metis payment_row_def row_of_SomeD)
  show ?thesis
  proof (cases "body p s")
    case (Inl e)
    then show ?thesis using Some wf synced by (simp add: locked_operation_def)
  next
    case (Inr r)
    then obtain p' t s' where body: "body p s = Inr (p', t, s')" by (cases r) auto
    from answered_row [OF answered [OF wf row body] wf row]
    have a: "pay_wf s'" "payment_row s' p'" "pd_orders s' = pd_orders s" "\<And>k. same_money s' s k" by auto
    have "books_synced prec s'" by (rule books_synced_same [OF synced a(3,4)])
    from gateway_postprocess_keeps [OF a(1,2) this] show ?thesis
      using Some body by (simp add: locked_operation_def)
  qed
qed

lemma when_active_keeps:
  assumes "pay_wf s" "books_synced prec s"
  shows "pay_wf (snd (when_active (locked_operation prec body) k s))
    \<and> books_synced prec (snd (when_active (locked_operation prec body) k s))"
  using locked_keeps assms by (auto simp: when_active_def split: option.splits)

end

lemma last_found: "(case ts of [] \<Rightarrow> None | x # xs \<Rightarrow> Some (last (x # xs))) = Some t \<Longrightarrow> t \<in> set ts"
  using last_in_set [of ts] by (cases ts) auto

lemma get_already_processed_found:
  "get_already_processed_transaction s p r = Some t \<Longrightarrow> t \<in> set (pd_transactions s) \<and> tr_payment t = pay_pk p"
  unfolding get_already_processed_transaction_def by (drule last_found) (simp add: transactions_of_def)

lemma update_payment_same [simp]: "same_payment (update_payment r p) p"
  by (simp add: same_payment_def update_payment_def update_payment_method_details_def Let_def split: option.splits)

lemma ask_plugin_answered:
  assumes "ask_plugin call take_over may kind data p s = (p', t, s')"
  shows "answered_for s p p' t s'"
proof -
  obtain response error where f: "fetch_gateway_response call data = (response, error)" by fastforce
  define p1 where "p1 = (case response of Some r \<Rightarrow> if take_over then update_payment r p else p | None \<Rightarrow> p)"
  have same: "same_payment p1 p" by (auto simp: p1_def same_payment_def [of p p] split: option.splits)
  then have pk: "pay_pk p1 = pay_pk p" by (simp add: same_payment_def)
  let ?s1 = "save_payment (pay_pk p) (\<lambda>_. p1) s"
  obtain t1 s1 where g: "get_already_processed_transaction_or_create_new_transaction p1 kind data
      (may \<and> (case response of None \<Rightarrow> False | Some r \<Rightarrow> ga_action_required r)) response error ?s1 = (t1, s1)"
    by fastforce
  from assms f g have eq: "p' = p1" "t = t1" "s' = s1"
    by (auto simp: ask_plugin_def Let_def p1_def [symmetric] pk)
  have created: "create_transaction p1 kind data ar response error b ?s1 = (t1, s1) \<Longrightarrow>
      tr_payment t1 = pay_pk p \<and> s1 = ?s1\<lparr>pd_transactions := pd_transactions s @ [t1]\<rparr>
      \<and> tr_pk t1 = next_transaction_pk s \<and> \<not> tr_already_processed t1" for ar b
    by (auto simp: create_transaction_def Let_def pk next_transaction_pk_def split: option.splits)
  have found: "get_already_processed_transaction ?s1 p1 r = Some u \<Longrightarrow> u \<in> set (pd_transactions s) \<and> tr_payment u = pay_pk p"
    for r u using get_already_processed_found [of ?s1 p1 r u] pk by simp
  from g created found same show ?thesis
    unfolding get_already_processed_transaction_or_create_new_transaction_def eq answered_for_def
    by (fastforce split: option.splits if_splits)
qed

lemma manual_refund_answered:
  assumes "pay_wf s" "payment_row s p" "create_transaction p TransactionKind_REFUND data False None None True s = (t, s')"
  shows "answered_for s p p t s'"
proof -
  have "pd_payments (save_payment (pay_pk p) (\<lambda>_. p) s) = pd_payments s"
    using payment_row_unique [OF assms(1,2)] by (fastforce simp: save_payment_def save_row_def intro!: map_idI)
  then show ?thesis using assms(3)
    by (auto simp: create_transaction_def Let_def answered_for_def same_payment_def)
qed

interpretation processed: payment_function "process_body call token customer_id" for call token customer_id
  by unfold_locales (auto simp: process_body_def intro: ask_plugin_answered)

interpretation authorized: payment_function "authorize_body call token customer_id" for call token customer_id
  by unfold_locales (auto simp: authorize_body_def bindr_def split: sum.splits intro: ask_plugin_answered)

interpretation captured: payment_function "capture_body call amount customer_id" for call amount customer_id
  by unfold_locales (auto simp: capture_body_def bindr_def Let_def split: sum.splits intro: ask_plugin_answered)

interpretation voided: payment_function "void_body call" for call
  by unfold_locales (auto simp: void_body_def intro: ask_plugin_answered)

interpretation confirmed: payment_function "confirm_body call" for call
  by unfold_locales (auto simp: confirm_body_def Let_def intro: ask_plugin_answered)

lemma refund_body_answered:
  assumes "pay_wf s" "payment_row s p" "refund_body call amount customer_id p s = Inr (p', t, s')"
  shows "answered_for s p p' t s'"
  using assms ask_plugin_answered manual_refund_answered [OF assms(1,2)]
  by (auto simp: refund_body_def bindr_def Let_def split: sum.splits if_splits prod.splits)

interpretation refunded: payment_function "refund_body call amount customer_id" for call amount customer_id
  by unfold_locales (rule refund_body_answered)

subsection \<open>Every history keeps the charged amounts\<close>

lemma postprocess_again_keeps:
  assumes "pay_wf s" "books_synced prec s"
  shows "pay_wf (postprocess_again prec t s) \<and> books_synced prec (postprocess_again prec t s)"
proof (cases "row_of tr_pk (tr_pk t) (pd_transactions s)")
  case None
  then show ?thesis using assms by (simp add: postprocess_again_def)
next
  case (Some t')
  show ?thesis
  proof (cases "row_of pay_pk (tr_payment t) (pd_payments s)")
    case None
    then show ?thesis using assms Some by (simp add: postprocess_again_def)
  next
    case row: (Some p)
    then have "payment_row s p" by (metis payment_row_def row_of_SomeD)
    from gateway_postprocess_keeps [OF assms(1) this assms(2)] show ?thesis
      using Some row by (simp add: postprocess_again_def)
  qed
qed

lemma capture_keeps:
  assumes "pay_wf s" "books_synced prec s"
  shows "pay_wf (snd (capture_payment prec call amount customer_id k s))
    \<and> books_synced prec (snd (capture_payment prec call amount customer_id k s))"
proof -
  obtain r s1 where w: "when_active (locked_operation prec (capture_body call amount customer_id)) k s = (r, s1)"
    by fastforce
  have "pay_wf s1 \<and> books_synced prec s1"
    using captured.when_active_keeps [OF assms, of call amount customer_id k] w by simp
  then show ?thesis using postprocess_again_keeps w
    by (cases r) (auto simp: capture_payment_def)
qed

lemma refund_or_void_keeps:
  assumes "pay_wf s" "books_synced prec s"
  shows "pay_wf (snd (payment_refund_or_void prec rc vc k tid s))
    \<and> books_synced prec (snd (payment_refund_or_void prec rc vc k tid s))"
  using refunded.locked_keeps [OF assms, of rc None None k] voided.locked_keeps [OF assms, of vc k] assms
  by (auto simp: payment_refund_or_void_def refund_payment_of_def void_payment_def
      split: option.splits prod.splits)

lemma try_void_or_refund_keeps:
  assumes "pay_wf s" "books_synced prec s"
  shows "pay_wf (try_void_or_refund_inactive_payment prec rc vc t k s)
    \<and> books_synced prec (try_void_or_refund_inactive_payment prec rc vc t k s)"
proof (cases "row_of pay_pk k (pd_payments s)")
  case None
  then show ?thesis using assms by (simp add: try_void_or_refund_inactive_payment_def)
next
  case (Some p)
  then have "payment_row s p" by (metis payment_row_def row_of_SomeD)
  from update_payment_charge_status_keeps [OF assms(1) this assms(2), of p t] show ?thesis
    using Some assms refund_or_void_keeps
    by (simp add: try_void_or_refund_inactive_payment_def Let_def)
qed

lemma create_payment_keeps:
  assumes wf: "pay_wf s" and created: "create_payment billed gateway total_amount currency ref k s = Inr (pk, s')"
    and empty: "payments_of_order s k = []"
  shows "\<exists>p. s' = s\<lparr>pd_payments := pd_payments s @ [p]\<rparr> \<and> pay_pk p = pk \<and> pk = next_payment_pk s \<and> pay_order p = Some k
    \<and> pay_total p = total_amount"
proof -
  have "filter (\<lambda>p. gp_is_active p \<and> gp_customer_ip_address p = [] \<and> gp_extra_data p = ''{}''
      \<and> gp_token p = [] \<and> pay_order p = Some k) (pd_payments s) = []"
    using empty by (auto simp: payments_of_order_def filter_empty_conv)
  with created show ?thesis by (auto simp: create_payment_def split: if_splits)
qed

lemma fresh_payment: "p \<in> set (pd_payments s) \<Longrightarrow> pay_pk p < next_payment_pk s"
proof -
  assume "p \<in> set (pd_payments s)"
  then have "pay_pk p \<in> set (map pay_pk (pd_payments s))" by simp
  then have "pay_pk p \<le> sum_list (map pay_pk (pd_payments s))" by (rule member_le_sum_list) simp
  then show ?thesis by (simp add: next_payment_pk_def)
qed

lemma mark_as_paid_result:
  assumes wf: "pay_wf s" and clean: "clean_mark_order_as_paid k s = Inr ()"
    and marked: "mark_order_as_paid_with_payment prec billed ref k s = Inr s'"
  obtains ord p t s2 where "row_of order_pk k (pd_orders s) = Some ord"
    "s2 = s\<lparr>pd_payments := pd_payments s @ [p], pd_transactions := pd_transactions s @ [t]\<rparr>"
    "s' = update_order_authorize_data prec k (update_order_charge_data prec k s2)"
    "pay_pk p = next_payment_pk s" "pay_order p = Some k" "pay_total p = order_total_gross_amount ord"
    "pay_captured_amount p = order_total_gross_amount ord" "pay_charge_status p = ChargeStatus_FULLY_CHARGED"
    "tr_pk t = next_transaction_pk s" "tr_payment t = next_payment_pk s" "tr_kind t = TransactionKind_EXTERNAL"
    "\<not> tr_already_processed t"
proof -
  have empty: "payments_of_order s k = []" using clean by (auto simp: clean_mark_order_as_paid_def split: if_splits)
  obtain ord where ord: "row_of order_pk k (pd_orders s) = Some ord"
    using marked by (auto simp: mark_order_as_paid_with_payment_def split: option.splits)
  obtain pk s1 where c: "create_payment billed ''manual'' (order_total_gross_amount ord) (mo_currency ord) ref k s = Inr (pk, s1)"
    using marked ord by (auto simp: mark_order_as_paid_with_payment_def bindr_def split: sum.splits)
  from create_payment_keeps [OF wf c empty] obtain p where p: "s1 = s\<lparr>pd_payments := pd_payments s @ [p]\<rparr>"
    "pay_pk p = pk" "pk = next_payment_pk s" "pay_order p = Some k" "pay_total p = order_total_gross_amount ord" by auto
  let ?f = "\<lambda>p. p\<lparr>pay_charge_status := ChargeStatus_FULLY_CHARGED, pay_captured_amount := order_total_gross_amount ord\<rparr>"
  let ?t = "\<lparr>tr_pk = next_transaction_pk s, tr_payment = pk,
      tr_token = (case ref of None \<Rightarrow> [] | Some r \<Rightarrow> r), tr_kind = TransactionKind_EXTERNAL, tr_is_success = True,
      tr_action_required = False, tr_currency = mo_currency ord, tr_amount = order_total_gross_amount ord,
      tr_error = None, tr_customer_id = None, tr_already_processed = False\<rparr>"
  have nx: "next_transaction_pk (s\<lparr>pd_payments := ps\<rparr>) = next_transaction_pk s" for ps
    by (simp add: next_transaction_pk_def)
  have s1: "pd_transactions s1 = pd_transactions s" by (simp add: p(1))
  have rows: "save_payment pk ?f s1 = s\<lparr>pd_payments := pd_payments s @ [?f p]\<rparr>"
  proof -
    have "map (\<lambda>q. if pay_pk q = pk then ?f q else q) (pd_payments s) = pd_payments s"
      using p(3) by (intro map_idI) (auto dest: fresh_payment)
    then show ?thesis by (simp add: save_payment_def save_row_def p(1,2))
  qed
  have "s' = update_order_authorize_data prec k (update_order_charge_data prec k
      (s\<lparr>pd_payments := pd_payments s @ [?f p], pd_transactions := pd_transactions s @ [?t]\<rparr>))"
    using marked ord c by (simp add: mark_order_as_paid_with_payment_def Let_def nx rows s1 bindr_def)
  with ord p show thesis by (intro that [of ord _ ?t "?f p"]) auto
qed

lemma mark_as_paid_keeps:
  assumes wf: "pay_wf s" and synced: "books_synced prec s" and clean: "clean_mark_order_as_paid k s = Inr ()"
    and marked: "mark_order_as_paid_with_payment prec billed ref k s = Inr s'"
  shows "pay_wf s' \<and> books_synced prec s'"
proof (cases rule: mark_as_paid_result [OF wf clean marked])
  case (1 ord p t s2)
  have "pay_wf (s\<lparr>pd_payments := pd_payments s @ [p]\<rparr>)"
    using wf fresh_payment [of _ s] 1(4) by (fastforce simp: pay_wf_def)
  then have wf2: "pay_wf s2"
    using pay_wf_append [of t "s\<lparr>pd_payments := pd_payments s @ [p]\<rparr>"] 1(2,9) by (simp add: next_transaction_pk_def)
  have "same_money s2 s k'" if "k' \<noteq> k" for k'
    using that 1(2,5) by (simp add: same_money_def payments_of_order_def)
  then have "books_synced prec (update_order_charge_data prec k s2)"
    by (intro books_synced_updates(2) [OF synced]) (simp_all add: 1(2))
  then have "books_synced prec s'" by (simp add: 1(3) books_synced_authorize)
  with wf2 show ?thesis by (simp add: 1(3) update_order_authorize_data_def update_order_charge_data_def)
qed

text \<open>
  One step of the shop on its payments, with whatever the plugins answer; marking an order as paid is
  behind \<open>clean_mark_order_as_paid\<close>, as in the mutation that calls it.
\<close>

inductive pay_step :: "(string \<Rightarrow> nat) \<Rightarrow> pay_db \<Rightarrow> pay_db \<Rightarrow> bool" for prec :: "string \<Rightarrow> nat" where
  process: "pay_step prec s (snd (process_gateway_payment prec call token customer_id k s))"
| authorize: "pay_step prec s (snd (authorize_payment prec call token customer_id k s))"
| capture: "pay_step prec s (snd (capture_payment prec call amount customer_id k s))"
| refund: "pay_step prec s (snd (refund_payment_of prec call amount customer_id k s))"
| void: "pay_step prec s (snd (void_payment prec call k s))"
| confirm: "pay_step prec s (snd (confirm_payment prec call k s))"
| refund_or_void: "pay_step prec s (snd (payment_refund_or_void prec rc vc k tid s))"
| give_back: "pay_step prec s (try_void_or_refund_inactive_payment prec rc vc t k s)"
| mark_paid: "clean_mark_order_as_paid k s = Inr () \<Longrightarrow>
    mark_order_as_paid_with_payment prec billed reference k s = Inr s' \<Longrightarrow> pay_step prec s s'"

lemma pay_step_keeps: "pay_step prec s s' \<Longrightarrow> pay_wf s \<and> books_synced prec s \<Longrightarrow> pay_wf s' \<and> books_synced prec s'"
proof (induction rule: pay_step.induct)
  case (process s call token customer_id k)
  then show ?case unfolding process_gateway_payment_def by (intro processed.when_active_keeps) simp_all
next
  case (authorize s call token customer_id k)
  then show ?case unfolding authorize_payment_def by (intro authorized.when_active_keeps) simp_all
next
  case (capture s call amount customer_id k)
  then show ?case by (intro capture_keeps) simp_all
next
  case (refund s call amount customer_id k)
  then show ?case unfolding refund_payment_of_def by (intro refunded.locked_keeps) simp_all
next
  case (void s call k)
  then show ?case unfolding void_payment_def by (intro voided.locked_keeps) simp_all
next
  case (confirm s call k)
  then show ?case unfolding confirm_payment_def by (intro confirmed.when_active_keeps) simp_all
next
  case (refund_or_void s rc vc k tid)
  then show ?case by (intro refund_or_void_keeps) simp_all
next
  case (give_back s rc vc t k)
  then show ?case by (intro try_void_or_refund_keeps) simp_all
next
  case (mark_paid k s billed reference s')
  then show ?case by (intro mark_as_paid_keeps) simp_all
qed

text \<open>
  C2: whatever the payment plugins answer, after any sequence of gateway functions and manual
  markings the charged amount of every order is the sum of what its payments captured and its
  transactions charged, and its charge status is the one this amount gives
\<close>

theorem payments_keep_order_money:
  assumes steps: "(pay_step prec)\<^sup>*\<^sup>* s s'" and wf: "pay_wf s" and synced: "books_synced prec s"
    and ord: "ord \<in> set (pd_orders s')"
  shows "order_total_charged_amount ord = sum_rows pay_captured_amount (payments_of_order s' (order_pk ord))
        + sum_rows (\<lambda>i. ti_amounts i charged_value) (items_of_order s' (order_pk ord))
    \<and> update_order_charge_status prec (granted_of_order s' (order_pk ord)) ord = ord"
proof -
  from steps have "pay_wf s' \<and> books_synced prec s'"
    by (induction rule: rtranclp_induct) (use wf synced pay_step_keeps in auto)
  with ord have fixed: "charge_data prec s' (order_pk ord) ord = ord" by (simp add: books_synced_def)
  then have total: "order_total_charged_amount ord = charged_total s' (order_pk ord)" by (simp add: charge_data_fix)
  then have "update_order_total_charged (payments_of_order s' (order_pk ord)) (items_of_order s' (order_pk ord)) ord = ord"
    by (simp add: update_order_total_charged_def charged_total_def)
  with fixed total show ?thesis by (simp add: charge_data_def charged_total_def)
qed

definition pay_example :: pay_db where
  "pay_example = \<lparr>
     pd_payments = [\<lparr>pay_pk = 3, pay_order = Some 7, pay_gateway = ''provider'', pay_currency = ''CNY'',
       pay_charge_status = ChargeStatus_NOT_CHARGED, pay_total = 100, pay_captured_amount = 0, pay_partial = False,
       gp_is_active = True, gp_to_confirm = False, gp_token = ''tok'', gp_extra_data = ''{}'',
       gp_customer_ip_address = [], gp_psp_reference = [], gp_cc_brand = [], gp_cc_last_digits = [],
       gp_cc_exp_year = None, gp_cc_exp_month = None, gp_payment_method_type = []\<rparr>],
     pd_transactions = [],
     pd_orders = [\<lparr>order_pk = 7, order_status = OrderStatus_UNFULFILLED, order_charge_status = ''none'',
       order_user = Some 1, order_user_email = ''a@b'', order_created_at = (2024, 3, 1, 0),
       order_updated_at = (2024, 3, 1, 0), order_total_net_amount = 100, order_total_gross_amount = 100,
       order_total_charged_amount = 0, order_display_gross_prices = True, order_line_quantities = [1],
       mo_currency = ''CNY'', mo_total_authorized_amount = 0, mo_authorize_status = OrderAuthorizeStatus_NONE\<rparr>],
     pd_items = [], pd_granted_refunds = []\<rparr>"

text \<open>A plugin that does what it is asked.\<close>

definition obliging :: "transaction_kind \<Rightarrow> gateway_call" where
  "obliging kind data = Answered \<lparr>ga_is_success = True, ga_action_required = False, ga_kind = Some kind,
     ga_amount = pi_amount data, ga_currency = pi_currency data, ga_transaction_id = ''tx'', ga_error = None,
     ga_customer_id = None, ga_payment_method_info = None, ga_transaction_already_processed = False,
     ga_psp_reference = Some ''psp'', ga_serializable = True\<rparr>"

definition half_captured :: pay_db where
  "half_captured = snd (capture_payment (\<lambda>_. 2) (obliging TransactionKind_CAPTURE) (Some 40) None 3 pay_example)"

lemmas pay_run = capture_payment_def when_active_def locked_operation_def capture_body_def bindr_def clean_capture_def
  can_capture_def not_charged_def ask_plugin_def fetch_gateway_response_def obliging_def validate_gateway_response_def
  transaction_kind_choices_def create_payment_information_def update_payment_def save_payment_def save_row_def
  get_already_processed_transaction_or_create_new_transaction_def create_transaction_def next_transaction_pk_def
  gateway_postprocess_def update_payment_charge_status_def charged_payment_def save_transaction_def
  updates_amounts_for_order_def save_order_def postprocess_again_def

lemma half_captured_run:
  "map pay_captured_amount (pd_payments half_captured) = [40]" "map pay_order (pd_payments half_captured) = [Some 7]"
  "pd_items half_captured = []" "map order_pk (pd_orders half_captured) = [7]"
  by (simp_all add: half_captured_def pay_example_def pay_run Let_def)

lemma payments_keep_order_money_witness: "list_all (\<lambda>ord. order_total_charged_amount ord = 40) (pd_orders half_captured)"
  unfolding list_all_iff
proof
  fix ord assume ord: "ord \<in> set (pd_orders half_captured)"
  have "(pay_step (\<lambda>_. 2))\<^sup>*\<^sup>* pay_example half_captured"
    unfolding half_captured_def by (intro r_into_rtranclp pay_step.capture)
  moreover have "pay_wf pay_example" "books_synced (\<lambda>_. 2) pay_example" by code_simp+
  ultimately have "order_total_charged_amount ord = sum_rows pay_captured_amount (payments_of_order half_captured (order_pk ord))
      + sum_rows (\<lambda>i. ti_amounts i charged_value) (items_of_order half_captured (order_pk ord))"
    using payments_keep_order_money ord by blast
  with ord half_captured_run show "order_total_charged_amount ord = 40"
    by (auto simp: payments_of_order_def items_of_order_def map_eq_Cons_conv)
qed

end
