(* ===== verification/PaymentBounds.thy ===== *)
theory PaymentBounds
  imports PaymentLaws
begin

section \<open>What a payment can hold\<close>

text \<open>
  With plugins that answer the request they got (\<open>answers_request\<close>: a successful answer is of an
  expected kind and about the requested amount), no payment ever holds more than its total or less than
  nothing, and its charge status says what it holds (\<open>payment_ok\<close>). The bodies of the gateway functions
  satisfy a second contract for this, \<open>money_function\<close>. The outer \<open>payment_postprocess\<close> of \<open>capture\<close>
  finds the transaction already processed and does nothing.
\<close>

subsection \<open>Charge status and captured amount\<close>

definition payment_ok :: "gateway_payment \<Rightarrow> bool" where
  "payment_ok p \<longleftrightarrow> 0 \<le> pay_captured_amount p \<and> pay_captured_amount p \<le> pay_total p
     \<and> (pay_charge_status p \<in> {ChargeStatus_NOT_CHARGED, ChargeStatus_FULLY_REFUNDED} \<longrightarrow> pay_captured_amount p = 0)
     \<and> (pay_charge_status p = ChargeStatus_FULLY_CHARGED \<longrightarrow> pay_captured_amount p = pay_total p)
     \<and> (pay_charge_status p = ChargeStatus_PARTIALLY_CHARGED \<longrightarrow> pay_captured_amount p < pay_total p)
     \<and> (pay_charge_status p = ChargeStatus_PARTIALLY_REFUNDED \<longrightarrow> 0 < pay_captured_amount p)"

definition money_ok :: "pay_db \<Rightarrow> bool" where
  "money_ok s \<longleftrightarrow> (\<forall>p \<in> set (pd_payments s). payment_ok p) \<and> (\<forall>ord \<in> set (pd_orders s). 0 \<le> order_total_gross_amount ord)"

definition answers_request :: "transaction_kind set \<Rightarrow> gateway_call \<Rightarrow> bool" where
  "answers_request kinds call \<longleftrightarrow> (\<forall>data r. call data = Answered r \<longrightarrow> ga_is_success r \<longrightarrow>
     (\<exists>k \<in> kinds. ga_kind r = Some k) \<and> ga_amount r = pi_amount data)"

lemma payment_ok_same: "same_payment p q \<Longrightarrow> payment_ok (fst (charged_payment t p)) = payment_ok (fst (charged_payment t q))"
  by (auto simp: same_payment_def charged_payment_def payment_ok_def Let_def split: transaction_kind.splits)

lemma payment_ok_same0: "same_payment p q \<Longrightarrow> payment_ok p = payment_ok q"
  by (simp add: same_payment_def payment_ok_def)

lemma charge_capture: "payment_ok p \<Longrightarrow> not_charged p \<Longrightarrow> tr_kind t = TransactionKind_CAPTURE \<Longrightarrow>
    0 \<le> tr_amount t \<Longrightarrow> tr_amount t \<le> pay_total p \<Longrightarrow> payment_ok (fst (charged_payment t p))"
  by (auto simp: payment_ok_def not_charged_def charged_payment_def Let_def)

lemma charge_refund: "payment_ok p \<Longrightarrow> tr_kind t = TransactionKind_REFUND \<Longrightarrow>
    0 \<le> tr_amount t \<Longrightarrow> tr_amount t \<le> pay_captured_amount p \<Longrightarrow> payment_ok (fst (charged_payment t p))"
  by (auto simp: payment_ok_def charged_payment_def Let_def)

lemma charge_nothing: "payment_ok p \<Longrightarrow> tr_kind t \<in> {TransactionKind_AUTH, TransactionKind_VOID,
      TransactionKind_CONFIRM, TransactionKind_ACTION_TO_CONFIRM, TransactionKind_PENDING}
    \<Longrightarrow> payment_ok (fst (charged_payment t p))"
  by (cases "tr_kind t") (simp_all add: payment_ok_def charged_payment_def)

subsection \<open>What an operation writes\<close>

lemma refresh_frame [simp]:
  "pd_payments (updates_amounts_for_order prec k s) = pd_payments s"
  "pd_payments (update_order_authorize_data prec k s) = pd_payments s"
  "pd_transactions (updates_amounts_for_order prec k s) = pd_transactions s"
  "pd_transactions (update_order_authorize_data prec k s) = pd_transactions s"
  by (simp_all add: updates_amounts_for_order_def update_order_authorize_data_def)

lemma update_payment_charge_status_frame:
  "pd_payments (update_payment_charge_status prec t p s)
     = pd_payments (save_payment (pay_pk p) (\<lambda>_. fst (charged_payment t p)) s)"
  "pd_transactions (update_payment_charge_status prec t p s)
     = pd_transactions (save_transaction (tr_pk t) (\<lambda>t. t\<lparr>tr_already_processed := True\<rparr>) s)"
proof -
  obtain p' changed where p': "charged_payment t p = (p', changed)" by fastforce
  have "pd_transactions (save_transaction k f (save_payment j g s)) = pd_transactions (save_transaction k f s)" for k f j g
    by (simp add: save_transaction_def save_payment_def)
  then show "pd_payments (update_payment_charge_status prec t p s)
     = pd_payments (save_payment (pay_pk p) (\<lambda>_. fst (charged_payment t p)) s)"
    "pd_transactions (update_payment_charge_status prec t p s)
     = pd_transactions (save_transaction (tr_pk t) (\<lambda>t. t\<lparr>tr_already_processed := True\<rparr>) s)"
    unfolding update_payment_charge_status_def p' Let_def prod.case fst_conv
    by (cases "pay_order p"; cases changed; simp)+
qed

lemma save_order_gross:
  assumes "\<And>ord. order_total_gross_amount (f ord) = order_total_gross_amount ord"
  shows "map order_total_gross_amount (pd_orders (save_order k f s)) = map order_total_gross_amount (pd_orders s)"
  using assms by (simp add: save_order_def save_row_def comp_def if_distrib cong: if_cong)

lemma charge_data_gross [simp]: "order_total_gross_amount (charge_data prec s k ord) = order_total_gross_amount ord"
  by (simp add: charge_data_eq)

lemma updates_gross [simp]:
  "map order_total_gross_amount (pd_orders (updates_amounts_for_order prec k s)) = map order_total_gross_amount (pd_orders s)"
  "map order_total_gross_amount (pd_orders (update_order_authorize_data prec k s)) = map order_total_gross_amount (pd_orders s)"
  "map order_total_gross_amount (pd_orders (update_order_charge_data prec k s)) = map order_total_gross_amount (pd_orders s)"
  by (simp_all add: updates_amounts_for_order_def update_order_authorize_data_def update_order_charge_data_def save_order_gross)

lemma update_payment_charge_status_gross:
  "map order_total_gross_amount (pd_orders (update_payment_charge_status prec t p s)) = map order_total_gross_amount (pd_orders s)"
  by (simp add: update_payment_charge_status_def Let_def split: option.splits prod.splits)

lemma gross_ok:
  "map order_total_gross_amount (pd_orders s') = map order_total_gross_amount (pd_orders s) \<Longrightarrow>
    (\<forall>ord \<in> set (pd_orders s'). 0 \<le> order_total_gross_amount ord) = (\<forall>ord \<in> set (pd_orders s). 0 \<le> order_total_gross_amount ord)"
  by (metis (mono_tags, lifting) in_set_conv_nth length_map nth_map)

lemma money_ok_saved:
  assumes "money_ok s" "pd_payments s' = pd_payments (save_payment k (\<lambda>_. p) s)" "payment_ok p"
    "map order_total_gross_amount (pd_orders s') = map order_total_gross_amount (pd_orders s)"
  shows "money_ok s'"
  using assms(1-3) gross_ok [OF assms(4)] by (auto simp: money_ok_def save_payment_def save_row_def)

lemma gateway_postprocess_ok:
  assumes wf: "pay_wf s" and row: "payment_row s p" and ok: "money_ok s"
    and charged: "tr_is_success t \<Longrightarrow> payment_ok (fst (charged_payment t p))"
  shows "money_ok (gateway_postprocess prec t p s)"
proof -
  have p: "payment_ok p" using row ok by (metis payment_row_def money_ok_def row_of_SomeD)
  have "money_ok (save_payment (pay_pk p) (\<lambda>p. p\<lparr>gp_to_confirm := True\<rparr>) s)"
    using ok by (auto simp: money_ok_def save_payment_def save_row_def payment_ok_def)
  moreover have "tr_is_success t \<Longrightarrow> money_ok (update_payment_charge_status prec t (p\<lparr>gp_to_confirm := False\<rparr>) s)"
    by (rule money_ok_saved [OF ok update_payment_charge_status_frame(1) _ update_payment_charge_status_gross])
      (use charged payment_ok_same [of "p\<lparr>gp_to_confirm := False\<rparr>" p t] in \<open>simp add: same_payment_def\<close>)
  ultimately show ?thesis using ok by (simp add: gateway_postprocess_def)
qed

subsection \<open>The contract about amounts\<close>

text \<open>Asked for a payment that is \<open>trusted\<close>, a body's successful transaction leaves the payment in order.\<close>

locale money_function = payment_function body
  for body :: payment_body +
  fixes trusted :: "gateway_payment \<Rightarrow> bool"
  assumes charged_ok: "trusted p \<Longrightarrow> pay_wf s \<Longrightarrow> payment_row s p \<Longrightarrow> payment_ok p \<Longrightarrow> body p s = Inr (p', t, s')
    \<Longrightarrow> tr_is_success t \<Longrightarrow> payment_ok (fst (charged_payment t p))"
begin

lemma locked_ok:
  assumes trust: "\<And>p. row_of pay_pk k (pd_payments s) = Some p \<Longrightarrow> trusted p" and wf: "pay_wf s" and ok: "money_ok s"
  shows "money_ok (snd (locked_operation prec body k s))"
proof (cases "row_of pay_pk k (pd_payments s)")
  case None
  then show ?thesis using ok by (simp add: locked_operation_def)
next
  case (Some p)
  then have row: "payment_row s p" by (metis payment_row_def row_of_SomeD)
  have p: "payment_ok p" using Some ok by (metis money_ok_def row_of_SomeD)
  show ?thesis
  proof (cases "body p s")
    case (Inl e)
    then show ?thesis using Some ok by (simp add: locked_operation_def)
  next
    case (Inr r)
    then obtain p' t s' where body: "body p s = Inr (p', t, s')" by (cases r) auto
    from answered_row [OF answered [OF wf row body] wf row]
    have a: "pay_wf s'" "payment_row s' p'" "same_payment p' p"
      "pd_payments s' = pd_payments (save_payment (pay_pk p) (\<lambda>_. p') s)" "pd_orders s' = pd_orders s" by auto
    have "money_ok s'"
      by (rule money_ok_saved [OF ok a(4)]) (use p a(3,5) payment_ok_same0 in auto)
    then have "money_ok (gateway_postprocess prec t p' s')"
      using charged_ok [OF trust [OF Some] wf row p body] payment_ok_same [OF a(3)]
      by (intro gateway_postprocess_ok [OF a(1,2)]) auto
    then show ?thesis using Some body by (simp add: locked_operation_def)
  qed
qed

lemma when_active_ok:
  "(\<And>p. row_of pay_pk k (pd_payments s) = Some p \<Longrightarrow> trusted p) \<Longrightarrow> pay_wf s \<Longrightarrow> money_ok s
    \<Longrightarrow> money_ok (snd (when_active (locked_operation prec body) k s))"
  using locked_ok [of k s] by (auto simp: when_active_def split: option.splits)

end

text \<open>A transaction the plugin answered, found or written, is of an expected kind and amount.\<close>

lemma create_transaction_answer:
  "tr_is_success (fst (create_transaction p kind data ar (Some r) error b s)) = ga_is_success r"
  "tr_amount (fst (create_transaction p kind data ar (Some r) error b s)) = ga_amount r"
  "ga_kind r = Some k \<Longrightarrow> tr_kind (fst (create_transaction p kind data ar (Some r) error b s)) = k"
  by (simp_all add: create_transaction_def Let_def)

lemma ask_plugin_amount:
  assumes call: "answers_request kinds call" and ask: "ask_plugin call take_over may kind data p s = (p', t, s')"
    and "tr_is_success t"
  shows "tr_kind t \<in> kinds \<and> tr_amount t = pi_amount data"
proof -
  obtain response error where f: "fetch_gateway_response call data = (response, error)" by fastforce
  have r: "call data = Answered r" if "response = Some r" for r
    using f that by (auto simp: fetch_gateway_response_def split: gateway_outcome.splits if_splits)
  have found: "get_already_processed_transaction s1 p1 r = Some t \<Longrightarrow>
      tr_is_success t = ga_is_success r \<and> Some (tr_kind t) = ga_kind r \<and> tr_amount t = ga_amount r" for s1 p1 r
    unfolding get_already_processed_transaction_def by (drule last_found) simp
  obtain p1 s1 ar where g: "get_already_processed_transaction_or_create_new_transaction p1 kind data ar response error s1 = (t, s')"
    using ask f by (auto simp: ask_plugin_def Let_def split: prod.splits)
  show ?thesis
  proof (cases response)
    case None
    with g \<open>tr_is_success t\<close> show ?thesis
      by (auto simp: get_already_processed_transaction_or_create_new_transaction_def create_transaction_def Let_def)
  next
    case (Some r)
    have t: "tr_is_success t = ga_is_success r \<and> tr_amount t = ga_amount r \<and> (\<forall>k. ga_kind r = Some k \<longrightarrow> tr_kind t = k)"
    proof (cases "ga_transaction_already_processed r \<and> get_already_processed_transaction s1 p1 r \<noteq> None")
      case True
      then have "get_already_processed_transaction s1 p1 r = Some t"
        using g Some by (auto simp: get_already_processed_transaction_or_create_new_transaction_def)
      from found [OF this] show ?thesis by auto
    next
      case False
      then have none: "(if ga_transaction_already_processed r then get_already_processed_transaction s1 p1 r else None) = None"
        by simp
      have "create_transaction p1 kind data ar (Some r) error False s1 = (t, s')"
        using g unfolding Some get_already_processed_transaction_or_create_new_transaction_def option.case none .
      then have "t = fst (create_transaction p1 kind data ar (Some r) error False s1)" by simp
      then show ?thesis by (simp add: create_transaction_answer)
    qed
    with \<open>tr_is_success t\<close> have "ga_is_success r" by simp
    with call r [OF Some] have "(\<exists>k \<in> kinds. ga_kind r = Some k) \<and> ga_amount r = pi_amount data"
      by (simp add: answers_request_def)
    with t show ?thesis by auto
  qed
qed

interpretation capture_money: money_function "capture_body call amount customer_id" "\<lambda>_. answers_request {TransactionKind_CAPTURE} call"
  for call amount customer_id
proof (unfold_locales, goal_cases)
  case (1 p s p' t s')
  let ?a = "case amount of None \<Rightarrow> get_charge_amount p | Some a \<Rightarrow> a"
  have clean: "clean_capture p ?a = Inr ()"
    and ask: "ask_plugin call True False TransactionKind_CAPTURE (create_payment_information p
      (Some (get_past_transaction_token s p TransactionKind_AUTH)) (Some ?a) customer_id) p s = (p', t, s')"
    using 1(5) by (auto simp: capture_body_def bindr_def Let_def split: sum.splits)
  from ask_plugin_amount [OF 1(1) ask 1(6)] clean 1(4) show ?case
    by (intro charge_capture) (auto simp: create_payment_information_def clean_capture_def can_capture_def split: if_splits)
qed

interpretation authorize_money: money_function "authorize_body call token customer_id"
    "\<lambda>_. answers_request {TransactionKind_AUTH, TransactionKind_CAPTURE} call"
  for call token customer_id
proof (unfold_locales, goal_cases)
  case (1 p s p' t s')
  have clean: "clean_authorize p = Inr ()"
    and ask: "ask_plugin call True False TransactionKind_AUTH
      (create_payment_information p (Some token) None customer_id) p s = (p', t, s')"
    using 1(5) by (auto simp: authorize_body_def bindr_def split: sum.splits)
  from ask_plugin_amount [OF 1(1) ask 1(6)] have t: "tr_kind t = TransactionKind_AUTH \<or> tr_kind t = TransactionKind_CAPTURE"
    "tr_amount t = pay_total p" by (auto simp: create_payment_information_def)
  have "not_charged p" using clean by (simp add: clean_authorize_def can_authorize_def split: if_splits)
  then show ?case using t 1(4) charge_capture [of p t] charge_nothing [of p t]
    by (auto simp: payment_ok_def [of p])
qed

interpretation refund_money: money_function "refund_body call amount customer_id" "\<lambda>_. answers_request {TransactionKind_REFUND} call"
  for call amount customer_id
proof (unfold_locales, goal_cases)
  case (1 p s p' t s')
  let ?a = "case amount of None \<Rightarrow> pay_captured_amount p | Some a \<Rightarrow> a"
  have valid: "0 < ?a" "?a \<le> pay_captured_amount p"
    using 1(5) by (auto simp: refund_body_def validate_refund_amount_def bindr_def Let_def split: if_splits)
  have "tr_kind t = TransactionKind_REFUND \<and> tr_amount t = ?a"
  proof (cases "is_manual p")
    case True
    then show ?thesis using 1(5) valid
      by (auto simp: refund_body_def bindr_def Let_def create_transaction_def create_payment_information_def
          split: sum.splits if_splits)
  next
    case False
    then obtain data where ask: "ask_plugin call False False TransactionKind_REFUND data p s = (p', t, s')" "pi_amount data = ?a"
      using 1(5) valid by (fastforce simp: refund_body_def bindr_def Let_def create_payment_information_def
          split: sum.splits if_splits)
    from ask_plugin_amount [OF 1(1) ask(1) 1(6)] ask(2) show ?thesis by simp
  qed
  with valid show ?case by (intro charge_refund [OF 1(4)]) auto
qed

interpretation void_money: money_function "void_body call" "\<lambda>_. answers_request {TransactionKind_VOID} call" for call
proof (unfold_locales, goal_cases)
  case (1 p s p' t s')
  then have "ask_plugin call False False TransactionKind_VOID
      (create_payment_information p (Some (get_past_transaction_token s p TransactionKind_AUTH)) None None) p s = (p', t, s')"
    by (simp add: void_body_def)
  from ask_plugin_amount [OF 1(1) this 1(6)] show ?case by (intro charge_nothing [OF 1(4)]) simp
qed

text \<open>
  Processing and confirming do not look at the charge status; for a payment that is not charged they
  charge it, put it under way or leave it.
\<close>

definition settling :: "transaction_kind set" where
  "settling = {TransactionKind_AUTH, TransactionKind_CAPTURE, TransactionKind_PENDING,
     TransactionKind_ACTION_TO_CONFIRM, TransactionKind_CONFIRM}"

lemma settle:
  "payment_ok p \<Longrightarrow> not_charged p \<Longrightarrow> tr_kind t \<in> settling \<Longrightarrow> tr_amount t = pay_total p
    \<Longrightarrow> payment_ok (fst (charged_payment t p))"
  using charge_capture [of p t] charge_nothing [of p t] by (auto simp: settling_def payment_ok_def [of p])

interpretation process_money: money_function "process_body call token customer_id"
    "\<lambda>p. answers_request settling call \<and> not_charged p"
  for call token customer_id
proof (unfold_locales, goal_cases)
  case (1 p s p' t s')
  then have "ask_plugin call True True TransactionKind_CAPTURE
      (create_payment_information p (Some token) None customer_id) p s = (p', t, s')"
    by (simp add: process_body_def)
  from ask_plugin_amount [OF _ this 1(6)] 1(1) show ?case
    by (intro settle [OF 1(4)]) (auto simp: create_payment_information_def)
qed

interpretation confirm_money: money_function "confirm_body call" "\<lambda>p. answers_request settling call \<and> not_charged p" for call
proof (unfold_locales, goal_cases)
  case (1 p s p' t s')
  then obtain token where "ask_plugin call True True TransactionKind_CONFIRM
      (create_payment_information p (Some token) None None) p s = (p', t, s')"
    by (auto simp: confirm_body_def Let_def)
  from ask_plugin_amount [OF _ this 1(6)] 1(1) show ?case
    by (intro settle [OF 1(4)]) (auto simp: create_payment_information_def)
qed

subsection \<open>Capturing twice\<close>

lemma postprocessed_transaction:
  assumes "tr_is_success t" "\<not> tr_action_required t" "pay_wf s" "t \<in> set (pd_transactions s)"
    "row_of tr_pk (tr_pk t) (pd_transactions (gateway_postprocess prec t p s)) = Some t'"
  shows "tr_already_processed t'"
proof (cases "tr_already_processed t")
  case True
  then have "gateway_postprocess prec t p s = s" by (simp add: gateway_postprocess_def)
  then have "t' \<in> set (pd_transactions s)" "tr_pk t' = tr_pk t" using assms(5) by (metis row_of_SomeD)+
  then have "t' = t" using assms(3,4) by (auto simp: pay_wf_def distinct_map inj_on_def)
  then show ?thesis using True by simp
next
  case False
  then have "pd_transactions (gateway_postprocess prec t p s)
      = map (\<lambda>u. if tr_pk u = tr_pk t then u\<lparr>tr_already_processed := True\<rparr> else u) (pd_transactions s)"
    using assms(1,2) by (simp add: gateway_postprocess_def update_payment_charge_status_frame save_transaction_def save_row_def)
  then have "t' \<in> (\<lambda>u. if tr_pk u = tr_pk t then u\<lparr>tr_already_processed := True\<rparr> else u) ` set (pd_transactions s)"
    "tr_pk t' = tr_pk t"
    using row_of_SomeD [OF assms(5)] by auto
  then show ?thesis by (auto split: if_splits)
qed

lemma answered_transaction: "answered_for s p p' t s' \<Longrightarrow> t \<in> set (pd_transactions s')"
  by (auto simp: answered_for_def)

text \<open>The outer decorator of \<open>capture\<close> changes nothing but the \<open>to_confirm\<close> mark.\<close>

lemma locked_success:
  assumes "locked_operation prec body k s = (Inr t, s2)"
  obtains p p' s' where "row_of pay_pk k (pd_payments s) = Some p" "body p s = Inr (p', t, s')" "tr_is_success t"
    "s2 = gateway_postprocess prec t p' s'"
  using assms that by (auto simp: locked_operation_def split: option.splits sum.splits prod.splits if_splits)

lemma confirm_twice:
  "save_payment k (\<lambda>p. p\<lparr>gp_to_confirm := True\<rparr>) (save_payment k (\<lambda>p. p\<lparr>gp_to_confirm := True\<rparr>) s)
    = save_payment k (\<lambda>p. p\<lparr>gp_to_confirm := True\<rparr>) s"
  by (simp add: save_payment_def save_row_def comp_def)

lemma transaction_row:
  "pay_wf s \<Longrightarrow> t \<in> set (pd_transactions s) \<Longrightarrow> row_of tr_pk (tr_pk t) (pd_transactions s) = Some t"
  by (simp add: pay_wf_def row_of_eq_Some)

context payment_function
begin

lemma again_nothing:
  assumes wf: "pay_wf s" and run: "locked_operation prec body k s = (Inr t, s2)"
  shows "postprocess_again prec t s2 = s2"
proof (cases "row_of tr_pk (tr_pk t) (pd_transactions s2)")
  case None
  then show ?thesis by (simp add: postprocess_again_def)
next
  case t': (Some t')
  from locked_success [OF run] obtain p p' s' where r: "row_of pay_pk k (pd_payments s) = Some p" "body p s = Inr (p', t, s')"
    "tr_is_success t" and s2: "s2 = gateway_postprocess prec t p' s'" by metis
  have row: "payment_row s p" using r(1) by (metis payment_row_def row_of_SomeD)
  note a = answered [OF wf row r(2)]
  from answered_row [OF a wf row] have wf': "pay_wf s'" and pk: "pay_pk p' = pay_pk p" by (auto simp: same_payment_def)
  have mem: "t \<in> set (pd_transactions s')" and tp: "tr_payment t = pay_pk p"
    using answered_transaction [OF a] a by (auto simp: answered_for_def)
  show ?thesis
  proof (cases "tr_action_required t \<and> \<not> tr_already_processed t")
    case False
    then have "tr_already_processed t'"
    proof (cases "tr_already_processed t")
      case True
      then have "s2 = s'" by (simp add: s2 gateway_postprocess_def)
      then show ?thesis using t' transaction_row [OF wf' mem] True by simp
    next
      case 2: False
      with False have "\<not> tr_action_required t" by simp
      from postprocessed_transaction [OF r(3) this wf' mem] show ?thesis using t' by (simp add: s2)
    qed
    then show ?thesis using t' by (simp add: postprocess_again_def gateway_postprocess_def split: option.splits)
  next
    case True
    then have s2: "s2 = save_payment (pay_pk p) (\<lambda>p. p\<lparr>gp_to_confirm := True\<rparr>) s'"
      using r(3) by (simp add: s2 gateway_postprocess_def pk)
    then have "t' = t" using t' transaction_row [OF wf' mem] by simp
    then have "postprocess_again prec t s2 = (case row_of pay_pk (pay_pk p) (pd_payments s2) of
        Some q \<Rightarrow> save_payment (pay_pk q) (\<lambda>p. p\<lparr>gp_to_confirm := True\<rparr>) s2 | None \<Rightarrow> s2)"
      using t' True r(3) by (simp add: postprocess_again_def gateway_postprocess_def tp split: option.splits)
    also have "\<dots> = s2"
      by (auto simp: s2 confirm_twice dest: row_of_SomeD split: option.splits)
    finally show ?thesis .
  qed
qed

end

lemma capture_once:
  assumes "pay_wf s"
  shows "capture_payment prec call amount customer_id k s
    = when_active (locked_operation prec (capture_body call amount customer_id)) k s"
proof (cases "when_active (locked_operation prec (capture_body call amount customer_id)) k s")
  case (Pair r s2)
  show ?thesis
  proof (cases r)
    case (Inl e)
    then show ?thesis by (simp add: capture_payment_def Pair)
  next
    case (Inr t)
    then have "locked_operation prec (capture_body call amount customer_id) k s = (Inr t, s2)"
      using Pair by (auto simp: when_active_def split: option.splits if_splits)
    from captured.again_nothing [OF assms this] Inr show ?thesis by (simp add: capture_payment_def Pair)
  qed
qed

text \<open>
  C35: a successful capture adds the amount of its transaction to the payment once, although two
  decorators process the transaction, and leaves the captured amounts of all other payments
\<close>

theorem capture_counts_once:
  assumes wf: "pay_wf s" and run: "capture_payment prec call amount customer_id k s = (Inr t, s')"
    and new: "t \<notin> set (pd_transactions s)" and kind: "tr_kind t = TransactionKind_CAPTURE" "\<not> tr_action_required t"
  shows "map (\<lambda>q. (pay_pk q, pay_captured_amount q)) (pd_payments s')
    = map (\<lambda>q. (pay_pk q, pay_captured_amount q + (if pay_pk q = k then tr_amount t else 0))) (pd_payments s)"
proof -
  have "locked_operation prec (capture_body call amount customer_id) k s = (Inr t, s')"
    using run capture_once [OF wf] by (auto simp: when_active_def split: option.splits if_splits)
  from locked_success [OF this] obtain p p' s1 where r: "row_of pay_pk k (pd_payments s) = Some p"
    "capture_body call amount customer_id p s = Inr (p', t, s1)" "tr_is_success t"
    and s': "s' = gateway_postprocess prec t p' s1" by metis
  have row: "payment_row s p" and k: "pay_pk p = k" using r(1) by (metis payment_row_def row_of_SomeD)+
  note a = captured.answered [OF wf row r(2)]
  from answered_row [OF a wf row] have same: "same_payment p' p"
    and rows: "pd_payments s1 = pd_payments (save_payment (pay_pk p) (\<lambda>_. p') s)" by auto
  have "\<not> tr_already_processed t" using a new by (auto simp: answered_for_def)
  then have "pd_payments s' = pd_payments (save_payment k (\<lambda>_. fst (charged_payment t (p'\<lparr>gp_to_confirm := False\<rparr>))) s1)"
    using r(3) kind(2) same k
    by (simp add: s' gateway_postprocess_def update_payment_charge_status_frame same_payment_def)
  also have "\<dots> = map (\<lambda>q. if pay_pk q = k then fst (charged_payment t (p'\<lparr>gp_to_confirm := False\<rparr>)) else q) (pd_payments s)"
    using same k by (simp add: rows save_payment_def save_row_def same_payment_def)
  finally have "pd_payments s' = map (\<lambda>q. if pay_pk q = k then fst (charged_payment t (p'\<lparr>gp_to_confirm := False\<rparr>)) else q) (pd_payments s)" .
  moreover have "pay_captured_amount (fst (charged_payment t (p'\<lparr>gp_to_confirm := False\<rparr>))) = pay_captured_amount p + tr_amount t"
    using kind(1) same by (simp add: charged_payment_def same_payment_def Let_def)
  ultimately show ?thesis
    using payment_row_unique [OF wf row] k same by (auto simp: same_payment_def)
qed

lemma capture_counts_once_witness:
  "map (\<lambda>q. (pay_pk q, pay_captured_amount q)) (pd_payments half_captured) = [(3, 40)]"
proof -
  obtain r where run: "capture_payment (\<lambda>_. 2) (obliging TransactionKind_CAPTURE) (Some 40) None 3 pay_example = (r, half_captured)"
    by (metis half_captured_def prod.collapse)
  have "map_sum id (\<lambda>t. (tr_kind t, tr_action_required t, tr_amount t)) (fst (capture_payment (\<lambda>_. 2)
      (obliging TransactionKind_CAPTURE) (Some 40) None 3 pay_example)) = Inr (TransactionKind_CAPTURE, False, 40)"
    by (simp add: pay_example_def pay_run Let_def)
  with run obtain t where t: "r = Inr t" "tr_kind t = TransactionKind_CAPTURE" "\<not> tr_action_required t" "tr_amount t = 40"
    by (cases r) auto
  have "pay_wf pay_example" by code_simp
  from capture_counts_once [OF this run [unfolded t(1)] _ t(2,3)] show ?thesis
    by (simp add: t(4) pay_example_def)
qed

subsection \<open>Histories with plugins that answer what they are asked\<close>

lemma refund_or_void_ok:
  assumes "answers_request {TransactionKind_REFUND} rc" "answers_request {TransactionKind_VOID} vc" "pay_wf s" "money_ok s"
  shows "money_ok (snd (payment_refund_or_void prec rc vc k tid s))"
  using refund_money.locked_ok [of k s rc prec None None] void_money.locked_ok [of k s vc prec] assms
  by (auto simp: payment_refund_or_void_def refund_payment_of_def void_payment_def split: option.splits prod.splits)

lemma capture_ok:
  assumes "answers_request {TransactionKind_CAPTURE} call" "pay_wf s" "money_ok s"
  shows "money_ok (snd (capture_payment prec call amount customer_id k s))"
  unfolding capture_once [OF assms(2)] by (rule capture_money.when_active_ok [OF _ assms(2,3)]) (rule assms(1))

lemma mark_as_paid_ok:
  assumes "pay_wf s" and ok: "money_ok s" and clean: "clean_mark_order_as_paid k s = Inr ()"
    and marked: "mark_order_as_paid_with_payment prec billed ref k s = Inr s'"
  shows "money_ok s'"
proof (cases rule: mark_as_paid_result [OF assms(1) clean marked])
  case (1 ord p t s2)
  have "ord \<in> set (pd_orders s)" using 1(1) by (blast dest: row_of_SomeD)
  then have "0 \<le> order_total_gross_amount ord" using ok by (simp add: money_ok_def)
  with 1(6,7,8) have "payment_ok p" by (simp add: payment_ok_def)
  moreover have "pd_payments s' = pd_payments s @ [p]"
    using 1(2) by (simp add: 1(3) update_order_charge_data_def)
  moreover have "map order_total_gross_amount (pd_orders s') = map order_total_gross_amount (pd_orders s)"
    using 1(2) by (simp add: 1(3))
  ultimately show ?thesis using ok gross_ok [of s' s] by (auto simp: money_ok_def)
qed

inductive settled_step :: "(string \<Rightarrow> nat) \<Rightarrow> pay_db \<Rightarrow> pay_db \<Rightarrow> bool" for prec :: "string \<Rightarrow> nat" where
  process: "answers_request settling call \<Longrightarrow> (\<And>p. row_of pay_pk k (pd_payments s) = Some p \<Longrightarrow> not_charged p)
    \<Longrightarrow> settled_step prec s (snd (process_gateway_payment prec call token customer_id k s))"
| confirm: "answers_request settling call \<Longrightarrow> (\<And>p. row_of pay_pk k (pd_payments s) = Some p \<Longrightarrow> not_charged p)
    \<Longrightarrow> settled_step prec s (snd (confirm_payment prec call k s))"
| authorize: "answers_request {TransactionKind_AUTH, TransactionKind_CAPTURE} call
    \<Longrightarrow> settled_step prec s (snd (authorize_payment prec call token customer_id k s))"
| capture: "answers_request {TransactionKind_CAPTURE} call
    \<Longrightarrow> settled_step prec s (snd (capture_payment prec call amount customer_id k s))"
| refund: "answers_request {TransactionKind_REFUND} call
    \<Longrightarrow> settled_step prec s (snd (refund_payment_of prec call amount customer_id k s))"
| void: "answers_request {TransactionKind_VOID} call \<Longrightarrow> settled_step prec s (snd (void_payment prec call k s))"
| refund_or_void: "answers_request {TransactionKind_REFUND} rc \<Longrightarrow> answers_request {TransactionKind_VOID} vc
    \<Longrightarrow> settled_step prec s (snd (payment_refund_or_void prec rc vc k tid s))"
| mark_paid: "clean_mark_order_as_paid k s = Inr () \<Longrightarrow>
    mark_order_as_paid_with_payment prec billed reference k s = Inr s' \<Longrightarrow> settled_step prec s s'"

lemma settled_pay_step: "settled_step prec s s' \<Longrightarrow> pay_step prec s s'"
  by (induction rule: settled_step.induct) (auto intro: pay_step.intros)

lemma settled_step_ok: "settled_step prec s s' \<Longrightarrow> pay_wf s \<Longrightarrow> money_ok s \<Longrightarrow> money_ok s'"
proof (induction rule: settled_step.induct)
  case (process call k s token customer_id)
  then show ?case unfolding process_gateway_payment_def by (intro process_money.when_active_ok) auto
next
  case (confirm call k s)
  then show ?case unfolding confirm_payment_def by (intro confirm_money.when_active_ok) auto
next
  case (authorize call s token customer_id k)
  then show ?case unfolding authorize_payment_def by (intro authorize_money.when_active_ok) auto
next
  case (capture call s amount customer_id k)
  then show ?case by (intro capture_ok)
next
  case (refund call s amount customer_id k)
  then show ?case unfolding refund_payment_of_def by (intro refund_money.locked_ok) auto
next
  case (void call s k)
  then show ?case unfolding void_payment_def by (intro void_money.locked_ok) auto
next
  case (refund_or_void rc vc s k tid)
  then show ?case by (intro refund_or_void_ok)
next
  case (mark_paid k s billed reference s')
  show ?case by (rule mark_as_paid_ok [OF mark_paid(3,4,1,2)])
qed

lemma settled_steps_ok:
  assumes "(settled_step prec)\<^sup>*\<^sup>* s s'" "pay_wf s" "books_synced prec s" "money_ok s"
  shows "pay_wf s' \<and> books_synced prec s' \<and> money_ok s'"
  using assms(1)
proof (induction rule: rtranclp_induct)
  case base
  then show ?case using assms by simp
next
  case (step t u)
  then show ?case using settled_step_ok [OF step(2)] pay_step_keeps [OF settled_pay_step [OF step(2)]] by simp
qed

text \<open>
  C3: with plugins that answer the request they got, and processing and confirming only
  uncharged payments, no payment ever holds less than nothing or more than its total, its charge
  status says what it holds, and an order without transaction items is never charged more than
  its payments' totals
\<close>

theorem captured_within_total:
  assumes steps: "(settled_step prec)\<^sup>*\<^sup>* s s'" and start: "pay_wf s" "books_synced prec s" "money_ok s"
    and p: "p \<in> set (pd_payments s')" and ord: "ord \<in> set (pd_orders s')" "items_of_order s' (order_pk ord) = []"
  shows "0 \<le> pay_captured_amount p \<and> pay_captured_amount p \<le> pay_total p
    \<and> (not_charged p \<longrightarrow> pay_captured_amount p = 0)
    \<and> (pay_charge_status p = ChargeStatus_FULLY_CHARGED \<longrightarrow> pay_captured_amount p = pay_total p)
    \<and> 0 \<le> order_total_charged_amount ord
    \<and> order_total_charged_amount ord \<le> sum_rows pay_total (payments_of_order s' (order_pk ord))"
proof -
  note ok = settled_steps_ok [OF steps start]
  then have p_ok: "payment_ok p" using p by (simp add: money_ok_def)
  have each: "\<forall>q \<in> set (payments_of_order s' k). 0 \<le> pay_captured_amount q \<and> pay_captured_amount q \<le> pay_total q" for k
    using ok by (auto simp: money_ok_def payments_of_order_def payment_ok_def)
  have "order_total_charged_amount ord = sum_rows pay_captured_amount (payments_of_order s' (order_pk ord))"
    using ok ord by (simp add: books_synced_def charge_data_fix charged_total_def sum_rows_def)
  moreover have "sum_rows pay_captured_amount ps \<le> sum_rows pay_total ps \<and> 0 \<le> sum_rows pay_captured_amount ps"
    if "\<forall>q \<in> set ps. 0 \<le> pay_captured_amount q \<and> pay_captured_amount q \<le> pay_total q" for ps :: "gateway_payment list"
    using that by (induction ps) (auto simp: sum_rows_def)
  ultimately show ?thesis using p_ok each by (simp add: payment_ok_def not_charged_def)
qed

lemma captured_within_total_witness:
  "list_all (\<lambda>p. pay_captured_amount p \<le> pay_total p) (pd_payments half_captured)"
  unfolding list_all_iff
proof
  fix p assume p: "p \<in> set (pd_payments half_captured)"
  have call: "answers_request {TransactionKind_CAPTURE} (obliging TransactionKind_CAPTURE)"
    by (auto simp: answers_request_def obliging_def)
  then have steps: "(settled_step (\<lambda>_. 2))\<^sup>*\<^sup>* pay_example half_captured"
    unfolding half_captured_def by (intro r_into_rtranclp settled_step.capture)
  have start: "pay_wf pay_example" "books_synced (\<lambda>_. 2) pay_example" "money_ok pay_example" by code_simp+
  obtain ord where "ord \<in> set (pd_orders half_captured)"
    using half_captured_run(4) by (cases "pd_orders half_captured") auto
  from captured_within_total [OF steps start p this] half_captured_run(3) show "pay_captured_amount p \<le> pay_total p"
    by (simp add: items_of_order_def)
qed

end
