(* ===== verification/Fulfilment.thy ===== *)
theory Fulfilment
  imports Stock Payments
begin

section \<open>Fulfilling, refunding, returning and cancelling orders\<close>

text \<open>
  The fulfilment part of \<^verbatim>\<open>order/actions.py\<close> and \<^verbatim>\<open>order/utils.py\<close>, and the checks of the mutations
  that call it. An order line has a quantity and how much of it is in fulfilments; a fulfilment has
  lines with pieces of order lines, each with the stock they come from.

  The database joins the warehouse, the payments and the fulfilments. The status of an order is one
  column that both the warehouse's and the payments' view of the table hold; \<open>save_order_status\<close> writes
  both. \<open>django\<close> holds the \<open>bulk_update\<close> of the three tables that are written with it. Objects that
  the code hands from one function to another are the rows themselves: an order line or a fulfilment
  line is one object during an operation, so its quantities are those of its row. Order events are kept
  with their kind and order only; customer notifications, webhooks, digital content and gift cards are
  left out.
\<close>

subsection \<open>Rows\<close>

record fulfillment =
  ff_pk :: nat
  ff_fulfillment_order :: nat
  ff_order :: nat
  ff_status :: fulfillment_status
  ff_tracking_number :: string
  ff_shipping_refund_amount :: "decimal option"
  ff_total_refund_amount :: "decimal option"

record fulfillment_line =
  fl_pk :: nat
  fl_order_line :: nat
  fl_fulfillment :: nat
  fl_quantity :: int
  fl_stock :: "nat option"

record shop_db =
  sh_stock :: stock_db
  sh_pay :: pay_db
  sh_fulfillments :: "fulfillment list"
  sh_fulfillment_lines :: "fulfillment_line list"
  sh_line_sequence :: nat
  sh_events :: "(nat \<times> order_events) list"
  sh_circulated_currency :: decimal
  sh_circulated_items :: int

text \<open>\<open>OrderLineInfo\<close> and \<open>FulfillmentLineData\<close>, as far as moving lines needs them.\<close>

record order_line_info =
  oi_line :: nat
  oi_quantity :: int
  oi_replace :: bool

record fulfillment_line_data =
  fd_line :: nat
  fd_quantity :: int
  fd_replace :: bool

record django =
  dj_stocks :: stock_bulk_update
  dj_order_lines :: "(nat \<times> (order_line \<Rightarrow> order_line)) list \<Rightarrow> order_line list \<Rightarrow> order_line list"
  dj_fulfillment_lines :: "(nat \<times> (fulfillment_line \<Rightarrow> fulfillment_line)) list \<Rightarrow> fulfillment_line list \<Rightarrow> fulfillment_line list"

datatype shop_error =
    StockError stock_error
  | PayError pay_error
  | RowMissing
  | NoFulfillment
  | NoPayment
  | StockIsNone
  | UserIsNone
  | NegativeQuantity
  | Invalid string

type_synonym 'a shop_run = "(shop_error + 'a) \<times> shop_db"

text \<open>A transaction that raises is rolled back.\<close>

definition atomic :: "shop_db \<Rightarrow> shop_error + 'a \<times> shop_db \<Rightarrow> 'a shop_run" where
  "atomic s r = (case r of Inl e \<Rightarrow> (Inl e, s) | Inr (a, t) \<Rightarrow> (Inr a, t))"

definition on_stock :: "(stock_db \<Rightarrow> stock_error + stock_db) \<Rightarrow> shop_db \<Rightarrow> shop_error + shop_db" where
  "on_stock f s = (case f (sh_stock s) of Inl e \<Rightarrow> Inl (StockError e) | Inr t \<Rightarrow> Inr (s\<lparr>sh_stock := t\<rparr>))"

definition log_event :: "nat \<Rightarrow> order_events \<Rightarrow> shop_db \<Rightarrow> shop_db" where
  "log_event k e s = s\<lparr>sh_events := sh_events s @ [(k, e)]\<rparr>"

definition fulfillments_of :: "nat \<Rightarrow> shop_db \<Rightarrow> fulfillment list" where
  "fulfillments_of k s = filter (\<lambda>f. ff_order f = k) (sh_fulfillments s)"

definition lines_in :: "nat \<Rightarrow> shop_db \<Rightarrow> fulfillment_line list" where
  "lines_in k s = filter (\<lambda>l. fl_fulfillment l = k) (sh_fulfillment_lines s)"

definition order_lines_of :: "nat \<Rightarrow> stock_db \<Rightarrow> order_line list" where
  "order_lines_of k s = filter (\<lambda>l. ol_order l = k) (sd_order_lines s)"

definition variant_of :: "stock_db \<Rightarrow> order_line \<Rightarrow> variant option" where
  "variant_of s l = (case ol_variant l of None \<Rightarrow> None | Some v \<Rightarrow> row_of va_pk v (sd_variants s))"

definition quantity_unfulfilled :: "order_line \<Rightarrow> int" where
  "quantity_unfulfilled l = ol_quantity l - ol_quantity_fulfilled l"

subsection \<open>The status of an order\<close>

text \<open>\<open>str.find\<close>: the index of the first occurrence, or -1.\<close>

definition py_find :: "string \<Rightarrow> string \<Rightarrow> int" where
  "py_find text sub = (case filter (\<lambda>i. take (length sub) (drop i text) = sub) [0..<Suc (length text)] of
     [] \<Rightarrow> -1 | i # _ \<Rightarrow> int i)"

definition in_shared_channel :: "string \<Rightarrow> bool" where
  "in_shared_channel slug \<longleftrightarrow> py_find slug ''shared'' > 0"

definition get_total_quantity :: "shop_db \<Rightarrow> fulfillment \<Rightarrow> int" where
  "get_total_quantity s f = sum_rows fl_quantity (lines_in (ff_pk f) s)"

definition calculate_quantity_including_returns :: "nat \<Rightarrow> shop_db \<Rightarrow> int \<times> int \<times> int" where
  "calculate_quantity_including_returns k s =
     (let order_lines = order_lines_of k (sh_stock s);
          total_quantity = sum_rows ol_quantity order_lines;
          quantity_fulfilled = sum_rows ol_quantity_fulfilled order_lines;
          quantity_returned = sum_rows (get_total_quantity s) (filter (\<lambda>f. ff_status f \<in>
              {FulfillmentStatus_RETURNED, FulfillmentStatus_REFUNDED_AND_RETURNED}) (fulfillments_of k s));
          quantity_replaced = sum_rows (get_total_quantity s) (filter (\<lambda>f. ff_status f =
              FulfillmentStatus_REPLACED) (fulfillments_of k s))
      in (total_quantity - quantity_replaced, quantity_fulfilled - quantity_replaced, quantity_returned))"

definition new_order_status :: "bool \<Rightarrow> order_status \<Rightarrow> int \<Rightarrow> int \<Rightarrow> int \<Rightarrow> bool \<Rightarrow> order_status" where
  "new_order_status shared status total_quantity quantity_fulfilled quantity_returned awaiting_approval =
     (if shared
      then if total_quantity = 0 then status
           else if quantity_fulfilled \<le> 0 then OrderStatus_UNFULFILLED
           else if quantity_returned = total_quantity then OrderStatus_RETURNED
           else if quantity_fulfilled < total_quantity \<or> awaiting_approval then OrderStatus_PARTIALLY_FULFILLED
           else OrderStatus_LEASED
      else if total_quantity = 0 then status
           else if quantity_fulfilled \<le> 0 then OrderStatus_UNFULFILLED
           else if 0 < quantity_returned \<and> quantity_returned < total_quantity then OrderStatus_PARTIALLY_RETURNED
           else if quantity_returned = total_quantity then OrderStatus_RETURNED
           else if quantity_fulfilled < total_quantity \<or> awaiting_approval then OrderStatus_PARTIALLY_FULFILLED
           else OrderStatus_FULFILLED)"

definition save_order_status :: "nat \<Rightarrow> order_status \<Rightarrow> shop_db \<Rightarrow> shop_db" where
  "save_order_status k status s =
     s\<lparr>sh_stock := (sh_stock s)\<lparr>sd_orders := save_row oh_pk k (\<lambda>h. h\<lparr>oh_status := status\<rparr>) (sd_orders (sh_stock s))\<rparr>,
       sh_pay := save_order k (\<lambda>ord. ord\<lparr>order_status := status\<rparr>) (sh_pay s)\<rparr>"

definition update_order_status :: "nat \<Rightarrow> shop_db \<Rightarrow> shop_db" where
  "update_order_status k s =
     (case row_of oh_pk k (sd_orders (sh_stock s)) of
        None \<Rightarrow> s
      | Some head \<Rightarrow>
         (case calculate_quantity_including_returns k s of (total_quantity, quantity_fulfilled, quantity_returned) \<Rightarrow>
            let awaiting_approval = (\<exists>f \<in> set (fulfillments_of k s). ff_status f = FulfillmentStatus_WAITING_FOR_APPROVAL);
                status = new_order_status (in_shared_channel (oh_channel_slug head)) (oh_status head)
                  total_quantity quantity_fulfilled quantity_returned awaiting_approval
            in if status \<noteq> oh_status head then save_order_status k status s else s))"

subsection \<open>Creating fulfilments\<close>

definition decrease_stocks :: "django \<Rightarrow> datetime \<Rightarrow> line_info list \<Rightarrow> bool \<Rightarrow> shop_db \<Rightarrow> shop_error + shop_db" where
  "decrease_stocks dj now order_lines_info allow_stock_to_be_exceeded s =
     (let lines_to_decrease_stock = get_order_lines_with_track_inventory now order_lines_info
      in if lines_to_decrease_stock = [] then Inr s
         else on_stock (decrease_stock (dj_stocks dj) lines_to_decrease_stock True allow_stock_to_be_exceeded) s)"

definition fulfilled_of :: "stock_db \<Rightarrow> nat \<Rightarrow> int" where
  "fulfilled_of s k = (case row_of ol_pk k (sd_order_lines s) of None \<Rightarrow> 0 | Some l \<Rightarrow> ol_quantity_fulfilled l)"

text \<open>Writing the quantities that the line objects \<open>ks\<close> carry; \<open>m\<close> is what each object holds.\<close>

definition update_fulfilled :: "django \<Rightarrow> nat list \<Rightarrow> (nat \<Rightarrow> int) \<Rightarrow> shop_db \<Rightarrow> shop_db" where
  "update_fulfilled dj ks m s = s\<lparr>sh_stock := (sh_stock s)\<lparr>sd_order_lines :=
     dj_order_lines dj (map (\<lambda>k. (k, \<lambda>l. l\<lparr>ol_quantity_fulfilled := m k\<rparr>)) ks) (sd_order_lines (sh_stock s))\<rparr>\<rparr>"

definition increase_order_line_quantity :: "django \<Rightarrow> line_info list \<Rightarrow> shop_db \<Rightarrow> shop_db" where
  "increase_order_line_quantity dj order_lines_info s =
     update_fulfilled dj (map li_line order_lines_info)
       (fold (\<lambda>i m. m(li_line i := m (li_line i) + li_quantity i)) order_lines_info (fulfilled_of (sh_stock s))) s"

definition fulfill_order_lines :: "django \<Rightarrow> datetime \<Rightarrow> line_info list \<Rightarrow> bool \<Rightarrow> shop_db \<Rightarrow> shop_error + shop_db" where
  "fulfill_order_lines dj now order_lines_info allow_stock_to_be_exceeded s =
     bindr (decrease_stocks dj now order_lines_info allow_stock_to_be_exceeded s)
       (\<lambda>s. Inr (increase_order_line_quantity dj order_lines_info s))"

text \<open>\<open>Fulfillment.save\<close> numbers the fulfilments of an order.\<close>

definition next_fulfillment_pk :: "shop_db \<Rightarrow> nat" where
  "next_fulfillment_pk s = Suc (sum_list (map ff_pk (sh_fulfillments s)))"

definition next_fulfillment_order :: "nat \<Rightarrow> shop_db \<Rightarrow> nat" where
  "next_fulfillment_order k s =
     (case map ff_fulfillment_order (fulfillments_of k s) of [] \<Rightarrow> 1 | ns \<Rightarrow> Max (set ns) + 1)"

definition create_fulfillment ::
    "nat \<Rightarrow> fulfillment_status \<Rightarrow> string \<Rightarrow> decimal option \<Rightarrow> decimal option \<Rightarrow> shop_db \<Rightarrow> nat \<times> shop_db" where
  "create_fulfillment k status tracking_number total_refund_amount shipping_refund_amount s =
     (next_fulfillment_pk s, s\<lparr>sh_fulfillments := sh_fulfillments s @
        [\<lparr>ff_pk = next_fulfillment_pk s, ff_fulfillment_order = next_fulfillment_order k s, ff_order = k,
          ff_status = status, ff_tracking_number = tracking_number,
          ff_shipping_refund_amount = shipping_refund_amount, ff_total_refund_amount = total_refund_amount\<rparr>]\<rparr>)"

text \<open>
  Unsaved lines: the order line, the fulfilment, the quantity and the stock. \<open>quantity\<close> is a
  \<open>PositiveIntegerField\<close>: the database refuses negative numbers. Keys come from the table's sequence and are
  not used again.
\<close>

type_synonym new_line = "nat \<times> nat \<times> int \<times> nat option"

fun fulfillment_line_rows :: "nat \<Rightarrow> new_line list \<Rightarrow> fulfillment_line list" where
  "fulfillment_line_rows k [] = []"
| "fulfillment_line_rows k ((ol, f, q, st) # news) =
     \<lparr>fl_pk = k, fl_order_line = ol, fl_fulfillment = f, fl_quantity = q, fl_stock = st\<rparr>
       # fulfillment_line_rows (Suc k) news"

definition fulfillment_line_bulk_create :: "new_line list \<Rightarrow> shop_db \<Rightarrow> shop_error + fulfillment_line list \<times> shop_db" where
  "fulfillment_line_bulk_create news s =
     (if \<exists>(_, _, q, _) \<in> set news. q < 0 then Inl NegativeQuantity
      else let rows = fulfillment_line_rows (sh_line_sequence s) news
           in Inr (rows, s\<lparr>sh_fulfillment_lines := sh_fulfillment_lines s @ rows,
                            sh_line_sequence := sh_line_sequence s + length news\<rparr>))"

text \<open>The lines of one warehouse: what is lacking, what to take from the stocks, what to write.\<close>

fun fulfillment_lines_loop ::
    "(nat \<Rightarrow> nat option) \<Rightarrow> bool \<Rightarrow> nat \<Rightarrow> nat \<Rightarrow> (order_line \<times> variant option \<times> int) list
      \<Rightarrow> insufficient list \<times> line_info list \<times> new_line list" where
  "fulfillment_lines_loop first_stock exceed warehouse f [] = ([], [], [])"
| "fulfillment_lines_loop first_stock exceed warehouse f ((order_line, variant, quantity) # lines) =
     (case fulfillment_lines_loop first_stock exceed warehouse f lines of (insufficient_stocks, infos, news) \<Rightarrow>
      if quantity > 0
      then (let stock = (case variant of None \<Rightarrow> None | Some v \<Rightarrow> first_stock (va_pk v))
            in if stock = None \<and> \<not> exceed
               then (\<lparr>is_available_quantity = 0, is_variant = map_option va_pk variant,
                       is_order_line = Some (ol_pk order_line), is_warehouse = Some warehouse\<rparr> # insufficient_stocks,
                     infos, news)
               else (insufficient_stocks,
                     \<lparr>li_line = ol_pk order_line, li_variant = variant, li_quantity = quantity,
                       li_warehouse = Some warehouse\<rparr> # infos,
                     (ol_pk order_line, f, quantity, stock) # news))
      else (insufficient_stocks, infos, news))"

text \<open>The line objects of the input with their variants.\<close>

fun order_lines_data :: "stock_db \<Rightarrow> (nat \<times> int) list \<Rightarrow> shop_error + (order_line \<times> variant option \<times> int) list" where
  "order_lines_data s [] = Inr []"
| "order_lines_data s ((k, q) # lines) =
     (case row_of ol_pk k (sd_order_lines s) of
        None \<Rightarrow> Inl RowMissing
      | Some l \<Rightarrow> bindr (order_lines_data s lines) (\<lambda>rest. Inr ((l, variant_of s l, q) # rest)))"

definition create_fulfillment_lines ::
    "django \<Rightarrow> datetime \<Rightarrow> nat \<Rightarrow> nat \<Rightarrow> (nat \<times> int) list \<Rightarrow> string \<Rightarrow> bool \<Rightarrow> bool \<Rightarrow> shop_db
      \<Rightarrow> shop_error + new_line list \<times> shop_db" where
  "create_fulfillment_lines dj now f warehouse lines_data channel_slug decrease exceed s =
     bindr (order_lines_data (sh_stock s) lines_data) (\<lambda>lines.
       let variants = map va_pk (List.map_filter (\<lambda>(_, v, _). v) lines);
           stocks = filter (\<lambda>st. st_warehouse st = warehouse \<and> st_variant st \<in> set variants)
             (for_channel_and_country channel_slug None False (sh_stock s));
           first_stock = (\<lambda>v. map_option st_pk (find (\<lambda>st. st_variant st = v) stocks))
       in case fulfillment_lines_loop first_stock exceed warehouse f lines of
            (insufficient_stocks, infos, news) \<Rightarrow>
              if insufficient_stocks \<noteq> [] then Inl (StockError (InsufficientStock insufficient_stocks))
              else if infos = [] then Inr (news, s)
              else bindr (if decrease then decrease_stocks dj now infos exceed s else Inr s)
                (\<lambda>s. Inr (news, increase_order_line_quantity dj infos s)))"

fun fulfil_warehouses ::
    "django \<Rightarrow> datetime \<Rightarrow> nat \<Rightarrow> string \<Rightarrow> fulfillment_status \<Rightarrow> string \<Rightarrow> bool \<Rightarrow> bool
      \<Rightarrow> (nat \<times> (nat \<times> int) list) list \<Rightarrow> shop_db \<Rightarrow> shop_error + (nat list \<times> new_line list) \<times> shop_db" where
  "fulfil_warehouses dj now k slug status tracking approved exceed [] s = Inr (([], []), s)"
| "fulfil_warehouses dj now k slug status tracking approved exceed ((warehouse, lines_data) # rest) s =
     (case create_fulfillment k status tracking None None s of (f, s) \<Rightarrow>
        bindr (create_fulfillment_lines dj now f warehouse lines_data slug approved exceed s) (\<lambda>(news, s).
        bindr (fulfil_warehouses dj now k slug status tracking approved exceed rest s) (\<lambda>((fs, news'), s).
          Inr ((f # fs, news @ news'), s))))"

text \<open>
  After the commit \<open>order_fulfilled\<close> sets the status and removes the reservations, while fulfilments
  that wait for approval leave the status as it is. Both read the first fulfilment: without any they
  raise, after the commit. The statistics count the whole order each time.
\<close>

definition create_fulfillments ::
    "django \<Rightarrow> datetime \<Rightarrow> nat \<Rightarrow> (nat \<times> (nat \<times> int) list) list \<Rightarrow> bool \<Rightarrow> bool \<Rightarrow> string \<Rightarrow> shop_db
      \<Rightarrow> nat list shop_run" where
  "create_fulfillments dj now k fulfillment_lines_for_warehouses approved exceed tracking_number s =
     (case (row_of oh_pk k (sd_orders (sh_stock s)), row_of order_pk k (pd_orders (sh_pay s))) of
        (Some head, Some ord) \<Rightarrow>
          (case bindr (fulfil_warehouses dj now k (oh_channel_slug head)
                  (if approved then FulfillmentStatus_FULFILLED else FulfillmentStatus_WAITING_FOR_APPROVAL)
                  tracking_number approved exceed fulfillment_lines_for_warehouses s) (\<lambda>((fs, news), s).
                bindr (fulfillment_line_bulk_create news s) (\<lambda>(_, s).
                  Inr (fs, s\<lparr>sh_circulated_currency := sh_circulated_currency s + order_total_net_amount ord,
                    sh_circulated_items := sh_circulated_items s + sum_rows ol_quantity (order_lines_of k (sh_stock s))\<rparr>)))
           of Inl e \<Rightarrow> (Inl e, s)
            | Inr (fs, s) \<Rightarrow>
                if fs = [] then (Inl NoFulfillment, s)
                else (Inr fs,
                  if approved
                  then (let s = update_order_status k s;
                            s = s\<lparr>sh_stock := remove_reservations_for_order k (sh_stock s)\<rparr>
                        in log_event k OrderEvents_FULFILLMENT_FULFILLED_ITEMS s)
                  else log_event k OrderEvents_FULFILLMENT_AWAITS_APPROVAL s))
      | _ \<Rightarrow> (Inl RowMissing, s))"

subsection \<open>Approving and cancelling a fulfilment\<close>

definition save_fulfillment :: "nat \<Rightarrow> (fulfillment \<Rightarrow> fulfillment) \<Rightarrow> shop_db \<Rightarrow> shop_db" where
  "save_fulfillment k f s = s\<lparr>sh_fulfillments := save_row ff_pk k f (sh_fulfillments s)\<rparr>"

fun approval_loop :: "stock_db \<Rightarrow> bool \<Rightarrow> fulfillment_line list \<Rightarrow> shop_error + insufficient list \<times> line_info list" where
  "approval_loop s exceed [] = Inr ([], [])"
| "approval_loop s exceed (l # lines) =
     (case row_of ol_pk (fl_order_line l) (sd_order_lines s) of
        None \<Rightarrow> Inl RowMissing
      | Some order_line \<Rightarrow>
         bindr (approval_loop s exceed lines) (\<lambda>(insufficient_stocks, infos).
           let variant = variant_of s order_line;
               stock = (case fl_stock l of None \<Rightarrow> None | Some k \<Rightarrow> row_of st_pk k (sd_stocks s));
               insufficient_stocks = (if stock = None \<and> \<not> exceed
                 then \<lparr>is_available_quantity = 0, is_variant = map_option va_pk variant,
                        is_order_line = Some (ol_pk order_line), is_warehouse = None\<rparr> # insufficient_stocks
                 else insufficient_stocks)
           in Inr (insufficient_stocks, \<lparr>li_line = ol_pk order_line, li_variant = variant,
                li_quantity = fl_quantity l, li_warehouse = map_option st_warehouse stock\<rparr> # infos)))"

definition approve_fulfillment :: "django \<Rightarrow> datetime \<Rightarrow> nat \<Rightarrow> bool \<Rightarrow> shop_db \<Rightarrow> unit shop_run" where
  "approve_fulfillment dj now f exceed s = atomic s
     (case row_of ff_pk f (sh_fulfillments s) of
        None \<Rightarrow> Inl RowMissing
      | Some row \<Rightarrow>
          (let s = save_fulfillment f (\<lambda>r. r\<lparr>ff_status := FulfillmentStatus_FULFILLED\<rparr>) s;
               s = log_event (ff_order row) OrderEvents_FULFILLMENT_FULFILLED_ITEMS s
           in bindr (approval_loop (sh_stock s) exceed (lines_in f s)) (\<lambda>(insufficient_stocks, infos).
              if insufficient_stocks \<noteq> [] then Inl (StockError (InsufficientStock insufficient_stocks))
              else bindr (decrease_stocks dj now infos exceed s) (\<lambda>s.
                Inr ((), update_order_status (ff_order row) s)))))"

text \<open>
  Each line of a fulfilment brings its own object of the order line, read before any is written: of two
  lines of one order line, \<open>bulk_update\<close> writes what the first object holds.
\<close>

definition take_back_fulfilled :: "django \<Rightarrow> fulfillment_line list \<Rightarrow> shop_db \<Rightarrow> shop_db" where
  "take_back_fulfilled dj lines s = s\<lparr>sh_stock := (sh_stock s)\<lparr>sd_order_lines :=
     dj_order_lines dj (map (\<lambda>l. (fl_order_line l, \<lambda>r. r\<lparr>ol_quantity_fulfilled :=
         fulfilled_of (sh_stock s) (fl_order_line l) - fl_quantity l\<rparr>)) lines) (sd_order_lines (sh_stock s))\<rparr>\<rparr>"

fun restock_loop :: "fulfillment_line list \<Rightarrow> nat \<Rightarrow> stock_db \<Rightarrow> stock_error + stock_db" where
  "restock_loop [] warehouse s = Inr s"
| "restock_loop (l # lines) warehouse s =
     bindr (case Option.bind (row_of ol_pk (fl_order_line l) (sd_order_lines s)) (variant_of s) of
              None \<Rightarrow> Inr s
            | Some v \<Rightarrow> if va_track_inventory v
                then increase_stock (fl_order_line l) (Some (va_pk v)) warehouse (fl_quantity l) True s else Inr s)
       (restock_loop lines warehouse)"

definition restock_fulfillment_lines :: "django \<Rightarrow> nat \<Rightarrow> nat \<Rightarrow> shop_db \<Rightarrow> shop_error + shop_db" where
  "restock_fulfillment_lines dj f warehouse s =
     bindr (on_stock (restock_loop (lines_in f s) warehouse) s) (\<lambda>s. Inr (take_back_fulfilled dj (lines_in f s) s))"

definition cancel_fulfillment :: "django \<Rightarrow> nat \<Rightarrow> nat option \<Rightarrow> shop_db \<Rightarrow> unit shop_run" where
  "cancel_fulfillment dj f warehouse s = atomic s
     (case row_of ff_pk f (sh_fulfillments s) of
        None \<Rightarrow> Inl RowMissing
      | Some row \<Rightarrow>
          (let s = log_event (ff_order row) OrderEvents_FULFILLMENT_CANCELED s
           in bindr (case warehouse of
                  None \<Rightarrow> Inr s
                | Some w \<Rightarrow> bindr (restock_fulfillment_lines dj f w s) (\<lambda>s.
                    Inr (log_event (ff_order row) OrderEvents_FULFILLMENT_RESTOCKED_ITEMS s))) (\<lambda>s.
              let s = save_fulfillment f (\<lambda>r. r\<lparr>ff_status := FulfillmentStatus_CANCELED\<rparr>) s
              in Inr ((), update_order_status (ff_order row) s))))"

text \<open>Deleting a fulfilment deletes its lines.\<close>

definition delete_fulfillments :: "(fulfillment \<Rightarrow> bool) \<Rightarrow> shop_db \<Rightarrow> shop_db" where
  "delete_fulfillments P s =
     (let gone = map ff_pk (filter P (sh_fulfillments s))
      in s\<lparr>sh_fulfillments := filter (\<lambda>f. \<not> P f) (sh_fulfillments s),
           sh_fulfillment_lines := filter (\<lambda>l. fl_fulfillment l \<notin> set gone) (sh_fulfillment_lines s)\<rparr>)"

definition cancel_waiting_fulfillment :: "django \<Rightarrow> nat \<Rightarrow> shop_db \<Rightarrow> unit shop_run" where
  "cancel_waiting_fulfillment dj f s = atomic s
     (case row_of ff_pk f (sh_fulfillments s) of
        None \<Rightarrow> Inl RowMissing
      | Some row \<Rightarrow>
          (let s = log_event (ff_order row) OrderEvents_FULFILLMENT_CANCELED s;
               s = take_back_fulfilled dj (lines_in f s) s;
               s = delete_fulfillments (\<lambda>r. ff_pk r = f) s
           in Inr ((), update_order_status (ff_order row) s)))"

subsection \<open>Moving lines to another fulfilment\<close>

text \<open>
  How many pieces of each line move, with the line objects' quantities updated on the way. A line that
  appears twice is one object.
\<close>

fun move_order_lines_loop ::
    "stock_db \<Rightarrow> nat \<Rightarrow> order_line_info list \<Rightarrow> (nat \<Rightarrow> int) \<Rightarrow> shop_error + new_line list \<times> (nat \<Rightarrow> int)" where
  "move_order_lines_loop s target [] m = Inr ([], m)"
| "move_order_lines_loop s target (i # infos) m =
     (case row_of ol_pk (oi_line i) (sd_order_lines s) of
        None \<Rightarrow> Inl RowMissing
      | Some l \<Rightarrow>
         let unfulfilled_to_move = min (ol_quantity l - m (oi_line i)) (oi_quantity i)
         in bindr (move_order_lines_loop s target infos (m(oi_line i := m (oi_line i) + unfulfilled_to_move)))
              (\<lambda>(news, m). Inr ((oi_line i, target, unfulfilled_to_move, None) # news, m)))"

definition move_order_lines_to_target_fulfillment ::
    "django \<Rightarrow> order_line_info list \<Rightarrow> nat \<Rightarrow> shop_db \<Rightarrow> shop_error + fulfillment_line list \<times> shop_db" where
  "move_order_lines_to_target_fulfillment dj order_lines_to_move target s =
     bindr (move_order_lines_loop (sh_stock s) target order_lines_to_move (fulfilled_of (sh_stock s))) (\<lambda>(news, m).
       let lines_to_dellocate = map (\<lambda>(k, _, q, _). \<lparr>li_line = k, li_variant = None, li_quantity = q, li_warehouse = None\<rparr>)
             (filter (\<lambda>(k, _). \<exists>a \<in> set (sd_allocations (sh_stock s)). al_order_line a = k) news);
           s = (if lines_to_dellocate = [] then s
                else s\<lparr>sh_stock := snd (deallocate_stock (dj_stocks dj) lines_to_dellocate (sh_stock s))\<rparr>)
       in bindr (fulfillment_line_bulk_create news s) (\<lambda>(created, s).
         Inr (created, update_fulfilled dj (map oi_line order_lines_to_move) m s)))"

definition get_fulfillment_line_if_exists :: "fulfillment_line list \<Rightarrow> nat \<Rightarrow> nat option \<Rightarrow> fulfillment_line option" where
  "get_fulfillment_line_if_exists fulfillment_lines order_line stock =
     find (\<lambda>l. fl_order_line l = order_line \<and> fl_stock l = stock) fulfillment_lines"

text \<open>
  The objects to update, to create and to delete, and the quantities \<open>m\<close> of the line objects. A new
  line that is moved to is not looked for again: two lines of one order line and stock give two.
\<close>

record moved_lines =
  mv_update :: "nat list"
  mv_create :: "new_line list"
  mv_delete :: "nat list"
  mv_quantity :: "nat \<Rightarrow> int"

fun move_fulfillment_lines_loop ::
    "fulfillment_line list \<Rightarrow> fulfillment_line list \<Rightarrow> nat \<Rightarrow> fulfillment_line_data list \<Rightarrow> (nat \<Rightarrow> int)
      \<Rightarrow> shop_error + moved_lines" where
  "move_fulfillment_lines_loop rows lines_in_target target [] m =
     Inr \<lparr>mv_update = [], mv_create = [], mv_delete = [], mv_quantity = m\<rparr>"
| "move_fulfillment_lines_loop rows lines_in_target target (d # data) m =
     (case row_of fl_pk (fd_line d) rows of
        None \<Rightarrow> Inl RowMissing
      | Some l \<Rightarrow>
         (let k = fl_pk l;
              existing = map_option fl_pk (get_fulfillment_line_if_exists lines_in_target (fl_order_line l) (fl_stock l));
              fulfilled_to_move = min (m k) (fd_quantity d);
              m = (case existing of None \<Rightarrow> m | Some e \<Rightarrow> m(e := m e + fulfilled_to_move));
              m = m(k := m k - fulfilled_to_move)
          in bindr (move_fulfillment_lines_loop rows lines_in_target target data m) (\<lambda>mv. Inr (mv\<lparr>
               mv_update := (if m k = 0 then [] else [k]) @ (case existing of None \<Rightarrow> [] | Some e \<Rightarrow> [e]) @ mv_update mv,
               mv_create := (if existing = None \<and> fulfilled_to_move > 0
                  then [(fl_order_line l, target, fulfilled_to_move, fl_stock l)] else []) @ mv_create mv,
               mv_delete := (if m k = 0 then [k] else []) @ mv_delete mv\<rparr>))))"

definition move_fulfillment_lines_to_target_fulfillment ::
    "django \<Rightarrow> fulfillment_line_data list \<Rightarrow> fulfillment_line list \<Rightarrow> nat \<Rightarrow> shop_db \<Rightarrow> shop_error + shop_db" where
  "move_fulfillment_lines_to_target_fulfillment dj fulfillment_lines_to_move lines_in_target target s =
     (let quantity = (\<lambda>k. case row_of fl_pk k (sh_fulfillment_lines s) of None \<Rightarrow> 0 | Some l \<Rightarrow> fl_quantity l)
      in bindr (move_fulfillment_lines_loop (sh_fulfillment_lines s) lines_in_target target fulfillment_lines_to_move quantity)
        (\<lambda>mv. if \<exists>k \<in> set (mv_update mv). mv_quantity mv k < 0 then Inl NegativeQuantity
         else let s = s\<lparr>sh_fulfillment_lines := dj_fulfillment_lines dj
                    (map (\<lambda>k. (k, \<lambda>l. l\<lparr>fl_quantity := mv_quantity mv k\<rparr>)) (mv_update mv)) (sh_fulfillment_lines s)\<rparr>
              in bindr (fulfillment_line_bulk_create (mv_create mv) s) (\<lambda>(_, s).
                Inr (s\<lparr>sh_fulfillment_lines :=
                  filter (\<lambda>l. fl_pk l \<notin> set (mv_delete mv)) (sh_fulfillment_lines s)\<rparr>))))"

text \<open>Fulfilments of the order that lost all their lines, if they were to be delivered.\<close>

definition delete_empty_fulfillments :: "nat \<Rightarrow> shop_db \<Rightarrow> shop_db" where
  "delete_empty_fulfillments k s = delete_fulfillments (\<lambda>f. ff_order f = k \<and> lines_in (ff_pk f) s = []
     \<and> ff_status f \<in> {FulfillmentStatus_FULFILLED, FulfillmentStatus_WAITING_FOR_APPROVAL}) s"

subsection \<open>Cancelling an order\<close>

definition all_order_lines :: "nat \<Rightarrow> shop_db \<Rightarrow> order_line_info list" where
  "all_order_lines k s = map (\<lambda>l. \<lparr>oi_line = ol_pk l, oi_quantity = ol_quantity l, oi_replace = False\<rparr>)
     (order_lines_of k (sh_stock s))"

definition create_cancel_fulfillment :: "django \<Rightarrow> nat \<Rightarrow> shop_db \<Rightarrow> shop_error + nat \<times> shop_db" where
  "create_cancel_fulfillment dj k s =
     (let order_lines_to_refund = all_order_lines k s;
          (f, s) = create_fulfillment k FulfillmentStatus_CANCELED [] None None s
      in bindr (move_order_lines_to_target_fulfillment dj order_lines_to_refund f s) (\<lambda>(_, s). Inr (f, s)))"

definition cancel_order :: "django \<Rightarrow> nat \<Rightarrow> shop_db \<Rightarrow> unit shop_run" where
  "cancel_order dj k s = atomic s
     (let s = log_event k OrderEvents_CANCELED s;
          s = s\<lparr>sh_stock := remove_reservations_for_order k (sh_stock s)\<rparr>
      in bindr (create_cancel_fulfillment dj k s) (\<lambda>(_, s).
           Inr ((), save_order_status k OrderStatus_CANCELED s)))"

subsection \<open>Refunding\<close>

definition get_shipping_refund_amount :: "bool \<Rightarrow> decimal option \<Rightarrow> decimal \<Rightarrow> decimal option" where
  "get_shipping_refund_amount refund_shipping_costs refund_amount shipping_price =
     (if refund_shipping_costs \<and> refund_amount = None then Some shipping_price else None)"

definition unit_price_of :: "stock_db \<Rightarrow> nat \<Rightarrow> decimal" where
  "unit_price_of s k = (case row_of ol_pk k (sd_order_lines s) of None \<Rightarrow> 0 | Some l \<Rightarrow> ol_unit_price_gross_amount l)"

text \<open>Lines of fulfilments that were refunded before are skipped.\<close>

definition calculate_refund_amount :: "order_line_info list \<Rightarrow> fulfillment_line_data list \<Rightarrow> shop_db \<Rightarrow> decimal" where
  "calculate_refund_amount return_order_lines return_fulfillment_lines s =
     sum_list (map (\<lambda>i. of_int (oi_quantity i) * unit_price_of (sh_stock s) (oi_line i)) return_order_lines)
     + sum_list (map (\<lambda>d. case row_of fl_pk (fd_line d) (sh_fulfillment_lines s) of
          None \<Rightarrow> 0
        | Some l \<Rightarrow> if map_option ff_status (row_of ff_pk (fl_fulfillment l) (sh_fulfillments s)) = Some FulfillmentStatus_REFUNDED
            then 0 else of_int (fd_quantity d) * unit_price_of (sh_stock s) (fl_order_line l)) return_fulfillment_lines)"

definition refunded_total :: "pay_db \<Rightarrow> nat \<Rightarrow> gateway_payment \<Rightarrow> decimal" where
  "refunded_total s k p =
     (if pay_charge_status p \<in> {ChargeStatus_PARTIALLY_REFUNDED, ChargeStatus_FULLY_REFUNDED}
      then sum_rows tr_amount (filter (\<lambda>t. tr_kind t = TransactionKind_REFUND \<and> tr_is_success t) (transactions_of s (pay_pk p)))
      else 0) + sum_rows (\<lambda>i. ti_amounts i refunded_value) (items_of_order s k)"

text \<open>\<open>order_refunded\<close>, for the payment that was refunded.\<close>

definition order_refunded :: "nat \<Rightarrow> nat \<Rightarrow> shop_db \<Rightarrow> shop_db" where
  "order_refunded k payment s =
     (let s = log_event k OrderEvents_PAYMENT_REFUNDED s
      in case (row_of pay_pk payment (pd_payments (sh_pay s)), row_of order_pk k (pd_orders (sh_pay s)),
               row_of oh_pk k (sd_orders (sh_stock s))) of
           (Some p, Some ord, Some head) \<Rightarrow>
             if refunded_total (sh_pay s) k p \<ge> order_total_gross_amount ord \<and> in_shared_channel (oh_channel_slug head)
             then save_order_status k OrderStatus_RETURNED s else s
         | _ \<Rightarrow> s)"

text \<open>
  A failed refund is raised after its own commit: the failed transaction stays. An error of the database
  rolls back the refund as well.
\<close>

definition process_refund ::
    "(string \<Rightarrow> nat) \<Rightarrow> gateway_call \<Rightarrow> nat option \<Rightarrow> nat \<Rightarrow> nat option \<Rightarrow> order_line_info list
      \<Rightarrow> fulfillment_line_data list \<Rightarrow> decimal option \<Rightarrow> bool \<Rightarrow> shop_db \<Rightarrow> decimal shop_run" where
  "process_refund prec call user k payment order_lines_to_refund fulfillment_lines_to_refund amount refund_shipping_costs s =
     (case row_of oh_pk k (sd_orders (sh_stock s)) of
        None \<Rightarrow> (Inl RowMissing, s)
      | Some head \<Rightarrow>
         let amount = (case amount of
               Some a \<Rightarrow> a
             | None \<Rightarrow> calculate_refund_amount order_lines_to_refund fulfillment_lines_to_refund s
                 + (if refund_shipping_costs then oh_shipping_price_gross_amount head else 0))
         in case Option.bind payment (\<lambda>pk. row_of pay_pk pk (pd_payments (sh_pay s))) of
              Some p \<Rightarrow>
                if amount \<noteq> 0
                then if user = None then (Inl UserIsNone, s) else
                     (let amount = min (pay_captured_amount p) amount
                      in case refund_payment_of prec call (Some amount) user (pay_pk p) (sh_pay s) of
                           (Inl e, pay) \<Rightarrow> (Inl (PayError e), s\<lparr>sh_pay := pay\<rparr>)
                         | (Inr _, pay) \<Rightarrow> (Inr amount, log_event k OrderEvents_FULFILLMENT_REFUNDED
                               (order_refunded k (pay_pk p) (s\<lparr>sh_pay := pay\<rparr>))))
                else (Inr amount, log_event k OrderEvents_FULFILLMENT_REFUNDED s)
            | None \<Rightarrow> (Inr amount, log_event k OrderEvents_FULFILLMENT_REFUNDED s))"

definition create_refund_fulfillment ::
    "django \<Rightarrow> (string \<Rightarrow> nat) \<Rightarrow> gateway_call \<Rightarrow> nat option \<Rightarrow> nat \<Rightarrow> nat option \<Rightarrow> order_line_info list
      \<Rightarrow> fulfillment_line_data list \<Rightarrow> decimal option \<Rightarrow> bool \<Rightarrow> shop_db \<Rightarrow> nat shop_run" where
  "create_refund_fulfillment dj prec call user k payment order_lines_to_refund fulfillment_lines_to_refund amount
       refund_shipping_costs start =
     (case row_of oh_pk k (sd_orders (sh_stock start)) of
        None \<Rightarrow> (Inl RowMissing, start)
      | Some head \<Rightarrow>
        (case process_refund prec call user k payment order_lines_to_refund fulfillment_lines_to_refund amount
                refund_shipping_costs start of
           (Inl e, s) \<Rightarrow> (Inl e, s)
         | (Inr total_refund_amount, s) \<Rightarrow>
             let status = (if in_shared_channel (oh_channel_slug head) then FulfillmentStatus_REFUNDED_AND_RETURNED
                    else FulfillmentStatus_REFUNDED);
                 (f, s) = create_fulfillment k status [] (Some total_refund_amount)
                    (get_shipping_refund_amount refund_shipping_costs amount (oh_shipping_price_gross_amount head)) s
             in atomic start
                  (bindr (move_order_lines_to_target_fulfillment dj order_lines_to_refund f s) (\<lambda>(created, s).
                   bindr (move_fulfillment_lines_to_target_fulfillment dj fulfillment_lines_to_refund created f s) (\<lambda>s.
                     Inr (f, delete_empty_fulfillments k s))))))"

subsection \<open>Returning and replacing\<close>

definition move_lines_to_return_fulfillment ::
    "django \<Rightarrow> order_line_info list \<Rightarrow> fulfillment_line_data list \<Rightarrow> fulfillment_status \<Rightarrow> nat
      \<Rightarrow> decimal option \<Rightarrow> decimal option \<Rightarrow> shop_db \<Rightarrow> shop_error + nat \<times> shop_db" where
  "move_lines_to_return_fulfillment dj order_lines fulfillment_lines status k total_refund_amount shipping_refund_amount s =
     (case create_fulfillment k status [] total_refund_amount shipping_refund_amount s of (target, s) \<Rightarrow>
      bindr (move_order_lines_to_target_fulfillment dj order_lines target s) (\<lambda>(lines_in_target, s).
      let already_refunded = map fl_pk (filter (\<lambda>l. \<exists>f \<in> set (fulfillments_of k s). ff_pk f = fl_fulfillment l
             \<and> ff_status f = FulfillmentStatus_REFUNDED) (sh_fulfillment_lines s));
          refunded_lines = filter (\<lambda>d. fd_line d \<in> set already_refunded) fulfillment_lines;
          lines_to_return = filter (\<lambda>d. fd_line d \<notin> set already_refunded) fulfillment_lines
      in bindr (move_fulfillment_lines_to_target_fulfillment dj lines_to_return lines_in_target target s) (\<lambda>s.
         if refunded_lines = [] then Inr (target, s)
         else (let (refund_and_return, s) = (if status = FulfillmentStatus_REFUNDED_AND_RETURNED then (target, s)
                    else create_fulfillment k FulfillmentStatus_REFUNDED_AND_RETURNED [] None None s)
               in bindr (move_fulfillment_lines_to_target_fulfillment dj refunded_lines [] refund_and_return s)
                    (\<lambda>s. Inr (target, s))))))"

text \<open>\<open>line_info.line.stock.increase_stock\<close>: a line without stock raises.\<close>

fun return_to_stocks :: "(nat option \<times> int) list \<Rightarrow> stock_db \<Rightarrow> shop_error + stock_db" where
  "return_to_stocks [] s = Inr s"
| "return_to_stocks ((None, q) # rest) s = Inl StockIsNone"
| "return_to_stocks ((Some k, q) # rest) s = return_to_stocks rest (Stock_increase_stock q k s)"

definition create_return_fulfillment ::
    "django \<Rightarrow> nat \<Rightarrow> order_line_info list \<Rightarrow> fulfillment_line_data list \<Rightarrow> decimal option \<Rightarrow> decimal option
      \<Rightarrow> shop_db \<Rightarrow> shop_error + nat \<times> shop_db" where
  "create_return_fulfillment dj k order_lines fulfillment_lines total_refund_amount shipping_refund_amount s =
     (let status = (if total_refund_amount = None then FulfillmentStatus_RETURNED
            else FulfillmentStatus_REFUNDED_AND_RETURNED);
          stocks = map (\<lambda>d. (Option.bind (row_of fl_pk (fd_line d) (sh_fulfillment_lines s)) fl_stock, fd_quantity d))
            fulfillment_lines
      in bindr (move_lines_to_return_fulfillment dj order_lines fulfillment_lines status k
                 total_refund_amount shipping_refund_amount s) (\<lambda>(f, s).
         bindr (return_to_stocks stocks (sh_stock s)) (\<lambda>st.
           Inr (f, update_order_status k (log_event k OrderEvents_FULFILLMENT_RETURNED (s\<lparr>sh_stock := st\<rparr>))))))"

definition move_lines_to_replace_fulfillment ::
    "django \<Rightarrow> order_line_info list \<Rightarrow> fulfillment_line_data list \<Rightarrow> nat \<Rightarrow> shop_db \<Rightarrow> shop_error + nat \<times> shop_db" where
  "move_lines_to_replace_fulfillment dj order_lines_to_replace fulfillment_lines_to_replace k s =
     (case create_fulfillment k FulfillmentStatus_REPLACED [] None None s of (target, s) \<Rightarrow>
      bindr (move_order_lines_to_target_fulfillment dj order_lines_to_replace target s) (\<lambda>(lines_in_target, s).
      bindr (move_fulfillment_lines_to_target_fulfillment dj fulfillment_lines_to_replace lines_in_target target s)
        (\<lambda>s. Inr (target, s))))"

text \<open>
  The draft order for what is replaced: one line for each order line, in the order in which a dictionary
  keeps them; a second piece of the same order line adds its quantity.
\<close>

definition replaced_lines :: "order_line_info list \<Rightarrow> (nat \<times> int) list \<Rightarrow> (nat \<times> int) list" where
  "replaced_lines order_lines fulfillment_lines =
     fold (\<lambda>(k, q) acc. if k \<in> fst ` set acc then map (\<lambda>(k', q'). (k', if k' = k then q' + q else q')) acc
             else acc @ [(k, q)]) fulfillment_lines
       (fold (\<lambda>i acc. if oi_line i \<in> fst ` set acc
            then map (\<lambda>(k', q'). (k', if k' = oi_line i then oi_quantity i else q')) acc
            else acc @ [(oi_line i, oi_quantity i)]) order_lines [])"

definition next_order_pk :: "shop_db \<Rightarrow> nat" where
  "next_order_pk s = Suc (sum_list (map oh_pk (sd_orders (sh_stock s))) + sum_list (map order_pk (pd_orders (sh_pay s))))"

definition next_order_line_pk :: "stock_db \<Rightarrow> nat" where
  "next_order_line_pk s = Suc (sum_list (map ol_pk (sd_order_lines s)))"

definition draft_lines :: "nat \<Rightarrow> stock_db \<Rightarrow> (nat \<times> int) list \<Rightarrow> order_line list" where
  "draft_lines new s pieces =
     (let originals = List.map_filter (\<lambda>(k, q). map_option (\<lambda>l. (l, q)) (row_of ol_pk k (sd_order_lines s))) pieces
      in map (\<lambda>(i, l, q). l\<lparr>ol_pk := next_order_line_pk s + i, ol_order := new, ol_quantity := q,
            ol_quantity_fulfilled := 0\<rparr>) (zip [0..<length originals] originals))"

definition create_replace_order ::
    "datetime \<Rightarrow> nat \<Rightarrow> order_line_info list \<Rightarrow> (nat \<times> int) list \<Rightarrow> shop_db \<Rightarrow> shop_error + nat \<times> shop_db" where
  "create_replace_order now k order_lines_to_replace fulfillment_lines_to_replace s =
     (case (row_of oh_pk k (sd_orders (sh_stock s)), row_of order_pk k (pd_orders (sh_pay s))) of
        (Some head, Some ord) \<Rightarrow>
          let new = next_order_pk s;
              pieces = replaced_lines order_lines_to_replace fulfillment_lines_to_replace;
              head = head\<lparr>oh_pk := new, oh_status := OrderStatus_DRAFT, oh_shipping_zone := None,
                oh_shipping_price_gross_amount := 0\<rparr>;
              ord = ord\<lparr>order_pk := new, order_status := OrderStatus_DRAFT,
                order_charge_status := order_charge_status_str OrderChargeStatus_NONE, order_created_at := now,
                order_updated_at := now, order_total_net_amount := 0, order_total_gross_amount := 0,
                order_total_charged_amount := 0, order_line_quantities := map snd pieces,
                mo_total_authorized_amount := 0, mo_authorize_status := OrderAuthorizeStatus_NONE\<rparr>;
              st = sh_stock s;
              s = s\<lparr>sh_stock := st\<lparr>sd_orders := sd_orders st @ [head],
                    sd_order_lines := sd_order_lines st @ draft_lines new st pieces\<rparr>,
                  sh_pay := (sh_pay s)\<lparr>pd_orders := pd_orders (sh_pay s) @ [ord]\<rparr>\<rparr>
          in Inr (new, log_event new OrderEvents_DRAFT_CREATED_FROM_REPLACE s)
      | _ \<Rightarrow> Inl RowMissing)"

definition process_replace ::
    "django \<Rightarrow> datetime \<Rightarrow> nat \<Rightarrow> order_line_info list \<Rightarrow> fulfillment_line_data list \<Rightarrow> shop_db
      \<Rightarrow> shop_error + (nat \<times> nat) \<times> shop_db" where
  "process_replace dj now k order_lines fulfillment_lines s =
     (let pieces = List.map_filter (\<lambda>d. map_option (\<lambda>l. (fl_order_line l, fd_quantity d))
            (row_of fl_pk (fd_line d) (sh_fulfillment_lines s))) fulfillment_lines
      in bindr (move_lines_to_replace_fulfillment dj order_lines fulfillment_lines k s) (\<lambda>(f, s).
         bindr (create_replace_order now k order_lines pieces s) (\<lambda>(new, s).
           Inr ((f, new), log_event k OrderEvents_ORDER_REPLACEMENT_CREATED
             (log_event k OrderEvents_FULFILLMENT_REPLACED s)))))"

text \<open>Everything in one transaction: an error of the refund rolls back the failed refund, too.\<close>

definition create_fulfillments_for_returned_products ::
    "django \<Rightarrow> datetime \<Rightarrow> (string \<Rightarrow> nat) \<Rightarrow> gateway_call \<Rightarrow> nat option \<Rightarrow> nat \<Rightarrow> nat option
      \<Rightarrow> order_line_info list \<Rightarrow> fulfillment_line_data list \<Rightarrow> bool \<Rightarrow> decimal option \<Rightarrow> bool \<Rightarrow> shop_db
      \<Rightarrow> (nat \<times> (nat \<times> nat) option) shop_run" where
  "create_fulfillments_for_returned_products dj now prec call user k payment order_lines fulfillment_lines refund amount
       refund_shipping_costs s = atomic s
     (case row_of oh_pk k (sd_orders (sh_stock s)) of
        None \<Rightarrow> Inl RowMissing
      | Some head \<Rightarrow>
         let return_order_lines = filter (\<lambda>i. \<not> oi_replace i) order_lines;
             return_fulfillment_lines = filter (\<lambda>d. \<not> fd_replace d) fulfillment_lines;
             replace_order_lines = filter oi_replace order_lines;
             replace_fulfillment_lines = filter fd_replace fulfillment_lines;
             shipping_refund_amount = get_shipping_refund_amount refund_shipping_costs amount
               (oh_shipping_price_gross_amount head)
         in bindr (if refund \<and> payment \<noteq> None
                   then (case process_refund prec call user k payment return_order_lines return_fulfillment_lines
                            amount refund_shipping_costs s of
                           (Inl e, _) \<Rightarrow> Inl e | (Inr a, s) \<Rightarrow> Inr (Some a, s))
                   else Inr (None, s)) (\<lambda>(total_refund_amount, s).
            bindr (if replace_order_lines \<noteq> [] \<or> replace_fulfillment_lines \<noteq> []
                   then bindr (process_replace dj now k replace_order_lines replace_fulfillment_lines s)
                     (\<lambda>(r, s). Inr (Some r, s))
                   else Inr (None, s)) (\<lambda>(replaced, s).
            bindr (create_return_fulfillment dj k return_order_lines return_fulfillment_lines total_refund_amount
                     shipping_refund_amount s) (\<lambda>(f, s).
              Inr ((f, replaced), delete_empty_fulfillments k s)))))"

subsection \<open>Orders that expire\<close>

definition get_last_payment_of_order :: "nat \<Rightarrow> pay_db \<Rightarrow> gateway_payment option" where
  "get_last_payment_of_order k s = latest_payment (payments_of_order s k)"

text \<open>
  What has not been put into fulfilments is paid back; the order may have no payment (\<open>NoPayment\<close>: an
  attribute of \<open>None\<close> is read).
\<close>

definition create_fulfillments_for_expired_orders ::
    "django \<Rightarrow> (string \<Rightarrow> nat) \<Rightarrow> gateway_call \<Rightarrow> nat \<Rightarrow> shop_db \<Rightarrow> shop_error + nat \<times> shop_db" where
  "create_fulfillments_for_expired_orders dj prec call k s =
     (let order_lines_to_refund = all_order_lines k s;
          amount_total = sum_list (map (\<lambda>l. if quantity_unfulfilled l > 0
            then ol_unit_price_gross_amount l * of_int (quantity_unfulfilled l) else 0) (order_lines_of k (sh_stock s)))
      in case row_of order_pk k (pd_orders (sh_pay s)) of
           None \<Rightarrow> Inl RowMissing
         | Some ord \<Rightarrow>
            bindr (if order_user ord \<noteq> None \<and> amount_total > 0
                   then (case get_last_payment_of_order k (sh_pay s) of
                           None \<Rightarrow> Inl NoPayment
                         | Some p \<Rightarrow>
                            (case refund_payment_of prec call (Some amount_total) (order_user ord) (pay_pk p) (sh_pay s) of
                               (Inl e, _) \<Rightarrow> Inl (PayError e) | (Inr _, pay) \<Rightarrow> Inr (s\<lparr>sh_pay := pay\<rparr>)))
                   else Inr s) (\<lambda>s.
              case create_fulfillment k FulfillmentStatus_CANCELED [] None None s of (f, s) \<Rightarrow>
              bindr (move_order_lines_to_target_fulfillment dj order_lines_to_refund f s) (\<lambda>(_, s). Inr (f, s))))"

text \<open>
  The second half of \<open>_expire_orders\<close>, for the orders it selected: each in its own transaction, an error
  is logged and leaves the order for the next run. \<open>expired_at\<close> is set on the object only.
\<close>

definition expire_order :: "django \<Rightarrow> (string \<Rightarrow> nat) \<Rightarrow> gateway_call \<Rightarrow> nat \<Rightarrow> shop_db \<Rightarrow> shop_db" where
  "expire_order dj prec call k s =
     (case create_fulfillments_for_expired_orders dj prec call k
             (s\<lparr>sh_stock := remove_reservations_for_order k (sh_stock s)\<rparr>) of
        Inl e \<Rightarrow> s
      | Inr (_, s) \<Rightarrow> log_event k OrderEvents_EXPIRED (save_order_status k OrderStatus_EXPIRED s))"

definition is_expirable :: "shop_db \<Rightarrow> nat \<Rightarrow> bool" where
  "is_expirable s k \<longleftrightarrow> (case row_of oh_pk k (sd_orders (sh_stock s)) of
     None \<Rightarrow> False
   | Some h \<Rightarrow> oh_status h \<in> {OrderStatus_UNCONFIRMED, OrderStatus_UNFULFILLED, OrderStatus_PARTIALLY_FULFILLED})"

text \<open>\<open>overdue\<close> tells which orders are older than their channel allows, an age the database computes.\<close>

definition expire_orders :: "django \<Rightarrow> (string \<Rightarrow> nat) \<Rightarrow> gateway_call \<Rightarrow> (nat \<Rightarrow> bool) \<Rightarrow> shop_db \<Rightarrow> shop_db" where
  "expire_orders dj prec call overdue s =
     fold (expire_order dj prec call)
       (filter (\<lambda>k. overdue k \<and> is_expirable s k) (map oh_pk (sd_orders (sh_stock s)))) s"

subsection \<open>The checks of the mutations\<close>

text \<open>\<open>Order.is_fully_paid\<close> compares the order's column with the status of a payment.\<close>

definition is_fully_paid :: "money_order \<Rightarrow> bool" where
  "is_fully_paid ord \<longleftrightarrow> order_charge_status ord = charge_status_str ChargeStatus_FULLY_CHARGED"

definition can_cancel :: "nat \<Rightarrow> shop_db \<Rightarrow> bool" where
  "can_cancel k s \<longleftrightarrow> (\<forall>f \<in> set (fulfillments_of k s). ff_status f \<in>
       {FulfillmentStatus_CANCELED, FulfillmentStatus_REFUNDED, FulfillmentStatus_REPLACED,
        FulfillmentStatus_REFUNDED_AND_RETURNED, FulfillmentStatus_RETURNED})
     \<and> (case row_of oh_pk k (sd_orders (sh_stock s)) of None \<Rightarrow> False
        | Some h \<Rightarrow> oh_status h \<notin> {OrderStatus_CANCELED, OrderStatus_DRAFT, OrderStatus_EXPIRED})"

definition clean_order_cancel :: "nat \<Rightarrow> shop_db \<Rightarrow> shop_error + unit" where
  "clean_order_cancel k s = (if can_cancel k s then Inr () else Inl (Invalid ''This order can't be canceled.''))"

definition check_order_ownership :: "user \<Rightarrow> nat \<Rightarrow> shop_db \<Rightarrow> shop_error + unit" where
  "check_order_ownership user k s =
     (case row_of oh_pk k (sd_orders (sh_stock s)) of
        None \<Rightarrow> Inl RowMissing
      | Some h \<Rightarrow>
         if \<not> (user_is_superuser user \<or> user_is_staff user)
         then (case oh_user h of
                 None \<Rightarrow> Inl UserIsNone
               | Some u \<Rightarrow>
                  if u \<noteq> user_pk user
                  then Inl (Invalid ''This order can not be manipulated by the current user.'')
                  else if oh_status h \<noteq> OrderStatus_UNCONFIRMED
                  then Inl (Invalid ''Normal users can only cancel orders that are not fulfilled.'')
                  else Inr ())
         else Inr ())"

definition order_cancel :: "django \<Rightarrow> user \<Rightarrow> nat \<Rightarrow> shop_db \<Rightarrow> unit shop_run" where
  "order_cancel dj user k s =
     (case bindr (clean_order_cancel k s) (\<lambda>_. check_order_ownership user k s) of
        Inl e \<Rightarrow> (Inl e, s) | Inr _ \<Rightarrow> cancel_order dj k s)"

text \<open>The input of \<open>OrderFulfill\<close>: an order line with a quantity for each of some warehouses.\<close>

type_synonym fulfill_input = "(nat \<times> (nat \<times> int) list) list"

definition clean_fulfill_lines :: "stock_db \<Rightarrow> fulfill_input \<Rightarrow> shop_error + unit" where
  "clean_fulfill_lines s lines =
     (if \<exists>(k, stocks) \<in> set lines. row_of ol_pk k (sd_order_lines s) = None then Inl RowMissing
      else if \<exists>(k, stocks) \<in> set lines. case row_of ol_pk k (sd_order_lines s) of
          None \<Rightarrow> False | Some l \<Rightarrow> sum_list (map snd stocks) > quantity_unfulfilled l
      then Inl (Invalid ''Only some items remaining to fulfill.'') else Inr ())"

definition check_lines_for_preorder :: "datetime \<Rightarrow> stock_db \<Rightarrow> nat list \<Rightarrow> shop_error + unit" where
  "check_lines_for_preorder now s ks =
     (if \<exists>k \<in> set ks. case Option.bind (row_of ol_pk k (sd_order_lines s)) (variant_of s) of
          None \<Rightarrow> False | Some v \<Rightarrow> is_preorder_active now v
      then Inl (Invalid ''Can not fulfill preorder variant.'') else Inr ())"

text \<open>The positive quantities, grouped by warehouse in the order in which a dictionary keeps them.\<close>

definition lines_for_warehouses :: "fulfill_input \<Rightarrow> (nat \<times> (nat \<times> int) list) list" where
  "lines_for_warehouses lines =
     fold (\<lambda>(w, piece) acc. if w \<in> fst ` set acc then map (\<lambda>(w', ps). (w', if w' = w then ps @ [piece] else ps)) acc
             else acc @ [(w, [piece])])
       (concat (map (\<lambda>(k, stocks). map (\<lambda>(w, q). (w, (k, q))) (filter (\<lambda>(_, q). q > 0) stocks)) lines)) []"

definition clean_fulfill_input ::
    "datetime \<Rightarrow> bool \<Rightarrow> bool \<Rightarrow> money_order \<Rightarrow> fulfill_input \<Rightarrow> stock_db
      \<Rightarrow> shop_error + (nat \<times> (nat \<times> int) list) list" where
  "clean_fulfill_input now auto_approve allow_unpaid ord lines s =
     (if \<not> is_fully_paid ord \<and> auto_approve \<and> \<not> allow_unpaid then Inl (Invalid ''Cannot fulfill unpaid order.'')
      else if \<exists>(k, stocks) \<in> set lines. \<not> distinct (map fst stocks) then Inl (Invalid ''Duplicated warehouse ID.'')
      else if \<not> distinct (map fst lines) then Inl (Invalid ''Duplicated order line ID.'')
      else bindr (clean_fulfill_lines s lines) (\<lambda>_.
           bindr (if auto_approve then check_lines_for_preorder now s (map fst lines) else Inr ()) (\<lambda>_.
             if sum_list (map (\<lambda>(k, stocks). sum_list (map snd stocks)) lines) \<le> 0
             then Inl (Invalid ''Total quantity must be larger than 0.'')
             else Inr (lines_for_warehouses lines))))"

definition order_fulfill ::
    "django \<Rightarrow> datetime \<Rightarrow> bool \<Rightarrow> bool \<Rightarrow> nat \<Rightarrow> fulfill_input \<Rightarrow> bool \<Rightarrow> string \<Rightarrow> shop_db \<Rightarrow> nat list shop_run" where
  "order_fulfill dj now auto_approve allow_unpaid k lines exceed tracking_number s =
     (case row_of order_pk k (pd_orders (sh_pay s)) of
        None \<Rightarrow> (Inl RowMissing, s)
      | Some ord \<Rightarrow>
         (case clean_fulfill_input now auto_approve allow_unpaid ord lines (sh_stock s) of
            Inl e \<Rightarrow> (Inl e, s)
          | Inr grouped \<Rightarrow> create_fulfillments dj now k grouped auto_approve exceed tracking_number s))"

definition order_has_gift_card_lines :: "nat \<Rightarrow> stock_db \<Rightarrow> bool" where
  "order_has_gift_card_lines k s \<longleftrightarrow> (\<exists>l \<in> set (order_lines_of k s). ol_is_gift_card l)"

definition can_edit :: "fulfillment \<Rightarrow> bool" where
  "can_edit f \<longleftrightarrow> ff_status f \<noteq> FulfillmentStatus_CANCELED"

definition fulfillment_cancel :: "django \<Rightarrow> nat \<Rightarrow> nat option \<Rightarrow> shop_db \<Rightarrow> unit shop_run" where
  "fulfillment_cancel dj f warehouse s =
     (case row_of ff_pk f (sh_fulfillments s) of
        None \<Rightarrow> (Inl RowMissing, s)
      | Some row \<Rightarrow>
         let waiting = (ff_status row = FulfillmentStatus_WAITING_FOR_APPROVAL) in
         if order_has_gift_card_lines (ff_order row) (sh_stock s)
         then (Inl (Invalid ''Cannot cancel fulfillment with gift card lines.''), s)
         else if \<not> can_edit row then (Inl (Invalid ''This fulfillment can't be canceled''), s)
         else if \<not> waiting \<and> warehouse = None then (Inl (Invalid ''This parameter is required.''), s)
         else if waiting then cancel_waiting_fulfillment dj f s else cancel_fulfillment dj f warehouse s)"

definition fulfillment_approve :: "django \<Rightarrow> datetime \<Rightarrow> bool \<Rightarrow> nat \<Rightarrow> bool \<Rightarrow> shop_db \<Rightarrow> unit shop_run" where
  "fulfillment_approve dj now allow_unpaid f exceed s =
     (case row_of ff_pk f (sh_fulfillments s) of
        None \<Rightarrow> (Inl RowMissing, s)
      | Some row \<Rightarrow>
         if ff_status row \<noteq> FulfillmentStatus_WAITING_FOR_APPROVAL
         then (Inl (Invalid ''Only WAITING_FOR_APPROVAL fulfillments can be accepted.''), s)
         else (case check_lines_for_preorder now (sh_stock s) (map fl_order_line (lines_in f s)) of
            Inl e \<Rightarrow> (Inl e, s)
          | Inr _ \<Rightarrow>
             (case row_of order_pk (ff_order row) (pd_orders (sh_pay s)) of
                None \<Rightarrow> (Inl RowMissing, s)
              | Some ord \<Rightarrow>
                 if \<not> allow_unpaid \<and> \<not> is_fully_paid ord then (Inl (Invalid ''Cannot fulfill unpaid order.''), s)
                 else approve_fulfillment dj now f exceed s)))"

text \<open>
  The input lines of a refund or return: a key, a quantity and the replace flag. \<open>get_nodes\<close> finds each
  row once, in the order of the keys; \<open>zip\<close> then joins the rows with the input lines by position.
\<close>

definition get_nodes :: "('r \<Rightarrow> nat) \<Rightarrow> nat list \<Rightarrow> 'r list \<Rightarrow> shop_error + 'r list" where
  "get_nodes key ks rows =
     (if \<exists>k \<in> set ks. row_of key k rows = None then Inl RowMissing
      else Inr (List.map_filter (\<lambda>k. row_of key k rows) (rev (remdups (rev ks)))))"

definition check_line :: "(bool \<times> string) list \<Rightarrow> shop_error + unit" where
  "check_line checks = (case filter fst checks of [] \<Rightarrow> Inr () | (_, m) # _ \<Rightarrow> Inl (Invalid m))"

fun check_all :: "('a \<Rightarrow> shop_error + 'b) \<Rightarrow> 'a list \<Rightarrow> shop_error + 'b list" where
  "check_all f [] = Inr []"
| "check_all f (x # xs) = bindr (f x) (\<lambda>y. bindr (check_all f xs) (\<lambda>ys. Inr (y # ys)))"

definition clean_lines :: "stock_db \<Rightarrow> (nat \<times> int \<times> bool) list \<Rightarrow> shop_error + order_line_info list" where
  "clean_lines s lines_data =
     bindr (get_nodes ol_pk (map fst lines_data) (sd_order_lines s)) (\<lambda>rows.
       check_all (\<lambda>(l, (_, quantity, replace)).
         bindr (check_line [(ol_is_gift_card l, ''Cannot refund or return gift card line.''),
             (ol_quantity l < quantity, ''Provided quantity is bigger than quantity from order line.''),
             (quantity_unfulfilled l < quantity, ''Provided quantity is bigger than unfulfilled quantity.''),
             (replace \<and> ol_variant l = None, ''Unable to replace line as the assigned product doesn't exist.'')])
           (\<lambda>_. Inr \<lparr>oi_line = ol_pk l, oi_quantity = quantity, oi_replace = replace\<rparr>)) (zip rows lines_data))"

definition clean_fulfillment_lines ::
    "shop_db \<Rightarrow> (nat \<times> int \<times> bool) list \<Rightarrow> fulfillment_status list \<Rightarrow> shop_error + fulfillment_line_data list" where
  "clean_fulfillment_lines s lines_data whitelisted_statuses =
     bindr (get_nodes fl_pk (map fst lines_data) (sh_fulfillment_lines s)) (\<lambda>rows.
       check_all (\<lambda>(l, (_, quantity, replace)).
         let order_line = row_of ol_pk (fl_order_line l) (sd_order_lines (sh_stock s));
             status = map_option ff_status (row_of ff_pk (fl_fulfillment l) (sh_fulfillments s))
         in bindr (check_line [(map_option ol_is_gift_card order_line = Some True, ''Cannot refund or return gift card line.''),
             (fl_quantity l < quantity, ''Provided quantity is bigger than quantity from fulfillment line''),
             (status \<notin> Some ` set whitelisted_statuses, ''Unable to process action for fulfillmentLine.''),
             (replace \<and> Option.bind order_line ol_variant = None,
              ''Unable to replace line as the assigned product doesn't exist.'')])
           (\<lambda>_. Inr \<lparr>fd_line = fl_pk l, fd_quantity = quantity, fd_replace = replace\<rparr>)) (zip rows lines_data))"

definition clean_order_payment :: "gateway_payment option \<Rightarrow> shop_error + gateway_payment" where
  "clean_order_payment payment = (case payment of
     None \<Rightarrow> Inl (Invalid ''Order cannot be refunded.'')
   | Some p \<Rightarrow> if can_refund p then Inr p else Inl (Invalid ''Order cannot be refunded.''))"

definition clean_amount_to_refund :: "nat \<Rightarrow> decimal option \<Rightarrow> decimal \<Rightarrow> stock_db \<Rightarrow> shop_error + unit" where
  "clean_amount_to_refund k amount_to_refund charged_amount s = (case amount_to_refund of
     None \<Rightarrow> Inr ()
   | Some a \<Rightarrow>
       if order_has_gift_card_lines k s
       then Inl (Invalid ''Cannot specified amount to refund when order has gift card lines.'')
       else if a > charged_amount
       then Inl (Invalid ''The amountToRefund is greater than the maximal possible amount to refund.'')
       else Inr ())"

definition fulfillment_refund_products ::
    "django \<Rightarrow> (string \<Rightarrow> nat) \<Rightarrow> gateway_call \<Rightarrow> nat \<Rightarrow> (nat \<times> int) list \<Rightarrow> (nat \<times> int) list \<Rightarrow> decimal option
      \<Rightarrow> bool \<Rightarrow> shop_db \<Rightarrow> nat shop_run" where
  "fulfillment_refund_products dj prec call k order_lines fulfillment_lines amount_to_refund include_shipping_costs s =
     (case bindr (clean_order_payment (get_last_payment_of_order k (sh_pay s))) (\<lambda>p.
           bindr (clean_amount_to_refund k amount_to_refund (pay_captured_amount p) (sh_stock s)) (\<lambda>_.
           bindr (clean_lines (sh_stock s) (map (\<lambda>(i, q). (i, q, False)) order_lines)) (\<lambda>ols.
           bindr (clean_fulfillment_lines s (map (\<lambda>(i, q). (i, q, False)) fulfillment_lines)
             [FulfillmentStatus_FULFILLED, FulfillmentStatus_RETURNED, FulfillmentStatus_WAITING_FOR_APPROVAL]) (\<lambda>fls.
             Inr (p, ols, fls))))) of
        Inl e \<Rightarrow> (Inl e, s)
      | Inr (p, ols, fls) \<Rightarrow>
          create_refund_fulfillment dj prec call
            (Option.bind (row_of order_pk k (pd_orders (sh_pay s))) order_user) k (Some (pay_pk p)) ols fls
            amount_to_refund include_shipping_costs s)"

definition fulfillment_return_products ::
    "django \<Rightarrow> datetime \<Rightarrow> (string \<Rightarrow> nat) \<Rightarrow> gateway_call \<Rightarrow> nat \<Rightarrow> (nat \<times> int \<times> bool) list
      \<Rightarrow> (nat \<times> int \<times> bool) list \<Rightarrow> bool \<Rightarrow> decimal option \<Rightarrow> bool \<Rightarrow> shop_db
      \<Rightarrow> (nat \<times> (nat \<times> nat) option) shop_run" where
  "fulfillment_return_products dj now prec call k order_lines fulfillment_lines refund amount_to_refund
       include_shipping_costs s =
     (case bindr (if refund
                  then bindr (clean_order_payment (get_last_payment_of_order k (sh_pay s))) (\<lambda>p.
                       bindr (clean_amount_to_refund k amount_to_refund (pay_captured_amount p) (sh_stock s))
                         (\<lambda>_. Inr (Some (pay_pk p))))
                  else Inr None) (\<lambda>payment.
           bindr (clean_lines (sh_stock s) order_lines) (\<lambda>ols.
           bindr (clean_fulfillment_lines s fulfillment_lines
             [FulfillmentStatus_FULFILLED, FulfillmentStatus_REFUNDED, FulfillmentStatus_WAITING_FOR_APPROVAL]) (\<lambda>fls.
             Inr (payment, ols, fls)))) of
        Inl e \<Rightarrow> (Inl e, s)
      | Inr (payment, ols, fls) \<Rightarrow>
          create_fulfillments_for_returned_products dj now prec call
            (Option.bind (row_of order_pk k (pd_orders (sh_pay s))) order_user) k payment ols fls refund
            (if refund then amount_to_refund else None) include_shipping_costs s)"

end
