(* ===== verification/FulfilmentLaws.thy ===== *)
theory FulfilmentLaws
  imports Fulfilment
begin

section \<open>Every piece in a fulfilment is accounted for\<close>

text \<open>
  What the operations on fulfilments keep: the tables are well formed (\<open>shop_wf\<close>), and of every order
  line the pieces in live fulfilments are at most what the line has as fulfilled, which is at most what all
  its fulfilments hold and at most its quantity (\<open>accounted\<close>). The gap is the cancelled fulfilments: those of a
  cancelled order count as fulfilled, those that were put back in stock do not.
\<close>

subsection \<open>The invariant\<close>

definition pieces :: "fulfillment_line list \<Rightarrow> nat \<Rightarrow> int" where
  "pieces lines k = sum_rows fl_quantity (filter (\<lambda>l. fl_order_line l = k) lines)"

definition live :: "shop_db \<Rightarrow> nat \<Rightarrow> bool" where
  "live s f \<longleftrightarrow> (\<exists>r \<in> set (sh_fulfillments s). ff_pk r = f \<and> ff_status r \<noteq> FulfillmentStatus_CANCELED)"

definition live_lines :: "shop_db \<Rightarrow> fulfillment_line list" where
  "live_lines s = filter (\<lambda>l. live s (fl_fulfillment l)) (sh_fulfillment_lines s)"

definition shop_wf :: "shop_db \<Rightarrow> bool" where
  "shop_wf s \<longleftrightarrow> distinct (map ff_pk (sh_fulfillments s)) \<and> distinct (map fl_pk (sh_fulfillment_lines s))
     \<and> distinct (map ol_pk (sd_order_lines (sh_stock s)))
     \<and> (\<forall>l \<in> set (sh_fulfillment_lines s). fl_pk l < sh_line_sequence s \<and> 0 \<le> fl_quantity l
          \<and> fl_fulfillment l \<in> ff_pk ` set (sh_fulfillments s)
          \<and> fl_order_line l \<in> ol_pk ` set (sd_order_lines (sh_stock s)))
     \<and> (\<forall>f \<in> set (sh_fulfillments s). ff_status f = FulfillmentStatus_WAITING_FOR_APPROVAL
          \<longrightarrow> distinct (map fl_order_line (lines_in (ff_pk f) s)))"

definition accounted :: "shop_db \<Rightarrow> bool" where
  "accounted s \<longleftrightarrow> (\<forall>l \<in> set (sd_order_lines (sh_stock s)).
     pieces (live_lines s) (ol_pk l) \<le> ol_quantity_fulfilled l
     \<and> ol_quantity_fulfilled l \<le> pieces (sh_fulfillment_lines s) (ol_pk l)
     \<and> ol_quantity_fulfilled l \<le> ol_quantity l)"

definition shop_ok :: "shop_db \<Rightarrow> bool" where
  "shop_ok s \<longleftrightarrow> shop_wf s \<and> accounted s"

lemma pieces_simps [simp]:
  "pieces [] k = 0"
  "pieces (l # ls) k = (if fl_order_line l = k then fl_quantity l else 0) + pieces ls k"
  "pieces (ls @ ls') k = pieces ls k + pieces ls' k"
  by (simp_all add: pieces_def sum_rows_def)

lemma pieces_nonneg: "\<forall>l \<in> set ls. 0 \<le> fl_quantity l \<Longrightarrow> 0 \<le> pieces ls k"
  by (induction ls) auto

lemma pieces_split: "pieces ls k = pieces (filter P ls) k + pieces (filter (\<lambda>l. \<not> P l) ls) k"
  by (induction ls) auto

lemma pieces_filter_le: "\<forall>l \<in> set ls. 0 \<le> fl_quantity l \<Longrightarrow> pieces (filter P ls) k \<le> pieces ls k"
  by (induction ls) auto

lemma pieces_none: "\<forall>l \<in> set ls. fl_order_line l \<noteq> k \<Longrightarrow> pieces ls k = 0"
  by (induction ls) auto

subsection \<open>What matters to the invariant\<close>

definition view :: "shop_db \<Rightarrow> fulfillment list \<times> fulfillment_line list \<times> nat \<times> order_line list" where
  "view s = (sh_fulfillments s, sh_fulfillment_lines s, sh_line_sequence s, sd_order_lines (sh_stock s))"

lemma view_eq:
  "view s = view t \<longleftrightarrow> sh_fulfillments s = sh_fulfillments t \<and> sh_fulfillment_lines s = sh_fulfillment_lines t
     \<and> sh_line_sequence s = sh_line_sequence t \<and> sd_order_lines (sh_stock s) = sd_order_lines (sh_stock t)"
  by (simp add: view_def)

lemma shop_ok_view: "view s = view t \<Longrightarrow> shop_ok s = shop_ok t"
  by (simp add: view_eq shop_ok_def shop_wf_def accounted_def live_lines_def live_def lines_in_def)

lemma view_frames [simp]:
  "view (log_event k e s) = view s"
  "view (save_order_status k st s) = view s"
  "view (s\<lparr>sh_pay := p\<rparr>) = view s"
  "view (s\<lparr>sh_circulated_currency := c, sh_circulated_items := i\<rparr>) = view s"
  by (simp_all add: view_def log_event_def save_order_status_def)

lemma view_update_order_status [simp]: "view (update_order_status k s) = view s"
  by (simp add: update_order_status_def Let_def split: option.splits prod.splits)

lemma view_stock: "sd_order_lines t = sd_order_lines (sh_stock s) \<Longrightarrow> view (s\<lparr>sh_stock := t\<rparr>) = view s"
  by (simp add: view_def)

lemma deallocate_stock_lines [simp]: "sd_order_lines (snd (deallocate_stock bu lines s)) = sd_order_lines s"
  by (simp add: deallocate_stock_def Let_def update_allocated_def split: prod.splits)

lemma decrease_stock_lines: "decrease_stock bu lines u e s = Inr t \<Longrightarrow> sd_order_lines t = sd_order_lines s"
proof -
  obtain failed r where run: "deallocate_stock bu lines s = (failed, r)" by fastforce
  have "sd_order_lines r = sd_order_lines s" using deallocate_stock_lines [of bu lines s] unfolding run by simp
  then show "decrease_stock bu lines u e s = Inr t \<Longrightarrow> sd_order_lines t = sd_order_lines s"
    by (auto simp: decrease_stock_def run Let_def split: if_splits prod.splits)
qed

lemma Stock_increase_stock_lines [simp]: "sd_order_lines (Stock_increase_stock q k s) = sd_order_lines s"
  by (simp add: Stock_increase_stock_def save_stock_def)

lemma increase_stock_lines: "increase_stock l v w q a s = Inr t \<Longrightarrow> sd_order_lines t = sd_order_lines s"
  by (auto simp: increase_stock_def Let_def save_stock_def split: option.splits if_splits)

lemma remove_reservations_lines [simp]: "sd_order_lines (remove_reservations_for_order k s) = sd_order_lines s"
  by (simp add: remove_reservations_for_order_def Let_def)

lemma decrease_stocks_view: "decrease_stocks dj now infos e s = Inr t \<Longrightarrow> view t = view s"
  by (auto simp: decrease_stocks_def on_stock_def Let_def view_def split: if_splits sum.splits dest: decrease_stock_lines)

lemma restock_loop_lines: "restock_loop ls w s = Inr t \<Longrightarrow> sd_order_lines t = sd_order_lines s"
  by (induction ls w s rule: restock_loop.induct)
    (auto simp: bindr_eq_Inr split: option.splits if_splits dest: increase_stock_lines)

lemma return_to_stocks_lines: "return_to_stocks ps s = Inr t \<Longrightarrow> sd_order_lines t = sd_order_lines s"
  by (induction ps s rule: return_to_stocks.induct) auto

subsection \<open>Writing fulfilled quantities and new lines\<close>

definition django_laws :: "django \<Rightarrow> bool" where
  "django_laws dj \<longleftrightarrow> bulk_update_law st_pk (dj_stocks dj) \<and> bulk_update_law ol_pk (dj_order_lines dj)
     \<and> bulk_update_law fl_pk (dj_fulfillment_lines dj)"

definition set_fulfilled :: "(nat \<Rightarrow> int) \<Rightarrow> order_line list \<Rightarrow> order_line list" where
  "set_fulfilled m = map (\<lambda>l. l\<lparr>ol_quantity_fulfilled := m (ol_pk l)\<rparr>)"

lemma set_fulfilled_keys [simp]: "map ol_pk (set_fulfilled m ls) = map ol_pk ls"
  by (simp add: set_fulfilled_def comp_def)

lemma set_fulfilled_twice [simp]: "set_fulfilled m' (set_fulfilled m ls) = set_fulfilled m' ls"
  by (simp add: set_fulfilled_def comp_def)

lemma fulfilled_of_row:
  "distinct (map ol_pk (sd_order_lines s)) \<Longrightarrow> l \<in> set (sd_order_lines s) \<Longrightarrow> fulfilled_of s (ol_pk l) = ol_quantity_fulfilled l"
proof -
  assume "distinct (map ol_pk (sd_order_lines s))" "l \<in> set (sd_order_lines s)"
  then have "row_of ol_pk (ol_pk l) (sd_order_lines s) = Some l" by (simp add: row_of_eq_Some)
  then show ?thesis by (simp add: fulfilled_of_def)
qed

lemma set_fulfilled_same:
  "distinct (map ol_pk (sd_order_lines s)) \<Longrightarrow> set_fulfilled (fulfilled_of s) (sd_order_lines s) = sd_order_lines s"
  by (auto simp: set_fulfilled_def fulfilled_of_row intro!: map_idI)

lemma first_update_keys:
  "first_update key (map (\<lambda>k. (k, g k)) ks) rows = map (\<lambda>r. if key r \<in> set ks then g (key r) r else r) rows"
  by (auto simp: first_update_def map_of_map_restrict restrict_map_def)

lemma update_fulfilled_frame [simp]:
  "sh_fulfillments (update_fulfilled dj ks m s) = sh_fulfillments s"
  "sh_fulfillment_lines (update_fulfilled dj ks m s) = sh_fulfillment_lines s"
  "sh_line_sequence (update_fulfilled dj ks m s) = sh_line_sequence s"
  by (simp_all add: update_fulfilled_def)

lemma update_fulfilled_lines:
  assumes "django_laws dj" "distinct (map ol_pk (sd_order_lines (sh_stock s)))"
    and same: "\<And>k. k \<notin> set ks \<Longrightarrow> m k = fulfilled_of (sh_stock s) k"
  shows "sd_order_lines (sh_stock (update_fulfilled dj ks m s)) = set_fulfilled m (sd_order_lines (sh_stock s))"
  using assms(1) fulfilled_of_row [OF assms(2)] same
  by (auto simp: update_fulfilled_def django_laws_def bulk_update_lawD first_update_keys set_fulfilled_def)

text \<open>What new lines add to an order line.\<close>

definition added :: "new_line list \<Rightarrow> nat \<Rightarrow> int" where
  "added news k = sum_list (map (\<lambda>(ol, _, q, _). if ol = k then q else 0) news)"

lemma added_simps [simp]:
  "added [] k = 0" "added ((ol, f, q, st) # news) k = (if ol = k then q else 0) + added news k"
  "added (news @ news') k = added news k + added news' k"
  by (simp_all add: added_def)

lemma fulfillment_line_rows_laws:
  "pieces (fulfillment_line_rows n news) k = added news k"
  "map fl_pk (fulfillment_line_rows n news) = [n..<n + length news]"
  "map fl_order_line (fulfillment_line_rows n news) = map fst news"
  "map fl_fulfillment (fulfillment_line_rows n news) = map (\<lambda>x. fst (snd x)) news"
  "map fl_quantity (fulfillment_line_rows n news) = map (\<lambda>x. fst (snd (snd x))) news"
  by (induction n news rule: fulfillment_line_rows.induct) (simp_all add: upt_rec)

lemma fulfillment_line_row_fields:
  "map (\<lambda>l. (fl_order_line l, fl_fulfillment l, fl_quantity l)) (fulfillment_line_rows n news)
     = map (\<lambda>(k, f, q, _). (k, f, q)) news"
  by (induction n news rule: fulfillment_line_rows.induct) simp_all

lemma row_of_new_line:
  assumes "l \<in> set (fulfillment_line_rows n news)"
  obtains x where "x \<in> set news" "fl_order_line l = fst x" "fl_fulfillment l = fst (snd x)" "fl_quantity l = fst (snd (snd x))"
    "n \<le> fl_pk l" "fl_pk l < n + length news"
proof -
  have "(\<exists>x \<in> set news. fl_order_line l = fst x \<and> fl_fulfillment l = fst (snd x) \<and> fl_quantity l = fst (snd (snd x)))
      \<and> n \<le> fl_pk l \<and> fl_pk l < n + length news"
    using assms
  proof (induction n news rule: fulfillment_line_rows.induct)
    case (2 k ol f q st news)
    show ?case
    proof (cases "l \<in> set (fulfillment_line_rows (Suc k) news)")
      case True
      from 2(1) [OF this] show ?thesis by auto
    next
      case False
      then have "l = \<lparr>fl_pk = k, fl_order_line = ol, fl_fulfillment = f, fl_quantity = q, fl_stock = st\<rparr>" using 2(2) by simp
      then show ?thesis by simp
    qed
  qed simp
  then show thesis using that by auto
qed

lemma bulk_create_lines:
  assumes "fulfillment_line_bulk_create news s = Inr (rows, t)"
  shows "rows = fulfillment_line_rows (sh_line_sequence s) news"
    "t = s\<lparr>sh_fulfillment_lines := sh_fulfillment_lines s @ rows, sh_line_sequence := sh_line_sequence s + length news\<rparr>"
    "\<And>x. x \<in> set news \<Longrightarrow> 0 \<le> fst (snd (snd x))"
  using assms by (auto simp: fulfillment_line_bulk_create_def Let_def split: if_splits)

subsection \<open>Putting pieces into a fulfilment\<close>

lemma shop_ok_put:
  assumes ok: "shop_ok s"
    and lines: "sh_fulfillment_lines t = sh_fulfillment_lines s @ fulfillment_line_rows (sh_line_sequence s) news"
    and sequence: "sh_line_sequence t = sh_line_sequence s + length news"
    and fulfillments: "sh_fulfillments t = sh_fulfillments s"
    and order_lines: "sd_order_lines (sh_stock t) =
      set_fulfilled (\<lambda>k. fulfilled_of (sh_stock s) k + added news k) (sd_order_lines (sh_stock s))"
    and news: "\<And>x. x \<in> set news \<Longrightarrow> 0 \<le> fst (snd (snd x)) \<and> fst x \<in> ol_pk ` set (sd_order_lines (sh_stock s))
      \<and> fst (snd x) \<in> ff_pk ` set (sh_fulfillments s)"
    and room: "\<And>l. l \<in> set (sd_order_lines (sh_stock s)) \<Longrightarrow> ol_quantity_fulfilled l + added news (ol_pk l) \<le> ol_quantity l"
    and waiting: "\<And>f. f \<in> set (sh_fulfillments s) \<Longrightarrow> ff_status f = FulfillmentStatus_WAITING_FOR_APPROVAL \<Longrightarrow>
      distinct (map fl_order_line (lines_in (ff_pk f) t))"
  shows "shop_ok t"
proof -
  let ?rows = "fulfillment_line_rows (sh_line_sequence s) news"
  have wf: "shop_wf s" and acc: "accounted s" using ok by (simp_all add: shop_ok_def)
  then have ols: "distinct (map ol_pk (sd_order_lines (sh_stock s)))" by (simp add: shop_wf_def)
  have rows: "0 \<le> fl_quantity l \<and> fl_order_line l \<in> ol_pk ` set (sd_order_lines (sh_stock s))
      \<and> fl_fulfillment l \<in> ff_pk ` set (sh_fulfillments s) \<and> sh_line_sequence s \<le> fl_pk l
      \<and> fl_pk l < sh_line_sequence s + length news" if "l \<in> set ?rows" for l
    using row_of_new_line [OF that] news by metis
  have keys: "set (map ol_pk (sd_order_lines (sh_stock t))) = set (map ol_pk (sd_order_lines (sh_stock s)))"
    unfolding order_lines by simp
  have "distinct (map fl_pk (sh_fulfillment_lines t))"
    using wf rows by (fastforce simp: lines shop_wf_def fulfillment_line_rows_laws)
  moreover have "distinct (map ol_pk (sd_order_lines (sh_stock t)))"
    unfolding order_lines using ols by simp
  moreover have "\<forall>l \<in> set (sh_fulfillment_lines t). fl_pk l < sh_line_sequence t \<and> 0 \<le> fl_quantity l
      \<and> fl_fulfillment l \<in> ff_pk ` set (sh_fulfillments t) \<and> fl_order_line l \<in> ol_pk ` set (sd_order_lines (sh_stock t))"
    using wf rows keys unfolding lines sequence fulfillments shop_wf_def by fastforce
  ultimately have "shop_wf t" using wf waiting by (simp add: shop_wf_def fulfillments)
  moreover have "accounted t"
    unfolding accounted_def
  proof
    fix l' assume "l' \<in> set (sd_order_lines (sh_stock t))"
    then obtain l where l: "l \<in> set (sd_order_lines (sh_stock s))"
      and l': "l' = l\<lparr>ol_quantity_fulfilled := ol_quantity_fulfilled l + added news (ol_pk l)\<rparr>"
      unfolding order_lines set_fulfilled_def using fulfilled_of_row [OF ols] by auto
    have live: "live_lines t = live_lines s @ filter (\<lambda>l. live s (fl_fulfillment l)) ?rows"
      by (simp add: live_lines_def live_def lines fulfillments)
    have "pieces (filter (\<lambda>l. live s (fl_fulfillment l)) ?rows) (ol_pk l) \<le> added news (ol_pk l)"
      using pieces_filter_le [of ?rows] rows unfolding fulfillment_line_rows_laws(1) by auto
    with acc l room [OF l] show "pieces (live_lines t) (ol_pk l') \<le> ol_quantity_fulfilled l'
        \<and> ol_quantity_fulfilled l' \<le> pieces (sh_fulfillment_lines t) (ol_pk l')
        \<and> ol_quantity_fulfilled l' \<le> ol_quantity l'"
      by (auto simp: accounted_def l' live lines fulfillment_line_rows_laws(1))
  qed
  ultimately show ?thesis by (simp add: shop_ok_def)
qed

text \<open>A later state: no fulfilment has changed, and old lines are in the fulfilments they were in.\<close>

definition extends :: "shop_db \<Rightarrow> shop_db \<Rightarrow> bool" where
  "extends s t \<longleftrightarrow> set (sh_fulfillments s) \<subseteq> set (sh_fulfillments t) \<and> sh_line_sequence s \<le> sh_line_sequence t
     \<and> (\<forall>l' \<in> set (sh_fulfillment_lines t). fl_pk l' < sh_line_sequence s
          \<longrightarrow> (\<exists>l \<in> set (sh_fulfillment_lines s). fl_pk l = fl_pk l' \<and> fl_fulfillment l = fl_fulfillment l'))"

lemma extends_refl [simp]: "extends s s"
  by (auto simp: extends_def)

lemma extends_trans: "extends s t \<Longrightarrow> extends t u \<Longrightarrow> extends s u"
  unfolding extends_def by (smt (verit) order_less_le_trans order_trans subset_trans)

lemma extends_live: "extends s t \<Longrightarrow> live s f \<Longrightarrow> live t f"
  by (auto simp: extends_def live_def)

lemma extends_view: "view t = view t' \<Longrightarrow> extends s t = extends s t'" "view s = view s' \<Longrightarrow> extends s t = extends s' t"
  by (simp_all add: extends_def view_eq)

lemma extends_put:
  assumes "sh_fulfillments t = sh_fulfillments s" "sh_line_sequence s \<le> sh_line_sequence t"
    "sh_fulfillment_lines t = sh_fulfillment_lines s @ fulfillment_line_rows (sh_line_sequence s) news"
  shows "extends s t"
  using assms by (auto simp: extends_def elim!: row_of_new_line)

lemma next_fulfillment_pk_fresh: "f \<in> set (sh_fulfillments s) \<Longrightarrow> ff_pk f < next_fulfillment_pk s"
proof -
  assume "f \<in> set (sh_fulfillments s)"
  then have "ff_pk f \<in> set (map ff_pk (sh_fulfillments s))" by simp
  then have "ff_pk f \<le> sum_list (map ff_pk (sh_fulfillments s))" by (rule member_le_sum_list) simp
  then show ?thesis by (simp add: next_fulfillment_pk_def)
qed

lemma next_fulfillment_pk_new: "next_fulfillment_pk s \<notin> ff_pk ` set (sh_fulfillments s)"
  by (auto dest: next_fulfillment_pk_fresh)

lemma create_fulfillment_ok:
  assumes create: "create_fulfillment k st tr total_amount shipping s = (f, t)" and ok: "shop_ok s"
  shows "shop_ok t" "extends s t" "f = next_fulfillment_pk s" "live t f \<longleftrightarrow> st \<noteq> FulfillmentStatus_CANCELED"
    "\<exists>r. sh_fulfillments t = sh_fulfillments s @ [r] \<and> ff_pk r = f \<and> ff_status r = st \<and> ff_order r = k"
    "sh_stock t = sh_stock s" "sh_fulfillment_lines t = sh_fulfillment_lines s" "sh_line_sequence t = sh_line_sequence s"
    "lines_in f t = []"
proof -
  define r where "r = \<lparr>ff_pk = next_fulfillment_pk s, ff_fulfillment_order = next_fulfillment_order k s, ff_order = k,
    ff_status = st, ff_tracking_number = tr, ff_shipping_refund_amount = shipping, ff_total_refund_amount = total_amount\<rparr>"
  have eqs: "next_fulfillment_pk s = f \<and> s\<lparr>sh_fulfillments := sh_fulfillments s @ [r]\<rparr> = t"
    using create unfolding create_fulfillment_def prod.inject r_def .
  then have t: "t = s\<lparr>sh_fulfillments := sh_fulfillments s @ [r]\<rparr>" and f: "f = next_fulfillment_pk s" by simp_all
  have r: "ff_pk r = f" "ff_status r = st" "ff_order r = k" by (simp_all add: r_def f)
  have wf: "shop_wf s" and acc: "accounted s" using ok by (simp_all add: shop_ok_def)
  have old: "fl_fulfillment l \<noteq> f \<and> fl_fulfillment l \<in> ff_pk ` set (sh_fulfillments s)" if "l \<in> set (sh_fulfillment_lines s)" for l
  proof -
    have "fl_fulfillment l \<in> ff_pk ` set (sh_fulfillments s)" using that wf by (simp add: shop_wf_def)
    then show ?thesis using next_fulfillment_pk_new [of s] by (auto simp: f)
  qed
  have none: "lines_in f t = []" using old by (auto simp: lines_in_def t filter_empty_conv)
  have same: "lines_in g t = lines_in g s" for g by (simp add: lines_in_def t)
  have "f \<notin> ff_pk ` set (sh_fulfillments s)" using next_fulfillment_pk_new by (simp add: f)
  then have "shop_wf t" using wf none by (auto simp: shop_wf_def t r lines_in_def)
  moreover have "live t g = live s g" if "g \<noteq> f" for g using that r by (auto simp: live_def t image_iff)
  then have "live_lines t = live_lines s" using old by (auto simp: live_lines_def t intro!: filter_cong)
  then have "accounted t" using acc by (simp add: accounted_def t)
  ultimately show "shop_ok t" by (simp add: shop_ok_def)
  show "live t f \<longleftrightarrow> st \<noteq> FulfillmentStatus_CANCELED"
    using r \<open>f \<notin> ff_pk ` set (sh_fulfillments s)\<close> by (auto simp: live_def t image_iff)
  show "lines_in f t = []" by (rule none)
  show "extends s t" by (auto simp: extends_def t)
  show "\<exists>r. sh_fulfillments t = sh_fulfillments s @ [r] \<and> ff_pk r = f \<and> ff_status r = st \<and> ff_order r = k"
    using t r by auto
qed (use create in \<open>auto simp: create_fulfillment_def\<close>)

lemma move_order_lines_loop_laws:
  assumes "move_order_lines_loop s target infos m = Inr (news, m')"
  shows "m' k = m k + added news k" "k \<notin> set (map oi_line infos) \<Longrightarrow> m' k = m k"
    "x \<in> set news \<Longrightarrow> fst (snd x) = target \<and> fst x \<in> ol_pk ` set (sd_order_lines s)"
    "distinct (map ol_pk (sd_order_lines s)) \<Longrightarrow> l \<in> set (sd_order_lines s) \<Longrightarrow> m (ol_pk l) \<le> ol_quantity l
      \<Longrightarrow> m' (ol_pk l) \<le> ol_quantity l"
    "map fst news = map oi_line infos"
proof -
  have "m' k = m k + added news k \<and> (k \<notin> set (map oi_line infos) \<longrightarrow> m' k = m k)
    \<and> (\<forall>x \<in> set news. fst (snd x) = target \<and> fst x \<in> ol_pk ` set (sd_order_lines s))
    \<and> (distinct (map ol_pk (sd_order_lines s)) \<longrightarrow> (\<forall>l \<in> set (sd_order_lines s). m (ol_pk l) \<le> ol_quantity l
      \<longrightarrow> m' (ol_pk l) \<le> ol_quantity l)) \<and> map fst news = map oi_line infos"
    using assms
  proof (induction infos arbitrary: m news)
    case (Cons i infos)
    from Cons.prems obtain l0 where l0: "row_of ol_pk (oi_line i) (sd_order_lines s) = Some l0" by (auto split: option.splits)
    let ?u = "min (ol_quantity l0 - m (oi_line i)) (oi_quantity i)"
    from Cons.prems l0 obtain rest where run: "move_order_lines_loop s target infos (m(oi_line i := m (oi_line i) + ?u)) = Inr (rest, m')"
      and news: "news = (oi_line i, target, ?u, None) # rest" by (auto simp: Let_def bindr_eq_Inr)
    note IH = Cons.IH [OF run]
    have l0': "l0 \<in> set (sd_order_lines s)" "ol_pk l0 = oi_line i" using row_of_SomeD [OF l0] by auto
    have "(m(oi_line i := m (oi_line i) + ?u)) (ol_pk l) \<le> ol_quantity l"
      if "distinct (map ol_pk (sd_order_lines s))" "l \<in> set (sd_order_lines s)" "m (ol_pk l) \<le> ol_quantity l" for l
      using that l0' by (cases "l = l0") (auto simp: distinct_map inj_on_def)
    then have "distinct (map ol_pk (sd_order_lines s)) \<Longrightarrow> \<forall>l \<in> set (sd_order_lines s). m (ol_pk l) \<le> ol_quantity l
        \<longrightarrow> m' (ol_pk l) \<le> ol_quantity l" using IH by blast
    moreover have "\<forall>x \<in> set news. fst (snd x) = target \<and> fst x \<in> ol_pk ` set (sd_order_lines s)"
      using IH l0' by (force simp: news)
    moreover have "m' k = m k + added news k" using IH by (simp add: news)
    moreover have "k \<notin> set (map oi_line (i # infos)) \<Longrightarrow> m' k = m k" using IH by simp
    moreover have "map fst news = map oi_line (i # infos)" using IH by (simp add: news)
    ultimately show ?case by blast
  qed simp
  then show "m' k = m k + added news k" "k \<notin> set (map oi_line infos) \<Longrightarrow> m' k = m k"
    "x \<in> set news \<Longrightarrow> fst (snd x) = target \<and> fst x \<in> ol_pk ` set (sd_order_lines s)"
    "distinct (map ol_pk (sd_order_lines s)) \<Longrightarrow> l \<in> set (sd_order_lines s) \<Longrightarrow> m (ol_pk l) \<le> ol_quantity l
      \<Longrightarrow> m' (ol_pk l) \<le> ol_quantity l"
    "map fst news = map oi_line infos"
    by blast+
qed

lemma accounted_room: "shop_ok s \<Longrightarrow> l \<in> set (sd_order_lines (sh_stock s)) \<Longrightarrow>
    fulfilled_of (sh_stock s) (ol_pk l) = ol_quantity_fulfilled l \<and> ol_quantity_fulfilled l \<le> ol_quantity l"
  by (simp add: shop_ok_def shop_wf_def accounted_def fulfilled_of_row)

text \<open>What moving order lines changes: the fulfilled quantities, and one new line for each.\<close>

lemma move_order_lines_changes:
  assumes laws: "django_laws dj" and ok: "shop_ok s"
    and move: "move_order_lines_to_target_fulfillment dj infos target s = Inr (created, t)"
  obtains news m where "move_order_lines_loop (sh_stock s) target infos (fulfilled_of (sh_stock s)) = Inr (news, m)"
    "sd_order_lines (sh_stock t) = set_fulfilled m (sd_order_lines (sh_stock s))"
    "sh_fulfillment_lines t = sh_fulfillment_lines s @ fulfillment_line_rows (sh_line_sequence s) news"
    "sh_line_sequence t = sh_line_sequence s + length news" "sh_fulfillments t = sh_fulfillments s"
    "created = fulfillment_line_rows (sh_line_sequence s) news" "\<forall>x \<in> set news. 0 \<le> fst (snd (snd x))"
proof -
  obtain news m where loop: "move_order_lines_loop (sh_stock s) target infos (fulfilled_of (sh_stock s)) = Inr (news, m)"
    using move by (auto simp: move_order_lines_to_target_fulfillment_def bindr_eq_Inr)
  note L = move_order_lines_loop_laws [OF loop]
  define infos' where "infos' = map (\<lambda>(k, _, q, _). \<lparr>li_line = k, li_variant = None, li_quantity = q, li_warehouse = None\<rparr>)
    (filter (\<lambda>(k, _). \<exists>a \<in> set (sd_allocations (sh_stock s)). al_order_line a = k) news)"
  define s1 where "s1 = (if infos' = [] then s
    else s\<lparr>sh_stock := snd (deallocate_stock (dj_stocks dj) infos' (sh_stock s))\<rparr>)"
  have s1: "view s1 = view s" by (simp add: s1_def view_stock)
  have create: "bindr (fulfillment_line_bulk_create news s1) (\<lambda>(created, s).
         Inr (created, update_fulfilled dj (map oi_line infos) m s)) = Inr (created, t)"
    using move unfolding move_order_lines_to_target_fulfillment_def loop bindr_simps prod.case Let_def
    by (simp only: infos'_def [symmetric] s1_def [symmetric])
  obtain s2 where bulk: "fulfillment_line_bulk_create news s1 = Inr (created, s2)"
    and t: "t = update_fulfilled dj (map oi_line infos) m s2"
    using create by (auto simp: bindr_eq_Inr)
  note B = bulk_create_lines [OF bulk]
  have stock2: "sd_order_lines (sh_stock s2) = sd_order_lines (sh_stock s)" using s1 by (simp add: B(2) view_eq)
  then have same: "fulfilled_of (sh_stock s2) = fulfilled_of (sh_stock s)" by (simp add: fulfilled_of_def fun_eq_iff)
  have dist: "distinct (map ol_pk (sd_order_lines (sh_stock s)))" using ok by (simp add: shop_ok_def shop_wf_def)
  have ols: "sd_order_lines (sh_stock t) = set_fulfilled m (sd_order_lines (sh_stock s))"
    using update_fulfilled_lines [OF laws, of s2 "map oi_line infos" m] dist L(2)
    by (simp add: t stock2 same)
  have lines: "sh_fulfillment_lines t = sh_fulfillment_lines s @ fulfillment_line_rows (sh_line_sequence s) news"
    and seq: "sh_line_sequence t = sh_line_sequence s + length news" and ffs: "sh_fulfillments t = sh_fulfillments s"
    using s1 by (simp_all add: t B(1,2) view_eq)
  have "created = fulfillment_line_rows (sh_line_sequence s) news" using s1 by (simp add: B(1) view_eq)
  moreover have "\<forall>x \<in> set news. 0 \<le> fst (snd (snd x))" using B(3) by blast
  ultimately show thesis using that [OF loop ols lines seq ffs] by blast
qed

lemma move_order_lines_ok:
  assumes laws: "django_laws dj" and ok: "shop_ok s"
    and target: "r \<in> set (sh_fulfillments s)" "ff_pk r = target" "ff_status r \<noteq> FulfillmentStatus_WAITING_FOR_APPROVAL"
    and move: "move_order_lines_to_target_fulfillment dj infos target s = Inr (created, t)"
  shows "shop_ok t" "extends s t" "sh_fulfillments t = sh_fulfillments s"
    "c \<in> set created \<Longrightarrow> c \<in> set (sh_fulfillment_lines t) \<and> fl_fulfillment c = target \<and> sh_line_sequence s \<le> fl_pk c"
proof -
  from move_order_lines_changes [OF laws ok move] obtain news m where
    loop: "move_order_lines_loop (sh_stock s) target infos (fulfilled_of (sh_stock s)) = Inr (news, m)"
    and ols: "sd_order_lines (sh_stock t) = set_fulfilled m (sd_order_lines (sh_stock s))"
    and lines: "sh_fulfillment_lines t = sh_fulfillment_lines s @ fulfillment_line_rows (sh_line_sequence s) news"
    and seq: "sh_line_sequence t = sh_line_sequence s + length news" and ffs: "sh_fulfillments t = sh_fulfillments s"
    and created: "created = fulfillment_line_rows (sh_line_sequence s) news"
    and nonneg: "\<forall>x \<in> set news. 0 \<le> fst (snd (snd x))" .
  note L = move_order_lines_loop_laws [OF loop]
  have dist: "distinct (map ol_pk (sd_order_lines (sh_stock s)))" using ok by (simp add: shop_ok_def shop_wf_def)
  have m: "m = (\<lambda>k. fulfilled_of (sh_stock s) k + added news k)" using L(1) by auto
  show "shop_ok t"
  proof (rule shop_ok_put [OF ok lines seq ffs])
    show "sd_order_lines (sh_stock t) =
        set_fulfilled (\<lambda>k. fulfilled_of (sh_stock s) k + added news k) (sd_order_lines (sh_stock s))"
      using ols m by simp
  next
    fix x assume "x \<in> set news"
    then show "0 \<le> fst (snd (snd x)) \<and> fst x \<in> ol_pk ` set (sd_order_lines (sh_stock s)) \<and> fst (snd x) \<in> ff_pk ` set (sh_fulfillments s)"
      using nonneg L(3) [of x] target(1,2) by auto
  next
    fix l assume l: "l \<in> set (sd_order_lines (sh_stock s))"
    then show "ol_quantity_fulfilled l + added news (ol_pk l) \<le> ol_quantity l"
      using L(4) [OF dist l] accounted_room [OF ok l] by (simp add: m)
  next
    fix f assume f: "f \<in> set (sh_fulfillments s)" "ff_status f = FulfillmentStatus_WAITING_FOR_APPROVAL"
    have "ff_pk f \<noteq> target" using f target ok by (auto simp: shop_ok_def shop_wf_def distinct_map inj_on_def)
    then have "lines_in (ff_pk f) t = lines_in (ff_pk f) s"
      using L(3) by (force simp: lines_in_def lines filter_empty_conv elim!: row_of_new_line)
    then show "distinct (map fl_order_line (lines_in (ff_pk f) t))" using f ok by (simp add: shop_ok_def shop_wf_def)
  qed
  show "extends s t" by (rule extends_put [OF ffs _ lines]) (simp add: seq)
  show "sh_fulfillments t = sh_fulfillments s" by (rule ffs)
  assume "c \<in> set created"
  then have "c \<in> set (fulfillment_line_rows (sh_line_sequence s) news)" by (simp add: created)
  then show "c \<in> set (sh_fulfillment_lines t) \<and> fl_fulfillment c = target \<and> sh_line_sequence s \<le> fl_pk c"
    using L(3) by (auto simp: lines elim!: row_of_new_line)
qed

subsection \<open>Moving lines\<close>

text \<open>The lines with the quantities that their objects hold.\<close>

definition weigh :: "(nat \<Rightarrow> int) \<Rightarrow> fulfillment_line list \<Rightarrow> fulfillment_line list" where
  "weigh m = map (\<lambda>l. l\<lparr>fl_quantity := m (fl_pk l)\<rparr>)"

lemma weigh_simps [simp]:
  "weigh m [] = []" "weigh m (l # ls) = l\<lparr>fl_quantity := m (fl_pk l)\<rparr> # weigh m ls"
  "map fl_pk (weigh m ls) = map fl_pk ls" "map fl_order_line (weigh m ls) = map fl_order_line ls"
  by (simp_all add: weigh_def comp_def)

lemma weigh_change:
  assumes "distinct (map fl_pk ls)" "l \<in> set ls"
  shows "pieces (weigh (m(fl_pk l := m (fl_pk l) + d)) ls) k
    = pieces (weigh m ls) k + (if fl_order_line l = k then d else 0)"
proof -
  have other: "weigh (m(x := y)) ls' = weigh m ls'" if "x \<notin> fl_pk ` set ls'" for x y and ls' :: "fulfillment_line list"
    using that by (auto simp: weigh_def)
  show ?thesis using assms
    by (induction ls) (auto simp: other simp del: fun_upd_apply, simp_all add: image_iff)
qed

text \<open>One move: \<open>t\<close> pieces leave the line \<open>l\<close> for the existing line \<open>e\<close>, or for a new one.\<close>

lemma weigh_move:
  fixes m :: "nat \<Rightarrow> int"
  assumes "distinct (map fl_pk ls)" "l \<in> set ls"
    and "\<And>e. existing = Some e \<Longrightarrow> \<exists>r \<in> set ls. fl_pk r = e \<and> fl_order_line r = fl_order_line l"
    and "existing = None \<Longrightarrow> new = t" "existing \<noteq> None \<Longrightarrow> new = 0"
  defines "m1 \<equiv> (case existing of None \<Rightarrow> m | Some e \<Rightarrow> m(e := m e + t))"
  shows "pieces (weigh (m1(fl_pk l := m1 (fl_pk l) - t)) ls) k + (if fl_order_line l = k then new else 0)
    = pieces (weigh m ls) k"
proof -
  have "pieces (weigh (m1(fl_pk l := m1 (fl_pk l) + - t)) ls) k = pieces (weigh m1 ls) k + (if fl_order_line l = k then - t else 0)"
    by (rule weigh_change [OF assms(1,2)])
  moreover have "pieces (weigh m1 ls) k = pieces (weigh m ls) k + (if fl_order_line l = k then t - new else 0)"
  proof (cases existing)
    case (Some e)
    then obtain r where "r \<in> set ls" "fl_pk r = e" "fl_order_line r = fl_order_line l" using assms(3) by blast
    with weigh_change [OF assms(1), of r m t k] show ?thesis using Some assms(5) by (simp add: m1_def)
  qed (use assms(4) in \<open>simp add: m1_def\<close>)
  ultimately show ?thesis by simp
qed

lemma existing_line:
  assumes "map_option fl_pk (get_fulfillment_line_if_exists ls ol st) = Some e"
  shows "\<exists>c \<in> set ls. fl_pk c = e \<and> fl_order_line c = ol"
  using assms by (auto simp: get_fulfillment_line_if_exists_def dest: find_SomeD)

lemma move_fulfillment_lines_loop_laws:
  assumes rows: "distinct (map fl_pk rows)" and in_target: "set in_target \<subseteq> set rows" "\<And>c. c \<in> set in_target \<Longrightarrow> Q c"
    and "move_fulfillment_lines_loop rows in_target target data m = Inr mv"
    and "\<And>d. d \<in> set data \<Longrightarrow> 0 \<le> fd_quantity d \<and> fd_line d \<notin> fl_pk ` set in_target"
    and "\<And>l. l \<in> set rows \<Longrightarrow> fl_pk l \<in> fd_line ` set data \<Longrightarrow> Q l"
    and "\<And>x. 0 \<le> m x"
  shows "(\<forall>k. pieces (weigh (mv_quantity mv) (filter Q rows)) k + added (mv_create mv) k = pieces (weigh m (filter Q rows)) k)
    \<and> (\<forall>x. 0 \<le> mv_quantity mv x)
    \<and> (\<forall>x. x \<notin> set (mv_update mv) \<union> set (mv_delete mv) \<longrightarrow> mv_quantity mv x = m x)
    \<and> (\<forall>x. x \<notin> fl_pk ` set in_target \<longrightarrow> m x = 0 \<longrightarrow> mv_quantity mv x = 0)
    \<and> (\<forall>x \<in> set (mv_delete mv). mv_quantity mv x = 0 \<and> x \<in> fl_pk ` set rows)
    \<and> (\<forall>n \<in> set (mv_create mv). fst (snd n) = target \<and> fst n \<in> fl_order_line ` set rows)"
  using assms(4-)
proof (induction data arbitrary: m mv)
  case (Cons d data)
  from Cons.prems(1) obtain l where l: "row_of fl_pk (fd_line d) rows = Some l" by (auto split: option.splits)
  then have lr: "l \<in> set rows" "fl_pk l = fd_line d" by (auto dest: row_of_SomeD)
  define existing where "existing = map_option fl_pk (get_fulfillment_line_if_exists in_target (fl_order_line l) (fl_stock l))"
  define t where "t = min (m (fl_pk l)) (fd_quantity d)"
  define m1 where "m1 = (case existing of None \<Rightarrow> m | Some e \<Rightarrow> m(e := m e + t))"
  define m2 where "m2 = m1(fl_pk l := m1 (fl_pk l) - t)"
  obtain rest where run: "move_fulfillment_lines_loop rows in_target target data m2 = Inr rest"
    and mv: "mv = rest\<lparr>mv_update := (if m2 (fl_pk l) = 0 then [] else [fl_pk l])
        @ (case existing of None \<Rightarrow> [] | Some e \<Rightarrow> [e]) @ mv_update rest,
      mv_create := (if existing = None \<and> t > 0 then [(fl_order_line l, target, t, fl_stock l)] else []) @ mv_create rest,
      mv_delete := (if m2 (fl_pk l) = 0 then [fl_pk l] else []) @ mv_delete rest\<rparr>"
    using Cons.prems(1) unfolding move_fulfillment_lines_loop.simps l option.case Let_def
      existing_def [symmetric] t_def [symmetric] m1_def [symmetric] m2_def [symmetric]
    by (auto simp: bindr_eq_Inr)
  have t: "0 \<le> t" "t \<le> m (fl_pk l)" using Cons.prems(2) [of d] Cons.prems(4) by (auto simp: t_def)
  have ex: "\<exists>c \<in> set in_target. fl_pk c = e \<and> fl_order_line c = fl_order_line l" if "existing = Some e" for e
    using existing_line that unfolding existing_def by blast
  have apart: "existing \<noteq> Some (fl_pk l)"
  proof
    assume "existing = Some (fl_pk l)"
    then obtain c where "c \<in> set in_target" "fl_pk c = fd_line d" using ex lr(2) by auto
    then show False using Cons.prems(2) [of d] by (auto simp: image_iff)
  qed
  have pos: "0 \<le> m2 x" for x
    using t Cons.prems(4) apart by (auto simp: m2_def m1_def split: option.splits)
  have IH: "(\<forall>k. pieces (weigh (mv_quantity rest) (filter Q rows)) k + added (mv_create rest) k = pieces (weigh m2 (filter Q rows)) k)
    \<and> (\<forall>x. 0 \<le> mv_quantity rest x)
    \<and> (\<forall>x. x \<notin> set (mv_update rest) \<union> set (mv_delete rest) \<longrightarrow> mv_quantity rest x = m2 x)
    \<and> (\<forall>x. x \<notin> fl_pk ` set in_target \<longrightarrow> m2 x = 0 \<longrightarrow> mv_quantity rest x = 0)
    \<and> (\<forall>x \<in> set (mv_delete rest). mv_quantity rest x = 0 \<and> x \<in> fl_pk ` set rows)
    \<and> (\<forall>n \<in> set (mv_create rest). fst (snd n) = target \<and> fst n \<in> fl_order_line ` set rows)"
    by (rule Cons.IH [OF run]) (use Cons.prems(2,3) pos in auto)
  have "Q l" using Cons.prems(3) [of l] lr by simp
  then have sum: "pieces (weigh m2 (filter Q rows)) k
      + (if fl_order_line l = k then if existing = None then t else 0 else 0) = pieces (weigh m (filter Q rows)) k" for k
    unfolding m2_def m1_def using lr rows ex in_target
    by (intro weigh_move) (auto simp: distinct_map inj_on_def)
  have "pieces (weigh (mv_quantity mv) (filter Q rows)) k + added (mv_create mv) k = pieces (weigh m (filter Q rows)) k" for k
  proof -
    have "pieces (weigh (mv_quantity rest) (filter Q rows)) k + added (mv_create rest) k = pieces (weigh m2 (filter Q rows)) k"
      using IH by blast
    then show ?thesis using t sum [of k] by (auto simp: mv)
  qed
  moreover have "x \<notin> set (mv_update mv) \<union> set (mv_delete mv) \<longrightarrow> mv_quantity mv x = m x" for x
    using IH by (auto simp: mv m2_def m1_def split: option.splits if_splits)
  moreover have "x \<notin> fl_pk ` set in_target \<longrightarrow> m x = 0 \<longrightarrow> mv_quantity mv x = 0" for x
  proof (intro impI)
    assume x: "x \<notin> fl_pk ` set in_target" "m x = 0"
    then have "existing \<noteq> Some x" using ex by blast
    then have "m2 x = 0" using x t by (auto simp: m2_def m1_def split: option.splits)
    then show "mv_quantity mv x = 0" using IH x by (simp add: mv)
  qed
  moreover have "mv_quantity mv x = 0 \<and> x \<in> fl_pk ` set rows" if "x \<in> set (mv_delete mv)" for x
  proof (cases "x \<in> set (mv_delete rest)")
    case True
    then show ?thesis using IH by (simp add: mv)
  next
    case False
    then have "x = fl_pk l" "m2 x = 0" using that by (auto simp: mv split: if_splits)
    moreover have "x \<in> fl_pk ` set rows" using lr(1) \<open>x = fl_pk l\<close> by (rule rev_image_eqI)
    ultimately show ?thesis using IH lr Cons.prems(2) [of d] by (simp add: mv)
  qed
  moreover have "\<forall>n \<in> set (mv_create mv). fst (snd n) = target \<and> fst n \<in> fl_order_line ` set rows"
    using IH lr by (auto simp: mv)
  moreover have "\<forall>x. 0 \<le> mv_quantity mv x" using IH by (simp add: mv)
  ultimately show ?case by blast
qed simp

text \<open>The lines that a refund or return may move: known ones, in live fulfilments, no negative quantities.\<close>

definition movable :: "shop_db \<Rightarrow> fulfillment_line_data list \<Rightarrow> bool" where
  "movable s data \<longleftrightarrow> (\<forall>d \<in> set data. 0 \<le> fd_quantity d \<and> fd_line d < sh_line_sequence s)
     \<and> (\<forall>l \<in> set (sh_fulfillment_lines s). fl_pk l \<in> fd_line ` set data \<longrightarrow> live s (fl_fulfillment l))"

lemma movable_extends: "movable s data \<Longrightarrow> extends s t \<Longrightarrow> movable t data"
  unfolding movable_def
proof (intro conjI ballI impI)
  assume m: "(\<forall>d \<in> set data. 0 \<le> fd_quantity d \<and> fd_line d < sh_line_sequence s)
     \<and> (\<forall>l \<in> set (sh_fulfillment_lines s). fl_pk l \<in> fd_line ` set data \<longrightarrow> live s (fl_fulfillment l))" and e: "extends s t"
  show "0 \<le> fd_quantity d" "fd_line d < sh_line_sequence t" if "d \<in> set data" for d
    using m e that by (auto simp: extends_def intro: order_less_le_trans)
  fix l' assume l': "l' \<in> set (sh_fulfillment_lines t)" "fl_pk l' \<in> fd_line ` set data"
  then have "fl_pk l' < sh_line_sequence s" using m by auto
  with l' e obtain l where "l \<in> set (sh_fulfillment_lines s)" "fl_pk l = fl_pk l'" "fl_fulfillment l = fl_fulfillment l'"
    unfolding extends_def by blast
  with m l'(2) extends_live [OF e] show "live t (fl_fulfillment l')" by metis
qed

lemma movable_subset: "movable s data \<Longrightarrow> set data' \<subseteq> set data \<Longrightarrow> movable s data'"
  unfolding movable_def by blast

lemma movable_view: "view s = view t \<Longrightarrow> movable s data = movable t data"
  by (simp add: movable_def view_eq live_def)

lemma weigh_rows:
  "(\<And>l. l \<in> set ls \<Longrightarrow> m (fl_pk l) = fl_quantity l) \<Longrightarrow> weigh m ls = ls"
  by (auto simp: weigh_def intro!: map_idI)

lemma pieces_deleted:
  "(\<And>l. l \<in> set ls \<Longrightarrow> P l \<Longrightarrow> fl_quantity l = 0) \<Longrightarrow> pieces (filter (\<lambda>l. \<not> P l) ls) k = pieces ls k"
  by (induction ls) auto

lemma filter_weigh: "(\<And>l q. P (l\<lparr>fl_quantity := q\<rparr>) = P l) \<Longrightarrow> filter P (weigh m ls) = weigh m (filter P ls)"
  by (simp add: weigh_def filter_map comp_def)

lemma move_fulfillment_lines_result:
  assumes laws: "django_laws dj" and ok: "shop_ok s"
    and in_target: "\<And>c. c \<in> set ls \<Longrightarrow> c \<in> set (sh_fulfillment_lines s) \<and> live s (fl_fulfillment c)"
    and apart: "\<And>c. c \<in> set ls \<Longrightarrow> fl_pk c \<notin> fd_line ` set data" and data: "movable s data"
    and move: "move_fulfillment_lines_to_target_fulfillment dj data ls target s = Inr t"
  obtains m gone news where
    "sh_fulfillment_lines t = filter (\<lambda>l. fl_pk l \<notin> set gone) (weigh m (sh_fulfillment_lines s))
       @ fulfillment_line_rows (sh_line_sequence s) news"
    "sh_line_sequence t = sh_line_sequence s + length news" "sh_fulfillments t = sh_fulfillments s" "sh_stock t = sh_stock s"
    "\<And>k. pieces (weigh m (sh_fulfillment_lines s)) k + added news k = pieces (sh_fulfillment_lines s) k"
    "\<And>k. pieces (weigh m (live_lines s)) k + added news k = pieces (live_lines s) k"
    "\<And>x. 0 \<le> m x" "\<And>x. x \<in> set gone \<Longrightarrow> m x = 0"
    "\<And>n. n \<in> set news \<Longrightarrow> fst (snd n) = target \<and> 0 \<le> fst (snd (snd n)) \<and> fst n \<in> fl_order_line ` set (sh_fulfillment_lines s)"
proof -
  let ?rows = "sh_fulfillment_lines s"
  define q where "q = (\<lambda>k. case row_of fl_pk k ?rows of None \<Rightarrow> 0 | Some l \<Rightarrow> fl_quantity l)"
  have dist: "distinct (map fl_pk ?rows)" and nonneg: "\<forall>l \<in> set ?rows. 0 \<le> fl_quantity l" and below: "\<forall>l \<in> set ?rows. fl_pk l < sh_line_sequence s"
    using ok by (simp_all add: shop_ok_def shop_wf_def)
  have q: "q (fl_pk l) = fl_quantity l" if "l \<in> set ?rows" for l
    using that dist by (simp add: q_def row_of_eq_Some [THEN iffD2])
  have q0: "0 \<le> q x" for x using nonneg by (auto simp: q_def split: option.splits dest!: row_of_SomeD)
  obtain mv s1 created s2 where loop: "move_fulfillment_lines_loop ?rows ls target data q = Inr mv"
    and s1: "s1 = s\<lparr>sh_fulfillment_lines := dj_fulfillment_lines dj
        (map (\<lambda>k. (k, \<lambda>l. l\<lparr>fl_quantity := mv_quantity mv k\<rparr>)) (mv_update mv)) ?rows\<rparr>"
    and bulk: "fulfillment_line_bulk_create (mv_create mv) s1 = Inr (created, s2)"
    and t: "t = s2\<lparr>sh_fulfillment_lines := filter (\<lambda>l. fl_pk l \<notin> set (mv_delete mv)) (sh_fulfillment_lines s2)\<rparr>"
    using move unfolding move_fulfillment_lines_to_target_fulfillment_def Let_def q_def [symmetric]
    by (auto simp: bindr_eq_Inr split: if_splits)
  have apart': "fd_line d \<notin> fl_pk ` set ls" if "d \<in> set data" for d
  proof
    assume "fd_line d \<in> fl_pk ` set ls"
    then obtain c where "c \<in> set ls" "fl_pk c = fd_line d" by auto
    then show False using apart that by (metis image_eqI)
  qed
  have L: "(\<forall>k. pieces (weigh (mv_quantity mv) (filter Q ?rows)) k + added (mv_create mv) k = pieces (weigh q (filter Q ?rows)) k)
    \<and> (\<forall>x. 0 \<le> mv_quantity mv x)
    \<and> (\<forall>x. x \<notin> set (mv_update mv) \<union> set (mv_delete mv) \<longrightarrow> mv_quantity mv x = q x)
    \<and> (\<forall>x. x \<notin> fl_pk ` set ls \<longrightarrow> q x = 0 \<longrightarrow> mv_quantity mv x = 0)
    \<and> (\<forall>x \<in> set (mv_delete mv). mv_quantity mv x = 0 \<and> x \<in> fl_pk ` set ?rows)
    \<and> (\<forall>n \<in> set (mv_create mv). fst (snd n) = target \<and> fst n \<in> fl_order_line ` set ?rows)"
    if "\<And>l. live s (fl_fulfillment l) \<Longrightarrow> Q l" for Q
    by (rule move_fulfillment_lines_loop_laws [OF dist _ _ loop]) (use in_target apart' data q0 that in \<open>auto simp: movable_def\<close>)
  note LT = L [of "\<lambda>_. True", simplified] and LL = L [of "\<lambda>l. live s (fl_fulfillment l)", simplified]
  note B = bulk_create_lines [OF bulk]
  have s1_lines: "filter (\<lambda>l. fl_pk l \<notin> set (mv_delete mv)) (sh_fulfillment_lines s1)
      = filter (\<lambda>l. fl_pk l \<notin> set (mv_delete mv)) (weigh (mv_quantity mv) ?rows)"
  proof -
    have law: "bulk_update_law fl_pk (dj_fulfillment_lines dj)" using laws by (simp add: django_laws_def)
    have "sh_fulfillment_lines s1 = first_update fl_pk
        (map (\<lambda>k. (k, \<lambda>l. l\<lparr>fl_quantity := mv_quantity mv k\<rparr>)) (mv_update mv)) ?rows"
      by (simp add: s1 bulk_update_lawD [OF law])
    also have "\<dots> = map (\<lambda>l. if fl_pk l \<in> set (mv_update mv) then l\<lparr>fl_quantity := mv_quantity mv (fl_pk l)\<rparr> else l) ?rows"
      by (rule first_update_keys)
    finally have s1': "sh_fulfillment_lines s1 = \<dots>" .
    have "(if fl_pk l \<in> set (mv_update mv) then l\<lparr>fl_quantity := mv_quantity mv (fl_pk l)\<rparr> else l)
        = l\<lparr>fl_quantity := mv_quantity mv (fl_pk l)\<rparr>" if "l \<in> set ?rows" "fl_pk l \<notin> set (mv_delete mv)" for l
      using LT q [OF that(1)] that by simp
    then show ?thesis unfolding s1' weigh_def
      by (simp add: filter_map comp_def if_distrib [of fl_pk] cong: if_cong map_cong)
  qed
  have "filter (\<lambda>l. fl_pk l \<notin> set (mv_delete mv)) (fulfillment_line_rows (sh_line_sequence s) news)
      = fulfillment_line_rows (sh_line_sequence s) news" for news
    using LT below by (force simp: filter_id_conv elim!: row_of_new_line)
  then have lines: "sh_fulfillment_lines t = filter (\<lambda>l. fl_pk l \<notin> set (mv_delete mv)) (weigh (mv_quantity mv) ?rows)
      @ fulfillment_line_rows (sh_line_sequence s) (mv_create mv)"
    using s1_lines by (simp add: t B(1,2) s1)
  show thesis
  proof (rule that [of "mv_delete mv" "mv_quantity mv" "mv_create mv"])
    show "pieces (weigh (mv_quantity mv) ?rows) k + added (mv_create mv) k = pieces ?rows k" for k
      using LT weigh_rows [of ?rows q] q by simp
    show "pieces (weigh (mv_quantity mv) (live_lines s)) k + added (mv_create mv) k = pieces (live_lines s) k" for k
      using LL weigh_rows [of "live_lines s" q] q by (simp add: live_lines_def)
    show "fst (snd n) = target \<and> 0 \<le> fst (snd (snd n)) \<and> fst n \<in> fl_order_line ` set ?rows" if "n \<in> set (mv_create mv)" for n
      using LT B(3) that by blast
  qed (use lines LT in \<open>simp_all add: t B(2) s1\<close>)
qed

lemma move_fulfillment_lines_ok:
  assumes laws: "django_laws dj" and ok: "shop_ok s"
    and target: "r \<in> set (sh_fulfillments s)" "ff_pk r = target" "ff_status r \<notin>
      {FulfillmentStatus_WAITING_FOR_APPROVAL, FulfillmentStatus_CANCELED}"
    and in_target: "\<And>c. c \<in> set ls \<Longrightarrow> c \<in> set (sh_fulfillment_lines s) \<and> fl_fulfillment c = target"
    and apart: "\<And>c. c \<in> set ls \<Longrightarrow> fl_pk c \<notin> fd_line ` set data" and data: "movable s data"
    and move: "move_fulfillment_lines_to_target_fulfillment dj data ls target s = Inr t"
  shows "shop_ok t" "extends s t" "sh_fulfillments t = sh_fulfillments s" "sh_stock t = sh_stock s"
proof -
  have live: "live s target" using target by (auto simp: live_def)
  from move_fulfillment_lines_result [OF laws ok _ apart data move] in_target live
  obtain m gone news where
    lines: "sh_fulfillment_lines t = filter (\<lambda>l. fl_pk l \<notin> set gone) (weigh m (sh_fulfillment_lines s))
       @ fulfillment_line_rows (sh_line_sequence s) news"
    and seq: "sh_line_sequence t = sh_line_sequence s + length news" and ffs: "sh_fulfillments t = sh_fulfillments s"
    and stock: "sh_stock t = sh_stock s"
    and all: "\<And>k. pieces (weigh m (sh_fulfillment_lines s)) k + added news k = pieces (sh_fulfillment_lines s) k"
    and alive: "\<And>k. pieces (weigh m (live_lines s)) k + added news k = pieces (live_lines s) k"
    and m: "\<And>x. 0 \<le> m x" "\<And>x. x \<in> set gone \<Longrightarrow> m x = 0"
    and news: "\<And>n. n \<in> set news \<Longrightarrow> fst (snd n) = target \<and> 0 \<le> fst (snd (snd n)) \<and> fst n \<in> fl_order_line ` set (sh_fulfillment_lines s)"
    by metis
  let ?new = "fulfillment_line_rows (sh_line_sequence s) news"
  have wf: "shop_wf s" and acc: "accounted s" using ok by (simp_all add: shop_ok_def)
  have new: "sh_line_sequence s \<le> fl_pk l \<and> fl_pk l < sh_line_sequence s + length news \<and> 0 \<le> fl_quantity l
      \<and> fl_fulfillment l = target \<and> fl_order_line l \<in> fl_order_line ` set (sh_fulfillment_lines s)" if "l \<in> set ?new" for l
    using row_of_new_line [OF that] news by metis
  have old: "\<exists>l' \<in> set (sh_fulfillment_lines s). l = l'\<lparr>fl_quantity := m (fl_pk l')\<rparr>"
    if "l \<in> set (filter (\<lambda>l. fl_pk l \<notin> set gone) (weigh m (sh_fulfillment_lines s)))" for l
    using that by (auto simp: weigh_def)
  have kept: "pieces (filter (\<lambda>l. fl_pk l \<notin> set gone) (weigh m ls)) k = pieces (weigh m ls) k" for ls k
    by (rule pieces_deleted) (auto simp: weigh_def m(2))
  have "distinct (map fl_pk (sh_fulfillment_lines t))"
  proof -
    have "distinct (map fl_pk (filter (\<lambda>l. fl_pk l \<notin> set gone) (weigh m (sh_fulfillment_lines s))))"
      by (rule distinct_map_filter) (use wf in \<open>simp add: shop_wf_def\<close>)
    moreover have "fl_pk l < sh_line_sequence s"
      if "l \<in> set (filter (\<lambda>l. fl_pk l \<notin> set gone) (weigh m (sh_fulfillment_lines s)))" for l
      using old [OF that] wf by (auto simp: shop_wf_def)
    ultimately show ?thesis using new
      by (fastforce simp: lines fulfillment_line_rows_laws(2))
  qed
  moreover have "fl_pk l < sh_line_sequence t \<and> 0 \<le> fl_quantity l \<and> fl_fulfillment l \<in> ff_pk ` set (sh_fulfillments t)
      \<and> fl_order_line l \<in> ol_pk ` set (sd_order_lines (sh_stock t))" if "l \<in> set (sh_fulfillment_lines t)" for l
  proof (cases "l \<in> set ?new")
    case True
    have "target \<in> ff_pk ` set (sh_fulfillments s)" using target(1,2) by auto
    moreover have "fl_order_line l \<in> ol_pk ` set (sd_order_lines (sh_stock s))"
      using new [OF True] wf by (auto simp: shop_wf_def)
    ultimately show ?thesis using new [OF True] by (simp add: seq ffs stock)
  next
    case False
    with that obtain l' where "l' \<in> set (sh_fulfillment_lines s)" "l = l'\<lparr>fl_quantity := m (fl_pk l')\<rparr>"
      using old [of l] unfolding lines by auto
    then show ?thesis using wf m(1) by (auto simp: seq ffs stock shop_wf_def)
  qed
  moreover have "distinct (map fl_order_line (lines_in (ff_pk f) t))"
    if f: "f \<in> set (sh_fulfillments t)" "ff_status f = FulfillmentStatus_WAITING_FOR_APPROVAL" for f
  proof -
    have "ff_pk f \<noteq> target" using f target wf by (auto simp: ffs shop_wf_def distinct_map inj_on_def)
    then have "lines_in (ff_pk f) t = filter (\<lambda>l. fl_pk l \<notin> set gone) (weigh m (lines_in (ff_pk f) s))"
      using new by (auto simp: lines_in_def lines filter_empty_conv filter_weigh conj_commute)
    moreover have "distinct (map fl_order_line (weigh m (lines_in (ff_pk f) s)))"
      using f wf by (simp add: ffs shop_wf_def)
    ultimately show ?thesis by (simp add: distinct_map_filter)
  qed
  ultimately have "shop_wf t" using wf by (simp add: shop_wf_def ffs stock)
  moreover have "accounted t"
  proof -
    have "live_lines t = filter (\<lambda>l. fl_pk l \<notin> set gone) (weigh m (live_lines s)) @ ?new"
      using new live by (auto simp: live_lines_def lines live_def ffs filter_weigh filter_id_conv conj_commute)
    then have "pieces (live_lines t) k = pieces (live_lines s) k" "pieces (sh_fulfillment_lines t) k = pieces (sh_fulfillment_lines s) k" for k
      using kept all alive by (simp_all add: lines fulfillment_line_rows_laws(1))
    then show ?thesis using acc by (simp add: accounted_def stock)
  qed
  ultimately show "shop_ok t" by (simp add: shop_ok_def)
  have "\<exists>l \<in> set (sh_fulfillment_lines s). fl_pk l = fl_pk l' \<and> fl_fulfillment l = fl_fulfillment l'"
    if "l' \<in> set (sh_fulfillment_lines t)" "fl_pk l' < sh_line_sequence s" for l'
  proof -
    have "l' \<in> set (filter (\<lambda>l. fl_pk l \<notin> set gone) (weigh m (sh_fulfillment_lines s)))"
      using that new [of l'] unfolding lines by auto
    from old [OF this] obtain l where "l \<in> set (sh_fulfillment_lines s)" "l' = l\<lparr>fl_quantity := m (fl_pk l)\<rparr>" by blast
    then show ?thesis by (intro bexI [of _ l]) simp_all
  qed
  then show "extends s t" by (simp add: extends_def ffs seq)
  show "sh_fulfillments t = sh_fulfillments s" "sh_stock t = sh_stock s" by (rule ffs, rule stock)
qed

end
