(* ===== verification/FulfilmentRuns.thy ===== *)
theory FulfilmentRuns
  imports FulfilmentLaws
begin

section \<open>Histories of orders\<close>

text \<open>
  The operations of \<^verbatim>\<open>Fulfilment\<close> keep what \<^verbatim>\<open>FulfilmentLaws\<close> states; they are the steps of one relation, and
  every reachable shop has its pieces accounted for.
\<close>

subsection \<open>The operations\<close>

text \<open>Moving order lines and lines of fulfilments into a fresh fulfilment, as refunds, returns and replacements do.\<close>

lemma move_both_ok:
  assumes laws: "django_laws dj" and ok: "shop_ok s" and create: "create_fulfillment k st tr a sh s = (f, s1)"
    and st: "st \<notin> {FulfillmentStatus_WAITING_FOR_APPROVAL, FulfillmentStatus_CANCELED}"
    and data: "movable s data"
    and order_lines: "move_order_lines_to_target_fulfillment dj infos f s1 = Inr (created, s2)"
    and lines: "move_fulfillment_lines_to_target_fulfillment dj data created f s2 = Inr t"
  shows "shop_ok t \<and> extends s t \<and> (\<exists>r \<in> set (sh_fulfillments t). ff_pk r = f \<and> ff_status r = st)"
proof -
  note C = create_fulfillment_ok [OF create ok]
  from C(5) obtain r where app: "sh_fulfillments s1 = sh_fulfillments s @ [r]" and r': "ff_pk r = f" "ff_status r = st" by blast
  have "r \<in> set (sh_fulfillments s1)" by (simp add: app)
  note r = this r'
  note M = move_order_lines_ok [OF laws C(1) r(1,2) _ order_lines]
  have M1: "shop_ok s2" "extends s1 s2" "sh_fulfillments s2 = sh_fulfillments s1"
    and created: "\<And>c. c \<in> set created \<Longrightarrow> c \<in> set (sh_fulfillment_lines s2) \<and> fl_fulfillment c = f \<and> sh_line_sequence s1 \<le> fl_pk c"
    using M r(3) st by auto
  have ext: "extends s s2" by (rule extends_trans [OF C(2) M1(2)])
  have apart: "fl_pk c \<notin> fd_line ` set data" if "c \<in> set created" for c
    using created [OF that] data C(8) by (auto simp: movable_def)
  have "movable s2 data" by (rule movable_extends [OF data ext])
  from move_fulfillment_lines_ok [OF laws M1(1) _ r(2) _ _ apart this lines] r st created M1(3)
  have "shop_ok t" "extends s2 t" "sh_fulfillments t = sh_fulfillments s2" by auto
  then show ?thesis using extends_trans [OF ext] r M1(3) by auto
qed

lemma delete_fulfillments_ok:
  assumes ok: "shop_ok s" and empty: "\<And>f. f \<in> set (sh_fulfillments s) \<Longrightarrow> P f \<Longrightarrow> lines_in (ff_pk f) s = []"
  shows "shop_ok (delete_fulfillments P s)"
proof -
  let ?t = "delete_fulfillments P s"
  have wf: "shop_wf s" using ok by (simp add: shop_ok_def)
  have kept: "fl_fulfillment l \<notin> ff_pk ` {f \<in> set (sh_fulfillments s). P f}" if "l \<in> set (sh_fulfillment_lines s)" for l
    using empty that by (fastforce simp: lines_in_def filter_empty_conv)
  then have lines: "sh_fulfillment_lines ?t = sh_fulfillment_lines s"
    by (auto simp: delete_fulfillments_def filter_id_conv)
  have ffs: "sh_fulfillments ?t = filter (\<lambda>f. \<not> P f) (sh_fulfillments s)" by (simp add: delete_fulfillments_def)
  have rest: "sh_line_sequence ?t = sh_line_sequence s" "sh_stock ?t = sh_stock s" by (simp_all add: delete_fulfillments_def)
  have owner: "fl_fulfillment l \<in> ff_pk ` set (sh_fulfillments ?t)" if "l \<in> set (sh_fulfillment_lines s)" for l
  proof -
    from that wf obtain f where "f \<in> set (sh_fulfillments s)" "fl_fulfillment l = ff_pk f" by (auto simp: shop_wf_def)
    with kept [OF that] show ?thesis by (auto simp: ffs)
  qed
  have "live ?t (fl_fulfillment l) = live s (fl_fulfillment l)" if "l \<in> set (sh_fulfillment_lines s)" for l
  proof -
    have "\<not> P r" if "r \<in> set (sh_fulfillments s)" "ff_pk r = fl_fulfillment l" for r
      using kept [OF \<open>l \<in> set (sh_fulfillment_lines s)\<close>] that by (metis (mono_tags, lifting) image_eqI mem_Collect_eq)
    then show ?thesis unfolding live_def ffs set_filter by blast
  qed
  then have "live_lines ?t = live_lines s" by (simp add: live_lines_def lines cong: filter_cong)
  then have "accounted ?t" using ok by (simp add: shop_ok_def accounted_def lines rest)
  moreover have "shop_wf ?t"
    using wf owner by (simp add: shop_wf_def lines rest ffs distinct_map_filter lines_in_def)
  ultimately show ?thesis by (simp add: shop_ok_def)
qed

lemma delete_empty_fulfillments_ok: "shop_ok s \<Longrightarrow> shop_ok (delete_empty_fulfillments k s)"
  unfolding delete_empty_fulfillments_def by (rule delete_fulfillments_ok) simp_all

lemma create_cancel_fulfillment_ok:
  assumes laws: "django_laws dj" and ok: "shop_ok s" and run: "create_cancel_fulfillment dj k s = Inr (f, t)"
  shows "shop_ok t"
proof -
  obtain g s1 created where create: "create_fulfillment k FulfillmentStatus_CANCELED [] None None s = (g, s1)"
    and move: "move_order_lines_to_target_fulfillment dj (all_order_lines k s) g s1 = Inr (created, t)"
    using run by (auto simp: create_cancel_fulfillment_def Let_def bindr_eq_Inr split: prod.splits)
  note C = create_fulfillment_ok [OF create ok]
  from C(5) obtain r where app: "sh_fulfillments s1 = sh_fulfillments s @ [r]" and r: "ff_pk r = g"
    "ff_status r = FulfillmentStatus_CANCELED" by blast
  have "r \<in> set (sh_fulfillments s1)" by (simp add: app)
  from move_order_lines_ok(1) [OF laws C(1) this r(1) _ move] r(2) show ?thesis by simp
qed

lemma cancel_order_ok:
  assumes laws: "django_laws dj" and ok: "shop_ok s"
  shows "shop_ok (snd (cancel_order dj k s))"
proof -
  define s' where "s' = (log_event k OrderEvents_CANCELED s)\<lparr>sh_stock :=
      remove_reservations_for_order k (sh_stock (log_event k OrderEvents_CANCELED s))\<rparr>"
  have "view s' = view s" by (simp add: s'_def view_def log_event_def)
  then have "shop_ok s'" using ok shop_ok_view by metis
  then have "create_cancel_fulfillment dj k s' = Inr (f, t) \<Longrightarrow> shop_ok (save_order_status k OrderStatus_CANCELED t)" for f t
    using create_cancel_fulfillment_ok [OF laws] shop_ok_view [of "save_order_status k OrderStatus_CANCELED t" t] by simp
  then show ?thesis using ok unfolding cancel_order_def Let_def s'_def [symmetric]
    by (cases "create_cancel_fulfillment dj k s'") (auto simp: atomic_def bindr_def)
qed

lemma expire_order_ok:
  assumes laws: "django_laws dj" and ok: "shop_ok s"
  shows "shop_ok (expire_order dj prec call k s)"
proof -
  define s0 where "s0 = s\<lparr>sh_stock := remove_reservations_for_order k (sh_stock s)\<rparr>"
  have s0: "shop_ok s0" using ok shop_ok_view [of s0 s] by (simp add: s0_def view_stock)
  have "shop_ok t" if run: "create_fulfillments_for_expired_orders dj prec call k s0 = Inr (f, t)" for f t
  proof -
    obtain s1 created where paid: "view s1 = view s0"
      and move': "move_order_lines_to_target_fulfillment dj (all_order_lines k s0)
          (fst (create_fulfillment k FulfillmentStatus_CANCELED [] None None s1))
          (snd (create_fulfillment k FulfillmentStatus_CANCELED [] None None s1)) = Inr (created, t)"
      using run by (auto simp: create_fulfillments_for_expired_orders_def Let_def bindr_eq_Inr case_prod_unfold
          split: option.splits if_splits sum.splits intro: that [rotated])
    obtain g s2 where create: "create_fulfillment k FulfillmentStatus_CANCELED [] None None s1 = (g, s2)" by fastforce
    note move = move' [unfolded create fst_conv snd_conv]
    have "shop_ok s1" using s0 shop_ok_view [OF paid] by simp
    note C = create_fulfillment_ok [OF create this]
    from C(5) obtain r where app: "sh_fulfillments s2 = sh_fulfillments s1 @ [r]" and r: "ff_pk r = g"
      "ff_status r = FulfillmentStatus_CANCELED" by blast
    have "r \<in> set (sh_fulfillments s2)" by (simp add: app)
    from move_order_lines_ok(1) [OF laws C(1) this r(1) _ move] r(2) show ?thesis by simp
  qed
  moreover have "shop_ok (log_event k e (save_order_status k st t)) = shop_ok t" for t e st
    by (rule shop_ok_view) simp
  ultimately show ?thesis using ok
    by (auto simp: expire_order_def s0_def [symmetric] split: sum.splits prod.splits)
qed

subsection \<open>Refunds and returns\<close>

lemma order_refunded_view [simp]: "view (order_refunded k p s) = view s"
  by (simp add: order_refunded_def Let_def split: option.splits)

lemma process_refund_view:
  "view (snd (process_refund prec call user k payment infos data amount costs s)) = view s"
  by (simp add: process_refund_def Let_def split: option.splits prod.splits sum.splits)

lemma create_refund_fulfillment_ok:
  assumes laws: "django_laws dj" and ok: "shop_ok s" and data: "movable s data"
  shows "shop_ok (snd (create_refund_fulfillment dj prec call user k payment infos data amount costs s))"
proof (cases "row_of oh_pk k (sd_orders (sh_stock s))")
  case None
  then show ?thesis using ok by (simp add: create_refund_fulfillment_def)
next
  case (Some head)
  obtain r s1 where refund: "process_refund prec call user k payment infos data amount costs s = (r, s1)" by fastforce
  have view: "view s1 = view s" using process_refund_view [of prec call user k payment infos data amount costs s]
    by (simp add: refund)
  have s1: "shop_ok s1" "movable s1 data" using ok data shop_ok_view [OF view] movable_view [OF view] by simp_all
  let ?st = "if in_shared_channel (oh_channel_slug head) then FulfillmentStatus_REFUNDED_AND_RETURNED
                    else FulfillmentStatus_REFUNDED"
  have "shop_ok (delete_empty_fulfillments k t)"
    if "create_fulfillment k ?st [] a b s1 = (f, s2)"
      "move_order_lines_to_target_fulfillment dj infos f s2 = Inr (created, s3)"
      "move_fulfillment_lines_to_target_fulfillment dj data created f s3 = Inr t" for a b f s2 created s3 t
    using move_both_ok [OF laws s1(1) that(1) _ s1(2) that(2,3)] delete_empty_fulfillments_ok by simp
  then show ?thesis using s1(1) ok
    by (cases r) (auto simp: create_refund_fulfillment_def Some refund atomic_def Let_def bindr_def
        split: prod.splits sum.splits)
qed

lemma move_into_new_ok:
  assumes laws: "django_laws dj" and ok: "shop_ok s" and create: "create_fulfillment k st tr a sh s = (f, s1)"
    and st: "st \<notin> {FulfillmentStatus_WAITING_FOR_APPROVAL, FulfillmentStatus_CANCELED}" and data: "movable s data"
    and lines: "move_fulfillment_lines_to_target_fulfillment dj data [] f s1 = Inr t"
  shows "shop_ok t \<and> extends s t"
proof -
  note C = create_fulfillment_ok [OF create ok]
  from C(5) obtain r where app: "sh_fulfillments s1 = sh_fulfillments s @ [r]" and r: "ff_pk r = f" "ff_status r = st" by blast
  have "r \<in> set (sh_fulfillments s1)" by (simp add: app)
  from move_fulfillment_lines_ok [OF laws C(1) this r(1) _ _ _ movable_extends [OF data C(2)] lines] r(2) st
  show ?thesis using extends_trans [OF C(2)] by simp
qed

lemma move_lines_to_return_ok:
  assumes laws: "django_laws dj" and ok: "shop_ok s" and data: "movable s data"
    and st: "st \<notin> {FulfillmentStatus_WAITING_FOR_APPROVAL, FulfillmentStatus_CANCELED}"
    and run: "move_lines_to_return_fulfillment dj infos data st k a sh s = Inr (f, t)"
  shows "shop_ok t \<and> extends s t"
proof -
  obtain target s1 where create: "create_fulfillment k st [] a sh s = (target, s1)" by fastforce
  obtain created s2 where move: "move_order_lines_to_target_fulfillment dj infos target s1 = Inr (created, s2)"
    using run by (auto simp: move_lines_to_return_fulfillment_def create bindr_eq_Inr)
  define refunded where "refunded = map fl_pk (filter (\<lambda>l. \<exists>f \<in> set (fulfillments_of k s2). ff_pk f = fl_fulfillment l
             \<and> ff_status f = FulfillmentStatus_REFUNDED) (sh_fulfillment_lines s2))"
  define there where "there = filter (\<lambda>d. fd_line d \<in> set refunded) data"
  define rest where "rest = filter (\<lambda>d. fd_line d \<notin> set refunded) data"
  have sub: "movable s there" "movable s rest" by (rule movable_subset [OF data], simp add: there_def rest_def)+
  have "bindr (move_fulfillment_lines_to_target_fulfillment dj rest created target s2) (\<lambda>s3.
      if there = [] then Inr (target, s3)
      else let (g, s) = (if st = FulfillmentStatus_REFUNDED_AND_RETURNED then (target, s3)
              else create_fulfillment k FulfillmentStatus_REFUNDED_AND_RETURNED [] None None s3)
           in bindr (move_fulfillment_lines_to_target_fulfillment dj there [] g s) (\<lambda>s. Inr (target, s))) = Inr (f, t)"
    using run unfolding move_lines_to_return_fulfillment_def create prod.case move bindr_simps Let_def
      there_def rest_def refunded_def .
  then obtain s3 where move': "move_fulfillment_lines_to_target_fulfillment dj rest created target s2 = Inr s3"
    and last: "(if there = [] then Inr (target, s3)
      else let (g, s) = (if st = FulfillmentStatus_REFUNDED_AND_RETURNED then (target, s3)
              else create_fulfillment k FulfillmentStatus_REFUNDED_AND_RETURNED [] None None s3)
           in bindr (move_fulfillment_lines_to_target_fulfillment dj there [] g s) (\<lambda>s. Inr (target, s))) = Inr (f, t)"
    unfolding bindr_eq_Inr by blast
  from move_both_ok [OF laws ok create st sub(2) move move'] obtain r where
    s3: "shop_ok s3" "extends s s3" and r: "r \<in> set (sh_fulfillments s3)" "ff_pk r = target" "ff_status r = st" by blast
  have there: "movable s3 there" by (rule movable_extends [OF sub(1) s3(2)])
  show ?thesis
  proof (cases "there = []")
    case True
    with last s3 show ?thesis by simp
  next
    case there_ne: False
    show ?thesis
    proof (cases "st = FulfillmentStatus_REFUNDED_AND_RETURNED")
      case True
      with last there_ne have "move_fulfillment_lines_to_target_fulfillment dj there [] target s3 = Inr t"
        by (auto simp: bindr_eq_Inr)
      from move_fulfillment_lines_ok [OF laws s3(1) r(1,2) _ _ _ there this] r(3) st
      show ?thesis using extends_trans [OF s3(2)] by simp
    next
      case False
      with last there_ne obtain g s4 where "create_fulfillment k FulfillmentStatus_REFUNDED_AND_RETURNED [] None None s3 = (g, s4)"
        "move_fulfillment_lines_to_target_fulfillment dj there [] g s4 = Inr t"
        by (auto simp: bindr_eq_Inr split: prod.splits)
      from move_into_new_ok [OF laws s3(1) this(1) _ there this(2)] show ?thesis using extends_trans [OF s3(2)] by simp
    qed
  qed
qed

lemma create_return_fulfillment_ok:
  assumes laws: "django_laws dj" and ok: "shop_ok s" and data: "movable s data"
    and run: "create_return_fulfillment dj k infos data a sh s = Inr (f, t)"
  shows "shop_ok t \<and> extends s t"
proof -
  obtain s1 st where move: "move_lines_to_return_fulfillment dj infos data
        (if a = None then FulfillmentStatus_RETURNED else FulfillmentStatus_REFUNDED_AND_RETURNED) k a sh s = Inr (f, s1)"
    and st: "sd_order_lines st = sd_order_lines (sh_stock s1)"
    and t: "t = update_order_status k (log_event k OrderEvents_FULFILLMENT_RETURNED (s1\<lparr>sh_stock := st\<rparr>))"
    using run by (auto simp: create_return_fulfillment_def Let_def bindr_eq_Inr split: prod.splits dest: return_to_stocks_lines)
  have "view t = view s1" using view_stock [OF st] by (simp add: t)
  moreover have "shop_ok s1 \<and> extends s s1"
    by (rule move_lines_to_return_ok [OF laws ok data _ move]) simp
  ultimately show ?thesis using shop_ok_view extends_view(1) by metis
qed

text \<open>The draft order of a replacement brings new order lines, of which nothing is fulfilled.\<close>

lemma shop_ok_new_order_lines:
  assumes ok: "shop_ok s"
    and t: "sh_fulfillments t = sh_fulfillments s" "sh_fulfillment_lines t = sh_fulfillment_lines s"
      "sh_line_sequence t = sh_line_sequence s" "sd_order_lines (sh_stock t) = sd_order_lines (sh_stock s) @ news"
    and news: "distinct (map ol_pk news)" "ol_pk ` set news \<inter> ol_pk ` set (sd_order_lines (sh_stock s)) = {}"
      "\<And>l. l \<in> set news \<Longrightarrow> ol_quantity_fulfilled l = 0 \<and> 0 \<le> ol_quantity l"
  shows "shop_ok t \<and> extends s t"
proof -
  have wf: "shop_wf s" and acc: "accounted s" using ok by (simp_all add: shop_ok_def)
  have "shop_wf t" using wf news(1,2) unfolding shop_wf_def t lines_in_def by (auto simp: image_Un)
  moreover have live: "live_lines t = live_lines s" by (simp add: live_lines_def live_def t)
  have "pieces (live_lines t) (ol_pk l) \<le> ol_quantity_fulfilled l
     \<and> ol_quantity_fulfilled l \<le> pieces (sh_fulfillment_lines t) (ol_pk l) \<and> ol_quantity_fulfilled l \<le> ol_quantity l"
    if l: "l \<in> set (sd_order_lines (sh_stock t))" for l
  proof (cases "l \<in> set news")
    case True
    then have "ol_pk l \<notin> ol_pk ` set (sd_order_lines (sh_stock s))" using news(2) by blast
    then have none: "fl_order_line r \<noteq> ol_pk l" if "r \<in> set (sh_fulfillment_lines s)" for r
      using wf that unfolding shop_wf_def by metis
    then have "pieces (live_lines s) (ol_pk l) = 0" "pieces (sh_fulfillment_lines s) (ol_pk l) = 0"
      by (auto simp: live_lines_def intro!: pieces_none)
    then show ?thesis using news(3) [OF True] by (simp add: live t)
  next
    case False
    then have "l \<in> set (sd_order_lines (sh_stock s))" using l by (simp add: t)
    then show ?thesis using acc by (simp add: accounted_def live t)
  qed
  then have "accounted t" by (simp add: accounted_def)
  ultimately show ?thesis by (auto simp: shop_ok_def extends_def t)
qed

lemma next_order_line_pk_fresh: "l \<in> set (sd_order_lines s) \<Longrightarrow> ol_pk l < next_order_line_pk s"
proof -
  assume "l \<in> set (sd_order_lines s)"
  then have "ol_pk l \<in> set (map ol_pk (sd_order_lines s))" by simp
  then have "ol_pk l \<le> sum_list (map ol_pk (sd_order_lines s))" by (rule member_le_sum_list) simp
  then show ?thesis by (simp add: next_order_line_pk_def)
qed

lemma draft_lines_keys: "\<exists>n. map ol_pk (draft_lines new s ps) = map (\<lambda>i. next_order_line_pk s + i) [0..<n]"
proof -
  define originals where "originals = List.map_filter (\<lambda>(k, q). map_option (\<lambda>l. (l, q)) (row_of ol_pk k (sd_order_lines s))) ps"
  have "map ol_pk (draft_lines new s ps) = map (\<lambda>x. next_order_line_pk s + fst x) (zip [0..<length originals] originals)"
    unfolding draft_lines_def originals_def [symmetric] Let_def by (simp only: map_map comp_def case_prod_unfold, rule map_cong) simp_all
  also have "\<dots> = map (\<lambda>i. next_order_line_pk s + i) (map fst (zip [0..<length originals] originals))"
    by (simp only: map_map comp_def)
  finally show ?thesis by (metis length_upt map_fst_zip minus_nat.diff_0)
qed

lemma draft_lines_quantities:
  assumes "l \<in> set (draft_lines new s ps)"
  shows "ol_quantity_fulfilled l = 0 \<and> ol_quantity l \<in> snd ` set ps"
proof -
  have "snd x \<in> snd ` set ps" if "x \<in> set (List.map_filter (\<lambda>(k, q). map_option (\<lambda>l. (l, q)) (row_of ol_pk k (sd_order_lines s))) ps)" for x
    using that by (force simp: List.map_filter_def)
  then show ?thesis using assms by (auto simp: draft_lines_def Let_def dest!: set_zip_rightD)
qed

lemma replaced_lines_nonneg:
  assumes "\<And>i. i \<in> set infos \<Longrightarrow> 0 \<le> oi_quantity i" "\<And>p. p \<in> set ps \<Longrightarrow> 0 \<le> snd p"
  shows "\<forall>p \<in> set (replaced_lines infos ps). 0 \<le> snd p"
proof -
  have "\<forall>p \<in> set (fold (\<lambda>i acc. if oi_line i \<in> fst ` set acc
            then map (\<lambda>(k', q'). (k', if k' = oi_line i then oi_quantity i else q')) acc
            else acc @ [(oi_line i, oi_quantity i)]) infos []). 0 \<le> snd p"
    by (rule fold_invariant [where Q = "\<lambda>i. 0 \<le> oi_quantity i"]) (use assms(1) in auto)
  then show ?thesis unfolding replaced_lines_def
    by (rule fold_invariant [where Q = "\<lambda>p. 0 \<le> snd p", rotated]) (use assms(2) in \<open>fastforce split: if_splits\<close>)+
qed

lemma create_replace_order_ok:
  assumes ok: "shop_ok s" and infos: "\<And>i. i \<in> set infos \<Longrightarrow> 0 \<le> oi_quantity i" "\<And>p. p \<in> set ps \<Longrightarrow> 0 \<le> snd p"
    and run: "create_replace_order now k infos ps s = Inr (new, t)"
  shows "shop_ok t \<and> extends s t"
proof -
  let ?news = "draft_lines (next_order_pk s) (sh_stock s) (replaced_lines infos ps)"
  have t: "sh_fulfillments t = sh_fulfillments s" "sh_fulfillment_lines t = sh_fulfillment_lines s"
      "sh_line_sequence t = sh_line_sequence s" "sd_order_lines (sh_stock t) = sd_order_lines (sh_stock s) @ ?news"
    using run by (auto simp: create_replace_order_def Let_def log_event_def split: option.splits)
  obtain n where keys: "map ol_pk ?news = map (\<lambda>i. next_order_line_pk (sh_stock s) + i) [0..<n]" using draft_lines_keys by blast
  show ?thesis
  proof (rule shop_ok_new_order_lines [OF ok t])
    show "distinct (map ol_pk ?news)" by (simp add: keys distinct_map)
    have "ol_pk ` set ?news = set (map ol_pk ?news)" by simp
    also have "\<dots> = (\<lambda>i. next_order_line_pk (sh_stock s) + i) ` {0..<n}" by (simp add: keys)
    finally show "ol_pk ` set ?news \<inter> ol_pk ` set (sd_order_lines (sh_stock s)) = {}"
      by (auto dest!: next_order_line_pk_fresh)
    show "ol_quantity_fulfilled l = 0 \<and> 0 \<le> ol_quantity l" if "l \<in> set ?news" for l
      using draft_lines_quantities [OF that] replaced_lines_nonneg [of infos ps] infos by auto
  qed
qed

lemma process_replace_ok:
  assumes laws: "django_laws dj" and ok: "shop_ok s" and data: "movable s data"
    and infos: "\<And>i. i \<in> set infos \<Longrightarrow> 0 \<le> oi_quantity i"
    and run: "process_replace dj now k infos data s = Inr (r, t)"
  shows "shop_ok t \<and> extends s t"
proof -
  let ?ps = "List.map_filter (\<lambda>d. map_option (\<lambda>l. (fl_order_line l, fd_quantity d))
            (row_of fl_pk (fd_line d) (sh_fulfillment_lines s))) data"
  obtain f s1 new s2 where move: "move_lines_to_replace_fulfillment dj infos data k s = Inr (f, s1)"
    and replace: "create_replace_order now k infos ?ps s1 = Inr (new, s2)"
    and t: "t = log_event k OrderEvents_ORDER_REPLACEMENT_CREATED (log_event k OrderEvents_FULFILLMENT_REPLACED s2)"
    using run unfolding process_replace_def Let_def bindr_eq_Inr by (elim exE conjE) (auto simp: bindr_eq_Inr split: prod.splits)
  from move obtain g s' created s'' where "create_fulfillment k FulfillmentStatus_REPLACED [] None None s = (g, s')"
    "move_order_lines_to_target_fulfillment dj infos g s' = Inr (created, s'')"
    "move_fulfillment_lines_to_target_fulfillment dj data created g s'' = Inr s1"
    unfolding move_lines_to_replace_fulfillment_def by (auto simp: bindr_eq_Inr split: prod.splits)
  from move_both_ok [OF laws ok this(1) _ data this(2,3)] have s1: "shop_ok s1 \<and> extends s s1" by simp
  have "0 \<le> snd p" if "p \<in> set ?ps" for p
    using that data by (auto simp: List.map_filter_def movable_def)
  from create_replace_order_ok [OF _ infos this replace] s1 have "shop_ok s2 \<and> extends s1 s2" by blast
  moreover have "view t = view s2" by (simp add: t)
  ultimately show ?thesis using s1 extends_trans shop_ok_view extends_view(1) by metis
qed

lemma create_fulfillments_for_returned_products_ok:
  assumes laws: "django_laws dj" and ok: "shop_ok s" and data: "movable s data"
    and infos: "\<And>i. i \<in> set infos \<Longrightarrow> 0 \<le> oi_quantity i"
  shows "shop_ok (snd (create_fulfillments_for_returned_products dj now prec call user k payment infos data refund amount
       costs s))"
proof (cases "row_of oh_pk k (sd_orders (sh_stock s))")
  case None
  then show ?thesis using ok by (simp add: create_fulfillments_for_returned_products_def atomic_def)
next
  case (Some head)
  define pay where "pay = (if refund \<and> payment \<noteq> None
      then (case process_refund prec call user k payment (filter (\<lambda>i. \<not> oi_replace i) infos)
               (filter (\<lambda>d. \<not> fd_replace d) data) amount costs s of
              (Inl e, _) \<Rightarrow> Inl e | (Inr a, s) \<Rightarrow> Inr (Some a, s))
      else Inr (None, s))"
  have pay: "view s1 = view s" if "pay = Inr (a, s1)" for a s1
    using that process_refund_view [of prec call user k payment "filter (\<lambda>i. \<not> oi_replace i) infos"
        "filter (\<lambda>d. \<not> fd_replace d) data" amount costs s]
    by (auto simp: pay_def split: if_splits prod.splits sum.splits)
  have replace: "shop_ok s2 \<and> extends s1 s2"
    if "shop_ok s1" "movable s1 data" "(if filter oi_replace infos \<noteq> [] \<or> filter fd_replace data \<noteq> []
        then bindr (process_replace dj now k (filter oi_replace infos) (filter fd_replace data) s1) (\<lambda>(r, s). Inr (Some r, s))
        else Inr (None, s1)) = Inr (r, s2)" for s1 r s2
  proof -
    have "movable s1 (filter fd_replace data)" by (rule movable_subset [OF that(2)]) simp
    note P = process_replace_ok [where now = now and k = k, OF laws that(1) this, of "filter oi_replace infos"]
    show ?thesis
    proof (cases "filter oi_replace infos \<noteq> [] \<or> filter fd_replace data \<noteq> []")
      case True
      with that(3) obtain r' where "process_replace dj now k (filter oi_replace infos) (filter fd_replace data) s1 = Inr (r', s2)"
        by (auto simp: bindr_eq_Inr)
      from P [OF _ this] infos show ?thesis by simp
    next
      case False
      with that show ?thesis by simp
    qed
  qed
  have return: "shop_ok (delete_empty_fulfillments k s3)"
    if "shop_ok s2" "movable s2 data" "create_return_fulfillment dj k (filter (\<lambda>i. \<not> oi_replace i) infos)
        (filter (\<lambda>d. \<not> fd_replace d) data) a b s2 = Inr (f, s3)" for a b s2 f s3
  proof -
    have "movable s2 (filter (\<lambda>d. \<not> fd_replace d) data)" by (rule movable_subset [OF that(2)]) simp
    from create_return_fulfillment_ok [OF laws that(1) this that(3)] show ?thesis by (simp add: delete_empty_fulfillments_ok)
  qed
  have all: "shop_ok (delete_empty_fulfillments k s3)"
    if "pay = Inr (a, s1)" "(if filter oi_replace infos \<noteq> [] \<or> filter fd_replace data \<noteq> []
        then bindr (process_replace dj now k (filter oi_replace infos) (filter fd_replace data) s1) (\<lambda>(r, s). Inr (Some r, s))
        else Inr (None, s1)) = Inr (r, s2)" "create_return_fulfillment dj k (filter (\<lambda>i. \<not> oi_replace i) infos)
        (filter (\<lambda>d. \<not> fd_replace d) data) a b s2 = Inr (f, s3)" for a s1 r s2 b f s3
  proof -
    have s1: "shop_ok s1" "movable s1 data" using ok data shop_ok_view [OF pay [OF that(1)]] movable_view [OF pay [OF that(1)]] by simp_all
    from replace [OF this that(2)] return [OF _ _ that(3)] movable_extends [OF s1(2)] show ?thesis by blast
  qed
  define r where "r = bindr pay (\<lambda>(total_refund_amount, s).
      bindr (if filter oi_replace infos \<noteq> [] \<or> filter fd_replace data \<noteq> []
        then bindr (process_replace dj now k (filter oi_replace infos) (filter fd_replace data) s) (\<lambda>(r, s). Inr (Some r, s))
        else Inr (None, s)) (\<lambda>(replaced, s).
      bindr (create_return_fulfillment dj k (filter (\<lambda>i. \<not> oi_replace i) infos)
        (filter (\<lambda>d. \<not> fd_replace d) data) total_refund_amount
        (get_shipping_refund_amount costs amount (oh_shipping_price_gross_amount head)) s) (\<lambda>(f, s).
        Inr ((f, replaced), delete_empty_fulfillments k s))))"
  have "shop_ok t" if "r = Inr (x, t)" for x t
    using that unfolding r_def bindr_eq_Inr by (elim exE conjE) (auto simp: bindr_eq_Inr split: prod.splits intro: all)
  moreover have "create_fulfillments_for_returned_products dj now prec call user k payment infos data refund amount
       costs s = atomic s r"
    unfolding create_fulfillments_for_returned_products_def Some option.case Let_def r_def pay_def ..
  ultimately show ?thesis using ok by (cases r) (auto simp: atomic_def)
qed

subsection \<open>What the mutations pass on\<close>

text \<open>
  The mutations check the lines of their input but not that a quantity is not negative; with quantities
  that are not, what they pass on can be moved.
\<close>

lemma get_nodes_rows: "get_nodes key ks rows = Inr found \<Longrightarrow> l \<in> set found \<Longrightarrow> row_of key (key l) rows = Some l"
  by (auto simp: get_nodes_def List.map_filter_def split: if_splits) (metis option.sel row_of_SomeD)

lemma check_all_set: "check_all f xs = Inr ys \<Longrightarrow> y \<in> set ys \<Longrightarrow> \<exists>x \<in> set xs. f x = Inr y"
  by (induction xs arbitrary: ys) (auto simp: bindr_eq_Inr)

lemma check_line_ok: "check_line checks = Inr u \<Longrightarrow> c \<in> set checks \<Longrightarrow> \<not> fst c"
  by (auto simp: check_line_def filter_empty_conv split: list.splits)

lemma clean_lines_nonneg:
  assumes "clean_lines s input = Inr infos" "\<And>x. x \<in> set input \<Longrightarrow> 0 \<le> fst (snd x)" "i \<in> set infos"
  shows "0 \<le> oi_quantity i"
  using assms unfolding clean_lines_def
  by (auto simp: bindr_eq_Inr dest!: check_all_set set_zip_rightD)

lemma clean_fulfillment_lines_movable:
  assumes ok: "shop_ok s" and clean: "clean_fulfillment_lines s input statuses = Inr data"
    and nonneg: "\<And>x. x \<in> set input \<Longrightarrow> 0 \<le> fst (snd x)" and statuses: "FulfillmentStatus_CANCELED \<notin> set statuses"
  shows "movable s data"
proof -
  have wf: "shop_wf s" using ok by (simp add: shop_ok_def)
  have "\<exists>l \<in> set (sh_fulfillment_lines s). fd_line d = fl_pk l \<and> 0 \<le> fd_quantity d \<and> live s (fl_fulfillment l)"
    if d: "d \<in> set data" for d
  proof -
    from clean obtain rows where rows: "get_nodes fl_pk (map fst input) (sh_fulfillment_lines s) = Inr rows"
      by (auto simp: clean_fulfillment_lines_def bindr_eq_Inr)
    let ?check = "\<lambda>l replace quantity. check_line
      [(map_option ol_is_gift_card (row_of ol_pk (fl_order_line l) (sd_order_lines (sh_stock s))) = Some True, ''Cannot refund or return gift card line.''),
       (fl_quantity l < quantity, ''Provided quantity is bigger than quantity from fulfillment line''),
       (map_option ff_status (row_of ff_pk (fl_fulfillment l) (sh_fulfillments s)) \<notin> Some ` set statuses, ''Unable to process action for fulfillmentLine.''),
       (replace \<and> Option.bind (row_of ol_pk (fl_order_line l) (sd_order_lines (sh_stock s))) ol_variant = None,
        ''Unable to replace line as the assigned product doesn't exist.'')]"
    from clean have "check_all (\<lambda>(l, (_, quantity, replace)). bindr (?check l replace quantity)
        (\<lambda>_. Inr \<lparr>fd_line = fl_pk l, fd_quantity = quantity, fd_replace = replace\<rparr>)) (zip rows input) = Inr data"
      unfolding clean_fulfillment_lines_def rows bindr_simps Let_def .
    from check_all_set [OF this d] obtain l x u where x: "(l, x) \<in> set (zip rows input)"
      and check: "?check l (snd (snd x)) (fst (snd x)) = Inr u"
      and d': "d = \<lparr>fd_line = fl_pk l, fd_quantity = fst (snd x), fd_replace = snd (snd x)\<rparr>"
      by (auto simp: bindr_eq_Inr intro: that [rotated])
    have st: "map_option ff_status (row_of ff_pk (fl_fulfillment l) (sh_fulfillments s)) \<in> Some ` set statuses"
    proof -
      have "\<not> fst (map_option ff_status (row_of ff_pk (fl_fulfillment l) (sh_fulfillments s)) \<notin> Some ` set statuses,
          ''Unable to process action for fulfillmentLine.'')"
        by (rule check_line_ok [OF check]) (simp del: not_None_eq)
      then show ?thesis by (simp only: fst_conv not_not)
    qed
    have "l \<in> set rows" "x \<in> set input" using x by (auto dest: set_zip_leftD set_zip_rightD)
    then have "row_of fl_pk (fl_pk l) (sh_fulfillment_lines s) = Some l" "0 \<le> fst (snd x)"
      using get_nodes_rows [OF rows] nonneg by auto
    moreover have "live s (fl_fulfillment l)" using st statuses by (auto simp: live_def dest!: row_of_SomeD)
    ultimately show ?thesis using d' by (auto dest!: row_of_SomeD)
  qed
  note known = this
  show ?thesis unfolding movable_def
  proof (intro conjI ballI impI)
    fix d assume "d \<in> set data"
    from known [OF this] wf show "0 \<le> fd_quantity d" "fd_line d < sh_line_sequence s" by (auto simp: shop_wf_def)
  next
    fix l assume l: "l \<in> set (sh_fulfillment_lines s)" "fl_pk l \<in> fd_line ` set data"
    then obtain d where "d \<in> set data" "fd_line d = fl_pk l" by auto
    with known obtain l' where "l' \<in> set (sh_fulfillment_lines s)" "fl_pk l' = fl_pk l" "live s (fl_fulfillment l')" by metis
    moreover have "l' = l" using wf l(1) calculation(1,2) by (simp add: shop_wf_def distinct_map inj_on_def)
    ultimately show "live s (fl_fulfillment l)" by simp
  qed
qed

subsection \<open>Approving and cancelling a fulfilment\<close>

lemma save_status_fulfillments:
  "set (sh_fulfillments (save_fulfillment f (\<lambda>r. r\<lparr>ff_status := st\<rparr>) s)) =
     (\<lambda>r. if ff_pk r = f then r\<lparr>ff_status := st\<rparr> else r) ` set (sh_fulfillments s)"
  "map ff_pk (sh_fulfillments (save_fulfillment f (\<lambda>r. r\<lparr>ff_status := st\<rparr>) s)) = map ff_pk (sh_fulfillments s)"
  by (simp_all add: save_fulfillment_def save_row_def comp_def if_distrib [of ff_pk] cong: if_cong)

lemma live_save_status:
  assumes "row_of ff_pk f (sh_fulfillments s) = Some r"
  shows "live (save_fulfillment f (\<lambda>r. r\<lparr>ff_status := st\<rparr>) s) g \<longleftrightarrow>
    (if g = f then st \<noteq> FulfillmentStatus_CANCELED else live s g)"
proof -
  have r: "r \<in> set (sh_fulfillments s)" "ff_pk r = f" using row_of_SomeD [OF assms] by auto
  have "(ff_pk (if ff_pk x = f then x\<lparr>ff_status := st\<rparr> else x) = g
      \<and> ff_status (if ff_pk x = f then x\<lparr>ff_status := st\<rparr> else x) \<noteq> FulfillmentStatus_CANCELED) \<longleftrightarrow>
    (if g = f then ff_pk x = f \<and> st \<noteq> FulfillmentStatus_CANCELED
     else ff_pk x = g \<and> ff_status x \<noteq> FulfillmentStatus_CANCELED)" for x by auto
  then show ?thesis unfolding live_def save_status_fulfillments bex_simps(7) using r by auto
qed

lemma save_fulfillment_frames [simp]:
  "sh_fulfillment_lines (save_fulfillment f u s) = sh_fulfillment_lines s"
  "sh_line_sequence (save_fulfillment f u s) = sh_line_sequence s" "sh_stock (save_fulfillment f u s) = sh_stock s"
  "lines_in g (save_fulfillment f u s) = lines_in g s"
  by (simp_all add: save_fulfillment_def lines_in_def)

text \<open>A fulfilment that becomes fulfilled or cancelled does not wait any more, and no line changes.\<close>

lemma shop_wf_save_status:
  assumes wf: "shop_wf s" and st: "st \<noteq> FulfillmentStatus_WAITING_FOR_APPROVAL"
  shows "shop_wf (save_fulfillment f (\<lambda>r. r\<lparr>ff_status := st\<rparr>) s)"
proof -
  let ?t = "save_fulfillment f (\<lambda>r. r\<lparr>ff_status := st\<rparr>) s"
  have "ff_pk ` set (sh_fulfillments ?t) = ff_pk ` set (sh_fulfillments s)"
    using save_status_fulfillments(2) [of f st s] by (metis list.set_map)
  moreover have "distinct (map fl_order_line (lines_in (ff_pk g) ?t))"
    if "g \<in> set (sh_fulfillments ?t)" "ff_status g = FulfillmentStatus_WAITING_FOR_APPROVAL" for g
    using that wf st unfolding save_status_fulfillments(1) by (auto simp: shop_wf_def split: if_splits)
  ultimately show ?thesis using wf by (simp add: shop_wf_def save_status_fulfillments(2))
qed

lemma approve_fulfillment_ok:
  assumes laws: "django_laws dj" and ok: "shop_ok s" and row: "row_of ff_pk f (sh_fulfillments s) = Some row"
    and st: "ff_status row = FulfillmentStatus_WAITING_FOR_APPROVAL"
  shows "shop_ok (snd (approve_fulfillment dj now f exceed s))"
proof -
  define s1 where "s1 = save_fulfillment f (\<lambda>r. r\<lparr>ff_status := FulfillmentStatus_FULFILLED\<rparr>) s"
  have "live s f" using row_of_SomeD [OF row] st by (auto simp: live_def)
  then have "live s1 g = live s g" for g by (simp add: s1_def live_save_status [OF row])
  then have "live_lines s1 = live_lines s" by (simp add: live_lines_def s1_def)
  then have s1: "shop_ok s1" using ok shop_wf_save_status [of s] by (simp add: shop_ok_def accounted_def s1_def)
  have "shop_ok (update_order_status (ff_order row) t)"
    if "decrease_stocks dj now infos exceed (log_event k e s1) = Inr t" for infos t k e
  proof -
    have "view (update_order_status (ff_order row) t) = view s1" using decrease_stocks_view [OF that] by simp
    then show ?thesis using s1 shop_ok_view by metis
  qed
  then show ?thesis using ok
    unfolding approve_fulfillment_def row option.case Let_def s1_def [symmetric]
    by (auto simp: atomic_def bindr_def split: sum.splits prod.splits if_splits)
qed

text \<open>Of the lines of one order line the first one is taken back.\<close>

definition first_quantity :: "fulfillment_line list \<Rightarrow> nat \<Rightarrow> int" where
  "first_quantity lines k = (case find (\<lambda>l. fl_order_line l = k) lines of None \<Rightarrow> 0 | Some l \<Rightarrow> fl_quantity l)"

lemma first_quantity_simps [simp]:
  "first_quantity [] k = 0"
  "first_quantity (l # ls) k = (if fl_order_line l = k then fl_quantity l else first_quantity ls k)"
  by (simp_all add: first_quantity_def)

lemma first_quantity_le: "\<forall>l \<in> set ls. 0 \<le> fl_quantity l \<Longrightarrow> 0 \<le> first_quantity ls k \<and> first_quantity ls k \<le> pieces ls k"
  by (induction ls) (auto simp: pieces_nonneg)

lemma first_quantity_distinct: "distinct (map fl_order_line ls) \<Longrightarrow> first_quantity ls k = pieces ls k"
  by (induction ls) (auto simp: image_iff intro!: pieces_none)

lemma take_back_fulfilled_lines:
  assumes "django_laws dj" "distinct (map ol_pk (sd_order_lines (sh_stock s)))"
  shows "sd_order_lines (sh_stock (take_back_fulfilled dj lines s)) =
    set_fulfilled (\<lambda>k. fulfilled_of (sh_stock s) k - first_quantity lines k) (sd_order_lines (sh_stock s))"
proof -
  have law: "bulk_update_law ol_pk (dj_order_lines dj)" using assms(1) by (simp add: django_laws_def)
  have lookup: "map_of (map (\<lambda>l. (fl_order_line l, \<lambda>r. r\<lparr>ol_quantity_fulfilled :=
         fulfilled_of (sh_stock s) (fl_order_line l) - fl_quantity l\<rparr>)) lines) k =
      map_option (\<lambda>l r. r\<lparr>ol_quantity_fulfilled := fulfilled_of (sh_stock s) k - fl_quantity l\<rparr>)
        (find (\<lambda>l. fl_order_line l = k) lines)" for k
    by (induction lines) auto
  show ?thesis unfolding take_back_fulfilled_def
    by (simp add: bulk_update_lawD [OF law] first_update_def set_fulfilled_def lookup first_quantity_def)
      (auto simp: fulfilled_of_row [OF assms(2)] split: option.splits)
qed

lemma take_back_fulfilled_frames [simp]:
  "sh_fulfillments (take_back_fulfilled dj lines s) = sh_fulfillments s"
  "sh_fulfillment_lines (take_back_fulfilled dj lines s) = sh_fulfillment_lines s"
  "sh_line_sequence (take_back_fulfilled dj lines s) = sh_line_sequence s"
  by (simp_all add: take_back_fulfilled_def)

lemma pieces_lines_in: "pieces (lines_in f s) k + pieces (filter (\<lambda>l. fl_fulfillment l \<noteq> f) (sh_fulfillment_lines s)) k
    = pieces (sh_fulfillment_lines s) k"
  unfolding lines_in_def by (rule pieces_split [symmetric])

lemma set_fulfilled_row:
  assumes "l' \<in> set (set_fulfilled m ls)"
  obtains l where "l \<in> set ls" "ol_pk l' = ol_pk l" "ol_quantity l' = ol_quantity l" "ol_quantity_fulfilled l' = m (ol_pk l)"
  using assms by (auto simp: set_fulfilled_def)

lemma log_event_lines_in [simp]: "lines_in f (log_event k e s) = lines_in f s"
  by (simp add: log_event_def lines_in_def)

lemma accountedD:
  assumes "accounted s" "l \<in> set (sd_order_lines (sh_stock s))"
  shows "pieces (live_lines s) (ol_pk l) \<le> ol_quantity_fulfilled l"
    "ol_quantity_fulfilled l \<le> pieces (sh_fulfillment_lines s) (ol_pk l)" "ol_quantity_fulfilled l \<le> ol_quantity l"
  using assms by (simp_all add: accounted_def)

lemma shop_wf_keys:
  assumes "shop_wf s" "sh_fulfillments t = sh_fulfillments s" "sh_fulfillment_lines t = sh_fulfillment_lines s"
    "sh_line_sequence t = sh_line_sequence s" "map ol_pk (sd_order_lines (sh_stock t)) = map ol_pk (sd_order_lines (sh_stock s))"
  shows "shop_wf t"
proof -
  have "ol_pk ` set (sd_order_lines (sh_stock t)) = ol_pk ` set (sd_order_lines (sh_stock s))"
    using assms(5) by (metis list.set_map)
  then show ?thesis using assms by (simp add: shop_wf_def lines_in_def)
qed

lemma cancel_fulfillment_ok:
  assumes laws: "django_laws dj" and ok: "shop_ok s" and row: "row_of ff_pk f (sh_fulfillments s) = Some row"
    and st: "ff_status row \<noteq> FulfillmentStatus_CANCELED"
  shows "shop_ok (snd (cancel_fulfillment dj f warehouse s))"
proof -
  have f: "live s f" using row_of_SomeD [OF row] st by (auto simp: live_def)
  have cancelled: "shop_ok (save_fulfillment f (\<lambda>r. r\<lparr>ff_status := FulfillmentStatus_CANCELED\<rparr>) t)"
    if ffs: "sh_fulfillments t = sh_fulfillments s" and lines: "sh_fulfillment_lines t = sh_fulfillment_lines s"
      and seq: "sh_line_sequence t = sh_line_sequence s"
      and ols: "sd_order_lines (sh_stock t) = set_fulfilled (\<lambda>k. fulfilled_of (sh_stock s) k - first_quantity ls k)
        (sd_order_lines (sh_stock s))" and ls: "ls = [] \<or> ls = lines_in f s" for t ls
  proof -
    let ?u = "save_fulfillment f (\<lambda>r. r\<lparr>ff_status := FulfillmentStatus_CANCELED\<rparr>) t"
    have wf: "shop_wf s" and acc: "accounted s" using ok by (simp_all add: shop_ok_def)
    have "shop_wf t" by (rule shop_wf_keys [OF wf ffs lines seq]) (simp add: ols)
    then have "shop_wf ?u" by (rule shop_wf_save_status) simp
    moreover have "accounted ?u" unfolding accounted_def
    proof
      fix l' assume "l' \<in> set (sd_order_lines (sh_stock ?u))"
      then obtain l where l: "l \<in> set (sd_order_lines (sh_stock s))" "ol_pk l' = ol_pk l" "ol_quantity l' = ol_quantity l"
        "ol_quantity_fulfilled l' = fulfilled_of (sh_stock s) (ol_pk l) - first_quantity ls (ol_pk l)"
        by (auto simp: ols elim!: set_fulfilled_row)
      let ?k = "ol_pk l"
      have nonneg: "\<forall>r \<in> set (lines_in f s). 0 \<le> fl_quantity r" using wf by (simp add: shop_wf_def lines_in_def)
      have first: "0 \<le> first_quantity ls ?k" "first_quantity ls ?k \<le> pieces (lines_in f s) ?k"
        using ls first_quantity_le [OF nonneg, of ?k] pieces_nonneg [OF nonneg, of ?k] by auto
      have old: "fulfilled_of (sh_stock s) ?k = ol_quantity_fulfilled l" using accounted_room [OF ok l(1)] by simp
      have bounds: "pieces (live_lines s) ?k \<le> ol_quantity_fulfilled l" "ol_quantity_fulfilled l \<le> pieces (sh_fulfillment_lines s) ?k"
        "ol_quantity_fulfilled l \<le> ol_quantity l" by (fact accountedD [OF acc l(1)])+
      have row': "row_of ff_pk f (sh_fulfillments t) = Some row" using row by (simp add: ffs)
      have "live t g = live s g" for g by (simp add: live_def ffs)
      then have "live_lines ?u = filter (\<lambda>l. fl_fulfillment l \<noteq> f) (live_lines s)"
        by (auto simp: live_lines_def live_save_status [OF row'] lines intro!: filter_cong)
      moreover have "filter (\<lambda>l. fl_fulfillment l = f) (live_lines s) = lines_in f s"
        using f by (auto simp: live_lines_def lines_in_def intro!: filter_cong)
      ultimately have "pieces (live_lines ?u) ?k + pieces (lines_in f s) ?k = pieces (live_lines s) ?k"
        using pieces_split [of "live_lines s" ?k "\<lambda>l. fl_fulfillment l = f"] by simp
      then show "pieces (live_lines ?u) (ol_pk l') \<le> ol_quantity_fulfilled l'
        \<and> ol_quantity_fulfilled l' \<le> pieces (sh_fulfillment_lines ?u) (ol_pk l') \<and> ol_quantity_fulfilled l' \<le> ol_quantity l'"
        using first bounds by (simp add: l old lines)
    qed
    ultimately show ?thesis by (simp add: shop_ok_def)
  qed
  have dist: "distinct (map ol_pk (sd_order_lines (sh_stock s)))" using ok by (simp add: shop_ok_def shop_wf_def)
  have saved: "shop_ok (save_fulfillment f (\<lambda>r. r\<lparr>ff_status := FulfillmentStatus_CANCELED\<rparr>) t)"
    if "t = log_event k e s \<or> (\<exists>t'. restock_fulfillment_lines dj f w (log_event k e s) = Inr t' \<and> t = log_event k e' t')" for t w k e e'
    using that
  proof
    assume t: "t = log_event k e s"
    show ?thesis
      by (rule cancelled [where ls = "[]"]) (simp_all add: t log_event_def set_fulfilled_same [OF dist])
  next
    assume "\<exists>t'. restock_fulfillment_lines dj f w (log_event k e s) = Inr t' \<and> t = log_event k e' t'"
    then obtain st where st: "restock_loop (lines_in f s) w (sh_stock s) = Inr st"
      and t: "t = log_event k e' (take_back_fulfilled dj (lines_in f s) ((log_event k e s)\<lparr>sh_stock := st\<rparr>))"
      by (auto simp: restock_fulfillment_lines_def bindr_eq_Inr on_stock_def log_event_def lines_in_def split: sum.splits)
    have st': "sd_order_lines st = sd_order_lines (sh_stock s)" by (rule restock_loop_lines [OF st])
    have same: "fulfilled_of st = fulfilled_of (sh_stock s)" by (simp add: fulfilled_of_def fun_eq_iff st')
    show ?thesis
      by (rule cancelled [where ls = "lines_in f s"])
        (use take_back_fulfilled_lines [OF laws, of "(log_event k e s)\<lparr>sh_stock := st\<rparr>" "lines_in f s"] dist
         in \<open>simp_all add: t log_event_def st' same\<close>)
  qed
  have kept: "shop_ok (save_fulfillment f (\<lambda>r. r\<lparr>ff_status := FulfillmentStatus_CANCELED\<rparr>) (log_event k e s))" for k e
    by (rule saved [where w = 0]) blast
  have kept': "shop_ok (save_fulfillment f (\<lambda>r. r\<lparr>ff_status := FulfillmentStatus_CANCELED\<rparr>) (log_event k e' t'))"
    if "restock_fulfillment_lines dj f w (log_event k e s) = Inr t'" for k e e' t' w
    by (rule saved) (use that in blast)
  have "shop_ok (update_order_status k t) = shop_ok t" for k t by (rule shop_ok_view) simp
  then show ?thesis using ok kept kept' unfolding cancel_fulfillment_def row option.case Let_def
    by (auto simp: atomic_def bindr_def split: option.splits sum.splits)
qed

lemma cancel_waiting_fulfillment_ok:
  assumes laws: "django_laws dj" and ok: "shop_ok s" and row: "row_of ff_pk f (sh_fulfillments s) = Some row"
    and st: "ff_status row = FulfillmentStatus_WAITING_FOR_APPROVAL"
  shows "shop_ok (snd (cancel_waiting_fulfillment dj f s))"
proof -
  define s1 where "s1 = take_back_fulfilled dj (lines_in f s) (log_event (ff_order row) OrderEvents_FULFILLMENT_CANCELED s)"
  define t where "t = delete_fulfillments (\<lambda>r. ff_pk r = f) s1"
  have wf: "shop_wf s" and acc: "accounted s" using ok by (simp_all add: shop_ok_def)
  have dist: "distinct (map ol_pk (sd_order_lines (sh_stock s)))" using wf by (simp add: shop_wf_def)
  have r: "row \<in> set (sh_fulfillments s)" "ff_pk row = f" using row_of_SomeD [OF row] by auto
  have f: "live s f" using r st by (auto simp: live_def)
  have one: "distinct (map fl_order_line (lines_in f s))" using wf r st by (auto simp: shop_wf_def)
  have log: "sd_order_lines (sh_stock (log_event k e s)) = sd_order_lines (sh_stock s)"
    "fulfilled_of (sh_stock (log_event k e s)) = fulfilled_of (sh_stock s)" for k e by (simp_all add: log_event_def)
  have ols: "sd_order_lines (sh_stock t) = set_fulfilled (\<lambda>k. fulfilled_of (sh_stock s) k - pieces (lines_in f s) k)
      (sd_order_lines (sh_stock s))"
    using take_back_fulfilled_lines [OF laws, of "log_event (ff_order row) OrderEvents_FULFILLMENT_CANCELED s" "lines_in f s"]
      dist first_quantity_distinct [OF one] by (simp add: t_def s1_def delete_fulfillments_def log)
  have ffs: "sh_fulfillments t = filter (\<lambda>r. ff_pk r \<noteq> f) (sh_fulfillments s)"
    and seq: "sh_line_sequence t = sh_line_sequence s"
    by (simp_all add: t_def s1_def delete_fulfillments_def log_event_def)
  have lines: "sh_fulfillment_lines t = filter (\<lambda>l. fl_fulfillment l \<noteq> f) (sh_fulfillment_lines s)"
    using r by (auto simp: t_def s1_def delete_fulfillments_def log_event_def intro!: filter_cong)
  have live: "live t g = live s g" if "g \<noteq> f" for g using that by (auto simp: live_def ffs)
  have "shop_wf t"
  proof -
    have "ol_pk ` set (sd_order_lines (sh_stock t)) = ol_pk ` set (sd_order_lines (sh_stock s))"
      by (metis list.set_map ols set_fulfilled_keys)
    moreover have "lines_in g t = lines_in g s" if "g \<noteq> f" for g
      using that by (auto simp: lines_in_def lines intro!: filter_cong)
    ultimately show ?thesis using wf dist by (auto simp: shop_wf_def ffs lines seq ols distinct_map_filter)
  qed
  moreover have "accounted t" unfolding accounted_def
  proof
    fix l' assume "l' \<in> set (sd_order_lines (sh_stock t))"
    then obtain l where l: "l \<in> set (sd_order_lines (sh_stock s))" "ol_pk l' = ol_pk l" "ol_quantity l' = ol_quantity l"
      "ol_quantity_fulfilled l' = fulfilled_of (sh_stock s) (ol_pk l) - pieces (lines_in f s) (ol_pk l)"
      by (auto simp: ols elim!: set_fulfilled_row)
    have "live_lines t = filter (\<lambda>l. fl_fulfillment l \<noteq> f) (live_lines s)"
      by (auto simp: live_lines_def lines live intro!: filter_cong)
    moreover have "filter (\<lambda>l. fl_fulfillment l = f) (live_lines s) = lines_in f s"
      using f by (auto simp: live_lines_def lines_in_def intro!: filter_cong)
    ultimately have "pieces (live_lines t) (ol_pk l) + pieces (lines_in f s) (ol_pk l) = pieces (live_lines s) (ol_pk l)"
      using pieces_split [of "live_lines s" "ol_pk l" "\<lambda>l. fl_fulfillment l = f"] by simp
    moreover have "0 \<le> pieces (lines_in f s) (ol_pk l)"
      by (rule pieces_nonneg) (use wf in \<open>simp add: shop_wf_def lines_in_def\<close>)
    ultimately show "pieces (live_lines t) (ol_pk l') \<le> ol_quantity_fulfilled l'
      \<and> ol_quantity_fulfilled l' \<le> pieces (sh_fulfillment_lines t) (ol_pk l') \<and> ol_quantity_fulfilled l' \<le> ol_quantity l'"
      using accounted_room [OF ok l(1)] accountedD [OF acc l(1)] pieces_lines_in [of f s "ol_pk l"]
      by (simp add: l lines)
  qed
  ultimately have "shop_ok t" by (simp add: shop_ok_def)
  moreover have "shop_ok (update_order_status k t) = shop_ok t" for k by (rule shop_ok_view) simp
  ultimately show ?thesis
    by (simp add: cancel_waiting_fulfillment_def row atomic_def Let_def t_def [symmetric] s1_def [symmetric])
qed

end
