(* ===== verification/OrderHistories.thy ===== *)
theory OrderHistories
  imports FulfilmentRuns
begin

section \<open>Histories of orders\<close>

text \<open>
  What \<^verbatim>\<open>OrderFulfill\<close> does to the fulfilled quantities, the relation whose steps are the operations of
  \<^verbatim>\<open>Fulfilment\<close>, and what holds in every reachable shop.
\<close>

subsection \<open>Fulfilling lines of an order\<close>

text \<open>What pairs of order lines and quantities add up to.\<close>

definition quantity_in :: "(nat \<times> int) list \<Rightarrow> nat \<Rightarrow> int" where
  "quantity_in ps k = sum_list (map (\<lambda>p. if fst p = k then snd p else 0) ps)"

lemma quantity_in_simps [simp]:
  "quantity_in [] k = 0" "quantity_in ((k', q) # ps) k = (if k' = k then q else 0) + quantity_in ps k"
  "quantity_in (ps @ ps') k = quantity_in ps k + quantity_in ps' k"
  by (simp_all add: quantity_in_def)

definition piece_of :: "new_line \<Rightarrow> nat \<times> int" where
  "piece_of n = (fst n, fst (snd (snd n)))"

lemma added_amount: "added news k = quantity_in (map piece_of news) k"
  by (induction news) (auto simp: piece_of_def)

definition positive :: "(nat \<times> int) list \<Rightarrow> (nat \<times> int) list" where
  "positive = filter (\<lambda>p. snd p > 0)"

lemma positive_simps [simp]:
  "positive [] = []" "positive (p # ps) = (if snd p > 0 then p # positive ps else positive ps)"
  by (simp_all add: positive_def)

lemma fulfillment_lines_loop_laws:
  assumes "fulfillment_lines_loop first exceed w f lines = ([], infos, news)"
  shows "map piece_of news = positive (map (\<lambda>(l, _, q). (ol_pk l, q)) lines)
    \<and> map (\<lambda>i. (li_line i, li_quantity i)) infos = positive (map (\<lambda>(l, _, q). (ol_pk l, q)) lines)
    \<and> (\<forall>n \<in> set news. fst (snd n) = f)"
  using assms
proof (induction lines arbitrary: infos news)
  case (Cons x lines)
  obtain l v q where x: "x = (l, v, q)" by (cases x)
  obtain lack infos' news' where rest: "fulfillment_lines_loop first exceed w f lines = (lack, infos', news')"
    by (metis surj_pair)
  with Cons.prems have "lack = []" by (auto simp: x Let_def split: if_splits)
  from Cons.IH [OF rest [unfolded this]] Cons.prems rest show ?case
    by (auto simp: x Let_def piece_of_def split: if_splits)
qed simp

lemma order_lines_data_laws:
  "order_lines_data s lines_data = Inr lines \<Longrightarrow> map (\<lambda>(l, _, q). (ol_pk l, q)) lines = lines_data
     \<and> (\<forall>x \<in> set lines. fst x \<in> set (sd_order_lines s))"
proof (induction lines_data arbitrary: lines)
  case (Cons x xs)
  obtain k q where x: "x = (k, q)" by fastforce
  from Cons.prems obtain l rest where l: "row_of ol_pk k (sd_order_lines s) = Some l"
    and rest: "order_lines_data s xs = Inr rest" and lines: "lines = (l, variant_of s l, q) # rest"
    by (auto simp: x bindr_eq_Inr split: option.splits)
  from Cons.IH [OF rest] row_of_SomeD [OF l] show ?case by (simp add: lines x)
qed simp

lemma fold_add_quantities:
  "fold (\<lambda>i m. m(li_line i := m (li_line i) + li_quantity i)) infos m =
     (\<lambda>k. m k + quantity_in (map (\<lambda>i. (li_line i, li_quantity i)) infos) k)"
  by (induction infos arbitrary: m) (auto simp: fun_eq_iff)

lemma quantity_in_none: "k \<notin> fst ` set ps \<Longrightarrow> quantity_in ps k = 0"
  by (induction ps) auto

text \<open>The fulfilled quantities have grown by \<open>news\<close>, and no line is written yet.\<close>

definition filled :: "shop_db \<Rightarrow> new_line list \<Rightarrow> shop_db \<Rightarrow> bool" where
  "filled s news t \<longleftrightarrow> sh_fulfillment_lines t = sh_fulfillment_lines s \<and> sh_line_sequence t = sh_line_sequence s
     \<and> sd_order_lines (sh_stock t) = set_fulfilled (\<lambda>k. fulfilled_of (sh_stock s) k + added news k) (sd_order_lines (sh_stock s))"

lemma fulfilled_of_set_fulfilled:
  "sd_order_lines t = set_fulfilled m (sd_order_lines s) \<Longrightarrow> k \<in> ol_pk ` set (sd_order_lines s) \<Longrightarrow> fulfilled_of t k = m k"
proof -
  assume t: "sd_order_lines t = set_fulfilled m (sd_order_lines s)" and k: "k \<in> ol_pk ` set (sd_order_lines s)"
  have "row_of ol_pk k (set_fulfilled m ls) = map_option (\<lambda>l. l\<lparr>ol_quantity_fulfilled := m (ol_pk l)\<rparr>) (row_of ol_pk k ls)" for ls
    by (induction ls) (auto simp: set_fulfilled_def)
  moreover obtain l where "row_of ol_pk k (sd_order_lines s) = Some l" using k by (metis row_of_None option.exhaust)
  ultimately show ?thesis by (auto simp: fulfilled_of_def t dest: row_of_SomeD)
qed

lemma filled_trans:
  assumes "filled s news t" "filled t news' u"
  shows "filled s (news @ news') u"
proof -
  have ols: "sd_order_lines (sh_stock t) = set_fulfilled (\<lambda>k. fulfilled_of (sh_stock s) k + added news k) (sd_order_lines (sh_stock s))"
    using assms(1) by (simp add: filled_def)
  have "set_fulfilled (\<lambda>k. fulfilled_of (sh_stock t) k + added news' k) (sd_order_lines (sh_stock s)) =
      set_fulfilled (\<lambda>k. fulfilled_of (sh_stock s) k + added (news @ news') k) (sd_order_lines (sh_stock s))"
    using fulfilled_of_set_fulfilled [OF ols] by (auto simp: set_fulfilled_def)
  then show ?thesis using assms by (simp add: filled_def)
qed

lemma filled_view: "distinct (map ol_pk (sd_order_lines (sh_stock s))) \<Longrightarrow> view t = view s \<Longrightarrow> filled s [] t"
  by (simp add: filled_def view_eq set_fulfilled_same)

lemma create_fulfillment_lines_result:
  assumes laws: "django_laws dj" and dist: "distinct (map ol_pk (sd_order_lines (sh_stock s)))"
    and run: "create_fulfillment_lines dj now f warehouse lines_data slug decrease exceed s = Inr (news, t)"
  shows "filled s news t" "sh_fulfillments t = sh_fulfillments s" "map piece_of news = positive lines_data"
    "\<And>n. n \<in> set news \<Longrightarrow> fst (snd n) = f \<and> fst n \<in> ol_pk ` set (sd_order_lines (sh_stock s))"
proof -
  obtain lines where lines: "order_lines_data (sh_stock s) lines_data = Inr lines"
    using run by (auto simp: create_fulfillment_lines_def bindr_eq_Inr)
  note O = order_lines_data_laws [OF lines]
  let ?first = "\<lambda>v. map_option st_pk (find (\<lambda>st. st_variant st = v)
     (filter (\<lambda>st. st_warehouse st = warehouse \<and> st_variant st \<in> set (map va_pk (List.map_filter (\<lambda>(_, v, _). v) lines)))
             (for_channel_and_country slug None False (sh_stock s))))"
  obtain lack infos news' where loop: "fulfillment_lines_loop ?first exceed warehouse f lines = (lack, infos, news')"
    by (rule prod_cases3)
  from run have "(if lack \<noteq> [] then Inl (StockError (InsufficientStock lack))
      else if infos = [] then Inr (news', s)
      else bindr (if decrease then decrease_stocks dj now infos exceed s else Inr s)
        (\<lambda>s. Inr (news', increase_order_line_quantity dj infos s))) = Inr (news, t)"
    unfolding create_fulfillment_lines_def lines bindr_simps Let_def loop prod.case .
  then have lack: "lack = []" and news: "news' = news"
    and rest: "infos = [] \<and> t = s \<or> infos \<noteq> [] \<and> (\<exists>s1. view s1 = view s \<and> t = increase_order_line_quantity dj infos s1)"
    by (auto simp: bindr_eq_Inr split: if_splits dest: decrease_stocks_view)
  note L = fulfillment_lines_loop_laws [OF loop [unfolded lack news]]
  show pieces: "map piece_of news = positive lines_data" using L O by simp
  have same: "map (\<lambda>i. (li_line i, li_quantity i)) infos = map piece_of news" using L O by simp
  show "filled s news t"
    using rest
  proof
    assume "infos = [] \<and> t = s"
    then show ?thesis using same filled_view [OF dist] by simp
  next
    assume "infos \<noteq> [] \<and> (\<exists>s1. view s1 = view s \<and> t = increase_order_line_quantity dj infos s1)"
    then obtain s1 where v: "view s1 = view s" and t: "t = increase_order_line_quantity dj infos s1" by blast
    have ols1: "sd_order_lines (sh_stock s1) = sd_order_lines (sh_stock s)" using v by (simp add: view_eq)
    have of1: "fulfilled_of (sh_stock s1) = fulfilled_of (sh_stock s)" by (simp add: fulfilled_of_def fun_eq_iff ols1)
    let ?m = "\<lambda>k. fulfilled_of (sh_stock s) k + quantity_in (map (\<lambda>i. (li_line i, li_quantity i)) infos) k"
    have "sd_order_lines (sh_stock (update_fulfilled dj (map li_line infos) ?m s1)) = set_fulfilled ?m (sd_order_lines (sh_stock s1))"
      by (rule update_fulfilled_lines [OF laws]) (use dist in \<open>auto simp: ols1 of1 image_iff intro!: quantity_in_none\<close>)
    then show ?thesis using v
      by (simp add: t filled_def increase_order_line_quantity_def fold_add_quantities of1 ols1 same added_amount view_eq)
  qed
  show "sh_fulfillments t = sh_fulfillments s"
    using rest by (auto simp: increase_order_line_quantity_def view_eq)
  fix n assume n: "n \<in> set news"
  then have "piece_of n \<in> set (positive (map (\<lambda>(l, _, q). (ol_pk l, q)) lines))" using L by (metis image_eqI list.set_map)
  then have "fst n \<in> ol_pk ` set (sd_order_lines (sh_stock s))" using O by (force simp: positive_def piece_of_def)
  then show "fst (snd n) = f \<and> fst n \<in> ol_pk ` set (sd_order_lines (sh_stock s))" using L n by blast
qed

text \<open>Several warehouses: a fresh fulfilment for each, whose lines are those of its group.\<close>

lemma fulfil_warehouses_result:
  assumes laws: "django_laws dj" and run: "fulfil_warehouses dj now k slug status tracking approved exceed groups s = Inr ((fs, news), t)"
    and ok: "shop_ok s0" and same: "sh_fulfillments s0 = sh_fulfillments s" and dist: "distinct (map ol_pk (sd_order_lines (sh_stock s)))"
    and distf: "distinct (map ff_pk (sh_fulfillments s))"
  shows "filled s news t \<and> (\<exists>rs. sh_fulfillments t = sh_fulfillments s @ rs \<and> map ff_pk rs = fs \<and> (\<forall>r \<in> set rs. ff_status r = status))
    \<and> distinct (map ff_pk (sh_fulfillments t)) \<and> length fs = length groups
    \<and> map piece_of news = concat (map (\<lambda>g. positive (snd g)) groups)
    \<and> (\<forall>n \<in> set news. fst (snd n) \<in> set fs \<and> fst n \<in> ol_pk ` set (sd_order_lines (sh_stock s)))
    \<and> (\<forall>f. (\<exists>g \<in> set groups. map piece_of (filter (\<lambda>n. fst (snd n) = f) news) = positive (snd g))
          \<or> filter (\<lambda>n. fst (snd n) = f) news = [])"
  using run dist distf
proof (induction groups arbitrary: s fs news)
  case Nil
  then show ?case by (simp add: filled_view)
next
  case (Cons g groups)
  obtain w ps where g: "g = (w, ps)" by fastforce
  obtain f s1 where create: "create_fulfillment k status tracking None None s = (f, s1)" by fastforce
  from Cons.prems(1) obtain news1 s2 fs' news' where lines: "create_fulfillment_lines dj now f w ps slug approved exceed s1 = Inr (news1, s2)"
    and rest: "fulfil_warehouses dj now k slug status tracking approved exceed groups s2 = Inr ((fs', news'), t)"
    and eqs: "fs = f # fs'" "news = news1 @ news'"
    by (auto simp: g create bindr_eq_Inr)
  define r where "r = \<lparr>ff_pk = f, ff_fulfillment_order = next_fulfillment_order k s, ff_order = k,
          ff_status = status, ff_tracking_number = tracking, ff_shipping_refund_amount = None, ff_total_refund_amount = None\<rparr>"
  have f: "f = next_fulfillment_pk s" using create by (simp add: create_fulfillment_def)
  have s1: "s1 = s\<lparr>sh_fulfillments := sh_fulfillments s @ [r]\<rparr>" using create unfolding create_fulfillment_def r_def f by simp
  have stock1: "sh_stock s1 = sh_stock s" by (simp add: s1)
  have dist1: "distinct (map ol_pk (sd_order_lines (sh_stock s1)))" using Cons.prems(2) by (simp add: stock1)
  note R = create_fulfillment_lines_result [OF laws dist1 lines]
  have dist2: "distinct (map ol_pk (sd_order_lines (sh_stock s2)))" and keys2: "ol_pk ` set (sd_order_lines (sh_stock s2)) = ol_pk ` set (sd_order_lines (sh_stock s))"
    using R(1) dist1 stock1 unfolding filled_def by (simp, metis list.set_map set_fulfilled_keys)
  have ffs2: "sh_fulfillments s2 = sh_fulfillments s @ [r]" using R(2) by (simp add: s1)
  have rf: "ff_pk r = f" "ff_status r = status" by (simp_all add: r_def)
  have distf2: "distinct (map ff_pk (sh_fulfillments s2))"
    using Cons.prems(3) next_fulfillment_pk_new [of s] by (simp add: ffs2 rf f)
  note IH = Cons.IH [OF rest dist2 distf2]
  have "filled s news1 s2" using R(1) by (simp add: filled_def s1)
  then have "filled s news t" using IH filled_trans eqs(2) by blast
  moreover obtain rs where rs: "sh_fulfillments t = sh_fulfillments s2 @ rs" "map ff_pk rs = fs'" "\<forall>r \<in> set rs. ff_status r = status"
    using IH by blast
  then have "sh_fulfillments t = sh_fulfillments s @ (r # rs) \<and> map ff_pk (r # rs) = fs \<and> (\<forall>x \<in> set (r # rs). ff_status x = status)"
    by (simp add: ffs2 eqs rf)
  moreover have "map piece_of news = concat (map (\<lambda>g. positive (snd g)) (g # groups))" using IH R(3) by (simp add: eqs g)
  moreover have "\<forall>n \<in> set news. fst (snd n) \<in> set fs \<and> fst n \<in> ol_pk ` set (sd_order_lines (sh_stock s))"
    using IH R(4) keys2 unfolding eqs stock1 by auto
  moreover have "(\<exists>g' \<in> set (g # groups). map piece_of (filter (\<lambda>n. fst (snd n) = f') news) = positive (snd g'))
      \<or> filter (\<lambda>n. fst (snd n) = f') news = []" for f'
  proof (cases "f' = f")
    case True
    have "f \<notin> set fs'" using IH rs(2) distf2 by (auto simp: rs(1) ffs2 rf)
    then have "filter (\<lambda>n. fst (snd n) = f) news' = []" using IH by (auto simp: filter_empty_conv)
    moreover have "filter (\<lambda>n. fst (snd n) = f) news1 = news1" using R(4) by (simp add: filter_id_conv)
    ultimately show ?thesis using R(3) by (simp add: True eqs g)
  next
    case False
    then have "filter (\<lambda>n. fst (snd n) = f') news1 = []" using R(4) by (auto simp: filter_empty_conv)
    then show ?thesis using IH by (simp add: eqs)
  qed
  moreover have "distinct (map ff_pk (sh_fulfillments t)) \<and> length fs = length (g # groups)" using IH by (simp add: eqs)
  ultimately show ?case by blast
qed

text \<open>Grouping by warehouse keeps the pieces.\<close>

lemma quantity_in_grow:
  assumes "distinct (map fst acc)" "w \<in> fst ` set acc"
  shows "sum_list (map (\<lambda>g. quantity_in (snd g) k) (map (\<lambda>(w', ps). (w', if w' = w then ps @ [p] else ps)) acc)) =
    sum_list (map (\<lambda>g. quantity_in (snd g) k) acc) + quantity_in [p] k"
proof -
  have none: "w \<notin> fst ` set acc \<Longrightarrow> map (\<lambda>(w', ps). (w', if w' = w then ps @ [p] else ps)) acc = acc" for acc
    by (induction acc) auto
  show ?thesis using assms
  proof (induction acc)
    case (Cons g acc)
    obtain w' ps where g: "g = (w', ps)" by (rule prod.exhaust)
    show ?case using Cons none [of acc] by (cases "w' = w") (auto simp: g simp del: map_map)
  qed simp
qed

definition group_pieces :: "(nat \<times> nat \<times> int) list \<Rightarrow> (nat \<times> (nat \<times> int) list) list" where
  "group_pieces flat = fold (\<lambda>(w, piece) acc. if w \<in> fst ` set acc then map (\<lambda>(w', ps). (w', if w' = w then ps @ [piece] else ps)) acc
             else acc @ [(w, [piece])]) flat []"

lemma group_pieces_laws:
  "distinct (map fst (group_pieces flat)) \<and> fst ` set (group_pieces flat) = fst ` set flat
   \<and> (\<forall>g \<in> set (group_pieces flat). snd g = map snd (filter (\<lambda>x. fst x = fst g) flat))
   \<and> sum_list (map (\<lambda>g. quantity_in (snd g) k) (group_pieces flat)) = quantity_in (map snd flat) k"
proof (induction flat rule: rev_induct)
  case Nil
  then show ?case by (simp add: group_pieces_def)
next
  case (snoc x flat)
  obtain w p where x: "x = (w, p)" by (rule prod.exhaust)
  let ?acc = "group_pieces flat"
  have step: "group_pieces (flat @ [(w, p)]) = (if w \<in> fst ` set ?acc then map (\<lambda>(w', ps). (w', if w' = w then ps @ [p] else ps)) ?acc
             else ?acc @ [(w, [p])])"
    by (simp add: group_pieces_def)
  show ?case
  proof (cases "w \<in> fst ` set ?acc")
    case True
    have "fst \<circ> (\<lambda>(w', ps). (w', if w' = w then ps @ [p] else ps)) = fst" by auto
    then have keys: "map fst (group_pieces (flat @ [x])) = map fst ?acc" using True by (simp add: step x)
    have "fst ` set (group_pieces (flat @ [x])) = fst ` set ?acc" using keys by (metis list.set_map)
    moreover have "\<forall>g \<in> set (group_pieces (flat @ [x])). snd g = map snd (filter (\<lambda>x. fst x = fst g) (flat @ [x]))"
      using True snoc unfolding x step by auto
    moreover have "sum_list (map (\<lambda>g. quantity_in (snd g) k) (group_pieces (flat @ [x]))) = quantity_in (map snd (flat @ [x])) k"
      using quantity_in_grow [OF _ True, of k p] snoc True by (simp add: step x)
    ultimately show ?thesis using snoc True keys by (auto simp: x)
  next
    case False
    then have "w \<notin> fst ` set flat" using snoc by simp
    then have "filter (\<lambda>x. fst x = w) flat = []" by (auto simp: filter_empty_conv)
    moreover have "fst g \<noteq> w" if "g \<in> set ?acc" for g using that False by auto
    ultimately show ?thesis using snoc False by (auto simp: step x)
  qed
qed

definition flat_pieces :: "fulfill_input \<Rightarrow> (nat \<times> nat \<times> int) list" where
  "flat_pieces lines = concat (map (\<lambda>(k, stocks). map (\<lambda>(w, q). (w, (k, q))) (filter (\<lambda>(_, q). q > 0) stocks)) lines)"

lemma lines_for_warehouses_pieces: "lines_for_warehouses lines = group_pieces (flat_pieces lines)"
  by (simp add: lines_for_warehouses_def group_pieces_def flat_pieces_def)

lemma flat_pieces_Cons: "flat_pieces ((k, stocks) # lines) =
    map (\<lambda>(w, q). (w, (k, q))) (filter (\<lambda>(_, q). q > 0) stocks) @ flat_pieces lines"
  by (simp add: flat_pieces_def)

lemma flat_pieces_keys: "x \<in> set (flat_pieces lines) \<Longrightarrow> fst (snd x) \<in> fst ` set lines \<and> 0 < snd (snd x)"
  by (auto simp: flat_pieces_def) force

lemma flat_pieces_distinct:
  assumes "distinct (map fst lines)" "\<forall>x \<in> set lines. distinct (map fst (snd x))"
  shows "distinct (map fst (map snd (filter (\<lambda>x. fst x = w) (flat_pieces lines))))"
  using assms
proof (induction lines)
  case (Cons x lines)
  obtain k stocks where x: "x = (k, stocks)" by (rule prod.exhaust)
  have own: "map fst (map snd (filter (\<lambda>x. fst x = w) (map (\<lambda>(w, q). (w, (k, q))) (filter (\<lambda>(_, q). q > 0) st)))) =
      map (\<lambda>_. k) (filter (\<lambda>p. fst p = w) (filter (\<lambda>(_, q). q > 0) st))" for st :: "(nat \<times> int) list"
    by (induction st) auto
  have "length (filter (\<lambda>p. fst p = w) (filter (\<lambda>(_, q). q > 0) st)) \<le> 1" if "distinct (map fst st)" for st :: "(nat \<times> int) list"
    using that by (induction st) (auto simp: filter_empty_conv image_iff)
  then have "length (filter (\<lambda>p. fst p = w) (filter (\<lambda>(_, q). q > 0) stocks)) \<le> 1" using Cons.prems(2) x by simp
  then have "distinct (map (\<lambda>_. k) (filter (\<lambda>p. fst p = w) (filter (\<lambda>(_, q). q > 0) stocks)))"
    by (cases "filter (\<lambda>p. fst p = w) (filter (\<lambda>(_, q). q > 0) stocks)") auto
  moreover have "k \<notin> fst ` snd ` set (flat_pieces lines)" using Cons.prems(1) flat_pieces_keys by (fastforce simp: x)
  ultimately show ?case using Cons own [of stocks]
    by (auto simp: x flat_pieces_Cons simp del: map_map)
qed (simp add: flat_pieces_def)

lemma flat_pieces_amount:
  assumes "distinct (map fst lines)"
  shows "quantity_in (map snd (flat_pieces lines)) k =
    (case map_of lines k of None \<Rightarrow> 0 | Some stocks \<Rightarrow> sum_list (map snd (filter (\<lambda>(_, q). q > 0) stocks)))"
  using assms
proof (induction lines)
  case (Cons x lines)
  obtain k' stocks where x: "x = (k', stocks)" by fastforce
  have own: "quantity_in (map snd (map (\<lambda>(w, q). (w, (k', q))) st)) k = (if k' = k then sum_list (map snd st) else 0)"
    for st :: "(nat \<times> int) list" by (induction st) auto
  have "k' \<notin> fst ` set lines" using Cons.prems by (simp add: x)
  then have "map_of lines k' = None" by (simp add: map_of_eq_None_iff)
  then show ?case using Cons own by (auto simp: x flat_pieces_Cons simp del: map_map)
qed (simp add: flat_pieces_def)

lemma shop_ok_new_fulfillments:
  assumes ok: "shop_ok s" and dist: "distinct (map ff_pk (sh_fulfillments s @ rs))"
  shows "shop_ok (s\<lparr>sh_fulfillments := sh_fulfillments s @ rs\<rparr>)"
    "\<And>l. l \<in> set (sh_fulfillment_lines s) \<Longrightarrow> fl_fulfillment l \<notin> ff_pk ` set rs"
proof -
  let ?t = "s\<lparr>sh_fulfillments := sh_fulfillments s @ rs\<rparr>"
  have wf: "shop_wf s" and acc: "accounted s" using ok by (simp_all add: shop_ok_def)
  show old: "fl_fulfillment l \<notin> ff_pk ` set rs" if "l \<in> set (sh_fulfillment_lines s)" for l
  proof -
    have "fl_fulfillment l \<in> ff_pk ` set (sh_fulfillments s)" using that wf by (simp add: shop_wf_def)
    moreover have "ff_pk ` set (sh_fulfillments s) \<inter> ff_pk ` set rs = {}" using dist by (simp add: Int_ac)
    ultimately show ?thesis by blast
  qed
  have "lines_in (ff_pk r) ?t = []" if "r \<in> set rs" for r
    using old that by (fastforce simp: lines_in_def filter_empty_conv)
  then have "shop_wf ?t" using wf dist by (auto simp: shop_wf_def lines_in_def)
  moreover have "live ?t (fl_fulfillment l) = live s (fl_fulfillment l)" if "l \<in> set (sh_fulfillment_lines s)" for l
    using old [OF that] by (auto simp: live_def image_iff)
  then have "live_lines ?t = live_lines s" by (simp add: live_lines_def cong: filter_cong)
  then have "accounted ?t" using acc by (simp add: accounted_def)
  ultimately show "shop_ok ?t" by (simp add: shop_ok_def)
qed

lemma new_lines_in:
  "map fl_order_line (filter (\<lambda>l. fl_fulfillment l = f) (fulfillment_line_rows n news)) =
     map fst (filter (\<lambda>x. fst (snd x) = f) news)"
  by (induction n news rule: fulfillment_line_rows.induct) auto

lemma clean_fulfill_input_laws:
  assumes "clean_fulfill_input now auto_approve allow_unpaid ord lines s = Inr groups"
  shows "groups = lines_for_warehouses lines" "distinct (map fst lines)" "\<forall>x \<in> set lines. distinct (map fst (snd x))"
    "\<And>k stocks l. (k, stocks) \<in> set lines \<Longrightarrow> row_of ol_pk k (sd_order_lines s) = Some l \<Longrightarrow>
      sum_list (map snd stocks) \<le> quantity_unfulfilled l"
proof -
  show "groups = lines_for_warehouses lines" "distinct (map fst lines)" "\<forall>x \<in> set lines. distinct (map fst (snd x))"
    using assms by (auto simp: clean_fulfill_input_def bindr_eq_Inr split: if_splits)
  fix k stocks l assume "(k, stocks) \<in> set lines" "row_of ol_pk k (sd_order_lines s) = Some l"
  moreover have "clean_fulfill_lines s lines = Inr ()"
    using assms by (auto simp: clean_fulfill_input_def bindr_eq_Inr split: if_splits)
  then have "\<not> (\<exists>(k, stocks) \<in> set lines. case row_of ol_pk k (sd_order_lines s) of
          None \<Rightarrow> False | Some l \<Rightarrow> sum_list (map snd stocks) > quantity_unfulfilled l)"
    unfolding clean_fulfill_lines_def by (metis sum.distinct(1))
  ultimately show "sum_list (map snd stocks) \<le> quantity_unfulfilled l" by fastforce
qed

lemma lines_for_warehouses_laws:
  assumes "distinct (map fst lines)" "\<forall>x \<in> set lines. distinct (map fst (snd x))"
    and nonneg: "\<forall>x \<in> set lines. \<forall>p \<in> set (snd x). 0 \<le> snd p"
  shows "g \<in> set (lines_for_warehouses lines) \<Longrightarrow> positive (snd g) = snd g \<and> distinct (map fst (snd g))"
    "quantity_in (concat (map (\<lambda>g. positive (snd g)) (lines_for_warehouses lines))) k =
      (case map_of lines k of None \<Rightarrow> 0 | Some stocks \<Rightarrow> sum_list (map snd stocks))"
proof -
  note G = group_pieces_laws [of "flat_pieces lines", folded lines_for_warehouses_pieces]
  have pos: "positive (snd g) = snd g \<and> distinct (map fst (snd g))" if "g \<in> set (lines_for_warehouses lines)" for g
  proof -
    have "snd g = map snd (filter (\<lambda>x. fst x = fst g) (flat_pieces lines))" using G that by blast
    then show ?thesis using flat_pieces_distinct [OF assms(1,2), of "fst g"]
      by (auto simp: positive_def filter_id_conv dest: flat_pieces_keys)
  qed
  then show "g \<in> set (lines_for_warehouses lines) \<Longrightarrow> positive (snd g) = snd g \<and> distinct (map fst (snd g))" .
  have "quantity_in (concat (map (\<lambda>g. positive (snd g)) gs)) k = sum_list (map (\<lambda>g. quantity_in (positive (snd g)) k) gs)"
    for gs :: "(nat \<times> (nat \<times> int) list) list" by (induction gs) auto
  also have "sum_list (map (\<lambda>g. quantity_in (positive (snd g)) k) (lines_for_warehouses lines)) =
      sum_list (map (\<lambda>g. quantity_in (snd g) k) (lines_for_warehouses lines))"
    using pos by (simp cong: map_cong)
  also have "\<dots> = quantity_in (map snd (flat_pieces lines)) k" using G by blast
  also have "\<dots> = (case map_of lines k of None \<Rightarrow> 0 | Some stocks \<Rightarrow> sum_list (map snd stocks))"
  proof -
    have "sum_list (map snd (filter (\<lambda>(_, q). q > 0) st)) = sum_list (map snd st)"
      if "\<forall>p \<in> set st. 0 \<le> snd p" for st :: "(nat \<times> int) list" using that by (induction st) auto
    moreover have "\<forall>p \<in> set st. 0 \<le> snd p" if "map_of lines k = Some st" for st
      using map_of_SomeD [OF that] nonneg by fastforce
    ultimately show ?thesis by (simp add: flat_pieces_amount [OF assms(1)] split: option.splits)
  qed
  finally show "quantity_in (concat (map (\<lambda>g. positive (snd g)) (lines_for_warehouses lines))) k = \<dots>" .
qed

lemma create_fulfillments_ok:
  assumes laws: "django_laws dj" and ok: "shop_ok s"
    and groups: "\<And>g. g \<in> set groups \<Longrightarrow> distinct (map fst (positive (snd g)))"
    and room: "\<And>l. l \<in> set (sd_order_lines (sh_stock s)) \<Longrightarrow>
      ol_quantity_fulfilled l + quantity_in (concat (map (\<lambda>g. positive (snd g)) groups)) (ol_pk l) \<le> ol_quantity l"
  shows "shop_ok (snd (create_fulfillments dj now k groups approved exceed tracking s))"
proof -
  have wf: "shop_wf s" using ok by (simp add: shop_ok_def)
  then have dist: "distinct (map ol_pk (sd_order_lines (sh_stock s)))" "distinct (map ff_pk (sh_fulfillments s))"
    by (simp_all add: shop_wf_def)
  have created: "shop_ok u"
    if run: "fulfil_warehouses dj now k slug status tracking approved exceed groups s = Inr ((fs, news), t)"
      and bulk: "fulfillment_line_bulk_create news t = Inr (rows, u)" for slug status fs news t rows u
  proof -
    note W = fulfil_warehouses_result [OF laws run ok refl dist]
    obtain rs where rs: "sh_fulfillments t = sh_fulfillments s @ rs" "map ff_pk rs = fs" using W by blast
    have distf: "distinct (map ff_pk (sh_fulfillments s @ rs))" using W rs(1) by metis
    define s' where "s' = s\<lparr>sh_fulfillments := sh_fulfillments s @ rs\<rparr>"
    have s': "shop_ok s'" unfolding s'_def by (rule shop_ok_new_fulfillments(1) [OF ok distf])
    note B = bulk_create_lines [OF bulk]
    have filled: "filled s news t" using W by blast
    then have t: "sh_fulfillment_lines t = sh_fulfillment_lines s" "sh_line_sequence t = sh_line_sequence s"
      "sd_order_lines (sh_stock t) = set_fulfilled (\<lambda>k. fulfilled_of (sh_stock s) k + added news k) (sd_order_lines (sh_stock s))"
      unfolding filled_def by blast+
    have news: "map piece_of news = concat (map (\<lambda>g. positive (snd g)) groups)" using W by blast
    have lines: "sh_fulfillment_lines u = sh_fulfillment_lines s' @ fulfillment_line_rows (sh_line_sequence s') news"
      by (simp add: B(1,2) t s'_def)
    show ?thesis
    proof (rule shop_ok_put [OF s' lines])
      show "sh_line_sequence u = sh_line_sequence s' + length news" "sh_fulfillments u = sh_fulfillments s'"
        by (simp_all add: B(2) t rs s'_def)
      show "sd_order_lines (sh_stock u) = set_fulfilled (\<lambda>k. fulfilled_of (sh_stock s') k + added news k) (sd_order_lines (sh_stock s'))"
        by (simp add: B(2) t s'_def)
      fix x assume x: "x \<in> set news"
      have "fst (snd x) \<in> set fs \<and> fst x \<in> ol_pk ` set (sd_order_lines (sh_stock s))" using W x by blast
      then show "0 \<le> fst (snd (snd x)) \<and> fst x \<in> ol_pk ` set (sd_order_lines (sh_stock s')) \<and> fst (snd x) \<in> ff_pk ` set (sh_fulfillments s')"
        using B(3) [OF x] rs(2) by (auto simp: s'_def)
    next
      fix l assume "l \<in> set (sd_order_lines (sh_stock s'))"
      then show "ol_quantity_fulfilled l + added news (ol_pk l) \<le> ol_quantity l"
        using room by (simp add: s'_def added_amount news)
    next
      fix f assume f: "f \<in> set (sh_fulfillments s')" "ff_status f = FulfillmentStatus_WAITING_FOR_APPROVAL"
      have split: "map fl_order_line (lines_in (ff_pk f) u) = map fl_order_line (lines_in (ff_pk f) s)
          @ map fst (filter (\<lambda>x. fst (snd x) = ff_pk f) news)"
        by (simp add: lines_in_def lines s'_def new_lines_in)
      show "distinct (map fl_order_line (lines_in (ff_pk f) u))"
      proof (cases "ff_pk f \<in> set fs")
        case True
        then have "lines_in (ff_pk f) s = []" using shop_ok_new_fulfillments(2) [OF ok distf] rs(2)
          by (fastforce simp: lines_in_def filter_empty_conv)
        moreover have "(\<exists>g \<in> set groups. map piece_of (filter (\<lambda>x. fst (snd x) = ff_pk f) news) = positive (snd g))
            \<or> filter (\<lambda>x. fst (snd x) = ff_pk f) news = []" using W by blast
        then have "distinct (map fst (map piece_of (filter (\<lambda>x. fst (snd x) = ff_pk f) news)))"
          by (elim disjE bexE) (simp_all only: groups list.map distinct.simps)
        then have "distinct (map fst (filter (\<lambda>x. fst (snd x) = ff_pk f) news))" by (simp add: piece_of_def comp_def)
        ultimately show ?thesis using split by simp
      next
        case False
        then have "f \<in> set (sh_fulfillments s)" using f(1) rs(2) by (auto simp: s'_def)
        moreover have "filter (\<lambda>x. fst (snd x) = ff_pk f) news = []" using W False by (auto simp: filter_empty_conv)
        ultimately show ?thesis using split wf f(2) by (simp add: shop_wf_def)
      qed
    qed
  qed
  have frame: "shop_ok (s\<lparr>sh_circulated_currency := c, sh_circulated_items := i\<rparr>) = shop_ok s"
    "shop_ok (log_event k OrderEvents_FULFILLMENT_AWAITS_APPROVAL s) = shop_ok s"
    "shop_ok (log_event k OrderEvents_FULFILLMENT_FULFILLED_ITEMS (s\<lparr>sh_stock := remove_reservations_for_order k (sh_stock s)\<rparr>)) = shop_ok s"
    "shop_ok (update_order_status k s) = shop_ok s"
    for s c i k by (rule shop_ok_view, simp add: view_stock)+
  show ?thesis using ok created
    by (auto simp: create_fulfillments_def Let_def bindr_def frame split: option.splits sum.splits prod.splits if_splits)
qed

lemma order_fulfill_ok:
  assumes laws: "django_laws dj" and ok: "shop_ok s" and nonneg: "\<forall>x \<in> set lines. \<forall>p \<in> set (snd x). 0 \<le> snd p"
  shows "shop_ok (snd (order_fulfill dj now auto_approve allow_unpaid k lines exceed tracking s))"
proof -
  have "shop_ok (snd (create_fulfillments dj now k groups auto_approve exceed tracking s))"
    if clean: "clean_fulfill_input now auto_approve allow_unpaid ord lines (sh_stock s) = Inr groups" for ord groups
  proof (rule create_fulfillments_ok [OF laws ok])
    note C = clean_fulfill_input_laws [OF clean]
    note L = lines_for_warehouses_laws [OF C(2,3) nonneg]
    show "distinct (map fst (positive (snd g)))" if "g \<in> set groups" for g using L(1) that by (simp add: C(1))
    fix l assume l: "l \<in> set (sd_order_lines (sh_stock s))"
    have "row_of ol_pk (ol_pk l) (sd_order_lines (sh_stock s)) = Some l"
      using l ok by (simp add: row_of_eq_Some shop_ok_def shop_wf_def)
    then show "ol_quantity_fulfilled l + quantity_in (concat (map (\<lambda>g. positive (snd g)) groups)) (ol_pk l) \<le> ol_quantity l"
      using C(4) [OF map_of_SomeD] accounted_room [OF ok l]
      by (force simp: C(1) L(2) quantity_unfulfilled_def split: option.splits)
  qed
  then show ?thesis using ok by (auto simp: order_fulfill_def split: option.splits sum.splits)
qed

subsection \<open>Histories\<close>

text \<open>
  The steps: the mutations on fulfilments and orders, and the expiry of an order, whatever they return. The
  quantities of the input are not negative: the mutations take any integer.
\<close>

inductive shop_step :: "django \<Rightarrow> shop_db \<Rightarrow> shop_db \<Rightarrow> bool" for dj where
  fulfill: "\<forall>x \<in> set lines. \<forall>p \<in> set (snd x). 0 \<le> snd p \<Longrightarrow>
    shop_step dj s (snd (order_fulfill dj now auto_approve allow_unpaid k lines exceed tracking s))"
| approve: "shop_step dj s (snd (fulfillment_approve dj now allow_unpaid f exceed s))"
| cancel_fulfilment: "shop_step dj s (snd (fulfillment_cancel dj f warehouse s))"
| refund: "\<forall>x \<in> set fulfillment_lines. 0 \<le> snd x \<Longrightarrow>
    shop_step dj s (snd (fulfillment_refund_products dj prec call k order_lines fulfillment_lines amount costs s))"
| return: "\<forall>x \<in> set order_lines. 0 \<le> fst (snd x) \<Longrightarrow> \<forall>x \<in> set fulfillment_lines. 0 \<le> fst (snd x) \<Longrightarrow>
    shop_step dj s (snd (fulfillment_return_products dj now prec call k order_lines fulfillment_lines refund amount costs s))"
| cancel: "shop_step dj s (snd (order_cancel dj user k s))"
| expire: "shop_step dj s (expire_order dj prec call k s)"

lemma fulfillment_approve_ok:
  assumes "django_laws dj" "shop_ok s"
  shows "shop_ok (snd (fulfillment_approve dj now allow_unpaid f exceed s))"
  using assms approve_fulfillment_ok [OF assms]
  by (auto simp: fulfillment_approve_def Let_def split: option.splits sum.splits)

lemma fulfillment_cancel_ok:
  assumes "django_laws dj" "shop_ok s"
  shows "shop_ok (snd (fulfillment_cancel dj f warehouse s))"
  using assms(2) cancel_waiting_fulfillment_ok [OF assms] cancel_fulfillment_ok [OF assms]
  by (auto simp: fulfillment_cancel_def can_edit_def Let_def split: option.splits)

lemma order_cancel_ok:
  assumes "django_laws dj" "shop_ok s"
  shows "shop_ok (snd (order_cancel dj user k s))"
  using assms(2) cancel_order_ok [OF assms] by (auto simp: order_cancel_def split: sum.splits)

lemma fulfillment_refund_products_ok:
  assumes laws: "django_laws dj" and ok: "shop_ok s" and nonneg: "\<forall>x \<in> set fulfillment_lines. 0 \<le> snd x"
  shows "shop_ok (snd (fulfillment_refund_products dj prec call k order_lines fulfillment_lines amount costs s))"
proof -
  have "movable s data" if "clean_fulfillment_lines s (map (\<lambda>(i, q). (i, q, False)) fulfillment_lines)
             [FulfillmentStatus_FULFILLED, FulfillmentStatus_RETURNED, FulfillmentStatus_WAITING_FOR_APPROVAL] = Inr data" for data
    by (rule clean_fulfillment_lines_movable [OF ok that]) (use nonneg in auto)
  then show ?thesis using ok create_refund_fulfillment_ok [OF laws ok]
    by (auto simp: fulfillment_refund_products_def bindr_eq_Inr split: sum.splits prod.splits)
qed

lemma fulfillment_return_products_ok:
  assumes laws: "django_laws dj" and ok: "shop_ok s" and order_lines: "\<forall>x \<in> set order_lines. 0 \<le> fst (snd x)"
    and nonneg: "\<forall>x \<in> set fulfillment_lines. 0 \<le> fst (snd x)"
  shows "shop_ok (snd (fulfillment_return_products dj now prec call k order_lines fulfillment_lines refund amount costs s))"
proof -
  have "shop_ok (snd (create_fulfillments_for_returned_products dj now prec call user k payment infos data refund amount' costs s))"
    if "clean_lines (sh_stock s) order_lines = Inr infos" "clean_fulfillment_lines s fulfillment_lines
             [FulfillmentStatus_FULFILLED, FulfillmentStatus_REFUNDED, FulfillmentStatus_WAITING_FOR_APPROVAL] = Inr data"
    for user payment infos data amount'
  proof (rule create_fulfillments_for_returned_products_ok [OF laws ok])
    show "movable s data" by (rule clean_fulfillment_lines_movable [OF ok that(2)]) (use nonneg in auto)
    show "0 \<le> oi_quantity i" if "i \<in> set infos" for i
      by (rule clean_lines_nonneg [OF \<open>clean_lines (sh_stock s) order_lines = Inr infos\<close> _ that]) (use order_lines in auto)
  qed
  then show ?thesis using ok
    by (auto simp: fulfillment_return_products_def bindr_eq_Inr split: sum.splits prod.splits)
qed

lemma shop_step_ok: "shop_step dj s t \<Longrightarrow> django_laws dj \<Longrightarrow> shop_ok s \<Longrightarrow> shop_ok t"
  by (induction rule: shop_step.induct)
    (auto intro: order_fulfill_ok fulfillment_approve_ok fulfillment_cancel_ok fulfillment_refund_products_ok
      fulfillment_return_products_ok order_cancel_ok expire_order_ok)

lemma shop_steps_ok: "(shop_step dj)\<^sup>*\<^sup>* s t \<Longrightarrow> django_laws dj \<Longrightarrow> shop_ok s \<Longrightarrow> shop_ok t"
  by (induction rule: rtranclp_induct) (auto intro: shop_step_ok)

lemma view_reservations [simp]: "view (s\<lparr>sh_stock := remove_reservations_for_order k (sh_stock s)\<rparr>) = view s"
  by (simp add: view_stock)

text \<open>What a successful \<open>order_fulfill\<close> leaves.\<close>

lemma order_fulfill_result:
  assumes laws: "django_laws dj" and ok: "shop_ok s" and nonneg: "\<forall>x \<in> set lines. \<forall>p \<in> set (snd x). 0 \<le> snd p"
    and run: "order_fulfill dj now auto_approve allow_unpaid k lines exceed tracking s = (Inr fs, t)"
  shows "sd_order_lines (sh_stock t) = set_fulfilled
      (\<lambda>i. fulfilled_of (sh_stock s) i + (case map_of lines i of None \<Rightarrow> 0 | Some stocks \<Rightarrow> sum_list (map snd stocks)))
      (sd_order_lines (sh_stock s))
    \<and> pieces (sh_fulfillment_lines t) i = pieces (sh_fulfillment_lines s) i
        + (case map_of lines i of None \<Rightarrow> 0 | Some stocks \<Rightarrow> sum_list (map snd stocks))
    \<and> (\<exists>rs. sh_fulfillments t = sh_fulfillments s @ rs \<and> map ff_pk rs = fs \<and> list_all (\<lambda>r. ff_status r =
        (if auto_approve then FulfillmentStatus_FULFILLED else FulfillmentStatus_WAITING_FOR_APPROVAL)) rs)"
proof -
  let ?status = "if auto_approve then FulfillmentStatus_FULFILLED else FulfillmentStatus_WAITING_FOR_APPROVAL"
  obtain ord groups where clean: "clean_fulfill_input now auto_approve allow_unpaid ord lines (sh_stock s) = Inr groups"
    and create: "create_fulfillments dj now k groups auto_approve exceed tracking s = (Inr fs, t)"
    using run by (auto simp: order_fulfill_def split: option.splits sum.splits)
  from create obtain slug news s1 rows s2 where
    fill: "fulfil_warehouses dj now k slug ?status tracking auto_approve exceed groups s = Inr ((fs, news), s1)"
    and bulk: "fulfillment_line_bulk_create news s1 = Inr (rows, s2)" and view: "view t = view s2"
    unfolding create_fulfillments_def
    by (auto simp: bindr_eq_Inr Let_def split: option.splits sum.splits if_splits intro: that)
  have dist: "distinct (map ol_pk (sd_order_lines (sh_stock s)))" "distinct (map ff_pk (sh_fulfillments s))"
    using ok by (simp_all add: shop_ok_def shop_wf_def)
  note W = fulfil_warehouses_result [OF laws fill ok refl dist]
  note B = bulk_create_lines [OF bulk]
  note C = clean_fulfill_input_laws [OF clean]
  note L = lines_for_warehouses_laws [OF C(2,3) nonneg]
  have news: "added news i = (case map_of lines i of None \<Rightarrow> 0 | Some stocks \<Rightarrow> sum_list (map snd stocks))" for i
    using W L(2) by (simp add: added_amount C(1))
  show ?thesis
    using W view by (auto simp: view_eq B(1,2) filled_def news fulfillment_line_rows_laws(1) list_all_iff)
qed

end
