(* ===== verification/OrderProperties.thy ===== *)
theory OrderProperties
  imports OrderHistories PaymentLaws StockLaws
begin

section \<open>What holds of orders and their fulfilments\<close>

text \<open>The statements about fulfilments, with an example shop.\<close>

definition django_example :: django where
  "django_example = \<lparr>dj_stocks = first_update st_pk, dj_order_lines = first_update ol_pk,
     dj_fulfillment_lines = first_update fl_pk\<rparr>"

lemma django_example_laws: "django_laws django_example"
  by (simp add: django_laws_def django_example_def)

text \<open>One order with two lines of two pieces each, not fulfilled.\<close>

definition shop_example :: shop_db where
  "shop_example = \<lparr>sh_stock = stock_example, sh_pay = pay_example, sh_fulfillments = [], sh_fulfillment_lines = [],
     sh_line_sequence = 1, sh_events = [], sh_circulated_currency = 0, sh_circulated_items = 0\<rparr>"

lemma shop_example_ok: "shop_wf shop_example" "accounted shop_example"
  by (auto simp: shop_wf_def accounted_def shop_example_def stock_example_def live_lines_def)

definition fulfil_example :: "fulfill_input" where
  "fulfil_example = [(10, [(1, 1)]), (11, [(1, 2)])]"

lemma fulfil_example_nonneg: "\<forall>x \<in> set fulfil_example. \<forall>p \<in> set (snd x). 0 \<le> snd p"
  by (simp add: fulfil_example_def)

definition partly_fulfilled :: shop_db where
  "partly_fulfilled = snd (order_fulfill django_example (2024, 3, 1, 0) True True 7 fulfil_example False [] shop_example)"

lemma partly_fulfilled_step: "(shop_step django_example)\<^sup>*\<^sup>* shop_example partly_fulfilled"
  unfolding partly_fulfilled_def by (intro r_into_rtranclp shop_step.fulfill fulfil_example_nonneg)

lemma partly_fulfilled_run:
  "fst (order_fulfill django_example (2024, 3, 1, 0) True True 7 fulfil_example False [] shop_example) = Inr [1]"
  "map (\<lambda>l. (ol_pk l, ol_quantity_fulfilled l)) (sd_order_lines (sh_stock partly_fulfilled)) = [(10, 1), (11, 2)]"
  "map (\<lambda>l. (fl_order_line l, fl_quantity l)) (sh_fulfillment_lines partly_fulfilled) = [(10, 1), (11, 2)]"
  "map oh_status (sd_orders (sh_stock partly_fulfilled)) = [OrderStatus_PARTIALLY_FULFILLED]"
  by code_simp+

subsection \<open>Histories\<close>

text \<open>
  C1: in every history of fulfilling, approving, cancelling, refunding, returning, replacing and
  expiring with quantities that are not negative, an order line has at least as many pieces
  counted as fulfilled as lie in fulfilments that are not cancelled, at most as many as lie in
  any of its fulfilments, and never more than were ordered
\<close>

theorem fulfilled_pieces_accounted:
  assumes steps: "(shop_step dj)\<^sup>*\<^sup>* s t" and laws: "django_laws dj" and start: "shop_wf s" "accounted s"
    and l: "l \<in> set (sd_order_lines (sh_stock t))"
  shows "pieces (live_lines t) (ol_pk l) \<le> ol_quantity_fulfilled l
    \<and> ol_quantity_fulfilled l \<le> pieces (sh_fulfillment_lines t) (ol_pk l)
    \<and> 0 \<le> ol_quantity_fulfilled l \<and> ol_quantity_fulfilled l \<le> ol_quantity l"
proof -
  have ok: "shop_ok t" by (rule shop_steps_ok [OF steps laws]) (simp add: shop_ok_def start)
  then have "\<forall>l \<in> set (live_lines t). 0 \<le> fl_quantity l" by (simp add: shop_ok_def shop_wf_def live_lines_def)
  from pieces_nonneg [OF this, of "ol_pk l"] ok l show ?thesis by (force simp: shop_ok_def accounted_def)
qed

lemma fulfilled_pieces_accounted_witness:
  "list_all (\<lambda>l. pieces (live_lines partly_fulfilled) (ol_pk l) \<le> ol_quantity_fulfilled l \<and> ol_quantity_fulfilled l \<le> ol_quantity l)
     (sd_order_lines (sh_stock partly_fulfilled))
   \<and> map ol_quantity_fulfilled (sd_order_lines (sh_stock partly_fulfilled)) = [1, 2]"
proof -
  have "map snd (map (\<lambda>l. (ol_pk l, ol_quantity_fulfilled l)) (sd_order_lines (sh_stock partly_fulfilled))) = [1, 2]"
    unfolding partly_fulfilled_run by simp
  then show ?thesis
    using fulfilled_pieces_accounted [OF partly_fulfilled_step django_example_laws shop_example_ok]
    by (simp add: list_all_iff comp_def)
qed

text \<open>In every such history the keys of fulfilments, fulfilment lines and order lines stay
  unique, every fulfilment line belongs to an existing fulfilment and an existing order line,
  and its quantity is not negative: deleting emptied fulfilments and lines leaves nothing behind\<close>

theorem fulfilments_well_formed:
  assumes steps: "(shop_step dj)\<^sup>*\<^sup>* s t" and laws: "django_laws dj" and start: "shop_wf s" "accounted s"
  shows "distinct (map ff_pk (sh_fulfillments t)) \<and> distinct (map fl_pk (sh_fulfillment_lines t))
    \<and> distinct (map ol_pk (sd_order_lines (sh_stock t)))
    \<and> fl_fulfillment ` set (sh_fulfillment_lines t) \<subseteq> ff_pk ` set (sh_fulfillments t)
    \<and> fl_order_line ` set (sh_fulfillment_lines t) \<subseteq> ol_pk ` set (sd_order_lines (sh_stock t))
    \<and> list_all (\<lambda>l. 0 \<le> fl_quantity l) (sh_fulfillment_lines t)"
proof -
  have "shop_ok t" by (rule shop_steps_ok [OF steps laws]) (simp add: shop_ok_def start)
  then have "shop_wf t" by (simp add: shop_ok_def)
  then show ?thesis by (auto simp: shop_wf_def list_all_iff)
qed

lemma fulfilments_well_formed_witness:
  "distinct (map fl_pk (sh_fulfillment_lines partly_fulfilled)) \<and> length (sh_fulfillment_lines partly_fulfilled) = 2"
proof -
  have "length (map (\<lambda>l. (fl_order_line l, fl_quantity l)) (sh_fulfillment_lines partly_fulfilled)) = 2"
    unfolding partly_fulfilled_run by simp
  then show ?thesis
    using fulfilments_well_formed [OF partly_fulfilled_step django_example_laws shop_example_ok] by simp
qed

subsection \<open>What fulfilling does\<close>

text \<open>
  C23: when no quantity of the input is negative and the rows are in a state that the fulfilment
  operations keep, a successful fulfilment adds to every order line exactly what the input asks
  for over all warehouses, in the line's counter and in the new fulfilment lines alike, and
  creates fulfilments with the status that the approval setting gives; grouping by warehouse
  loses and repeats nothing
\<close>

theorem order_fulfill_books_request:
  assumes laws: "django_laws dj" and start: "shop_wf s" "accounted s"
    and nonneg: "\<forall>x \<in> set lines. \<forall>p \<in> set (snd x). 0 \<le> snd p"
    and run: "order_fulfill dj now auto_approve allow_unpaid k lines exceed tracking s = (Inr fs, t)"
  shows "sd_order_lines (sh_stock t) = set_fulfilled
      (\<lambda>i. fulfilled_of (sh_stock s) i + (case map_of lines i of None \<Rightarrow> 0 | Some stocks \<Rightarrow> sum_list (map snd stocks)))
      (sd_order_lines (sh_stock s))
    \<and> pieces (sh_fulfillment_lines t) i = pieces (sh_fulfillment_lines s) i
        + (case map_of lines i of None \<Rightarrow> 0 | Some stocks \<Rightarrow> sum_list (map snd stocks))
    \<and> (\<exists>rs. sh_fulfillments t = sh_fulfillments s @ rs \<and> map ff_pk rs = fs \<and> list_all (\<lambda>r. ff_status r =
        (if auto_approve then FulfillmentStatus_FULFILLED else FulfillmentStatus_WAITING_FOR_APPROVAL)) rs)"
  by (rule order_fulfill_result [OF laws _ nonneg run]) (simp add: shop_ok_def start)

lemma order_fulfill_books_request_witness:
  "map ol_quantity_fulfilled (sd_order_lines (sh_stock partly_fulfilled)) = [1, 2]
   \<and> pieces (sh_fulfillment_lines partly_fulfilled) 11 = 2 \<and> map ff_pk (sh_fulfillments partly_fulfilled) = [1]"
proof -
  have run: "order_fulfill django_example (2024, 3, 1, 0) True True 7 fulfil_example False [] shop_example = (Inr [1], partly_fulfilled)"
    using partly_fulfilled_run(1) by (simp add: partly_fulfilled_def prod_eq_iff)
  from order_fulfill_books_request [OF django_example_laws shop_example_ok fulfil_example_nonneg run, of 11]
  show ?thesis
    by (auto simp: shop_example_def stock_example_def fulfil_example_def set_fulfilled_def fulfilled_of_def)
qed

subsection \<open>What cancelling an order does\<close>

lemma move_all_order_lines:
  assumes "move_order_lines_loop s target infos m = Inr (news, m')" "distinct (map oi_line infos)"
    and "\<And>i. i \<in> set infos \<Longrightarrow> \<exists>l. row_of ol_pk (oi_line i) (sd_order_lines s) = Some l \<and> oi_quantity i = ol_quantity l \<and> 0 \<le> m (oi_line i)"
  shows "m' k = (if k \<in> oi_line ` set infos then (case row_of ol_pk k (sd_order_lines s) of None \<Rightarrow> 0 | Some l \<Rightarrow> ol_quantity l) else m k)"
  using assms
proof (induction infos arbitrary: m news)
  case (Cons i infos)
  from Cons.prems(3) [of i] obtain l where l: "row_of ol_pk (oi_line i) (sd_order_lines s) = Some l" "oi_quantity i = ol_quantity l"
    "0 \<le> m (oi_line i)" by auto
  from Cons.prems(1) l obtain rest where run: "move_order_lines_loop s target infos (m(oi_line i := ol_quantity l)) = Inr (rest, m')"
    by (auto simp: Let_def bindr_eq_Inr)
  have fresh: "oi_line i \<notin> oi_line ` set infos" "distinct (map oi_line infos)" using Cons.prems(2) by auto
  have "\<exists>l'. row_of ol_pk (oi_line j) (sd_order_lines s) = Some l' \<and> oi_quantity j = ol_quantity l'
      \<and> 0 \<le> (m(oi_line i := ol_quantity l)) (oi_line j)" if "j \<in> set infos" for j
  proof -
    have "oi_line j \<noteq> oi_line i" using fresh(1) that by (metis image_eqI)
    then show ?thesis using Cons.prems(3) [of j] that by simp
  qed
  from Cons.IH [OF run fresh(2) this] fresh(1) l show ?case by auto
qed simp

lemma moved_rest:
  assumes "move_order_lines_loop s target infos m = Inr (news, m')" "distinct (map oi_line infos)"
    and "\<And>i. i \<in> set infos \<Longrightarrow> \<exists>l. row_of ol_pk (oi_line i) (sd_order_lines s) = Some l \<and> oi_quantity i = ol_quantity l \<and> 0 \<le> m (oi_line i)"
  shows "news = map (\<lambda>i. (oi_line i, target, oi_quantity i - m (oi_line i), None)) infos"
  using assms
proof (induction infos arbitrary: m news)
  case (Cons i infos)
  from Cons.prems(3) [of i] obtain l where l: "row_of ol_pk (oi_line i) (sd_order_lines s) = Some l" "oi_quantity i = ol_quantity l"
    "0 \<le> m (oi_line i)" by auto
  from Cons.prems(1) l obtain rest where run: "move_order_lines_loop s target infos (m(oi_line i := ol_quantity l)) = Inr (rest, m')"
    and news: "news = (oi_line i, target, ol_quantity l - m (oi_line i), None) # rest"
    by (auto simp: Let_def bindr_eq_Inr)
  have fresh: "oi_line j \<noteq> oi_line i" if "j \<in> set infos" for j using Cons.prems(2) that by (force simp: image_iff)
  have "\<exists>l'. row_of ol_pk (oi_line j) (sd_order_lines s) = Some l' \<and> oi_quantity j = ol_quantity l'
      \<and> 0 \<le> (m(oi_line i := ol_quantity l)) (oi_line j)" if "j \<in> set infos" for j
    using Cons.prems(3) [of j] fresh [OF that] that by simp
  from Cons.IH [OF run _ this] Cons.prems(2) fresh l(2) show ?case by (simp add: news)
qed simp

lemma saved_row:
  assumes "r \<in> set (save_row key k f rows)" "key r = k" "\<And>r. key (f r) = key r"
  shows "\<exists>r'. r = f r'"
proof -
  obtain r' where "r = (if key r' = k then f r' else r')" using assms(1) unfolding save_row_def set_map by (rule imageE)
  show ?thesis
  proof (cases "key r' = k")
    case True
    with \<open>r = (if key r' = k then f r' else r')\<close> have "r = f r'" by (metis (full_types))
    then show ?thesis ..
  next
    case False
    with \<open>r = (if key r' = k then f r' else r')\<close> have "r = r'" by (metis (full_types))
    with False assms(2) show ?thesis by blast
  qed
qed

lemma cancelled_lines:
  assumes laws: "django_laws dj" and ok: "shop_ok s" and run: "cancel_order dj k s = (Inr (), t)"
  shows "sd_order_lines (sh_stock t) = map (\<lambda>l. if ol_order l = k then l\<lparr>ol_quantity_fulfilled := ol_quantity l\<rparr> else l)
      (sd_order_lines (sh_stock s))"
    "\<And>h. h \<in> set (sd_orders (sh_stock t)) \<Longrightarrow> oh_pk h = k \<Longrightarrow> oh_status h = OrderStatus_CANCELED"
    "\<And>ord. ord \<in> set (pd_orders (sh_pay t)) \<Longrightarrow> order_pk ord = k \<Longrightarrow> order_status ord = OrderStatus_CANCELED"
    "live_lines t = live_lines s"
proof -
  define s0 where "s0 = (log_event k OrderEvents_CANCELED s)\<lparr>sh_stock := remove_reservations_for_order k (sh_stock (log_event k OrderEvents_CANCELED s))\<rparr>"
  have view0: "view s0 = view s" by (simp add: s0_def)
  have ok0: "shop_ok s0" using ok shop_ok_view [OF view0] by simp
  from run obtain f u where cancelled: "create_cancel_fulfillment dj k s0 = Inr (f, u)"
    and t: "t = save_order_status k OrderStatus_CANCELED u"
    unfolding cancel_order_def Let_def s0_def [symmetric] by (auto simp: atomic_def bindr_eq_Inr split: sum.splits prod.splits)
  obtain s1 created where create: "create_fulfillment k FulfillmentStatus_CANCELED [] None None s0 = (f, s1)"
    and move: "move_order_lines_to_target_fulfillment dj (all_order_lines k s0) f s1 = Inr (created, u)"
    using cancelled by (auto simp: create_cancel_fulfillment_def Let_def bindr_eq_Inr split: prod.splits)
  note C = create_fulfillment_ok [OF create ok0]
  from move_order_lines_changes [OF laws C(1) move] obtain news m where
    loop: "move_order_lines_loop (sh_stock s1) f (all_order_lines k s0) (fulfilled_of (sh_stock s1)) = Inr (news, m)"
    and ols: "sd_order_lines (sh_stock u) = set_fulfilled m (sd_order_lines (sh_stock s1))"
    and lines: "sh_fulfillment_lines u = sh_fulfillment_lines s1 @ fulfillment_line_rows (sh_line_sequence s1) news"
    and ffs: "sh_fulfillments u = sh_fulfillments s1" .
  have same: "sd_order_lines (sh_stock s1) = sd_order_lines (sh_stock s)" using view0 C(6) by (simp add: view_eq)
  have dist: "distinct (map ol_pk (sd_order_lines (sh_stock s)))" using ok by (simp add: shop_ok_def shop_wf_def)
  have nonneg: "0 \<le> ol_quantity_fulfilled l" if "l \<in> set (sd_order_lines (sh_stock s))" for l
  proof -
    have "0 \<le> pieces (live_lines s) (ol_pk l)"
      by (rule pieces_nonneg) (use ok in \<open>auto simp: shop_ok_def shop_wf_def live_lines_def\<close>)
    then show ?thesis using ok that by (force simp: shop_ok_def accounted_def)
  qed
  have infos: "all_order_lines k s0 = map (\<lambda>l. \<lparr>oi_line = ol_pk l, oi_quantity = ol_quantity l, oi_replace = False\<rparr>)
      (filter (\<lambda>l. ol_order l = k) (sd_order_lines (sh_stock s)))"
    using view0 by (simp add: all_order_lines_def order_lines_of_def view_eq)
  have keys: "oi_line ` set (all_order_lines k s0) = ol_pk ` {l \<in> set (sd_order_lines (sh_stock s)). ol_order l = k}"
    by (simp add: infos image_image)
  have row: "row_of ol_pk (ol_pk l) (sd_order_lines (sh_stock s)) = Some l" if "l \<in> set (sd_order_lines (sh_stock s))" for l
    using dist that by (simp add: row_of_eq_Some)
  have m: "m i = (if i \<in> oi_line ` set (all_order_lines k s0) then (case row_of ol_pk i (sd_order_lines (sh_stock s1)) of None \<Rightarrow> 0
      | Some l \<Rightarrow> ol_quantity l) else fulfilled_of (sh_stock s1) i)" for i
  proof (rule move_all_order_lines [OF loop])
    show "distinct (map oi_line (all_order_lines k s0))" using dist by (simp add: infos comp_def distinct_map_filter)
    fix j assume "j \<in> set (all_order_lines k s0)"
    then obtain l where l: "l \<in> set (sd_order_lines (sh_stock s))" "oi_line j = ol_pk l" "oi_quantity j = ol_quantity l"
      unfolding infos by auto
    then show "\<exists>l. row_of ol_pk (oi_line j) (sd_order_lines (sh_stock s1)) = Some l \<and> oi_quantity j = ol_quantity l
        \<and> 0 \<le> fulfilled_of (sh_stock s1) (oi_line j)"
      using row [OF l(1)] nonneg [OF l(1)] by (simp add: same fulfilled_of_def)
  qed
  have "l\<lparr>ol_quantity_fulfilled := m (ol_pk l)\<rparr> = (if ol_order l = k then l\<lparr>ol_quantity_fulfilled := ol_quantity l\<rparr> else l)"
    if l: "l \<in> set (sd_order_lines (sh_stock s))" for l
  proof -
    have "ol_pk l \<in> ol_pk ` {l \<in> set (sd_order_lines (sh_stock s)). ol_order l = k} \<longleftrightarrow> ol_order l = k"
    proof
      assume "ol_pk l \<in> ol_pk ` {l \<in> set (sd_order_lines (sh_stock s)). ol_order l = k}"
      then obtain l' where l': "l' \<in> set (sd_order_lines (sh_stock s))" "ol_order l' = k" "ol_pk l = ol_pk l'"
        by (elim imageE CollectE conjE) (rule that)
      have "Some l = Some l'" using row [OF l] row [OF l'(1)] unfolding l'(3) by (rule trans [OF sym])
      then show "ol_order l = k" using l'(2) by blast
    qed (use l in simp)
    then have "ol_pk l \<in> oi_line ` set (all_order_lines k s0) \<longleftrightarrow> ol_order l = k" unfolding keys .
    then show ?thesis using row [OF l] by (simp add: m same fulfilled_of_def)
  qed
  then show "sd_order_lines (sh_stock t) = map (\<lambda>l. if ol_order l = k then l\<lparr>ol_quantity_fulfilled := ol_quantity l\<rparr> else l)
      (sd_order_lines (sh_stock s))"
    by (simp add: t save_order_status_def ols same set_fulfilled_def)
  show "oh_status h = OrderStatus_CANCELED" if "h \<in> set (sd_orders (sh_stock t))" "oh_pk h = k" for h
  proof -
    have "h \<in> set (save_row oh_pk k (\<lambda>h. h\<lparr>oh_status := OrderStatus_CANCELED\<rparr>) (sd_orders (sh_stock u)))"
      using that(1) by (simp add: t save_order_status_def)
    from saved_row [OF this that(2)] obtain h' where "h = h'\<lparr>oh_status := OrderStatus_CANCELED\<rparr>" by auto
    from arg_cong [OF this, of oh_status] show ?thesis by simp
  qed
  show "order_status ord = OrderStatus_CANCELED" if "ord \<in> set (pd_orders (sh_pay t))" "order_pk ord = k" for ord
  proof -
    have "ord \<in> set (save_row order_pk k (\<lambda>ord. ord\<lparr>order_status := OrderStatus_CANCELED\<rparr>) (pd_orders (sh_pay u)))"
      using that(1) by (simp add: t save_order_status_def save_order_def)
    from saved_row [OF this that(2)] obtain ord' where "ord = ord'\<lparr>order_status := OrderStatus_CANCELED\<rparr>" by auto
    from arg_cong [OF this, of order_status] show ?thesis by simp
  qed
  have "\<not> live s1 f" using C(4) by simp
  moreover have "fl_fulfillment l = f" if "l \<in> set (fulfillment_line_rows (sh_line_sequence s1) news)" for l
    using row_of_new_line [OF that] move_order_lines_loop_laws(3) [OF loop] by metis
  ultimately have "filter (\<lambda>l. live s1 (fl_fulfillment l)) (fulfillment_line_rows (sh_line_sequence s1) news) = []" by (auto simp: filter_empty_conv)
  moreover have "live t = live s1" by (auto simp: fun_eq_iff live_def t save_order_status_def ffs)
  ultimately have "live_lines t = filter (\<lambda>l. live s1 (fl_fulfillment l)) (sh_fulfillment_lines s0)"
    by (simp add: live_lines_def t save_order_status_def lines C(7))
  moreover have "live s1 (fl_fulfillment l) = live s0 (fl_fulfillment l)" if "l \<in> set (sh_fulfillment_lines s0)" for l
  proof -
    from C(5) obtain r where r: "sh_fulfillments s1 = sh_fulfillments s0 @ [r]" "ff_pk r = f" by blast
    have "fl_fulfillment l \<noteq> f"
    proof -
      have "fl_fulfillment l \<in> ff_pk ` set (sh_fulfillments s0)" using ok0 that by (simp add: shop_ok_def shop_wf_def)
      with next_fulfillment_pk_new [of s0] C(3) show ?thesis by metis
    qed
    then show ?thesis by (auto simp: live_def r)
  qed
  ultimately have "live_lines t = live_lines s0" by (simp add: live_lines_def cong: filter_cong)
  then show "live_lines t = live_lines s" using view0 by (simp add: live_lines_def live_def view_eq)
qed

text \<open>The fulfilment that cancelling creates, and its lines: what was left of each line.\<close>

lemma cancelling_fulfillment:
  assumes laws: "django_laws dj" and ok: "shop_ok s" and run: "cancel_order dj k s = (Inr (), t)"
  shows "\<exists>r news. sh_fulfillments t = sh_fulfillments s @ [r] \<and> ff_order r = k \<and> ff_status r = FulfillmentStatus_CANCELED
    \<and> sh_fulfillment_lines t = sh_fulfillment_lines s @ news
    \<and> map (\<lambda>l. (fl_order_line l, fl_fulfillment l, fl_quantity l)) news
      = map (\<lambda>l. (ol_pk l, ff_pk r, ol_quantity l - ol_quantity_fulfilled l)) (order_lines_of k (sh_stock s))"
proof -
  define s0 where "s0 = (log_event k OrderEvents_CANCELED s)\<lparr>sh_stock := remove_reservations_for_order k (sh_stock (log_event k OrderEvents_CANCELED s))\<rparr>"
  have view0: "view s0 = view s" by (simp add: s0_def)
  have ok0: "shop_ok s0" using ok shop_ok_view [OF view0] by simp
  from run obtain f u where cancelled: "create_cancel_fulfillment dj k s0 = Inr (f, u)"
    and t: "t = save_order_status k OrderStatus_CANCELED u"
    unfolding cancel_order_def Let_def s0_def [symmetric] by (auto simp: atomic_def bindr_eq_Inr split: sum.splits prod.splits)
  obtain s1 created where create: "create_fulfillment k FulfillmentStatus_CANCELED [] None None s0 = (f, s1)"
    and move: "move_order_lines_to_target_fulfillment dj (all_order_lines k s0) f s1 = Inr (created, u)"
    using cancelled by (auto simp: create_cancel_fulfillment_def Let_def bindr_eq_Inr split: prod.splits)
  note C = create_fulfillment_ok [OF create ok0]
  from move_order_lines_changes [OF laws C(1) move] obtain news m where
    loop: "move_order_lines_loop (sh_stock s1) f (all_order_lines k s0) (fulfilled_of (sh_stock s1)) = Inr (news, m)"
    and lines: "sh_fulfillment_lines u = sh_fulfillment_lines s1 @ fulfillment_line_rows (sh_line_sequence s1) news"
    and ffs: "sh_fulfillments u = sh_fulfillments s1" .
  from C(5) obtain r where r: "sh_fulfillments s1 = sh_fulfillments s0 @ [r]" "ff_pk r = f"
    "ff_status r = FulfillmentStatus_CANCELED" "ff_order r = k" by blast
  have same: "sd_order_lines (sh_stock s1) = sd_order_lines (sh_stock s)" using view0 C(6) by (simp add: view_eq)
  have dist: "distinct (map ol_pk (sd_order_lines (sh_stock s)))" using ok by (simp add: shop_ok_def shop_wf_def)
  have infos: "all_order_lines k s0 = map (\<lambda>l. \<lparr>oi_line = ol_pk l, oi_quantity = ol_quantity l, oi_replace = False\<rparr>)
      (order_lines_of k (sh_stock s))"
    using view0 by (simp add: all_order_lines_def order_lines_of_def view_eq)
  have row: "row_of ol_pk (ol_pk l) (sd_order_lines (sh_stock s1)) = Some l" "0 \<le> ol_quantity_fulfilled l"
    if "l \<in> set (order_lines_of k (sh_stock s))" for l
  proof -
    have l: "l \<in> set (sd_order_lines (sh_stock s))" using that by (simp add: order_lines_of_def)
    show "row_of ol_pk (ol_pk l) (sd_order_lines (sh_stock s1)) = Some l" using dist l by (simp add: same row_of_eq_Some)
    have "0 \<le> pieces (live_lines s) (ol_pk l)"
      by (rule pieces_nonneg) (use ok in \<open>auto simp: shop_ok_def shop_wf_def live_lines_def\<close>)
    then show "0 \<le> ol_quantity_fulfilled l" using ok l by (force simp: shop_ok_def accounted_def)
  qed
  have "news = map (\<lambda>i. (oi_line i, f, oi_quantity i - fulfilled_of (sh_stock s1) (oi_line i), None)) (all_order_lines k s0)"
  proof (rule moved_rest [OF loop])
    show "distinct (map oi_line (all_order_lines k s0))"
      using dist by (simp add: infos comp_def order_lines_of_def distinct_map_filter)
    fix j assume "j \<in> set (all_order_lines k s0)"
    then obtain l where "l \<in> set (order_lines_of k (sh_stock s))" "oi_line j = ol_pk l" "oi_quantity j = ol_quantity l"
      unfolding infos by auto
    with row [of l] show "\<exists>l. row_of ol_pk (oi_line j) (sd_order_lines (sh_stock s1)) = Some l \<and> oi_quantity j = ol_quantity l
        \<and> 0 \<le> fulfilled_of (sh_stock s1) (oi_line j)"
      by (simp add: fulfilled_of_def)
  qed
  then have "map (\<lambda>l. (fl_order_line l, fl_fulfillment l, fl_quantity l)) (fulfillment_line_rows (sh_line_sequence s1) news)
      = map (\<lambda>l. (ol_pk l, f, ol_quantity l - ol_quantity_fulfilled l)) (order_lines_of k (sh_stock s))"
    using row by (simp add: fulfillment_line_row_fields infos comp_def fulfilled_of_def)
  moreover have "sh_fulfillments t = sh_fulfillments s @ [r]" "sh_fulfillment_lines t = sh_fulfillment_lines s
      @ fulfillment_line_rows (sh_line_sequence s1) news"
    using view0 by (simp_all add: t save_order_status_def ffs r(1) lines C(7) view_eq)
  ultimately show ?thesis using r(2-4) by blast
qed

text \<open>
  C26: cancelling an order is possible only while nothing of it is to be delivered; it creates
  one cancelled fulfilment of that order with a line for every line of the order and what was
  left of it, so that every line of that order, and of no other, counts as fulfilled in full;
  nothing more is delivered, and the order is cancelled (in a state that the fulfilment
  operations keep)
\<close>

theorem cancelled_order_complete:
  assumes laws: "django_laws dj" and start: "shop_wf s" "accounted s" and run: "order_cancel dj user k s = (Inr (), t)"
  shows "can_cancel k s
    \<and> sd_order_lines (sh_stock t) = map (\<lambda>l. if ol_order l = k then l\<lparr>ol_quantity_fulfilled := ol_quantity l\<rparr> else l)
      (sd_order_lines (sh_stock s))
    \<and> (\<exists>r news. sh_fulfillments t = sh_fulfillments s @ [r] \<and> ff_order r = k \<and> ff_status r = FulfillmentStatus_CANCELED
      \<and> sh_fulfillment_lines t = sh_fulfillment_lines s @ news
      \<and> map (\<lambda>l. (fl_order_line l, fl_fulfillment l, fl_quantity l)) news
        = map (\<lambda>l. (ol_pk l, ff_pk r, ol_quantity l - ol_quantity_fulfilled l)) (order_lines_of k (sh_stock s)))
    \<and> list_all (\<lambda>h. oh_status h = OrderStatus_CANCELED) (filter (\<lambda>h. oh_pk h = k) (sd_orders (sh_stock t)))
    \<and> list_all (\<lambda>ord. order_status ord = OrderStatus_CANCELED) (filter (\<lambda>ord. order_pk ord = k) (pd_orders (sh_pay t)))
    \<and> live_lines t = live_lines s"
proof -
  have cancel: "cancel_order dj k s = (Inr (), t)" and can: "can_cancel k s"
    using run by (auto simp: order_cancel_def clean_order_cancel_def bindr_def split: sum.splits if_splits)
  have ok: "shop_ok s" using start by (simp add: shop_ok_def)
  from cancelled_lines [OF laws ok cancel] cancelling_fulfillment [OF laws ok cancel] can
  show ?thesis by (simp add: list_all_iff)
qed

definition staff :: user where
  "staff = (sample_user 1 ''staff'' 0)\<lparr>user_is_staff := True\<rparr>"

lemma cancelled_order_complete_witness:
  "\<exists>t. order_cancel django_example staff 7 shop_example = (Inr (), t)
     \<and> map ol_quantity_fulfilled (sd_order_lines (sh_stock t)) = [2, 2] \<and> live_lines t = []
     \<and> map ff_status (sh_fulfillments t) = [FulfillmentStatus_CANCELED]"
proof -
  have "fst (order_cancel django_example staff 7 shop_example) = Inr ()" by code_simp
  then obtain t where run: "order_cancel django_example staff 7 shop_example = (Inr (), t)" by (metis prod.collapse)
  have "live_lines shop_example = []" by (simp add: live_lines_def shop_example_def)
  with cancelled_order_complete [OF django_example_laws shop_example_ok run] run show ?thesis
    by (auto simp: shop_example_def stock_example_def)
qed

subsection \<open>The status of an order\<close>

lemma sums_equal:
  assumes "\<And>l. l \<in> set ls \<Longrightarrow> f l \<le> (g l :: int)"
  shows "sum_rows f ls \<le> sum_rows g ls" "sum_rows f ls = sum_rows g ls \<longleftrightarrow> list_all (\<lambda>l. f l = g l) ls"
proof -
  have "sum_rows f ls \<le> sum_rows g ls \<and> (sum_rows f ls = sum_rows g ls \<longleftrightarrow> list_all (\<lambda>l. f l = g l) ls)"
    using assms by (induction ls) (fastforce simp: sum_rows_def)+
  then show "sum_rows f ls \<le> sum_rows g ls" "sum_rows f ls = sum_rows g ls \<longleftrightarrow> list_all (\<lambda>l. f l = g l) ls" by blast+
qed

lemma updated_status:
  assumes "row_of oh_pk k (sd_orders (sh_stock s)) = Some head"
    "calculate_quantity_including_returns k s = (total_quantity, quantity_fulfilled, quantity_returned)"
  shows "map_option oh_status (row_of oh_pk k (sd_orders (sh_stock (update_order_status k s)))) =
    Some (new_order_status (in_shared_channel (oh_channel_slug head)) (oh_status head) total_quantity quantity_fulfilled
      quantity_returned (\<exists>f \<in> set (fulfillments_of k s). ff_status f = FulfillmentStatus_WAITING_FOR_APPROVAL))"
  using assms by (auto simp: update_order_status_def Let_def save_order_status_def row_of_save_row)

text \<open>
  C27: when pieces of an order are left beside the replaced ones, outside shared channels and in
  a state that the fulfilment operations keep (rows well formed, pieces accounted), updating its
  status makes the order fulfilled exactly if every line counts as fulfilled in full, the pieces
  left are a positive number, nothing was returned (or more pieces than are left), and no
  fulfilment waits for approval
\<close>

theorem order_fulfilled_iff:
  assumes start: "shop_wf s" "accounted s" and head: "row_of oh_pk k (sd_orders (sh_stock s)) = Some head"
    and single: "\<not> in_shared_channel (oh_channel_slug head)"
    and counts: "calculate_quantity_including_returns k s = (total_quantity, quantity_fulfilled, quantity_returned)"
    and some: "total_quantity \<noteq> 0"
  shows "map_option oh_status (row_of oh_pk k (sd_orders (sh_stock (update_order_status k s)))) = Some OrderStatus_FULFILLED
    \<longleftrightarrow> list_all (\<lambda>l. ol_quantity_fulfilled l = ol_quantity l) (order_lines_of k (sh_stock s)) \<and> 0 < total_quantity
      \<and> (quantity_returned = 0 \<or> total_quantity < quantity_returned)
      \<and> list_all (\<lambda>f. ff_status f \<noteq> FulfillmentStatus_WAITING_FOR_APPROVAL) (fulfillments_of k s)"
proof -
  have each: "ol_quantity_fulfilled l \<le> ol_quantity l" if "l \<in> set (order_lines_of k (sh_stock s))" for l
    using start(2) that by (simp add: accounted_def order_lines_of_def)
  have "quantity_fulfilled \<le> total_quantity"
    "quantity_fulfilled = total_quantity \<longleftrightarrow> list_all (\<lambda>l. ol_quantity_fulfilled l = ol_quantity l) (order_lines_of k (sh_stock s))"
    using counts sums_equal [of "order_lines_of k (sh_stock s)" ol_quantity_fulfilled ol_quantity, OF each] by (auto simp: calculate_quantity_including_returns_def Let_def)
  moreover have "0 \<le> get_total_quantity s f" for f
    using start(1) unfolding get_total_quantity_def sum_rows_def
    by (intro sum_list_nonneg) (auto simp: shop_wf_def lines_in_def)
  then have "0 \<le> sum_rows (get_total_quantity s) fs" for fs unfolding sum_rows_def by (intro sum_list_nonneg) auto
  then have "0 \<le> quantity_returned" using counts by (auto simp: calculate_quantity_including_returns_def Let_def)
  ultimately show ?thesis
    using some single by (auto simp: updated_status [OF head counts] new_order_status_def list_all_iff)
qed

lemma order_fulfilled_iff_witness:
  "map oh_status (sd_orders (sh_stock (update_order_status 7 partly_fulfilled))) \<noteq> [OrderStatus_FULFILLED]"
proof -
  have ok: "shop_wf partly_fulfilled" "accounted partly_fulfilled"
    using shop_steps_ok [OF partly_fulfilled_step django_example_laws] shop_example_ok by (simp_all add: shop_ok_def)
  obtain head where head: "row_of oh_pk 7 (sd_orders (sh_stock partly_fulfilled)) = Some head" "oh_channel_slug head = ''main''"
  proof -
    have "map_option oh_channel_slug (row_of oh_pk 7 (sd_orders (sh_stock partly_fulfilled))) = Some ''main''" by code_simp
    then show thesis using that by (auto simp: map_option_case split: option.splits)
  qed
  have counts: "calculate_quantity_including_returns 7 partly_fulfilled = (4, 3, 0)" by code_simp
  have single: "\<not> in_shared_channel (oh_channel_slug head)" unfolding head(2) by code_simp
  have "\<not> list_all (\<lambda>l. ol_quantity_fulfilled l = ol_quantity l) (order_lines_of 7 (sh_stock partly_fulfilled))" by code_simp
  with order_fulfilled_iff [OF ok head(1) single counts]
  have "map_option oh_status (row_of oh_pk 7 (sd_orders (sh_stock (update_order_status 7 partly_fulfilled)))) \<noteq> Some OrderStatus_FULFILLED"
    by simp
  moreover have "map oh_pk (sd_orders (sh_stock (update_order_status 7 partly_fulfilled))) = [7]" by code_simp
  ultimately show ?thesis by (auto simp: map_eq_Cons_conv)
qed

subsection \<open>Paid orders\<close>

text \<open>
  Once the amounts of an order have been refreshed, a shop that does not allow unpaid
  fulfilment and approves automatically can never fulfil it, however much was paid: the
  refreshed statuses are those of orders, the check looks for the status of a payment.
\<close>

theorem refreshed_order_not_fulfillable:
  assumes laws: "sh_pay s = update_order_charge_data prec k pay" and lines: "order_fulfill dj now True False k lines exceed tracking s = (r, t)"
  shows "(\<exists>e. r = Inl e) \<and> t = s"
proof -
  have "\<not> is_fully_paid (charge_data prec pay k ord)" for ord
    by (auto simp: is_fully_paid_def charge_data_def update_order_charge_status_def Let_def)
  then have "\<not> is_fully_paid ord" if "row_of order_pk k (pd_orders (sh_pay s)) = Some ord" for ord
    using that by (auto simp: laws update_order_charge_data_def save_order_def row_of_save_row)
  then show ?thesis using lines by (auto simp: order_fulfill_def clean_fulfill_input_def split: option.splits)
qed

lemma refreshed_order_not_fulfillable_witness:
  "fst (order_fulfill django_example (2024, 3, 1, 0) True False 7 fulfil_example False []
     (shop_example\<lparr>sh_pay := update_order_charge_data (\<lambda>_. 2) 7 pay_example\<rparr>)) \<noteq> Inr [1]"
proof -
  let ?s = "shop_example\<lparr>sh_pay := update_order_charge_data (\<lambda>_. 2) 7 pay_example\<rparr>"
  obtain r t where run: "order_fulfill django_example (2024, 3, 1, 0) True False 7 fulfil_example False [] ?s = (r, t)" by fastforce
  have "sh_pay ?s = update_order_charge_data (\<lambda>_. 2) 7 pay_example" by simp
  from refreshed_order_not_fulfillable [OF this run] show ?thesis by (auto simp: run)
qed

end
