(* ===== verification/DiscountChoices.thy ===== *)
theory DiscountChoices
  imports Prelude
begin

section \<open>The choice classes of discounts, gift cards, checkouts, shipping and taxes\<close>

text \<open>
  The classes of string constants the code uses as enumerations, one datatype each: the
  constructor \<open>Class_MEMBER\<close> is the class attribute \<open>Class.MEMBER\<close>, \<open>class_str\<close> its string as
  stored in the database, \<open>class_members\<close> the attributes in the order of the class body and
  \<open>class_choices\<close> the members its \<open>CHOICES\<close> lists, in that order (the labels shown to users are
  not modelled). Each interprets \<open>choice_class\<close>: the stored string determines the member.
\<close>

subsection \<open>\<open>DiscountValueType\<close> (\<^verbatim>\<open>saleor/discount/__init__.py\<close>)\<close>

datatype discount_value_type =
    DiscountValueType_FIXED | DiscountValueType_PERCENTAGE

fun discount_value_type_str :: "discount_value_type \<Rightarrow> string" where
  "discount_value_type_str DiscountValueType_FIXED = ''fixed''"
| "discount_value_type_str DiscountValueType_PERCENTAGE = ''percentage''"

definition discount_value_type_members :: "discount_value_type list" where
  "discount_value_type_members = [
     DiscountValueType_FIXED, DiscountValueType_PERCENTAGE]"

definition discount_value_type_choices :: "discount_value_type list" where
  "discount_value_type_choices = [
     DiscountValueType_FIXED, DiscountValueType_PERCENTAGE]"

interpretation discount_value_type: choice_class discount_value_type_members discount_value_type_str
proof
  show "distinct (map discount_value_type_str discount_value_type_members)"
    by (simp add: discount_value_type_members_def)
  show "c \<in> set discount_value_type_members" for c
    by (cases c) (simp_all add: discount_value_type_members_def)
qed

lemma discount_value_type_choices_complete:
  "set discount_value_type_choices = UNIV - {}"
  using discount_value_type.all_members by (auto simp: discount_value_type_choices_def discount_value_type_members_def)

subsection \<open>\<open>DiscountType\<close> (\<^verbatim>\<open>saleor/discount/__init__.py\<close>)\<close>

datatype discount_type =
    DiscountType_SALE | DiscountType_PROMOTION | DiscountType_VOUCHER | DiscountType_MANUAL

fun discount_type_str :: "discount_type \<Rightarrow> string" where
  "discount_type_str DiscountType_SALE = ''sale''"
| "discount_type_str DiscountType_PROMOTION = ''promotion''"
| "discount_type_str DiscountType_VOUCHER = ''voucher''"
| "discount_type_str DiscountType_MANUAL = ''manual''"

definition discount_type_members :: "discount_type list" where
  "discount_type_members = [
     DiscountType_SALE, DiscountType_PROMOTION, DiscountType_VOUCHER, DiscountType_MANUAL]"

definition discount_type_choices :: "discount_type list" where
  "discount_type_choices = [
     DiscountType_SALE, DiscountType_VOUCHER, DiscountType_MANUAL, DiscountType_PROMOTION]"

interpretation discount_type: choice_class discount_type_members discount_type_str
proof
  show "distinct (map discount_type_str discount_type_members)"
    by (simp add: discount_type_members_def)
  show "c \<in> set discount_type_members" for c
    by (cases c) (simp_all add: discount_type_members_def)
qed

lemma discount_type_choices_complete:
  "set discount_type_choices = UNIV - {}"
  using discount_type.all_members by (auto simp: discount_type_choices_def discount_type_members_def)

subsection \<open>\<open>VoucherType\<close> (\<^verbatim>\<open>saleor/discount/__init__.py\<close>)\<close>

datatype voucher_type =
    VoucherType_SHIPPING | VoucherType_ENTIRE_ORDER | VoucherType_SPECIFIC_PRODUCT

fun voucher_type_str :: "voucher_type \<Rightarrow> string" where
  "voucher_type_str VoucherType_SHIPPING = ''shipping''"
| "voucher_type_str VoucherType_ENTIRE_ORDER = ''entire_order''"
| "voucher_type_str VoucherType_SPECIFIC_PRODUCT = ''specific_product''"

definition voucher_type_members :: "voucher_type list" where
  "voucher_type_members = [
     VoucherType_SHIPPING, VoucherType_ENTIRE_ORDER, VoucherType_SPECIFIC_PRODUCT]"

definition voucher_type_choices :: "voucher_type list" where
  "voucher_type_choices = [
     VoucherType_ENTIRE_ORDER, VoucherType_SHIPPING, VoucherType_SPECIFIC_PRODUCT]"

interpretation voucher_type: choice_class voucher_type_members voucher_type_str
proof
  show "distinct (map voucher_type_str voucher_type_members)"
    by (simp add: voucher_type_members_def)
  show "c \<in> set voucher_type_members" for c
    by (cases c) (simp_all add: voucher_type_members_def)
qed

lemma voucher_type_choices_complete:
  "set voucher_type_choices = UNIV - {}"
  using voucher_type.all_members by (auto simp: voucher_type_choices_def voucher_type_members_def)

subsection \<open>\<open>RewardValueType\<close> (\<^verbatim>\<open>saleor/discount/__init__.py\<close>)\<close>

datatype reward_value_type =
    RewardValueType_FIXED | RewardValueType_PERCENTAGE

fun reward_value_type_str :: "reward_value_type \<Rightarrow> string" where
  "reward_value_type_str RewardValueType_FIXED = ''fixed''"
| "reward_value_type_str RewardValueType_PERCENTAGE = ''percentage''"

definition reward_value_type_members :: "reward_value_type list" where
  "reward_value_type_members = [
     RewardValueType_FIXED, RewardValueType_PERCENTAGE]"

definition reward_value_type_choices :: "reward_value_type list" where
  "reward_value_type_choices = [
     RewardValueType_FIXED, RewardValueType_PERCENTAGE]"

interpretation reward_value_type: choice_class reward_value_type_members reward_value_type_str
proof
  show "distinct (map reward_value_type_str reward_value_type_members)"
    by (simp add: reward_value_type_members_def)
  show "c \<in> set reward_value_type_members" for c
    by (cases c) (simp_all add: reward_value_type_members_def)
qed

lemma reward_value_type_choices_complete:
  "set reward_value_type_choices = UNIV - {}"
  using reward_value_type.all_members by (auto simp: reward_value_type_choices_def reward_value_type_members_def)

subsection \<open>\<open>PromotionEvents\<close> (\<^verbatim>\<open>saleor/discount/__init__.py\<close>)\<close>

datatype promotion_events =
    PromotionEvents_PROMOTION_CREATED | PromotionEvents_PROMOTION_UPDATED |
    PromotionEvents_PROMOTION_STARTED | PromotionEvents_PROMOTION_ENDED |
    PromotionEvents_RULE_CREATED | PromotionEvents_RULE_UPDATED | PromotionEvents_RULE_DELETED

fun promotion_events_str :: "promotion_events \<Rightarrow> string" where
  "promotion_events_str PromotionEvents_PROMOTION_CREATED = ''promotion_created''"
| "promotion_events_str PromotionEvents_PROMOTION_UPDATED = ''promotion_updated''"
| "promotion_events_str PromotionEvents_PROMOTION_STARTED = ''promotion_started''"
| "promotion_events_str PromotionEvents_PROMOTION_ENDED = ''promotion_ended''"
| "promotion_events_str PromotionEvents_RULE_CREATED = ''rule_created''"
| "promotion_events_str PromotionEvents_RULE_UPDATED = ''rule_updated''"
| "promotion_events_str PromotionEvents_RULE_DELETED = ''rule_deleted''"

definition promotion_events_members :: "promotion_events list" where
  "promotion_events_members = [
     PromotionEvents_PROMOTION_CREATED, PromotionEvents_PROMOTION_UPDATED,
     PromotionEvents_PROMOTION_STARTED, PromotionEvents_PROMOTION_ENDED,
     PromotionEvents_RULE_CREATED, PromotionEvents_RULE_UPDATED, PromotionEvents_RULE_DELETED]"

definition promotion_events_choices :: "promotion_events list" where
  "promotion_events_choices = [
     PromotionEvents_PROMOTION_CREATED, PromotionEvents_PROMOTION_UPDATED,
     PromotionEvents_PROMOTION_STARTED, PromotionEvents_PROMOTION_ENDED,
     PromotionEvents_RULE_CREATED, PromotionEvents_RULE_UPDATED, PromotionEvents_RULE_DELETED]"

interpretation promotion_events: choice_class promotion_events_members promotion_events_str
proof
  show "distinct (map promotion_events_str promotion_events_members)"
    by (simp add: promotion_events_members_def)
  show "c \<in> set promotion_events_members" for c
    by (cases c) (simp_all add: promotion_events_members_def)
qed

lemma promotion_events_choices_complete:
  "set promotion_events_choices = UNIV - {}"
  using promotion_events.all_members by (auto simp: promotion_events_choices_def promotion_events_members_def)

subsection \<open>\<open>GiftCardEvents\<close> (\<^verbatim>\<open>saleor/giftcard/__init__.py\<close>)\<close>

datatype gift_card_events =
    GiftCardEvents_ISSUED | GiftCardEvents_BOUGHT | GiftCardEvents_UPDATED |
    GiftCardEvents_ACTIVATED | GiftCardEvents_DEACTIVATED | GiftCardEvents_BALANCE_RESET |
    GiftCardEvents_EXPIRY_DATE_UPDATED | GiftCardEvents_TAGS_UPDATED |
    GiftCardEvents_SENT_TO_CUSTOMER | GiftCardEvents_RESENT | GiftCardEvents_NOTE_ADDED |
    GiftCardEvents_USED_IN_ORDER

fun gift_card_events_str :: "gift_card_events \<Rightarrow> string" where
  "gift_card_events_str GiftCardEvents_ISSUED = ''issued''"
| "gift_card_events_str GiftCardEvents_BOUGHT = ''bought''"
| "gift_card_events_str GiftCardEvents_UPDATED = ''updated''"
| "gift_card_events_str GiftCardEvents_ACTIVATED = ''activated''"
| "gift_card_events_str GiftCardEvents_DEACTIVATED = ''deactivated''"
| "gift_card_events_str GiftCardEvents_BALANCE_RESET = ''balance_reset''"
| "gift_card_events_str GiftCardEvents_EXPIRY_DATE_UPDATED = ''expiry_date_updated''"
| "gift_card_events_str GiftCardEvents_TAGS_UPDATED = ''tags_updated''"
| "gift_card_events_str GiftCardEvents_SENT_TO_CUSTOMER = ''sent_to_customer''"
| "gift_card_events_str GiftCardEvents_RESENT = ''resent''"
| "gift_card_events_str GiftCardEvents_NOTE_ADDED = ''note_added''"
| "gift_card_events_str GiftCardEvents_USED_IN_ORDER = ''used_in_order''"

definition gift_card_events_members :: "gift_card_events list" where
  "gift_card_events_members = [
     GiftCardEvents_ISSUED, GiftCardEvents_BOUGHT, GiftCardEvents_UPDATED,
     GiftCardEvents_ACTIVATED, GiftCardEvents_DEACTIVATED, GiftCardEvents_BALANCE_RESET,
     GiftCardEvents_EXPIRY_DATE_UPDATED, GiftCardEvents_TAGS_UPDATED,
     GiftCardEvents_SENT_TO_CUSTOMER, GiftCardEvents_RESENT, GiftCardEvents_NOTE_ADDED,
     GiftCardEvents_USED_IN_ORDER]"

definition gift_card_events_choices :: "gift_card_events list" where
  "gift_card_events_choices = [
     GiftCardEvents_ISSUED, GiftCardEvents_BOUGHT, GiftCardEvents_UPDATED,
     GiftCardEvents_ACTIVATED, GiftCardEvents_DEACTIVATED, GiftCardEvents_BALANCE_RESET,
     GiftCardEvents_EXPIRY_DATE_UPDATED, GiftCardEvents_TAGS_UPDATED,
     GiftCardEvents_SENT_TO_CUSTOMER, GiftCardEvents_RESENT, GiftCardEvents_NOTE_ADDED,
     GiftCardEvents_USED_IN_ORDER]"

interpretation gift_card_events: choice_class gift_card_events_members gift_card_events_str
proof
  show "distinct (map gift_card_events_str gift_card_events_members)"
    by (simp add: gift_card_events_members_def)
  show "c \<in> set gift_card_events_members" for c
    by (cases c) (simp_all add: gift_card_events_members_def)
qed

lemma gift_card_events_choices_complete:
  "set gift_card_events_choices = UNIV - {}"
  using gift_card_events.all_members by (auto simp: gift_card_events_choices_def gift_card_events_members_def)

subsection \<open>\<open>CheckoutChargeStatus\<close> (\<^verbatim>\<open>saleor/checkout/__init__.py\<close>)\<close>

datatype checkout_charge_status =
    CheckoutChargeStatus_NONE | CheckoutChargeStatus_PARTIAL | CheckoutChargeStatus_FULL |
    CheckoutChargeStatus_OVERCHARGED

fun checkout_charge_status_str :: "checkout_charge_status \<Rightarrow> string" where
  "checkout_charge_status_str CheckoutChargeStatus_NONE = ''none''"
| "checkout_charge_status_str CheckoutChargeStatus_PARTIAL = ''partial''"
| "checkout_charge_status_str CheckoutChargeStatus_FULL = ''full''"
| "checkout_charge_status_str CheckoutChargeStatus_OVERCHARGED = ''overcharged''"

definition checkout_charge_status_members :: "checkout_charge_status list" where
  "checkout_charge_status_members = [
     CheckoutChargeStatus_NONE, CheckoutChargeStatus_PARTIAL, CheckoutChargeStatus_FULL,
     CheckoutChargeStatus_OVERCHARGED]"

definition checkout_charge_status_choices :: "checkout_charge_status list" where
  "checkout_charge_status_choices = [
     CheckoutChargeStatus_NONE, CheckoutChargeStatus_PARTIAL, CheckoutChargeStatus_FULL,
     CheckoutChargeStatus_OVERCHARGED]"

interpretation checkout_charge_status: choice_class checkout_charge_status_members checkout_charge_status_str
proof
  show "distinct (map checkout_charge_status_str checkout_charge_status_members)"
    by (simp add: checkout_charge_status_members_def)
  show "c \<in> set checkout_charge_status_members" for c
    by (cases c) (simp_all add: checkout_charge_status_members_def)
qed

lemma checkout_charge_status_choices_complete:
  "set checkout_charge_status_choices = UNIV - {}"
  using checkout_charge_status.all_members by (auto simp: checkout_charge_status_choices_def checkout_charge_status_members_def)

subsection \<open>\<open>CheckoutAuthorizeStatus\<close> (\<^verbatim>\<open>saleor/checkout/__init__.py\<close>)\<close>

datatype checkout_authorize_status =
    CheckoutAuthorizeStatus_NONE | CheckoutAuthorizeStatus_PARTIAL |
    CheckoutAuthorizeStatus_FULL

fun checkout_authorize_status_str :: "checkout_authorize_status \<Rightarrow> string" where
  "checkout_authorize_status_str CheckoutAuthorizeStatus_NONE = ''none''"
| "checkout_authorize_status_str CheckoutAuthorizeStatus_PARTIAL = ''partial''"
| "checkout_authorize_status_str CheckoutAuthorizeStatus_FULL = ''full''"

definition checkout_authorize_status_members :: "checkout_authorize_status list" where
  "checkout_authorize_status_members = [
     CheckoutAuthorizeStatus_NONE, CheckoutAuthorizeStatus_PARTIAL,
     CheckoutAuthorizeStatus_FULL]"

definition checkout_authorize_status_choices :: "checkout_authorize_status list" where
  "checkout_authorize_status_choices = [
     CheckoutAuthorizeStatus_NONE, CheckoutAuthorizeStatus_PARTIAL,
     CheckoutAuthorizeStatus_FULL]"

interpretation checkout_authorize_status: choice_class checkout_authorize_status_members checkout_authorize_status_str
proof
  show "distinct (map checkout_authorize_status_str checkout_authorize_status_members)"
    by (simp add: checkout_authorize_status_members_def)
  show "c \<in> set checkout_authorize_status_members" for c
    by (cases c) (simp_all add: checkout_authorize_status_members_def)
qed

lemma checkout_authorize_status_choices_complete:
  "set checkout_authorize_status_choices = UNIV - {}"
  using checkout_authorize_status.all_members by (auto simp: checkout_authorize_status_choices_def checkout_authorize_status_members_def)

subsection \<open>\<open>ShippingMethodType\<close> (\<^verbatim>\<open>saleor/shipping/__init__.py\<close>)\<close>

datatype shipping_method_type =
    ShippingMethodType_PRICE_BASED | ShippingMethodType_WEIGHT_BASED

fun shipping_method_type_str :: "shipping_method_type \<Rightarrow> string" where
  "shipping_method_type_str ShippingMethodType_PRICE_BASED = ''price''"
| "shipping_method_type_str ShippingMethodType_WEIGHT_BASED = ''weight''"

definition shipping_method_type_members :: "shipping_method_type list" where
  "shipping_method_type_members = [
     ShippingMethodType_PRICE_BASED, ShippingMethodType_WEIGHT_BASED]"

definition shipping_method_type_choices :: "shipping_method_type list" where
  "shipping_method_type_choices = [
     ShippingMethodType_PRICE_BASED, ShippingMethodType_WEIGHT_BASED]"

interpretation shipping_method_type: choice_class shipping_method_type_members shipping_method_type_str
proof
  show "distinct (map shipping_method_type_str shipping_method_type_members)"
    by (simp add: shipping_method_type_members_def)
  show "c \<in> set shipping_method_type_members" for c
    by (cases c) (simp_all add: shipping_method_type_members_def)
qed

lemma shipping_method_type_choices_complete:
  "set shipping_method_type_choices = UNIV - {}"
  using shipping_method_type.all_members by (auto simp: shipping_method_type_choices_def shipping_method_type_members_def)

subsection \<open>\<open>PostalCodeRuleInclusionType\<close> (\<^verbatim>\<open>saleor/shipping/__init__.py\<close>)\<close>

datatype postal_code_rule_inclusion_type =
    PostalCodeRuleInclusionType_INCLUDE | PostalCodeRuleInclusionType_EXCLUDE

fun postal_code_rule_inclusion_type_str :: "postal_code_rule_inclusion_type \<Rightarrow> string" where
  "postal_code_rule_inclusion_type_str PostalCodeRuleInclusionType_INCLUDE = ''include''"
| "postal_code_rule_inclusion_type_str PostalCodeRuleInclusionType_EXCLUDE = ''exclude''"

definition postal_code_rule_inclusion_type_members :: "postal_code_rule_inclusion_type list" where
  "postal_code_rule_inclusion_type_members = [
     PostalCodeRuleInclusionType_INCLUDE, PostalCodeRuleInclusionType_EXCLUDE]"

definition postal_code_rule_inclusion_type_choices :: "postal_code_rule_inclusion_type list" where
  "postal_code_rule_inclusion_type_choices = [
     PostalCodeRuleInclusionType_INCLUDE, PostalCodeRuleInclusionType_EXCLUDE]"

interpretation postal_code_rule_inclusion_type: choice_class postal_code_rule_inclusion_type_members postal_code_rule_inclusion_type_str
proof
  show "distinct (map postal_code_rule_inclusion_type_str postal_code_rule_inclusion_type_members)"
    by (simp add: postal_code_rule_inclusion_type_members_def)
  show "c \<in> set postal_code_rule_inclusion_type_members" for c
    by (cases c) (simp_all add: postal_code_rule_inclusion_type_members_def)
qed

lemma postal_code_rule_inclusion_type_choices_complete:
  "set postal_code_rule_inclusion_type_choices = UNIV - {}"
  using postal_code_rule_inclusion_type.all_members by (auto simp: postal_code_rule_inclusion_type_choices_def postal_code_rule_inclusion_type_members_def)

subsection \<open>\<open>GiftCardSettingsExpiryType\<close> (\<^verbatim>\<open>saleor/site/__init__.py\<close>)\<close>

datatype gift_card_settings_expiry_type =
    GiftCardSettingsExpiryType_NEVER_EXPIRE | GiftCardSettingsExpiryType_EXPIRY_PERIOD

fun gift_card_settings_expiry_type_str :: "gift_card_settings_expiry_type \<Rightarrow> string" where
  "gift_card_settings_expiry_type_str GiftCardSettingsExpiryType_NEVER_EXPIRE = ''never_expire''"
| "gift_card_settings_expiry_type_str GiftCardSettingsExpiryType_EXPIRY_PERIOD = ''expiry_period''"

definition gift_card_settings_expiry_type_members :: "gift_card_settings_expiry_type list" where
  "gift_card_settings_expiry_type_members = [
     GiftCardSettingsExpiryType_NEVER_EXPIRE, GiftCardSettingsExpiryType_EXPIRY_PERIOD]"

definition gift_card_settings_expiry_type_choices :: "gift_card_settings_expiry_type list" where
  "gift_card_settings_expiry_type_choices = [
     GiftCardSettingsExpiryType_NEVER_EXPIRE, GiftCardSettingsExpiryType_EXPIRY_PERIOD]"

interpretation gift_card_settings_expiry_type: choice_class gift_card_settings_expiry_type_members gift_card_settings_expiry_type_str
proof
  show "distinct (map gift_card_settings_expiry_type_str gift_card_settings_expiry_type_members)"
    by (simp add: gift_card_settings_expiry_type_members_def)
  show "c \<in> set gift_card_settings_expiry_type_members" for c
    by (cases c) (simp_all add: gift_card_settings_expiry_type_members_def)
qed

lemma gift_card_settings_expiry_type_choices_complete:
  "set gift_card_settings_expiry_type_choices = UNIV - {}"
  using gift_card_settings_expiry_type.all_members by (auto simp: gift_card_settings_expiry_type_choices_def gift_card_settings_expiry_type_members_def)

subsection \<open>\<open>TaxCalculationStrategy\<close> (\<^verbatim>\<open>saleor/tax/__init__.py\<close>)\<close>

datatype tax_calculation_strategy =
    TaxCalculationStrategy_FLAT_RATES | TaxCalculationStrategy_TAX_APP

fun tax_calculation_strategy_str :: "tax_calculation_strategy \<Rightarrow> string" where
  "tax_calculation_strategy_str TaxCalculationStrategy_FLAT_RATES = ''FLAT_RATES''"
| "tax_calculation_strategy_str TaxCalculationStrategy_TAX_APP = ''TAX_APP''"

definition tax_calculation_strategy_members :: "tax_calculation_strategy list" where
  "tax_calculation_strategy_members = [
     TaxCalculationStrategy_FLAT_RATES, TaxCalculationStrategy_TAX_APP]"

definition tax_calculation_strategy_choices :: "tax_calculation_strategy list" where
  "tax_calculation_strategy_choices = [
     TaxCalculationStrategy_FLAT_RATES, TaxCalculationStrategy_TAX_APP]"

interpretation tax_calculation_strategy: choice_class tax_calculation_strategy_members tax_calculation_strategy_str
proof
  show "distinct (map tax_calculation_strategy_str tax_calculation_strategy_members)"
    by (simp add: tax_calculation_strategy_members_def)
  show "c \<in> set tax_calculation_strategy_members" for c
    by (cases c) (simp_all add: tax_calculation_strategy_members_def)
qed

lemma tax_calculation_strategy_choices_complete:
  "set tax_calculation_strategy_choices = UNIV - {}"
  using tax_calculation_strategy.all_members by (auto simp: tax_calculation_strategy_choices_def tax_calculation_strategy_members_def)

subsection \<open>\<open>TimePeriodType\<close> (\<^verbatim>\<open>saleor/core/__init__.py\<close>)\<close>

datatype time_period_type =
    TimePeriodType_DAY | TimePeriodType_WEEK | TimePeriodType_MONTH | TimePeriodType_YEAR

fun time_period_type_str :: "time_period_type \<Rightarrow> string" where
  "time_period_type_str TimePeriodType_DAY = ''day''"
| "time_period_type_str TimePeriodType_WEEK = ''week''"
| "time_period_type_str TimePeriodType_MONTH = ''month''"
| "time_period_type_str TimePeriodType_YEAR = ''year''"

definition time_period_type_members :: "time_period_type list" where
  "time_period_type_members = [
     TimePeriodType_DAY, TimePeriodType_WEEK, TimePeriodType_MONTH, TimePeriodType_YEAR]"

definition time_period_type_choices :: "time_period_type list" where
  "time_period_type_choices = [
     TimePeriodType_DAY, TimePeriodType_WEEK, TimePeriodType_MONTH, TimePeriodType_YEAR]"

interpretation time_period_type: choice_class time_period_type_members time_period_type_str
proof
  show "distinct (map time_period_type_str time_period_type_members)"
    by (simp add: time_period_type_members_def)
  show "c \<in> set time_period_type_members" for c
    by (cases c) (simp_all add: time_period_type_members_def)
qed

lemma time_period_type_choices_complete:
  "set time_period_type_choices = UNIV - {}"
  using time_period_type.all_members by (auto simp: time_period_type_choices_def time_period_type_members_def)

end
