(* ===== verification/Discounts.thy ===== *)
theory Discounts
  imports DiscountChoices Permissions
begin

section \<open>Vouchers\<close>

text \<open>
  \<^verbatim>\<open>discount/models.py\<close> and the voucher part of \<^verbatim>\<open>discount/utils.py\<close>, \<^verbatim>\<open>discount/tasks.py\<close>,
  \<^verbatim>\<open>order/tasks.py\<close> and \<^verbatim>\<open>core/utils/promo_code.py\<close>. Amounts are in the currency of the channel they belong
  to. \<open>prices\<close> are the two functions of the package of that name that lower a price; \<open>prices_law\<close> states
  that they lower it, and not below zero. \<open>any_row\<close> is the row the database gives for a query that asks for
  one without an order.
\<close>

record prices =
  pr_fixed_discount :: "decimal \<Rightarrow> decimal \<Rightarrow> decimal"
  pr_percentage_discount :: "decimal \<Rightarrow> decimal \<Rightarrow> decimal"

definition prices_law :: "prices \<Rightarrow> bool" where
  "prices_law P \<longleftrightarrow>
     (\<forall>price d. 0 \<le> price \<longrightarrow> 0 \<le> d \<longrightarrow> 0 \<le> pr_fixed_discount P price d \<and> pr_fixed_discount P price d \<le> price)
   \<and> (\<forall>price d. 0 \<le> price \<longrightarrow> 0 \<le> d \<longrightarrow> 0 \<le> pr_percentage_discount P price d \<and> pr_percentage_discount P price d \<le> price)"

lemma prices_lawD:
  "prices_law P \<Longrightarrow> 0 \<le> price \<Longrightarrow> 0 \<le> d \<Longrightarrow> 0 \<le> pr_fixed_discount P price d \<and> pr_fixed_discount P price d \<le> price"
  "prices_law P \<Longrightarrow> 0 \<le> price \<Longrightarrow> 0 \<le> d \<Longrightarrow> 0 \<le> pr_percentage_discount P price d \<and> pr_percentage_discount P price d \<le> price"
  by (simp_all add: prices_law_def)

subsection \<open>Rows\<close>

record voucher =
  vo_pk :: nat
  vo_type :: voucher_type
  vo_name :: string
  vo_usage_limit :: "int option"
  vo_start_date :: datetime
  vo_end_date :: "datetime option"
  vo_apply_once_per_order :: bool
  vo_apply_once_per_customer :: bool
  vo_single_use :: bool
  vo_only_for_staff :: bool
  vo_discount_value_type :: discount_value_type
  vo_countries :: "string list"
  vo_min_checkout_items_quantity :: "int option"
  vo_products :: "nat list"
  vo_variants :: "nat list"
  vo_collections :: "nat list"
  vo_categories :: "nat list"

record voucher_code =
  vc_pk :: nat
  vc_code :: string
  vc_used :: int
  vc_is_active :: bool
  vc_voucher :: nat

record voucher_channel_listing =
  vl_voucher :: nat
  vl_channel :: nat
  vl_discount_value :: decimal
  vl_min_spent :: "decimal option"

record voucher_customer =
  vu_voucher_code :: nat
  vu_customer_email :: string

record sales_channel =
  sc_pk :: nat
  sc_slug :: string
  sc_is_active :: bool
  sc_currency_code :: string

record voucher_db =
  vd_vouchers :: "voucher list"
  vd_codes :: "voucher_code list"
  vd_listings :: "voucher_channel_listing list"
  vd_customers :: "voucher_customer list"
  vd_channels :: "sales_channel list"
  vd_gift_card_codes :: "string list"

datatype discount_error =
    NotInChannel
  | MinSpent decimal
  | MinCheckoutItemsQuantity int
  | OncePerCustomer
  | StaffOnly
  | SelectedItemsOnly
  | ShippingNotRequired
  | NoDeliveryMethod
  | NotInCountry
  | VoucherExpired
  | InvalidPromoCode
  | NegativeUsage
  | EmptySequence
  | MissingPrice
  | DivisionByZero
  | MissingVariant

text \<open>The errors that are \<open>NotApplicable\<close>; the others are a validation error and errors of the database or of Python.\<close>

fun is_not_applicable :: "discount_error \<Rightarrow> bool" where
  "is_not_applicable InvalidPromoCode = False"
| "is_not_applicable NegativeUsage = False"
| "is_not_applicable EmptySequence = False"
| "is_not_applicable MissingPrice = False"
| "is_not_applicable DivisionByZero = False"
| "is_not_applicable _ = True"

definition codes_of :: "voucher \<Rightarrow> voucher_db \<Rightarrow> voucher_code list" where
  "codes_of v s = filter (\<lambda>c. vc_voucher c = vo_pk v) (vd_codes s)"

text \<open>The code that stands for the voucher: its first one, the table being in the order of creation.\<close>

definition code_of_voucher :: "voucher \<Rightarrow> voucher_db \<Rightarrow> string option" where
  "code_of_voucher v s = (case codes_of v s of [] \<Rightarrow> None | c # _ \<Rightarrow> Some (vc_code c))"

text \<open>The uses of voucher and code that decide and count compare with truth: a limit of 0 counts as none.\<close>

definition has_limit :: "voucher \<Rightarrow> bool" where
  "has_limit v \<longleftrightarrow> vo_usage_limit v \<noteq> None \<and> vo_usage_limit v \<noteq> Some 0"

subsection \<open>Which vouchers are active\<close>

text \<open>
  The subquery adds up \<open>used\<close> for each code by itself and takes one of the sums: the uses of the other
  codes do not count. Without codes it is null, and the comparison fails.
\<close>

definition total_used :: "(voucher_code list \<Rightarrow> voucher_code) \<Rightarrow> voucher \<Rightarrow> voucher_db \<Rightarrow> int option" where
  "total_used any_row v s = (case codes_of v s of [] \<Rightarrow> None | cs \<Rightarrow> Some (vc_used (any_row cs)))"

definition active_voucher :: "(voucher_code list \<Rightarrow> voucher_code) \<Rightarrow> datetime \<Rightarrow> voucher_db \<Rightarrow> voucher \<Rightarrow> bool" where
  "active_voucher any_row date s v \<longleftrightarrow>
     (case vo_usage_limit v of None \<Rightarrow> True
      | Some limit \<Rightarrow> (case total_used any_row v s of None \<Rightarrow> False | Some used \<Rightarrow> limit > used))
     \<and> (case vo_end_date v of None \<Rightarrow> True | Some end_date \<Rightarrow> end_date \<ge> date)
     \<and> vo_start_date v \<le> date"

definition active_in_channel ::
    "(voucher_code list \<Rightarrow> voucher_code) \<Rightarrow> datetime \<Rightarrow> string \<Rightarrow> voucher_db \<Rightarrow> voucher \<Rightarrow> bool" where
  "active_in_channel any_row date slug s v \<longleftrightarrow> active_voucher any_row date s v
     \<and> (\<exists>l \<in> set (vd_listings s). vl_voucher l = vo_pk v
          \<and> (\<exists>c \<in> set (vd_channels s). sc_pk c = vl_channel l \<and> sc_slug c = slug \<and> sc_is_active c))"

definition expired_voucher :: "(voucher_code list \<Rightarrow> voucher_code) \<Rightarrow> datetime \<Rightarrow> voucher_db \<Rightarrow> voucher \<Rightarrow> bool" where
  "expired_voucher any_row date s v \<longleftrightarrow>
     ((case vo_usage_limit v of None \<Rightarrow> False
       | Some limit \<Rightarrow> (case total_used any_row v s of None \<Rightarrow> False | Some used \<Rightarrow> limit \<le> used))
      \<or> (case vo_end_date v of None \<Rightarrow> False | Some end_date \<Rightarrow> end_date < date))
     \<and> vo_start_date v < date"

definition get_voucher_code_instance ::
    "(voucher_code list \<Rightarrow> voucher_code) \<Rightarrow> datetime \<Rightarrow> string \<Rightarrow> string \<Rightarrow> voucher_db \<Rightarrow> discount_error + voucher_code" where
  "get_voucher_code_instance any_row now voucher_code channel_slug s =
     (if \<exists>v \<in> set (vd_vouchers s). active_in_channel any_row now channel_slug s v
           \<and> (\<exists>c \<in> set (codes_of v s). vc_code c = voucher_code \<and> vc_is_active c)
      then (case row_of vc_code voucher_code (vd_codes s) of None \<Rightarrow> Inl InvalidPromoCode | Some c \<Rightarrow> Inr c)
      else Inl InvalidPromoCode)"

subsection \<open>What a voucher is worth\<close>

definition voucher_listing_of :: "voucher_db \<Rightarrow> voucher \<Rightarrow> nat \<Rightarrow> voucher_channel_listing option" where
  "voucher_listing_of s v channel = find (\<lambda>l. vl_voucher l = vo_pk v \<and> vl_channel l = channel) (vd_listings s)"

definition lower_price :: "prices \<Rightarrow> discount_value_type \<Rightarrow> decimal \<Rightarrow> decimal \<Rightarrow> decimal" where
  "lower_price P value_type value price = (case value_type of
     DiscountValueType_FIXED \<Rightarrow> pr_fixed_discount P price value
   | DiscountValueType_PERCENTAGE \<Rightarrow> pr_percentage_discount P price value)"

definition get_discount :: "prices \<Rightarrow> voucher_db \<Rightarrow> voucher \<Rightarrow> nat \<Rightarrow> discount_error + (decimal \<Rightarrow> decimal)" where
  "get_discount P s v channel =
     (case voucher_listing_of s v channel of
        None \<Rightarrow> Inl NotInChannel
      | Some l \<Rightarrow> Inr (lower_price P (vo_discount_value_type v) (vl_discount_value l)))"

definition get_discount_amount_for :: "prices \<Rightarrow> voucher_db \<Rightarrow> voucher \<Rightarrow> decimal \<Rightarrow> nat \<Rightarrow> discount_error + decimal" where
  "get_discount_amount_for P s v price channel =
     bindr (get_discount P s v channel) (\<lambda>discount.
       let after_discount = discount price
       in Inr (if after_discount < 0 then price else price - after_discount))"

definition validate_min_spent :: "voucher_db \<Rightarrow> voucher \<Rightarrow> decimal \<Rightarrow> nat \<Rightarrow> discount_error + unit" where
  "validate_min_spent s v value channel =
     (case voucher_listing_of s v channel of
        None \<Rightarrow> Inl NotInChannel
      | Some l \<Rightarrow> (case vl_min_spent l of
          None \<Rightarrow> Inr ()
        | Some min_spent \<Rightarrow> if min_spent \<noteq> 0 \<and> value < min_spent then Inl (MinSpent min_spent) else Inr ()))"

definition validate_min_checkout_items_quantity :: "voucher \<Rightarrow> int \<Rightarrow> discount_error + unit" where
  "validate_min_checkout_items_quantity v quantity =
     (case vo_min_checkout_items_quantity v of
        None \<Rightarrow> Inr ()
      | Some m \<Rightarrow> if m \<noteq> 0 \<and> m > quantity then Inl (MinCheckoutItemsQuantity m) else Inr ())"

definition validate_once_per_customer :: "voucher_db \<Rightarrow> voucher \<Rightarrow> string \<Rightarrow> discount_error + unit" where
  "validate_once_per_customer s v customer_email =
     (if \<exists>u \<in> set (vd_customers s). vu_voucher_code u \<in> vc_pk ` set (codes_of v s) \<and> vu_customer_email u = customer_email
      then Inl OncePerCustomer else Inr ())"

definition validate_only_for_staff :: "voucher \<Rightarrow> user option \<Rightarrow> discount_error + unit" where
  "validate_only_for_staff v customer =
     (if \<not> vo_only_for_staff v then Inr ()
      else (case customer of None \<Rightarrow> Inl StaffOnly | Some u \<Rightarrow> if user_is_staff u then Inr () else Inl StaffOnly))"

definition validate_voucher ::
    "voucher_db \<Rightarrow> voucher \<Rightarrow> decimal \<Rightarrow> int \<Rightarrow> string \<Rightarrow> nat \<Rightarrow> user option \<Rightarrow> discount_error + unit" where
  "validate_voucher s v total_price quantity customer_email channel customer =
     bindr (validate_min_spent s v total_price channel) (\<lambda>_.
     bindr (validate_min_checkout_items_quantity v quantity) (\<lambda>_.
     bindr (if vo_apply_once_per_customer v then validate_once_per_customer s v customer_email else Inr ()) (\<lambda>_.
       if vo_only_for_staff v then validate_only_for_staff v customer else Inr ())))"

fun discount_amounts :: "prices \<Rightarrow> voucher_db \<Rightarrow> voucher \<Rightarrow> nat \<Rightarrow> decimal list \<Rightarrow> discount_error + decimal" where
  "discount_amounts P s v channel [] = Inr 0"
| "discount_amounts P s v channel (price # prices) =
     bindr (get_discount_amount_for P s v price channel) (\<lambda>a.
     bindr (discount_amounts P s v channel prices) (\<lambda>b. Inr (a + b)))"

definition get_products_voucher_discount ::
    "prices \<Rightarrow> voucher_db \<Rightarrow> voucher \<Rightarrow> decimal list \<Rightarrow> nat \<Rightarrow> discount_error + decimal" where
  "get_products_voucher_discount P s v prices channel =
     (if vo_apply_once_per_order v
      then (if prices = [] then Inl EmptySequence else get_discount_amount_for P s v (Min (set prices)) channel)
      else discount_amounts P s v channel prices)"

definition apply_discount_to_value :: "prices \<Rightarrow> decimal \<Rightarrow> discount_value_type \<Rightarrow> decimal \<Rightarrow> decimal" where
  "apply_discount_to_value P value value_type price_to_discount = lower_price P value_type value price_to_discount"

subsection \<open>Counting the uses\<close>

definition save_code :: "nat \<Rightarrow> (voucher_code \<Rightarrow> voucher_code) \<Rightarrow> voucher_db \<Rightarrow> voucher_db" where
  "save_code k f s = s\<lparr>vd_codes := save_row vc_pk k f (vd_codes s)\<rparr>"

definition increase_voucher_code_usage_value :: "nat \<Rightarrow> voucher_db \<Rightarrow> voucher_db" where
  "increase_voucher_code_usage_value k = save_code k (\<lambda>c. c\<lparr>vc_used := vc_used c + 1\<rparr>)"

text \<open>\<open>used\<close> is a \<open>PositiveIntegerField\<close>: the database refuses a negative number.\<close>

definition decrease_voucher_code_usage_value :: "nat \<Rightarrow> voucher_db \<Rightarrow> discount_error + voucher_db" where
  "decrease_voucher_code_usage_value k s =
     (let t = save_code k (\<lambda>c. c\<lparr>vc_used := vc_used c - 1\<rparr>) s
      in if \<exists>c \<in> set (vd_codes t). vc_pk c = k \<and> vc_used c < 0 then Inl NegativeUsage else Inr t)"

definition deactivate_voucher_code :: "nat \<Rightarrow> voucher_db \<Rightarrow> voucher_db" where
  "deactivate_voucher_code k = save_code k (\<lambda>c. c\<lparr>vc_is_active := False\<rparr>)"

definition activate_voucher_code :: "nat \<Rightarrow> voucher_db \<Rightarrow> voucher_db" where
  "activate_voucher_code k = save_code k (\<lambda>c. c\<lparr>vc_is_active := True\<rparr>)"

definition add_voucher_usage_by_customer :: "nat \<Rightarrow> string \<Rightarrow> voucher_db \<Rightarrow> discount_error + voucher_db" where
  "add_voucher_usage_by_customer k customer_email s =
     (if \<lparr>vu_voucher_code = k, vu_customer_email = customer_email\<rparr> \<in> set (vd_customers s) then Inl OncePerCustomer
      else Inr (s\<lparr>vd_customers := vd_customers s @ [\<lparr>vu_voucher_code = k, vu_customer_email = customer_email\<rparr>]\<rparr>))"

definition remove_voucher_usage_by_customer :: "nat \<Rightarrow> string \<Rightarrow> voucher_db \<Rightarrow> voucher_db" where
  "remove_voucher_usage_by_customer k customer_email s = s\<lparr>vd_customers :=
     filter (\<lambda>u. u \<noteq> \<lparr>vu_voucher_code = k, vu_customer_email = customer_email\<rparr>) (vd_customers s)\<rparr>"

definition increase_voucher_usage :: "voucher \<Rightarrow> nat \<Rightarrow> string \<Rightarrow> bool \<Rightarrow> voucher_db \<Rightarrow> discount_error + voucher_db" where
  "increase_voucher_usage v code customer_email increase_voucher_customer_usage s =
     (let s = (if has_limit v then increase_voucher_code_usage_value code s else s)
      in bindr (if vo_apply_once_per_customer v \<and> increase_voucher_customer_usage
                then add_voucher_usage_by_customer code customer_email s else Inr s) (\<lambda>s.
           Inr (if vo_single_use v then deactivate_voucher_code code s else s)))"

definition release_voucher_code_usage ::
    "nat option \<Rightarrow> voucher option \<Rightarrow> string option \<Rightarrow> voucher_db \<Rightarrow> discount_error + voucher_db" where
  "release_voucher_code_usage code voucher customer_email s =
     (case code of
        None \<Rightarrow> Inr s
      | Some k \<Rightarrow>
          bindr (case voucher of Some v \<Rightarrow> if has_limit v then decrease_voucher_code_usage_value k s else Inr s
                 | None \<Rightarrow> Inr s) (\<lambda>s.
            let s = (case voucher of Some v \<Rightarrow> if vo_single_use v then activate_voucher_code k s else s | None \<Rightarrow> s)
            in Inr (case customer_email of None \<Rightarrow> s
               | Some e \<Rightarrow> if e = [] then s else remove_voucher_usage_by_customer k e s)))"

text \<open>
  The voucher of a checkout: \<open>voucher_code\<close> is the code the checkout keeps. A code is unique. Counting its use
  when the order is placed fails when the voucher is no longer active, or was used by the customer.
\<close>

definition get_voucher_for_checkout ::
    "(voucher_code list \<Rightarrow> voucher_code) \<Rightarrow> datetime \<Rightarrow> string option \<Rightarrow> string \<Rightarrow> voucher_db \<Rightarrow> (voucher \<times> voucher_code) option" where
  "get_voucher_for_checkout any_row now checkout_voucher_code channel_slug s =
     (case checkout_voucher_code of
        None \<Rightarrow> None
      | Some code \<Rightarrow>
          (case find (\<lambda>c. vc_code c = code \<and> vc_is_active c) (vd_codes s) of
             None \<Rightarrow> None
           | Some c \<Rightarrow>
               (case find (\<lambda>v. active_in_channel any_row now channel_slug s v \<and> vo_pk v = vc_voucher c) (vd_vouchers s) of
                  None \<Rightarrow> None | Some v \<Rightarrow> Some (v, c))))"

definition process_voucher_data_for_order ::
    "(voucher_code list \<Rightarrow> voucher_code) \<Rightarrow> datetime \<Rightarrow> string option \<Rightarrow> string \<Rightarrow> string \<Rightarrow> voucher_db
     \<Rightarrow> discount_error + (voucher \<times> string) option \<times> voucher_db" where
  "process_voucher_data_for_order any_row now checkout_voucher_code channel_slug customer_email s =
     (case get_voucher_for_checkout any_row now checkout_voucher_code channel_slug s of
        None \<Rightarrow> if checkout_voucher_code \<noteq> None \<and> checkout_voucher_code \<noteq> Some [] then Inl VoucherExpired else Inr (None, s)
      | Some (v, c) \<Rightarrow>
          bindr (increase_voucher_usage v (vc_pk c) customer_email True s) (\<lambda>s. Inr (Some (v, vc_code c), s)))"

text \<open>\<open>_increase_voucher_code_usage_value\<close> of the completion of a checkout, which gives the code.\<close>

definition increase_usage_for_checkout ::
    "(voucher_code list \<Rightarrow> voucher_code) \<Rightarrow> datetime \<Rightarrow> string option \<Rightarrow> string \<Rightarrow> string \<Rightarrow> voucher_db
     \<Rightarrow> discount_error + voucher_code option \<times> voucher_db" where
  "increase_usage_for_checkout any_row now checkout_voucher_code channel_slug customer_email s =
     (case get_voucher_for_checkout any_row now checkout_voucher_code channel_slug s of
        None \<Rightarrow> Inr (None, s)
      | Some (v, c) \<Rightarrow> bindr (increase_voucher_usage v (vc_pk c) customer_email True s) (\<lambda>s. Inr (Some c, s)))"

text \<open>
  \<open>_bulk_release_voucher_usage\<close>: orders as their voucher code and email. The update is one statement, which
  fails as a whole; single-use codes stay inactive, and the customers are those of any of the codes with any of the
  emails.
\<close>

definition orders_with_code :: "(string option \<times> string) list \<Rightarrow> string \<Rightarrow> int" where
  "orders_with_code orders code = int (length (filter (\<lambda>(c, _). c = Some code) orders))"

definition bulk_release_voucher_usage :: "(string option \<times> string) list \<Rightarrow> voucher_db \<Rightarrow> discount_error + voucher_db" where
  "bulk_release_voucher_usage orders s =
     (let limited = (\<lambda>c. \<exists>v \<in> set (vd_vouchers s). vo_pk v = vc_voucher c \<and> vo_usage_limit v \<noteq> None);
          codes = map (\<lambda>c. if orders_with_code orders (vc_code c) > 0 \<and> limited c
            then c\<lparr>vc_used := vc_used c - orders_with_code orders (vc_code c)\<rparr> else c) (vd_codes s);
          touched = vc_pk ` set (filter (\<lambda>c. orders_with_code orders (vc_code c) > 0) (vd_codes s))
      in if \<exists>c \<in> set codes. vc_used c < 0 then Inl NegativeUsage
         else Inr (s\<lparr>vd_codes := codes, vd_customers := filter (\<lambda>u. \<not> (vu_voucher_code u \<in> touched
            \<and> vu_customer_email u \<in> snd ` set orders)) (vd_customers s)\<rparr>))"

text \<open>
  The task that gives back the uses of draft orders works on 1000 codes at a time and schedules itself for the
  rest, in the order of a set (\<open>remaining\<close>); it ends when a batch has no code.
\<close>

definition decrease_batch :: "nat list \<Rightarrow> voucher_db \<Rightarrow> voucher_db" where
  "decrease_batch ids s = s\<lparr>vd_codes := map (\<lambda>c. if vc_pk c \<in> set ids
     then (case row_of vo_pk (vc_voucher c) (vd_vouchers s) of
             None \<Rightarrow> c
           | Some v \<Rightarrow> c\<lparr>vc_used := (if has_limit v \<and> vc_used c > 0 then vc_used c - 1 else vc_used c),
                         vc_is_active := vo_single_use v \<or> vc_is_active c\<rparr>)
     else c) (vd_codes s)\<rparr>"

function decrease_voucher_codes_usage_task :: "nat list \<Rightarrow> voucher_db \<Rightarrow> voucher_db" where
  "decrease_voucher_codes_usage_task voucher_code_ids s =
     (let ids = take 1000 voucher_code_ids;
          remaining_ids = filter (\<lambda>i. i \<notin> set ids) (remdups voucher_code_ids)
      in if filter (\<lambda>c. vc_pk c \<in> set ids) (vd_codes s) = [] then s
         else if remaining_ids = [] then decrease_batch ids s
         else decrease_voucher_codes_usage_task remaining_ids (decrease_batch ids s))"
  by pat_completeness auto

lemma remaining_fewer:
  assumes "filter (\<lambda>i. i \<notin> set (take n ids)) (remdups ids) \<noteq> []"
  shows "length (filter (\<lambda>i. i \<notin> set (take n ids)) (remdups ids)) < length ids \<or> n = 0"
proof (cases "n = 0")
  case False
  with assms have "ids \<noteq> []" by auto
  then obtain x xs where ids: "ids = x # xs" by (cases ids) auto
  have "x \<in> set (take n ids)" using False by (cases n) (simp_all add: ids)
  then have "length (filter (\<lambda>i. i \<notin> set (take n ids)) (remdups ids)) < length (remdups ids)"
    by (intro length_filter_less [of x]) (simp_all add: ids)
  also have "\<dots> \<le> length ids" by (rule length_remdups_leq)
  finally show ?thesis ..
qed simp

termination decrease_voucher_codes_usage_task
  by (relation "measure (length \<circ> fst)") (use remaining_fewer [of 1000] in auto)

declare decrease_voucher_codes_usage_task.simps [simp del]

subsection \<open>Promo codes\<close>

definition promo_code_is_voucher :: "voucher_db \<Rightarrow> string \<Rightarrow> bool" where
  "promo_code_is_voucher s code \<longleftrightarrow> code \<in> vc_code ` set (vd_codes s)"

definition promo_code_is_gift_card :: "voucher_db \<Rightarrow> string \<Rightarrow> bool" where
  "promo_code_is_gift_card s code \<longleftrightarrow> code \<in> set (vd_gift_card_codes s)"

definition is_available_promo_code :: "voucher_db \<Rightarrow> string \<Rightarrow> bool" where
  "is_available_promo_code s code \<longleftrightarrow> \<not> (promo_code_is_gift_card s code \<or> promo_code_is_voucher s code)"

text \<open>\<open>codes\<close> are what the random generator gives, one after the other; \<open>None\<close> when they run out.\<close>

definition generate_promo_code :: "string list \<Rightarrow> voucher_db \<Rightarrow> string option" where
  "generate_promo_code codes s = find (is_available_promo_code s) codes"

text \<open>The twelve hexadecimal digits in groups of four.\<close>

definition format_random_code :: "string \<Rightarrow> string" where
  "format_random_code code = take 4 code @ ''-'' @ take 4 (drop 4 code) @ ''-'' @ drop 8 code"

end
