(* ===== verification/Promotions.thy ===== *)
theory Promotions
  imports Discounts
begin

section \<open>Promotions and the prices they give\<close>

text \<open>
  The promotion part of \<^verbatim>\<open>discount/models.py\<close>, \<^verbatim>\<open>discount/utils.py\<close> and \<^verbatim>\<open>discount/tasks.py\<close>, and
  \<^verbatim>\<open>product/utils/variant_prices.py\<close>, which stores the discounted price of every variant and product in a
  channel with the rules that led to it. A table of the relation of rules and variants, or of listings and
  rules, is a list of rows; a dictionary is an association list in the order in which Python keeps it. A rule
  has a reward value, which the mutations demand of a rule with a reward type.
\<close>

subsection \<open>Rows\<close>

record promotion =
  pm_pk :: nat
  pm_name :: string
  pm_old_sale_id :: "nat option"
  pm_start_date :: datetime
  pm_end_date :: "datetime option"
  pm_last_notification_scheduled_at :: "datetime option"

record promotion_rule =
  ru_pk :: nat
  ru_name :: "string option"
  ru_promotion :: nat
  ru_channels :: "nat list"
  ru_reward_value_type :: "reward_value_type option"
  ru_reward_value :: decimal

record rule_variant =
  rv_pk :: nat
  rv_rule :: nat
  rv_variant :: nat

record variant_listing =
  li_pk :: nat
  li_variant :: nat
  li_listing_channel :: nat
  li_price_amount :: "decimal option"
  li_discounted_price_amount :: "decimal option"

record product_listing =
  pl_pk :: nat
  pl_product :: nat
  pl_channel :: nat
  pl_discounted_price_amount :: "decimal option"

record listing_rule =
  lr_listing :: nat
  lr_rule :: nat
  lr_discount_amount :: decimal

record promotion_db =
  kd_promotions :: "promotion list"
  kd_rules :: "promotion_rule list"
  kd_rule_variants :: "rule_variant list"
  kd_variants :: "(nat \<times> nat) list"
  kd_variant_listings :: "variant_listing list"
  kd_product_listings :: "product_listing list"
  kd_listing_rules :: "listing_rule list"

datatype promotion_error = UnknownDiscountType | NoPromotion

subsection \<open>Which promotions are active\<close>

definition active_promotion :: "datetime \<Rightarrow> promotion \<Rightarrow> bool" where
  "active_promotion date p \<longleftrightarrow> (case pm_end_date p of None \<Rightarrow> True | Some e \<Rightarrow> e \<ge> date) \<and> pm_start_date p \<le> date"

definition expired_promotion :: "datetime \<Rightarrow> promotion \<Rightarrow> bool" where
  "expired_promotion date p \<longleftrightarrow> (case pm_end_date p of None \<Rightarrow> False | Some e \<Rightarrow> e < date) \<and> pm_start_date p < date"

definition is_active_promotion :: "datetime \<Rightarrow> promotion \<Rightarrow> bool" where
  "is_active_promotion date p \<longleftrightarrow> (pm_end_date p = None \<or> the (pm_end_date p) \<ge> date) \<and> pm_start_date p \<le> date"

definition get_starting_promotions :: "datetime \<Rightarrow> promotion_db \<Rightarrow> promotion list" where
  "get_starting_promotions now s = filter (\<lambda>p.
     (case pm_last_notification_scheduled_at p of None \<Rightarrow> True | Some n \<Rightarrow> n < pm_start_date p)
     \<and> pm_start_date p \<le> now) (kd_promotions s)"

definition get_ending_promotions :: "datetime \<Rightarrow> promotion_db \<Rightarrow> promotion list" where
  "get_ending_promotions now s = filter (\<lambda>p. case pm_end_date p of None \<Rightarrow> False | Some e \<Rightarrow>
     (case pm_last_notification_scheduled_at p of None \<Rightarrow> True | Some n \<Rightarrow> n < e) \<and> e \<le> now) (kd_promotions s)"

text \<open>
  What \<open>handle_promotion_toggle\<close> writes: of at most 100 starting and 100 ending promotions, in the order
  of their union (the table's), the first 100 are notified.
\<close>

definition toggled_promotions :: "datetime \<Rightarrow> promotion_db \<Rightarrow> nat list" where
  "toggled_promotions now s =
     (let starting = take 100 (get_starting_promotions now s); ending = take 100 (get_ending_promotions now s)
      in take 100 (map pm_pk (filter (\<lambda>p. p \<in> set starting \<union> set ending) (kd_promotions s))))"

definition handle_promotion_toggle :: "datetime \<Rightarrow> promotion_db \<Rightarrow> promotion_db" where
  "handle_promotion_toggle now s = s\<lparr>kd_promotions := map (\<lambda>p. if pm_pk p \<in> set (toggled_promotions now s)
     then p\<lparr>pm_last_notification_scheduled_at := Some now\<rparr> else p) (kd_promotions s)\<rparr>"

text \<open>The relation rows of expired promotions are deleted in batches of 5000 until a batch is empty.\<close>

definition expired_rule_variants :: "datetime \<Rightarrow> promotion_db \<Rightarrow> rule_variant list" where
  "expired_rule_variants now s = filter (\<lambda>rv. \<exists>r \<in> set (kd_rules s). ru_pk r = rv_rule rv
     \<and> (\<exists>p \<in> set (kd_promotions s). pm_pk p = ru_promotion r \<and> expired_promotion now p)) (kd_rule_variants s)"

function clear_promotion_rule_variants_task :: "datetime \<Rightarrow> promotion_db \<Rightarrow> promotion_db" where
  "clear_promotion_rule_variants_task now s =
     (let rule_variants_id = map rv_pk (take 5000 (expired_rule_variants now s))
      in if rule_variants_id = [] then s
         else clear_promotion_rule_variants_task now
           (s\<lparr>kd_rule_variants := filter (\<lambda>rv. rv_pk rv \<notin> set rule_variants_id) (kd_rule_variants s)\<rparr>))"
  by pat_completeness auto

lemma cleared_batch_fewer:
  assumes "take n (expired_rule_variants now s) \<noteq> []"
  shows "length (filter (\<lambda>rv. rv_pk rv \<notin> rv_pk ` set (take n (expired_rule_variants now s))) (kd_rule_variants s))
    < length (kd_rule_variants s)"
proof -
  from assms obtain rv where "rv \<in> set (take n (expired_rule_variants now s))" by (meson last_in_set)
  moreover from this have "rv \<in> set (kd_rule_variants s)" by (auto simp: expired_rule_variants_def dest: in_set_takeD)
  ultimately show ?thesis by (intro length_filter_less [of rv]) auto
qed

termination clear_promotion_rule_variants_task
  by (relation "measure (\<lambda>(now, s). length (kd_rule_variants s))") (use cleared_batch_fewer in auto)

declare clear_promotion_rule_variants_task.simps [simp del]

subsection \<open>What the rules give\<close>

definition rule_get_discount :: "prices \<Rightarrow> promotion_rule \<Rightarrow> promotion_error + (decimal \<Rightarrow> decimal)" where
  "rule_get_discount P r = (case ru_reward_value_type r of
     None \<Rightarrow> Inl UnknownDiscountType
   | Some RewardValueType_FIXED \<Rightarrow> Inr (\<lambda>price. pr_fixed_discount P price (ru_reward_value r))
   | Some RewardValueType_PERCENTAGE \<Rightarrow> Inr (\<lambda>price. pr_percentage_discount P price (ru_reward_value r)))"

fun rules_total_discount :: "prices \<Rightarrow> decimal \<Rightarrow> promotion_rule list \<Rightarrow> promotion_error + decimal" where
  "rules_total_discount P price [] = Inr 0"
| "rules_total_discount P price (r # rules) =
     bindr (rule_get_discount P r) (\<lambda>discount.
     bindr (rules_total_discount P price rules) (\<lambda>total. Inr ((price - discount price) + total)))"

definition calculate_discounted_price_for_rules ::
    "prices \<Rightarrow> decimal \<Rightarrow> promotion_rule list \<Rightarrow> promotion_error + decimal" where
  "calculate_discounted_price_for_rules P price rules =
     bindr (rules_total_discount P price rules) (\<lambda>total_discount. Inr (max (price - total_discount) 0))"

record promotion_rule_info =
  ri_rule :: promotion_rule
  ri_channel_ids :: "nat list"

text \<open>The savings of the rules of one promotion that are applicable in the channel.\<close>

fun promotion_savings ::
    "prices \<Rightarrow> decimal \<Rightarrow> nat \<Rightarrow> promotion_rule_info list \<Rightarrow> promotion_error + (nat \<times> decimal) list" where
  "promotion_savings P price channel [] = Inr []"
| "promotion_savings P price channel (i # infos) =
     (if channel \<in> set (ri_channel_ids i)
      then bindr (rule_get_discount P (ri_rule i)) (\<lambda>discount.
           bindr (promotion_savings P price channel infos) (\<lambda>rest.
             Inr ((ru_pk (ri_rule i), price - discount price) # rest)))
      else promotion_savings P price channel infos)"

fun all_savings ::
    "prices \<Rightarrow> decimal \<Rightarrow> nat \<Rightarrow> (nat \<times> promotion_rule_info list) list \<Rightarrow> promotion_error + (nat \<times> decimal) list list" where
  "all_savings P price channel [] = Inr []"
| "all_savings P price channel ((promotion, infos) # rest) =
     bindr (promotion_savings P price channel infos) (\<lambda>savings.
     bindr (all_savings P price channel rest) (\<lambda>others. Inr (savings # others)))"

definition saving :: "(nat \<times> decimal) list \<Rightarrow> decimal" where
  "saving xs = sum_list (map snd xs)"

text \<open>\<open>max\<close> with a key keeps the first of the largest elements.\<close>

fun max_by :: "('a \<Rightarrow> decimal) \<Rightarrow> 'a \<Rightarrow> 'a list \<Rightarrow> 'a" where
  "max_by key best [] = best"
| "max_by key best (x # xs) = max_by key (if key x > key best then x else best) xs"

definition get_best_promotion_discount ::
    "prices \<Rightarrow> decimal \<Rightarrow> (nat \<times> promotion_rule_info list) list \<Rightarrow> nat \<Rightarrow> promotion_error + (nat \<times> decimal) list" where
  "get_best_promotion_discount P price rules_info_per_promotion_id channel =
     bindr (all_savings P price channel rules_info_per_promotion_id) (\<lambda>available.
       case available of [] \<Rightarrow> Inl NoPromotion | x # xs \<Rightarrow> Inr (max_by saving x xs))"

type_synonym variant_rules = "(nat \<times> (nat \<times> promotion_rule_info list) list) list"

definition calculate_discounted_price_for_promotions ::
    "prices \<Rightarrow> decimal \<Rightarrow> variant_rules \<Rightarrow> nat \<Rightarrow> nat \<Rightarrow> promotion_error + (nat \<times> decimal) list" where
  "calculate_discounted_price_for_promotions P price infos channel variant_id =
     (case map_of infos variant_id of
        None \<Rightarrow> Inr []
      | Some rules \<Rightarrow> if rules = [] then Inr [] else get_best_promotion_discount P price rules channel)"

text \<open>Grouping pairs by their first component, as \<open>defaultdict(list)\<close> does.\<close>

definition group_pairs :: "('k \<times> 'v) list \<Rightarrow> ('k \<times> 'v list) list" where
  "group_pairs ps = map (\<lambda>k. (k, map snd (filter (\<lambda>p. fst p = k) ps))) (rev (remdups (rev (map fst ps))))"

definition get_variants_to_promotions_map :: "datetime \<Rightarrow> nat list \<Rightarrow> promotion_db \<Rightarrow> variant_rules" where
  "get_variants_to_promotions_map now variants s =
     (let promotion_rule_variants = filter (\<lambda>rv. rv_variant rv \<in> set variants) (kd_rule_variants s);
          rules = filter (\<lambda>r. (\<exists>p \<in> set (kd_promotions s). pm_pk p = ru_promotion r \<and> active_promotion now p)
            \<and> ru_pk r \<in> rv_rule ` set promotion_rule_variants) (kd_rules s)
      in map (\<lambda>(variant, ps). (variant, group_pairs ps))
           (group_pairs (List.map_filter (\<lambda>rv. case row_of ru_pk (rv_rule rv) rules of
              None \<Rightarrow> None
            | Some r \<Rightarrow> Some (rv_variant rv, (ru_promotion r, \<lparr>ri_rule = r, ri_channel_ids = ru_channels r\<rparr>)))
            promotion_rule_variants)))"

text \<open>
  \<open>update_rule_variant_relation\<close>: of the rows of the given rules, those that are not among the new ones
  go, and those that are missing are added; a new row that repeats another conflicts and is ignored.
\<close>

definition next_rule_variant_pk :: "promotion_db \<Rightarrow> nat" where
  "next_rule_variant_pk s = Suc (sum_list (map rv_pk (kd_rule_variants s)))"

definition update_rule_variant_relation :: "nat list \<Rightarrow> (nat \<times> nat) list \<Rightarrow> promotion_db \<Rightarrow> promotion_db" where
  "update_rule_variant_relation rules new_rules_variants s =
     (let existing = filter (\<lambda>rv. rv_rule rv \<in> set rules) (kd_rule_variants s);
          existing_set = (\<lambda>rv. (rv_rule rv, rv_variant rv)) ` set existing;
          gone = rv_pk ` set (filter (\<lambda>rv. (rv_rule rv, rv_variant rv) \<notin> set new_rules_variants) existing);
          to_add = filter (\<lambda>p. p \<notin> existing_set) (remdups new_rules_variants);
          kept = filter (\<lambda>rv. rv_pk rv \<notin> gone) (kd_rule_variants s);
          added = filter (\<lambda>p. p \<notin> (\<lambda>rv. (rv_rule rv, rv_variant rv)) ` set kept) to_add
      in s\<lparr>kd_rule_variants := kept @ map (\<lambda>(i, r, v). \<lparr>rv_pk = next_rule_variant_pk s + i, rv_rule = r, rv_variant = v\<rparr>)
             (zip [0..<length added] added)\<rparr>)"

subsection \<open>Storing the discounted prices\<close>

text \<open>Each applied rule takes its saving from the price until nothing is left.\<close>

fun apply_savings :: "decimal \<Rightarrow> (nat \<times> decimal) list \<Rightarrow> decimal \<times> (nat \<times> decimal) list" where
  "apply_savings price [] = (price, [])"
| "apply_savings price ((rule, discount) # rest) =
     (let taken = (if price < discount then price else discount); left = price - taken
      in if left = 0 then (left, [(rule, taken)])
         else (case apply_savings left rest of (final, applied) \<Rightarrow> (final, (rule, taken) # applied)))"

definition write_listing_rule :: "nat \<Rightarrow> nat \<times> decimal \<Rightarrow> listing_rule list \<Rightarrow> listing_rule list" where
  "write_listing_rule listing ra rows = (case ra of (rule, amount) \<Rightarrow>
     if \<exists>r \<in> set rows. lr_listing r = listing \<and> lr_rule r = rule
     then map (\<lambda>r. if lr_listing r = listing \<and> lr_rule r = rule then r\<lparr>lr_discount_amount := amount\<rparr> else r) rows
     else rows @ [\<lparr>lr_listing = listing, lr_rule = rule, lr_discount_amount = amount\<rparr>])"

definition price_of_listing :: "prices \<Rightarrow> variant_rules \<Rightarrow> nat \<Rightarrow> variant_listing \<Rightarrow> promotion_error + decimal \<times> (nat \<times> decimal) list" where
  "price_of_listing P infos channel l =
     bindr (calculate_discounted_price_for_promotions P (the (li_price_amount l)) infos channel (li_variant l))
       (\<lambda>applied. Inr (apply_savings (the (li_price_amount l)) applied))"

text \<open>
  The stale relation rows of a listing are deleted only when its price changes. Changed prices and relation rows are
  written at the end, here with each listing: no listing is read again.
\<close>

fun discounted_variants ::
    "prices \<Rightarrow> variant_rules \<Rightarrow> nat \<Rightarrow> variant_listing list \<Rightarrow> promotion_db \<Rightarrow> promotion_error + decimal list \<times> promotion_db" where
  "discounted_variants P infos channel [] s = Inr ([], s)"
| "discounted_variants P infos channel (l # listings) s =
     bindr (price_of_listing P infos channel l) (\<lambda>(final, applied).
       let changed = (li_discounted_price_amount l \<noteq> Some final);
           rows = (if changed then filter (\<lambda>r. lr_listing r \<noteq> li_pk l \<or> lr_rule r \<in> fst ` set applied) (kd_listing_rules s)
                   else kd_listing_rules s);
           s = s\<lparr>kd_listing_rules := fold (write_listing_rule (li_pk l)) applied rows,
                 kd_variant_listings := (if changed then save_row li_pk (li_pk l)
                   (\<lambda>x. x\<lparr>li_discounted_price_amount := Some final\<rparr>) (kd_variant_listings s) else kd_variant_listings s)\<rparr>
       in bindr (discounted_variants P infos channel listings s) (\<lambda>(finals, s). Inr (final # finals, s)))"

definition variant_listings_of :: "nat list \<Rightarrow> nat \<Rightarrow> nat \<Rightarrow> promotion_db \<Rightarrow> variant_listing list" where
  "variant_listings_of products product channel s = filter (\<lambda>l. li_price_amount l \<noteq> None \<and> li_listing_channel l = channel
     \<and> (li_variant l, product) \<in> set (kd_variants s) \<and> product \<in> set products) (kd_variant_listings s)"

fun update_product_listings ::
    "prices \<Rightarrow> variant_rules \<Rightarrow> nat list \<Rightarrow> product_listing list \<Rightarrow> promotion_db \<Rightarrow> promotion_error + promotion_db" where
  "update_product_listings P infos products [] s = Inr s"
| "update_product_listings P infos products (pl # rest) s =
     (let variant_listings = variant_listings_of products (pl_product pl) (pl_channel pl) s
      in if variant_listings = [] then update_product_listings P infos products rest s
         else bindr (discounted_variants P infos (pl_channel pl) variant_listings s) (\<lambda>(finals, s).
           update_product_listings P infos products rest
             (s\<lparr>kd_product_listings := save_row pl_pk (pl_pk pl)
                (\<lambda>x. x\<lparr>pl_discounted_price_amount := Some (Min (set finals))\<rparr>) (kd_product_listings s)\<rparr>)))"

definition update_discounted_prices_for_promotion ::
    "prices \<Rightarrow> datetime \<Rightarrow> nat list \<Rightarrow> promotion_db \<Rightarrow> promotion_error + promotion_db" where
  "update_discounted_prices_for_promotion P now products s =
     (let variants = map fst (filter (\<lambda>(_, p). p \<in> set products) (kd_variants s));
          infos = get_variants_to_promotions_map now variants s
      in update_product_listings P infos products
           (filter (\<lambda>pl. pl_product pl \<in> set products) (kd_product_listings s)) s)"

end
