(* ===== verification/VoucherLaws.thy ===== *)
theory VoucherLaws
  imports Discounts
begin

section \<open>What vouchers promise\<close>

text \<open>
  The value of a voucher lies between nothing and the price; it is applicable exactly when every one of its
  conditions holds; releasing a code undoes its use; the uses of the code of a voucher with one code stay within
  its limit; the batches of the task that gives uses back do what one update would do. The prices and the shop of
  the witnesses are at the end of the first section.
\<close>

subsection \<open>Prices and vouchers for the witnesses\<close>

definition plain_prices :: prices where
  "plain_prices = \<lparr>pr_fixed_discount = (\<lambda>price d. max (price - d) 0),
     pr_percentage_discount = (\<lambda>price d. price - price * min d 100 / 100)\<rparr>"

lemma plain_prices_law [simp]: "prices_law plain_prices"
proof -
  have "price * min d 100 / 100 \<le> price" if "0 \<le> price" for price d :: decimal
    using mult_left_mono [OF min.cobounded2 [of d 100] that] by simp
  then show ?thesis by (auto simp: prices_law_def plain_prices_def)
qed

definition winter_voucher :: voucher where
  "winter_voucher = \<lparr>vo_pk = 1, vo_type = VoucherType_ENTIRE_ORDER, vo_name = ''winter'', vo_usage_limit = Some 2,
     vo_start_date = (2024, 1, 1, 0), vo_end_date = None, vo_apply_once_per_order = False, vo_apply_once_per_customer = True,
     vo_single_use = False, vo_only_for_staff = False, vo_discount_value_type = DiscountValueType_PERCENTAGE,
     vo_countries = [], vo_min_checkout_items_quantity = Some 2, vo_products = [], vo_variants = [],
     vo_collections = [], vo_categories = []\<rparr>"

definition winter_code :: voucher_code where
  "winter_code = \<lparr>vc_pk = 7, vc_code = ''WINTER'', vc_used = 1, vc_is_active = True, vc_voucher = 1\<rparr>"

definition other_code :: voucher_code where
  "other_code = \<lparr>vc_pk = 8, vc_code = ''SNOW'', vc_used = 0, vc_is_active = True, vc_voucher = 1\<rparr>"

definition voucher_shop :: voucher_db where
  "voucher_shop = \<lparr>vd_vouchers = [winter_voucher], vd_codes = [winter_code, other_code],
     vd_listings = [\<lparr>vl_voucher = 1, vl_channel = 3, vl_discount_value = 10, vl_min_spent = Some 20\<rparr>],
     vd_customers = [], vd_channels = [\<lparr>sc_pk = 3, sc_slug = ''pl'', sc_is_active = True, sc_currency_code = ''PLN''\<rparr>],
     vd_gift_card_codes = []\<rparr>"

lemmas voucher_shop_defs = voucher_shop_def winter_voucher_def winter_code_def other_code_def

subsection \<open>What a voucher is worth\<close>

definition values_nonneg :: "voucher_db \<Rightarrow> bool" where
  "values_nonneg s \<longleftrightarrow> list_all (\<lambda>l. 0 \<le> vl_discount_value l) (vd_listings s)"

lemma channel_listing_nonneg:
  "values_nonneg s \<Longrightarrow> voucher_listing_of s v channel = Some l \<Longrightarrow> 0 \<le> vl_discount_value l"
  by (auto simp: values_nonneg_def voucher_listing_of_def list_all_iff dest: find_SomeD)

lemma lower_price_bounds:
  "prices_law P \<Longrightarrow> 0 \<le> value \<Longrightarrow> 0 \<le> price \<Longrightarrow> 0 \<le> lower_price P t value price \<and> lower_price P t value price \<le> price"
  by (cases t) (simp_all add: lower_price_def prices_lawD)

lemma get_discount_amount_bounds:
  assumes "prices_law P" "values_nonneg s" "0 \<le> price" "get_discount_amount_for P s v price channel = Inr a"
  shows "0 \<le> a \<and> a \<le> price"
proof -
  from assms(4) obtain l where l: "voucher_listing_of s v channel = Some l"
    and a: "a = (let x = lower_price P (vo_discount_value_type v) (vl_discount_value l) price
      in if x < 0 then price else price - x)"
    by (auto simp: get_discount_amount_for_def get_discount_def bindr_eq_Inr Let_def split: option.splits)
  from lower_price_bounds [OF assms(1) channel_listing_nonneg [OF assms(2) l] assms(3)] assms(3) show ?thesis
    by (auto simp: a Let_def)
qed

lemma discount_amounts_bounds:
  assumes "prices_law P" "values_nonneg s"
  shows "list_all (\<lambda>p. 0 \<le> p) ps \<Longrightarrow> discount_amounts P s v channel ps = Inr a \<Longrightarrow> 0 \<le> a \<and> a \<le> sum_list ps"
proof (induction ps arbitrary: a)
  case (Cons p ps)
  then obtain x y where "get_discount_amount_for P s v p channel = Inr x" "discount_amounts P s v channel ps = Inr y"
    "a = x + y" by (auto simp: bindr_eq_Inr)
  with Cons.IH [of y] Cons.prems(1) get_discount_amount_bounds [OF assms, of p v channel x] show ?case by simp
qed simp

text \<open>A voucher on products takes between nothing and the sum of their prices off, and one that
  applies once per order no more than the cheapest price\<close>

theorem products_voucher_discount_bounds:
  assumes "prices_law P" "values_nonneg s" "list_all (\<lambda>p. 0 \<le> p) ps"
    "get_products_voucher_discount P s v ps channel = Inr a"
  shows "0 \<le> a \<and> a \<le> sum_list ps \<and> (vo_apply_once_per_order v \<longrightarrow> a \<le> Min (set ps))"
proof (cases "vo_apply_once_per_order v")
  case True
  with assms(4) have ps: "ps \<noteq> []" and a: "get_discount_amount_for P s v (Min (set ps)) channel = Inr a"
    by (auto simp: get_products_voucher_discount_def split: if_splits)
  from ps have m: "Min (set ps) \<in> set ps" by simp
  with assms(3) have "0 \<le> Min (set ps)" "Min (set ps) \<le> sum_list ps"
    by (auto simp: list_all_iff intro!: member_le_sum_list)
  with get_discount_amount_bounds [OF assms(1,2) _ a] show ?thesis by fastforce
next
  case False
  with assms(4) discount_amounts_bounds [OF assms(1,2,3)] show ?thesis
    by (simp add: get_products_voucher_discount_def)
qed

lemma products_voucher_discount_bounds_witness:
  "get_products_voucher_discount plain_prices voucher_shop winter_voucher [30, 10] 3 = Inr 4 \<and> (0::decimal) \<le> 4 \<and> 4 \<le> (40::decimal)"
proof -
  have "get_products_voucher_discount plain_prices voucher_shop winter_voucher [30, 10] 3 = Inr 4" by code_simp
  then show ?thesis
    using products_voucher_discount_bounds [of plain_prices voucher_shop "[30, 10]" winter_voucher 3 4]
    by (simp add: values_nonneg_def voucher_shop_def)
qed

text \<open>A voucher passes validation exactly when it is listed in the channel, the value reaches
  its minimum, the quantity reaches its minimum, no code of it was used by the customer when it
  applies once per customer, and the customer is a staff user when it is for staff only\<close>

theorem validate_voucher_iff:
  "validate_voucher s v total_price quantity customer_email channel customer = Inr () \<longleftrightarrow>
     (\<exists>l. voucher_listing_of s v channel = Some l
        \<and> (vl_min_spent l = None \<or> vl_min_spent l = Some 0 \<or> the (vl_min_spent l) \<le> total_price))
     \<and> (vo_min_checkout_items_quantity v = None \<or> vo_min_checkout_items_quantity v = Some 0
        \<or> the (vo_min_checkout_items_quantity v) \<le> quantity)
     \<and> \<not> (vo_apply_once_per_customer v \<and> (\<exists>u \<in> set (vd_customers s).
          vu_voucher_code u \<in> vc_pk ` set (codes_of v s) \<and> vu_customer_email u = customer_email))
     \<and> \<not> (vo_only_for_staff v \<and> (customer = None \<or> \<not> user_is_staff (the customer)))"
proof -
  have spent: "validate_min_spent s v total_price channel = Inr () \<longleftrightarrow> (\<exists>l. voucher_listing_of s v channel = Some l
      \<and> (vl_min_spent l = None \<or> vl_min_spent l = Some 0 \<or> the (vl_min_spent l) \<le> total_price))"
    by (auto simp: validate_min_spent_def split: option.splits if_splits)
  have quantity: "validate_min_checkout_items_quantity v quantity = Inr () \<longleftrightarrow> (vo_min_checkout_items_quantity v = None
      \<or> vo_min_checkout_items_quantity v = Some 0 \<or> the (vo_min_checkout_items_quantity v) \<le> quantity)"
    by (auto simp: validate_min_checkout_items_quantity_def split: option.splits if_splits)
  have staff: "validate_only_for_staff v customer = Inr () \<longleftrightarrow>
      \<not> (vo_only_for_staff v \<and> (customer = None \<or> \<not> user_is_staff (the customer)))"
    by (auto simp: validate_only_for_staff_def split: option.splits)
  show ?thesis
    unfolding validate_voucher_def bindr_eq_Inr spent [symmetric] quantity [symmetric] staff [symmetric]
    by (auto simp: validate_once_per_customer_def validate_only_for_staff_def)
qed

lemma validate_voucher_iff_witness:
  "validate_voucher voucher_shop winter_voucher 30 2 ''a@b.pl'' 3 None = Inr ()
   \<and> validate_voucher voucher_shop winter_voucher 30 1 ''a@b.pl'' 3 None \<noteq> Inr ()"
  unfolding validate_voucher_iff by (simp add: voucher_shop_defs voucher_listing_of_def)

subsection \<open>Using a code and releasing it\<close>

lemma save_code_fields [simp]:
  "vd_vouchers (save_code k f s) = vd_vouchers s" "vd_listings (save_code k f s) = vd_listings s"
  "vd_customers (save_code k f s) = vd_customers s" "vd_channels (save_code k f s) = vd_channels s"
  "vd_gift_card_codes (save_code k f s) = vd_gift_card_codes s"
  by (simp_all add: save_code_def)

lemma save_code_twice:
  "(\<And>c. vc_pk (f c) = vc_pk c) \<Longrightarrow> save_code k g (save_code k f s) = save_code k (g \<circ> f) s"
  by (simp add: save_code_def save_row_def)

lemma save_code_same:
  "(\<And>c. c \<in> set (vd_codes s) \<Longrightarrow> vc_pk c = k \<Longrightarrow> f c = c) \<Longrightarrow> save_code k f s = s"
  by (cases s) (simp add: save_code_def save_row_def map_idI)

lemma save_code_customers:
  "save_code k f (s\<lparr>vd_customers := cs\<rparr>) = (save_code k f s)\<lparr>vd_customers := cs\<rparr>"
  by (simp add: save_code_def)

definition used_by :: "nat \<Rightarrow> string \<Rightarrow> voucher_db \<Rightarrow> bool" where
  "used_by k e s \<longleftrightarrow> \<lparr>vu_voucher_code = k, vu_customer_email = e\<rparr> \<in> set (vd_customers s)"

lemma save_code_used_by [simp]: "used_by k e (save_code k' f s) \<longleftrightarrow> used_by k e s"
  by (simp add: used_by_def)

lemma remove_unused_customer: "\<not> used_by k e s \<Longrightarrow> remove_voucher_usage_by_customer k e s = s"
proof -
  assume u: "\<not> used_by k e s"
  then have "filter (\<lambda>u. u \<noteq> \<lparr>vu_voucher_code = k, vu_customer_email = e\<rparr>) (vd_customers s) = vd_customers s"
    by (intro filter_True) (auto simp: used_by_def)
  then show ?thesis unfolding remove_voucher_usage_by_customer_def by simp
qed

lemma remove_added_customer:
  assumes "add_voucher_usage_by_customer k e s = Inr t"
  shows "\<not> used_by k e s" "remove_voucher_usage_by_customer k e t = s"
proof -
  let ?u = "\<lparr>vu_voucher_code = k, vu_customer_email = e\<rparr>"
  from assms have u: "\<not> used_by k e s" and t: "t = s\<lparr>vd_customers := vd_customers s @ [?u]\<rparr>"
    by (auto simp: add_voucher_usage_by_customer_def used_by_def split: if_splits)
  have "remove_voucher_usage_by_customer k e t = remove_voucher_usage_by_customer k e s"
    by (simp add: remove_voucher_usage_by_customer_def t)
  with remove_unused_customer [OF u] show "remove_voucher_usage_by_customer k e t = s" by simp
  show "\<not> used_by k e s" by (rule u)
qed

text \<open>What the operations on a code do to it, without its customers.\<close>

definition counted :: "voucher \<Rightarrow> nat \<Rightarrow> voucher_db \<Rightarrow> voucher_db" where
  "counted v k = save_code k (\<lambda>c. c\<lparr>vc_used := vc_used c + (if has_limit v then 1 else 0),
     vc_is_active := vc_is_active c \<and> \<not> vo_single_use v\<rparr>)"

lemma save_code_eqI:
  "(\<And>c. c \<in> set (vd_codes s) \<Longrightarrow> vc_pk c = k \<Longrightarrow> f c = g c) \<Longrightarrow> save_code k f s = save_code k g s"
  by (simp add: save_code_def save_row_def)

lemma increase_voucher_usage_result:
  assumes "increase_voucher_usage v k e b s = Inr t"
  obtains u where "t = counted v k u"
    "if vo_apply_once_per_customer v \<and> b then add_voucher_usage_by_customer k e s = Inr u else u = s"
proof -
  define x where "x = (if has_limit v then increase_voucher_code_usage_value k s else s)"
  define y where "y = (if vo_apply_once_per_customer v \<and> b
    then vd_customers s @ [\<lparr>vu_voucher_code = k, vu_customer_email = e\<rparr>] else vd_customers s)"
  define u where "u = s\<lparr>vd_customers := y\<rparr>"
  have x: "vd_customers x = vd_customers s" by (simp add: x_def increase_voucher_code_usage_value_def)
  from assms have fresh: "vo_apply_once_per_customer v \<and> b \<Longrightarrow> \<not> used_by k e s"
    and t: "t = (if vo_single_use v then deactivate_voucher_code k (x\<lparr>vd_customers := y\<rparr>) else x\<lparr>vd_customers := y\<rparr>)"
    by (auto simp: increase_voucher_usage_def x_def [symmetric] bindr_eq_Inr add_voucher_usage_by_customer_def
        used_by_def x y_def simp flip: x split: if_splits)
  have "x\<lparr>vd_customers := y\<rparr> = save_code k (\<lambda>c. c\<lparr>vc_used := vc_used c + (if has_limit v then 1 else 0)\<rparr>) u"
    by (auto simp: x_def u_def increase_voucher_code_usage_value_def save_code_customers [symmetric] save_code_same)
  then have "t = counted v k u"
    by (auto simp: t counted_def deactivate_voucher_code_def save_code_twice intro!: save_code_eqI)
  moreover from fresh have "if vo_apply_once_per_customer v \<and> b then add_voucher_usage_by_customer k e s = Inr u else u = s"
    by (auto simp: u_def y_def add_voucher_usage_by_customer_def used_by_def)
  ultimately show ?thesis by (rule that)
qed

definition code_ready :: "nat \<Rightarrow> voucher_db \<Rightarrow> bool" where
  "code_ready k s \<longleftrightarrow> list_all (\<lambda>c. vc_pk c = k \<longrightarrow> 0 \<le> vc_used c \<and> vc_is_active c) (vd_codes s)"

lemma decrease_accepted:
  "list_all (\<lambda>c. vc_pk c = k \<longrightarrow> 0 \<le> vc_used c) (vd_codes (save_code k (\<lambda>c. c\<lparr>vc_used := vc_used c - 1\<rparr>) s))
   \<Longrightarrow> decrease_voucher_code_usage_value k s = Inr (save_code k (\<lambda>c. c\<lparr>vc_used := vc_used c - 1\<rparr>) s)"
  by (auto simp: decrease_voucher_code_usage_value_def Let_def list_all_iff)

lemma uncount:
  assumes "code_ready k u"
  shows "bindr (if has_limit v then decrease_voucher_code_usage_value k (counted v k u) else Inr (counted v k u))
    (\<lambda>s. Inr (if vo_single_use v then activate_voucher_code k s else s)) = Inr u"
proof -
  let ?d = "if has_limit v then save_code k (\<lambda>c. c\<lparr>vc_used := vc_used c - 1\<rparr>) (counted v k u) else counted v k u"
  let ?u = "save_code k (\<lambda>c. c\<lparr>vc_used := vc_used c - 1\<rparr>) (counted v k u)"
  have "list_all (\<lambda>c. vc_pk c = k \<longrightarrow> 0 \<le> vc_used c) (vd_codes ?u)" if "has_limit v"
    using assms that unfolding code_ready_def counted_def save_code_def save_row_def
    by (simp add: list.pred_map o_def) (erule list.pred_mono_strong, simp)
  then have "decrease_voucher_code_usage_value k (counted v k u) = Inr ?d" if "has_limit v"
    using that decrease_accepted [of k "counted v k u"] by simp
  then have d: "(if has_limit v then decrease_voucher_code_usage_value k (counted v k u) else Inr (counted v k u)) = Inr ?d"
    by simp
  have "(if vo_single_use v then activate_voucher_code k ?d else ?d) = u"
    using assms by (auto simp: counted_def activate_voucher_code_def save_code_twice code_ready_def list_all_iff
        intro!: save_code_same)
  then show ?thesis unfolding d by simp
qed

lemma code_ready_customers: "vd_codes t = vd_codes s \<Longrightarrow> code_ready k t = code_ready k s"
  by (simp add: code_ready_def)

text \<open>
  C32: releasing an active code that was just used by a customer who had not used it before
  gives back the database as it was: the count, the active flag and the customers
\<close>

theorem release_undoes_increase:
  assumes inc: "increase_voucher_usage v k e b s = Inr t" and ready: "code_ready k s" and fresh: "\<not> used_by k e s"
    and e: "e \<noteq> []"
  shows "release_voucher_code_usage (Some k) (Some v) (Some e) t = Inr s"
proof -
  from inc obtain u where t: "t = counted v k u"
    and u: "if vo_apply_once_per_customer v \<and> b then add_voucher_usage_by_customer k e s = Inr u else u = s"
    by (rule increase_voucher_usage_result)
  from u have "vd_codes u = vd_codes s"
    by (auto simp: add_voucher_usage_by_customer_def split: if_splits)
  with ready have ready: "code_ready k u" by (simp add: code_ready_customers [of u s])
  have "remove_voucher_usage_by_customer k e u = s"
  proof (cases "vo_apply_once_per_customer v \<and> b")
    case True
    with u show ?thesis by (intro remove_added_customer(2)) simp
  next
    case False
    with u have "u = s" by simp
    with remove_unused_customer [OF fresh] show ?thesis by simp
  qed
  moreover have "release_voucher_code_usage (Some k) (Some v) (Some e) t =
      bindr (bindr (if has_limit v then decrease_voucher_code_usage_value k t else Inr t)
        (\<lambda>s. Inr (if vo_single_use v then activate_voucher_code k s else s)))
        (\<lambda>s. Inr (remove_voucher_usage_by_customer k e s))"
    using e by (simp add: release_voucher_code_usage_def bindr_def Let_def split: sum.splits)
  ultimately show ?thesis unfolding t uncount [OF ready] by simp
qed

lemma release_undoes_increase_witness:
  "(case increase_voucher_usage winter_voucher 7 ''a@b.pl'' True voucher_shop of Inl _ \<Rightarrow> False
    | Inr t \<Rightarrow> t \<noteq> voucher_shop \<and> release_voucher_code_usage (Some 7) (Some winter_voucher) (Some ''a@b.pl'') t = Inr voucher_shop)"
proof -
  obtain t where t: "increase_voucher_usage winter_voucher 7 ''a@b.pl'' True voucher_shop = Inr t" "t \<noteq> voucher_shop"
  proof -
    have "case increase_voucher_usage winter_voucher 7 ''a@b.pl'' True voucher_shop of Inl _ \<Rightarrow> False
      | Inr t \<Rightarrow> vd_customers t \<noteq> []" by code_simp
    then show ?thesis by (auto intro: that simp: voucher_shop_def split: sum.splits)
  qed
  moreover have "release_voucher_code_usage (Some 7) (Some winter_voucher) (Some ''a@b.pl'') t = Inr voucher_shop"
    by (rule release_undoes_increase [OF t(1)]) (simp_all add: code_ready_def used_by_def voucher_shop_defs)
  ultimately show ?thesis by simp
qed

subsection \<open>The limit of a voucher\<close>

definition limits_kept :: "voucher_db \<Rightarrow> bool" where
  "limits_kept s \<longleftrightarrow> list_all (\<lambda>v. case vo_usage_limit v of None \<Rightarrow> True
     | Some limit \<Rightarrow> list_all (\<lambda>c. vc_used c \<le> limit) (codes_of v s)) (vd_vouchers s)"

definition one_code_each :: "voucher_db \<Rightarrow> bool" where
  "one_code_each s \<longleftrightarrow> distinct (map vo_pk (vd_vouchers s)) \<and> distinct (map vc_pk (vd_codes s))
     \<and> distinct (map vc_voucher (vd_codes s))"

text \<open>Orders placed one after the other, each in its transaction: one that fails leaves nothing.\<close>

definition process_order ::
    "(voucher_code list \<Rightarrow> voucher_code) \<Rightarrow> datetime \<times> string option \<times> string \<times> string \<Rightarrow> voucher_db \<Rightarrow> voucher_db" where
  "process_order any_row order s = (case order of (now, code, slug, customer_email) \<Rightarrow>
     (case process_voucher_data_for_order any_row now code slug customer_email s of Inl _ \<Rightarrow> s | Inr (_, t) \<Rightarrow> t))"

lemma limits_keptD:
  "limits_kept s \<Longrightarrow> v \<in> set (vd_vouchers s) \<Longrightarrow> vo_usage_limit v = Some limit \<Longrightarrow> c \<in> set (vd_codes s)
   \<Longrightarrow> vc_voucher c = vo_pk v \<Longrightarrow> vc_used c \<le> limit"
  by (fastforce simp: limits_kept_def list_all_iff codes_of_def)

lemma limits_keptI:
  "(\<And>v limit c. v \<in> set (vd_vouchers s) \<Longrightarrow> vo_usage_limit v = Some limit \<Longrightarrow> c \<in> set (vd_codes s)
     \<Longrightarrow> vc_voucher c = vo_pk v \<Longrightarrow> vc_used c \<le> limit) \<Longrightarrow> limits_kept s"
  by (auto simp: limits_kept_def list_all_iff codes_of_def split: option.splits)

lemma save_code_keeps_one_each:
  assumes "\<And>c. vc_pk (f c) = vc_pk c" "\<And>c. vc_voucher (f c) = vc_voucher c"
  shows "one_code_each (save_code k f s) \<longleftrightarrow> one_code_each s"
proof -
  have "map vc_pk (save_row vc_pk k f (vd_codes s)) = map vc_pk (vd_codes s)"
    "map vc_voucher (save_row vc_pk k f (vd_codes s)) = map vc_voucher (vd_codes s)"
    using assms by (simp_all add: save_row_def)
  then show ?thesis unfolding one_code_each_def save_code_def by simp
qed

lemma in_save_code:
  "c \<in> set (vd_codes (save_code k f s)) \<Longrightarrow> (c \<in> set (vd_codes s) \<and> vc_pk c \<noteq> k \<Longrightarrow> Q)
   \<Longrightarrow> (\<And>x. x \<in> set (vd_codes s) \<Longrightarrow> vc_pk x = k \<Longrightarrow> c = f x \<Longrightarrow> Q) \<Longrightarrow> Q"
  unfolding save_code_def save_row_def by (auto split: if_splits)

lemma counted_keeps_limits:
  assumes kept: "limits_kept s" and one: "one_code_each s" and v: "v \<in> set (vd_vouchers s)"
    and c: "c \<in> set (vd_codes s)" "vc_voucher c = vo_pk v"
    and room: "\<And>limit. vo_usage_limit v = Some limit \<Longrightarrow> vc_used c < limit"
  shows "limits_kept (counted v (vc_pk c) s)"
proof (rule limits_keptI)
  fix w limit d
  assume w: "w \<in> set (vd_vouchers (counted v (vc_pk c) s))" "vo_usage_limit w = Some limit"
    and d: "d \<in> set (vd_codes (counted v (vc_pk c) s))" "vc_voucher d = vo_pk w"
  from w(1) have w': "w \<in> set (vd_vouchers s)" by (simp add: counted_def)
  from d(1) show "vc_used d \<le> limit" unfolding counted_def
  proof (rule in_save_code)
    assume "d \<in> set (vd_codes s) \<and> vc_pk d \<noteq> vc_pk c"
    then show ?thesis using limits_keptD [OF kept w' w(2) _ d(2)] by simp
  next
    fix x assume x: "x \<in> set (vd_codes s)" "vc_pk x = vc_pk c"
      and dx: "d = x\<lparr>vc_used := vc_used x + (if has_limit v then 1 else 0), vc_is_active := vc_is_active x \<and> \<not> vo_single_use v\<rparr>"
    from one have "inj_on vc_pk (set (vd_codes s))" "inj_on vo_pk (set (vd_vouchers s))"
      by (simp_all add: one_code_each_def distinct_map)
    with x c(1) have xc: "x = c" by (meson inj_onD)
    with d(2) dx c(2) have "vo_pk w = vo_pk v" by simp
    with \<open>inj_on vo_pk _\<close> w' v have wv: "w = v" by (meson inj_onD)
    with room w(2) have "vc_used c < limit" by simp
    then show ?thesis by (simp add: dx xc)
  qed
qed

lemma codes_of_one:
  assumes "one_code_each s" "c \<in> set (vd_codes s)" "vc_voucher c = vo_pk v"
  shows "codes_of v s = [c]"
proof -
  have "filter (\<lambda>x. f x = f c) xs = [c]" if "distinct (map f xs)" "c \<in> set xs" for f :: "voucher_code \<Rightarrow> nat" and xs
    using that by (induction xs) (auto simp: filter_empty_conv image_iff dest: sym)
  from this [of vc_voucher "vd_codes s"] assms show ?thesis by (simp add: codes_of_def one_code_each_def)
qed

lemma process_voucher_result:
  assumes "process_voucher_data_for_order any_row now code slug e s = Inr (r, t)"
  shows "t = s \<or> (\<exists>v c u. v \<in> set (vd_vouchers s) \<and> active_in_channel any_row now slug s v \<and> c \<in> set (vd_codes s)
    \<and> vc_voucher c = vo_pk v \<and> t = counted v (vc_pk c) u \<and> vd_vouchers u = vd_vouchers s \<and> vd_codes u = vd_codes s)"
proof (cases "get_voucher_for_checkout any_row now code slug s")
  case None
  with assms show ?thesis by (auto simp: process_voucher_data_for_order_def split: if_splits)
next
  case (Some vc)
  then obtain v c where vc: "vc = (v, c)" by (cases vc)
  with assms Some have inc: "increase_voucher_usage v (vc_pk c) e True s = Inr t"
    by (auto simp: process_voucher_data_for_order_def bindr_eq_Inr)
  from Some vc have "v \<in> set (vd_vouchers s)" "active_in_channel any_row now slug s v" "c \<in> set (vd_codes s)" "vc_voucher c = vo_pk v"
    by (auto simp: get_voucher_for_checkout_def dest!: find_SomeD split: option.splits)
  moreover from inc obtain u where "t = counted v (vc_pk c) u"
    "if vo_apply_once_per_customer v \<and> True then add_voucher_usage_by_customer (vc_pk c) e s = Inr u else u = s"
    by (rule increase_voucher_usage_result)
  moreover from this(2) have "vd_vouchers u = vd_vouchers s" "vd_codes u = vd_codes s"
    by (auto simp: add_voucher_usage_by_customer_def split: if_splits)
  ultimately show ?thesis by blast
qed

lemma active_has_room:
  assumes "active_in_channel any_row now slug s v" "vo_usage_limit v = Some limit" "codes_of v s = [c]" "any_row [c] = c"
  shows "vc_used c < limit"
  using assms by (simp add: active_in_channel_def active_voucher_def total_used_def)

lemma same_codes_limits:
  "vd_vouchers u = vd_vouchers s \<Longrightarrow> vd_codes u = vd_codes s \<Longrightarrow> limits_kept u = limits_kept s \<and> one_code_each u = one_code_each s"
proof -
  assume same: "vd_vouchers u = vd_vouchers s" "vd_codes u = vd_codes s"
  then have "codes_of v u = codes_of v s" for v by (simp add: codes_of_def)
  with same show ?thesis by (simp add: limits_kept_def one_code_each_def cong: option.case_cong)
qed

lemma process_order_keeps:
  assumes row: "\<And>cs. cs \<noteq> [] \<Longrightarrow> any_row cs \<in> set cs" and ok: "limits_kept s" "one_code_each s"
  shows "limits_kept (process_order any_row order s) \<and> one_code_each (process_order any_row order s)"
proof -
  obtain now code slug e where order: "order = (now, code, slug, e)" by (rule prod_cases4)
  show ?thesis
  proof (cases "process_voucher_data_for_order any_row now code slug e s")
    case (Inl _)
    with ok show ?thesis by (simp add: process_order_def order)
  next
    case (Inr rt)
    obtain r t where rt: "rt = (r, t)" by (cases rt)
    have t: "process_order any_row order s = t" by (simp only: process_order_def order Inr rt prod.case sum.case)
    from process_voucher_result [OF Inr [unfolded rt]] show ?thesis unfolding t
    proof (elim disjE exE conjE)
      assume "t = s"
      with ok show "limits_kept t \<and> one_code_each t" by simp
    next
      fix v c u
      assume v: "v \<in> set (vd_vouchers s)" and active: "active_in_channel any_row now slug s v"
        and c: "c \<in> set (vd_codes s)" "vc_voucher c = vo_pk v" and tu: "t = counted v (vc_pk c) u"
        and u: "vd_vouchers u = vd_vouchers s" "vd_codes u = vd_codes s"
      from codes_of_one [OF ok(2) c] have cs: "codes_of v s = [c]" .
      from row [of "[c]"] have any: "any_row [c] = c" by simp
      from same_codes_limits [OF u] ok have oku: "limits_kept u" "one_code_each u" by simp_all
      have "limits_kept t" unfolding tu
        by (rule counted_keeps_limits [OF oku]) (use v c u active_has_room [OF active _ cs any] in simp_all)
      moreover have "one_code_each t" unfolding tu counted_def
        using oku(2) by (subst save_code_keeps_one_each) simp_all
      ultimately show "limits_kept t \<and> one_code_each t" ..
    qed
  qed
qed

text \<open>
  C7: when every voucher has one code, no sequence of placed orders brings the uses of a code
  above the limit of its voucher
\<close>

theorem single_code_limit_kept:
  assumes "\<And>cs. cs \<noteq> [] \<Longrightarrow> any_row cs \<in> set cs" "limits_kept s" "one_code_each s"
  shows "limits_kept (fold (process_order any_row) orders s)"
proof -
  have "limits_kept (fold (process_order any_row) orders s) \<and> one_code_each (fold (process_order any_row) orders s)"
    using assms(2,3) by (induction orders arbitrary: s) (simp_all add: process_order_keeps [OF assms(1)])
  then show ?thesis ..
qed

definition one_code_shop :: voucher_db where
  "one_code_shop = voucher_shop\<lparr>vd_codes := [winter_code]\<rparr>"

definition winter_order :: "string \<Rightarrow> datetime \<times> string option \<times> string \<times> string" where
  "winter_order customer_email = ((2024, 5, 1, 0), Some ''WINTER'', ''pl'', customer_email)"

lemma single_code_limit_kept_witness:
  "limits_kept (fold (process_order hd) [winter_order ''a'', winter_order ''b'', winter_order ''c''] one_code_shop)
   \<and> map vc_used (vd_codes (fold (process_order hd) [winter_order ''a'', winter_order ''b'', winter_order ''c''] one_code_shop)) = [2]"
proof
  show "limits_kept (fold (process_order hd) [winter_order ''a'', winter_order ''b'', winter_order ''c''] one_code_shop)"
    by (rule single_code_limit_kept) (simp_all add: one_code_shop_def limits_kept_def one_code_each_def codes_of_def
        voucher_shop_defs)
  show "map vc_used (vd_codes (fold (process_order hd) [winter_order ''a'', winter_order ''b'', winter_order ''c''] one_code_shop)) = [2]"
    by code_simp
qed

text \<open>When a voucher has two codes, the uses of one code can pass the limit while the database
  compares the limit with the uses of the other\<close>

theorem code_of_two_used_beyond_limit:
  "limits_kept voucher_shop
   \<and> \<not> limits_kept (fold (process_order last) [winter_order ''a'', winter_order ''b''] voucher_shop)"
  by code_simp

subsection \<open>Giving uses back in batches\<close>

definition give_back :: "voucher_db \<Rightarrow> voucher_code \<Rightarrow> voucher_code" where
  "give_back s c = (case row_of vo_pk (vc_voucher c) (vd_vouchers s) of
     None \<Rightarrow> c
   | Some v \<Rightarrow> c\<lparr>vc_used := (if has_limit v \<and> vc_used c > 0 then vc_used c - 1 else vc_used c),
                 vc_is_active := vo_single_use v \<or> vc_is_active c\<rparr>)"

lemma give_back_pk [simp]: "vc_pk (give_back s c) = vc_pk c"
  by (simp add: give_back_def split: option.splits)

lemma decrease_batch_map:
  "decrease_batch ids s = s\<lparr>vd_codes := map (\<lambda>c. if vc_pk c \<in> set ids then give_back s c else c) (vd_codes s)\<rparr>"
  by (simp add: decrease_batch_def give_back_def)

lemma decrease_batch_fields [simp]:
  "vd_vouchers (decrease_batch ids s) = vd_vouchers s" "vc_pk ` set (vd_codes (decrease_batch ids s)) = vc_pk ` set (vd_codes s)"
proof -
  have "map vc_pk (vd_codes (decrease_batch ids s)) = map vc_pk (vd_codes s)" by (simp add: decrease_batch_map)
  then show "vc_pk ` set (vd_codes (decrease_batch ids s)) = vc_pk ` set (vd_codes s)" by (metis list.set_map)
qed (simp add: decrease_batch_map)

lemma decrease_batch_append:
  assumes "set xs \<inter> set ys = {}"
  shows "decrease_batch ys (decrease_batch xs s) = decrease_batch (xs @ ys) s"
proof -
  have g: "give_back (decrease_batch xs s) = give_back s" by (simp add: fun_eq_iff give_back_def)
  have "map (\<lambda>c. if vc_pk c \<in> set ys then give_back s c else c)
      (map (\<lambda>c. if vc_pk c \<in> set xs then give_back s c else c) (vd_codes s))
    = map (\<lambda>c. if vc_pk c \<in> set (xs @ ys) then give_back s c else c) (vd_codes s)"
    using assms by auto
  then show ?thesis by (subst decrease_batch_map) (simp only: g, simp add: decrease_batch_map)
qed

text \<open>For distinct ids of existing codes, the task that works on 1000 codes at a time and
  schedules itself for the rest does what one update of all of them would do\<close>

theorem decrease_task_is_one_update:
  assumes "distinct ids" "set ids \<subseteq> vc_pk ` set (vd_codes s)"
  shows "decrease_voucher_codes_usage_task ids s = decrease_batch ids s"
  using assms
proof (induction ids s rule: decrease_voucher_codes_usage_task.induct)
  case (1 ids s)
  let ?now = "take 1000 ids"
  have rest: "filter (\<lambda>i. i \<notin> set ?now) (remdups ids) = drop 1000 ids"
  proof -
    have "filter (\<lambda>i. i \<notin> set ?now) (?now @ drop 1000 ids) = drop 1000 ids"
      using set_take_disj_set_drop_if_distinct [OF 1(2), of 1000 1000] by (auto simp del: append_take_drop_id simp: filter_empty_conv filter_id_conv)
    with 1(2) show ?thesis by (simp add: distinct_remdups_id)
  qed
  show ?case
  proof (cases "filter (\<lambda>c. vc_pk c \<in> set ?now) (vd_codes s) = []")
    case True
    have "ids = []"
    proof (rule ccontr)
      assume "ids \<noteq> []"
      then have i: "hd ids \<in> set ?now" "hd ids \<in> set ids" by (cases ids, simp_all)+
      with 1(3) obtain c where "c \<in> set (vd_codes s)" "vc_pk c = hd ids" by auto
      with True i(1) show False by (auto simp: filter_empty_conv)
    qed
    then show ?thesis by (simp add: decrease_voucher_codes_usage_task.simps [of "[]"] decrease_batch_map)
  next
    case False
    show ?thesis
    proof (cases "drop 1000 ids = []")
      case True
      with False show ?thesis
        unfolding decrease_voucher_codes_usage_task.simps [of ids] Let_def rest by simp
    next
      case more: False
      have "decrease_voucher_codes_usage_task (drop 1000 ids) (decrease_batch ?now s)
          = decrease_batch (drop 1000 ids) (decrease_batch ?now s)"
        using 1(1) [OF refl refl False] 1(2,3) more set_drop_subset [of 1000 ids] unfolding rest by auto
      also have "\<dots> = decrease_batch ids s"
        using set_take_disj_set_drop_if_distinct [OF 1(2), of 1000 1000] by (simp add: decrease_batch_append)
      finally show ?thesis using False more
        unfolding decrease_voucher_codes_usage_task.simps [of ids] Let_def rest by simp
    qed
  qed
qed

lemma decrease_task_is_one_update_witness:
  "decrease_voucher_codes_usage_task [8, 7] voucher_shop = decrease_batch [8, 7] voucher_shop
   \<and> map vc_used (vd_codes (decrease_batch [8, 7] voucher_shop)) = [0, 0]"
proof
  show "decrease_voucher_codes_usage_task [8, 7] voucher_shop = decrease_batch [8, 7] voucher_shop"
    by (rule decrease_task_is_one_update) (simp_all add: voucher_shop_defs)
  show "map vc_used (vd_codes (decrease_batch [8, 7] voucher_shop)) = [0, 0]" by code_simp
qed

text \<open>A batch without a code ends the task, and the ids after it are never looked at.\<close>

lemma decrease_task_stops_at_unknown_batch:
  "vc_pk ` set (vd_codes s) \<inter> set (take 1000 ids) = {} \<Longrightarrow> decrease_voucher_codes_usage_task ids s = s"
  by (subst decrease_voucher_codes_usage_task.simps) (auto simp: Let_def filter_empty_conv)

end
