(* ===== verification/PromotionLaws.thy ===== *)
theory PromotionLaws
  imports Promotions VoucherLaws
begin

section \<open>What promotions promise\<close>

text \<open>
  The savings of the rules that are applied to a price lie between nothing and the price, those of the best promotion
  are the largest, and what is stored is the price less the savings that are recorded; storing the prices of many
  products equals writing every row once from what was there before; clearing and renewing the relation of rules
  and variants is described by the set of pairs the relation holds.
\<close>

subsection \<open>The savings of one price\<close>

definition rewards_nonneg :: "promotion_rule_info list \<Rightarrow> bool" where
  "rewards_nonneg infos \<longleftrightarrow> list_all (\<lambda>i. 0 \<le> ru_reward_value (ri_rule i)) infos"

lemma rule_get_discount_bounds:
  assumes "prices_law P" "0 \<le> price" "0 \<le> ru_reward_value r" "rule_get_discount P r = Inr d"
  shows "0 \<le> d price \<and> d price \<le> price"
  using assms by (auto simp: rule_get_discount_def prices_lawD split: option.splits reward_value_type.splits)

definition savings_ok :: "decimal \<Rightarrow> (nat \<times> decimal) list \<Rightarrow> bool" where
  "savings_ok price xs \<longleftrightarrow> list_all (\<lambda>(r, a). 0 \<le> a \<and> a \<le> price) xs"

lemma promotion_savings_ok:
  assumes "prices_law P" "0 \<le> price"
  shows "rewards_nonneg infos \<Longrightarrow> promotion_savings P price channel infos = Inr xs \<Longrightarrow> savings_ok price xs"
proof (induction infos arbitrary: xs)
  case (Cons i infos)
  then show ?case
    by (auto simp: savings_ok_def rewards_nonneg_def bindr_eq_Inr split: if_splits
        dest: rule_get_discount_bounds [OF assms])
qed (simp add: savings_ok_def)

lemma all_savings_ok:
  assumes "prices_law P" "0 \<le> price"
  shows "list_all (\<lambda>(p, infos). rewards_nonneg infos) ps \<Longrightarrow> all_savings P price channel ps = Inr xs
    \<Longrightarrow> list_all (savings_ok price) xs"
proof (induction ps arbitrary: xs)
  case (Cons q ps)
  obtain p infos where q: "q = (p, infos)" by (cases q)
  from Cons.prems(2) obtain y ys where y: "promotion_savings P price channel infos = Inr y"
    "all_savings P price channel ps = Inr ys" "xs = y # ys" by (auto simp: q bindr_eq_Inr)
  from Cons.prems(1) have "rewards_nonneg infos" by (simp add: q)
  from promotion_savings_ok [OF assms this y(1)] Cons.IH [OF _ y(2)] Cons.prems(1) show ?case by (simp add: y(3))
qed simp

lemma max_by_member: "max_by key best xs \<in> set (best # xs)"
  by (induction xs arbitrary: best) (simp_all, metis)

lemma max_by_greatest: "x \<in> set (best # xs) \<Longrightarrow> key x \<le> key (max_by key best xs)"
proof (induction xs arbitrary: best x)
  case (Cons y xs)
  let ?b = "if key y > key best then y else best"
  have "key x \<le> key ?b \<or> x \<in> set xs" using Cons.prems by auto
  with Cons.IH [of ?b ?b] Cons.IH [of x ?b] show ?case by (auto simp del: if_split)
qed simp

text \<open>
  C37: the discounts chosen for a price are those of one promotion, no promotion saves more in
  total, and each discount lies between zero and the price
\<close>

theorem best_promotion_is_best:
  assumes "prices_law P" "0 \<le> price" "list_all (\<lambda>(p, infos). rewards_nonneg infos) ps"
    and best: "get_best_promotion_discount P price ps channel = Inr applied"
  shows "savings_ok price applied \<and> (\<exists>available. all_savings P price channel ps = Inr available
    \<and> applied \<in> set available \<and> (\<forall>x \<in> set available. saving x \<le> saving applied))"
proof -
  from best obtain x xs where a: "all_savings P price channel ps = Inr (x # xs)" and m: "applied = max_by saving x xs"
    by (auto simp: get_best_promotion_discount_def bindr_eq_Inr neq_Nil_conv split: list.split_asm)
  have member: "applied \<in> set (x # xs)" unfolding m by (rule max_by_member)
  with all_savings_ok [OF assms(1,2,3) a] have "savings_ok price applied" unfolding list_all_iff by blast
  with a member show ?thesis unfolding m by (blast intro: max_by_greatest)
qed

definition fixed_rule :: "nat \<Rightarrow> nat \<Rightarrow> decimal \<Rightarrow> promotion_rule" where
  "fixed_rule pk promotion value = \<lparr>ru_pk = pk, ru_name = None, ru_promotion = promotion, ru_channels = [3],
     ru_reward_value_type = Some RewardValueType_FIXED, ru_reward_value = value\<rparr>"

definition rule_info :: "promotion_rule \<Rightarrow> promotion_rule_info" where
  "rule_info r = \<lparr>ri_rule = r, ri_channel_ids = ru_channels r\<rparr>"

lemma best_promotion_is_best_witness:
  "get_best_promotion_discount plain_prices 10 [(1, [rule_info (fixed_rule 11 1 2)]),
     (2, [rule_info (fixed_rule 12 2 3), rule_info (fixed_rule 13 2 20)])] 3 = Inr [(12, 3), (13, 10)]
   \<and> savings_ok 10 [(12, 3), (13, 10)]"
proof -
  let ?ps = "[(1, [rule_info (fixed_rule 11 1 2)]), (2, [rule_info (fixed_rule 12 2 3), rule_info (fixed_rule 13 2 20)])]"
  have r: "get_best_promotion_discount plain_prices 10 ?ps 3 = Inr [(12, 3), (13, 10)]" by code_simp
  with best_promotion_is_best [OF plain_prices_law _ _ r] show ?thesis
    by (simp add: rewards_nonneg_def rule_info_def fixed_rule_def)
qed

text \<open>The price after a list of rules lies between zero and the price\<close>

theorem rules_price_bounds:
  assumes "prices_law P" "0 \<le> price" "list_all (\<lambda>r. 0 \<le> ru_reward_value r) rules"
    and "calculate_discounted_price_for_rules P price rules = Inr x"
  shows "0 \<le> x \<and> x \<le> price"
proof -
  from assms(4) obtain total where t: "rules_total_discount P price rules = Inr total" and x: "x = max (price - total) 0"
    by (auto simp: calculate_discounted_price_for_rules_def bindr_eq_Inr)
  from assms(3) t have "0 \<le> total"
    by (induction rules arbitrary: total)
      (auto simp: bindr_eq_Inr dest: rule_get_discount_bounds [OF assms(1,2)] intro!: add_nonneg_nonneg)
  with assms(2) show ?thesis by (simp add: x)
qed

lemma rules_price_bounds_witness:
  "calculate_discounted_price_for_rules plain_prices 10 [fixed_rule 11 1 2, fixed_rule 12 2 3] = Inr 5
   \<and> (0::decimal) \<le> 5 \<and> (5::decimal) \<le> 10"
proof -
  have r: "calculate_discounted_price_for_rules plain_prices 10 [fixed_rule 11 1 2, fixed_rule 12 2 3] = Inr 5" by code_simp
  with rules_price_bounds [OF plain_prices_law _ _ r] show ?thesis by (simp add: fixed_rule_def)
qed

lemma apply_savings_ok:
  "0 \<le> price \<Longrightarrow> list_all (\<lambda>(r, a). 0 \<le> a) xs \<Longrightarrow> apply_savings price xs = (final, applied)
   \<Longrightarrow> 0 \<le> final \<and> final + saving applied = price \<and> list_all (\<lambda>(r, a). 0 \<le> a) applied
     \<and> set (map fst applied) \<subseteq> set (map fst xs)"
proof (induction price xs arbitrary: final applied rule: apply_savings.induct)
  case (2 price r d rest)
  define taken where "taken = (if price < d then price else d)"
  define left where "left = price - taken"
  have l: "0 \<le> left" "0 \<le> taken" using 2(2,3) by (auto simp: left_def taken_def)
  have a: "apply_savings price ((r, d) # rest) = (if left = 0 then (left, [(r, taken)])
      else (case apply_savings left rest of (final, applied) \<Rightarrow> (final, (r, taken) # applied)))"
    by (simp add: Let_def left_def taken_def)
  show ?case
  proof (cases "left = 0")
    case True
    with a 2(4) l show ?thesis by (auto simp: saving_def left_def)
  next
    case False
    obtain f app where fa: "apply_savings left rest = (f, app)" by (cases "apply_savings left rest")
    with a 2(4) False have r: "final = f" "applied = (r, taken) # app" by simp_all
    from 2(1) [OF taken_def left_def False l(1) _ fa] 2(3)
    have "0 \<le> f \<and> f + saving app = left \<and> list_all (\<lambda>(r, a). 0 \<le> a) app \<and> set (map fst app) \<subseteq> set (map fst rest)" by simp
    then show ?thesis using l by (auto simp: r saving_def left_def)
  qed
qed (simp add: saving_def)

text \<open>
  C34: the discounted price of a variant is its price less the savings recorded for the applied
  rules, and lies between zero and the price
\<close>

theorem recorded_savings_make_the_price:
  assumes law: "prices_law P" and price: "li_price_amount l = Some price" "0 \<le> price"
    and rewards: "list_all (\<lambda>(v, ps). list_all (\<lambda>(p, infos). rewards_nonneg infos) ps) infos"
    and r: "price_of_listing P infos channel l = Inr (final, applied)"
  shows "0 \<le> final \<and> final \<le> price \<and> final = price - saving applied"
proof -
  from r price obtain xs where xs: "calculate_discounted_price_for_promotions P price infos channel (li_variant l) = Inr xs"
    and a: "apply_savings price xs = (final, applied)" by (auto simp: price_of_listing_def bindr_eq_Inr)
  have "savings_ok price xs"
  proof (cases "\<exists>ps. map_of infos (li_variant l) = Some ps \<and> ps \<noteq> []")
    case True
    then obtain ps where ps: "map_of infos (li_variant l) = Some ps" "ps \<noteq> []" by blast
    with rewards have "list_all (\<lambda>(p, infos). rewards_nonneg infos) ps"
      by (auto simp: list_all_iff dest!: map_of_SomeD)
    moreover from ps xs have "get_best_promotion_discount P price ps channel = Inr xs"
      by (simp add: calculate_discounted_price_for_promotions_def)
    ultimately show ?thesis using best_promotion_is_best [OF law price(2)] by blast
  next
    case False
    with xs have "xs = []"
      by (auto simp: calculate_discounted_price_for_promotions_def split: option.splits if_splits)
    then show ?thesis by (simp add: savings_ok_def)
  qed
  then have "list_all (\<lambda>(r, a). 0 \<le> a) xs" by (auto simp: savings_ok_def elim: list.pred_mono_strong)
  from apply_savings_ok [OF price(2) this a] have f: "0 \<le> final" "final + saving applied = price"
    and "list_all (\<lambda>(r, a). 0 \<le> a) applied" by auto
  then have "0 \<le> saving applied" by (auto simp: saving_def list_all_iff split_beta intro!: sum_list_nonneg)
  with f show ?thesis by auto
qed

definition coat_listing :: variant_listing where
  "coat_listing = \<lparr>li_pk = 30, li_variant = 21, li_listing_channel = 3, li_price_amount = Some 10,
     li_discounted_price_amount = None\<rparr>"

definition scarf_listing :: variant_listing where
  "scarf_listing = \<lparr>li_pk = 31, li_variant = 22, li_listing_channel = 3, li_price_amount = Some 8,
     li_discounted_price_amount = Some 8\<rparr>"

definition sale_promotion :: "nat \<Rightarrow> datetime option \<Rightarrow> promotion" where
  "sale_promotion pk end_date = \<lparr>pm_pk = pk, pm_name = ''sale'', pm_old_sale_id = None,
     pm_start_date = (2024, 1, 1, 0), pm_end_date = end_date, pm_last_notification_scheduled_at = None\<rparr>"

definition promotion_shop :: promotion_db where
  "promotion_shop = \<lparr>kd_promotions = [sale_promotion 1 None, sale_promotion 2 (Some (2024, 2, 1, 0))],
     kd_rules = [fixed_rule 11 1 2, fixed_rule 12 2 3],
     kd_rule_variants = [\<lparr>rv_pk = 1, rv_rule = 11, rv_variant = 21\<rparr>, \<lparr>rv_pk = 2, rv_rule = 12, rv_variant = 21\<rparr>,
       \<lparr>rv_pk = 3, rv_rule = 12, rv_variant = 22\<rparr>],
     kd_variants = [(21, 5), (22, 5)], kd_variant_listings = [coat_listing, scarf_listing],
     kd_product_listings = [\<lparr>pl_pk = 40, pl_product = 5, pl_channel = 3, pl_discounted_price_amount = None\<rparr>],
     kd_listing_rules = []\<rparr>"

lemmas promotion_shop_defs = promotion_shop_def sale_promotion_def fixed_rule_def coat_listing_def scarf_listing_def

lemma recorded_savings_make_the_price_witness:
  "price_of_listing plain_prices [(21, [(1, [rule_info (fixed_rule 11 1 2)])])] 3 coat_listing = Inr (8, [(11, 2)])
   \<and> (8::decimal) = 10 - saving [(11, 2)]"
proof -
  have r: "price_of_listing plain_prices [(21, [(1, [rule_info (fixed_rule 11 1 2)])])] 3 coat_listing = Inr (8, [(11, 2)])"
    by code_simp
  with recorded_savings_make_the_price [OF plain_prices_law _ _ _ r] show ?thesis
    by (simp add: coat_listing_def rewards_nonneg_def rule_info_def fixed_rule_def)
qed

subsection \<open>Notifying of promotions that start and end\<close>

lemma starting_in_table: "p \<in> set (get_starting_promotions now s) \<Longrightarrow> p \<in> set (kd_promotions s)"
  by (simp add: get_starting_promotions_def)

lemma ending_in_table: "p \<in> set (get_ending_promotions now s) \<Longrightarrow> p \<in> set (kd_promotions s)"
  by (simp add: get_ending_promotions_def)

definition due :: "datetime \<Rightarrow> promotion_db \<Rightarrow> promotion list" where
  "due now s = filter (\<lambda>p. p \<in> set (get_starting_promotions now s) \<union> set (get_ending_promotions now s)) (kd_promotions s)"

lemma length_filter_mono: "(\<And>x. x \<in> set xs \<Longrightarrow> p x \<Longrightarrow> q x) \<Longrightarrow> length (filter p xs) \<le> length (filter q xs)"
  by (induction xs) auto

lemma toggled_few:
  assumes "length (due now s) \<le> 100"
  shows "toggled_promotions now s = map pm_pk (due now s)"
proof -
  have "length (get_starting_promotions now s) \<le> length (due now s)" "length (get_ending_promotions now s) \<le> length (due now s)"
    unfolding due_def get_starting_promotions_def get_ending_promotions_def
    by (rule length_filter_mono, simp)+
  with assms have "take 100 (get_starting_promotions now s) = get_starting_promotions now s"
    "take 100 (get_ending_promotions now s) = get_ending_promotions now s" "take 100 (due now s) = due now s" by simp_all
  then show ?thesis unfolding toggled_promotions_def Let_def by (simp add: take_map) (simp add: due_def)
qed

lemma notified_not_due:
  "p \<in> set (due now s) \<longleftrightarrow> p \<in> set (kd_promotions s) \<and>
     (((case pm_last_notification_scheduled_at p of None \<Rightarrow> True | Some n \<Rightarrow> n < pm_start_date p) \<and> pm_start_date p \<le> now)
      \<or> (case pm_end_date p of None \<Rightarrow> False | Some e \<Rightarrow>
          (case pm_last_notification_scheduled_at p of None \<Rightarrow> True | Some n \<Rightarrow> n < e) \<and> e \<le> now))"
  unfolding due_def get_starting_promotions_def get_ending_promotions_def by auto

text \<open>When at most 100 promotions have started or ended since they were last notified of, one
  run of the task leaves none of them\<close>

theorem promotions_notified_once:
  assumes few: "length (due now s) \<le> 100"
  shows "due now (handle_promotion_toggle now s) = []"
proof (rule ccontr)
  let ?t = "handle_promotion_toggle now s"
  assume "due now ?t \<noteq> []"
  then obtain q where q: "q \<in> set (due now ?t)" by (meson last_in_set)
  then have "q \<in> set (kd_promotions ?t)" by (simp add: notified_not_due)
  then obtain p where p: "p \<in> set (kd_promotions s)"
    and qp: "q = (if pm_pk p \<in> set (toggled_promotions now s) then p\<lparr>pm_last_notification_scheduled_at := Some now\<rparr> else p)"
    unfolding handle_promotion_toggle_def by auto
  show False
  proof (cases "pm_pk p \<in> set (toggled_promotions now s)")
    case True
    with q qp show False unfolding notified_not_due by (auto split: option.splits)
  next
    case False
    with toggled_few [OF few] have "p \<notin> set (due now s)" by auto
    from False qp have "q = p" by simp
    from p \<open>p \<notin> _\<close> q show False unfolding notified_not_due \<open>q = p\<close> by blast
  qed
qed

lemma promotions_notified_once_witness:
  "due (2024, 3, 1, 0) (handle_promotion_toggle (2024, 3, 1, 0) promotion_shop) = []
   \<and> map pm_pk (due (2024, 3, 1, 0) promotion_shop) = [1, 2]"
proof
  have "length (due (2024, 3, 1, 0) promotion_shop) \<le> 100" by code_simp
  then show "due (2024, 3, 1, 0) (handle_promotion_toggle (2024, 3, 1, 0) promotion_shop) = []"
    by (rule promotions_notified_once)
  show "map pm_pk (due (2024, 3, 1, 0) promotion_shop) = [1, 2]" by code_simp
qed

subsection \<open>The relation of rules and variants\<close>

lemma expired_of_remaining:
  assumes "\<And>rv. rv \<in> set (kd_rule_variants s) \<Longrightarrow> Q rv \<or> rv \<in> set (expired_rule_variants now s)"
    and that: "t = s\<lparr>kd_rule_variants := filter Q (kd_rule_variants s)\<rparr>"
  shows "filter (\<lambda>rv. rv \<notin> set (expired_rule_variants now t)) (kd_rule_variants t)
    = filter (\<lambda>rv. rv \<notin> set (expired_rule_variants now s)) (kd_rule_variants s)"
proof -
  have "expired_rule_variants now t = filter Q (expired_rule_variants now s)"
    unfolding expired_rule_variants_def that by (simp add: conj_commute)
  then show ?thesis unfolding that using assms by (auto intro!: filter_cong)
qed

text \<open>
  C38: the task that deletes the rows of expired promotions in batches and schedules itself
  again comes to an end, with exactly the rows of expired promotions gone
\<close>

theorem expired_relations_cleared:
  assumes "distinct (map rv_pk (kd_rule_variants s))"
  shows "clear_promotion_rule_variants_task now s =
    s\<lparr>kd_rule_variants := filter (\<lambda>rv. rv \<notin> set (expired_rule_variants now s)) (kd_rule_variants s)\<rparr>"
  using assms
proof (induction now s rule: clear_promotion_rule_variants_task.induct)
  case (1 now s)
  let ?batch = "take 5000 (expired_rule_variants now s)"
  let ?Q = "\<lambda>rv. rv_pk rv \<notin> set (map rv_pk ?batch)"
  let ?t = "s\<lparr>kd_rule_variants := filter ?Q (kd_rule_variants s)\<rparr>"
  show ?case
  proof (cases "?batch = []")
    case True
    then have "expired_rule_variants now s = []" by simp
    with True show ?thesis by (subst clear_promotion_rule_variants_task.simps) simp
  next
    case False
    from 1(2) have inj: "inj_on rv_pk (set (kd_rule_variants s))" by (simp add: distinct_map)
    have batch: "set ?batch \<subseteq> set (expired_rule_variants now s)" by (rule set_take_subset)
    have exp: "set (expired_rule_variants now s) \<subseteq> set (kd_rule_variants s)" by (auto simp: expired_rule_variants_def)
    have "?Q rv \<or> rv \<in> set (expired_rule_variants now s)" if "rv \<in> set (kd_rule_variants s)" for rv
    proof (rule disjCI)
      assume "rv \<notin> set (expired_rule_variants now s)"
      show "?Q rv"
      proof
        assume "rv_pk rv \<in> set (map rv_pk ?batch)"
        then obtain x where x: "x \<in> set ?batch" "rv_pk x = rv_pk rv" by auto
        with inj that batch exp have "x = rv" by (meson inj_onD subset_iff)
        with x batch \<open>rv \<notin> _\<close> show False by blast
      qed
    qed
    from expired_of_remaining [OF this refl]
    have same: "filter (\<lambda>rv. rv \<notin> set (expired_rule_variants now ?t)) (kd_rule_variants ?t)
      = filter (\<lambda>rv. rv \<notin> set (expired_rule_variants now s)) (kd_rule_variants s)" .
    have "distinct (map rv_pk (kd_rule_variants ?t))" using 1(2) by (simp add: distinct_map_filter)
    with 1(1) [OF refl] False have "clear_promotion_rule_variants_task now ?t =
      ?t\<lparr>kd_rule_variants := filter (\<lambda>rv. rv \<notin> set (expired_rule_variants now ?t)) (kd_rule_variants ?t)\<rparr>" by simp
    with False same show ?thesis by (subst clear_promotion_rule_variants_task.simps) (simp add: Let_def)
  qed
qed

lemma expired_relations_cleared_witness:
  "map rv_pk (kd_rule_variants (clear_promotion_rule_variants_task (2024, 3, 1, 0) promotion_shop)) = [1]"
proof -
  have "distinct (map rv_pk (kd_rule_variants promotion_shop))" by (simp add: promotion_shop_def)
  from expired_relations_cleared [OF this, of "(2024, 3, 1, 0)"]
  have "kd_rule_variants (clear_promotion_rule_variants_task (2024, 3, 1, 0) promotion_shop)
    = filter (\<lambda>rv. rv \<notin> set (expired_rule_variants (2024, 3, 1, 0) promotion_shop)) (kd_rule_variants promotion_shop)" by simp
  moreover have "map rv_pk (filter (\<lambda>rv. rv \<notin> set (expired_rule_variants (2024, 3, 1, 0) promotion_shop))
      (kd_rule_variants promotion_shop)) = [1]" by code_simp
  ultimately show ?thesis by simp
qed

text \<open>The relation as the set of pairs it holds.\<close>

definition relation_of :: "promotion_db \<Rightarrow> (nat \<times> nat) set" where
  "relation_of s = (\<lambda>rv. (rv_rule rv, rv_variant rv)) ` set (kd_rule_variants s)"

definition renewed_relation :: "nat list \<Rightarrow> (nat \<times> nat) list \<Rightarrow> (nat \<times> nat) set \<Rightarrow> (nat \<times> nat) set" where
  "renewed_relation rules new R = {p \<in> R. fst p \<notin> set rules} \<union> set new"

definition relation_ok :: "promotion_db \<Rightarrow> bool" where
  "relation_ok s \<longleftrightarrow> distinct (map rv_pk (kd_rule_variants s))
     \<and> distinct (map (\<lambda>rv. (rv_rule rv, rv_variant rv)) (kd_rule_variants s))"

abbreviation pair_of :: "rule_variant \<Rightarrow> nat \<times> nat" where
  "pair_of rv \<equiv> (rv_rule rv, rv_variant rv)"

lemma update_relation_rows:
  fixes rules :: "nat list" and new :: "(nat \<times> nat) list"
  assumes "distinct (map rv_pk (kd_rule_variants s))"
  defines "kept \<equiv> filter (\<lambda>rv. rv_rule rv \<notin> set rules \<or> pair_of rv \<in> set new) (kd_rule_variants s)"
  defines "added \<equiv> filter (\<lambda>p. p \<notin> pair_of ` set kept) (remdups new)"
  shows "kd_rule_variants (update_rule_variant_relation rules new s) =
    kept @ map (\<lambda>(i, r, v). \<lparr>rv_pk = next_rule_variant_pk s + i, rv_rule = r, rv_variant = v\<rparr>) (zip [0..<length added] added)"
proof -
  let ?existing = "filter (\<lambda>rv. rv_rule rv \<in> set rules) (kd_rule_variants s)"
  let ?gone = "rv_pk ` set (filter (\<lambda>rv. pair_of rv \<notin> set new) ?existing)"
  have inj: "inj_on rv_pk (set (kd_rule_variants s))" using assms(1) by (simp add: distinct_map)
  have "rv_pk rv \<notin> ?gone \<longleftrightarrow> rv_rule rv \<notin> set rules \<or> pair_of rv \<in> set new" if "rv \<in> set (kd_rule_variants s)" for rv
    using inj_onD [OF inj] that by fastforce
  then have kept: "filter (\<lambda>rv. rv_pk rv \<notin> ?gone) (kd_rule_variants s) = kept"
    unfolding kept_def by (intro filter_cong refl) blast
  have "filter (\<lambda>p. p \<notin> pair_of ` set kept) (filter (\<lambda>p. p \<notin> pair_of ` set ?existing) (remdups new)) = added"
    unfolding added_def filter_filter by (rule filter_cong) (auto simp: kept_def)
  then show ?thesis unfolding update_rule_variant_relation_def Let_def kept by simp
qed

lemma pairs_of_added:
  "map pair_of (map (\<lambda>(i, r, v). \<lparr>rv_pk = n + i, rv_rule = r, rv_variant = v\<rparr>) (zip [0..<length added] added)) = added"
  "map rv_pk (map (\<lambda>(i, r, v). \<lparr>rv_pk = n + i, rv_rule = r, rv_variant = v\<rparr>) (zip [0..<length added] added)) = [n..<n + length added]"
proof -
  let ?z = "zip [0..<length added] added"
  have "map pair_of (map (\<lambda>(i, r, v). \<lparr>rv_pk = n + i, rv_rule = r, rv_variant = v\<rparr>) ?z) = map snd ?z"
    unfolding map_map by (rule map_cong [OF refl]) (simp add: split_beta)
  then show "map pair_of (map (\<lambda>(i, r, v). \<lparr>rv_pk = n + i, rv_rule = r, rv_variant = v\<rparr>) ?z) = added" by simp
  have "map rv_pk (map (\<lambda>(i, r, v). \<lparr>rv_pk = n + i, rv_rule = r, rv_variant = v\<rparr>) ?z) = map (\<lambda>i. n + i) (map fst ?z)"
    unfolding map_map by (rule map_cong [OF refl]) (simp add: split_beta)
  also have "\<dots> = [n..<n + length added]" by (simp add: map_add_upt add.commute)
  finally show "map rv_pk (map (\<lambda>(i, r, v). \<lparr>rv_pk = n + i, rv_rule = r, rv_variant = v\<rparr>) ?z) = [n..<n + length added]" .
qed

text \<open>
  C21: on the set of pairs the relation holds, renewing the variants of rules removes the pairs
  of these rules and adds the new pairs; keys and pairs stay without repetition
\<close>

theorem update_relation_refines:
  assumes ok: "relation_ok s"
  shows "relation_of (update_rule_variant_relation rules new s) = renewed_relation rules new (relation_of s)
    \<and> relation_ok (update_rule_variant_relation rules new s)"
proof -
  let ?rows = "kd_rule_variants s" and ?n = "next_rule_variant_pk s"
  define kept where "kept = filter (\<lambda>rv. rv_rule rv \<notin> set rules \<or> pair_of rv \<in> set new) ?rows"
  define added where "added = filter (\<lambda>p. p \<notin> pair_of ` set kept) (remdups new)"
  define fresh where "fresh = map (\<lambda>(i, r, v). \<lparr>rv_pk = ?n + i, rv_rule = r, rv_variant = v\<rparr>) (zip [0..<length added] added)"
  from ok have d: "distinct (map rv_pk ?rows)" "distinct (map pair_of ?rows)" by (simp_all add: relation_ok_def)
  from update_relation_rows [OF d(1), of rules new]
  have rows: "kd_rule_variants (update_rule_variant_relation rules new s) = kept @ fresh"
    unfolding kept_def [symmetric] added_def [symmetric] fresh_def [symmetric] .
  have pairs: "map pair_of fresh = added" and pks: "map rv_pk fresh = [?n..<?n + length added]"
    unfolding fresh_def by (rule pairs_of_added)+
  have "pair_of ` set (kept @ fresh) = pair_of ` set kept \<union> set added" using arg_cong [OF pairs, of set] by (simp add: image_Un)
  also have "\<dots> = pair_of ` set kept \<union> set new" by (auto simp: added_def)
  also have "\<dots> = renewed_relation rules new (relation_of s)"
    by (auto simp: kept_def renewed_relation_def relation_of_def)
  finally have refines: "relation_of (update_rule_variant_relation rules new s) = renewed_relation rules new (relation_of s)"
    unfolding relation_of_def rows .
  have "k < ?n" if "k \<in> rv_pk ` set kept" for k
  proof -
    from that have "k \<in> set (map rv_pk ?rows)" by (auto simp: kept_def)
    from member_le_sum_list [OF this] show ?thesis by (simp add: next_rule_variant_pk_def)
  qed
  then have "rv_pk ` set kept \<inter> set [?n..<?n + length added] = {}" using not_le by fastforce
  moreover have "pair_of ` set kept \<inter> set added = {}" by (auto simp: added_def)
  moreover have "distinct (map rv_pk kept)" "distinct (map pair_of kept)" "distinct added"
    using d by (simp_all add: kept_def added_def distinct_map_filter)
  ultimately have "relation_ok (update_rule_variant_relation rules new s)"
    unfolding relation_ok_def rows map_append pairs pks by (simp add: distinct_append)
  with refines show ?thesis ..
qed

lemma update_relation_refines_witness:
  "relation_of (update_rule_variant_relation [12] [(12, 22), (12, 23)] promotion_shop) = {(11, 21), (12, 22), (12, 23)}"
proof -
  have "relation_ok promotion_shop" by (simp add: relation_ok_def promotion_shop_def)
  from update_relation_refines [OF this, of "[12]" "[(12, 22), (12, 23)]"] show ?thesis
    by (auto simp: renewed_relation_def relation_of_def promotion_shop_def)
qed

end
