(* ===== verification/StoredPrices.thy ===== *)
theory StoredPrices
  imports PromotionLaws
begin

section \<open>The stored prices are what the promotions give\<close>

text \<open>
  Storing the prices of products visits the listings one after the other and writes what changed. The theorem says
  that it equals writing every row once, from the rows as they were before: the price of a variant is that of its
  own listing, the price of a product the least of its variants' prices.
\<close>

definition price_now :: "prices \<Rightarrow> variant_rules \<Rightarrow> variant_listing \<Rightarrow> decimal" where
  "price_now P infos l = (case price_of_listing P infos (li_listing_channel l) l of Inr (final, applied) \<Rightarrow> final | Inl _ \<Rightarrow> 0)"

definition priced :: "prices \<Rightarrow> variant_rules \<Rightarrow> variant_listing \<Rightarrow> variant_listing" where
  "priced P infos l = l\<lparr>li_discounted_price_amount := Some (price_now P infos l)\<rparr>"

lemma priced_fields [simp]:
  "li_pk (priced P infos l) = li_pk l" "li_variant (priced P infos l) = li_variant l"
  "li_listing_channel (priced P infos l) = li_listing_channel l" "li_price_amount (priced P infos l) = li_price_amount l"
  by (simp_all add: priced_def)

lemma price_of_listing_cong:
  "li_variant l = li_variant m \<Longrightarrow> li_price_amount l = li_price_amount m \<Longrightarrow> price_of_listing P infos channel l = price_of_listing P infos channel m"
  by (simp add: price_of_listing_def)

lemma price_now_priced [simp]: "price_now P infos (priced Q rules l) = price_now P infos l"
  by (simp add: price_now_def price_of_listing_cong [of "priced Q rules l" l])

lemma priced_twice [simp]: "priced P infos (priced P infos l) = priced P infos l"
  by (simp add: priced_def price_now_def price_of_listing_cong [of "l\<lparr>li_discounted_price_amount := d\<rparr>" l for d])

lemma save_row_distinct:
  "distinct (map key rows) \<Longrightarrow> r \<in> set rows \<Longrightarrow> save_row key (key r) f rows = map (\<lambda>x. if x = r then f x else x) rows"
  unfolding save_row_def by (rule map_cong [OF refl]) (auto simp: distinct_map dest: inj_onD)

text \<open>Writing the price of one listing, whether it changed or not.\<close>

lemma write_price:
  assumes "distinct (map li_pk rows)" "l \<in> set rows"
    and final: "final = price_now P infos l"
  shows "(if li_discounted_price_amount l \<noteq> Some final
      then save_row li_pk (li_pk l) (\<lambda>x. x\<lparr>li_discounted_price_amount := Some final\<rparr>) rows else rows)
    = map (\<lambda>x. if li_pk x = li_pk l then priced P infos x else x) rows"
proof -
  have row: "li_pk x = li_pk l \<Longrightarrow> x \<in> set rows \<Longrightarrow> x = l" for x
    using assms(1,2) by (auto simp: distinct_map dest: inj_onD)
  show ?thesis
  proof (cases "li_discounted_price_amount l = Some final")
    case True
    then have "priced P infos l = l" by (simp add: priced_def final)
    with row have "map (\<lambda>x. if li_pk x = li_pk l then priced P infos x else x) rows = rows" by (intro map_idI) metis
    with True show ?thesis by simp
  next
    case False
    have "map (\<lambda>x. if li_pk x = li_pk l then x\<lparr>li_discounted_price_amount := Some final\<rparr> else x) rows
      = map (\<lambda>x. if li_pk x = li_pk l then priced P infos x else x) rows"
      by (rule map_cong [OF refl]) (auto simp: priced_def final dest: row)
    with False show ?thesis by (simp add: save_row_def)
  qed
qed

definition price_rows :: "prices \<Rightarrow> variant_rules \<Rightarrow> nat set \<Rightarrow> variant_listing list \<Rightarrow> variant_listing list" where
  "price_rows P infos ks rows = map (\<lambda>x. if li_pk x \<in> ks then priced P infos x else x) rows"

lemma keys_price_rows [simp]: "map li_pk (price_rows P infos ks rows) = map li_pk rows"
  by (simp add: price_rows_def)

lemma price_rows_twice: "price_rows P infos ks (price_rows P infos ms rows) = price_rows P infos (ms \<union> ks) rows"
  by (simp add: price_rows_def)

lemma discounted_variants_rows:
  assumes "discounted_variants P infos channel ls s = Inr (finals, t)"
    and "list_all (\<lambda>l. li_listing_channel l = channel) ls" "set ls \<subseteq> set (kd_variant_listings s)"
    and "distinct (map li_pk ls)" "distinct (map li_pk (kd_variant_listings s))"
  shows "finals = map (price_now P infos) ls
    \<and> kd_variant_listings t = price_rows P infos (li_pk ` set ls) (kd_variant_listings s)
    \<and> kd_variants t = kd_variants s \<and> kd_product_listings t = kd_product_listings s"
  using assms
proof (induction ls arbitrary: s finals)
  case (Cons l ls)
  obtain final applied where r: "price_of_listing P infos channel l = Inr (final, applied)"
    using Cons.prems(1) by (auto simp: bindr_eq_Inr)
  define u where "u = (let changed = (li_discounted_price_amount l \<noteq> Some final);
     rows = (if changed then filter (\<lambda>r. lr_listing r \<noteq> li_pk l \<or> lr_rule r \<in> fst ` set applied) (kd_listing_rules s)
             else kd_listing_rules s)
     in s\<lparr>kd_listing_rules := fold (write_listing_rule (li_pk l)) applied rows,
          kd_variant_listings := (if changed then save_row li_pk (li_pk l)
            (\<lambda>x. x\<lparr>li_discounted_price_amount := Some final\<rparr>) (kd_variant_listings s) else kd_variant_listings s)\<rparr>)"
  from Cons.prems(1) r obtain fs where rest: "discounted_variants P infos channel ls u = Inr (fs, t)" and f: "finals = final # fs"
    by (auto simp: bindr_eq_Inr Let_def u_def)
  have final: "final = price_now P infos l" using r Cons.prems(2) by (simp add: price_now_def)
  have l: "l \<in> set (kd_variant_listings s)" using Cons.prems(3) by simp
  have u: "kd_variant_listings u = price_rows P infos {li_pk l} (kd_variant_listings s)"
    "kd_variants u = kd_variants s" "kd_product_listings u = kd_product_listings s"
    using write_price [OF Cons.prems(5) l final] by (simp_all add: u_def Let_def price_rows_def)
  have sub: "set ls \<subseteq> set (kd_variant_listings u)"
  proof
    fix x assume x: "x \<in> set ls"
    with Cons.prems(3) have "x \<in> set (kd_variant_listings s)" by auto
    moreover from x Cons.prems(4) have "li_pk x \<noteq> li_pk l" using imageI [OF x, of li_pk] by (metis distinct.simps(2) list.map(2) list.set_map)
    ultimately show "x \<in> set (kd_variant_listings u)" by (force simp: u price_rows_def)
  qed
  from Cons.prems(2,4) have "list_all (\<lambda>l. li_listing_channel l = channel) ls" "distinct (map li_pk ls)" by simp_all
  moreover from Cons.prems(5) have "distinct (map li_pk (kd_variant_listings u))" by (simp add: u(1))
  ultimately have "fs = map (price_now P infos) ls
    \<and> kd_variant_listings t = price_rows P infos (li_pk ` set ls) (kd_variant_listings u)
    \<and> kd_variants t = kd_variants u \<and> kd_product_listings t = kd_product_listings u"
    using Cons.IH [OF rest _ sub] by blast
  then show ?case by (simp add: f final u price_rows_twice)
qed (simp add: price_rows_def map_idI)

text \<open>Storing the prices of the products in terms of the rows that were there.\<close>

definition listed_for :: "nat list \<Rightarrow> (nat \<times> nat) list \<Rightarrow> product_listing \<Rightarrow> variant_listing \<Rightarrow> bool" where
  "listed_for products variants pl l \<longleftrightarrow> li_price_amount l \<noteq> None \<and> li_listing_channel l = pl_channel pl
     \<and> (li_variant l, pl_product pl) \<in> set variants \<and> pl_product pl \<in> set products"

lemma listed_for_priced [simp]: "listed_for products variants pl (priced P infos l) = listed_for products variants pl l"
  by (simp add: listed_for_def)

lemma variant_listings_of_listed:
  "variant_listings_of products (pl_product pl) (pl_channel pl) s
   = filter (listed_for products (kd_variants s) pl) (kd_variant_listings s)"
  by (simp add: variant_listings_of_def listed_for_def [abs_def])

definition stored_variants ::
    "prices \<Rightarrow> variant_rules \<Rightarrow> nat list \<Rightarrow> (nat \<times> nat) list \<Rightarrow> product_listing list \<Rightarrow> variant_listing list \<Rightarrow> variant_listing list" where
  "stored_variants P infos products variants pls rows =
     map (\<lambda>l. if \<exists>pl \<in> set pls. listed_for products variants pl l then priced P infos l else l) rows"

definition product_price ::
    "prices \<Rightarrow> variant_rules \<Rightarrow> nat list \<Rightarrow> (nat \<times> nat) list \<Rightarrow> variant_listing list \<Rightarrow> product_listing \<Rightarrow> product_listing" where
  "product_price P infos products variants rows pl =
     (let ls = filter (listed_for products variants pl) rows
      in if ls = [] then pl
         else pl\<lparr>pl_discounted_price_amount := Some (Min (price_now P infos ` set ls))\<rparr>)"

lemma product_price_priced:
  assumes "\<And>l. f l = l \<or> f l = priced P infos l"
  shows "product_price P infos products variants (map f rows) pl = product_price P infos products variants rows pl"
proof -
  have f: "listed_for products variants pl (f l) = listed_for products variants pl l" "price_now P infos (f l) = price_now P infos l" for l
    using assms [of l] by auto
  have ls: "filter (listed_for products variants pl) (map f rows) = map f (filter (listed_for products variants pl) rows)"
    by (simp add: filter_map o_def f)
  show ?thesis unfolding product_price_def ls Let_def by (simp add: image_image f)
qed

lemma price_rows_filter:
  assumes "distinct (map li_pk rows)"
  shows "price_rows P infos (li_pk ` set (filter Q rows)) rows = map (\<lambda>l. if Q l then priced P infos l else l) rows"
  unfolding price_rows_def
proof (rule map_cong [OF refl])
  fix x assume x: "x \<in> set rows"
  have "li_pk x \<in> li_pk ` set (filter Q rows) \<longleftrightarrow> Q x"
    using assms x by (auto simp: distinct_map dest: inj_onD)
  then show "(if li_pk x \<in> li_pk ` set (filter Q rows) then priced P infos x else x) = (if Q x then priced P infos x else x)" by simp
qed

lemma product_price_cong:
  "pl_product x = pl_product pl \<Longrightarrow> pl_channel x = pl_channel pl \<Longrightarrow> listed_for products variants x = listed_for products variants pl"
  by (simp add: listed_for_def fun_eq_iff)

lemma product_price_fields [simp]:
  "pl_pk (product_price P infos products variants rows pl) = pl_pk pl"
  "pl_product (product_price P infos products variants rows pl) = pl_product pl"
  "pl_channel (product_price P infos products variants rows pl) = pl_channel pl"
  by (simp_all add: product_price_def Let_def)

lemma product_price_twice [simp]:
  "product_price P infos products variants rows (product_price P infos products variants rows pl)
   = product_price P infos products variants rows pl"
proof -
  let ?p = "product_price P infos products variants rows pl"
  have "listed_for products variants ?p = listed_for products variants pl" by (rule product_price_cong) simp_all
  then show ?thesis by (simp add: product_price_def Let_def)
qed

text \<open>Writing the price of the product of one listing, in rows where its key has its product and channel.\<close>

lemma write_product_price:
  assumes same: "\<And>x. x \<in> set rows \<Longrightarrow> pl_pk x = pl_pk pl \<Longrightarrow> pl_product x = pl_product pl \<and> pl_channel x = pl_channel pl"
    and ls: "filter (listed_for products variants pl) vs \<noteq> []"
  shows "save_row pl_pk (pl_pk pl) (\<lambda>x. x\<lparr>pl_discounted_price_amount :=
      Some (Min (price_now P infos ` set (filter (listed_for products variants pl) vs)))\<rparr>) rows
    = save_row pl_pk (pl_pk pl) (product_price P infos products variants vs) rows"
  unfolding save_row_def
proof (rule map_cong [OF refl])
  fix x assume x: "x \<in> set rows"
  show "(if pl_pk x = pl_pk pl then x\<lparr>pl_discounted_price_amount :=
      Some (Min (price_now P infos ` set (filter (listed_for products variants pl) vs)))\<rparr> else x)
    = (if pl_pk x = pl_pk pl then product_price P infos products variants vs x else x)"
  proof (cases "pl_pk x = pl_pk pl")
    case True
    with same [OF x] have "listed_for products variants x = listed_for products variants pl" by (intro product_price_cong) simp_all
    with ls True show ?thesis by (simp add: product_price_def Let_def)
  qed simp
qed

definition stored_products ::
    "prices \<Rightarrow> variant_rules \<Rightarrow> nat list \<Rightarrow> (nat \<times> nat) list \<Rightarrow> variant_listing list \<Rightarrow> product_listing list \<Rightarrow> product_listing list \<Rightarrow> product_listing list" where
  "stored_products P infos products variants vs pls rows =
     map (\<lambda>x. if pl_pk x \<in> pl_pk ` set pls then product_price P infos products variants vs x else x) rows"

lemma stored_products_save:
  "stored_products P infos products variants vs pls (save_row pl_pk (pl_pk pl) (product_price P infos products variants vs) rows)
   = stored_products P infos products variants vs (pl # pls) rows"
  unfolding stored_products_def save_row_def map_map by (rule map_cong [OF refl]) auto

lemma update_product_listings_rows:
  assumes "update_product_listings P infos products pls s = Inr t"
    and "distinct (map li_pk (kd_variant_listings s))"
    and "\<And>pl x. pl \<in> set pls \<Longrightarrow> x \<in> set (kd_product_listings s) \<Longrightarrow> pl_pk x = pl_pk pl
      \<Longrightarrow> pl_product x = pl_product pl \<and> pl_channel x = pl_channel pl"
  shows "kd_variant_listings t = stored_variants P infos products (kd_variants s) pls (kd_variant_listings s)
    \<and> kd_product_listings t = stored_products P infos products (kd_variants s) (kd_variant_listings s) pls (kd_product_listings s)"
  using assms
proof (induction pls arbitrary: s)
  case Nil
  then show ?case by (simp add: stored_variants_def stored_products_def)
next
  case (Cons pl pls)
  let ?vs = "kd_variants s" and ?rows = "kd_variant_listings s" and ?prows = "kd_product_listings s"
  let ?Q = "listed_for products ?vs pl"
  have same: "\<And>x. x \<in> set ?prows \<Longrightarrow> pl_pk x = pl_pk pl \<Longrightarrow> pl_product x = pl_product pl \<and> pl_channel x = pl_channel pl"
    by (rule Cons.prems(3)) simp_all
  show ?case
  proof (cases "filter ?Q ?rows = []")
    case True
    with Cons.prems(1) have t: "update_product_listings P infos products pls s = Inr t"
      by (simp add: variant_listings_of_listed Let_def)
    from True have none: "l \<in> set ?rows \<Longrightarrow> \<not> ?Q l" for l by (auto simp: filter_empty_conv)
    then have sv: "stored_variants P infos products ?vs (pl # pls) ?rows = stored_variants P infos products ?vs pls ?rows"
      by (auto simp: stored_variants_def)
    have "product_price P infos products ?vs ?rows x = x" if "x \<in> set ?prows" "pl_pk x = pl_pk pl" for x
    proof -
      from same [OF that] have "listed_for products ?vs x = ?Q" by (intro product_price_cong) simp_all
      with True show ?thesis by (simp add: product_price_def Let_def)
    qed
    then have sp: "stored_products P infos products ?vs ?rows (pl # pls) ?prows = stored_products P infos products ?vs ?rows pls ?prows"
      unfolding stored_products_def by (intro map_cong [OF refl]) simp
    have "pl_product x = pl_product q \<and> pl_channel x = pl_channel q"
      if "q \<in> set pls" "x \<in> set ?prows" "pl_pk x = pl_pk q" for q x
      using that by (intro Cons.prems(3)) simp_all
    from Cons.IH [OF t Cons.prems(2) this] show ?thesis unfolding sv sp .
  next
    case False
    obtain finals u where u: "discounted_variants P infos (pl_channel pl) (filter ?Q ?rows) s = Inr (finals, u)"
      and t: "update_product_listings P infos products pls (u\<lparr>kd_product_listings := save_row pl_pk (pl_pk pl)
         (\<lambda>x. x\<lparr>pl_discounted_price_amount := Some (Min (set finals))\<rparr>) (kd_product_listings u)\<rparr>) = Inr t"
      using Cons.prems(1) False by (auto simp: variant_listings_of_listed Let_def bindr_eq_Inr)
    have "list_all (\<lambda>l. li_listing_channel l = pl_channel pl) (filter ?Q ?rows)"
      by (auto simp: list_all_iff listed_for_def)
    from discounted_variants_rows [OF u this _ _ Cons.prems(2)] Cons.prems(2)
    have r: "finals = map (price_now P infos) (filter ?Q ?rows)"
      "kd_variant_listings u = price_rows P infos (li_pk ` set (filter ?Q ?rows)) ?rows"
      "kd_variants u = ?vs" "kd_product_listings u = ?prows"
      by (simp_all add: distinct_map_filter)
    from r(2) have rows: "kd_variant_listings u = map (\<lambda>l. if ?Q l then priced P infos l else l) ?rows"
      by (simp only: price_rows_filter [OF Cons.prems(2)])
    have pp: "product_price P infos products ?vs (kd_variant_listings u) = product_price P infos products ?vs ?rows"
      unfolding rows by (rule ext, rule product_price_priced) simp
    let ?p' = "save_row pl_pk (pl_pk pl) (product_price P infos products ?vs ?rows) ?prows"
    have w: "u\<lparr>kd_product_listings := save_row pl_pk (pl_pk pl)
         (\<lambda>x. x\<lparr>pl_discounted_price_amount := Some (Min (set finals))\<rparr>) (kd_product_listings u)\<rparr> = u\<lparr>kd_product_listings := ?p'\<rparr>"
      using write_product_price [OF same False, where P = P and infos = infos] by (simp add: r(1,4))
    have keys: "distinct (map li_pk (kd_variant_listings (u\<lparr>kd_product_listings := ?p'\<rparr>)))" using Cons.prems(2) by (simp add: r(2))
    have same': "pl_product x = pl_product q \<and> pl_channel x = pl_channel q"
      if "q \<in> set pls" "x \<in> set (kd_product_listings (u\<lparr>kd_product_listings := ?p'\<rparr>))" "pl_pk x = pl_pk q" for q x
    proof -
      from that(2) obtain y where y: "y \<in> set ?prows" "pl_pk x = pl_pk y" "pl_product x = pl_product y" "pl_channel x = pl_channel y"
        by (auto simp: save_row_def)
      have "q \<in> set (pl # pls)" using that(1) by simp
      moreover have "pl_pk y = pl_pk q" using y(2) that(3) by metis
      ultimately have "pl_product y = pl_product q \<and> pl_channel y = pl_channel q"
        by (rule Cons.prems(3) [OF _ y(1)])
      then show ?thesis unfolding y(3,4) .
    qed
    have fields: "kd_variants (u\<lparr>kd_product_listings := ?p'\<rparr>) = ?vs"
      "kd_variant_listings (u\<lparr>kd_product_listings := ?p'\<rparr>) = kd_variant_listings u"
      "kd_product_listings (u\<lparr>kd_product_listings := ?p'\<rparr>) = ?p'" by (simp_all add: r(3))
    note Cons.IH [OF t [unfolded w] keys same']
    then
    have "kd_variant_listings t = stored_variants P infos products ?vs pls (kd_variant_listings u)
      \<and> kd_product_listings t = stored_products P infos products ?vs (kd_variant_listings u) pls ?p'" unfolding fields .
    moreover have "stored_variants P infos products ?vs pls (kd_variant_listings u) = stored_variants P infos products ?vs (pl # pls) ?rows"
      unfolding stored_variants_def rows by auto
    moreover have "stored_products P infos products ?vs (kd_variant_listings u) pls ?p' = stored_products P infos products ?vs ?rows (pl # pls) ?prows"
      unfolding stored_products_save [symmetric] by (simp add: stored_products_def pp)
    ultimately show ?thesis by simp
  qed
qed

definition promotion_rules_now :: "datetime \<Rightarrow> nat list \<Rightarrow> promotion_db \<Rightarrow> variant_rules" where
  "promotion_rules_now now products s =
     get_variants_to_promotions_map now (map fst (filter (\<lambda>(_, p). p \<in> set products) (kd_variants s))) s"

text \<open>
  C5: storing the discounted prices of products, one listing after the other, equals writing
  every row once from the rows before: each priced variant listing of the products gets the
  price its promotions give, each product listing the least price of its variants, every other
  row stays
\<close>

theorem stored_prices_are_promotion_prices:
  assumes run: "update_discounted_prices_for_promotion P now products s = Inr t"
    and keys: "distinct (map li_pk (kd_variant_listings s))" "distinct (map pl_pk (kd_product_listings s))"
  shows "kd_variant_listings t = map (\<lambda>l. if \<exists>pl \<in> set (kd_product_listings s). listed_for products (kd_variants s) pl l
      then priced P (promotion_rules_now now products s) l else l) (kd_variant_listings s)
    \<and> kd_product_listings t = map (product_price P (promotion_rules_now now products s) products (kd_variants s)
        (kd_variant_listings s)) (kd_product_listings s)"
proof -
  let ?infos = "promotion_rules_now now products s" and ?pls = "filter (\<lambda>pl. pl_product pl \<in> set products) (kd_product_listings s)"
  from run have run: "update_product_listings P ?infos products ?pls s = Inr t"
    by (simp add: update_discounted_prices_for_promotion_def promotion_rules_now_def Let_def)
  have eq: "q = x" if "q \<in> set ?pls" "x \<in> set (kd_product_listings s)" "pl_pk x = pl_pk q" for q x
    using keys(2) that by (auto simp: distinct_map dest: inj_onD)
  have "pl_product x = pl_product q \<and> pl_channel x = pl_channel q"
    if "q \<in> set ?pls" "x \<in> set (kd_product_listings s)" "pl_pk x = pl_pk q" for q x
    using eq [OF that] by simp
  from update_product_listings_rows [OF run keys(1) this]
  have t: "kd_variant_listings t = stored_variants P ?infos products (kd_variants s) ?pls (kd_variant_listings s)"
    "kd_product_listings t = stored_products P ?infos products (kd_variants s) (kd_variant_listings s) ?pls (kd_product_listings s)"
    by blast+
  have "(\<exists>pl \<in> set ?pls. listed_for products (kd_variants s) pl l)
      \<longleftrightarrow> (\<exists>pl \<in> set (kd_product_listings s). listed_for products (kd_variants s) pl l)" for l
    by (auto simp: listed_for_def)
  then have v: "stored_variants P ?infos products (kd_variants s) ?pls (kd_variant_listings s)
    = map (\<lambda>l. if \<exists>pl \<in> set (kd_product_listings s). listed_for products (kd_variants s) pl l then priced P ?infos l else l)
        (kd_variant_listings s)" unfolding stored_variants_def by simp
  have "(if pl_pk x \<in> pl_pk ` set ?pls then product_price P ?infos products (kd_variants s) (kd_variant_listings s) x else x)
    = product_price P ?infos products (kd_variants s) (kd_variant_listings s) x" if x: "x \<in> set (kd_product_listings s)" for x
  proof (cases "pl_product x \<in> set products")
    case True
    with x show ?thesis by auto
  next
    case False
    then have "filter (listed_for products (kd_variants s) x) (kd_variant_listings s) = []"
      by (auto simp: filter_empty_conv listed_for_def)
    then show ?thesis by (simp add: product_price_def)
  qed
  then have "stored_products P ?infos products (kd_variants s) (kd_variant_listings s) ?pls (kd_product_listings s)
    = map (product_price P ?infos products (kd_variants s) (kd_variant_listings s)) (kd_product_listings s)"
    unfolding stored_products_def by (rule map_cong [OF refl])
  with t v show ?thesis by simp
qed

lemma stored_prices_are_promotion_prices_witness:
  "\<exists>t. update_discounted_prices_for_promotion plain_prices (2024, 3, 1, 0) [5] promotion_shop = Inr t
     \<and> map pl_discounted_price_amount (kd_product_listings t) = [Some 8]"
proof -
  obtain t where t: "update_discounted_prices_for_promotion plain_prices (2024, 3, 1, 0) [5] promotion_shop = Inr t"
  proof -
    have "case update_discounted_prices_for_promotion plain_prices (2024, 3, 1, 0) [5] promotion_shop of
      Inl _ \<Rightarrow> False | Inr _ \<Rightarrow> True" by code_simp
    then show ?thesis by (auto intro: that split: sum.splits)
  qed
  have "kd_product_listings t = map (product_price plain_prices (promotion_rules_now (2024, 3, 1, 0) [5] promotion_shop) [5]
      (kd_variants promotion_shop) (kd_variant_listings promotion_shop)) (kd_product_listings promotion_shop)"
    by (rule stored_prices_are_promotion_prices [OF t, THEN conjunct2]) (simp_all add: promotion_shop_defs)
  moreover have "map pl_discounted_price_amount (map (product_price plain_prices
      (promotion_rules_now (2024, 3, 1, 0) [5] promotion_shop) [5] (kd_variants promotion_shop)
      (kd_variant_listings promotion_shop)) (kd_product_listings promotion_shop)) = [Some 8]" by code_simp
  ultimately show ?thesis using t by auto
qed

end
