(* ===== verification/CheckoutPrices.thy ===== *)
theory CheckoutPrices
  imports Promotions
begin

section \<open>The prices of a checkout\<close>

text \<open>
  \<^verbatim>\<open>checkout/base_calculations.py\<close>, the voucher part of \<^verbatim>\<open>checkout/utils.py\<close> and \<^verbatim>\<open>checkout/fetch.py\<close>, and the
  discount objects of lines in \<^verbatim>\<open>discount/utils.py\<close>. A checkout has one currency; its lines are given as the
  line infos the code fetches, with the listing of the variant in the channel of the checkout, the facts about the
  product that decide, the stored discounts of the line and the rules that apply to its listing. \<open>prec\<close> is the
  number of places of a currency. \<open>MissingPrice\<close> is the error of Python when a price is null,
  \<open>DivisionByZero\<close> that of dividing by nothing.
\<close>

subsection \<open>Lines and checkouts\<close>

record checkout_item =
  ct_pk :: nat
  ct_variant :: nat
  ct_quantity :: int
  ct_price_override :: "decimal option"

record line_discount =
  ld_pk :: nat
  ld_line :: nat
  ld_type :: discount_type
  ld_value_type :: "reward_value_type option"
  ld_value :: decimal
  ld_amount_value :: decimal
  ld_name :: "string option"
  ld_translated_name :: "string option"
  ld_promotion_rule :: "nat option"

record variant_rule_info =
  vi_rule :: promotion_rule
  vi_variant_listing_promotion_rule :: listing_rule
  vi_promotion :: promotion
  vi_promotion_translation :: "string option"
  vi_rule_translation :: "string option"

record checkout_line_info =
  ci_line :: checkout_item
  ci_channel_listing :: variant_listing
  ci_product :: nat
  ci_category :: "nat option"
  ci_collections :: "nat list"
  ci_is_shipping_required :: bool
  ci_discounts :: "line_discount list"
  ci_rules_info :: "variant_rule_info list"
  ci_voucher :: "voucher option"

record checkout =
  ch_pk :: nat
  ch_email :: "string option"
  ch_currency :: string
  ch_language_code :: string
  ch_voucher_code :: "string option"
  ch_discount_amount :: decimal
  ch_discount_name :: "string option"
  ch_translated_discount_name :: "string option"
  ch_gift_cards :: "nat list"

text \<open>A delivery method: none, one of shipping with its price, or the collection at a warehouse.\<close>

datatype delivery = NoDelivery | ShippingDelivery decimal | CollectionPoint nat

record checkout_info =
  cf_checkout :: checkout
  cf_user :: "user option"
  cf_channel :: nat
  cf_shipping_country :: "string option"
  cf_billing_country :: "string option"
  cf_delivery_method :: delivery
  cf_voucher :: "voucher option"

definition get_customer_email :: "checkout_info \<Rightarrow> string option" where
  "get_customer_email info = (case cf_user info of Some u \<Rightarrow> Some (user_email u) | None \<Rightarrow> ch_email (cf_checkout info))"

definition get_promotion_discounts :: "checkout_line_info \<Rightarrow> line_discount list" where
  "get_promotion_discounts l = filter (\<lambda>d. ld_type d = DiscountType_PROMOTION) (ci_discounts l)"

definition calculate_checkout_quantity :: "checkout_line_info list \<Rightarrow> int" where
  "calculate_checkout_quantity lines = sum_list (map (\<lambda>l. ct_quantity (ci_line l)) lines)"

definition is_shipping_required :: "checkout_line_info list \<Rightarrow> bool" where
  "is_shipping_required lines \<longleftrightarrow> list_ex ci_is_shipping_required lines"

subsection \<open>Line prices without taxes\<close>

definition get_base_price :: "variant_listing \<Rightarrow> decimal option \<Rightarrow> discount_error + decimal" where
  "get_base_price listing price_override =
     (case price_override of
        Some p \<Rightarrow> Inr p
      | None \<Rightarrow> (case li_price_amount listing of None \<Rightarrow> Inl MissingPrice | Some p \<Rightarrow> Inr p))"

definition per_unit :: "decimal \<Rightarrow> int \<Rightarrow> discount_error + decimal" where
  "per_unit total_price quantity = (if quantity = 0 then Inl DivisionByZero else Inr (total_price / of_int quantity))"

text \<open>The voucher of a line lowers the whole line, every piece, or, once per order, one piece.\<close>

definition voucher_line_total :: "prices \<Rightarrow> voucher_db \<Rightarrow> voucher \<Rightarrow> nat \<Rightarrow> int \<Rightarrow> decimal \<Rightarrow> discount_error + decimal" where
  "voucher_line_total P s v channel quantity total_price =
     (if \<not> vo_apply_once_per_order v \<and> vo_discount_value_type v = DiscountValueType_PERCENTAGE then
        bindr (get_discount_amount_for P s v total_price channel) (\<lambda>voucher_discount_amount.
          Inr (max (total_price - voucher_discount_amount) 0))
      else if \<not> vo_apply_once_per_order v then
        bindr (per_unit total_price quantity) (\<lambda>unit_price.
        bindr (get_discount_amount_for P s v unit_price channel) (\<lambda>voucher_unit_discount_amount.
          Inr (max (total_price - voucher_unit_discount_amount * of_int quantity) 0)))
      else
        bindr (per_unit total_price quantity) (\<lambda>unit_price.
        bindr (get_discount_amount_for P s v unit_price channel) (\<lambda>voucher_unit_discount_amount.
          let variant_price_with_discounts = max (unit_price - voucher_unit_discount_amount) 0
          in Inr (unit_price * of_int (quantity - 1) + variant_price_with_discounts))))"

definition calculate_base_line_total_price ::
    "prices \<Rightarrow> (string \<Rightarrow> nat) \<Rightarrow> voucher_db \<Rightarrow> string \<Rightarrow> nat \<Rightarrow> checkout_line_info \<Rightarrow> discount_error + decimal" where
  "calculate_base_line_total_price P prec s currency channel l =
     bindr (get_base_price (ci_channel_listing l) (ct_price_override (ci_line l))) (\<lambda>variant_price.
       let quantity = ct_quantity (ci_line l);
           total_price = variant_price * of_int quantity - sum_list (map ld_amount_value (ci_discounts l))
       in bindr (case ci_voucher l of None \<Rightarrow> Inr total_price
                 | Some v \<Rightarrow> voucher_line_total P s v channel quantity total_price) (\<lambda>total_price.
          Inr (quantize_price prec total_price currency)))"

definition calculate_base_line_unit_price ::
    "prices \<Rightarrow> (string \<Rightarrow> nat) \<Rightarrow> voucher_db \<Rightarrow> string \<Rightarrow> nat \<Rightarrow> checkout_line_info \<Rightarrow> discount_error + decimal" where
  "calculate_base_line_unit_price P prec s currency channel l =
     bindr (calculate_base_line_total_price P prec s currency channel l) (\<lambda>total_line_price.
     bindr (per_unit total_line_price (ct_quantity (ci_line l))) (\<lambda>p. Inr (quantize_price prec p currency)))"

definition calculate_undiscounted_base_line_unit_price ::
    "(string \<Rightarrow> nat) \<Rightarrow> string \<Rightarrow> checkout_line_info \<Rightarrow> discount_error + decimal" where
  "calculate_undiscounted_base_line_unit_price prec currency l =
     bindr (get_base_price (ci_channel_listing l) (ct_price_override (ci_line l))) (\<lambda>p. Inr (quantize_price prec p currency))"

definition calculate_undiscounted_base_line_total_price ::
    "(string \<Rightarrow> nat) \<Rightarrow> string \<Rightarrow> checkout_line_info \<Rightarrow> discount_error + decimal" where
  "calculate_undiscounted_base_line_total_price prec currency l =
     bindr (calculate_undiscounted_base_line_unit_price prec currency l) (\<lambda>unit_price.
       Inr (quantize_price prec (unit_price * of_int (ct_quantity (ci_line l))) currency))"

fun map_results :: "('a \<Rightarrow> 'e + 'b) \<Rightarrow> 'a list \<Rightarrow> 'e + 'b list" where
  "map_results f [] = Inr []"
| "map_results f (x # xs) = bindr (f x) (\<lambda>y. bindr (map_results f xs) (\<lambda>ys. Inr (y # ys)))"

subsection \<open>Totals without taxes\<close>

definition base_checkout_subtotal ::
    "prices \<Rightarrow> (string \<Rightarrow> nat) \<Rightarrow> voucher_db \<Rightarrow> string \<Rightarrow> nat \<Rightarrow> checkout_line_info list \<Rightarrow> discount_error + decimal" where
  "base_checkout_subtotal P prec s currency channel lines =
     bindr (map_results (calculate_base_line_total_price P prec s currency channel) lines) (\<lambda>totals. Inr (sum_list totals))"

definition calculate_base_price_for_shipping_method ::
    "(string \<Rightarrow> nat) \<Rightarrow> checkout_info \<Rightarrow> decimal \<Rightarrow> checkout_line_info list \<Rightarrow> decimal" where
  "calculate_base_price_for_shipping_method prec info price lines =
     (if \<not> is_shipping_required lines then 0 else quantize_price prec price (ch_currency (cf_checkout info)))"

definition base_checkout_undiscounted_delivery_price ::
    "(string \<Rightarrow> nat) \<Rightarrow> checkout_info \<Rightarrow> checkout_line_info list \<Rightarrow> decimal" where
  "base_checkout_undiscounted_delivery_price prec info lines =
     (case cf_delivery_method info of
        ShippingDelivery price \<Rightarrow> calculate_base_price_for_shipping_method prec info price lines
      | _ \<Rightarrow> 0)"

definition base_checkout_delivery_price :: "(string \<Rightarrow> nat) \<Rightarrow> checkout_info \<Rightarrow> checkout_line_info list \<Rightarrow> decimal" where
  "base_checkout_delivery_price prec info lines =
     (let shipping_price = base_checkout_undiscounted_delivery_price prec info lines;
          is_shipping_voucher = (case cf_voucher info of None \<Rightarrow> False | Some v \<Rightarrow> vo_type v = VoucherType_SHIPPING);
          shipping_price = (if is_shipping_voucher then max 0 (shipping_price - ch_discount_amount (cf_checkout info)) else shipping_price)
      in quantize_price prec shipping_price (ch_currency (cf_checkout info)))"

definition base_checkout_total ::
    "prices \<Rightarrow> (string \<Rightarrow> nat) \<Rightarrow> voucher_db \<Rightarrow> checkout_info \<Rightarrow> checkout_line_info list \<Rightarrow> discount_error + decimal" where
  "base_checkout_total P prec s info lines =
     bindr (base_checkout_subtotal P prec s (ch_currency (cf_checkout info)) (cf_channel info) lines) (\<lambda>subtotal.
       Inr (subtotal + base_checkout_delivery_price prec info lines))"

text \<open>Only the discount of an entire order that is not once per order is missing in the line prices.\<close>

definition discount_not_included :: "checkout_info \<Rightarrow> bool" where
  "discount_not_included info \<longleftrightarrow> (case cf_voucher info of None \<Rightarrow> False
     | Some v \<Rightarrow> vo_type v = VoucherType_ENTIRE_ORDER \<and> \<not> vo_apply_once_per_order v)"

definition checkout_total ::
    "prices \<Rightarrow> (string \<Rightarrow> nat) \<Rightarrow> voucher_db \<Rightarrow> checkout_info \<Rightarrow> checkout_line_info list \<Rightarrow> discount_error + decimal" where
  "checkout_total P prec s info lines =
     bindr (base_checkout_subtotal P prec s (ch_currency (cf_checkout info)) (cf_channel info) lines) (\<lambda>subtotal.
       let shipping_price = base_checkout_delivery_price prec info lines;
           subtotal = (if discount_not_included info then max 0 (subtotal - ch_discount_amount (cf_checkout info)) else subtotal)
       in Inr (subtotal + shipping_price))"

text \<open>
  The discount of the order is divided among the lines in proportion to their prices; the last line gets
  what is left. Dividing by a total of nothing raises.
\<close>

definition part_of :: "decimal \<Rightarrow> decimal \<Rightarrow> decimal \<Rightarrow> discount_error + decimal" where
  "part_of total_price discount_amount line_total_price =
     (if total_price = 0 then Inl DivisionByZero else Inr (line_total_price / total_price * discount_amount))"

definition calculate_discount_for_last_element ::
    "decimal list \<Rightarrow> decimal \<Rightarrow> decimal \<Rightarrow> discount_error + decimal" where
  "calculate_discount_for_last_element lines_total_prices total_price total_discount_amount =
     bindr (map_results (part_of total_price total_discount_amount) lines_total_prices) (\<lambda>parts.
       Inr (total_discount_amount - sum_list parts))"

definition apply_checkout_discount_on_checkout_line ::
    "prices \<Rightarrow> (string \<Rightarrow> nat) \<Rightarrow> voucher_db \<Rightarrow> checkout_info \<Rightarrow> checkout_line_info list \<Rightarrow> checkout_line_info \<Rightarrow> decimal
     \<Rightarrow> discount_error + decimal" where
  "apply_checkout_discount_on_checkout_line P prec s info lines l line_total_price =
     (if (case cf_voucher info of None \<Rightarrow> True | Some v \<Rightarrow> vo_apply_once_per_order v
            \<or> vo_type v = VoucherType_SHIPPING \<or> vo_type v = VoucherType_SPECIFIC_PRODUCT)
      then Inr line_total_price
      else if length lines = 1 then Inr (max (line_total_price - ch_discount_amount (cf_checkout info)) 0)
      else bindr (map_results (calculate_base_line_total_price P prec s (ch_currency (cf_checkout info)) (cf_channel info))
             (filter (\<lambda>x. ct_pk (ci_line x) \<noteq> ct_pk (ci_line l)) lines)) (\<lambda>lines_total_prices.
        let total_discount_amount = ch_discount_amount (cf_checkout info);
            total_price = sum_list lines_total_prices + line_total_price
        in bindr (if lines = [] then Inl EmptySequence
                  else if ct_pk (ci_line (last lines)) = ct_pk (ci_line l)
                  then calculate_discount_for_last_element lines_total_prices total_price total_discount_amount
                  else part_of total_price total_discount_amount line_total_price) (\<lambda>discount_amount.
             Inr (max (line_total_price - discount_amount) 0))))"

end
