(* ===== verification/CheckoutLines.thy ===== *)
theory CheckoutLines
  imports CheckoutPrices
begin

section \<open>The lines of a checkout, its payment statuses and its end\<close>

text \<open>
  Adding variants to a checkout (\<^verbatim>\<open>checkout/utils.py\<close>), its charge and authorize statuses
  (\<^verbatim>\<open>checkout/payment_utils.py\<close>) and the task that deletes checkouts nobody touched
  (\<^verbatim>\<open>checkout/tasks.py\<close>). Metadata of lines are left out.
\<close>

subsection \<open>Adding variants\<close>

record line_data =
  da_line_id :: "nat option"
  da_variant_id :: nat
  da_quantity :: int
  da_quantity_to_update :: bool
  da_custom_price :: "decimal option"
  da_custom_price_to_update :: bool

text \<open>Python compares two checkout lines by their variant and quantity.\<close>

definition same_line :: "checkout_item \<Rightarrow> checkout_item \<Rightarrow> bool" where
  "same_line a b \<longleftrightarrow> ct_variant a = ct_variant b \<and> ct_quantity a = ct_quantity b"

text \<open>The lines in memory, and the keys of those to update and to delete, in the order they were appended.\<close>

record line_changes =
  lc_lines :: "checkout_item list"
  lc_to_update :: "nat list"
  lc_to_delete :: "nat list"
  lc_to_create :: "checkout_item list"

definition change_line :: "nat \<Rightarrow> (checkout_item \<Rightarrow> checkout_item) \<Rightarrow> line_changes \<Rightarrow> line_changes" where
  "change_line k f c = c\<lparr>lc_lines := save_row ct_pk k f (lc_lines c), lc_to_update := lc_to_update c @ [k]\<rparr>"

definition append_line_to_update :: "line_data \<Rightarrow> bool \<Rightarrow> nat \<Rightarrow> line_changes \<Rightarrow> line_changes" where
  "append_line_to_update d replace k c =
     (let c = (if da_quantity_to_update d \<and> da_quantity d > 0
               then change_line k (\<lambda>l. l\<lparr>ct_quantity := (if replace then da_quantity d else ct_quantity l + da_quantity d)\<rparr>) c
               else c);
          deleted = (\<exists>l \<in> set (lc_lines c). ct_pk l = k
            \<and> (\<exists>x \<in> set (lc_lines c). ct_pk x \<in> set (lc_to_delete c) \<and> same_line l x))
      in if da_custom_price_to_update d \<and> \<not> deleted
         then change_line k (\<lambda>l. l\<lparr>ct_price_override := da_custom_price d\<rparr>) c else c)"

definition append_line_to_delete :: "line_data \<Rightarrow> nat \<Rightarrow> line_changes \<Rightarrow> line_changes" where
  "append_line_to_delete d k c = (if da_quantity_to_update d \<and> da_quantity d \<le> 0
     then c\<lparr>lc_to_delete := lc_to_delete c @ [k]\<rparr> else c)"

definition append_line_to_create :: "nat \<Rightarrow> line_data \<Rightarrow> line_changes \<Rightarrow> line_changes" where
  "append_line_to_create fresh d c = (if da_quantity d > 0
     then c\<lparr>lc_to_create := lc_to_create c @ [\<lparr>ct_pk = fresh + length (lc_to_create c), ct_variant = da_variant_id d,
              ct_quantity = da_quantity d, ct_price_override = da_custom_price d\<rparr>]\<rparr>
     else c)"

text \<open>A line of the data that is not of the checkout makes a new line, for a variant that must be among the given ones.\<close>

fun collect_changes :: "nat \<Rightarrow> nat list \<Rightarrow> bool \<Rightarrow> line_data list \<Rightarrow> line_changes \<Rightarrow> line_changes option" where
  "collect_changes fresh variants replace [] c = Some c"
| "collect_changes fresh variants replace (d # ds) c =
     (case (case da_line_id d of None \<Rightarrow> None | Some k \<Rightarrow> row_of ct_pk k (lc_lines c)) of
        Some l \<Rightarrow> collect_changes fresh variants replace ds
          (append_line_to_delete d (ct_pk l) (append_line_to_update d replace (ct_pk l) c))
      | None \<Rightarrow> if da_variant_id d \<in> set variants
          then collect_changes fresh variants replace ds (append_line_to_create fresh d c) else None)"

text \<open>
  The lines afterwards, and the keys that \<open>reserve_stocks_and_preorders\<close> gets: those to reserve, and those
  whose reservations are only prolonged. \<open>None\<close> is the \<open>KeyError\<close> of an unknown variant.
\<close>

definition add_variants_to_checkout ::
    "nat \<Rightarrow> nat list \<Rightarrow> line_data list \<Rightarrow> bool \<Rightarrow> checkout_item list
     \<Rightarrow> (checkout_item list \<times> nat list \<times> nat list) option" where
  "add_variants_to_checkout fresh variants checkout_lines_data replace lines =
     (case collect_changes fresh variants replace checkout_lines_data
        \<lparr>lc_lines = lines, lc_to_update = [], lc_to_delete = [], lc_to_create = []\<rparr> of
        None \<Rightarrow> None
      | Some c \<Rightarrow>
          (let to_reserve = map ct_pk (lc_to_create c) @ lc_to_update c
           in Some (filter (\<lambda>l. ct_pk l \<notin> set (lc_to_delete c))
                      (map (\<lambda>l. if ct_pk l \<in> set (lc_to_update c) then the (row_of ct_pk (ct_pk l) (lc_lines c)) else l) lines)
                    @ lc_to_create c,
                    to_reserve,
                    filter (\<lambda>k. k \<notin> set (to_reserve @ lc_to_delete c)) (map ct_pk lines))))"

subsection \<open>Charge and authorize statuses\<close>

definition checkout_charge_status_for :: "decimal \<Rightarrow> decimal \<Rightarrow> bool \<Rightarrow> checkout_charge_status" where
  "checkout_charge_status_for checkout_total_gross total_charged checkout_has_lines =
     (let total_charged = max 0 total_charged;
          checkout_with_only_zero_price_lines = (checkout_has_lines \<and> checkout_total_gross \<le> 0)
      in if total_charged \<le> 0 \<and> checkout_with_only_zero_price_lines then CheckoutChargeStatus_FULL
         else if total_charged \<le> 0 then CheckoutChargeStatus_NONE
         else if total_charged < checkout_total_gross then CheckoutChargeStatus_PARTIAL
         else if total_charged = checkout_total_gross then CheckoutChargeStatus_FULL
         else if total_charged > checkout_total_gross then CheckoutChargeStatus_OVERCHARGED
         else CheckoutChargeStatus_NONE)"

definition checkout_authorize_status_for :: "decimal \<Rightarrow> decimal \<Rightarrow> decimal \<Rightarrow> bool \<Rightarrow> checkout_authorize_status" where
  "checkout_authorize_status_for checkout_total_gross total_authorized total_charged checkout_has_lines =
     (let total_covered = total_authorized + total_charged;
          checkout_with_only_zero_price_lines = (checkout_has_lines \<and> checkout_total_gross \<le> 0)
      in if total_covered \<le> 0 \<and> checkout_with_only_zero_price_lines then CheckoutAuthorizeStatus_FULL
         else if total_covered = 0 then CheckoutAuthorizeStatus_NONE
         else if total_covered \<ge> checkout_total_gross then CheckoutAuthorizeStatus_FULL
         else if total_covered < checkout_total_gross \<and> total_covered > 0 then CheckoutAuthorizeStatus_PARTIAL
         else CheckoutAuthorizeStatus_NONE)"

record checkout_transaction =
  cx_checkout :: nat
  cx_authorized_value :: decimal
  cx_authorize_pending_value :: decimal
  cx_charged_value :: decimal
  cx_charge_pending_value :: decimal
  cx_refund_pending_value :: decimal
  cx_cancel_pending_value :: decimal
  cx_last_refund_success :: bool

record paid_checkout = checkout +
  pc_charge_status :: checkout_charge_status
  pc_authorize_status :: checkout_authorize_status
  pc_automatically_refundable :: bool

definition get_payment_amount_for_checkout :: "checkout_transaction list \<Rightarrow> decimal \<times> decimal" where
  "get_payment_amount_for_checkout ts =
     (sum_list (map (\<lambda>t. cx_authorized_value t + cx_authorize_pending_value t) ts),
      sum_list (map (\<lambda>t. cx_charged_value t + cx_charge_pending_value t) ts))"

definition update_checkout_payment_statuses ::
    "decimal \<Rightarrow> bool \<Rightarrow> checkout_transaction list \<Rightarrow> paid_checkout \<Rightarrow> paid_checkout" where
  "update_checkout_payment_statuses checkout_total_gross checkout_has_lines ts c =
     (case get_payment_amount_for_checkout (filter (\<lambda>t. cx_checkout t = ch_pk c) ts) of (authorized, charged) \<Rightarrow>
        c\<lparr>pc_authorize_status := checkout_authorize_status_for checkout_total_gross authorized charged checkout_has_lines,
          pc_charge_status := checkout_charge_status_for checkout_total_gross charged checkout_has_lines\<rparr>)"

definition update_refundable_for_checkout :: "nat \<Rightarrow> checkout_transaction list \<Rightarrow> paid_checkout list \<Rightarrow> paid_checkout list" where
  "update_refundable_for_checkout k ts = save_row ch_pk k (\<lambda>c. c\<lparr>pc_automatically_refundable :=
     (\<exists>t \<in> set ts. cx_checkout t = k \<and> cx_last_refund_success t
        \<and> (cx_authorized_value t > 0 \<or> cx_charged_value t > 0))\<rparr>)"

subsection \<open>Deleting checkouts\<close>

record stored_checkout =
  so_pk :: nat
  so_last_change :: datetime
  so_email :: "string option"
  so_user :: "nat option"
  so_has_lines :: bool
  so_rows_below :: nat

text \<open>The moments before which checkouts of the three kinds count as abandoned.\<close>

record expiry_limits =
  el_anonymous :: datetime
  el_user :: datetime
  el_empty :: datetime

definition holds_money :: "checkout_transaction list \<Rightarrow> nat \<Rightarrow> bool" where
  "holds_money ts k \<longleftrightarrow> (\<exists>t \<in> set ts. cx_checkout t = k \<and> (cx_authorized_value t > 0 \<or> cx_authorize_pending_value t > 0
     \<or> cx_charged_value t > 0 \<or> cx_charge_pending_value t > 0 \<or> cx_refund_pending_value t > 0 \<or> cx_cancel_pending_value t > 0))"

definition abandoned :: "expiry_limits \<Rightarrow> checkout_transaction list \<Rightarrow> stored_checkout \<Rightarrow> bool" where
  "abandoned limits ts c \<longleftrightarrow>
     (so_last_change c < el_empty limits \<and> \<not> so_has_lines c
      \<or> so_last_change c < el_anonymous limits \<and> so_email c = None \<and> so_user c = None
      \<or> so_last_change c < el_user limits \<and> (so_email c \<noteq> None \<or> so_user c \<noteq> None))
     \<and> \<not> holds_money ts (so_pk c)"

text \<open>
  One task deletes up to \<open>batch_count\<close> batches, and says how many it deleted and whether there is more; it
  then schedules itself again, up to a limit. The count is Django's, which includes the rows that are deleted with a
  checkout (\<open>so_rows_below\<close>).
\<close>

fun delete_batches :: "nat \<Rightarrow> nat \<Rightarrow> (stored_checkout \<Rightarrow> bool) \<Rightarrow> stored_checkout list \<Rightarrow> nat \<times> bool \<times> stored_checkout list" where
  "delete_batches batch_size 0 expired cs = (0, True, cs)"
| "delete_batches batch_size (Suc n) expired cs =
     (let batch = take batch_size (filter expired cs);
          pks = map so_pk batch;
          deleted_count = sum_list (map (\<lambda>c. Suc (so_rows_below c)) batch);
          cs = filter (\<lambda>c. so_pk c \<notin> set pks) cs
      in if deleted_count < batch_size then (deleted_count, False, cs)
         else (case delete_batches batch_size n expired cs of (k, has_more, cs) \<Rightarrow> (deleted_count + k, has_more, cs)))"

fun delete_expired_checkouts ::
    "nat \<Rightarrow> nat \<Rightarrow> nat \<Rightarrow> (stored_checkout \<Rightarrow> bool) \<Rightarrow> stored_checkout list \<Rightarrow> stored_checkout list" where
  "delete_expired_checkouts batch_size batch_count 0 expired cs =
     (case delete_batches batch_size batch_count expired cs of (_, _, cs) \<Rightarrow> cs)"
| "delete_expired_checkouts batch_size batch_count (Suc left) expired cs =
     (case delete_batches batch_size batch_count expired cs of (_, has_more, cs) \<Rightarrow>
        if has_more then delete_expired_checkouts batch_size batch_count left expired cs else cs)"

end
