(* ===== verification/CheckoutVouchers.thy ===== *)
theory CheckoutVouchers
  imports CheckoutPrices
begin

section \<open>Vouchers, promotions and gift cards of a checkout\<close>

text \<open>
  What \<^verbatim>\<open>checkout/utils.py\<close> and \<^verbatim>\<open>checkout/fetch.py\<close> do with the voucher of a checkout, and what
  \<^verbatim>\<open>discount/utils.py\<close> does with the discount objects of its lines. \<open>voucher_name\<close> is the name of a
  voucher in a language (its own where it is not translated). An operation returns the info with
  the checkout as it is saved.
\<close>

subsection \<open>Which lines a voucher is for\<close>

definition get_discounted_lines :: "checkout_line_info list \<Rightarrow> voucher \<Rightarrow> checkout_line_info list" where
  "get_discounted_lines lines v =
     (if vo_products v \<noteq> [] \<or> vo_collections v \<noteq> [] \<or> vo_categories v \<noteq> [] \<or> vo_variants v \<noteq> []
      then filter (\<lambda>l. ct_variant (ci_line l) \<in> set (vo_variants v) \<or> ci_product l \<in> set (vo_products v)
             \<or> (case ci_category l of None \<Rightarrow> False | Some c \<Rightarrow> c \<in> set (vo_categories v))
             \<or> set (ci_collections l) \<inter> set (vo_collections v) \<noteq> {}) lines
      else lines)"

text \<open>One price for every piece; a listing without a discounted price makes every use of the list raise.\<close>

definition get_base_lines_prices :: "checkout_line_info list \<Rightarrow> decimal option list" where
  "get_base_lines_prices lines =
     concat (map (\<lambda>l. replicate (nat (ct_quantity (ci_line l))) (li_discounted_price_amount (ci_channel_listing l))) lines)"

definition present_prices :: "decimal option list \<Rightarrow> discount_error + decimal list" where
  "present_prices = map_results (\<lambda>p. case p of None \<Rightarrow> Inl MissingPrice | Some x \<Rightarrow> Inr x)"

definition get_prices_of_discounted_specific_product :: "checkout_line_info list \<Rightarrow> voucher \<Rightarrow> decimal option list" where
  "get_prices_of_discounted_specific_product lines v = get_base_lines_prices (get_discounted_lines lines v)"

text \<open>\<open>min\<close> with a key keeps the first of the smallest and raises on nothing.\<close>

fun min_by :: "('a \<Rightarrow> decimal) \<Rightarrow> 'a \<Rightarrow> 'a list \<Rightarrow> 'a" where
  "min_by key best [] = best"
| "min_by key best (x # xs) = min_by key (if key x < key best then x else best) xs"

definition get_the_cheapest_line :: "checkout_line_info list \<Rightarrow> discount_error + checkout_line_info" where
  "get_the_cheapest_line lines = (case lines of [] \<Rightarrow> Inl EmptySequence
     | l # rest \<Rightarrow> if rest = [] then Inr l
         else if list_ex (\<lambda>x. li_discounted_price_amount (ci_channel_listing x) = None) lines then Inl MissingPrice
         else Inr (min_by (\<lambda>x. the (li_discounted_price_amount (ci_channel_listing x))) l rest))"

text \<open>
  Lines are compared as Python compares them: by identity or, field by field, by their content. The first of equal
  lines is the cheapest and takes the voucher, after which it no longer equals the others; keys decide the same.
\<close>

definition apply_voucher_to_checkout_line :: "voucher \<Rightarrow> checkout_line_info list \<Rightarrow> discount_error + checkout_line_info list" where
  "apply_voucher_to_checkout_line v lines =
     (let specific = (if vo_type v = VoucherType_SPECIFIC_PRODUCT then get_discounted_lines lines v else []);
          included = (if vo_type v = VoucherType_SPECIFIC_PRODUCT then specific else lines)
      in bindr (if vo_apply_once_per_order v then bindr (get_the_cheapest_line included) (\<lambda>l. Inr [l]) else Inr specific)
           (\<lambda>discounted. Inr (map (\<lambda>l. if ct_pk (ci_line l) \<in> (ct_pk \<circ> ci_line) ` set discounted
              then l\<lparr>ci_voucher := Some v\<rparr> else l) lines)))"

text \<open>What fetching the lines does with the voucher that was found for the checkout.\<close>

definition fetch_lines_voucher :: "voucher option \<Rightarrow> checkout \<Rightarrow> checkout_line_info list \<Rightarrow> discount_error + checkout_line_info list" where
  "fetch_lines_voucher found c lines =
     (if ch_voucher_code c = None \<or> ch_voucher_code c = Some [] \<or> lines = [] then Inr lines
      else (case found of None \<Rightarrow> Inr lines
        | Some v \<Rightarrow> if vo_type v = VoucherType_SPECIFIC_PRODUCT \<or> vo_apply_once_per_order v
            then apply_voucher_to_checkout_line v lines else Inr lines))"

subsection \<open>The discount of a checkout\<close>

definition validate_voucher_for_checkout ::
    "prices \<Rightarrow> (string \<Rightarrow> nat) \<Rightarrow> voucher_db \<Rightarrow> voucher \<Rightarrow> checkout_info \<Rightarrow> checkout_line_info list \<Rightarrow> discount_error + unit" where
  "validate_voucher_for_checkout P prec s v info lines =
     bindr (base_checkout_subtotal P prec s (ch_currency (cf_checkout info)) (cf_channel info) lines) (\<lambda>subtotal.
       validate_voucher s v subtotal (calculate_checkout_quantity lines)
         (case get_customer_email info of None \<Rightarrow> [] | Some e \<Rightarrow> e) (cf_channel info) (cf_user info))"

definition get_shipping_voucher_discount_for_checkout ::
    "prices \<Rightarrow> (string \<Rightarrow> nat) \<Rightarrow> voucher_db \<Rightarrow> voucher \<Rightarrow> checkout_info \<Rightarrow> checkout_line_info list \<Rightarrow> string option
     \<Rightarrow> discount_error + decimal" where
  "get_shipping_voucher_discount_for_checkout P prec s v info lines country =
     (if \<not> is_shipping_required lines then Inl ShippingNotRequired
      else if cf_delivery_method info = NoDelivery then Inl NoDeliveryMethod
      else if (case country of None \<Rightarrow> False | Some c \<Rightarrow> vo_countries v \<noteq> [] \<and> c \<notin> set (vo_countries v)) then Inl NotInCountry
      else get_discount_amount_for P s v (base_checkout_undiscounted_delivery_price prec info lines) (cf_channel info))"

definition get_products_voucher_discount_for_checkout ::
    "prices \<Rightarrow> voucher_db \<Rightarrow> checkout_info \<Rightarrow> checkout_line_info list \<Rightarrow> voucher \<Rightarrow> discount_error + decimal" where
  "get_products_voucher_discount_for_checkout P s info lines v =
     (let prices = (if vo_type v = VoucherType_SPECIFIC_PRODUCT then get_prices_of_discounted_specific_product lines v else [])
      in if prices = [] then Inl SelectedItemsOnly
         else bindr (present_prices prices) (\<lambda>prices. get_products_voucher_discount P s v prices (cf_channel info)))"

definition get_voucher_discount_for_checkout ::
    "prices \<Rightarrow> (string \<Rightarrow> nat) \<Rightarrow> voucher_db \<Rightarrow> voucher \<Rightarrow> checkout_info \<Rightarrow> checkout_line_info list \<Rightarrow> string option
     \<Rightarrow> discount_error + decimal" where
  "get_voucher_discount_for_checkout P prec s v info lines country =
     bindr (validate_voucher_for_checkout P prec s v info lines) (\<lambda>_.
       case vo_type v of
         VoucherType_ENTIRE_ORDER \<Rightarrow>
           if vo_apply_once_per_order v
           then bindr (present_prices (get_base_lines_prices lines)) (\<lambda>prices.
             if prices = [] then Inl EmptySequence else get_discount_amount_for P s v (Min (set prices)) (cf_channel info))
           else bindr (base_checkout_subtotal P prec s (ch_currency (cf_checkout info)) (cf_channel info) lines) (\<lambda>subtotal.
             get_discount_amount_for P s v subtotal (cf_channel info))
       | VoucherType_SHIPPING \<Rightarrow> get_shipping_voucher_discount_for_checkout P prec s v info lines country
       | VoucherType_SPECIFIC_PRODUCT \<Rightarrow> get_products_voucher_discount_for_checkout P s info lines v)"

text \<open>The country of an address that may be missing: of the one for shipping, else of the one for the bill.\<close>

definition address_country :: "checkout_info \<Rightarrow> string option" where
  "address_country info = (case cf_shipping_country info of Some c \<Rightarrow> Some c | None \<Rightarrow> cf_billing_country info)"

definition remove_voucher_from_checkout :: "checkout \<Rightarrow> checkout" where
  "remove_voucher_from_checkout c = c\<lparr>ch_voucher_code := None, ch_discount_name := None,
     ch_translated_discount_name := None, ch_discount_amount := 0\<rparr>"

definition translated_discount_name :: "(voucher \<Rightarrow> string \<Rightarrow> string) \<Rightarrow> voucher \<Rightarrow> checkout \<Rightarrow> string" where
  "translated_discount_name voucher_name v c =
     (let name = voucher_name v (ch_language_code c) in if name \<noteq> vo_name v then name else [])"

definition check_voucher_for_checkout ::
    "prices \<Rightarrow> (string \<Rightarrow> nat) \<Rightarrow> voucher_db \<Rightarrow> voucher \<Rightarrow> checkout_info \<Rightarrow> checkout_line_info list
     \<Rightarrow> discount_error + decimal option \<times> checkout_info" where
  "check_voucher_for_checkout P prec s v info lines =
     (case get_voucher_discount_for_checkout P prec s v info lines (address_country info) of
        Inr discount \<Rightarrow> Inr (Some discount, info)
      | Inl e \<Rightarrow> if is_not_applicable e
          then Inr (None, info\<lparr>cf_checkout := remove_voucher_from_checkout (cf_checkout info), cf_voucher := None\<rparr>)
          else Inl e)"

text \<open>A discount of nothing is as no discount: what the checkout had before stays.\<close>

definition recalculate_checkout_discount ::
    "prices \<Rightarrow> (string \<Rightarrow> nat) \<Rightarrow> (voucher \<Rightarrow> string \<Rightarrow> string) \<Rightarrow> voucher_db \<Rightarrow> checkout_info \<Rightarrow> checkout_line_info list
     \<Rightarrow> discount_error + checkout_info" where
  "recalculate_checkout_discount P prec voucher_name s info lines =
     (case cf_voucher info of
        None \<Rightarrow> Inr (info\<lparr>cf_checkout := remove_voucher_from_checkout (cf_checkout info)\<rparr>)
      | Some v \<Rightarrow> bindr (check_voucher_for_checkout P prec s v info lines) (\<lambda>(discount, info).
          if discount = None \<or> discount = Some 0 then Inr info
          else bindr (base_checkout_subtotal P prec s (ch_currency (cf_checkout info)) (cf_channel info) lines) (\<lambda>subtotal.
            Inr (info\<lparr>cf_checkout := (cf_checkout info)\<lparr>
              ch_discount_amount := (if vo_type v \<noteq> VoucherType_SHIPPING then min (the discount) subtotal else the discount),
              ch_discount_name := Some (vo_name v),
              ch_translated_discount_name := Some (translated_discount_name voucher_name v (cf_checkout info))\<rparr>\<rparr>))))"

definition add_voucher_to_checkout ::
    "prices \<Rightarrow> (string \<Rightarrow> nat) \<Rightarrow> (voucher \<Rightarrow> string \<Rightarrow> string) \<Rightarrow> voucher_db \<Rightarrow> checkout_info \<Rightarrow> checkout_line_info list
     \<Rightarrow> voucher \<Rightarrow> voucher_code \<Rightarrow> discount_error + checkout_info" where
  "add_voucher_to_checkout P prec voucher_name s info lines v code =
     bindr (get_voucher_discount_for_checkout P prec s v info lines (address_country info)) (\<lambda>discount.
       Inr (info\<lparr>cf_checkout := (cf_checkout info)\<lparr>ch_voucher_code := Some (vc_code code), ch_discount_name := Some (vo_name v),
              ch_translated_discount_name := Some (translated_discount_name voucher_name v (cf_checkout info)),
              ch_discount_amount := discount\<rparr>,
            cf_voucher := Some v\<rparr>))"

text \<open>The errors of the mutations that add and remove promo codes.\<close>

datatype promo_error = PromoInvalid | VoucherNotApplicable | PromoFailed discount_error

definition add_voucher_code_to_checkout ::
    "prices \<Rightarrow> (string \<Rightarrow> nat) \<Rightarrow> (voucher \<Rightarrow> string \<Rightarrow> string) \<Rightarrow> (voucher_code list \<Rightarrow> voucher_code) \<Rightarrow> datetime \<Rightarrow> string
     \<Rightarrow> voucher_db \<Rightarrow> checkout_info \<Rightarrow> checkout_line_info list \<Rightarrow> string \<Rightarrow> promo_error + checkout_info" where
  "add_voucher_code_to_checkout P prec voucher_name any_row now slug s info lines voucher_code =
     (case get_voucher_code_instance any_row now voucher_code slug s of
        Inl e \<Rightarrow> Inl (if e = InvalidPromoCode then PromoInvalid else PromoFailed e)
      | Inr code \<Rightarrow>
          (case row_of vo_pk (vc_voucher code) (vd_vouchers s) of
             None \<Rightarrow> Inl PromoInvalid
           | Some v \<Rightarrow> (case add_voucher_to_checkout P prec voucher_name s info lines v code of
               Inl e \<Rightarrow> Inl (if is_not_applicable e then VoucherNotApplicable else PromoFailed e)
             | Inr info \<Rightarrow> Inr info)))"

text \<open>The voucher is compared by its own code, which is only one of its codes.\<close>

definition remove_voucher_code_from_checkout :: "voucher_db \<Rightarrow> checkout_info \<Rightarrow> string \<Rightarrow> bool \<times> checkout_info" where
  "remove_voucher_code_from_checkout s info voucher_code =
     (case cf_voucher info of
        Some v \<Rightarrow> if code_of_voucher v s = Some voucher_code
          then (True, info\<lparr>cf_checkout := remove_voucher_from_checkout (cf_checkout info), cf_voucher := None\<rparr>)
          else (False, info)
      | None \<Rightarrow> (False, info))"

subsection \<open>The discount objects of lines\<close>

definition unit_discount :: "variant_listing \<Rightarrow> decimal" where
  "unit_discount listing = (case (li_price_amount listing, li_discounted_price_amount listing) of
     (Some price, Some discounted) \<Rightarrow> price - discounted | _ \<Rightarrow> 0)"

definition get_discount_amount :: "variant_listing \<Rightarrow> int \<Rightarrow> decimal" where
  "get_discount_amount listing line_quantity = unit_discount listing * of_int line_quantity"

definition get_rule_discount_amount :: "listing_rule \<Rightarrow> int \<Rightarrow> decimal" where
  "get_rule_discount_amount r line_quantity = lr_discount_amount r * of_int line_quantity"

definition get_discount_name :: "promotion_rule \<Rightarrow> promotion \<Rightarrow> string option" where
  "get_discount_name r p = (case ru_name r of
     None \<Rightarrow> Some (pm_name p)
   | Some n \<Rightarrow> if pm_name p \<noteq> [] \<and> n \<noteq> [] then Some (pm_name p @ '': '' @ n)
               else if n \<noteq> [] then Some n else Some (pm_name p))"

definition get_discount_translated_name :: "variant_rule_info \<Rightarrow> string option" where
  "get_discount_translated_name i = (case (vi_promotion_translation i, vi_rule_translation i) of
     (Some p, Some r) \<Rightarrow> Some (p @ '': '' @ r)
   | (None, Some r) \<Rightarrow> Some r
   | (Some p, None) \<Rightarrow> Some p
   | (None, None) \<Rightarrow> None)"

definition update_line_discount :: "variant_rule_info \<Rightarrow> decimal \<Rightarrow> line_discount \<Rightarrow> line_discount" where
  "update_line_discount i rule_discount_amount d = d\<lparr>
     ld_value_type := ru_reward_value_type (vi_rule i), ld_value := ru_reward_value (vi_rule i),
     ld_amount_value := rule_discount_amount, ld_name := get_discount_name (vi_rule i) (vi_promotion i),
     ld_translated_name := get_discount_translated_name i\<rparr>"

definition new_line_discount :: "nat \<Rightarrow> nat \<Rightarrow> variant_rule_info \<Rightarrow> decimal \<Rightarrow> line_discount" where
  "new_line_discount pk line i rule_discount_amount = \<lparr>ld_pk = pk, ld_line = line, ld_type = DiscountType_PROMOTION,
     ld_value_type = ru_reward_value_type (vi_rule i), ld_value = ru_reward_value (vi_rule i),
     ld_amount_value = rule_discount_amount, ld_name = get_discount_name (vi_rule i) (vi_promotion i),
     ld_translated_name = get_discount_translated_name i, ld_promotion_rule = Some (ru_pk (vi_rule i))\<rparr>"

text \<open>
  One line, which has at most one promotion discount for a rule, as a listing has one row for a rule: all
  discounts go when the listing is not discounted; otherwise those of rules that no longer apply go,
  the others are brought up to date, and missing ones are added, with the next free keys.
\<close>

fun refresh_rules :: "nat \<Rightarrow> checkout_item \<Rightarrow> variant_rule_info list \<Rightarrow> line_discount list \<Rightarrow> nat \<times> line_discount list" where
  "refresh_rules pk line [] ds = (pk, ds)"
| "refresh_rules pk line (i # infos) ds =
     (let amount = get_rule_discount_amount (vi_variant_listing_promotion_rule i) (ct_quantity line);
          same = (\<lambda>d. ld_type d = DiscountType_PROMOTION \<and> ld_promotion_rule d = Some (ru_pk (vi_rule i)))
      in if \<exists>d \<in> set ds. same d
         then refresh_rules pk line infos (map (\<lambda>d. if same d then update_line_discount i amount d else d) ds)
         else refresh_rules (Suc pk) line infos (ds @ [new_line_discount pk (ct_pk line) i amount]))"

definition refresh_line_discounts :: "nat \<Rightarrow> checkout_line_info \<Rightarrow> nat \<times> checkout_line_info" where
  "refresh_line_discounts pk l =
     (if get_discount_amount (ci_channel_listing l) (ct_quantity (ci_line l)) = 0 then (pk, l\<lparr>ci_discounts := []\<rparr>)
      else (let rules = (\<lambda>i. ru_pk (vi_rule i)) ` set (ci_rules_info l);
                valid = filter (\<lambda>d. ld_type d = DiscountType_PROMOTION \<longrightarrow> ld_promotion_rule d \<in> Some ` rules) (ci_discounts l)
            in case refresh_rules pk (ci_line l) (ci_rules_info l) valid of (pk, ds) \<Rightarrow> (pk, l\<lparr>ci_discounts := ds\<rparr>)))"

fun refresh_all_discounts :: "nat \<Rightarrow> checkout_line_info list \<Rightarrow> checkout_line_info list" where
  "refresh_all_discounts pk [] = []"
| "refresh_all_discounts pk (l # lines) =
     (case refresh_line_discounts pk l of (pk, l) \<Rightarrow> l # refresh_all_discounts pk lines)"

text \<open>
  The stored discounts afterwards: those of the lines are written as the line infos hold them; of a line that is not
  discounted only the promotion discounts are deleted.
\<close>

definition create_or_update_discount_objects_from_promotion_for_checkout ::
    "nat \<Rightarrow> checkout_line_info list \<Rightarrow> line_discount list \<Rightarrow> checkout_line_info list \<times> line_discount list" where
  "create_or_update_discount_objects_from_promotion_for_checkout pk lines rows =
     (let refreshed = refresh_all_discounts pk lines;
          old = concat (map get_promotion_discounts lines);
          present = concat (map ci_discounts refreshed);
          kept = filter (\<lambda>r. ld_pk r \<in> ld_pk ` set present \<or> ld_pk r \<notin> ld_pk ` set old) rows
      in (refreshed, map (\<lambda>r. case row_of ld_pk (ld_pk r) present of None \<Rightarrow> r | Some d \<Rightarrow> d) kept
            @ filter (\<lambda>d. ld_pk d \<notin> ld_pk ` set rows) present))"

text \<open>Invalidating the prices of a checkout recalculates its discounts and lets the prices expire.\<close>

definition invalidate_checkout_discounts ::
    "prices \<Rightarrow> (string \<Rightarrow> nat) \<Rightarrow> (voucher \<Rightarrow> string \<Rightarrow> string) \<Rightarrow> nat \<Rightarrow> voucher_db \<Rightarrow> checkout_info \<Rightarrow> checkout_line_info list
     \<Rightarrow> line_discount list \<Rightarrow> discount_error + checkout_info \<times> checkout_line_info list \<times> line_discount list" where
  "invalidate_checkout_discounts P prec voucher_name pk s info lines rows =
     (case create_or_update_discount_objects_from_promotion_for_checkout pk lines rows of (lines, rows) \<Rightarrow>
        bindr (recalculate_checkout_discount P prec voucher_name s info lines) (\<lambda>info. Inr (info, lines, rows)))"

end
