(* ===== verification/CheckoutLaws.thy ===== *)
theory CheckoutLaws
  imports CheckoutVouchers StoredPrices
begin

section \<open>What the prices of a checkout promise\<close>

text \<open>
  Line totals lie between nothing and the undiscounted price, and a voucher for one piece takes no more than the price
  of one piece; the parts of the order's discount add up to it; what a line costs after its discounts were
  refreshed is its quantity times the stored discounted price; the discount of a checkout is at most its subtotal.
\<close>

subsection \<open>Line totals\<close>

definition discounts_ok :: "checkout_line_info \<Rightarrow> decimal \<Rightarrow> bool" where
  "discounts_ok l price \<longleftrightarrow> 0 < ct_quantity (ci_line l) \<and> list_all (\<lambda>d. 0 \<le> ld_amount_value d) (ci_discounts l)
     \<and> sum_list (map ld_amount_value (ci_discounts l)) \<le> price * of_int (ct_quantity (ci_line l))"

lemma voucher_line_total_bounds:
  assumes "prices_law P" "values_nonneg s" "0 < quantity" "0 \<le> t" "voucher_line_total P s v channel quantity t = Inr r"
  shows "0 \<le> r \<and> r \<le> t \<and> (vo_apply_once_per_order v \<longrightarrow> t - t / of_int quantity \<le> r)"
proof -
  let ?q = "of_int quantity :: decimal"
  have q: "0 < ?q" "1 \<le> ?q" using assms(3) by simp_all
  have u: "0 \<le> t / ?q" using assms(4) q by simp
  have unit: "0 \<le> a \<and> a \<le> t / ?q" if "get_discount_amount_for P s v (t / ?q) channel = Inr a" for a
    by (rule get_discount_amount_bounds [OF assms(1,2) u that])
  have whole: "0 \<le> a \<and> a \<le> t" if "get_discount_amount_for P s v t channel = Inr a" for a
    by (rule get_discount_amount_bounds [OF assms(1,2,4) that])
  show ?thesis
  proof (cases "vo_apply_once_per_order v")
    case True
    with assms(3,5) obtain a where a: "get_discount_amount_for P s v (t / ?q) channel = Inr a"
      and r: "r = t / ?q * of_int (quantity - 1) + max (t / ?q - a) 0"
      by (auto simp: voucher_line_total_def per_unit_def bindr_eq_Inr Let_def)
    have "t / ?q * of_int (quantity - 1) = t - t / ?q" using q by (simp add: field_simps)
    moreover have "t / ?q \<le> t" using q assms(4) by (simp add: divide_le_eq mult_le_cancel_left1)
    ultimately show ?thesis using unit [OF a] by (auto simp: r)
  next
    case False
    show ?thesis
    proof (cases "vo_discount_value_type v = DiscountValueType_PERCENTAGE")
      case True
      with False assms(5) obtain a where "get_discount_amount_for P s v t channel = Inr a" "r = max (t - a) 0"
        by (auto simp: voucher_line_total_def bindr_eq_Inr)
      with whole [of a] False assms(4) show ?thesis by simp
    next
      case fixed: False
      with False assms(3,5) obtain a where a: "get_discount_amount_for P s v (t / ?q) channel = Inr a" and r: "r = max (t - a * ?q) 0"
        by (auto simp: voucher_line_total_def per_unit_def bindr_eq_Inr)
      have "0 \<le> a * ?q" using unit [OF a] q by simp
      with False assms(4) show ?thesis by (simp add: r)
    qed
  qed
qed

text \<open>
  C29: with discounts that are not negative and no larger than its price, the total of a
  checkout line, after promotions and a voucher of any kind, lies between zero and its rounded
  undiscounted price
\<close>

theorem base_line_total_bounds:
  assumes "prices_law P" "values_nonneg s"
    and price: "get_base_price (ci_channel_listing l) (ct_price_override (ci_line l)) = Inr price" "discounts_ok l price"
    and total: "calculate_base_line_total_price P prec s currency channel l = Inr amount"
  shows "0 \<le> amount \<and> amount \<le> quantize_price prec (price * of_int (ct_quantity (ci_line l))) currency"
proof -
  let ?q = "ct_quantity (ci_line l)" and ?d = "sum_list (map ld_amount_value (ci_discounts l))"
  define t where "t = price * of_int ?q - ?d"
  have d: "0 \<le> ?d" using price(2) by (auto simp: discounts_ok_def list_all_iff intro!: sum_list_nonneg)
  have t: "0 \<le> t" "t \<le> price * of_int ?q" using price(2) d by (simp_all add: discounts_ok_def t_def)
  from total have "bindr (case ci_voucher l of None \<Rightarrow> Inr t | Some v \<Rightarrow> voucher_line_total P s v channel ?q t)
      (\<lambda>r. Inr (quantize_price prec r currency)) = Inr amount"
    unfolding calculate_base_line_total_price_def price(1) bindr_simps Let_def t_def [symmetric] .
  then obtain r where r: "(case ci_voucher l of None \<Rightarrow> Inr t | Some v \<Rightarrow> voucher_line_total P s v channel ?q t) = Inr r"
    and total: "amount = quantize_price prec r currency" by (auto simp: bindr_eq_Inr)
  have "0 \<le> r \<and> r \<le> t"
  proof (cases "ci_voucher l")
    case None
    with r t show ?thesis by simp
  next
    case (Some v)
    with r have "voucher_line_total P s v channel ?q t = Inr r" by simp
    moreover have "0 < ?q" using price(2) by (simp add: discounts_ok_def)
    ultimately show ?thesis using voucher_line_total_bounds [OF assms(1,2) _ t(1)] by blast
  qed
  with t show ?thesis unfolding total quantize_price_def Let_def by (auto intro: quantize_nonneg quantize_mono)
qed

definition zl :: "string \<Rightarrow> nat" where "zl c = 2"

definition coat_rule_row :: listing_rule where
  "coat_rule_row = \<lparr>lr_listing = 30, lr_rule = 11, lr_discount_amount = 2\<rparr>"

definition coat_rule_info :: variant_rule_info where
  "coat_rule_info = \<lparr>vi_rule = fixed_rule 11 1 2, vi_variant_listing_promotion_rule = coat_rule_row,
     vi_promotion = sale_promotion 1 None, vi_promotion_translation = None, vi_rule_translation = None\<rparr>"

definition coat_line :: "voucher option \<Rightarrow> checkout_line_info" where
  "coat_line v = \<lparr>ci_line = \<lparr>ct_pk = 50, ct_variant = 21, ct_quantity = 3, ct_price_override = None\<rparr>,
     ci_channel_listing = coat_listing\<lparr>li_discounted_price_amount := Some 8\<rparr>, ci_product = 5, ci_category = None,
     ci_collections = [], ci_is_shipping_required = True,
     ci_discounts = [new_line_discount 60 50 coat_rule_info 6], ci_rules_info = [coat_rule_info], ci_voucher = v\<rparr>"

definition scarf_line :: checkout_line_info where
  "scarf_line = \<lparr>ci_line = \<lparr>ct_pk = 51, ct_variant = 22, ct_quantity = 2, ct_price_override = None\<rparr>,
     ci_channel_listing = scarf_listing, ci_product = 5, ci_category = None, ci_collections = [],
     ci_is_shipping_required = True, ci_discounts = [], ci_rules_info = [], ci_voucher = None\<rparr>"

definition winter_checkout :: checkout where
  "winter_checkout = \<lparr>ch_pk = 1, ch_email = Some ''a@b.pl'', ch_currency = ''PLN'', ch_language_code = ''pl'',
     ch_voucher_code = Some ''WINTER'', ch_discount_amount = 4, ch_discount_name = None,
     ch_translated_discount_name = None, ch_gift_cards = []\<rparr>"

definition winter_info :: checkout_info where
  "winter_info = \<lparr>cf_checkout = winter_checkout, cf_user = None, cf_channel = 3, cf_shipping_country = Some ''PL'',
     cf_billing_country = None, cf_delivery_method = ShippingDelivery 12, cf_voucher = Some winter_voucher\<rparr>"

lemmas checkout_shop_defs = coat_line_def scarf_line_def winter_checkout_def winter_info_def coat_rule_info_def
  coat_rule_row_def promotion_shop_defs voucher_shop_defs new_line_discount_def

lemma base_line_total_bounds_witness:
  "calculate_base_line_total_price plain_prices zl voucher_shop ''PLN'' 3 (coat_line (Some winter_voucher)) = Inr (216/10)
   \<and> (0::decimal) \<le> 216/10 \<and> (216/10 :: decimal) \<le> 30"
proof -
  have r: "calculate_base_line_total_price plain_prices zl voucher_shop ''PLN'' 3 (coat_line (Some winter_voucher)) = Inr (216/10)"
    by code_simp
  have q: "quantize_price zl (10 * 3) ''PLN'' = 30" by code_simp
  from base_line_total_bounds [OF plain_prices_law _ _ _ r, of 10] q r show ?thesis
    by (simp add: checkout_shop_defs values_nonneg_def get_base_price_def discounts_ok_def)
qed

subsection \<open>Dividing the discount of an order\<close>

lemma map_results_cong: "(\<And>x. x \<in> set xs \<Longrightarrow> f x = Inr (g x)) \<Longrightarrow> map_results f xs = Inr (map g xs)"
  by (induction xs) auto

lemma map_results_map: "map_results g (map h xs) = map_results (g \<circ> h) xs"
  by (induction xs) simp_all

lemma map_results_weights:
  assumes "map_results f xs = Inr ys"
  shows "\<exists>w. (\<forall>x \<in> set xs. f x = Inr (w x)) \<and> ys = map w xs"
proof -
  have "\<forall>x \<in> set xs. f x = Inr (projr (f x))" "ys = map (projr \<circ> f) xs"
    using assms by (induction xs arbitrary: ys) (auto simp: bindr_eq_Inr)
  then show ?thesis by (intro exI [of _ "projr \<circ> f"]) simp
qed

lemma sum_without:
  fixes w :: "'a \<Rightarrow> decimal"
  assumes "distinct (map key xs)" "x \<in> set xs"
  shows "sum_list (map w (filter (\<lambda>y. key y \<noteq> key x) xs)) + w x = sum_list (map w xs)"
  using assms
proof (induction xs)
  case (Cons y xs)
  show ?case
  proof (cases "key y = key x")
    case True
    with Cons.prems have "x = y" by (auto simp: image_iff)
    moreover have "filter (\<lambda>z. key z \<noteq> key x) xs = xs"
      using Cons.prems(1) True by (auto simp: filter_id_conv image_iff)
    ultimately show ?thesis by simp
  next
    case False
    then have "x \<in> set xs" using Cons.prems(2) by auto
    with Cons False show ?thesis by (simp add: add.assoc)
  qed
qed simp

lemma order_discount_divided_lines:
  assumes voucher: "cf_voucher info = Some v" "vo_type v = VoucherType_ENTIRE_ORDER" "\<not> vo_apply_once_per_order v"
    and lines: "length lines \<noteq> 1" "distinct (map (ct_pk \<circ> ci_line) lines)"
    and totals: "map_results (calculate_base_line_total_price P prec s (ch_currency (cf_checkout info)) (cf_channel info)) lines
      = Inr totals" "list_all (\<lambda>t. 0 \<le> t) totals" "0 < sum_list totals"
    and discount: "0 \<le> ch_discount_amount (cf_checkout info)" "ch_discount_amount (cf_checkout info) \<le> sum_list totals"
  shows "\<exists>parts. map_results (\<lambda>(l, t). apply_checkout_discount_on_checkout_line P prec s info lines l t) (zip lines totals)
      = Inr parts \<and> sum_list parts = sum_list totals - ch_discount_amount (cf_checkout info) \<and> list_all (\<lambda>p. 0 \<le> p) parts"
proof -
  let ?f = "calculate_base_line_total_price P prec s (ch_currency (cf_checkout info)) (cf_channel info)"
    and ?D = "ch_discount_amount (cf_checkout info)" and ?key = "ct_pk \<circ> ci_line"
  let ?T = "sum_list totals"
  from map_results_weights [OF totals(1)] obtain w
    where w: "\<And>l. l \<in> set lines \<Longrightarrow> ?f l = Inr (w l)" and ts: "totals = map w lines" by blast
  define part where "part = (\<lambda>l. w l - w l / ?T * ?D)"
  have T0: "?T \<noteq> 0" using totals(3) by simp
  have nonneg: "0 \<le> part l" if "l \<in> set lines" for l
  proof -
    have "0 \<le> w l" using totals(2) that by (auto simp: ts list_all_iff)
    moreover have "?D / ?T \<le> 1" using discount totals(3) by simp
    ultimately have "w l * (?D / ?T) \<le> w l" by (metis mult.right_neutral mult_left_mono)
    then show ?thesis by (simp add: part_def)
  qed
  have others: "map_results ?f (filter (\<lambda>x. ct_pk (ci_line x) \<noteq> ct_pk (ci_line l)) lines)
      = Inr (map w (filter (\<lambda>x. ?key x \<noteq> ?key l) lines))" for l
    using w by (subst map_results_cong [of _ _ w]) auto
  have rest: "sum_list (map w (filter (\<lambda>x. ?key x \<noteq> ?key l) lines)) + w l = ?T" if "l \<in> set lines" for l
    unfolding ts by (rule sum_without [OF lines(2) that])
  have last: "calculate_discount_for_last_element ws ?T ?D = Inr (?D - sum_list ws / ?T * ?D)" for ws
  proof -
    have "map_results (part_of ?T ?D) ws = Inr (map (\<lambda>x. x / ?T * ?D) ws)"
      using T0 by (intro map_results_cong) (simp add: part_of_def)
    moreover have "sum_list (map (\<lambda>x. x / ?T * ?D) ws) = sum_list ws / ?T * ?D"
      by (induction ws) (simp_all add: add_divide_distrib distrib_right)
    ultimately show ?thesis by (simp add: calculate_discount_for_last_element_def)
  qed
  have one: "apply_checkout_discount_on_checkout_line P prec s info lines l (w l) = Inr (part l)" if l: "l \<in> set lines" for l
  proof -
    have ne: "lines \<noteq> []" using l by auto
    let ?ws = "map w (filter (\<lambda>x. ?key x \<noteq> ?key l) lines)"
    have ws: "sum_list ?ws = ?T - w l" using rest [OF l] by (metis add_diff_cancel_right')
    have "?D - sum_list ?ws / ?T * ?D = w l / ?T * ?D"
      unfolding ws using T0 by (simp add: diff_divide_distrib left_diff_distrib)
    with last [of ?ws] have e: "calculate_discount_for_last_element ?ws ?T ?D = Inr (w l / ?T * ?D)" by simp
    have "part_of ?T ?D (w l) = Inr (w l / ?T * ?D)" using T0 by (simp add: part_of_def)
    with e have part: "(if lines = [] then Inl EmptySequence
        else if ct_pk (ci_line (List.last lines)) = ct_pk (ci_line l) then calculate_discount_for_last_element ?ws ?T ?D
        else part_of ?T ?D (w l)) = Inr (w l / ?T * ?D)" using ne by simp
    have "apply_checkout_discount_on_checkout_line P prec s info lines l (w l)
      = bindr (if lines = [] then Inl EmptySequence
        else if ct_pk (ci_line (List.last lines)) = ct_pk (ci_line l) then calculate_discount_for_last_element ?ws ?T ?D
        else part_of ?T ?D (w l)) (\<lambda>a. Inr (max (w l - a) 0))"
      unfolding apply_checkout_discount_on_checkout_line_def others bindr_simps Let_def rest [OF l]
      using voucher lines(1) by simp
    also have "\<dots> = Inr (part l)" unfolding part using nonneg [OF l] by (simp add: part_def)
    finally show ?thesis .
  qed
  have "map_results (\<lambda>(l, t). apply_checkout_discount_on_checkout_line P prec s info lines l t) (zip lines totals)
      = Inr (map part lines)"
  proof -
    have z: "zip lines totals = map (\<lambda>l. (l, w l)) lines" unfolding ts by (induction lines) simp_all
    show ?thesis unfolding z map_results_map by (rule map_results_cong) (simp add: one)
  qed
  moreover have "sum_list (map part lines) = ?T - ?D"
  proof -
    have "sum_list (map part xs) = sum_list (map w xs) - sum_list (map w xs) / ?T * ?D" for xs
      by (induction xs) (simp_all add: part_def add_divide_distrib distrib_right)
    from this [of lines] show ?thesis using T0 by (simp add: ts [symmetric])
  qed
  ultimately show ?thesis using nonneg by (auto simp: list_all_iff)
qed

text \<open>
  C18: the discount of an entire order, divided among several lines in proportion to their
  totals, leaves line prices that are not negative and add up exactly to the totals less the
  discount, provided the totals are not negative and not all zero and the discount lies between
  zero and their sum (all lines free raise an error)
\<close>

theorem order_discount_divided:
  assumes voucher: "cf_voucher info = Some v" "vo_type v = VoucherType_ENTIRE_ORDER" "\<not> vo_apply_once_per_order v"
    and lines: "length lines \<noteq> 1" "distinct (map (ct_pk \<circ> ci_line) lines)"
    and totals: "map_results (calculate_base_line_total_price P prec s (ch_currency (cf_checkout info)) (cf_channel info)) lines
      = Inr totals" "list_all (\<lambda>t. 0 \<le> t) totals" "0 < sum_list totals"
    and discount: "0 \<le> ch_discount_amount (cf_checkout info)" "ch_discount_amount (cf_checkout info) \<le> sum_list totals"
  shows "\<exists>parts. map_results (\<lambda>(l, t). apply_checkout_discount_on_checkout_line P prec s info lines l t) (zip lines totals)
      = Inr parts \<and> sum_list parts = sum_list totals - ch_discount_amount (cf_checkout info) \<and> list_all (\<lambda>p. 0 \<le> p) parts"
  by (rule order_discount_divided_lines [OF assms])

lemma order_discount_divided_witness:
  "\<exists>parts. map_results (\<lambda>(l, t). apply_checkout_discount_on_checkout_line plain_prices zl voucher_shop winter_info
      [coat_line None, scarf_line] l t) (zip [coat_line None, scarf_line] [24, 16]) = Inr parts \<and> sum_list parts = 36"
proof -
  have t: "map_results (calculate_base_line_total_price plain_prices zl voucher_shop (ch_currency (cf_checkout winter_info))
      (cf_channel winter_info)) [coat_line None, scarf_line] = Inr [24, 16]" by code_simp
  from order_discount_divided [OF _ _ _ _ _ t, of winter_voucher] show ?thesis
    by (auto simp: checkout_shop_defs)
qed

end
