(* ===== verification/CheckoutDiscounts.thy ===== *)
theory CheckoutDiscounts
  imports CheckoutLaws
begin

section \<open>The discounts of lines and of the checkout\<close>

subsection \<open>After its discounts are refreshed, a line costs its stored price\<close>

definition discounts_total :: "line_discount list \<Rightarrow> decimal" where
  "discounts_total ds = sum_list (map ld_amount_value ds)"

lemma discounts_total_simps [simp]:
  "discounts_total [] = 0" "discounts_total (d # ds) = ld_amount_value d + discounts_total ds"
  "discounts_total (ds @ es) = discounts_total ds + discounts_total es"
  by (simp_all add: discounts_total_def)

text \<open>A line with one promotion discount for a rule, and no other discounts.\<close>

definition line_discounts_ok :: "line_discount list \<Rightarrow> bool" where
  "line_discounts_ok ds \<longleftrightarrow> list_all (\<lambda>d. ld_type d = DiscountType_PROMOTION) ds \<and> distinct (map ld_promotion_rule ds)"

abbreviation without_rules :: "variant_rule_info list \<Rightarrow> line_discount list \<Rightarrow> line_discount list" where
  "without_rules infos ds \<equiv> filter (\<lambda>d. ld_promotion_rule d \<notin> Some ` (\<lambda>i. ru_pk (vi_rule i)) ` set infos) ds"

definition rules_amount :: "checkout_item \<Rightarrow> variant_rule_info list \<Rightarrow> decimal" where
  "rules_amount line infos =
     sum_list (map (\<lambda>i. get_rule_discount_amount (vi_variant_listing_promotion_rule i) (ct_quantity line)) infos)"

lemma update_line_discount_fields [simp]:
  "ld_type (update_line_discount i a d) = ld_type d" "ld_promotion_rule (update_line_discount i a d) = ld_promotion_rule d"
  "ld_amount_value (update_line_discount i a d) = a" "ld_pk (update_line_discount i a d) = ld_pk d"
  by (simp_all add: update_line_discount_def)

lemma new_line_discount_fields [simp]:
  "ld_type (new_line_discount pk l i a) = DiscountType_PROMOTION"
  "ld_promotion_rule (new_line_discount pk l i a) = Some (ru_pk (vi_rule i))" "ld_amount_value (new_line_discount pk l i a) = a"
  by (simp_all add: new_line_discount_def)

lemma total_of_updated:
  assumes "distinct (map ld_promotion_rule ds)" "k \<in> ld_promotion_rule ` set ds" "k \<notin> R"
    and u: "\<And>d. ld_promotion_rule (u d) = ld_promotion_rule d" "\<And>d. ld_amount_value (u d) = a"
  shows "discounts_total (filter (\<lambda>d. ld_promotion_rule d \<notin> R) (map (\<lambda>d. if ld_promotion_rule d = k then u d else d) ds))
    = a + discounts_total (filter (\<lambda>d. ld_promotion_rule d \<notin> insert k R) ds)"
  using assms(1,2)
proof (induction ds)
  case (Cons d ds)
  have same: "map (\<lambda>d. if ld_promotion_rule d = k then u d else d) ds = ds" if "k \<notin> ld_promotion_rule ` set ds"
    using that by (intro map_idI) (auto simp: image_iff)
  show ?case
  proof (cases "ld_promotion_rule d = k")
    case True
    with Cons.prems(1) have "k \<notin> ld_promotion_rule ` set ds" by auto
    moreover from this have "filter (\<lambda>d. ld_promotion_rule d \<notin> insert k R) ds = filter (\<lambda>d. ld_promotion_rule d \<notin> R) ds"
      by (intro filter_cong refl) (auto simp: image_iff)
    ultimately show ?thesis using True assms(3) by (simp add: same u)
  next
    case False
    with Cons show ?thesis by auto
  qed
qed simp

lemma refresh_rules_total:
  assumes "line_discounts_ok ds" "distinct (map (\<lambda>i. ru_pk (vi_rule i)) infos)" "refresh_rules pk line infos ds = (pk', ds')"
  shows "line_discounts_ok ds' \<and> discounts_total ds' = rules_amount line infos + discounts_total (without_rules infos ds)"
  using assms
proof (induction pk line infos ds rule: refresh_rules.induct)
  case (1 pk line ds)
  then show ?case by (simp add: rules_amount_def)
next
  case (2 pk line i infos ds)
  let ?a = "get_rule_discount_amount (vi_variant_listing_promotion_rule i) (ct_quantity line)" and ?k = "Some (ru_pk (vi_rule i))"
  let ?same = "\<lambda>d. ld_type d = DiscountType_PROMOTION \<and> ld_promotion_rule d = ?k"
  let ?R = "Some ` (\<lambda>i. ru_pk (vi_rule i)) ` set infos"
  from 2(3) have promo: "ld_type d = DiscountType_PROMOTION" if "d \<in> set ds" for d using that by (simp add: line_discounts_ok_def list_all_iff)
  from 2(4) have fresh: "?k \<notin> ?R" and d: "distinct (map (\<lambda>i. ru_pk (vi_rule i)) infos)" by auto
  show ?case
  proof (cases "\<exists>d \<in> set ds. ?same d")
    case True
    let ?ds = "map (\<lambda>d. if ?same d then update_line_discount i ?a d else d) ds"
    have eq: "?ds = map (\<lambda>d. if ld_promotion_rule d = ?k then update_line_discount i ?a d else d) ds"
      by (rule map_cong [OF refl]) (simp add: promo)
    have "map ld_promotion_rule ?ds = map ld_promotion_rule ds" by simp
    then have "distinct (map ld_promotion_rule ?ds)" using 2(3) by (simp only: line_discounts_ok_def)
    moreover have "list_all (\<lambda>d. ld_type d = DiscountType_PROMOTION) ?ds" by (auto simp: list_all_iff promo)
    ultimately have ok: "line_discounts_ok ?ds" unfolding line_discounts_ok_def by blast
    from True 2(5) have "refresh_rules pk line infos ?ds = (pk', ds')" by simp
    from 2(1) [OF refl refl True ok d this]
    have "line_discounts_ok ds' \<and> discounts_total ds' = rules_amount line infos + discounts_total (without_rules infos ?ds)" .
    moreover have "discounts_total (without_rules infos ?ds) = ?a + discounts_total (without_rules (i # infos) ds)"
    proof -
      have "distinct (map ld_promotion_rule ds)" using 2(3) by (simp only: line_discounts_ok_def)
      moreover from True have "?k \<in> ld_promotion_rule ` set ds" by (metis imageI)
      ultimately show ?thesis using fresh unfolding eq by (subst total_of_updated [where a = ?a]) simp_all
    qed
    ultimately show ?thesis by (simp add: rules_amount_def)
  next
    case False
    let ?ds = "ds @ [new_line_discount pk (ct_pk line) i ?a]"
    from False have none: "?k \<notin> ld_promotion_rule ` set ds" using promo by auto
    with 2(3) have ok: "line_discounts_ok ?ds" by (auto simp: line_discounts_ok_def)
    from 2(5) have "refresh_rules (Suc pk) line infos ?ds = (pk', ds')"
      unfolding refresh_rules.simps Let_def if_not_P [OF False] .
    from 2(2) [OF refl refl False ok d this]
    have "line_discounts_ok ds' \<and> discounts_total ds' = rules_amount line infos + discounts_total (without_rules infos ?ds)" .
    moreover have "without_rules (i # infos) ds = without_rules infos ds"
      using none by (intro filter_cong refl) (auto simp: image_iff)
    ultimately show ?thesis using fresh by (simp add: rules_amount_def)
  qed
qed

lemma refreshed_line_total:
  assumes "line_discounts_ok (ci_discounts l)" "distinct (map (\<lambda>i. ru_pk (vi_rule i)) (ci_rules_info l))"
    and "refresh_line_discounts pk l = (pk', m)" "get_discount_amount (ci_channel_listing l) (ct_quantity (ci_line l)) \<noteq> 0"
  shows "discounts_total (ci_discounts m) = rules_amount (ci_line l) (ci_rules_info l)"
proof -
  let ?R = "(\<lambda>i. ru_pk (vi_rule i)) ` set (ci_rules_info l)"
  let ?valid = "filter (\<lambda>d. ld_type d = DiscountType_PROMOTION \<longrightarrow> ld_promotion_rule d \<in> Some ` ?R) (ci_discounts l)"
  obtain k ds where r: "refresh_rules pk (ci_line l) (ci_rules_info l) ?valid = (k, ds)" by (cases "refresh_rules pk (ci_line l) (ci_rules_info l) ?valid")
  with assms(3,4) have m: "ci_discounts m = ds" by (auto simp: refresh_line_discounts_def Let_def)
  have ok: "line_discounts_ok ?valid" using assms(1) by (auto simp: line_discounts_ok_def list_all_iff distinct_map_filter)
  have "without_rules (ci_rules_info l) ?valid = []"
    using assms(1) by (auto simp: filter_empty_conv line_discounts_ok_def list_all_iff)
  with refresh_rules_total [OF ok assms(2) r] show ?thesis by (simp add: m)
qed

text \<open>
  C15: for a line without price override and without voucher, whose listing has a price, when
  the recorded savings of the rules, each rule once, make up the stored discounted price: after
  its promotion discounts are refreshed the line costs its quantity times that price, whatever
  promotion discounts, at most one for each rule, it had before
\<close>

theorem refreshed_line_costs_stored_price:
  assumes listing: "li_price_amount (ci_channel_listing l) = Some price"
      "li_discounted_price_amount (ci_channel_listing l) = Some discounted"
    and line: "ct_price_override (ci_line l) = None" "ci_voucher l = None"
    and ok: "line_discounts_ok (ci_discounts l)" "distinct (map (\<lambda>i. ru_pk (vi_rule i)) (ci_rules_info l))"
    and recorded: "discounted = price - sum_list (map (\<lambda>i. lr_discount_amount (vi_variant_listing_promotion_rule i)) (ci_rules_info l))"
  shows "calculate_base_line_total_price P prec s currency channel (snd (refresh_line_discounts pk l))
    = Inr (quantize_price prec (discounted * of_int (ct_quantity (ci_line l))) currency)"
proof -
  obtain k m where m: "refresh_line_discounts pk l = (k, m)" by (cases "refresh_line_discounts pk l")
  let ?q = "of_int (ct_quantity (ci_line l)) :: decimal"
  have same: "ci_line m = ci_line l" "ci_channel_listing m = ci_channel_listing l" "ci_voucher m = None"
    using m line by (auto simp: refresh_line_discounts_def Let_def split: if_splits prod.splits)
  have amount: "rules_amount (ci_line l) (ci_rules_info l) = (price - discounted) * ?q"
  proof -
    have "rules_amount (ci_line l) is
      = sum_list (map (\<lambda>i. lr_discount_amount (vi_variant_listing_promotion_rule i)) is) * ?q" for "is"
      by (induction "is") (simp_all add: rules_amount_def get_rule_discount_amount_def distrib_right)
    then show ?thesis by (simp add: recorded)
  qed
  have "discounts_total (ci_discounts m) = (price - discounted) * ?q"
  proof (cases "get_discount_amount (ci_channel_listing l) (ct_quantity (ci_line l)) = 0")
    case True
    with m have "ci_discounts m = []" by (auto simp: refresh_line_discounts_def)
    with True listing show ?thesis by (simp add: get_discount_amount_def unit_discount_def)
  next
    case False
    from refreshed_line_total [OF ok m False] amount show ?thesis by simp
  qed
  then show ?thesis using listing line(1) m
    by (simp add: calculate_base_line_total_price_def get_base_price_def same discounts_total_def [symmetric] left_diff_distrib)
qed

lemma refreshed_line_costs_stored_price_witness:
  "calculate_base_line_total_price plain_prices zl voucher_shop ''PLN'' 3 (snd (refresh_line_discounts 70 (coat_line None))) = Inr 24"
proof -
  have "quantize_price zl (8 * 3) ''PLN'' = 24" by code_simp
  then show ?thesis
    by (subst refreshed_line_costs_stored_price [where price = 10 and discounted = 8])
      (simp_all add: checkout_shop_defs line_discounts_ok_def)
qed

subsection \<open>The discount of the checkout\<close>

definition listing_prices_ok :: "checkout_line_info list \<Rightarrow> bool" where
  "listing_prices_ok lines \<longleftrightarrow> list_all (\<lambda>l. case li_discounted_price_amount (ci_channel_listing l) of
     None \<Rightarrow> True | Some p \<Rightarrow> 0 \<le> p) lines"

definition delivery_price_ok :: "checkout_info \<Rightarrow> bool" where
  "delivery_price_ok info \<longleftrightarrow> (case cf_delivery_method info of ShippingDelivery p \<Rightarrow> 0 \<le> p | _ \<Rightarrow> True)"

lemma present_prices_map: "present_prices xs = Inr ps \<Longrightarrow> xs = map Some ps"
  unfolding present_prices_def by (induction xs arbitrary: ps) (auto simp: bindr_eq_Inr split: option.splits)

lemma present_prices_nonneg:
  assumes "listing_prices_ok lines" "present_prices (get_base_lines_prices lines) = Inr ps"
  shows "list_all (\<lambda>p. 0 \<le> p) ps"
proof -
  have "\<forall>p \<in> set (get_base_lines_prices lines). case p of None \<Rightarrow> True | Some x \<Rightarrow> 0 \<le> x"
    using assms(1) by (auto simp: listing_prices_ok_def get_base_lines_prices_def list_all_iff)
  then show ?thesis unfolding present_prices_map [OF assms(2)] by (simp add: list_all_iff)
qed

lemma discounted_lines_ok: "listing_prices_ok lines \<Longrightarrow> listing_prices_ok (get_discounted_lines lines v)"
  by (auto simp: listing_prices_ok_def get_discounted_lines_def list_all_iff)

lemma products_discount_nonneg:
  assumes "prices_law P" "values_nonneg s" "list_all (\<lambda>p. 0 \<le> p) ps" "get_products_voucher_discount P s v ps channel = Inr a"
  shows "0 \<le> a"
proof (cases "vo_apply_once_per_order v")
  case True
  with assms(4) have ps: "ps \<noteq> []" and a: "get_discount_amount_for P s v (Min (set ps)) channel = Inr a"
    by (auto simp: get_products_voucher_discount_def split: if_splits)
  from ps have "Min (set ps) \<in> set ps" by simp
  with assms(3) have "0 \<le> Min (set ps)" unfolding list_all_iff by blast
  from get_discount_amount_bounds [OF assms(1,2) this a] show ?thesis ..
next
  case False
  with assms(4) discount_amounts_bounds [OF assms(1,2,3)] show ?thesis by (simp add: get_products_voucher_discount_def)
qed

lemma voucher_discount_nonneg:
  assumes law: "prices_law P" "values_nonneg s" and lines: "listing_prices_ok lines" and delivery: "delivery_price_ok info"
    and sub: "base_checkout_subtotal P prec s (ch_currency (cf_checkout info)) (cf_channel info) lines = Inr subtotal" "0 \<le> subtotal"
    and d: "get_voucher_discount_for_checkout P prec s v info lines country = Inr a"
  shows "0 \<le> a"
proof (cases "vo_type v")
  case VoucherType_ENTIRE_ORDER
  show ?thesis
  proof (cases "vo_apply_once_per_order v")
    case True
    with d VoucherType_ENTIRE_ORDER obtain ps where ps: "present_prices (get_base_lines_prices lines) = Inr ps" "ps \<noteq> []"
      and a: "get_discount_amount_for P s v (Min (set ps)) (cf_channel info) = Inr a"
      by (auto simp: get_voucher_discount_for_checkout_def bindr_eq_Inr split: if_splits)
    have "Min (set ps) \<in> set ps" using ps(2) by simp
    with present_prices_nonneg [OF lines ps(1)] have "0 \<le> Min (set ps)" unfolding list_all_iff by blast
    from get_discount_amount_bounds [OF law this a] show ?thesis ..
  next
    case False
    with d VoucherType_ENTIRE_ORDER sub have "get_discount_amount_for P s v subtotal (cf_channel info) = Inr a"
      by (auto simp: get_voucher_discount_for_checkout_def bindr_eq_Inr)
    from get_discount_amount_bounds [OF law sub(2) this] show ?thesis ..
  qed
next
  case VoucherType_SHIPPING
  have "0 \<le> base_checkout_undiscounted_delivery_price prec info lines"
    using delivery by (simp add: base_checkout_undiscounted_delivery_price_def delivery_price_ok_def quantize_nonneg
        calculate_base_price_for_shipping_method_def quantize_price_def split: delivery.splits)
  moreover from d VoucherType_SHIPPING
  have "get_discount_amount_for P s v (base_checkout_undiscounted_delivery_price prec info lines) (cf_channel info) = Inr a"
    by (auto simp: get_voucher_discount_for_checkout_def get_shipping_voucher_discount_for_checkout_def bindr_eq_Inr split: if_splits)
  ultimately show ?thesis using get_discount_amount_bounds [OF law] by blast
next
  case VoucherType_SPECIFIC_PRODUCT
  with d obtain ps where ps: "present_prices (get_base_lines_prices (get_discounted_lines lines v)) = Inr ps"
    and a: "get_products_voucher_discount P s v ps (cf_channel info) = Inr a"
    by (auto simp: get_voucher_discount_for_checkout_def get_products_voucher_discount_for_checkout_def bindr_eq_Inr
        get_prices_of_discounted_specific_product_def Let_def split: if_splits)
  from products_discount_nonneg [OF law present_prices_nonneg [OF discounted_lines_ok [OF lines] ps] a] show ?thesis .
qed

text \<open>
  C30: when the subtotal, listed prices, the delivery price and voucher values are not negative,
  recalculating the discount of a checkout clears voucher and discount exactly when there is no
  voucher or it does not apply, leaves everything when it gives nothing, and otherwise keeps the
  voucher and stores its discount, not negative and, unless it is for shipping, at most the
  subtotal
\<close>

theorem recalculated_discount_cases:
  assumes law: "prices_law P" "values_nonneg s" and ok: "listing_prices_ok lines" "delivery_price_ok info"
    and sub: "base_checkout_subtotal P prec s (ch_currency (cf_checkout info)) (cf_channel info) lines = Inr subtotal" "0 \<le> subtotal"
    and r: "recalculate_checkout_discount P prec voucher_name s info lines = Inr info'"
  shows "case cf_voucher info of
      None \<Rightarrow> info' = info\<lparr>cf_checkout := remove_voucher_from_checkout (cf_checkout info)\<rparr>
    | Some v \<Rightarrow>
        (case get_voucher_discount_for_checkout P prec s v info lines (address_country info) of
           Inl e \<Rightarrow> is_not_applicable e
             \<and> info' = info\<lparr>cf_checkout := remove_voucher_from_checkout (cf_checkout info), cf_voucher := None\<rparr>
         | Inr a \<Rightarrow> 0 \<le> a \<and> (if a = 0 then info' = info
             else cf_voucher info' = Some v \<and> ch_voucher_code (cf_checkout info') = ch_voucher_code (cf_checkout info)
               \<and> ch_discount_name (cf_checkout info') = Some (vo_name v)
               \<and> 0 \<le> ch_discount_amount (cf_checkout info') \<and> ch_discount_amount (cf_checkout info') \<le> a
               \<and> (vo_type v = VoucherType_SHIPPING \<and> ch_discount_amount (cf_checkout info') = a
                  \<or> vo_type v \<noteq> VoucherType_SHIPPING \<and> ch_discount_amount (cf_checkout info') = min a subtotal)))"
proof (cases "cf_voucher info")
  case None
  with r show ?thesis by (auto simp: recalculate_checkout_discount_def)
next
  case (Some v)
  show ?thesis
  proof (cases "get_voucher_discount_for_checkout P prec s v info lines (address_country info)")
    case (Inl e)
    with Some r show ?thesis
      by (auto simp: recalculate_checkout_discount_def check_voucher_for_checkout_def bindr_eq_Inr split: if_splits)
  next
    case (Inr a)
    from voucher_discount_nonneg [OF law ok sub Inr] have a: "0 \<le> a" .
    show ?thesis
    proof (cases "a = 0")
      case True
      with Inr Some r show ?thesis
        by (auto simp: recalculate_checkout_discount_def check_voucher_for_checkout_def)
    next
      case False
      with Inr Some r sub have i: "info' = info\<lparr>cf_checkout := (cf_checkout info)\<lparr>
          ch_discount_amount := (if vo_type v \<noteq> VoucherType_SHIPPING then min a subtotal else a),
          ch_discount_name := Some (vo_name v),
          ch_translated_discount_name := Some (translated_discount_name voucher_name v (cf_checkout info))\<rparr>\<rparr>"
        by (auto simp: recalculate_checkout_discount_def check_voucher_for_checkout_def)
      show ?thesis using Some Inr False a sub(2) unfolding i by simp
    qed
  qed
qed

lemma recalculated_discount_cases_witness:
  "\<exists>i. recalculate_checkout_discount plain_prices zl (\<lambda>v l. vo_name v) voucher_shop winter_info [coat_line None, scarf_line] = Inr i
     \<and> ch_discount_amount (cf_checkout i) = 4 \<and> cf_voucher i = Some winter_voucher"
proof -
  let ?run = "recalculate_checkout_discount plain_prices zl (\<lambda>v l. vo_name v) voucher_shop winter_info [coat_line None, scarf_line]"
  have "case ?run of Inl _ \<Rightarrow> False | Inr i \<Rightarrow> True" by code_simp
  then obtain i where i: "?run = Inr i" by (auto split: sum.splits)
  have s: "base_checkout_subtotal plain_prices zl voucher_shop (ch_currency (cf_checkout winter_info)) (cf_channel winter_info)
    [coat_line None, scarf_line] = Inr 40" by code_simp
  have g: "get_voucher_discount_for_checkout plain_prices zl voucher_shop winter_voucher winter_info [coat_line None, scarf_line]
    (address_country winter_info) = Inr 4" by code_simp
  have v: "cf_voucher winter_info = Some winter_voucher" "vo_type winter_voucher \<noteq> VoucherType_SHIPPING" by code_simp+
  have ok: "values_nonneg voucher_shop" "listing_prices_ok [coat_line None, scarf_line]" "delivery_price_ok winter_info"
    by (simp_all add: checkout_shop_defs values_nonneg_def listing_prices_ok_def delivery_price_ok_def)
  from recalculated_discount_cases [OF plain_prices_law ok s _ i] g v show ?thesis by (simp add: i)
qed

subsection \<open>What goes wrong\<close>

text \<open>Without a line that its voucher for specific products matches, the lines of a checkout cannot be fetched.\<close>

theorem unmatched_voucher_breaks_lines:
  assumes "vo_type v = VoucherType_SPECIFIC_PRODUCT" "vo_apply_once_per_order v"
    and "get_discounted_lines lines v = []" "lines \<noteq> []" "ch_voucher_code c = Some code" "code \<noteq> []"
  shows "fetch_lines_voucher (Some v) c lines = Inl EmptySequence"
  using assms by (simp add: fetch_lines_voucher_def apply_voucher_to_checkout_line_def get_the_cheapest_line_def)

definition hat_voucher :: voucher where
  "hat_voucher = winter_voucher\<lparr>vo_type := VoucherType_SPECIFIC_PRODUCT, vo_apply_once_per_order := True, vo_products := [99]\<rparr>"

lemma unmatched_voucher_breaks_lines_witness:
  "fetch_lines_voucher (Some hat_voucher) winter_checkout [scarf_line] = Inl EmptySequence"
  by (rule unmatched_voucher_breaks_lines [where code = "''WINTER''"]) (simp_all add: hat_voucher_def checkout_shop_defs get_discounted_lines_def)

text \<open>Lines that all cost nothing cannot share a discount.\<close>

theorem free_lines_not_divisible:
  assumes "cf_voucher info = Some v" "vo_type v = VoucherType_ENTIRE_ORDER" "\<not> vo_apply_once_per_order v"
    and "2 \<le> length lines" "distinct (map (ct_pk \<circ> ci_line) lines)" "l \<in> set lines"
    and free: "map_results (calculate_base_line_total_price P prec s (ch_currency (cf_checkout info)) (cf_channel info)) lines
      = Inr (replicate (length lines) 0)"
  shows "apply_checkout_discount_on_checkout_line P prec s info lines l 0 = Inl DivisionByZero"
proof -
  let ?f = "calculate_base_line_total_price P prec s (ch_currency (cf_checkout info)) (cf_channel info)"
  let ?others = "filter (\<lambda>x. ct_pk (ci_line x) \<noteq> ct_pk (ci_line l)) lines"
  from map_results_weights [OF free] obtain w where w: "\<And>x. x \<in> set lines \<Longrightarrow> ?f x = Inr (w x)"
    and "replicate (length lines) 0 = map w lines" by blast
  then have "w x = 0" if "x \<in> set lines" for x using that by (metis in_set_conv_nth length_map nth_map nth_replicate)
  with w have o: "map_results ?f ?others = Inr (map (\<lambda>x. 0) ?others)" by (intro map_results_cong) auto
  have ne: "lines \<noteq> []" using assms(4) by auto
  have "?others \<noteq> []"
  proof
    assume none: "?others = []"
    obtain a b rest where ab: "lines = a # b # rest" using assms(4) by (cases lines; cases "tl lines") auto
    with none have "ct_pk (ci_line a) = ct_pk (ci_line l)" "ct_pk (ci_line b) = ct_pk (ci_line l)"
      by (simp_all split: if_splits)
    with assms(5) ab show False by simp
  qed
  then obtain x xs where "?others = x # xs" by (cases ?others) auto
  then have last: "calculate_discount_for_last_element (map (\<lambda>x. 0) ?others) 0 D = Inl DivisionByZero" for D
    by (simp add: calculate_discount_for_last_element_def part_of_def)
  have z: "sum_list (map (\<lambda>x. 0 :: decimal) ?others) + 0 = 0" by simp
  show ?thesis unfolding apply_checkout_discount_on_checkout_line_def o bindr_simps Let_def z last
    using assms(1-4) ne by (simp add: part_of_def)
qed

definition gift_line :: "nat \<Rightarrow> checkout_line_info" where
  "gift_line pk = scarf_line\<lparr>ci_line := \<lparr>ct_pk = pk, ct_variant = 22, ct_quantity = 1, ct_price_override = Some 0\<rparr>\<rparr>"

lemma free_lines_not_divisible_witness:
  "apply_checkout_discount_on_checkout_line plain_prices zl voucher_shop winter_info [gift_line 1, gift_line 2] (gift_line 2) 0
   = Inl DivisionByZero"
proof -
  have "map_results (calculate_base_line_total_price plain_prices zl voucher_shop (ch_currency (cf_checkout winter_info))
      (cf_channel winter_info)) [gift_line 1, gift_line 2] = Inr (replicate (length [gift_line 1, gift_line 2]) 0)" by code_simp
  then show ?thesis
    by (rule free_lines_not_divisible [where v = winter_voucher, rotated 6]) (simp_all add: checkout_shop_defs gift_line_def)
qed

text \<open>Removing the code that was just added clears voucher and discount exactly when the code
  is the first one of its voucher; any other code of the voucher cannot be removed\<close>

theorem added_voucher_removal:
  assumes "add_voucher_to_checkout P prec voucher_name s info lines v code = Inr info'"
  shows "remove_voucher_code_from_checkout s info' (vc_code code) =
    (if code_of_voucher v s = Some (vc_code code)
     then (True, info\<lparr>cf_checkout := remove_voucher_from_checkout (cf_checkout info), cf_voucher := None\<rparr>)
     else (False, info'))"
  using assms by (auto simp: add_voucher_to_checkout_def bindr_eq_Inr remove_voucher_code_from_checkout_def
      remove_voucher_from_checkout_def)

lemma added_voucher_removal_witness:
  "case add_voucher_to_checkout plain_prices zl (\<lambda>v l. vo_name v) voucher_shop winter_info [coat_line None, scarf_line]
      winter_voucher other_code of Inl _ \<Rightarrow> False
   | Inr i \<Rightarrow> remove_voucher_code_from_checkout voucher_shop i ''SNOW'' = (False, i)"
proof -
  let ?run = "add_voucher_to_checkout plain_prices zl (\<lambda>v l. vo_name v) voucher_shop winter_info [coat_line None, scarf_line]
      winter_voucher other_code"
  have "case ?run of Inl _ \<Rightarrow> False | Inr i \<Rightarrow> True" by code_simp
  then obtain i where i: "?run = Inr i" by (auto split: sum.splits)
  have "code_of_voucher winter_voucher voucher_shop \<noteq> Some (vc_code other_code)" by code_simp
  with added_voucher_removal [OF i] i show ?thesis by (simp add: other_code_def)
qed

end
