(* ===== verification/CheckoutRuns.thy ===== *)
theory CheckoutRuns
  imports CheckoutLines CheckoutDiscounts
begin

section \<open>What the operations on checkouts promise\<close>

text \<open>
  Adding variants keeps the lines well formed, the two statuses divide the possible amounts, and deleting abandoned
  checkouts ends with none of them left and all others kept.
\<close>

subsection \<open>Lines\<close>

definition items_ok :: "checkout_item list \<Rightarrow> bool" where
  "items_ok lines \<longleftrightarrow> distinct (map ct_pk lines) \<and> list_all (\<lambda>l. 0 < ct_quantity l) lines"

definition changes_ok :: "nat \<Rightarrow> line_changes \<Rightarrow> bool" where
  "changes_ok fresh c \<longleftrightarrow> items_ok (lc_lines c) \<and> list_all (\<lambda>l. 0 < ct_quantity l) (lc_to_create c)
     \<and> map ct_pk (lc_to_create c) = [fresh..<fresh + length (lc_to_create c)]"

lemma change_line_keys:
  "(\<And>l. ct_pk (f l) = ct_pk l) \<Longrightarrow> map ct_pk (lc_lines (change_line k f c)) = map ct_pk (lc_lines c)"
  by (simp add: change_line_def keys_save_row)

lemma change_line_ok:
  assumes "changes_ok fresh c" "\<And>l. ct_pk (f l) = ct_pk l" "\<And>l. 0 < ct_quantity l \<Longrightarrow> 0 < ct_quantity (f l)"
  shows "changes_ok fresh (change_line k f c)"
proof -
  have "distinct (map ct_pk (lc_lines (change_line k f c)))"
    using assms(1) by (simp only: change_line_keys [OF assms(2)] changes_ok_def items_ok_def)
  moreover have "list_all (\<lambda>l. 0 < ct_quantity l) (lc_lines (change_line k f c))"
    using assms(1,3) by (auto simp: changes_ok_def items_ok_def change_line_def save_row_def list_all_iff)
  ultimately show ?thesis using assms(1) by (simp add: changes_ok_def items_ok_def change_line_def)
qed

lemma append_line_to_update_ok:
  assumes "changes_ok fresh c"
  shows "changes_ok fresh (append_line_to_update d replace k c)"
    "map ct_pk (lc_lines (append_line_to_update d replace k c)) = map ct_pk (lc_lines c)"
proof -
  let ?q = "\<lambda>l. l\<lparr>ct_quantity := (if replace then da_quantity d else ct_quantity l + da_quantity d)\<rparr>"
  define u where "u = (if da_quantity_to_update d \<and> da_quantity d > 0 then change_line k ?q c else c)"
  have u: "changes_ok fresh u" "map ct_pk (lc_lines u) = map ct_pk (lc_lines c)"
    using change_line_ok [OF assms, of ?q k] change_line_keys [of ?q k c] assms by (auto simp: u_def)
  let ?p = "\<lambda>l. l\<lparr>ct_price_override := da_custom_price d\<rparr>"
  have p: "changes_ok fresh (change_line k ?p u)" "map ct_pk (lc_lines (change_line k ?p u)) = map ct_pk (lc_lines c)"
    using change_line_ok [OF u(1), of ?p k] change_line_keys [of ?p k u] u by auto
  have "append_line_to_update d replace k c = u \<or> append_line_to_update d replace k c = change_line k ?p u"
    unfolding append_line_to_update_def Let_def u_def [symmetric] by auto
  with u p show "changes_ok fresh (append_line_to_update d replace k c)"
    "map ct_pk (lc_lines (append_line_to_update d replace k c)) = map ct_pk (lc_lines c)" by auto
qed

lemma append_line_to_delete_ok [simp]:
  "changes_ok fresh (append_line_to_delete d k c) = changes_ok fresh c" "lc_lines (append_line_to_delete d k c) = lc_lines c"
  by (simp_all add: append_line_to_delete_def changes_ok_def)

lemma append_line_to_create_ok:
  "changes_ok fresh c \<Longrightarrow> changes_ok fresh (append_line_to_create fresh d c)"
  "lc_lines (append_line_to_create fresh d c) = lc_lines c"
  by (auto simp: append_line_to_create_def changes_ok_def)

lemma collect_changes_ok:
  assumes "changes_ok fresh c" "collect_changes fresh variants replace ds c = Some r"
  shows "changes_ok fresh r \<and> map ct_pk (lc_lines r) = map ct_pk (lc_lines c)"
  using assms
proof (induction ds arbitrary: c)
  case (Cons d ds)
  show ?case
  proof (cases "case da_line_id d of None \<Rightarrow> None | Some k \<Rightarrow> row_of ct_pk k (lc_lines c)")
    case None
    with Cons.prems(2) have "collect_changes fresh variants replace ds (append_line_to_create fresh d c) = Some r"
      by (simp split: if_splits)
    from Cons.IH [OF append_line_to_create_ok(1) [OF Cons.prems(1)] this] show ?thesis by (simp add: append_line_to_create_ok(2))
  next
    case (Some l)
    let ?c = "append_line_to_delete d (ct_pk l) (append_line_to_update d replace (ct_pk l) c)"
    from Cons.prems(2) Some have r: "collect_changes fresh variants replace ds ?c = Some r" by simp
    have "changes_ok fresh ?c" using append_line_to_update_ok(1) [OF Cons.prems(1)] by simp
    from Cons.IH [OF this r] show ?thesis by (simp add: append_line_to_update_ok(2) [OF Cons.prems(1)])
  qed
qed simp

text \<open>
  C28: adding variants keeps the keys of lines distinct and their quantities positive, never
  both reserves and only prolongs a line, and deletes every line that it does neither with
\<close>

theorem added_variants_lines_ok:
  assumes ok: "items_ok lines" and fresh: "list_all (\<lambda>l. ct_pk l < fresh) lines"
    and add: "add_variants_to_checkout fresh variants checkout_lines_data replace lines = Some (lines', to_reserve, to_prolong)"
  shows "items_ok lines' \<and> set to_reserve \<inter> set to_prolong = {}
    \<and> set (map ct_pk lines) - set to_reserve - set to_prolong \<subseteq> - set (map ct_pk lines')"
proof -
  let ?c0 = "\<lparr>lc_lines = lines, lc_to_update = [], lc_to_delete = [], lc_to_create = []\<rparr>"
  from add obtain c where c: "collect_changes fresh variants replace checkout_lines_data ?c0 = Some c"
    and res: "lines' = filter (\<lambda>l. ct_pk l \<notin> set (lc_to_delete c))
        (map (\<lambda>l. if ct_pk l \<in> set (lc_to_update c) then the (row_of ct_pk (ct_pk l) (lc_lines c)) else l) lines) @ lc_to_create c"
      "to_reserve = map ct_pk (lc_to_create c) @ lc_to_update c"
      "to_prolong = filter (\<lambda>k. k \<notin> set (to_reserve @ lc_to_delete c)) (map ct_pk lines)"
    by (auto simp: add_variants_to_checkout_def Let_def split: option.splits)
  have "changes_ok fresh ?c0" using ok by (simp add: changes_ok_def)
  from collect_changes_ok [OF this c] have cok: "changes_ok fresh c" and keys: "map ct_pk (lc_lines c) = map ct_pk lines" by auto
  define u where "u = map (\<lambda>l. if ct_pk l \<in> set (lc_to_update c) then the (row_of ct_pk (ct_pk l) (lc_lines c)) else l) lines"
  have found: "\<exists>m. row_of ct_pk (ct_pk l) (lc_lines c) = Some m \<and> m \<in> set (lc_lines c) \<and> ct_pk m = ct_pk l" if "l \<in> set lines" for l
  proof -
    from that have "ct_pk l \<in> set (map ct_pk (lc_lines c))" unfolding keys by simp
    then have "row_of ct_pk (ct_pk l) (lc_lines c) \<noteq> None" unfolding row_of_None by simp
    then obtain m where "row_of ct_pk (ct_pk l) (lc_lines c) = Some m" by blast
    with row_of_SomeD [OF this] show ?thesis by blast
  qed
  have ukeys: "map ct_pk u = map ct_pk lines" unfolding u_def map_map by (rule map_cong [OF refl]) (auto dest: found)
  have upos: "list_all (\<lambda>l. 0 < ct_quantity l) u"
    unfolding list_all_iff
  proof
    fix x assume "x \<in> set u"
    then obtain l where l: "l \<in> set lines"
      and x: "x = (if ct_pk l \<in> set (lc_to_update c) then the (row_of ct_pk (ct_pk l) (lc_lines c)) else l)"
      unfolding u_def set_map by blast
    from found [OF l] obtain m where "row_of ct_pk (ct_pk l) (lc_lines c) = Some m" "m \<in> set (lc_lines c)" by blast
    with x have "x \<in> set (lc_lines c) \<or> x \<in> set lines" using l by simp
    moreover have "list_all (\<lambda>l. 0 < ct_quantity l) lines" "list_all (\<lambda>l. 0 < ct_quantity l) (lc_lines c)"
      using ok cok by (simp_all add: items_ok_def changes_ok_def)
    ultimately show "0 < ct_quantity x" unfolding list_all_iff by blast
  qed
  have created: "map ct_pk (lc_to_create c) = [fresh..<fresh + length (lc_to_create c)]"
    "list_all (\<lambda>l. 0 < ct_quantity l) (lc_to_create c)" using cok by (simp_all add: changes_ok_def)
  let ?kept = "filter (\<lambda>l. ct_pk l \<notin> set (lc_to_delete c)) u"
  have old: "k < fresh" if "k \<in> set (map ct_pk ?kept)" for k
  proof -
    from that have "k \<in> set (map ct_pk u)" by auto
    then show ?thesis using fresh unfolding ukeys by (auto simp: list_all_iff)
  qed
  have "distinct (map ct_pk u)" using ok by (simp only: items_ok_def ukeys)
  then have "distinct (map ct_pk ?kept)" by (rule distinct_map_filter)
  moreover have "set (map ct_pk ?kept) \<inter> set (map ct_pk (lc_to_create c)) = {}"
  proof -
    have "k \<notin> set (map ct_pk (lc_to_create c))" if "k \<in> set (map ct_pk ?kept)" for k
      unfolding created(1) using old [OF that] by simp
    then show ?thesis by blast
  qed
  ultimately have "distinct (map ct_pk (?kept @ lc_to_create c))" using created(1) by (simp add: distinct_append)
  moreover have "list_all (\<lambda>l. 0 < ct_quantity l) (?kept @ lc_to_create c)"
    using upos created(2) by (auto simp: list_all_iff)
  ultimately have "items_ok lines'" by (simp add: items_ok_def res(1) u_def [symmetric])
  moreover have "set to_reserve \<inter> set to_prolong = {}" by (auto simp: res(3))
  moreover have "set (map ct_pk lines) - set to_reserve - set to_prolong \<subseteq> - set (map ct_pk lines')"
  proof
    fix k assume k: "k \<in> set (map ct_pk lines) - set to_reserve - set to_prolong"
    then have gone: "k \<in> set (lc_to_delete c)" "k < fresh"
      using fresh by (auto simp: res(3) list_all_iff)
    then have "k \<notin> set (map ct_pk ?kept)" "k \<notin> set (map ct_pk (lc_to_create c))" unfolding created(1) by auto
    then show "k \<in> - set (map ct_pk lines')" by (simp add: res(1) u_def [symmetric])
  qed
  ultimately show ?thesis by blast
qed

definition data_for :: "nat option \<Rightarrow> int \<Rightarrow> decimal option \<Rightarrow> line_data" where
  "data_for line quantity price = \<lparr>da_line_id = line, da_variant_id = 22, da_quantity = quantity,
     da_quantity_to_update = True, da_custom_price = price, da_custom_price_to_update = price \<noteq> None\<rparr>"

lemma added_variants_lines_ok_witness:
  "\<exists>ls r p. add_variants_to_checkout 60 [22] [data_for (Some 50) 0 None, data_for None 4 None] True
     [ci_line (coat_line None), ci_line scarf_line] = Some (ls, r, p)
   \<and> map ct_pk ls = [51, 60] \<and> items_ok ls \<and> r = [60] \<and> p = [51]"
proof -
  let ?run = "add_variants_to_checkout 60 [22] [data_for (Some 50) 0 None, data_for None 4 None] True
     [ci_line (coat_line None), ci_line scarf_line]"
  have "map_option (\<lambda>(ls, r, p). (map ct_pk ls, r, p)) ?run = Some ([51, 60], [60], [51])" by code_simp
  then obtain ls where run: "?run = Some (ls, [60], [51])" "map ct_pk ls = [51, 60]" by auto
  from added_variants_lines_ok [OF _ _ run(1)] have "items_ok ls"
    by (simp add: items_ok_def coat_line_def scarf_line_def)
  with run show ?thesis by (intro exI [of _ ls] exI [of _ "[60]"] exI [of _ "[51]"]) simp
qed

text \<open>A line that is deleted and given a price at once is deleted and still to be reserved.\<close>

lemma deleted_line_reserved:
  "map_option (\<lambda>(ls, r, p). (map ct_pk ls, r)) (add_variants_to_checkout 60 [22] [data_for (Some 50) 0 (Some 5)] True
     [ci_line (coat_line None), ci_line scarf_line]) = Some ([51], [50])"
  by code_simp

subsection \<open>Statuses\<close>

text \<open>What is charged in full or too much is authorized in full; what is charged in part is authorized at least in part.\<close>

lemma checkout_statuses_agree:
  assumes "0 \<le> authorized" "0 \<le> charged"
  shows "(checkout_charge_status_for gross charged has_lines \<in> {CheckoutChargeStatus_FULL, CheckoutChargeStatus_OVERCHARGED}
      \<longrightarrow> charged = 0 \<and> authorized \<noteq> 0 \<or> checkout_authorize_status_for gross authorized charged has_lines = CheckoutAuthorizeStatus_FULL)
    \<and> (checkout_charge_status_for gross charged has_lines = CheckoutChargeStatus_PARTIAL
      \<longrightarrow> checkout_authorize_status_for gross authorized charged has_lines \<noteq> CheckoutAuthorizeStatus_NONE)"
  using assms unfolding checkout_charge_status_for_def checkout_authorize_status_for_def Let_def by (auto simp: max_def)

subsection \<open>Deleting\<close>

lemma filter_not_in_batch:
  assumes "distinct (map so_pk cs)"
  shows "filter (\<lambda>c. so_pk c \<notin> set (map so_pk (take n (filter Q cs)))) cs = filter (\<lambda>c. c \<notin> set (take n (filter Q cs))) cs"
proof (rule filter_cong [OF refl])
  fix x assume x: "x \<in> set cs"
  have "set (take n (filter Q cs)) \<subseteq> set cs" using set_take_subset [of n "filter Q cs"] by auto
  then show "(so_pk x \<notin> set (map so_pk (take n (filter Q cs)))) = (x \<notin> set (take n (filter Q cs)))"
    using assms x by (auto simp: distinct_map dest: inj_onD)
qed

lemma batch_rest:
  assumes "distinct cs"
  shows "filter Q (filter (\<lambda>c. c \<notin> set (take n (filter Q cs))) cs) = drop n (filter Q cs)"
    and "filter (\<lambda>c. \<not> Q c) (filter (\<lambda>c. c \<notin> set (take n (filter Q cs))) cs) = filter (\<lambda>c. \<not> Q c) cs"
proof -
  let ?f = "filter Q cs"
  have d: "set (take n ?f) \<inter> set (drop n ?f) = {}" using assms by (intro set_take_disj_set_drop_if_distinct) simp_all
  have "filter Q (filter (\<lambda>c. c \<notin> set (take n ?f)) cs) = filter (\<lambda>c. c \<notin> set (take n ?f)) ?f"
    by (simp add: conj_commute)
  also have "\<dots> = filter (\<lambda>c. c \<notin> set (take n ?f)) (take n ?f @ drop n ?f)" by (simp only: append_take_drop_id)
  also have "\<dots> = drop n ?f"
    using d by (auto simp del: append_take_drop_id simp: filter_empty_conv filter_id_conv)
  finally show "filter Q (filter (\<lambda>c. c \<notin> set (take n ?f)) cs) = drop n ?f" .
  show "filter (\<lambda>c. \<not> Q c) (filter (\<lambda>c. c \<notin> set (take n ?f)) cs) = filter (\<lambda>c. \<not> Q c) cs"
    unfolding filter_filter by (rule filter_cong [OF refl]) (auto dest: in_set_takeD)
qed

lemma suc_sum_ge: "length xs \<le> sum_list (map (\<lambda>c. Suc (f c)) xs)"
  by (induction xs) simp_all

lemma delete_batches_result:
  assumes "distinct (map so_pk cs)" "delete_batches batch_size n Q cs = (k, m, cs')"
  shows "distinct (map so_pk cs') \<and> filter (\<lambda>c. \<not> Q c) cs' = filter (\<lambda>c. \<not> Q c) cs
    \<and> (\<not> m \<longrightarrow> filter Q cs' = []) \<and> (m \<longrightarrow> filter Q cs' = drop (n * batch_size) (filter Q cs))"
  using assms
proof (induction n arbitrary: cs k)
  case (Suc n)
  let ?b = "take batch_size (filter Q cs)"
  let ?cs = "filter (\<lambda>c. so_pk c \<notin> set (map so_pk ?b)) cs"
  let ?count = "sum_list (map (\<lambda>c. Suc (so_rows_below c)) ?b)"
  have d: "distinct cs" using Suc.prems(1) by (simp add: distinct_map)
  have keys: "distinct (map so_pk ?cs)" by (rule distinct_map_filter [OF Suc.prems(1)])
  have rest: "filter Q ?cs = drop batch_size (filter Q cs)" "filter (\<lambda>c. \<not> Q c) ?cs = filter (\<lambda>c. \<not> Q c) cs"
    unfolding filter_not_in_batch [OF Suc.prems(1)] by (rule batch_rest [OF d])+
  show ?case
  proof (cases "?count < batch_size")
    case True
    with Suc.prems(2) have r: "m = False" "cs' = ?cs" by (auto simp: Let_def)
    have "length ?b < batch_size" using True suc_sum_ge [of ?b so_rows_below] by linarith
    then have "length (filter Q cs) \<le> batch_size" by simp
    with rest keys show ?thesis by (simp add: r)
  next
    case False
    obtain j w ds where nxt: "delete_batches batch_size n Q ?cs = (j, w, ds)" by (rule prod_cases3)
    with False Suc.prems(2) have r: "m = w" "cs' = ds" by (simp_all add: Let_def)
    from Suc.IH [OF keys nxt [folded r]] rest show ?thesis by (simp add: drop_drop add.commute)
  qed
qed simp

text \<open>
  C31: when the allowed invocations can hold them, the batches of the task delete all abandoned
  checkouts and keep all others
\<close>

theorem abandoned_checkouts_deleted:
  assumes keys: "distinct (map so_pk cs)"
    and enough: "length (filter Q cs) \<le> (left + 1) * (batch_count * batch_size)"
  shows "delete_expired_checkouts batch_size batch_count left Q cs = filter (\<lambda>c. \<not> Q c) cs"
  using assms
proof (induction left arbitrary: cs)
  case 0
  obtain k m ds where r: "delete_batches batch_size batch_count Q cs = (k, m, ds)" by (rule prod_cases3)
  from delete_batches_result [OF 0(1) r] 0(2) have "filter Q ds = []" "filter (\<lambda>c. \<not> Q c) ds = filter (\<lambda>c. \<not> Q c) cs"
    by (cases m; simp)+
  moreover from this have "filter (\<lambda>c. \<not> Q c) ds = ds" by (auto simp: filter_empty_conv filter_id_conv)
  ultimately show ?case using r by simp
next
  case (Suc left)
  obtain k m ds where r: "delete_batches batch_size batch_count Q cs = (k, m, ds)" by (rule prod_cases3)
  from delete_batches_result [OF Suc.prems(1) r]
  have ds: "distinct (map so_pk ds)" "filter (\<lambda>c. \<not> Q c) ds = filter (\<lambda>c. \<not> Q c) cs"
    "\<not> m \<Longrightarrow> filter Q ds = []" "m \<Longrightarrow> filter Q ds = drop (batch_count * batch_size) (filter Q cs)" by auto
  show ?case
  proof (cases m)
    case True
    with ds(4) Suc.prems(2) have "length (filter Q ds) \<le> (left + 1) * (batch_count * batch_size)" by (simp add: algebra_simps)
    from Suc.IH [OF ds(1) this] show ?thesis using r True by (simp add: ds(2))
  next
    case False
    then have "filter (\<lambda>c. \<not> Q c) ds = ds" using ds(3) by (auto simp: filter_empty_conv filter_id_conv)
    with ds(2) show ?thesis using r False by simp
  qed
qed

definition old_checkout :: "nat \<Rightarrow> string option \<Rightarrow> stored_checkout" where
  "old_checkout pk email = \<lparr>so_pk = pk, so_last_change = (2024, 1, 1, 0), so_email = email, so_user = None,
     so_has_lines = True, so_rows_below = 2\<rparr>"

definition spring_limits :: expiry_limits where
  "spring_limits = \<lparr>el_anonymous = (2024, 2, 1, 0), el_user = (2023, 12, 1, 0), el_empty = (2024, 3, 1, 0)\<rparr>"

lemma abandoned_checkouts_deleted_witness:
  "map so_pk (delete_expired_checkouts 2 1 1 (abandoned spring_limits []) [old_checkout 1 None, old_checkout 2 (Some ''a''),
     old_checkout 3 None, old_checkout 4 None]) = [2]"
proof -
  let ?cs = "[old_checkout 1 None, old_checkout 2 (Some ''a''), old_checkout 3 None, old_checkout 4 None]"
  have "length (filter (abandoned spring_limits []) ?cs) = 3" by code_simp
  then have "delete_expired_checkouts 2 1 1 (abandoned spring_limits []) ?cs = filter (\<lambda>c. \<not> abandoned spring_limits [] c) ?cs"
    by (intro abandoned_checkouts_deleted) (simp_all add: old_checkout_def)
  moreover have "map so_pk (filter (\<lambda>c. \<not> abandoned spring_limits [] c) ?cs) = [2]" by code_simp
  ultimately show ?thesis by simp
qed

end
