(* ===== verification/GiftCards.thy ===== *)
theory GiftCards
  imports CheckoutVouchers
begin

section \<open>Gift cards\<close>

text \<open>
  \<^verbatim>\<open>giftcard/models.py\<close>, \<^verbatim>\<open>events.py\<close>, \<^verbatim>\<open>utils.py\<close> and \<^verbatim>\<open>tasks.py\<close>, the mutations of
  \<^verbatim>\<open>graphql/giftcard\<close>, and the use of gift cards in a checkout and an order (\<^verbatim>\<open>order/utils.py\<close>,
  \<^verbatim>\<open>checkout/utils.py\<close>). Permissions, notifications and webhooks are left out. \<open>random_codes\<close> are what the
  generator of codes gives; \<open>lower\<close> is the lower case of a tag, \<open>strip\<close> a string without its outer white
  space, \<open>valid_email\<close> Django's validator. A day is (year, month, day).
\<close>

type_synonym day = "int \<times> int \<times> int"

record gift_card_row =
  gf_pk :: nat
  gf_code :: string
  gf_is_active :: bool
  gf_created_by :: "nat option"
  gf_used_by :: "nat option"
  gf_created_by_email :: "string option"
  gf_used_by_email :: "string option"
  gf_app :: "nat option"
  gf_expiry_date :: "day option"
  gf_tags :: "string list"
  gf_last_used_on :: "datetime option"
  gf_product :: "nat option"
  gf_fulfillment_line :: "nat option"
  gf_currency :: string
  gf_initial_balance_amount :: decimal
  gf_current_balance_amount :: decimal

record gift_card_event =
  ge_date :: datetime
  ge_type :: gift_card_events
  ge_parameters :: "(string \<times> json) list"
  ge_user :: "nat option"
  ge_app :: "nat option"
  ge_order :: "nat option"
  ge_gift_card :: nat

record gift_db =
  gd_cards :: "gift_card_row list"
  gd_events :: "gift_card_event list"
  gd_tags :: "string list"
  gd_users :: "(nat \<times> string) list"
  gd_vouchers :: voucher_db

datatype gift_error =
    GiftInvalid string
  | GiftAlreadyExists
  | GiftExpired
  | GiftRequired string
  | GiftDuplicatedItem
  | GiftNotFound
  | GiftCodesExhausted
  | GiftIntegrityError
  | GiftInvalidPromoCode

text \<open>Who asks: the keys of the user and the app of the request.\<close>

type_synonym gift_requestor = "nat option \<times> nat option"

definition add_gift_events :: "gift_card_event list \<Rightarrow> gift_db \<Rightarrow> gift_db" where
  "add_gift_events evs s = s\<lparr>gd_events := gd_events s @ evs\<rparr>"

definition save_gift_card :: "nat \<Rightarrow> (gift_card_row \<Rightarrow> gift_card_row) \<Rightarrow> gift_db \<Rightarrow> gift_db" where
  "save_gift_card k f s = s\<lparr>gd_cards := save_row gf_pk k f (gd_cards s)\<rparr>"

subsection \<open>Events\<close>

text \<open>A date as JSON: the digits of the ISO format.\<close>

definition digit :: "int \<Rightarrow> char" where
  "digit n = char_of (48 + nat (n mod 10))"

definition iso_day :: "day \<Rightarrow> string" where
  "iso_day d = (case d of (y, m, dd) \<Rightarrow> [digit (y div 1000), digit (y div 100), digit (y div 10), digit y, CHR ''-'',
     digit (m div 10), digit m, CHR ''-'', digit (dd div 10), digit dd])"

definition json_day :: "day option \<Rightarrow> json" where
  "json_day d = (case d of None \<Rightarrow> JNull | Some x \<Rightarrow> JStr (iso_day x))"

definition gift_event ::
    "datetime \<Rightarrow> gift_requestor \<Rightarrow> gift_card_events \<Rightarrow> (string \<times> json) list \<Rightarrow> nat option \<Rightarrow> nat \<Rightarrow> gift_card_event" where
  "gift_event now requestor type parameters order gift_card = \<lparr>ge_date = now, ge_type = type, ge_parameters = parameters,
     ge_user = fst requestor, ge_app = snd requestor, ge_order = order, ge_gift_card = gift_card\<rparr>"

definition gift_card_issued_event :: "datetime \<Rightarrow> gift_requestor \<Rightarrow> gift_card_row \<Rightarrow> gift_card_event" where
  "gift_card_issued_event now requestor g = gift_event now requestor GiftCardEvents_ISSUED
     [(''balance'', JObj [(''currency'', JStr (gf_currency g)), (''initial_balance'', JDec (gf_initial_balance_amount g)),
        (''current_balance'', JDec (gf_current_balance_amount g))]),
      (''expiry_date'', json_day (gf_expiry_date g))] None (gf_pk g)"

definition gift_cards_issued_event ::
    "datetime \<Rightarrow> gift_requestor \<Rightarrow> decimal \<times> string \<Rightarrow> gift_card_row list \<Rightarrow> gift_card_event list" where
  "gift_cards_issued_event now requestor balance gs = map (\<lambda>g. gift_event now requestor GiftCardEvents_ISSUED
     [(''balance'', JObj [(''currency'', JStr (snd balance)), (''initial_balance'', JDec (fst balance)),
        (''current_balance'', JDec (fst balance))]),
      (''expiry_date'', json_day (gf_expiry_date g))] None (gf_pk g)) gs"

definition gift_card_sent_event :: "datetime \<Rightarrow> gift_requestor \<Rightarrow> nat \<Rightarrow> string \<Rightarrow> gift_card_event" where
  "gift_card_sent_event now requestor k email =
     gift_event now requestor GiftCardEvents_SENT_TO_CUSTOMER [(''email'', JStr email)] None k"

definition gift_card_resent_event :: "datetime \<Rightarrow> gift_requestor \<Rightarrow> nat \<Rightarrow> string \<Rightarrow> gift_card_event" where
  "gift_card_resent_event now requestor k email =
     gift_event now requestor GiftCardEvents_RESENT [(''email'', JStr email)] None k"

text \<open>The old currency that is recorded is the new one.\<close>

definition gift_card_balance_reset_event ::
    "datetime \<Rightarrow> gift_requestor \<Rightarrow> gift_card_row \<Rightarrow> gift_card_row \<Rightarrow> gift_card_event" where
  "gift_card_balance_reset_event now requestor g old = gift_event now requestor GiftCardEvents_BALANCE_RESET
     [(''balance'', JObj [(''currency'', JStr (gf_currency g)), (''initial_balance'', JDec (gf_initial_balance_amount g)),
        (''current_balance'', JDec (gf_current_balance_amount g)), (''old_currency'', JStr (gf_currency g)),
        (''old_initial_balance'', JDec (gf_initial_balance_amount old)),
        (''old_current_balance'', JDec (gf_current_balance_amount old))])] None (gf_pk g)"

definition gift_card_expiry_date_updated_event ::
    "datetime \<Rightarrow> gift_requestor \<Rightarrow> gift_card_row \<Rightarrow> gift_card_row \<Rightarrow> gift_card_event" where
  "gift_card_expiry_date_updated_event now requestor g old = gift_event now requestor GiftCardEvents_EXPIRY_DATE_UPDATED
     [(''expiry_date'', json_day (gf_expiry_date g)), (''old_expiry_date'', json_day (gf_expiry_date old))] None (gf_pk g)"

definition gift_card_tags_updated_event ::
    "datetime \<Rightarrow> gift_requestor \<Rightarrow> gift_card_row \<Rightarrow> string list \<Rightarrow> gift_card_event" where
  "gift_card_tags_updated_event now requestor g old_tags = gift_event now requestor GiftCardEvents_TAGS_UPDATED
     [(''tags'', JList (map JStr (sort (gf_tags g)))), (''old_tags'', JList (map JStr old_tags))] None (gf_pk g)"

definition gift_cards_activated_event :: "datetime \<Rightarrow> gift_requestor \<Rightarrow> nat list \<Rightarrow> gift_card_event list" where
  "gift_cards_activated_event now requestor ks = map (gift_event now requestor GiftCardEvents_ACTIVATED [] None) ks"

definition gift_cards_deactivated_event :: "datetime \<Rightarrow> gift_requestor \<Rightarrow> nat list \<Rightarrow> gift_card_event list" where
  "gift_cards_deactivated_event now requestor ks = map (gift_event now requestor GiftCardEvents_DEACTIVATED [] None) ks"

definition gift_card_note_added_event :: "datetime \<Rightarrow> gift_requestor \<Rightarrow> nat \<Rightarrow> string \<Rightarrow> gift_card_event" where
  "gift_card_note_added_event now requestor k message =
     gift_event now requestor GiftCardEvents_NOTE_ADDED [(''message'', JStr message)] None k"

definition gift_cards_used_in_order_event ::
    "datetime \<Rightarrow> gift_requestor \<Rightarrow> nat \<Rightarrow> (gift_card_row \<times> decimal) list \<Rightarrow> gift_card_event list" where
  "gift_cards_used_in_order_event now requestor order balance_data =
     map (\<lambda>(g, previous_balance). gift_event now requestor GiftCardEvents_USED_IN_ORDER
       [(''balance'', JObj [(''currency'', JStr (gf_currency g)), (''current_balance'', JDec (gf_current_balance_amount g)),
          (''old_current_balance'', JDec previous_balance)])] (Some order) (gf_pk g)) balance_data"

definition gift_cards_bought_event :: "datetime \<Rightarrow> gift_requestor \<Rightarrow> nat \<Rightarrow> gift_card_row list \<Rightarrow> gift_card_event list" where
  "gift_cards_bought_event now requestor order gs = map (\<lambda>g. gift_event now requestor GiftCardEvents_BOUGHT
     [(''expiry_date'', json_day (gf_expiry_date g))] (Some order) (gf_pk g)) gs"

subsection \<open>Cards in time\<close>

definition active_gift_card :: "day \<Rightarrow> gift_card_row \<Rightarrow> bool" where
  "active_gift_card date g \<longleftrightarrow> (case gf_expiry_date g of None \<Rightarrow> True | Some d \<Rightarrow> d \<ge> date) \<and> gf_is_active g"

definition is_gift_card_expired :: "day \<Rightarrow> gift_card_row \<Rightarrow> bool" where
  "is_gift_card_expired today g \<longleftrightarrow> (case gf_expiry_date g of None \<Rightarrow> False | Some d \<Rightarrow> d < today)"

definition deactivate_gift_card :: "nat \<Rightarrow> gift_db \<Rightarrow> gift_db" where
  "deactivate_gift_card k = save_gift_card k (\<lambda>g. g\<lparr>gf_is_active := False\<rparr>)"

definition activate_gift_card :: "nat \<Rightarrow> gift_db \<Rightarrow> gift_db" where
  "activate_gift_card k = save_gift_card k (\<lambda>g. g\<lparr>gf_is_active := True\<rparr>)"

definition update_gift_cards :: "(gift_card_row \<Rightarrow> bool) \<Rightarrow> (gift_card_row \<Rightarrow> gift_card_row) \<Rightarrow> gift_db \<Rightarrow> gift_db" where
  "update_gift_cards Q f s = s\<lparr>gd_cards := map (\<lambda>g. if Q g then f g else g) (gd_cards s)\<rparr>"

definition deactivate_expired_cards_task :: "datetime \<Rightarrow> day \<Rightarrow> gift_db \<Rightarrow> gift_db" where
  "deactivate_expired_cards_task now today s =
     (let gift_cards = filter (\<lambda>g. is_gift_card_expired today g \<and> gf_is_active g) (gd_cards s)
      in if gift_cards = [] then s
         else add_gift_events (gift_cards_deactivated_event now (None, None) (map gf_pk gift_cards))
           (update_gift_cards (\<lambda>g. is_gift_card_expired today g \<and> gf_is_active g) (\<lambda>g. g\<lparr>gf_is_active := False\<rparr>) s))"

text \<open>The cards bought with an order; cards that are inactive already are recorded as deactivated too.\<close>

definition deactivate_order_gift_cards :: "datetime \<Rightarrow> gift_requestor \<Rightarrow> nat \<Rightarrow> gift_db \<Rightarrow> gift_db" where
  "deactivate_order_gift_cards now requestor order s =
     (let bought = (\<lambda>g. \<exists>e \<in> set (gd_events s). ge_type e = GiftCardEvents_BOUGHT \<and> ge_order e = Some order
            \<and> ge_gift_card e = gf_pk g)
      in add_gift_events (gift_cards_deactivated_event now requestor (map gf_pk (filter bought (gd_cards s))))
           (update_gift_cards bought (\<lambda>g. g\<lparr>gf_is_active := False\<rparr>) s))"

text \<open>\<open>assign_user_gift_cards\<close> on these rows.\<close>

definition assign_gift_card_owner :: "nat \<Rightarrow> string \<Rightarrow> gift_db \<Rightarrow> gift_db" where
  "assign_gift_card_owner user email s =
     update_gift_cards (\<lambda>g. gf_created_by_email g = Some email) (\<lambda>g. g\<lparr>gf_created_by := Some user\<rparr>)
       (update_gift_cards (\<lambda>g. gf_used_by_email g = Some email) (\<lambda>g. g\<lparr>gf_used_by := Some user\<rparr>) s)"

text \<open>\<open>add_period\<close> is the adding of a \<open>relativedelta\<close> of so many days, weeks, months or years.\<close>

record gift_card_settings =
  gs_expiry_type :: gift_card_settings_expiry_type
  gs_expiry_period_type :: time_period_type
  gs_expiry_period :: int

definition calculate_expiry_date ::
    "(time_period_type \<Rightarrow> int \<Rightarrow> day \<Rightarrow> day) \<Rightarrow> day \<Rightarrow> gift_card_settings \<Rightarrow> day option" where
  "calculate_expiry_date add_period today settings =
     (if gs_expiry_type settings = GiftCardSettingsExpiryType_EXPIRY_PERIOD
      then Some (add_period (gs_expiry_period_type settings) (gs_expiry_period settings) today) else None)"

end
