(* ===== verification/Taxes.thy ===== *)
theory Taxes
  imports CheckoutVouchers
begin

section \<open>Taxes\<close>

text \<open>
  \<^verbatim>\<open>tax/utils.py\<close>, \<^verbatim>\<open>tax/calculations\<close> and the refreshing of prices in \<^verbatim>\<open>checkout/calculations.py\<close>. A taxed amount
  holds net and gross; the \<open>prices\<close> package adds, multiplies and rounds both alike. What a tax app or the plugins of a
  tax service answer is the parameter \<open>app_prices\<close>. Rates are percentages, rates stored with lines are fractions.
\<close>

record taxed_money =
  tm_net :: decimal
  tm_gross :: decimal

definition untaxed :: "decimal \<Rightarrow> taxed_money" where
  "untaxed a = \<lparr>tm_net = a, tm_gross = a\<rparr>"

definition map_taxed :: "(decimal \<Rightarrow> decimal) \<Rightarrow> taxed_money \<Rightarrow> taxed_money" where
  "map_taxed f m = \<lparr>tm_net = f (tm_net m), tm_gross = f (tm_gross m)\<rparr>"

definition add_taxed :: "taxed_money \<Rightarrow> taxed_money \<Rightarrow> taxed_money" where
  "add_taxed a b = \<lparr>tm_net = tm_net a + tm_net b, tm_gross = tm_gross a + tm_gross b\<rparr>"

definition quantize_taxed :: "(string \<Rightarrow> nat) \<Rightarrow> taxed_money \<Rightarrow> string \<Rightarrow> taxed_money" where
  "quantize_taxed prec m currency = map_taxed (\<lambda>a. quantize_price prec a currency) m"

definition sum_taxed :: "taxed_money list \<Rightarrow> taxed_money" where
  "sum_taxed ms = foldl add_taxed (untaxed 0) ms"

text \<open>Zero is above a negative amount and not above a positive one; the \<open>prices\<close> package compares taxed amounts by the gross one.\<close>

definition below_zero_law :: "(taxed_money \<Rightarrow> bool) \<Rightarrow> bool" where
  "below_zero_law below \<longleftrightarrow> (\<forall>m. (tm_gross m < 0 \<longrightarrow> below m) \<and> (0 < tm_gross m \<longrightarrow> \<not> below m))"

subsection \<open>Configuration and rates\<close>

record tax_class_country_rate =
  tcr_tax_class :: "nat option"
  tcr_country :: string
  tcr_rate :: decimal

record tax_configuration_per_country =
  tcc_country :: string
  tcc_charge_taxes :: bool
  tcc_tax_calculation_strategy :: "tax_calculation_strategy option"
  tcc_display_gross_prices :: bool

record tax_configuration =
  tcf_charge_taxes :: bool
  tcf_tax_calculation_strategy :: "tax_calculation_strategy option"
  tcf_display_gross_prices :: bool
  tcf_prices_entered_with_tax :: bool
  tcf_country_exceptions :: "tax_configuration_per_country list"

definition get_active_country :: "string \<Rightarrow> string option \<Rightarrow> string option \<Rightarrow> string option \<Rightarrow> string" where
  "get_active_country default_country shipping_address billing_address address_data =
     (case address_data of Some c \<Rightarrow> c
      | None \<Rightarrow> (case shipping_address of Some c \<Rightarrow> c
      | None \<Rightarrow> (case billing_address of Some c \<Rightarrow> c | None \<Rightarrow> default_country)))"

definition get_display_gross_prices :: "tax_configuration \<Rightarrow> tax_configuration_per_country option \<Rightarrow> bool" where
  "get_display_gross_prices t c = (case c of Some x \<Rightarrow> tcc_display_gross_prices x | None \<Rightarrow> tcf_display_gross_prices t)"

definition get_charge_taxes :: "tax_configuration \<Rightarrow> tax_configuration_per_country option \<Rightarrow> bool" where
  "get_charge_taxes t c = (case c of Some x \<Rightarrow> tcc_charge_taxes x | None \<Rightarrow> tcf_charge_taxes t)"

definition get_tax_calculation_strategy ::
    "tax_configuration \<Rightarrow> tax_configuration_per_country option \<Rightarrow> tax_calculation_strategy" where
  "get_tax_calculation_strategy t c =
     (case (case c of Some x \<Rightarrow> tcc_tax_calculation_strategy x | None \<Rightarrow> tcf_tax_calculation_strategy t) of
        Some strategy \<Rightarrow> strategy | None \<Rightarrow> TaxCalculationStrategy_FLAT_RATES)"

definition country_tax_configuration :: "tax_configuration \<Rightarrow> string \<Rightarrow> tax_configuration_per_country option" where
  "country_tax_configuration t country = find (\<lambda>c. tcc_country c = country) (tcf_country_exceptions t)"

definition normalize_tax_rate_for_db :: "decimal \<Rightarrow> decimal" where
  "normalize_tax_rate_for_db tax_rate = tax_rate / 100"

definition denormalize_tax_rate_from_db :: "decimal \<Rightarrow> decimal" where
  "denormalize_tax_rate_from_db tax_rate = tax_rate * 100"

definition calculate_tax_rate :: "taxed_money \<Rightarrow> decimal" where
  "calculate_tax_rate price =
     (if tm_gross price \<noteq> 0 \<and> tm_net price \<noteq> 0 then (tm_gross price - tm_net price) / tm_net price else 0)"

text \<open>The last rate of the class for the country counts.\<close>

definition get_tax_rate_for_tax_class ::
    "nat option \<Rightarrow> tax_class_country_rate list \<Rightarrow> decimal \<Rightarrow> string \<Rightarrow> decimal" where
  "get_tax_rate_for_tax_class tax_class country_rates default_tax_rate country_code =
     (case tax_class of
        None \<Rightarrow> default_tax_rate
      | Some c \<Rightarrow> foldl (\<lambda>r cr. if tcr_country cr = country_code then tcr_rate cr else r) default_tax_rate
          (filter (\<lambda>cr. tcr_tax_class cr = Some c) country_rates))"

definition default_rate :: "tax_class_country_rate list \<Rightarrow> string \<Rightarrow> decimal" where
  "default_rate country_rates country_code =
     (case find (\<lambda>cr. tcr_country cr = country_code \<and> tcr_tax_class cr = None) country_rates of
        Some cr \<Rightarrow> tcr_rate cr | None \<Rightarrow> 0)"

definition calculate_flat_rate_tax :: "decimal \<Rightarrow> decimal \<Rightarrow> bool \<Rightarrow> discount_error + taxed_money" where
  "calculate_flat_rate_tax money tax_rate prices_entered_with_tax =
     (let tax_rate = 1 + tax_rate / 100
      in if prices_entered_with_tax
         then (if tax_rate = 0 then Inl DivisionByZero else Inr \<lparr>tm_net = money / tax_rate, tm_gross = money\<rparr>)
         else Inr \<lparr>tm_net = money, tm_gross = money * tax_rate\<rparr>)"

subsection \<open>The taxed prices of a checkout\<close>

text \<open>What a checkout stores: for each line its total and its rate.\<close>

record checkout_prices =
  cx_lines :: "(taxed_money \<times> decimal) list"
  cx_shipping_price :: taxed_money
  cx_shipping_tax_rate :: decimal
  cx_subtotal :: taxed_money
  cx_total :: taxed_money

definition calculate_checkout_line_total ::
    "prices \<Rightarrow> (string \<Rightarrow> nat) \<Rightarrow> voucher_db \<Rightarrow> checkout_info \<Rightarrow> checkout_line_info list \<Rightarrow> decimal \<Rightarrow> bool \<Rightarrow> checkout_line_info
     \<Rightarrow> discount_error + taxed_money" where
  "calculate_checkout_line_total P prec s info lines tax_rate prices_entered_with_tax l =
     bindr (calculate_base_line_total_price P prec s (ch_currency (cf_checkout info)) (cf_channel info) l) (\<lambda>base_total_price.
     bindr (apply_checkout_discount_on_checkout_line P prec s info lines l base_total_price) (\<lambda>total_price.
     bindr (calculate_flat_rate_tax total_price tax_rate prices_entered_with_tax) (\<lambda>m.
       Inr (quantize_taxed prec m (ch_currency (cf_checkout info))))))"

definition calculate_checkout_shipping ::
    "(string \<Rightarrow> nat) \<Rightarrow> checkout_info \<Rightarrow> checkout_line_info list \<Rightarrow> decimal \<Rightarrow> bool \<Rightarrow> discount_error + taxed_money" where
  "calculate_checkout_shipping prec info lines tax_rate prices_entered_with_tax =
     bindr (calculate_flat_rate_tax (base_checkout_delivery_price prec info lines) tax_rate prices_entered_with_tax) (\<lambda>m.
       Inr (quantize_taxed prec m (ch_currency (cf_checkout info))))"

text \<open>\<open>tax_class_of\<close> is the tax class of a line, \<open>shipping_tax_class\<close> that of the delivery method.\<close>

definition update_checkout_prices_with_flat_rates ::
    "prices \<Rightarrow> (string \<Rightarrow> nat) \<Rightarrow> voucher_db \<Rightarrow> tax_class_country_rate list \<Rightarrow> (checkout_line_info \<Rightarrow> nat option) \<Rightarrow> nat option
     \<Rightarrow> string \<Rightarrow> checkout_info \<Rightarrow> checkout_line_info list \<Rightarrow> bool \<Rightarrow> discount_error + checkout_prices" where
  "update_checkout_prices_with_flat_rates P prec s country_rates tax_class_of shipping_tax_class country_code info lines
       prices_entered_with_tax =
     (let default_tax_rate = default_rate country_rates country_code;
          rate = (\<lambda>tax_class. get_tax_rate_for_tax_class tax_class country_rates default_tax_rate country_code)
      in bindr (map_results (\<lambda>l. bindr (calculate_checkout_line_total P prec s info lines (rate (tax_class_of l))
              prices_entered_with_tax l) (\<lambda>m. Inr (m, normalize_tax_rate_for_db (rate (tax_class_of l))))) lines) (\<lambda>ls.
         bindr (calculate_checkout_shipping prec info lines (rate shipping_tax_class) prices_entered_with_tax) (\<lambda>shipping_price.
           let subtotal = sum_taxed (map fst ls)
           in Inr \<lparr>cx_lines = ls, cx_shipping_price = shipping_price,
                cx_shipping_tax_rate = normalize_tax_rate_for_db (rate shipping_tax_class),
                cx_subtotal = subtotal, cx_total = add_taxed subtotal shipping_price\<rparr>)))"

subsection \<open>Prices without taxes, and with taxes taken off\<close>

definition remove_checkout_tax :: "checkout_prices \<Rightarrow> checkout_prices" where
  "remove_checkout_tax x = \<lparr>cx_lines = map (\<lambda>(m, _). (untaxed (tm_net m), 0)) (cx_lines x),
     cx_shipping_price = untaxed (tm_net (cx_shipping_price x)), cx_shipping_tax_rate = 0,
     cx_subtotal = untaxed (tm_net (cx_subtotal x)), cx_total = untaxed (tm_net (cx_total x))\<rparr>"

definition get_checkout_base_prices ::
    "prices \<Rightarrow> (string \<Rightarrow> nat) \<Rightarrow> voucher_db \<Rightarrow> checkout_info \<Rightarrow> checkout_line_info list \<Rightarrow> discount_error + checkout_prices" where
  "get_checkout_base_prices P prec s info lines =
     (let currency = ch_currency (cf_checkout info)
      in bindr (map_results (\<lambda>l. bindr (calculate_base_line_unit_price P prec s currency (cf_channel info) l) (\<lambda>unit_price.
              bindr (apply_checkout_discount_on_checkout_line P prec s info lines l (unit_price * of_int (ct_quantity (ci_line l))))
                (\<lambda>total_price. Inr (quantize_price prec total_price currency)))) lines) (\<lambda>totals.
           let subtotal = sum_list totals;
               shipping_price = base_checkout_delivery_price prec info lines;
               total = subtotal + shipping_price
           in Inr \<lparr>cx_lines = map (\<lambda>t. (untaxed t, 0)) totals,
                cx_shipping_price = quantize_taxed prec (untaxed shipping_price) currency, cx_shipping_tax_rate = 0,
                cx_subtotal = untaxed subtotal, cx_total = quantize_taxed prec (untaxed total) currency\<rparr>))"

subsection \<open>What a tax app answers\<close>

record tax_line_data =
  tl_tax_rate :: decimal
  tl_total_gross_amount :: decimal
  tl_total_net_amount :: decimal

record tax_data =
  td_shipping_price_gross_amount :: decimal
  td_shipping_price_net_amount :: decimal
  td_shipping_tax_rate :: decimal
  td_lines :: "tax_line_data list"

text \<open>Lines beyond those of the answer keep what they had.\<close>

fun zip_update :: "('a \<Rightarrow> 'b \<Rightarrow> 'a) \<Rightarrow> 'a list \<Rightarrow> 'b list \<Rightarrow> 'a list" where
  "zip_update f (x # xs) (y # ys) = f x y # zip_update f xs ys"
| "zip_update f xs ys = xs"

definition apply_checkout_tax_data :: "(string \<Rightarrow> nat) \<Rightarrow> string \<Rightarrow> tax_data option \<Rightarrow> checkout_prices \<Rightarrow> checkout_prices" where
  "apply_checkout_tax_data prec currency data x =
     (case data of
        None \<Rightarrow> x
      | Some d \<Rightarrow>
          (let ls = zip_update (\<lambda>_ t. (quantize_taxed prec \<lparr>tm_net = tl_total_net_amount t, tm_gross = tl_total_gross_amount t\<rparr> currency,
                 normalize_tax_rate_for_db (tl_tax_rate t))) (cx_lines x) (td_lines d);
               shipping_price = quantize_taxed prec \<lparr>tm_net = td_shipping_price_net_amount d,
                 tm_gross = td_shipping_price_gross_amount d\<rparr> currency;
               subtotal = quantize_taxed prec (sum_taxed (map fst ls)) currency
           in \<lparr>cx_lines = ls, cx_shipping_price = shipping_price,
                cx_shipping_tax_rate = normalize_tax_rate_for_db (td_shipping_tax_rate d), cx_subtotal = subtotal,
                cx_total = quantize_taxed prec (add_taxed subtotal shipping_price) currency\<rparr>))"

subsection \<open>Refreshing\<close>

text \<open>
  A checkout whose prices are not expired is left alone. \<open>plugin_prices\<close> is what the plugins calculate, \<open>app_data\<close> what
  tax apps answer.
\<close>

record tax_world =
  tw_country_rates :: "tax_class_country_rate list"
  tw_tax_class_of :: "checkout_line_info \<Rightarrow> nat option"
  tw_shipping_tax_class :: "nat option"
  tw_configuration :: tax_configuration
  tw_default_country :: string
  tw_plugin_prices :: "checkout_line_info list \<Rightarrow> checkout_prices"
  tw_app_data :: "checkout_line_info list \<Rightarrow> tax_data option"

definition calculate_and_add_checkout_tax ::
    "prices \<Rightarrow> (string \<Rightarrow> nat) \<Rightarrow> voucher_db \<Rightarrow> tax_world \<Rightarrow> tax_calculation_strategy \<Rightarrow> string \<Rightarrow> checkout_info
     \<Rightarrow> checkout_line_info list \<Rightarrow> bool \<Rightarrow> discount_error + checkout_prices" where
  "calculate_and_add_checkout_tax P prec s w strategy country_code info lines prices_entered_with_tax =
     (if strategy = TaxCalculationStrategy_TAX_APP
      then Inr (apply_checkout_tax_data prec (ch_currency (cf_checkout info)) (tw_app_data w lines) (tw_plugin_prices w lines))
      else update_checkout_prices_with_flat_rates P prec s (tw_country_rates w) (tw_tax_class_of w) (tw_shipping_tax_class w)
        country_code info lines prices_entered_with_tax)"

record refreshed_checkout =
  rc_prices :: checkout_prices
  rc_lines :: "checkout_line_info list"
  rc_discounts :: "line_discount list"
  rc_price_expiration :: int

text \<open>\<open>address\<close> is the country of the address that is passed on, \<open>ttl\<close> the time that prices live.\<close>

definition fetch_checkout_prices_if_expired ::
    "prices \<Rightarrow> (string \<Rightarrow> nat) \<Rightarrow> voucher_db \<Rightarrow> tax_world \<Rightarrow> nat \<Rightarrow> int \<Rightarrow> int \<Rightarrow> checkout_info \<Rightarrow> string option \<Rightarrow> bool \<Rightarrow> bool
     \<Rightarrow> refreshed_checkout \<Rightarrow> discount_error + refreshed_checkout" where
  "fetch_checkout_prices_if_expired P prec s w pk now ttl info address tax_exemption force_update r =
     (if \<not> force_update \<and> rc_price_expiration r > now then Inr r
      else (let c = country_tax_configuration (tw_configuration w)
                  (get_active_country (tw_default_country w) (cf_shipping_country info) (cf_billing_country info) None);
                strategy = get_tax_calculation_strategy (tw_configuration w) c;
                prices_entered_with_tax = tcf_prices_entered_with_tax (tw_configuration w);
                should_charge_tax = get_charge_taxes (tw_configuration w) c \<and> \<not> tax_exemption;
                (lines, rows) = create_or_update_discount_objects_from_promotion_for_checkout pk (rc_lines r) (rc_discounts r);
                taxed = calculate_and_add_checkout_tax P prec s w strategy
                  (get_active_country (tw_default_country w) address None None) info lines prices_entered_with_tax
            in bindr (if prices_entered_with_tax
                      then bindr taxed (\<lambda>x. Inr (if should_charge_tax then x else remove_checkout_tax x))
                      else if should_charge_tax then taxed
                      else get_checkout_base_prices P prec s info lines) (\<lambda>x.
                 Inr \<lparr>rc_prices = x, rc_lines = lines, rc_discounts = rows, rc_price_expiration = now + ttl\<rparr>)))"

subsection \<open>The totals that others read\<close>

text \<open>Each refreshes the prices if they are expired, and rounds the column it answers; what was refreshed stays.\<close>

definition fetched_price ::
    "(checkout_prices \<Rightarrow> taxed_money) \<Rightarrow> prices \<Rightarrow> (string \<Rightarrow> nat) \<Rightarrow> voucher_db \<Rightarrow> tax_world \<Rightarrow> nat \<Rightarrow> int \<Rightarrow> int \<Rightarrow> checkout_info
     \<Rightarrow> string option \<Rightarrow> bool \<Rightarrow> refreshed_checkout \<Rightarrow> discount_error + taxed_money \<times> refreshed_checkout" where
  "fetched_price column P prec s w pk now ttl info address tax_exemption r =
     bindr (fetch_checkout_prices_if_expired P prec s w pk now ttl info address tax_exemption False r) (\<lambda>r.
       Inr (quantize_taxed prec (column (rc_prices r)) (ch_currency (cf_checkout info)), r))"

definition checkout_shipping_price ::
    "prices \<Rightarrow> (string \<Rightarrow> nat) \<Rightarrow> voucher_db \<Rightarrow> tax_world \<Rightarrow> nat \<Rightarrow> int \<Rightarrow> int \<Rightarrow> checkout_info \<Rightarrow> string option \<Rightarrow> bool
     \<Rightarrow> refreshed_checkout \<Rightarrow> discount_error + taxed_money \<times> refreshed_checkout" where
  "checkout_shipping_price = fetched_price cx_shipping_price"

definition checkout_subtotal ::
    "prices \<Rightarrow> (string \<Rightarrow> nat) \<Rightarrow> voucher_db \<Rightarrow> tax_world \<Rightarrow> nat \<Rightarrow> int \<Rightarrow> int \<Rightarrow> checkout_info \<Rightarrow> string option \<Rightarrow> bool
     \<Rightarrow> refreshed_checkout \<Rightarrow> discount_error + taxed_money \<times> refreshed_checkout" where
  "checkout_subtotal = fetched_price cx_subtotal"

definition taxed_checkout_total ::
    "prices \<Rightarrow> (string \<Rightarrow> nat) \<Rightarrow> voucher_db \<Rightarrow> tax_world \<Rightarrow> nat \<Rightarrow> int \<Rightarrow> int \<Rightarrow> checkout_info \<Rightarrow> string option \<Rightarrow> bool
     \<Rightarrow> refreshed_checkout \<Rightarrow> discount_error + taxed_money \<times> refreshed_checkout" where
  "taxed_checkout_total = fetched_price cx_total"

end
