(* ===== verification/GiftCardOps.thy ===== *)
theory GiftCardOps
  imports GiftCards Taxes
begin

section \<open>Using, issuing and changing gift cards\<close>

subsection \<open>In a checkout\<close>

text \<open>The vouchers, with the codes the gift cards hold.\<close>

definition promo_view :: "gift_db \<Rightarrow> voucher_db" where
  "promo_view s = (gd_vouchers s)\<lparr>vd_gift_card_codes := map gf_code (gd_cards s)\<rparr>"

definition add_gift_card_code_to_checkout ::
    "day \<Rightarrow> string \<Rightarrow> string \<Rightarrow> gift_db \<Rightarrow> checkout \<Rightarrow> gift_error + checkout" where
  "add_gift_card_code_to_checkout today promo_code currency s c =
     (case find (\<lambda>g. active_gift_card today g \<and> gf_currency g = currency \<and> gf_code g = promo_code) (gd_cards s) of
        None \<Rightarrow> Inl GiftInvalidPromoCode
      | Some g \<Rightarrow> Inr (if gf_pk g \<in> set (ch_gift_cards c) then c
          else c\<lparr>ch_gift_cards := ch_gift_cards c @ [gf_pk g]\<rparr>))"

definition remove_gift_card_code_from_checkout :: "string \<Rightarrow> gift_db \<Rightarrow> checkout \<Rightarrow> bool \<times> checkout" where
  "remove_gift_card_code_from_checkout gift_card_code s c =
     (case find (\<lambda>g. gf_pk g \<in> set (ch_gift_cards c) \<and> gf_code g = gift_card_code) (gd_cards s) of
        None \<Rightarrow> (False, c)
      | Some g \<Rightarrow> (True, c\<lparr>ch_gift_cards := filter (\<lambda>k. k \<noteq> gf_pk g) (ch_gift_cards c)\<rparr>))"

definition get_total_gift_cards_balance :: "day \<Rightarrow> gift_db \<Rightarrow> checkout \<Rightarrow> decimal" where
  "get_total_gift_cards_balance today s c = sum_list (map gf_current_balance_amount
     (filter (\<lambda>g. gf_pk g \<in> set (ch_gift_cards c) \<and> active_gift_card today g) (gd_cards s)))"

text \<open>
  The total is the one with taxes, refreshed when it is expired; the balance is taken from net and gross alike.
  \<open>below_zero\<close> is the comparison of the \<open>prices\<close> package of zero with a taxed amount. The checkout that was
  refreshed is returned with the total.
\<close>

definition calculate_checkout_total_with_gift_cards ::
    "prices \<Rightarrow> (string \<Rightarrow> nat) \<Rightarrow> (taxed_money \<Rightarrow> bool) \<Rightarrow> tax_world \<Rightarrow> nat \<Rightarrow> int \<Rightarrow> int \<Rightarrow> day \<Rightarrow> gift_db \<Rightarrow> checkout_info
     \<Rightarrow> string option \<Rightarrow> bool \<Rightarrow> refreshed_checkout \<Rightarrow> discount_error + taxed_money \<times> refreshed_checkout" where
  "calculate_checkout_total_with_gift_cards P prec below_zero w pk now ttl today s info address tax_exemption r =
     bindr (taxed_checkout_total P prec (gd_vouchers s) w pk now ttl info address tax_exemption r) (\<lambda>(price, r).
       let total = map_taxed (\<lambda>a. a - get_total_gift_cards_balance today s (cf_checkout info)) price
       in Inr (if below_zero total then untaxed 0 else total, r))"

definition validate_gift_cards :: "day \<Rightarrow> gift_db \<Rightarrow> checkout \<Rightarrow> gift_error + unit" where
  "validate_gift_cards today s c =
     (let cards = filter (\<lambda>g. gf_pk g \<in> set (ch_gift_cards c)) (gd_cards s)
      in if length cards = length (filter (active_gift_card today) cards) then Inr () else Inl GiftExpired)"

text \<open>Adding a promo code: a voucher's, or a gift card's in the currency of the channel.\<close>

definition add_promo_code_to_checkout ::
    "prices \<Rightarrow> (string \<Rightarrow> nat) \<Rightarrow> (voucher \<Rightarrow> string \<Rightarrow> string) \<Rightarrow> (voucher_code list \<Rightarrow> voucher_code) \<Rightarrow> datetime \<Rightarrow> day
     \<Rightarrow> sales_channel \<Rightarrow> gift_db \<Rightarrow> checkout_info \<Rightarrow> checkout_line_info list \<Rightarrow> string \<Rightarrow> promo_error + checkout_info" where
  "add_promo_code_to_checkout P prec voucher_name any_row now today channel s info lines promo_code =
     (if promo_code_is_voucher (promo_view s) promo_code
      then add_voucher_code_to_checkout P prec voucher_name any_row now (sc_slug channel) (promo_view s) info lines promo_code
      else if promo_code_is_gift_card (promo_view s) promo_code
      then (case add_gift_card_code_to_checkout today promo_code (sc_currency_code channel) s (cf_checkout info) of
              Inl _ \<Rightarrow> Inl PromoInvalid
            | Inr c \<Rightarrow> Inr (info\<lparr>cf_checkout := c\<rparr>))
      else Inl PromoInvalid)"

definition remove_promo_code_from_checkout :: "gift_db \<Rightarrow> checkout_info \<Rightarrow> string \<Rightarrow> bool \<times> checkout_info" where
  "remove_promo_code_from_checkout s info promo_code =
     (if promo_code_is_voucher (promo_view s) promo_code
      then remove_voucher_code_from_checkout (promo_view s) info promo_code
      else if promo_code_is_gift_card (promo_view s) promo_code
      then (case remove_gift_card_code_from_checkout promo_code s (cf_checkout info) of (b, c) \<Rightarrow> (b, info\<lparr>cf_checkout := c\<rparr>))
      else (False, info))"

subsection \<open>In an order\<close>

text \<open>
  What an order is to cost, and what the gift cards have to pay of it: the total with gift cards, and the subtotal and
  the shipping price less the discount of the checkout.
\<close>

definition prepare_order_totals ::
    "prices \<Rightarrow> (string \<Rightarrow> nat) \<Rightarrow> (taxed_money \<Rightarrow> bool) \<Rightarrow> tax_world \<Rightarrow> nat \<Rightarrow> int \<Rightarrow> int \<Rightarrow> day \<Rightarrow> gift_db \<Rightarrow> checkout_info
     \<Rightarrow> string option \<Rightarrow> bool \<Rightarrow> refreshed_checkout \<Rightarrow> discount_error + (taxed_money \<times> decimal) \<times> refreshed_checkout" where
  "prepare_order_totals P prec below_zero w pk now ttl today s info address tax_exemption r =
     bindr (calculate_checkout_total_with_gift_cards P prec below_zero w pk now ttl today s info address tax_exemption r)
       (\<lambda>(taxed_total, r).
     bindr (checkout_shipping_price P prec (gd_vouchers s) w pk now ttl info address tax_exemption r) (\<lambda>(shipping_total, r).
     bindr (checkout_subtotal P prec (gd_vouchers s) w pk now ttl info address tax_exemption r) (\<lambda>(subtotal, r).
       let total_price_left = map_taxed (\<lambda>a. a - ch_discount_amount (cf_checkout info)) (add_taxed subtotal shipping_total)
       in Inr ((taxed_total, tm_gross total_price_left), r))))"


definition update_gift_card_balance :: "gift_card_row \<Rightarrow> decimal \<Rightarrow> gift_card_row \<times> decimal" where
  "update_gift_card_balance g total_price_left =
     (if total_price_left < gf_current_balance_amount g
      then (g\<lparr>gf_current_balance_amount := gf_current_balance_amount g - total_price_left\<rparr>, 0)
      else (g\<lparr>gf_current_balance_amount := 0\<rparr>, total_price_left - gf_current_balance_amount g))"

definition set_gift_card_user :: "nat option \<Rightarrow> string option \<Rightarrow> gift_db \<Rightarrow> gift_card_row \<Rightarrow> gift_card_row" where
  "set_gift_card_user used_by_user used_by_email s g = g\<lparr>
     gf_used_by := (case used_by_user of Some u \<Rightarrow> Some u
       | None \<Rightarrow> map_option fst (find (\<lambda>(k, e). Some e = used_by_email) (gd_users s))),
     gf_used_by_email := used_by_email\<rparr>"

text \<open>The cards in the order of their codes, each used as far as something is left to pay: the used cards with what they held.\<close>

fun use_gift_cards ::
    "(gift_card_row \<Rightarrow> gift_card_row) \<Rightarrow> decimal \<Rightarrow> gift_card_row list \<Rightarrow> (gift_card_row \<times> decimal) list \<times> decimal" where
  "use_gift_cards mark total_price_left [] = ([], total_price_left)"
| "use_gift_cards mark total_price_left (g # gs) =
     (if total_price_left > 0
      then (case update_gift_card_balance g total_price_left of (used, rest) \<Rightarrow>
              (case use_gift_cards mark rest gs of (uses, rest) \<Rightarrow> ((mark used, gf_current_balance_amount g) # uses, rest)))
      else use_gift_cards mark total_price_left gs)"

definition add_gift_cards_to_order ::
    "datetime \<Rightarrow> gift_requestor \<Rightarrow> checkout_info \<Rightarrow> nat \<Rightarrow> decimal \<Rightarrow> gift_db \<Rightarrow> gift_db \<times> nat list" where
  "add_gift_cards_to_order now requestor info order total_price_left s =
     (let mark = (\<lambda>g. (set_gift_card_user (map_option user_pk (cf_user info)) (get_customer_email info) s g)\<lparr>
            gf_last_used_on := Some now\<rparr>);
          cards = sort_key gf_code (filter (\<lambda>g. gf_pk g \<in> set (ch_gift_cards (cf_checkout info))) (gd_cards s));
          uses = fst (use_gift_cards mark total_price_left cards)
      in (add_gift_events (gift_cards_used_in_order_event now requestor order uses)
            (update_gift_cards (\<lambda>g. gf_pk g \<in> gf_pk ` fst ` set uses)
               (\<lambda>g. case row_of gf_pk (gf_pk g) (map fst uses) of None \<Rightarrow> g | Some u \<Rightarrow> u) s),
          map (gf_pk \<circ> fst) uses))"

subsection \<open>Issuing\<close>

definition next_gift_card_pk :: "gift_db \<Rightarrow> nat" where
  "next_gift_card_pk s = Suc (sum_list (map gf_pk (gd_cards s)))"

text \<open>
  Codes are drawn one after the other, each one that no voucher and no card has; those drawn before in the same batch
  are not stored yet, so that two cards may get the same code and the batch fails on the unique column.
\<close>

fun draw_codes :: "string list \<Rightarrow> voucher_db \<Rightarrow> nat \<Rightarrow> string list option" where
  "draw_codes random_codes s 0 = Some []"
| "draw_codes [] s (Suc n) = None"
| "draw_codes (code # random_codes) s (Suc n) =
     (if is_available_promo_code s code then map_option ((#) code) (draw_codes random_codes s n)
      else draw_codes random_codes s (Suc n))"

definition create_cards ::
    "string list \<Rightarrow> gift_card_row list \<Rightarrow> gift_db \<Rightarrow> gift_error + gift_card_row list \<times> gift_db" where
  "create_cards random_codes gs s =
     (case draw_codes random_codes (promo_view s) (length gs) of
        None \<Rightarrow> Inl GiftCodesExhausted
      | Some codes \<Rightarrow>
          if \<not> distinct codes then Inl GiftIntegrityError
          else (let k = next_gift_card_pk s;
                    cards = map (\<lambda>(g, code, n). g\<lparr>gf_code := code, gf_pk := n\<rparr>)
                      (zip gs (zip codes [k..<k + length gs]))
                in Inr (cards, s\<lparr>gd_cards := gd_cards s @ cards\<rparr>)))"

record gift_card_line_data =
  gl_quantity :: nat
  gl_unit_price_gross :: decimal
  gl_currency :: string
  gl_product :: "nat option"
  gl_fulfillment_line :: "nat option"

definition blank_gift_card :: "string \<Rightarrow> decimal \<Rightarrow> gift_card_row" where
  "blank_gift_card currency balance = \<lparr>gf_pk = 0, gf_code = [], gf_is_active = True, gf_created_by = None, gf_used_by = None,
     gf_created_by_email = None, gf_used_by_email = None, gf_app = None, gf_expiry_date = None, gf_tags = [],
     gf_last_used_on = None, gf_product = None, gf_fulfillment_line = None, gf_currency = currency,
     gf_initial_balance_amount = balance, gf_current_balance_amount = balance\<rparr>"

text \<open>The cards a customer bought, when their lines are fulfilled.\<close>

definition gift_cards_create ::
    "datetime \<Rightarrow> day option \<Rightarrow> gift_requestor \<Rightarrow> string list \<Rightarrow> nat \<Rightarrow> nat option \<Rightarrow> string \<Rightarrow> gift_card_line_data list \<Rightarrow> gift_db
     \<Rightarrow> gift_error + gift_card_row list \<times> gift_db" where
  "gift_cards_create now expiry_date requestor random_codes order customer_user order_user_email lines s =
     bindr (create_cards random_codes (concat (map (\<lambda>l. replicate (gl_quantity l)
             ((blank_gift_card (gl_currency l) (gl_unit_price_gross l))\<lparr>gf_created_by := customer_user,
                gf_created_by_email := Some order_user_email, gf_product := gl_product l,
                gf_fulfillment_line := gl_fulfillment_line l, gf_expiry_date := expiry_date\<rparr>)) lines)) s) (\<lambda>(cards, s).
       Inr (cards, add_gift_events (gift_cards_bought_event now requestor order cards) s))"

subsection \<open>The mutations\<close>

record gift_card_input =
  gi_balance :: "(decimal \<times> string) option"
  gi_user_email :: "string option"
  gi_channel :: "string option"
  gi_is_active :: bool
  gi_code :: "string option"
  gi_note :: "string option"
  gi_add_tags :: "string list option"
  gi_remove_tags :: "string list option"
  gi_expiry_date :: "day option option"
  gi_balance_amount :: "decimal option"

text \<open>A date that is given may be null.\<close>

definition validate_price_precision :: "(string \<Rightarrow> nat) \<Rightarrow> decimal \<Rightarrow> string \<Rightarrow> bool" where
  "validate_price_precision prec value currency \<longleftrightarrow> value = 0 \<or> quantize (prec currency) value = value"

definition clean_expiry_date :: "day \<Rightarrow> gift_card_input \<Rightarrow> gift_error + unit" where
  "clean_expiry_date today i = (case gi_expiry_date i of
       Some (Some d) \<Rightarrow> if d > today then Inr () else Inl (GiftInvalid ''expiry_date'')
     | _ \<Rightarrow> Inr ())"

definition given_expiry_date :: "gift_card_input \<Rightarrow> day option" where
  "given_expiry_date i = (case gi_expiry_date i of None \<Rightarrow> None | Some d \<Rightarrow> d)"

definition clean_balance :: "(string \<Rightarrow> nat) \<Rightarrow> decimal \<times> string \<Rightarrow> gift_error + unit" where
  "clean_balance prec balance =
     (if \<not> validate_price_precision prec (fst balance) (snd balance) then Inl (GiftInvalid ''balance'')
      else if \<not> fst balance > 0 then Inl (GiftInvalid ''balance'') else Inr ())"

definition given :: "string option \<Rightarrow> bool" where
  "given x \<longleftrightarrow> x \<noteq> None \<and> x \<noteq> Some []"

definition clean_recipient :: "(string \<Rightarrow> bool) \<Rightarrow> gift_card_input \<Rightarrow> gift_error + unit" where
  "clean_recipient valid_email i =
     (if \<not> given (gi_user_email i) then Inr ()
      else if \<not> valid_email (the (gi_user_email i)) then Inl (GiftInvalid ''email'')
      else if \<not> given (gi_channel i) then Inl (GiftRequired ''channel'')
      else Inr ())"

definition assign_tags :: "(string \<Rightarrow> string) \<Rightarrow> string list \<Rightarrow> nat list \<Rightarrow> gift_db \<Rightarrow> gift_db" where
  "assign_tags lower tags ks s =
     (let names = remdups (map lower tags)
      in update_gift_cards (\<lambda>g. gf_pk g \<in> set ks) (\<lambda>g. g\<lparr>gf_tags := gf_tags g @ filter (\<lambda>t. t \<notin> set (gf_tags g)) names\<rparr>)
           (s\<lparr>gd_tags := gd_tags s @ filter (\<lambda>t. t \<notin> set (gd_tags s)) names\<rparr>))"

definition remove_tags :: "(string \<Rightarrow> string) \<Rightarrow> string list \<Rightarrow> nat \<Rightarrow> gift_db \<Rightarrow> gift_db" where
  "remove_tags lower tags k s =
     (let names = map lower tags;
          s = save_gift_card k (\<lambda>g. g\<lparr>gf_tags := filter (\<lambda>t. t \<notin> set names) (gf_tags g)\<rparr>) s
      in s\<lparr>gd_tags := filter (\<lambda>t. t \<notin> set names \<or> (\<exists>g \<in> set (gd_cards s). t \<in> set (gf_tags g))) (gd_tags s)\<rparr>)"

text \<open>The code of a card has 8 to 16 characters and no other card has it: the checks of the model when it is saved.\<close>

definition code_accepted :: "gift_db \<Rightarrow> string \<Rightarrow> bool" where
  "code_accepted s code \<longleftrightarrow> 8 \<le> length code \<and> length code \<le> 16 \<and> code \<notin> gf_code ` set (gd_cards s)"

definition gift_card_create ::
    "(string \<Rightarrow> nat) \<Rightarrow> (string \<Rightarrow> bool) \<Rightarrow> (string \<Rightarrow> string) \<Rightarrow> string list \<Rightarrow> datetime \<Rightarrow> day \<Rightarrow> gift_requestor \<Rightarrow> gift_card_input
     \<Rightarrow> gift_db \<Rightarrow> gift_error + gift_card_row \<times> gift_db" where
  "gift_card_create prec valid_email lower random_codes now today requestor i s =
     bindr (if given (gi_code i)
            then (if is_available_promo_code (promo_view s) (the (gi_code i)) then Inr (the (gi_code i)) else Inl GiftAlreadyExists)
            else (case generate_promo_code random_codes (promo_view s) of None \<Rightarrow> Inl GiftCodesExhausted | Some c \<Rightarrow> Inr c)) (\<lambda>code.
     bindr (clean_expiry_date today i) (\<lambda>_.
     bindr (case gi_balance i of None \<Rightarrow> Inl (GiftRequired ''balance'')
            | Some b \<Rightarrow> bindr (clean_balance prec b) (\<lambda>_. Inr b)) (\<lambda>balance.
     bindr (clean_recipient valid_email i) (\<lambda>_.
       if \<not> code_accepted s code then Inl (GiftInvalid ''code'')
       else (let k = next_gift_card_pk s;
                 card = (blank_gift_card (snd balance) (fst balance))\<lparr>gf_pk := k, gf_code := code,
                   gf_is_active := gi_is_active i, gf_created_by := fst requestor,
                   gf_created_by_email := (case fst requestor of None \<Rightarrow> None
                     | Some u \<Rightarrow> map_option snd (find (\<lambda>(x, _). x = u) (gd_users s))),
                   gf_app := snd requestor, gf_expiry_date := given_expiry_date i\<rparr>;
                 s = s\<lparr>gd_cards := gd_cards s @ [card]\<rparr>;
                 s = (case gi_add_tags i of None \<Rightarrow> s | Some tags \<Rightarrow> assign_tags lower tags [k] s);
                 s = add_gift_events [gift_card_issued_event now requestor card] s;
                 s = (if given (gi_note i) then add_gift_events [gift_card_note_added_event now requestor k (the (gi_note i))] s else s)
             in Inr (card, s))))))"

definition gift_card_update ::
    "(string \<Rightarrow> nat) \<Rightarrow> (string \<Rightarrow> string) \<Rightarrow> datetime \<Rightarrow> day \<Rightarrow> gift_requestor \<Rightarrow> nat \<Rightarrow> gift_card_input \<Rightarrow> gift_db
     \<Rightarrow> gift_error + gift_db" where
  "gift_card_update prec lower now today requestor k i s =
     (case row_of gf_pk k (gd_cards s) of
        None \<Rightarrow> Inl GiftNotFound
      | Some old \<Rightarrow>
          bindr (clean_expiry_date today i) (\<lambda>_.
          bindr (case gi_balance_amount i of None \<Rightarrow> Inr ()
                 | Some a \<Rightarrow> if validate_price_precision prec a (gf_currency old) then Inr () else Inl (GiftInvalid ''balance_amount'')) (\<lambda>_.
          bindr (case (gi_add_tags i, gi_remove_tags i) of
                   (Some a, Some r) \<Rightarrow> if set a \<inter> set r = {} then Inr () else Inl GiftDuplicatedItem
                 | _ \<Rightarrow> Inr ()) (\<lambda>_.
            let expiry = (case gi_expiry_date i of
                  Some (Some d) \<Rightarrow> if gf_expiry_date old = Some d then None else Some (Some d)
                | d \<Rightarrow> d);
                s = save_gift_card k (\<lambda>g. case gi_balance_amount i of None \<Rightarrow> g
                  | Some a \<Rightarrow> g\<lparr>gf_initial_balance_amount := a, gf_current_balance_amount := a\<rparr>) s;
                s = save_gift_card k (\<lambda>g. case expiry of None \<Rightarrow> g | Some d \<Rightarrow> g\<lparr>gf_expiry_date := d\<rparr>) s;
                s = (case gi_add_tags i of None \<Rightarrow> s | Some tags \<Rightarrow> assign_tags lower tags [k] s);
                s = (case gi_remove_tags i of None \<Rightarrow> s | Some tags \<Rightarrow> if tags = [] then s else remove_tags lower tags k s);
                card = the (row_of gf_pk k (gd_cards s));
                s = (if gi_balance_amount i = None then s
                     else add_gift_events [gift_card_balance_reset_event now requestor card old] s);
                s = (if expiry = None then s else add_gift_events [gift_card_expiry_date_updated_event now requestor card old] s);
                s = (if gi_add_tags i = None \<and> gi_remove_tags i = None then s
                     else add_gift_events [gift_card_tags_updated_event now requestor card (sort (gf_tags old))] s)
            in Inr s))))"

definition gift_card_activate :: "datetime \<Rightarrow> day \<Rightarrow> gift_requestor \<Rightarrow> nat \<Rightarrow> gift_db \<Rightarrow> gift_error + gift_db" where
  "gift_card_activate now today requestor k s =
     (case row_of gf_pk k (gd_cards s) of
        None \<Rightarrow> Inl GiftNotFound
      | Some g \<Rightarrow> if is_gift_card_expired today g then Inl GiftExpired
          else Inr (let s' = activate_gift_card k s
            in if gf_is_active g then s' else add_gift_events (gift_cards_activated_event now requestor [k]) s'))"

definition gift_card_deactivate :: "datetime \<Rightarrow> gift_requestor \<Rightarrow> nat \<Rightarrow> gift_db \<Rightarrow> gift_error + gift_db" where
  "gift_card_deactivate now requestor k s =
     (case row_of gf_pk k (gd_cards s) of
        None \<Rightarrow> Inl GiftNotFound
      | Some g \<Rightarrow> Inr (let s' = deactivate_gift_card k s
            in if gf_is_active g then add_gift_events (gift_cards_deactivated_event now requestor [k]) s' else s'))"

text \<open>The events of a card are deleted with it.\<close>

definition gift_cards_delete :: "nat list \<Rightarrow> gift_db \<Rightarrow> gift_db" where
  "gift_cards_delete ks s = s\<lparr>gd_cards := filter (\<lambda>g. gf_pk g \<notin> set ks) (gd_cards s),
     gd_events := filter (\<lambda>e. ge_gift_card e \<notin> set ks) (gd_events s)\<rparr>"

definition gift_card_delete :: "nat \<Rightarrow> gift_db \<Rightarrow> gift_error + gift_db" where
  "gift_card_delete k s =
     (if k \<in> gf_pk ` set (gd_cards s) then Inr (gift_cards_delete [k] s) else Inl GiftNotFound)"

definition gift_card_add_note ::
    "(string \<Rightarrow> string) \<Rightarrow> datetime \<Rightarrow> gift_requestor \<Rightarrow> nat \<Rightarrow> string \<Rightarrow> gift_db \<Rightarrow> gift_error + gift_db" where
  "gift_card_add_note strip now requestor k message s =
     (if k \<notin> gf_pk ` set (gd_cards s) then Inl GiftNotFound
      else if strip message = [] then Inl (GiftRequired ''message'')
      else Inr (add_gift_events [gift_card_note_added_event now requestor k (strip message)] s))"

text \<open>The tags of a batch are set to the new cards alone: other cards lose them.\<close>

definition set_tag_cards :: "(string \<Rightarrow> string) \<Rightarrow> string list \<Rightarrow> nat list \<Rightarrow> gift_db \<Rightarrow> gift_db" where
  "set_tag_cards lower tags ks s =
     (let names = remdups (map lower tags)
      in update_gift_cards (\<lambda>_. True) (\<lambda>g. g\<lparr>gf_tags := filter (\<lambda>t. t \<notin> set names) (gf_tags g) @
             (if gf_pk g \<in> set ks then names else [])\<rparr>)
           (s\<lparr>gd_tags := gd_tags s @ filter (\<lambda>t. t \<notin> set (gd_tags s)) names\<rparr>))"

definition gift_card_bulk_create ::
    "(string \<Rightarrow> nat) \<Rightarrow> (string \<Rightarrow> string) \<Rightarrow> string list \<Rightarrow> datetime \<Rightarrow> day \<Rightarrow> gift_requestor \<Rightarrow> int \<Rightarrow> decimal \<times> string
     \<Rightarrow> gift_card_input \<Rightarrow> gift_db \<Rightarrow> gift_error + gift_card_row list \<times> gift_db" where
  "gift_card_bulk_create prec lower random_codes now today requestor count balance i s =
     (if \<not> count > 0 then Inl (GiftInvalid ''count'')
      else bindr (clean_expiry_date today i) (\<lambda>_. bindr (clean_balance prec balance) (\<lambda>_.
        bindr (create_cards random_codes (replicate (nat count) ((blank_gift_card (snd balance) (fst balance))\<lparr>
               gf_is_active := gi_is_active i, gf_created_by := fst requestor,
               gf_created_by_email := (case fst requestor of None \<Rightarrow> None
                 | Some u \<Rightarrow> map_option snd (find (\<lambda>(x, _). x = u) (gd_users s))),
               gf_app := snd requestor, gf_expiry_date := given_expiry_date i\<rparr>)) s) (\<lambda>(cards, s).
          let s = add_gift_events (gift_cards_issued_event now requestor balance cards) s
          in Inr (cards, case gi_add_tags i of None \<Rightarrow> s
            | Some tags \<Rightarrow> if tags = [] then s else set_tag_cards lower tags (map gf_pk cards) s)))))"

text \<open>
  The mutations on several cards: expired ones are reported and left out, the others are activated. \<open>Inl\<close> when a card
  does not exist.
\<close>

definition gift_nodes :: "nat list \<Rightarrow> gift_db \<Rightarrow> gift_error + unit" where
  "gift_nodes ks s = (if set ks \<subseteq> gf_pk ` set (gd_cards s) then Inr () else Inl GiftNotFound)"

definition gift_card_bulk_activate ::
    "datetime \<Rightarrow> day \<Rightarrow> gift_requestor \<Rightarrow> nat list \<Rightarrow> gift_db \<Rightarrow> gift_error + nat list \<times> gift_db" where
  "gift_card_bulk_activate now today requestor ks s =
     bindr (gift_nodes ks s) (\<lambda>_.
       let expired = (\<lambda>k. \<exists>g \<in> set (gd_cards s). gf_pk g = k \<and> is_gift_card_expired today g);
           clean = filter (\<lambda>k. \<not> expired k) ks;
           s' = (if clean = [] then s
             else add_gift_events (gift_cards_activated_event now requestor
                 (map gf_pk (filter (\<lambda>g. gf_pk g \<in> set clean \<and> \<not> gf_is_active g) (gd_cards s))))
               (update_gift_cards (\<lambda>g. gf_pk g \<in> set clean) (\<lambda>g. g\<lparr>gf_is_active := True\<rparr>) s))
       in Inr (filter expired ks, s'))"

definition gift_card_bulk_deactivate ::
    "datetime \<Rightarrow> gift_requestor \<Rightarrow> nat list \<Rightarrow> gift_db \<Rightarrow> gift_error + gift_db" where
  "gift_card_bulk_deactivate now requestor ks s =
     bindr (gift_nodes ks s) (\<lambda>_. Inr (add_gift_events (gift_cards_deactivated_event now requestor
         (map gf_pk (filter (\<lambda>g. gf_pk g \<in> set ks \<and> gf_is_active g) (gd_cards s))))
       (update_gift_cards (\<lambda>g. gf_pk g \<in> set ks) (\<lambda>g. g\<lparr>gf_is_active := False\<rparr>) s)))"

definition gift_card_bulk_delete :: "nat list \<Rightarrow> gift_db \<Rightarrow> gift_error + gift_db" where
  "gift_card_bulk_delete ks s = bindr (gift_nodes ks s) (\<lambda>_. Inr (gift_cards_delete ks s))"

end
