(* ===== verification/TaxLaws.thy ===== *)
theory TaxLaws
  imports Taxes CheckoutDiscounts
begin

section \<open>Laws of taxes\<close>

text \<open>
  What a flat rate does to an amount, how far rounding can move the gross total of a checkout from its total without
  taxes, and that a checkout that is not charged taxes has none.
\<close>

subsection \<open>Flat rates\<close>

text \<open>A flat rate: net and gross differ by the rate, and the one that was entered stays.\<close>

theorem flat_rate_tax_spec:
  assumes "0 \<le> money" "0 \<le> tax_rate"
  shows "\<exists>m. calculate_flat_rate_tax money tax_rate prices_entered_with_tax = Inr m \<and> 0 \<le> tm_net m \<and> tm_net m \<le> tm_gross m
    \<and> tm_gross m = tm_net m * (1 + tax_rate / 100) \<and> (if prices_entered_with_tax then tm_gross m else tm_net m) = money
    \<and> (0 < money \<longrightarrow> calculate_tax_rate m = normalize_tax_rate_for_db tax_rate)"
proof -
  let ?r = "1 + tax_rate / 100"
  have r: "1 \<le> ?r" "?r \<noteq> 0" using assms(2) by (simp_all add: add_nonneg_eq_0_iff)
  define m where "m = (if prices_entered_with_tax then \<lparr>tm_net = money / ?r, tm_gross = money\<rparr>
    else \<lparr>tm_net = money, tm_gross = money * ?r\<rparr>)"
  have eq: "calculate_flat_rate_tax money tax_rate prices_entered_with_tax = Inr m"
    using r by (simp add: calculate_flat_rate_tax_def m_def Let_def)
  have net: "0 \<le> tm_net m" using assms(1) r(1) by (simp add: m_def)
  have gross: "tm_gross m = tm_net m * ?r" using r by (simp add: m_def)
  have "tm_net m * 1 \<le> tm_net m * ?r" by (rule mult_left_mono [OF r(1) net])
  moreover have "calculate_tax_rate m = normalize_tax_rate_for_db tax_rate" if "0 < money"
  proof -
    have "tm_net m \<noteq> 0" using that r by (simp add: m_def)
    then show ?thesis using r gross
      by (simp add: calculate_tax_rate_def normalize_tax_rate_for_db_def diff_divide_distrib)
  qed
  moreover have "(if prices_entered_with_tax then tm_gross m else tm_net m) = money" by (simp add: m_def)
  ultimately show ?thesis using eq net gross by auto
qed

lemma flat_rate_tax_spec_witness:
  "calculate_flat_rate_tax 123 23 True = Inr \<lparr>tm_net = 100, tm_gross = 123\<rparr>
   \<and> calculate_tax_rate \<lparr>tm_net = 100, tm_gross = 123\<rparr> = 23 / 100"
proof -
  have "calculate_flat_rate_tax 123 23 True = Inr \<lparr>tm_net = 100, tm_gross = 123\<rparr>" by code_simp
  with flat_rate_tax_spec [of 123 23 True] show ?thesis by (simp add: normalize_tax_rate_for_db_def)
qed

lemma flat_rate_gross:
  "0 \<le> tax_rate \<Longrightarrow> calculate_flat_rate_tax money tax_rate True = Inr m \<Longrightarrow> tm_gross m = money"
  by (auto simp: calculate_flat_rate_tax_def Let_def split: if_splits)

subsection \<open>Gross totals\<close>

lemma sum_taxed_gross: "tm_gross (sum_taxed ms) = sum_list (map tm_gross ms)"
proof -
  have "tm_gross (foldl add_taxed z ms) = tm_gross z + sum_list (map tm_gross ms)" for z
    by (induction ms arbitrary: z) (simp_all add: add_taxed_def)
  then show ?thesis by (simp add: sum_taxed_def untaxed_def)
qed

lemma sum_list_quantized:
  "\<bar>sum_list (map (\<lambda>l. quantize p (r l)) ls) - sum_list (map r ls)\<bar> \<le> of_nat (length ls) * (1 / 2 / 10 ^ p)"
proof (induction ls)
  case (Cons l ls)
  have "\<bar>(quantize p (r l) + a) - (r l + b)\<bar> \<le> \<bar>quantize p (r l) - r l\<bar> + \<bar>a - b\<bar>" for a b by linarith
  from order_trans [OF this add_mono [OF quantize_near Cons.IH]] show ?case
    by (simp add: distrib_right add_divide_distrib)
qed simp

definition rates_nonneg :: "tax_class_country_rate list \<Rightarrow> bool" where
  "rates_nonneg rs \<longleftrightarrow> list_all (\<lambda>r. 0 \<le> tcr_rate r) rs"

lemma default_rate_nonneg: "rates_nonneg rs \<Longrightarrow> 0 \<le> default_rate rs c"
  by (auto simp: rates_nonneg_def default_rate_def find_Some_iff list_all_length split: option.split)

lemma class_rate_nonneg:
  assumes "rates_nonneg rs" "0 \<le> d"
  shows "0 \<le> get_tax_rate_for_tax_class c rs d country"
proof -
  have "0 \<le> foldl (\<lambda>r cr. if tcr_country cr = country then tcr_rate cr else r) d xs" if "rates_nonneg xs" for xs
    using assms(2) that by (induction xs arbitrary: d) (simp_all add: rates_nonneg_def)
  moreover have "rates_nonneg (filter Q rs)" for Q using assms(1) by (auto simp: rates_nonneg_def list_all_iff)
  ultimately show ?thesis using assms(2) by (auto simp: get_tax_rate_for_tax_class_def split: option.split)
qed

text \<open>The line prices after the discount of the order: what the lines of the checkout add up to.\<close>

lemma discounted_lines_sum:
  assumes totals: "map_results (calculate_base_line_total_price P prec s (ch_currency (cf_checkout info)) (cf_channel info)) lines
      = Inr totals" "list_all (\<lambda>t. 0 \<le> t) totals" "0 < sum_list totals"
    and lines: "distinct (map (ct_pk \<circ> ci_line) lines)"
    and discount: "0 \<le> ch_discount_amount (cf_checkout info)" "ch_discount_amount (cf_checkout info) \<le> sum_list totals"
    and w: "\<And>l. l \<in> set lines \<Longrightarrow>
      calculate_base_line_total_price P prec s (ch_currency (cf_checkout info)) (cf_channel info) l = Inr (w l)"
  shows "\<exists>r. (\<forall>l \<in> set lines. apply_checkout_discount_on_checkout_line P prec s info lines l (w l) = Inr (r l))
     \<and> sum_list (map r lines) = (if discount_not_included info then max 0 (sum_list totals - ch_discount_amount (cf_checkout info))
         else sum_list totals)"
proof -
  let ?A = "\<lambda>l. apply_checkout_discount_on_checkout_line P prec s info lines l (w l)"
  have "map_results (calculate_base_line_total_price P prec s (ch_currency (cf_checkout info)) (cf_channel info)) lines
      = Inr (map w lines)" by (rule map_results_cong) (rule w)
  with totals(1) have ts: "totals = map w lines" by simp
  show ?thesis
  proof (cases "discount_not_included info")
    case False
    then have "?A l = Inr (w l)" for l
      by (cases "cf_voucher info") (auto simp: discount_not_included_def apply_checkout_discount_on_checkout_line_def
        intro: voucher_type.exhaust)
    then show ?thesis using False ts by (intro exI [of _ w]) simp
  next
    case True
    then obtain v where v: "cf_voucher info = Some v" "vo_type v = VoucherType_ENTIRE_ORDER" "\<not> vo_apply_once_per_order v"
      by (auto simp: discount_not_included_def split: option.splits)
    show ?thesis
    proof (cases "length lines = 1")
      case one: True
      then obtain l where l: "lines = [l]" by (auto simp: length_Suc_conv)
      have "?A l = Inr (max (w l - ch_discount_amount (cf_checkout info)) 0)"
        using v one by (simp add: apply_checkout_discount_on_checkout_line_def)
      then show ?thesis using True l ts
        by (intro exI [of _ "\<lambda>l. max (w l - ch_discount_amount (cf_checkout info)) 0"]) (simp add: max.commute)
    next
      case many: False
      from order_discount_divided_lines [OF v many lines totals discount] obtain parts
        where p: "map_results (\<lambda>(l, t). apply_checkout_discount_on_checkout_line P prec s info lines l t) (zip lines totals) = Inr parts"
          and sum: "sum_list parts = sum_list totals - ch_discount_amount (cf_checkout info)" by blast
      have z: "zip lines totals = map (\<lambda>l. (l, w l)) lines" unfolding ts by (induction lines) simp_all
      from p have "map_results ?A lines = Inr parts" unfolding z map_results_map by (simp add: comp_def)
      from map_results_weights [OF this] obtain r where "\<forall>l \<in> set lines. ?A l = Inr (r l)" "parts = map r lines" by blast
      with sum True discount(2) show ?thesis by (intro exI [of _ r]) simp
    qed
  qed
qed

text \<open>
  C17: with prices entered with tax and rates that are not negative, when the line totals are
  not negative, not all zero, and the stored discount lies between zero and their sum: the gross
  total of a checkout differs from its total without taxes, voucher and discount of the order
  included, by at most half a unit of the currency for each line
\<close>

theorem checkout_gross_near_total:
  assumes rates: "rates_nonneg country_rates"
    and update: "update_checkout_prices_with_flat_rates P prec s country_rates tax_class_of shipping_tax_class country info lines True
      = Inr x"
    and total: "checkout_total P prec s info lines = Inr t"
    and totals: "map_results (calculate_base_line_total_price P prec s (ch_currency (cf_checkout info)) (cf_channel info)) lines
      = Inr totals" "list_all (\<lambda>t. 0 \<le> t) totals" "0 < sum_list totals"
    and lines: "distinct (map (ct_pk \<circ> ci_line) lines)"
    and discount: "0 \<le> ch_discount_amount (cf_checkout info)" "ch_discount_amount (cf_checkout info) \<le> sum_list totals"
  shows "\<bar>tm_gross (cx_total x) - t\<bar> \<le> of_nat (length lines) * (1 / 2 / 10 ^ prec (ch_currency (cf_checkout info)))"
proof -
  let ?cur = "ch_currency (cf_checkout info)" and ?D = "ch_discount_amount (cf_checkout info)"
  let ?p = "prec ?cur" and ?delivery = "base_checkout_delivery_price prec info lines"
  define rate where "rate c = get_tax_rate_for_tax_class c country_rates (default_rate country_rates country) country" for c
  have r0: "0 \<le> rate c" for c unfolding rate_def by (intro class_rate_nonneg default_rate_nonneg rates)
  from map_results_weights [OF totals(1)] obtain w where
    w: "\<And>l. l \<in> set lines \<Longrightarrow> calculate_base_line_total_price P prec s ?cur (cf_channel info) l = Inr (w l)" by blast
  from discounted_lines_sum [OF totals lines discount w] obtain r where
    r: "\<And>l. l \<in> set lines \<Longrightarrow> apply_checkout_discount_on_checkout_line P prec s info lines l (w l) = Inr (r l)"
    and sum: "sum_list (map r lines) = (if discount_not_included info then max 0 (sum_list totals - ?D) else sum_list totals)"
    by blast
  from update obtain ls sh where
    ls: "map_results (\<lambda>l. bindr (calculate_checkout_line_total P prec s info lines (rate (tax_class_of l)) True l)
        (\<lambda>m. Inr (m, normalize_tax_rate_for_db (rate (tax_class_of l))))) lines = Inr ls"
    and sh: "calculate_checkout_shipping prec info lines (rate shipping_tax_class) True = Inr sh"
    and x: "cx_total x = add_taxed (sum_taxed (map fst ls)) sh"
    by (auto simp: update_checkout_prices_with_flat_rates_def Let_def bindr_eq_Inr rate_def [symmetric])
  from map_results_weights [OF ls] obtain y where
    y: "\<And>l. l \<in> set lines \<Longrightarrow> bindr (calculate_checkout_line_total P prec s info lines (rate (tax_class_of l)) True l)
        (\<lambda>m. Inr (m, normalize_tax_rate_for_db (rate (tax_class_of l)))) = Inr (y l)" and ys: "ls = map y lines" by blast
  have "tm_gross (fst (y l)) = quantize ?p (r l)" if l: "l \<in> set lines" for l
    using y [OF l] w [OF l] r [OF l]
    by (cases "y l") (auto simp: calculate_checkout_line_total_def bindr_eq_Inr quantize_taxed_def map_taxed_def quantize_price_def
        dest!: flat_rate_gross [OF r0])
  then have "tm_gross (sum_taxed (map fst ls)) = sum_list (map (\<lambda>l. quantize ?p (r l)) lines)"
    unfolding sum_taxed_gross ys map_map by (intro arg_cong [where f = sum_list] map_cong) simp_all
  moreover have "tm_gross sh = ?delivery"
    using sh by (auto simp: calculate_checkout_shipping_def bindr_eq_Inr quantize_taxed_def map_taxed_def
        base_checkout_delivery_price_def quantize_price_def Let_def dest!: flat_rate_gross [OF r0])
  moreover have "t = sum_list (map r lines) + ?delivery"
    using total totals(1) sum by (simp add: checkout_total_def base_checkout_subtotal_def Let_def)
  ultimately have "tm_gross (cx_total x) - t = sum_list (map (\<lambda>l. quantize ?p (r l)) lines) - sum_list (map r lines)"
    by (simp add: x add_taxed_def)
  then show ?thesis using sum_list_quantized [of ?p r lines] by simp
qed

subsection \<open>Checkouts that are not charged taxes\<close>

definition no_tax :: "checkout_prices \<Rightarrow> bool" where
  "no_tax x \<longleftrightarrow> list_all (\<lambda>(m, r). tm_gross m = tm_net m \<and> r = 0) (cx_lines x)
     \<and> tm_gross (cx_shipping_price x) = tm_net (cx_shipping_price x) \<and> cx_shipping_tax_rate x = 0
     \<and> tm_gross (cx_subtotal x) = tm_net (cx_subtotal x) \<and> tm_gross (cx_total x) = tm_net (cx_total x)"

lemma remove_checkout_tax_no_tax: "no_tax (remove_checkout_tax x)"
  by (auto simp: no_tax_def remove_checkout_tax_def untaxed_def list_all_iff)

lemma base_prices_no_tax: "get_checkout_base_prices P prec s info lines = Inr x \<Longrightarrow> no_tax x"
  by (auto simp: no_tax_def get_checkout_base_prices_def untaxed_def quantize_taxed_def map_taxed_def Let_def bindr_eq_Inr
      list_all_iff)

text \<open>A checkout that is refreshed and not charged taxes shows none.\<close>

theorem exempt_checkout_untaxed:
  assumes "fetch_checkout_prices_if_expired P prec s w pk now ttl info address exempt force r = Inr r'"
    and "force \<or> rc_price_expiration r \<le> now"
    and "exempt \<or> \<not> get_charge_taxes (tw_configuration w) (country_tax_configuration (tw_configuration w)
        (get_active_country (tw_default_country w) (cf_shipping_country info) (cf_billing_country info) None))"
  shows "no_tax (rc_prices r') \<and> rc_price_expiration r' = now + ttl"
proof -
  have "\<not> (\<not> force \<and> rc_price_expiration r > now)" using assms(2) by auto
  then show ?thesis using assms(1,3)
    unfolding fetch_checkout_prices_if_expired_def Let_def
    by (auto simp: bindr_eq_Inr remove_checkout_tax_no_tax base_prices_no_tax split: prod.splits if_splits)
      (metis remove_checkout_tax_no_tax)+
qed

subsection \<open>Prices add up\<close>

text \<open>
  The amounts that flat rates store are in the smallest unit of the currency, and the total is the subtotal and the
  shipping price. Refreshing again at once changes nothing.
\<close>

definition in_units :: "nat \<Rightarrow> decimal \<Rightarrow> bool" where
  "in_units p a \<longleftrightarrow> quantize p a = a"

lemma in_units_quantize [simp]: "in_units p (quantize p a)"
  by (simp add: in_units_def)

lemma in_units_zero [simp]: "in_units p 0"
  by (simp add: in_units_def)

lemma in_units_iff: "in_units p a \<longleftrightarrow> (\<exists>n. a * 10 ^ p = of_int n)"
  unfolding in_units_def
proof
  assume "quantize p a = a"
  then have "a = of_int (round_half_even (a * 10 ^ p)) / 10 ^ p" by (simp add: quantize_def)
  then show "\<exists>n. a * 10 ^ p = of_int n" by (metis nonzero_eq_divide_eq power_not_zero zero_neq_numeral)
qed (auto intro: quantize_exact)

lemma in_units_add: "in_units p a \<Longrightarrow> in_units p b \<Longrightarrow> in_units p (a + b)"
  by (auto simp: in_units_iff distrib_right) (metis of_int_add)

lemma in_units_sum_list: "list_all (in_units p) as \<Longrightarrow> in_units p (sum_list as)"
  by (induction as) (auto intro: in_units_add)

definition prices_add_up :: "nat \<Rightarrow> checkout_prices \<Rightarrow> bool" where
  "prices_add_up p x \<longleftrightarrow> in_units p (tm_gross (cx_subtotal x)) \<and> in_units p (tm_net (cx_subtotal x))
     \<and> in_units p (tm_gross (cx_shipping_price x)) \<and> in_units p (tm_net (cx_shipping_price x))
     \<and> cx_total x = add_taxed (cx_subtotal x) (cx_shipping_price x)"

lemma remove_checkout_tax_adds_up: "prices_add_up p x \<Longrightarrow> prices_add_up p (remove_checkout_tax x)"
  by (simp add: prices_add_up_def remove_checkout_tax_def untaxed_def add_taxed_def)

lemma sum_taxed_net: "tm_net (sum_taxed ms) = sum_list (map tm_net ms)"
proof -
  have "tm_net (foldl add_taxed a ms) = tm_net a + sum_list (map tm_net ms)" for a
    by (induction ms arbitrary: a) (simp_all add: add_taxed_def)
  then show ?thesis by (simp add: sum_taxed_def untaxed_def)
qed

lemma flat_rates_add_up:
  assumes "update_checkout_prices_with_flat_rates P prec s country_rates tax_class_of shipping_tax_class country info lines
      with_tax = Inr x"
  shows "prices_add_up (prec (ch_currency (cf_checkout info))) x"
proof -
  let ?p = "prec (ch_currency (cf_checkout info))"
  define rate where "rate c = get_tax_rate_for_tax_class c country_rates (default_rate country_rates country) country" for c
  from assms obtain ls sh where
    ls: "map_results (\<lambda>l. bindr (calculate_checkout_line_total P prec s info lines (rate (tax_class_of l)) with_tax l)
        (\<lambda>m. Inr (m, normalize_tax_rate_for_db (rate (tax_class_of l))))) lines = Inr ls"
    and sh: "calculate_checkout_shipping prec info lines (rate shipping_tax_class) with_tax = Inr sh"
    and x: "cx_total x = add_taxed (cx_subtotal x) (cx_shipping_price x)" "cx_shipping_price x = sh"
      "cx_subtotal x = sum_taxed (map fst ls)"
    by (auto simp: update_checkout_prices_with_flat_rates_def Let_def bindr_eq_Inr rate_def [symmetric])
  from map_results_weights [OF ls] obtain y where
    y: "\<And>l. l \<in> set lines \<Longrightarrow> bindr (calculate_checkout_line_total P prec s info lines (rate (tax_class_of l)) with_tax l)
        (\<lambda>m. Inr (m, normalize_tax_rate_for_db (rate (tax_class_of l)))) = Inr (y l)" and ys: "ls = map y lines" by blast
  have "in_units ?p (tm_gross (fst (y l))) \<and> in_units ?p (tm_net (fst (y l)))" if "l \<in> set lines" for l
    using y [OF that] by (cases "y l") (auto simp: calculate_checkout_line_total_def bindr_eq_Inr quantize_taxed_def
        map_taxed_def quantize_price_def Let_def)
  then have "in_units ?p (tm_gross (cx_subtotal x))" "in_units ?p (tm_net (cx_subtotal x))"
    unfolding x(3) sum_taxed_gross sum_taxed_net ys by (auto intro!: in_units_sum_list simp: list_all_iff)
  moreover have "in_units ?p (tm_gross sh)" "in_units ?p (tm_net sh)"
    using sh by (auto simp: calculate_checkout_shipping_def bindr_eq_Inr quantize_taxed_def map_taxed_def quantize_price_def Let_def)
  ultimately show ?thesis by (simp add: prices_add_up_def x(1,2))
qed

lemma base_prices_add_up:
  assumes "get_checkout_base_prices P prec s info lines = Inr x"
  shows "prices_add_up (prec (ch_currency (cf_checkout info))) x"
proof -
  let ?p = "prec (ch_currency (cf_checkout info))" and ?d = "base_checkout_delivery_price prec info lines"
  from assms obtain totals where totals: "map_results (\<lambda>l. bindr (calculate_base_line_unit_price P prec s
        (ch_currency (cf_checkout info)) (cf_channel info) l) (\<lambda>unit_price.
      bindr (apply_checkout_discount_on_checkout_line P prec s info lines l (unit_price * of_int (ct_quantity (ci_line l))))
        (\<lambda>total_price. Inr (quantize_price prec total_price (ch_currency (cf_checkout info)))))) lines = Inr totals"
    and x: "cx_subtotal x = untaxed (sum_list totals)" "cx_shipping_price x = untaxed (quantize ?p ?d)"
      "cx_total x = untaxed (quantize ?p (sum_list totals + ?d))"
    by (auto simp: get_checkout_base_prices_def Let_def bindr_eq_Inr quantize_taxed_def map_taxed_def untaxed_def quantize_price_def)
  from map_results_weights [OF totals] have "list_all (in_units ?p) totals"
    by (auto simp: list_all_iff bindr_eq_Inr quantize_price_def Let_def) (metis in_units_quantize sum.inject(2))
  then have S: "in_units ?p (sum_list totals)" by (rule in_units_sum_list)
  have d: "in_units ?p ?d" by (simp add: base_checkout_delivery_price_def quantize_price_def Let_def)
  from in_units_add [OF S d] S d show ?thesis
    by (simp add: prices_add_up_def x untaxed_def add_taxed_def in_units_def)
qed

lemma fetched_prices_add_up:
  assumes fetch: "fetch_checkout_prices_if_expired P prec s w pk now ttl info address exempt force r = Inr r'"
    and flat: "get_tax_calculation_strategy (tw_configuration w) (country_tax_configuration (tw_configuration w)
        (get_active_country (tw_default_country w) (cf_shipping_country info) (cf_billing_country info) None))
      \<noteq> TaxCalculationStrategy_TAX_APP"
    and stored: "now < rc_price_expiration r \<longrightarrow> prices_add_up (prec (ch_currency (cf_checkout info))) (rc_prices r)"
  shows "prices_add_up (prec (ch_currency (cf_checkout info))) (rc_prices r')"
  using fetch stored flat remove_checkout_tax_adds_up flat_rates_add_up base_prices_add_up
  unfolding fetch_checkout_prices_if_expired_def calculate_and_add_checkout_tax_def Let_def
  by (auto simp: bindr_eq_Inr split: prod.splits if_splits)

lemma fetched_once:
  assumes "fetch_checkout_prices_if_expired P prec s w pk now ttl info address exempt False r = Inr r'" "0 < ttl"
  shows "fetch_checkout_prices_if_expired P prec s w pk now ttl info address exempt False r' = Inr r'"
proof -
  have "now < rc_price_expiration r'"
    using assms unfolding fetch_checkout_prices_if_expired_def Let_def
    by (auto simp: bindr_eq_Inr split: prod.splits if_splits)
  then show ?thesis by (simp add: fetch_checkout_prices_if_expired_def)
qed

subsection \<open>Examples\<close>

definition polish_rates :: "tax_class_country_rate list" where
  "polish_rates = [\<lparr>tcr_tax_class = None, tcr_country = ''PL'', tcr_rate = 23\<rparr>,
     \<lparr>tcr_tax_class = Some 5, tcr_country = ''PL'', tcr_rate = 8\<rparr>]"

definition polish_taxes :: tax_world where
  "polish_taxes = \<lparr>tw_country_rates = polish_rates, tw_tax_class_of = (\<lambda>_. None), tw_shipping_tax_class = Some 5,
     tw_configuration = \<lparr>tcf_charge_taxes = False, tcf_tax_calculation_strategy = None, tcf_display_gross_prices = True,
       tcf_prices_entered_with_tax = True, tcf_country_exceptions = []\<rparr>,
     tw_default_country = ''PL'', tw_plugin_prices = (\<lambda>_. undefined), tw_app_data = (\<lambda>_. None)\<rparr>"

definition winter_prices :: refreshed_checkout where
  "winter_prices = \<lparr>rc_prices = \<lparr>cx_lines = [], cx_shipping_price = untaxed 0, cx_shipping_tax_rate = 0, cx_subtotal = untaxed 0,
       cx_total = untaxed 0\<rparr>,
     rc_lines = [coat_line None, scarf_line], rc_discounts = [], rc_price_expiration = 0\<rparr>"

lemma checkout_gross_near_total_witness:
  "\<exists>x. update_checkout_prices_with_flat_rates plain_prices zl voucher_shop polish_rates (\<lambda>_. None) (Some 5) ''PL'' winter_info
      [coat_line None, scarf_line] True = Inr x \<and> \<bar>tm_gross (cx_total x) - 48\<bar> \<le> 1 / 100"
proof -
  let ?run = "update_checkout_prices_with_flat_rates plain_prices zl voucher_shop polish_rates (\<lambda>_. None) (Some 5) ''PL'' winter_info
      [coat_line None, scarf_line] True"
  have "case ?run of Inl _ \<Rightarrow> False | Inr _ \<Rightarrow> True" by code_simp
  then obtain x where x: "?run = Inr x" by (auto split: sum.splits)
  have t: "checkout_total plain_prices zl voucher_shop winter_info [coat_line None, scarf_line] = Inr 48" by code_simp
  have totals: "map_results (calculate_base_line_total_price plain_prices zl voucher_shop (ch_currency (cf_checkout winter_info))
      (cf_channel winter_info)) [coat_line None, scarf_line] = Inr [24, 16]" by code_simp
  have zl: "zl (ch_currency (cf_checkout winter_info)) = 2" by code_simp
  from checkout_gross_near_total [OF _ x t totals] x zl show ?thesis
    by (auto simp: rates_nonneg_def polish_rates_def checkout_shop_defs)
qed

lemma exempt_checkout_untaxed_witness:
  "\<exists>r. fetch_checkout_prices_if_expired plain_prices zl voucher_shop polish_taxes 9 100 3600 winter_info (Some ''PL'') False False
      winter_prices = Inr r \<and> no_tax (rc_prices r) \<and> rc_price_expiration r = 3700"
proof -
  let ?run = "fetch_checkout_prices_if_expired plain_prices zl voucher_shop polish_taxes 9 100 3600 winter_info (Some ''PL'') False
    False winter_prices"
  have "case ?run of Inl _ \<Rightarrow> False | Inr _ \<Rightarrow> True" by code_simp
  then obtain r where r: "?run = Inr r" by (auto split: sum.splits)
  from exempt_checkout_untaxed [OF r] r show ?thesis
    by (auto simp: winter_prices_def polish_taxes_def country_tax_configuration_def get_charge_taxes_def)
qed

end
