(* ===== verification/GiftCardLaws.thy ===== *)
theory GiftCardLaws
  imports GiftCardOps TaxLaws
begin

section \<open>Laws of gift cards\<close>

text \<open>
  Keys and codes of cards are never shared and a balance stays between zero and what the card was issued with, whatever
  operations run; what the cards of a checkout pay is what its total was lowered by, unless it has a discount; the periodic job leaves no card
  active after its last day. The steps take amounts of the API that are not negative (its scalar type refuses others)
  and prices of lines that are not negative.
\<close>

subsection \<open>Well-formed cards\<close>

definition card_ok :: "gift_card_row \<Rightarrow> bool" where
  "card_ok g \<longleftrightarrow> 0 \<le> gf_current_balance_amount g \<and> gf_current_balance_amount g \<le> gf_initial_balance_amount g"

definition cards_ok :: "gift_card_row list \<Rightarrow> bool" where
  "cards_ok gs \<longleftrightarrow> distinct (map gf_pk gs) \<and> distinct (map gf_code gs) \<and> list_all card_ok gs"

lemma save_gift_card_eq: "save_gift_card k f = update_gift_cards (\<lambda>g. gf_pk g = k) f"
  by (intro ext) (simp add: save_gift_card_def update_gift_cards_def save_row_def)

lemma add_gift_events_cards [simp]: "gd_cards (add_gift_events evs s) = gd_cards s"
  by (simp add: add_gift_events_def)

lemma if_add_gift_events_cards [simp]: "gd_cards (if c then s else add_gift_events evs s) = gd_cards s"
  by simp

lemma update_gift_cards_ok:
  assumes "cards_ok (gd_cards s)"
    and "\<And>g. g \<in> set (gd_cards s) \<Longrightarrow> Q g \<Longrightarrow> gf_pk (f g) = gf_pk g \<and> gf_code (f g) = gf_code g \<and> (card_ok g \<longrightarrow> card_ok (f g))"
  shows "cards_ok (gd_cards (update_gift_cards Q f s))"
proof -
  let ?h = "\<lambda>g. if Q g then f g else g"
  have pk: "map gf_pk (map ?h (gd_cards s)) = map gf_pk (gd_cards s)"
    and code: "map gf_code (map ?h (gd_cards s)) = map gf_code (gd_cards s)"
    using assms(2) by simp_all
  have "list_all card_ok (map ?h (gd_cards s))"
    using assms by (auto simp: cards_ok_def list_all_iff)
  with assms(1) pk code show ?thesis by (simp add: cards_ok_def update_gift_cards_def del: map_map)
qed

lemmas gift_row_ops = save_gift_card_eq deactivate_gift_card_def activate_gift_card_def

lemma assign_tags_ok: "cards_ok (gd_cards s) \<Longrightarrow> cards_ok (gd_cards (assign_tags lower tags ks s))"
  unfolding assign_tags_def Let_def by (rule update_gift_cards_ok) (simp_all add: card_ok_def)

lemma set_tag_cards_ok: "cards_ok (gd_cards s) \<Longrightarrow> cards_ok (gd_cards (set_tag_cards lower tags ks s))"
  unfolding set_tag_cards_def Let_def by (rule update_gift_cards_ok) (simp_all add: card_ok_def)

lemma save_gift_card_ok:
  assumes "cards_ok (gd_cards s)"
    and "\<And>g. gf_pk (f g) = gf_pk g \<and> gf_code (f g) = gf_code g \<and> (card_ok g \<longrightarrow> card_ok (f g))"
  shows "cards_ok (gd_cards (save_gift_card k f s))"
  unfolding save_gift_card_eq using assms by (intro update_gift_cards_ok) auto

lemma remove_tags_ok: "cards_ok (gd_cards s) \<Longrightarrow> cards_ok (gd_cards (remove_tags lower tags k s))"
  using save_gift_card_ok [of s "\<lambda>g. g\<lparr>gf_tags := filter (\<lambda>t. t \<notin> set (map lower tags)) (gf_tags g)\<rparr>" k]
  by (simp add: remove_tags_def Let_def card_ok_def)

lemma cards_ok_append:
  assumes "cards_ok gs" "cards_ok cs" "gf_pk ` set gs \<inter> gf_pk ` set cs = {}" "gf_code ` set gs \<inter> gf_code ` set cs = {}"
  shows "cards_ok (gs @ cs)"
  using assms by (simp add: cards_ok_def)


lemma next_gift_card_pk_fresh: "g \<in> set (gd_cards s) \<Longrightarrow> gf_pk g < next_gift_card_pk s"
  unfolding next_gift_card_pk_def using member_le_sum_list [of "gf_pk g" "map gf_pk (gd_cards s)"] by simp

lemma card_ok_fields [simp]:
  "card_ok (g\<lparr>gf_code := c\<rparr>) = card_ok g" "card_ok (g\<lparr>gf_pk := k\<rparr>) = card_ok g"
  by (simp_all add: card_ok_def)

lemma draw_codes_available:
  "draw_codes random_codes s n = Some codes \<Longrightarrow> length codes = n \<and> list_all (is_available_promo_code s) codes"
  by (induction random_codes s n arbitrary: codes rule: draw_codes.induct) (auto split: if_splits)

lemma create_cards_ok:
  assumes "cards_ok (gd_cards s)" "list_all card_ok gs" "create_cards random_codes gs s = Inr (cards, s')"
  shows "cards_ok (gd_cards s')"
proof -
  from assms(3) obtain codes where d: "draw_codes random_codes (promo_view s) (length gs) = Some codes" "distinct codes"
    and cs: "cards = map (\<lambda>(g, code, n). g\<lparr>gf_code := code, gf_pk := n\<rparr>)
      (zip gs (zip codes [next_gift_card_pk s..<next_gift_card_pk s + length gs]))"
    and s': "gd_cards s' = gd_cards s @ cards"
    by (auto simp: create_cards_def Let_def split: option.splits if_splits)
  from draw_codes_available [OF d(1)] have len: "length codes = length gs" and av: "list_all (is_available_promo_code (promo_view s)) codes"
    by simp_all
  have pk: "map gf_pk cards = [next_gift_card_pk s..<next_gift_card_pk s + length gs]"
    unfolding cs by (rule nth_equalityI) (simp_all add: len)
  have code: "map gf_code cards = codes"
    unfolding cs by (rule nth_equalityI) (simp_all add: len)
  have "list_all card_ok cards"
    using assms(2) unfolding cs by (auto simp: list_all_length len)
  then have "cards_ok cards" unfolding cards_ok_def pk code using d(2) by simp
  moreover have "gf_pk ` set (gd_cards s) \<inter> gf_pk ` set cards = {}"
  proof -
    have "gf_pk ` set cards = {next_gift_card_pk s..<next_gift_card_pk s + length gs}"
      unfolding set_map [symmetric] pk by simp
    then show ?thesis using next_gift_card_pk_fresh [of _ s] by force
  qed
  moreover have "gf_code ` set (gd_cards s) \<inter> gf_code ` set cards = {}"
  proof -
    have "gf_code ` set cards = set codes" using code by (simp flip: set_map)
    with av show ?thesis
      by (auto simp: is_available_promo_code_def promo_code_is_gift_card_def promo_view_def list_all_iff)
  qed
  ultimately show ?thesis unfolding s' by (intro cards_ok_append assms(1))
qed

subsection \<open>Every operation\<close>

lemma blank_gift_card_ok: "0 \<le> balance \<Longrightarrow> card_ok (blank_gift_card currency balance)"
  by (simp add: card_ok_def blank_gift_card_def)

lemma gift_cards_create_ok:
  assumes "cards_ok (gd_cards s)" "list_all (\<lambda>l. 0 \<le> gl_unit_price_gross l) lines"
    and "gift_cards_create now expiry_date requestor random_codes order customer_user email lines s = Inr (cards, s')"
  shows "cards_ok (gd_cards s')"
  using assms unfolding gift_cards_create_def
  by (auto simp: bindr_eq_Inr list_all_iff card_ok_def blank_gift_card_def elim!: create_cards_ok [rotated 2])

lemma clean_balance_pos: "clean_balance prec b = Inr u \<Longrightarrow> 0 < fst b"
  by (auto simp: clean_balance_def split: if_splits)

lemma gift_card_bulk_create_ok:
  assumes "cards_ok (gd_cards s)"
    and "gift_card_bulk_create prec lower random_codes now today requestor count balance i s = Inr (cards, s')"
  shows "cards_ok (gd_cards s')"
proof -
  from assms(2) obtain u s1 where pos: "clean_balance prec balance = Inr u"
    and c: "create_cards random_codes (replicate (nat count) ((blank_gift_card (snd balance) (fst balance))\<lparr>
               gf_is_active := gi_is_active i, gf_created_by := fst requestor,
               gf_created_by_email := (case fst requestor of None \<Rightarrow> None
                 | Some u \<Rightarrow> map_option snd (find (\<lambda>(x, _). x = u) (gd_users s))),
               gf_app := snd requestor, gf_expiry_date := given_expiry_date i\<rparr>)) s = Inr (cards, s1)"
    and s': "s' = (let s = add_gift_events (gift_cards_issued_event now requestor balance cards) s1
          in case gi_add_tags i of None \<Rightarrow> s | Some tags \<Rightarrow> if tags = [] then s else set_tag_cards lower tags (map gf_pk cards) s)"
    by (auto simp: gift_card_bulk_create_def bindr_eq_Inr Let_def split: if_splits)
  have "cards_ok (gd_cards s1)"
    by (rule create_cards_ok [OF assms(1) _ c]) (use clean_balance_pos [OF pos] in \<open>simp add: list_all_iff card_ok_def blank_gift_card_def\<close>)
  then show ?thesis unfolding s' Let_def by (auto intro: set_tag_cards_ok split: option.splits)
qed

lemma gift_card_create_ok:
  assumes ok: "cards_ok (gd_cards s)"
    and "gift_card_create prec valid_email lower random_codes now today requestor i s = Inr (row, s')"
  shows "cards_ok (gd_cards s')"
proof -
  from assms(2) obtain code b u where acc: "code_accepted s code" and pos: "clean_balance prec b = Inr u"
    and s': "gd_cards s' = gd_cards (case gi_add_tags i of None \<Rightarrow> s\<lparr>gd_cards := gd_cards s @ [row]\<rparr>
       | Some tags \<Rightarrow> assign_tags lower tags [next_gift_card_pk s] (s\<lparr>gd_cards := gd_cards s @ [row]\<rparr>))"
    and row: "row = (blank_gift_card (snd b) (fst b))\<lparr>gf_pk := next_gift_card_pk s, gf_code := code,
                   gf_is_active := gi_is_active i, gf_created_by := fst requestor,
                   gf_created_by_email := (case fst requestor of None \<Rightarrow> None
                     | Some u \<Rightarrow> map_option snd (find (\<lambda>(x, _). x = u) (gd_users s))),
                   gf_app := snd requestor, gf_expiry_date := given_expiry_date i\<rparr>"
    by (auto simp: gift_card_create_def bindr_eq_Inr Let_def split: if_splits option.splits)
  have "cards_ok (gd_cards s @ [row])"
  proof (rule cards_ok_append [OF ok])
    show "cards_ok [row]" using clean_balance_pos [OF pos]
      unfolding row by (simp add: cards_ok_def card_ok_def blank_gift_card_def)
    show "gf_pk ` set (gd_cards s) \<inter> gf_pk ` set [row] = {}"
      using next_gift_card_pk_fresh [of _ s] unfolding row by fastforce
    show "gf_code ` set (gd_cards s) \<inter> gf_code ` set [row] = {}"
      using acc unfolding row by (auto simp: code_accepted_def)
  qed
  then show ?thesis unfolding s' by (auto intro: assign_tags_ok split: option.splits)
qed

lemma gift_card_update_ok:
  assumes ok: "cards_ok (gd_cards s)" and amount: "\<And>a. gi_balance_amount i = Some a \<Longrightarrow> 0 \<le> a"
    and "gift_card_update prec lower now today requestor k i s = Inr s'"
  shows "cards_ok (gd_cards s')"
proof -
  define s1 where "s1 = save_gift_card k (\<lambda>g. case gi_balance_amount i of None \<Rightarrow> g
     | Some a \<Rightarrow> g\<lparr>gf_initial_balance_amount := a, gf_current_balance_amount := a\<rparr>) s"
  have s1: "cards_ok (gd_cards s1)" unfolding s1_def
    by (rule save_gift_card_ok [OF ok]) (auto simp: card_ok_def amount split: option.split)
  have s2: "cards_ok (gd_cards (save_gift_card k (\<lambda>g. case e of None \<Rightarrow> g | Some d \<Rightarrow> g\<lparr>gf_expiry_date := d\<rparr>) s1))" for e
    by (rule save_gift_card_ok [OF s1]) (auto simp: card_ok_def split: option.split)
  have s3: "cards_ok (gd_cards (case gi_add_tags i of None \<Rightarrow> t | Some tags \<Rightarrow> assign_tags lower tags [k] t))"
    if "cards_ok (gd_cards t)" for t using that by (auto intro: assign_tags_ok split: option.split)
  have s4: "cards_ok (gd_cards (case gi_remove_tags i of None \<Rightarrow> t | Some tags \<Rightarrow> if tags = [] then t else remove_tags lower tags k t))"
    if "cards_ok (gd_cards t)" for t using that by (auto intro: remove_tags_ok split: option.split)
  obtain old where old: "row_of gf_pk k (gd_cards s) = Some old"
    using assms(3) by (cases "row_of gf_pk k (gd_cards s)") (simp_all add: gift_card_update_def)
  obtain e where "gd_cards s' = gd_cards (case gi_remove_tags i of None \<Rightarrow> add i (S e)
     | Some tags \<Rightarrow> if tags = [] then add i (S e) else remove_tags lower tags k (add i (S e)))"
    if "add = (\<lambda>i t. case gi_add_tags i of None \<Rightarrow> t | Some tags \<Rightarrow> assign_tags lower tags [k] t)"
      and "S = (\<lambda>e. save_gift_card k (\<lambda>g. case e of None \<Rightarrow> g | Some d \<Rightarrow> g\<lparr>gf_expiry_date := d\<rparr>) s1)" for add S
    using assms(3) old by (auto simp: gift_card_update_def bindr_eq_Inr Let_def s1_def)
  then show ?thesis using s4 [OF s3 [OF s2]] by simp
qed

lemma gift_card_bulk_activate_ok:
  assumes "cards_ok (gd_cards s)" "gift_card_bulk_activate now today requestor ks s = Inr (failed, s')"
  shows "cards_ok (gd_cards s')"
  using assms unfolding gift_card_bulk_activate_def
  by (auto simp: bindr_eq_Inr Let_def card_ok_def intro!: update_gift_cards_ok split: if_splits)

subsection \<open>Using cards\<close>

definition keeps_money :: "(gift_card_row \<Rightarrow> gift_card_row) \<Rightarrow> bool" where
  "keeps_money mark \<longleftrightarrow> (\<forall>g. gf_pk (mark g) = gf_pk g \<and> gf_code (mark g) = gf_code g
     \<and> gf_current_balance_amount (mark g) = gf_current_balance_amount g
     \<and> gf_initial_balance_amount (mark g) = gf_initial_balance_amount g)"

lemma keeps_moneyD:
  assumes "keeps_money mark"
  shows "gf_pk (mark g) = gf_pk g" "gf_code (mark g) = gf_code g"
    "gf_current_balance_amount (mark g) = gf_current_balance_amount g"
    "gf_initial_balance_amount (mark g) = gf_initial_balance_amount g"
  using assms by (simp_all add: keeps_money_def)

lemma set_gift_card_user_money: "keeps_money (\<lambda>g. (set_gift_card_user u e s g)\<lparr>gf_last_used_on := now\<rparr>)"
  by (simp add: keeps_money_def set_gift_card_user_def)

definition written :: "gift_card_row list \<Rightarrow> gift_card_row \<Rightarrow> gift_card_row" where
  "written us g = (case row_of gf_pk (gf_pk g) us of None \<Rightarrow> g | Some u \<Rightarrow> u)"

lemma use_gift_cards_members:
  assumes m: "keeps_money mark"
  shows "u \<in> fst ` set (fst (use_gift_cards mark t gs)) \<Longrightarrow>
    \<exists>g \<in> set gs. gf_pk u = gf_pk g \<and> gf_code u = gf_code g \<and> (card_ok g \<longrightarrow> card_ok u)"
proof (induction gs arbitrary: t)
  case (Cons g gs)
  show ?case
  proof (cases "t > 0")
    case True
    obtain used rest where ub: "update_gift_card_balance g t = (used, rest)" by fastforce
    then have head: "gf_pk used = gf_pk g \<and> gf_code used = gf_code g \<and> (card_ok g \<longrightarrow> card_ok used)"
      using True by (auto simp: update_gift_card_balance_def card_ok_def split: if_splits)
    from Cons.prems ub True consider "u = mark used" | "u \<in> fst ` set (fst (use_gift_cards mark rest gs))"
      by (auto split: prod.splits)
    then show ?thesis
    proof cases
      case 1
      have "card_ok (mark used) = card_ok used" by (simp add: card_ok_def keeps_moneyD [OF m])
      then have "gf_pk u = gf_pk g \<and> gf_code u = gf_code g \<and> (card_ok g \<longrightarrow> card_ok u)"
        using head by (simp add: 1 keeps_moneyD [OF m])
      then show ?thesis by simp
    next
      case 2
      from Cons.IH [OF 2] show ?thesis by simp
    qed
  qed (use Cons in auto)
qed simp




subsection \<open>Cards of an order\<close>

definition order_mark :: "datetime \<Rightarrow> checkout_info \<Rightarrow> gift_db \<Rightarrow> gift_card_row \<Rightarrow> gift_card_row" where
  "order_mark now info s g = (set_gift_card_user (map_option user_pk (cf_user info)) (get_customer_email info) s g)\<lparr>
     gf_last_used_on := Some now\<rparr>"

definition checkout_cards :: "checkout_info \<Rightarrow> gift_db \<Rightarrow> gift_card_row list" where
  "checkout_cards info s = filter (\<lambda>g. gf_pk g \<in> set (ch_gift_cards (cf_checkout info))) (gd_cards s)"

definition order_uses :: "datetime \<Rightarrow> checkout_info \<Rightarrow> decimal \<Rightarrow> gift_db \<Rightarrow> gift_card_row list" where
  "order_uses now info total_price_left s =
     map fst (fst (use_gift_cards (order_mark now info s) total_price_left (sort_key gf_code (checkout_cards info s))))"

lemma order_mark_money: "keeps_money (order_mark now info s)"
  unfolding order_mark_def by (rule set_gift_card_user_money)

lemma add_gift_cards_to_order_cards:
  "gd_cards (fst (add_gift_cards_to_order now requestor info order t s)) = map (written (order_uses now info t s)) (gd_cards s)"
proof -
  have eq: "(if gf_pk g \<in> gf_pk ` fst ` set us then (case row_of gf_pk (gf_pk g) (map fst us) of None \<Rightarrow> g | Some u \<Rightarrow> u) else g)
     = written (map fst us) g" for us :: "(gift_card_row \<times> decimal) list" and g
    by (simp add: written_def row_of_None split: option.split)
      (metis image_set option.distinct(1) row_of_None)
  show ?thesis
    unfolding add_gift_cards_to_order_def order_uses_def checkout_cards_def order_mark_def Let_def fst_conv
      add_gift_events_cards update_gift_cards_def
    by (simp only: eq gift_db.simps gift_db.select_convs) simp
qed

lemma order_uses_members:
  "u \<in> set (order_uses now info t s) \<Longrightarrow> \<exists>g \<in> set (checkout_cards info s).
     gf_pk u = gf_pk g \<and> gf_code u = gf_code g \<and> (card_ok g \<longrightarrow> card_ok u)"
  using use_gift_cards_members [OF order_mark_money, of u now info s t "sort_key gf_code (checkout_cards info s)"]
  by (simp add: order_uses_def)

lemma written_order_uses:
  assumes "cards_ok (gd_cards s)" "g \<in> set (gd_cards s)"
  shows "gf_pk (written (order_uses now info t s) g) = gf_pk g \<and> gf_code (written (order_uses now info t s) g) = gf_code g
     \<and> (card_ok g \<longrightarrow> card_ok (written (order_uses now info t s) g))"
proof (cases "row_of gf_pk (gf_pk g) (order_uses now info t s)")
  case (Some u)
  then have u: "u \<in> set (order_uses now info t s)" "gf_pk u = gf_pk g" by (auto dest: row_of_SomeD)
  from order_uses_members [OF u(1)] obtain g' where g': "g' \<in> set (gd_cards s)" "gf_pk u = gf_pk g'"
    "gf_code u = gf_code g'" "card_ok g' \<longrightarrow> card_ok u" by (auto simp: checkout_cards_def)
  then have "g' = g" using assms u(2) by (auto simp: cards_ok_def distinct_map dest: inj_onD)
  with g' u Some show ?thesis by (simp add: written_def)
qed (simp add: written_def)

lemma add_gift_cards_to_order_ok:
  assumes "cards_ok (gd_cards s)"
  shows "cards_ok (gd_cards (fst (add_gift_cards_to_order now requestor info order t s)))"
  using update_gift_cards_ok [of s "\<lambda>_. True" "written (order_uses now info t s)"] assms written_order_uses [OF assms]
  by (simp add: add_gift_cards_to_order_cards update_gift_cards_def)










end
