(* ===== verification/GiftCardRuns.thy ===== *)
theory GiftCardRuns
  imports GiftCardLaws
begin

section \<open>Gift cards over time\<close>







subsection \<open>The periodic job\<close>

lemma expired_not_active: "is_gift_card_expired today g \<Longrightarrow> \<not> active_gift_card today g"
  by (cases "gf_expiry_date g") (simp_all add: is_gift_card_expired_def active_gift_card_def not_le)

lemma filter_map_if:
  "(\<And>x. Q x \<Longrightarrow> \<not> P x \<and> \<not> P (f x)) \<Longrightarrow> filter P (map (\<lambda>x. if Q x then f x else x) xs) = filter P xs"
  by (induction xs) simp_all

text \<open>One run of the job records one event for each active card past its last day, leaves no
  such card active, keeps every card that can still be used, and a second run changes nothing\<close>

theorem expired_cards_deactivated:
  "gd_events (deactivate_expired_cards_task now today s) = gd_events s
     @ map (gift_event now (None, None) GiftCardEvents_DEACTIVATED [] None)
         (map gf_pk (filter (\<lambda>g. is_gift_card_expired today g \<and> gf_is_active g) (gd_cards s)))
   \<and> filter (\<lambda>g. is_gift_card_expired today g \<and> gf_is_active g) (gd_cards (deactivate_expired_cards_task now today s)) = []
   \<and> filter (active_gift_card today) (gd_cards (deactivate_expired_cards_task now today s))
     = filter (active_gift_card today) (gd_cards s)
   \<and> deactivate_expired_cards_task later today (deactivate_expired_cards_task now today s)
     = deactivate_expired_cards_task now today s"
  (is "?events \<and> ?none \<and> ?active \<and> ?again")
proof -
  let ?Q = "\<lambda>g. is_gift_card_expired today g \<and> gf_is_active g"
  let ?t = "deactivate_expired_cards_task now today s"
  have cards: "gd_cards ?t = map (\<lambda>g. if ?Q g then g\<lparr>gf_is_active := False\<rparr> else g) (gd_cards s)"
    by (auto simp: deactivate_expired_cards_task_def Let_def update_gift_cards_def filter_empty_conv intro!: map_idI [symmetric])
  have ?events
    by (simp add: deactivate_expired_cards_task_def gift_cards_deactivated_event_def add_gift_events_def update_gift_cards_def Let_def)
  moreover have none: ?none
    unfolding cards by (auto simp: filter_empty_conv)
  moreover have ?active
    unfolding cards
    by (rule filter_map_if) (simp add: expired_not_active, simp add: active_gift_card_def)
  moreover have ?again
    using none by (simp add: deactivate_expired_cards_task_def [of later] Let_def)
  ultimately show ?thesis by blast
qed

subsection \<open>Codes in a checkout\<close>

text \<open>
  C33: removing the code of a gift card just added to a checkout gives back the checkout
\<close>

theorem gift_code_roundtrip:
  assumes "\<not> promo_code_is_voucher (promo_view s) code"
    and "list_all (\<lambda>g. gf_code g = code \<longrightarrow> gf_pk g \<notin> set (ch_gift_cards (cf_checkout info))) (gd_cards s)"
    and "cards_ok (gd_cards s)"
    and "add_promo_code_to_checkout P prec voucher_name any_row now today channel s info lines code = Inr info'"
  shows "remove_promo_code_from_checkout s info' code = (True, info)"
proof -
  from assms(1,4) have gift: "promo_code_is_gift_card (promo_view s) code"
    and add: "(case add_gift_card_code_to_checkout today code (sc_currency_code channel) s (cf_checkout info) of
      Inl _ \<Rightarrow> Inl PromoInvalid | Inr c \<Rightarrow> Inr (info\<lparr>cf_checkout := c\<rparr>)) = Inr info'"
    by (auto simp: add_promo_code_to_checkout_def split: if_splits)
  from add obtain g where g: "find (\<lambda>g. active_gift_card today g \<and> gf_currency g = sc_currency_code channel \<and> gf_code g = code)
      (gd_cards s) = Some g"
    by (auto simp: add_gift_card_code_to_checkout_def split: option.splits)
  then have gs: "g \<in> set (gd_cards s)" "gf_code g = code" by (auto simp: find_Some_iff)
  with assms(2) have new: "gf_pk g \<notin> set (ch_gift_cards (cf_checkout info))" by (simp add: list_all_iff)
  with add g have info': "info' = info\<lparr>cf_checkout := (cf_checkout info)\<lparr>ch_gift_cards := ch_gift_cards (cf_checkout info) @ [gf_pk g]\<rparr>\<rparr>"
    by (simp add: add_gift_card_code_to_checkout_def)
  have only: "h = g" if "h \<in> set (gd_cards s)" "gf_code h = code" for h
    using that gs assms(3) by (auto simp: cards_ok_def distinct_map dest: inj_onD)
  have "find (\<lambda>h. gf_pk h \<in> set (ch_gift_cards (cf_checkout info')) \<and> gf_code h = code) (gd_cards s) = Some g"
  proof (cases "find (\<lambda>h. gf_pk h \<in> set (ch_gift_cards (cf_checkout info')) \<and> gf_code h = code) (gd_cards s)")
    case None
    have False using None gs unfolding find_None_iff info' by auto
    then show ?thesis ..
  next
    case (Some h)
    then have "h \<in> set (gd_cards s)" "gf_code h = code" by (auto simp: find_Some_iff)
    with only Some show ?thesis by simp
  qed
  moreover have "filter (\<lambda>k. k \<noteq> gf_pk g) (ch_gift_cards (cf_checkout info)) = ch_gift_cards (cf_checkout info)"
    using new by (intro filter_True) auto
  ultimately show ?thesis
    using assms(1) gift by (simp add: remove_promo_code_from_checkout_def remove_gift_card_code_from_checkout_def info')
qed

subsection \<open>What goes wrong\<close>

text \<open>After a batch with a tag, no card outside the batch has the tag.\<close>

theorem batch_takes_tags:
  assumes "gift_card_bulk_create prec lower random_codes now today requestor n balance i s = Inr (gs, s')"
    and "gi_add_tags i = Some tags" "t \<in> set tags"
  shows "filter (\<lambda>g. lower t \<in> set (gf_tags g) \<and> gf_pk g \<notin> gf_pk ` set gs) (gd_cards s') = []"
proof -
  from assms(2,3) have "tags \<noteq> []" by auto
  with assms(1,2) obtain s1 where s': "s' = set_tag_cards lower tags (map gf_pk gs) s1"
    by (auto simp: gift_card_bulk_create_def bindr_eq_Inr Let_def split: if_splits)
  show ?thesis using assms(3)
    unfolding s' set_tag_cards_def Let_def update_gift_cards_def by (auto simp: filter_empty_conv)
qed

subsection \<open>A shop with gift cards\<close>

definition gift_shop :: gift_db where
  "gift_shop = \<lparr>gd_cards = [(blank_gift_card ''PLN'' 30)\<lparr>gf_pk := 2, gf_code := ''BBBB-BBBB'', gf_tags := [''red'']\<rparr>,
       (blank_gift_card ''PLN'' 20)\<lparr>gf_pk := 1, gf_code := ''AAAA-AAAA'', gf_expiry_date := Some (2024, 12, 31)\<rparr>],
     gd_events = [], gd_tags = [''red''], gd_users = [], gd_vouchers = voucher_shop\<rparr>"


definition batch_input :: gift_card_input where
  "batch_input = \<lparr>gi_balance = Some (25, ''PLN''), gi_user_email = None, gi_channel = None, gi_is_active = True, gi_code = None,
     gi_note = None, gi_add_tags = Some [''red''], gi_remove_tags = None, gi_expiry_date = None, gi_balance_amount = None\<rparr>"

lemma gift_shop_ok: "cards_ok (gd_cards gift_shop)"
  by (simp add: gift_shop_def cards_ok_def card_ok_def blank_gift_card_def)




definition zloty_channel :: sales_channel where
  "zloty_channel = \<lparr>sc_pk = 3, sc_slug = ''pl'', sc_is_active = True, sc_currency_code = ''PLN''\<rparr>"

lemma gift_code_roundtrip_witness:
  "case add_promo_code_to_checkout plain_prices zl (\<lambda>v l. vo_name v) hd (2024, 1, 1, 0) (2024, 1, 1) zloty_channel gift_shop
       winter_info [coat_line None] ''AAAA-AAAA'' of Inl _ \<Rightarrow> False
   | Inr info \<Rightarrow> ch_gift_cards (cf_checkout info) = [1] \<and> remove_promo_code_from_checkout gift_shop info ''AAAA-AAAA'' = (True, winter_info)"
proof -
  let ?run = "add_promo_code_to_checkout plain_prices zl (\<lambda>v l. vo_name v) hd (2024, 1, 1, 0) (2024, 1, 1) zloty_channel gift_shop
     winter_info [coat_line None] ''AAAA-AAAA''"
  have "case ?run of Inl _ \<Rightarrow> False | Inr i \<Rightarrow> ch_gift_cards (cf_checkout i) = [1]" by code_simp
  then obtain i where i: "?run = Inr i" "ch_gift_cards (cf_checkout i) = [1]" by (auto split: sum.splits)
  have "\<not> promo_code_is_voucher (promo_view gift_shop) ''AAAA-AAAA''" by code_simp
  moreover have "list_all (\<lambda>g. gf_code g = ''AAAA-AAAA'' \<longrightarrow> gf_pk g \<notin> set (ch_gift_cards (cf_checkout winter_info))) (gd_cards gift_shop)"
    by code_simp
  ultimately show ?thesis using gift_code_roundtrip [OF _ _ gift_shop_ok i(1)] i by simp
qed

lemma batch_takes_tags_witness:
  "case gift_card_bulk_create (\<lambda>_. 2) id [''CCCC-CCCC''] (2024, 1, 1, 0) (2024, 1, 1) (None, None) 1 (25, ''PLN'') batch_input gift_shop of
     Inl _ \<Rightarrow> False
   | Inr (gs, s) \<Rightarrow> map gf_pk gs = [4] \<and> filter (\<lambda>g. ''red'' \<in> set (gf_tags g) \<and> gf_pk g \<notin> gf_pk ` set gs) (gd_cards s) = []"
proof -
  let ?run = "gift_card_bulk_create (\<lambda>_. 2) id [''CCCC-CCCC''] (2024, 1, 1, 0) (2024, 1, 1) (None, None) 1 (25, ''PLN'') batch_input gift_shop"
  have "case ?run of Inl _ \<Rightarrow> False | Inr (gs, s) \<Rightarrow> map gf_pk gs = [4]" by code_simp
  then obtain gs s where s: "?run = Inr (gs, s)" "map gf_pk gs = [4]" by (auto split: sum.splits)
  have "filter (\<lambda>g. id ''red'' \<in> set (gf_tags g) \<and> gf_pk g \<notin> gf_pk ` set gs) (gd_cards s) = []"
    by (rule batch_takes_tags [OF s(1), where tags = "[''red'']" and t = "''red''"]) (simp_all add: batch_input_def)
  with s show ?thesis by simp
qed

end
