(* ===== verification/OrderPrices.thy ===== *)
theory OrderPrices
  imports Taxes Choices
begin

section \<open>The prices of an order\<close>

text \<open>
  \<^verbatim>\<open>order/base_calculations.py\<close>, \<^verbatim>\<open>order/calculations.py\<close>, \<^verbatim>\<open>tax/calculations/order.py\<close> and the discounts of
  \<^verbatim>\<open>order/utils.py\<close>. An order has one currency. Lines are given apart from the order, as in the code; a line whose variant
  was deleted has none. \<open>ow_below_zero\<close> is the comparison of the \<open>prices\<close> package of zero with a taxed amount,
  \<open>ow_plugin_\<close> what plugins calculate (\<open>None\<close> for a tax error), \<open>ow_app_data\<close> what tax apps answer.
\<close>

record priced_line =
  pl_pk :: nat
  pl_variant :: "nat option"
  pl_product :: nat
  pl_category :: "nat option"
  pl_collections :: "nat list"
  pl_quantity :: int
  pl_base_unit_price_amount :: decimal
  pl_undiscounted_base_unit_price_amount :: decimal
  pl_unit_price :: taxed_money
  pl_undiscounted_unit_price :: taxed_money
  pl_total_price :: taxed_money
  pl_undiscounted_total_price :: taxed_money
  pl_unit_discount_amount :: decimal
  pl_unit_discount_value :: decimal
  pl_unit_discount_type :: discount_value_type
  pl_unit_discount_reason :: "string option"
  pl_tax_rate :: "decimal option"
  pl_tax_class :: "nat option"
  pl_tax_class_name :: "string option"

record order_discount =
  od_pk :: nat
  od_type :: discount_type
  od_value_type :: discount_value_type
  od_value :: decimal
  od_amount_value :: decimal
  od_reason :: "string option"
  od_voucher :: "nat option"
  od_voucher_code :: "string option"

record priced_order =
  po_pk :: nat
  po_status :: order_status
  po_currency :: string
  po_channel :: nat
  po_user :: "user option"
  po_user_email :: string
  po_shipping_country :: "string option"
  po_billing_country :: "string option"
  po_voucher :: "voucher option"
  po_voucher_code :: "string option"
  po_discounts :: "order_discount list"
  po_base_shipping_price_amount :: decimal
  po_shipping_price :: taxed_money
  po_shipping_tax_rate :: "decimal option"
  po_shipping_method_tax_class :: "nat option"
  po_shipping_tax_class_name :: "string option"
  po_total :: taxed_money
  po_undiscounted_total :: taxed_money
  po_should_refresh_prices :: bool
  po_tax_exemption :: bool
  po_display_gross_prices :: bool

record order_world =
  ow_country_rates :: "tax_class_country_rate list"
  ow_configuration :: tax_configuration
  ow_default_country :: string
  ow_vouchers :: voucher_db
  ow_below_zero :: "taxed_money \<Rightarrow> bool"
  ow_plugin_unit :: "priced_order \<Rightarrow> priced_line \<Rightarrow> (taxed_money \<times> taxed_money) option"
  ow_plugin_total :: "priced_order \<Rightarrow> priced_line \<Rightarrow> (taxed_money \<times> taxed_money) option"
  ow_plugin_rate :: "priced_order \<Rightarrow> priced_line \<Rightarrow> taxed_money \<Rightarrow> decimal option"
  ow_plugin_shipping :: "priced_order \<Rightarrow> taxed_money option"
  ow_plugin_shipping_rate :: "priced_order \<Rightarrow> taxed_money \<Rightarrow> decimal option"
  ow_plugin_order_total :: "priced_order \<Rightarrow> priced_line list \<Rightarrow> taxed_money"
  ow_app_data :: "priced_order \<Rightarrow> priced_line list \<Rightarrow> tax_data option"

subsection \<open>Base prices and the discounts of the order\<close>

definition base_order_subtotal :: "priced_line list \<Rightarrow> decimal" where
  "base_order_subtotal lines = sum_list (map (\<lambda>l. pl_base_unit_price_amount l * of_int (pl_quantity l)) lines)"

definition apply_order_discount :: "prices \<Rightarrow> order_discount \<Rightarrow> decimal \<Rightarrow> decimal \<Rightarrow> decimal \<times> decimal" where
  "apply_order_discount P d subtotal shipping_price =
     (if od_type d = DiscountType_VOUCHER
      then (apply_discount_to_value P (od_value d) (od_value_type d) subtotal, shipping_price)
      else if od_value_type d = DiscountValueType_PERCENTAGE
      then (apply_discount_to_value P (od_value d) (od_value_type d) subtotal,
            apply_discount_to_value P (od_value d) (od_value_type d) shipping_price)
      else (let temporary_undiscounted_total = subtotal + shipping_price
            in if temporary_undiscounted_total > 0
               then (let temporary_total = apply_discount_to_value P (od_value d) (od_value_type d) temporary_undiscounted_total;
                         total_discount = temporary_undiscounted_total - temporary_total;
                         subtotal_discount = subtotal / temporary_undiscounted_total * total_discount;
                         shipping_discount = total_discount - subtotal_discount
                     in (subtotal - subtotal_discount, shipping_price - shipping_discount))
               else (subtotal, shipping_price)))"

fun apply_order_discounts ::
    "prices \<Rightarrow> order_discount list \<Rightarrow> decimal \<Rightarrow> decimal \<Rightarrow> (decimal \<times> decimal) \<times> order_discount list" where
  "apply_order_discounts P [] subtotal shipping_price = ((subtotal, shipping_price), [])"
| "apply_order_discounts P (d # ds) subtotal shipping_price =
     (case apply_order_discount P d subtotal shipping_price of (st, sp) \<Rightarrow>
        (case apply_order_discounts P ds st sp of (rest, ds) \<Rightarrow>
           (rest, d\<lparr>od_amount_value := (shipping_price - sp) + (subtotal - st)\<rparr> # ds)))"

definition base_order_total :: "prices \<Rightarrow> priced_order \<Rightarrow> priced_line list \<Rightarrow> decimal \<times> priced_order" where
  "base_order_total P ord lines =
     (case apply_order_discounts P (po_discounts ord) (base_order_subtotal lines) (po_base_shipping_price_amount ord) of
        ((subtotal, shipping_price), ds) \<Rightarrow> (max (subtotal + shipping_price) 0, ord\<lparr>po_discounts := ds\<rparr>))"

text \<open>The undiscounted price of a line, and the price with its discounts.\<close>

definition base_order_line_total :: "priced_line \<Rightarrow> taxed_money \<times> taxed_money" where
  "base_order_line_total l =
     (untaxed (pl_undiscounted_base_unit_price_amount l * of_int (pl_quantity l)),
      untaxed (pl_base_unit_price_amount l * of_int (pl_quantity l)))"

definition get_total_order_discount :: "priced_order \<Rightarrow> decimal" where
  "get_total_order_discount ord = min (sum_list (map od_amount_value (po_discounts ord))) (tm_gross (po_undiscounted_total ord))"

definition get_total_order_discount_excluding_shipping :: "priced_order \<Rightarrow> decimal" where
  "get_total_order_discount_excluding_shipping ord =
     (let all_discounts = po_discounts ord;
          all_discounts = (if (case po_voucher ord of None \<Rightarrow> False | Some v \<Rightarrow> vo_type v = VoucherType_SHIPPING)
            then filter (\<lambda>d. od_type d \<noteq> DiscountType_VOUCHER) all_discounts else all_discounts)
      in min (sum_list (map od_amount_value all_discounts)) (tm_gross (po_undiscounted_total ord)))"

definition get_order_discounts :: "priced_order \<Rightarrow> order_discount list" where
  "get_order_discounts ord = filter (\<lambda>d. od_type d = DiscountType_MANUAL) (po_discounts ord)"

definition get_voucher_discount_assigned_to_order :: "priced_order \<Rightarrow> order_discount option" where
  "get_voucher_discount_assigned_to_order ord = find (\<lambda>d. od_type d = DiscountType_VOUCHER) (po_discounts ord)"

definition create_order_discount_for_order ::
    "prices \<Rightarrow> (string \<Rightarrow> nat) \<Rightarrow> nat \<Rightarrow> string \<Rightarrow> discount_value_type \<Rightarrow> decimal \<Rightarrow> discount_type option \<Rightarrow> priced_order
     \<Rightarrow> priced_order" where
  "create_order_discount_for_order P prec pk reason value_type value type ord =
     (let current_total = po_undiscounted_total ord;
          gross_total = apply_discount_to_value P value value_type (tm_gross current_total);
          new_amount = quantize_price prec (tm_gross current_total - gross_total) (po_currency ord)
      in ord\<lparr>po_discounts := po_discounts ord @ [\<lparr>od_pk = pk,
           od_type = (case type of None \<Rightarrow> DiscountType_MANUAL | Some t \<Rightarrow> t), od_value_type = value_type, od_value = value,
           od_amount_value = new_amount, od_reason = Some reason, od_voucher = None, od_voucher_code = None\<rparr>]\<rparr>)"

definition remove_order_discount_from_order :: "order_discount \<Rightarrow> priced_order \<Rightarrow> priced_order" where
  "remove_order_discount_from_order d ord = ord\<lparr>po_discounts := filter (\<lambda>x. od_pk x \<noteq> od_pk d) (po_discounts ord),
     po_total := add_taxed (po_total ord) (untaxed (od_amount_value d))\<rparr>"

subsection \<open>The discount of a line\<close>

text \<open>A value of zero is taken as not given.\<close>

definition update_discount_for_order_line ::
    "prices \<Rightarrow> string option \<Rightarrow> discount_value_type option \<Rightarrow> decimal option \<Rightarrow> priced_line \<Rightarrow> priced_line" where
  "update_discount_for_order_line P reason value_type value l =
     (let value = (case value of Some v \<Rightarrow> if v = 0 then pl_unit_discount_value l else v | None \<Rightarrow> pl_unit_discount_value l);
          value_type = (case value_type of Some t \<Rightarrow> t | None \<Rightarrow> pl_unit_discount_type l);
          changed = (pl_unit_discount_value l \<noteq> value \<or> pl_unit_discount_type l \<noteq> value_type);
          l = (case reason of None \<Rightarrow> l | Some r \<Rightarrow> l\<lparr>pl_unit_discount_reason := Some r\<rparr>)
      in if \<not> changed then l
         else (let undiscounted_base_unit_price = pl_undiscounted_base_unit_price_amount l;
                   base_unit_price = apply_discount_to_value P value value_type undiscounted_base_unit_price;
                   unit_discount = undiscounted_base_unit_price - base_unit_price;
                   undiscounted_unit_price = add_taxed (untaxed base_unit_price) (untaxed unit_discount);
                   q = of_int (pl_quantity l)
               in l\<lparr>pl_unit_discount_amount := unit_discount, pl_unit_price := untaxed base_unit_price,
                    pl_base_unit_price_amount := base_unit_price, pl_unit_discount_type := value_type,
                    pl_unit_discount_value := value, pl_total_price := map_taxed (\<lambda>a. a * q) (untaxed base_unit_price),
                    pl_undiscounted_unit_price := undiscounted_unit_price,
                    pl_undiscounted_total_price := map_taxed (\<lambda>a. a * q) undiscounted_unit_price\<rparr>))"

text \<open>The row as it is saved: the undiscounted unit price is assigned but not among the saved fields.\<close>

definition remove_discount_from_order_line :: "priced_line \<Rightarrow> priced_line" where
  "remove_discount_from_order_line l =
     (let price = untaxed (pl_undiscounted_base_unit_price_amount l)
      in l\<lparr>pl_unit_price := price, pl_base_unit_price_amount := pl_undiscounted_base_unit_price_amount l,
           pl_unit_discount_amount := 0, pl_unit_discount_value := 0, pl_unit_discount_reason := Some [],
           pl_total_price := map_taxed (\<lambda>a. a * of_int (pl_quantity l)) price\<rparr>)"

subsection \<open>What a voucher is worth for an order\<close>

text \<open>The product of a line is looked up before its variant is tested: a line without one raises.\<close>

definition order_discounted_lines :: "priced_line list \<Rightarrow> voucher \<Rightarrow> discount_error + priced_line list" where
  "order_discounted_lines lines v =
     (if vo_products v \<noteq> [] \<or> vo_collections v \<noteq> [] \<or> vo_categories v \<noteq> []
      then (if list_all (\<lambda>l. pl_variant l \<noteq> None) lines
            then Inr (filter (\<lambda>l. pl_product l \<in> set (vo_products v)
                \<or> (case pl_category l of None \<Rightarrow> False | Some c \<Rightarrow> c \<in> set (vo_categories v))
                \<or> set (pl_collections l) \<inter> set (vo_collections v) \<noteq> {}) lines)
            else Inl MissingVariant)
      else Inr lines)"

definition order_discounted_prices :: "priced_line list \<Rightarrow> voucher \<Rightarrow> discount_error + decimal list" where
  "order_discounted_prices lines v = bindr (order_discounted_lines lines v) (\<lambda>ls.
     Inr (concat (map (\<lambda>l. replicate (nat (pl_quantity l)) (tm_gross (pl_unit_price l))) ls)))"

definition get_products_voucher_discount_for_order ::
    "prices \<Rightarrow> voucher_db \<Rightarrow> nat \<Rightarrow> priced_line list \<Rightarrow> voucher \<Rightarrow> discount_error + decimal" where
  "get_products_voucher_discount_for_order P s channel lines v =
     bindr (if vo_type v = VoucherType_SPECIFIC_PRODUCT then order_discounted_prices lines v else Inr []) (\<lambda>prices.
       if prices = [] then Inl SelectedItemsOnly else get_products_voucher_discount P s v prices channel)"

definition order_lines_subtotal :: "priced_line list \<Rightarrow> taxed_money" where
  "order_lines_subtotal lines = sum_taxed (map pl_total_price lines)"

definition order_customer_email :: "priced_order \<Rightarrow> string" where
  "order_customer_email ord = (case po_user ord of Some u \<Rightarrow> user_email u | None \<Rightarrow> po_user_email ord)"

definition validate_voucher_in_order :: "order_world \<Rightarrow> priced_order \<Rightarrow> priced_line list \<Rightarrow> discount_error + unit" where
  "validate_voucher_in_order w ord lines =
     (case po_voucher ord of
        None \<Rightarrow> Inr ()
      | Some v \<Rightarrow>
          (let subtotal = order_lines_subtotal lines;
               quantity = sum_list (map pl_quantity lines);
               value = (if tcf_prices_entered_with_tax (ow_configuration w) then tm_gross subtotal else tm_net subtotal)
           in validate_voucher (ow_vouchers w) v value quantity (order_customer_email ord) (po_channel ord) (po_user ord)))"

definition get_voucher_discount_for_order ::
    "prices \<Rightarrow> order_world \<Rightarrow> priced_order \<Rightarrow> priced_line list \<Rightarrow> discount_error + decimal" where
  "get_voucher_discount_for_order P w ord lines =
     (case po_voucher ord of
        None \<Rightarrow> Inr 0
      | Some v \<Rightarrow> bindr (validate_voucher_in_order w ord lines) (\<lambda>_.
          case vo_type v of
            VoucherType_ENTIRE_ORDER \<Rightarrow>
              get_discount_amount_for P (ow_vouchers w) v (tm_gross (order_lines_subtotal lines)) (po_channel ord)
          | VoucherType_SHIPPING \<Rightarrow>
              get_discount_amount_for P (ow_vouchers w) v (tm_gross (po_shipping_price ord)) (po_channel ord)
          | VoucherType_SPECIFIC_PRODUCT \<Rightarrow>
              get_products_voucher_discount_for_order P (ow_vouchers w) (po_channel ord) lines v))"

end
