(* ===== verification/OrderTaxes.thy ===== *)
theory OrderTaxes
  imports OrderPrices
begin

section \<open>The taxes of an order and the refreshing of its prices\<close>

text \<open>
  \<^verbatim>\<open>tax/calculations/order.py\<close> and \<^verbatim>\<open>order/calculations.py\<close>. The discounts that flat rates divide among the lines are
  the amounts recorded with the order before.
\<close>

subsection \<open>Flat rates\<close>

definition order_line_rate :: "tax_class_country_rate list \<Rightarrow> decimal \<Rightarrow> string \<Rightarrow> priced_line \<Rightarrow> decimal" where
  "order_line_rate country_rates default_tax_rate country_code l =
     (case pl_tax_class l of
        Some c \<Rightarrow> get_tax_rate_for_tax_class (Some c) country_rates default_tax_rate country_code
      | None \<Rightarrow> (case (pl_tax_class_name l, pl_tax_rate l) of
          (Some _, Some r) \<Rightarrow> denormalize_tax_rate_from_db r
        | _ \<Rightarrow> default_tax_rate))"

definition tax_order_line ::
    "(string \<Rightarrow> nat) \<Rightarrow> string \<Rightarrow> decimal \<Rightarrow> bool \<Rightarrow> decimal \<Rightarrow> priced_line \<Rightarrow> discount_error + priced_line" where
  "tax_order_line prec currency tax_rate prices_entered_with_tax price_with_discounts l =
     bindr (calculate_flat_rate_tax price_with_discounts tax_rate prices_entered_with_tax) (\<lambda>unit_price.
     bindr (calculate_flat_rate_tax (pl_undiscounted_base_unit_price_amount l) tax_rate prices_entered_with_tax)
       (\<lambda>undiscounted_unit_price.
       let q = of_int (pl_quantity l); round = (\<lambda>m. quantize_taxed prec m currency)
       in Inr (l\<lparr>pl_unit_price := round unit_price, pl_undiscounted_unit_price := round undiscounted_unit_price,
            pl_total_price := round (map_taxed (\<lambda>a. a * q) unit_price),
            pl_undiscounted_total_price := round (map_taxed (\<lambda>a. a * q) undiscounted_unit_price),
            pl_tax_rate := Some (normalize_tax_rate_for_db tax_rate)\<rparr>)))"

text \<open>The part of the discount a line takes: in proportion to its price, for the last line what is left.\<close>

definition order_line_part ::
    "(string \<Rightarrow> nat) \<Rightarrow> string \<Rightarrow> decimal \<Rightarrow> decimal \<Rightarrow> decimal \<Rightarrow> bool \<Rightarrow> decimal \<Rightarrow> discount_error + decimal" where
  "order_line_part prec currency total_discount_amount order_total_price total_line_discounts is_last line_total_price =
     (if is_last then Inr (total_discount_amount - total_line_discounts)
      else if order_total_price = 0 then Inl DivisionByZero
      else Inr (quantize_price prec (line_total_price / order_total_price * total_discount_amount) currency))"

definition discounted_unit_price :: "(string \<Rightarrow> nat) \<Rightarrow> string \<Rightarrow> decimal \<Rightarrow> priced_line \<Rightarrow> discount_error + decimal" where
  "discounted_unit_price prec currency discount_amount l =
     (if pl_quantity l = 0 then Inl DivisionByZero
      else Inr (max (quantize_price prec ((pl_base_unit_price_amount l * of_int (pl_quantity l) - discount_amount)
          / of_int (pl_quantity l)) currency) 0))"

text \<open>The lines with their taxes, and the sum of their undiscounted prices; a line without variant is passed over.\<close>

fun update_taxes_for_order_lines ::
    "(string \<Rightarrow> nat) \<Rightarrow> string \<Rightarrow> (priced_line \<Rightarrow> decimal) \<Rightarrow> bool \<Rightarrow> decimal \<Rightarrow> decimal \<Rightarrow> decimal \<Rightarrow> priced_line list
     \<Rightarrow> discount_error + priced_line list \<times> decimal" where
  "update_taxes_for_order_lines prec currency rate entered D T taken [] = Inr ([], 0)"
| "update_taxes_for_order_lines prec currency rate entered D T taken (l # ls) =
     (if pl_variant l = None
      then bindr (update_taxes_for_order_lines prec currency rate entered D T taken ls) (\<lambda>(ls, u). Inr (l # ls, u))
      else bindr (if D = 0 then Inr (0, pl_base_unit_price_amount l)
                  else bindr (order_line_part prec currency D T taken (ls = []) (pl_base_unit_price_amount l * of_int (pl_quantity l)))
                    (\<lambda>a. bindr (discounted_unit_price prec currency a l) (\<lambda>p. Inr (a, p)))) (\<lambda>(a, price_with_discounts).
           bindr (tax_order_line prec currency (rate l) entered price_with_discounts l) (\<lambda>l'.
           bindr (update_taxes_for_order_lines prec currency rate entered D T (taken + a) ls) (\<lambda>(ls, u).
             Inr (l' # ls, pl_undiscounted_base_unit_price_amount l * of_int (pl_quantity l) + u)))))"

definition order_shipping_rate :: "tax_class_country_rate list \<Rightarrow> decimal \<Rightarrow> string \<Rightarrow> priced_order \<Rightarrow> decimal" where
  "order_shipping_rate country_rates default_tax_rate country_code ord =
     (case po_shipping_method_tax_class ord of
        Some c \<Rightarrow> get_tax_rate_for_tax_class (Some c) country_rates default_tax_rate country_code
      | None \<Rightarrow> (case (po_shipping_tax_class_name ord, po_shipping_tax_rate ord) of
          (Some _, Some r) \<Rightarrow> denormalize_tax_rate_from_db r
        | _ \<Rightarrow> default_tax_rate))"

definition calculate_order_shipping ::
    "(string \<Rightarrow> nat) \<Rightarrow> priced_order \<Rightarrow> decimal \<Rightarrow> bool \<Rightarrow> discount_error + taxed_money" where
  "calculate_order_shipping prec ord tax_rate prices_entered_with_tax =
     bindr (calculate_flat_rate_tax (po_base_shipping_price_amount ord) tax_rate prices_entered_with_tax) (\<lambda>m.
       Inr (quantize_taxed prec m (po_currency ord)))"

definition calculate_order_total ::
    "prices \<Rightarrow> (string \<Rightarrow> nat) \<Rightarrow> (taxed_money \<Rightarrow> bool) \<Rightarrow> priced_order \<Rightarrow> priced_line list \<Rightarrow> taxed_money \<times> priced_order" where
  "calculate_order_total P prec below_zero ord lines =
     (case base_order_total P ord lines of (default_value, ord) \<Rightarrow>
        if default_value \<le> 0 then (quantize_taxed prec (untaxed default_value) (po_currency ord), ord)
        else (let whole = add_taxed (sum_taxed (map pl_total_price lines)) (po_shipping_price ord);
                  undiscounted_subtotal = sum_taxed (map pl_undiscounted_total_price lines);
                  whole = (case find (\<lambda>d. od_type d = DiscountType_MANUAL) (po_discounts ord) of
                    None \<Rightarrow> whole
                  | Some d \<Rightarrow> if od_amount_value d > tm_gross undiscounted_subtotal
                      then add_taxed whole (untaxed (tm_gross undiscounted_subtotal - od_amount_value d)) else whole);
                  whole = (if below_zero whole then untaxed 0 else whole)
              in (quantize_taxed prec whole (po_currency ord), ord)))"

definition order_country :: "order_world \<Rightarrow> priced_order \<Rightarrow> string" where
  "order_country w ord = get_active_country (ow_default_country w) (po_shipping_country ord) (po_billing_country ord) None"

definition update_order_prices_with_flat_rates ::
    "prices \<Rightarrow> (string \<Rightarrow> nat) \<Rightarrow> order_world \<Rightarrow> priced_order \<Rightarrow> priced_line list \<Rightarrow> bool
     \<Rightarrow> discount_error + priced_order \<times> priced_line list" where
  "update_order_prices_with_flat_rates P prec w ord lines prices_entered_with_tax =
     (let country_code = order_country w ord;
          default_tax_rate = default_rate (ow_country_rates w) country_code
      in bindr (update_taxes_for_order_lines prec (po_currency ord)
             (order_line_rate (ow_country_rates w) default_tax_rate country_code) prices_entered_with_tax
             (get_total_order_discount_excluding_shipping ord) (base_order_subtotal lines) 0 lines) (\<lambda>(lines, undiscounted_subtotal).
         let shipping_tax_rate = order_shipping_rate (ow_country_rates w) default_tax_rate country_code ord
         in bindr (calculate_order_shipping prec ord shipping_tax_rate prices_entered_with_tax) (\<lambda>shipping_price.
              let ord = ord\<lparr>po_shipping_price := shipping_price,
                    po_shipping_tax_rate := Some (normalize_tax_rate_for_db shipping_tax_rate),
                    po_undiscounted_total := untaxed (undiscounted_subtotal + po_base_shipping_price_amount ord)\<rparr>
              in case calculate_order_total P prec (ow_below_zero w) ord lines of
                   (whole, ord) \<Rightarrow> Inr (ord\<lparr>po_total := whole\<rparr>, lines))))"

subsection \<open>Prices without taxes, and with taxes taken off\<close>

definition base_order_line :: "(string \<Rightarrow> nat) \<Rightarrow> string \<Rightarrow> priced_line \<Rightarrow> priced_line" where
  "base_order_line prec currency l =
     (if pl_variant l = None then l
      else (let round = (\<lambda>m. quantize_taxed prec m currency); unit_price = round (untaxed (pl_base_unit_price_amount l))
            in l\<lparr>pl_undiscounted_unit_price := round (untaxed (pl_undiscounted_base_unit_price_amount l)),
                 pl_unit_price := unit_price, pl_undiscounted_total_price := round (fst (base_order_line_total l)),
                 pl_total_price := round (snd (base_order_line_total l)), pl_tax_rate := Some (calculate_tax_rate unit_price)\<rparr>))"

definition get_order_base_prices ::
    "prices \<Rightarrow> (string \<Rightarrow> nat) \<Rightarrow> priced_order \<Rightarrow> priced_line list \<Rightarrow> priced_order \<times> priced_line list" where
  "get_order_base_prices P prec ord lines =
     (let currency = po_currency ord;
          lines = map (base_order_line prec currency) lines;
          undiscounted_subtotal = sum_taxed (map pl_undiscounted_total_price (filter (\<lambda>l. pl_variant l \<noteq> None) lines));
          shipping_price = quantize_taxed prec (untaxed (po_base_shipping_price_amount ord)) currency;
          ord = ord\<lparr>po_shipping_price := shipping_price, po_shipping_tax_rate := Some (calculate_tax_rate shipping_price),
            po_undiscounted_total := add_taxed undiscounted_subtotal shipping_price\<rparr>
      in case base_order_total P ord lines of (whole, ord) \<Rightarrow>
           (ord\<lparr>po_total := quantize_taxed prec (untaxed whole) currency\<rparr>, lines))"

definition remove_order_tax :: "priced_order \<times> priced_line list \<Rightarrow> priced_order \<times> priced_line list" where
  "remove_order_tax ol = (case ol of (ord, lines) \<Rightarrow>
     (ord\<lparr>po_total := untaxed (tm_net (po_total ord)), po_undiscounted_total := untaxed (tm_net (po_undiscounted_total ord)),
          po_shipping_price := untaxed (tm_net (po_shipping_price ord)), po_shipping_tax_rate := Some 0\<rparr>,
      map (\<lambda>l. l\<lparr>pl_unit_price := untaxed (tm_net (pl_unit_price l)),
          pl_undiscounted_unit_price := untaxed (tm_net (pl_undiscounted_unit_price l)),
          pl_total_price := untaxed (tm_net (pl_total_price l)),
          pl_undiscounted_total_price := untaxed (tm_net (pl_undiscounted_total_price l)), pl_tax_rate := Some 0\<rparr>) lines))"

subsection \<open>Plugins and tax apps\<close>

text \<open>A tax error leaves what was assigned before it.\<close>

definition plugin_line :: "order_world \<Rightarrow> priced_order \<Rightarrow> priced_line \<Rightarrow> priced_line \<times> taxed_money" where
  "plugin_line w ord l =
     (if pl_variant l = None then (l, untaxed 0)
      else case ow_plugin_unit w ord l of None \<Rightarrow> (l, untaxed 0)
        | Some (undiscounted_unit, unit) \<Rightarrow>
            (let l = l\<lparr>pl_undiscounted_unit_price := undiscounted_unit, pl_unit_price := unit\<rparr>
             in case ow_plugin_total w ord l of None \<Rightarrow> (l, untaxed 0)
                  | Some (undiscounted_total, whole) \<Rightarrow>
                      (let l = l\<lparr>pl_undiscounted_total_price := undiscounted_total, pl_total_price := whole\<rparr>
                       in case ow_plugin_rate w ord l undiscounted_unit of None \<Rightarrow> (l, undiscounted_total)
                            | Some r \<Rightarrow> (l\<lparr>pl_tax_rate := Some r\<rparr>, undiscounted_total))))"

definition update_order_discounts_and_base_undiscounted_total ::
    "prices \<Rightarrow> priced_order \<Rightarrow> priced_line list \<Rightarrow> priced_order" where
  "update_order_discounts_and_base_undiscounted_total P ord lines =
     (snd (base_order_total P ord lines))\<lparr>po_undiscounted_total :=
        untaxed (base_order_subtotal lines + po_base_shipping_price_amount ord)\<rparr>"

definition recalculate_order_prices ::
    "prices \<Rightarrow> order_world \<Rightarrow> priced_order \<Rightarrow> priced_line list \<Rightarrow> priced_order \<times> priced_line list" where
  "recalculate_order_prices P w ord lines =
     (let ord = update_order_discounts_and_base_undiscounted_total P ord lines;
          taxed = map (plugin_line w ord) lines;
          lines = map fst taxed;
          undiscounted_subtotal = sum_taxed (map snd taxed);
          ord = (case ow_plugin_shipping w ord of None \<Rightarrow> ord
            | Some m \<Rightarrow> (let ord = ord\<lparr>po_shipping_price := m\<rparr>
                in case ow_plugin_shipping_rate w ord m of None \<Rightarrow> ord | Some r \<Rightarrow> ord\<lparr>po_shipping_tax_rate := Some r\<rparr>));
          ord = ord\<lparr>po_undiscounted_total := add_taxed undiscounted_subtotal (untaxed (po_base_shipping_price_amount ord))\<rparr>
      in (ord\<lparr>po_total := ow_plugin_order_total w ord lines\<rparr>, lines))"

fun app_lines :: "priced_line list \<Rightarrow> tax_line_data list \<Rightarrow> discount_error + priced_line list \<times> taxed_money list" where
  "app_lines (l # ls) (t # ts) =
     (let whole = \<lparr>tm_net = tl_total_net_amount t, tm_gross = tl_total_gross_amount t\<rparr>
      in if pl_quantity l = 0 then Inl DivisionByZero
         else bindr (app_lines ls ts) (\<lambda>(ls, ms).
           Inr (l\<lparr>pl_total_price := whole, pl_unit_price := map_taxed (\<lambda>a. a / of_int (pl_quantity l)) whole,
             pl_tax_rate := Some (normalize_tax_rate_for_db (tl_tax_rate t))\<rparr> # ls, whole # ms)))"
| "app_lines ls ts = Inr (ls, [])"

definition apply_order_tax_data ::
    "tax_data option \<Rightarrow> priced_order \<times> priced_line list \<Rightarrow> discount_error + priced_order \<times> priced_line list" where
  "apply_order_tax_data data ol = (case data of
     None \<Rightarrow> Inr ol
   | Some d \<Rightarrow> (case ol of (ord, lines) \<Rightarrow>
       bindr (app_lines lines (td_lines d)) (\<lambda>(lines, totals).
         let shipping_price = \<lparr>tm_net = td_shipping_price_net_amount d, tm_gross = td_shipping_price_gross_amount d\<rparr>
         in Inr (ord\<lparr>po_shipping_price := shipping_price,
                po_shipping_tax_rate := Some (normalize_tax_rate_for_db (td_shipping_tax_rate d)),
                po_total := add_taxed shipping_price (sum_taxed totals)\<rparr>, lines))))"

definition calculate_and_add_order_tax ::
    "prices \<Rightarrow> (string \<Rightarrow> nat) \<Rightarrow> order_world \<Rightarrow> tax_calculation_strategy \<Rightarrow> priced_order \<Rightarrow> priced_line list \<Rightarrow> bool
     \<Rightarrow> discount_error + priced_order \<times> priced_line list" where
  "calculate_and_add_order_tax P prec w strategy ord lines prices_entered_with_tax =
     (if strategy = TaxCalculationStrategy_TAX_APP
      then (case recalculate_order_prices P w ord lines of (ord, lines) \<Rightarrow>
             apply_order_tax_data (ow_app_data w ord lines) (ord, lines))
      else update_order_prices_with_flat_rates P prec w ord lines prices_entered_with_tax)"

subsection \<open>Refreshing\<close>

definition order_editable :: "order_status \<Rightarrow> bool" where
  "order_editable status \<longleftrightarrow> status \<in> {OrderStatus_DRAFT, OrderStatus_UNCONFIRMED}"

definition invalidate_order_prices :: "priced_order \<Rightarrow> priced_order" where
  "invalidate_order_prices ord = (if order_editable (po_status ord) then ord\<lparr>po_should_refresh_prices := True\<rparr> else ord)"

text \<open>A discount made for the voucher has no amount yet. \<open>pk\<close> is the key of a new row.\<close>

definition update_order_discount_for_voucher :: "voucher_db \<Rightarrow> nat \<Rightarrow> priced_order \<Rightarrow> priced_order" where
  "update_order_discount_for_voucher s pk ord =
     (case po_voucher ord of
        None \<Rightarrow> ord\<lparr>po_discounts := filter (\<lambda>d. od_type d \<noteq> DiscountType_VOUCHER) (po_discounts ord)\<rparr>
      | Some v \<Rightarrow>
          if \<exists>d \<in> set (po_discounts ord). od_voucher_code d = po_voucher_code ord then ord
          else (case find (\<lambda>l. vl_voucher l = vo_pk v \<and> vl_channel l = po_channel ord) (vd_listings s) of
                  None \<Rightarrow> ord
                | Some l \<Rightarrow> ord\<lparr>po_discounts := po_discounts ord @ [\<lparr>od_pk = pk, od_type = DiscountType_VOUCHER,
                      od_value_type = vo_discount_value_type v, od_value = vl_discount_value l, od_amount_value = 0,
                      od_reason = Some (''Voucher: '' @ vo_name v), od_voucher = Some (vo_pk v),
                      od_voucher_code = po_voucher_code ord\<rparr>]\<rparr>))"

definition order_tax_configuration :: "order_world \<Rightarrow> priced_order \<Rightarrow> tax_configuration_per_country option" where
  "order_tax_configuration w ord = country_tax_configuration (ow_configuration w) (order_country w ord)"

definition update_order_display_gross_prices :: "order_world \<Rightarrow> priced_order \<Rightarrow> priced_order" where
  "update_order_display_gross_prices w ord =
     ord\<lparr>po_display_gross_prices := get_display_gross_prices (ow_configuration w) (order_tax_configuration w ord)\<rparr>"

definition should_charge_tax :: "order_world \<Rightarrow> priced_order \<Rightarrow> bool" where
  "should_charge_tax w ord \<longleftrightarrow>
     get_charge_taxes (ow_configuration w) (order_tax_configuration w ord) \<and> \<not> po_tax_exemption ord"

definition fetch_order_prices_if_expired ::
    "prices \<Rightarrow> (string \<Rightarrow> nat) \<Rightarrow> order_world \<Rightarrow> nat \<Rightarrow> bool \<Rightarrow> priced_order \<times> priced_line list
     \<Rightarrow> discount_error + priced_order \<times> priced_line list" where
  "fetch_order_prices_if_expired P prec w pk force_update ol = (case ol of (ord, lines) \<Rightarrow>
     if \<not> order_editable (po_status ord) then Inr ol
     else if \<not> force_update \<and> \<not> po_should_refresh_prices ord then Inr ol
     else (let prices_entered_with_tax = tcf_prices_entered_with_tax (ow_configuration w);
               strategy = get_tax_calculation_strategy (ow_configuration w) (order_tax_configuration w ord);
               charge = should_charge_tax w ord;
               ord = (update_order_discount_for_voucher (ow_vouchers w) pk ord)\<lparr>po_should_refresh_prices := False\<rparr>;
               taxed = calculate_and_add_order_tax P prec w strategy ord lines prices_entered_with_tax
           in if prices_entered_with_tax
              then bindr taxed (\<lambda>ol. Inr (if charge then ol else remove_order_tax ol))
              else if charge then taxed
              else Inr (get_order_base_prices P prec ord lines)))"

subsection \<open>Reading prices\<close>

definition find_order_line :: "priced_line list \<Rightarrow> priced_line \<Rightarrow> priced_line" where
  "find_order_line lines order_line =
     (case find (\<lambda>l. pl_pk l = pl_pk order_line) lines of Some l \<Rightarrow> l | None \<Rightarrow> order_line)"

text \<open>Undiscounted and discounted.\<close>

definition order_line_unit ::
    "prices \<Rightarrow> (string \<Rightarrow> nat) \<Rightarrow> order_world \<Rightarrow> nat \<Rightarrow> bool \<Rightarrow> priced_order \<times> priced_line list \<Rightarrow> priced_line
     \<Rightarrow> discount_error + taxed_money \<times> taxed_money" where
  "order_line_unit P prec w pk force_update ol order_line =
     bindr (fetch_order_prices_if_expired P prec w pk force_update ol) (\<lambda>(ord, lines).
       let l = find_order_line lines order_line; currency = po_currency (fst ol)
       in Inr (quantize_taxed prec (pl_undiscounted_unit_price l) currency, quantize_taxed prec (pl_unit_price l) currency))"

definition order_line_total ::
    "prices \<Rightarrow> (string \<Rightarrow> nat) \<Rightarrow> order_world \<Rightarrow> nat \<Rightarrow> bool \<Rightarrow> priced_order \<times> priced_line list \<Rightarrow> priced_line
     \<Rightarrow> discount_error + taxed_money \<times> taxed_money" where
  "order_line_total P prec w pk force_update ol order_line =
     bindr (fetch_order_prices_if_expired P prec w pk force_update ol) (\<lambda>(ord, lines).
       let l = find_order_line lines order_line; currency = po_currency (fst ol)
       in Inr (quantize_taxed prec (pl_undiscounted_total_price l) currency, quantize_taxed prec (pl_total_price l) currency))"

definition order_line_tax_rate ::
    "prices \<Rightarrow> (string \<Rightarrow> nat) \<Rightarrow> order_world \<Rightarrow> nat \<Rightarrow> bool \<Rightarrow> priced_order \<times> priced_line list \<Rightarrow> priced_line
     \<Rightarrow> discount_error + decimal option" where
  "order_line_tax_rate P prec w pk force_update ol order_line =
     bindr (fetch_order_prices_if_expired P prec w pk force_update ol) (\<lambda>(ord, lines).
       Inr (pl_tax_rate (find_order_line lines order_line)))"

definition order_shipping ::
    "prices \<Rightarrow> (string \<Rightarrow> nat) \<Rightarrow> order_world \<Rightarrow> nat \<Rightarrow> bool \<Rightarrow> priced_order \<times> priced_line list \<Rightarrow> discount_error + taxed_money" where
  "order_shipping P prec w pk force_update ol =
     bindr (fetch_order_prices_if_expired P prec w pk force_update ol) (\<lambda>(ord, _).
       Inr (quantize_taxed prec (po_shipping_price ord) (po_currency (fst ol))))"

definition order_shipping_tax_rate ::
    "prices \<Rightarrow> (string \<Rightarrow> nat) \<Rightarrow> order_world \<Rightarrow> nat \<Rightarrow> bool \<Rightarrow> priced_order \<times> priced_line list \<Rightarrow> discount_error + decimal option" where
  "order_shipping_tax_rate P prec w pk force_update ol =
     bindr (fetch_order_prices_if_expired P prec w pk force_update ol) (\<lambda>(ord, _). Inr (po_shipping_tax_rate ord))"

definition order_subtotal ::
    "prices \<Rightarrow> (string \<Rightarrow> nat) \<Rightarrow> order_world \<Rightarrow> nat \<Rightarrow> bool \<Rightarrow> priced_order \<times> priced_line list \<Rightarrow> discount_error + taxed_money" where
  "order_subtotal P prec w pk force_update ol =
     bindr (fetch_order_prices_if_expired P prec w pk force_update ol) (\<lambda>(_, lines).
       Inr (quantize_taxed prec (order_lines_subtotal lines) (po_currency (fst ol))))"

definition order_total ::
    "prices \<Rightarrow> (string \<Rightarrow> nat) \<Rightarrow> order_world \<Rightarrow> nat \<Rightarrow> bool \<Rightarrow> priced_order \<times> priced_line list \<Rightarrow> discount_error + taxed_money" where
  "order_total P prec w pk force_update ol =
     bindr (fetch_order_prices_if_expired P prec w pk force_update ol) (\<lambda>(ord, _).
       Inr (quantize_taxed prec (po_total ord) (po_currency (fst ol))))"

definition order_undiscounted_total ::
    "prices \<Rightarrow> (string \<Rightarrow> nat) \<Rightarrow> order_world \<Rightarrow> nat \<Rightarrow> bool \<Rightarrow> priced_order \<times> priced_line list \<Rightarrow> discount_error + taxed_money" where
  "order_undiscounted_total P prec w pk force_update ol =
     bindr (fetch_order_prices_if_expired P prec w pk force_update ol) (\<lambda>(ord, _).
       Inr (quantize_taxed prec (po_undiscounted_total ord) (po_currency (fst ol))))"

end
