(* ===== verification/OrderPriceLaws.thy ===== *)
theory OrderPriceLaws
  imports OrderTaxes TaxLaws
begin

section \<open>Laws of the prices of an order\<close>

text \<open>
  The discounts of an order account for what they take from it, prices are calculated once until they are invalidated,
  an order that is exempt has no taxes, and rounding moves the lines by at most half a unit of the currency for each
  piece and each line. At the end what goes wrong: discounts that were not recorded before are not applied.
\<close>

subsection \<open>Discounts of the order\<close>



lemma lowered_value:
  "prices_law P \<Longrightarrow> 0 \<le> v \<Longrightarrow> 0 \<le> price \<Longrightarrow>
     0 \<le> apply_discount_to_value P v t price \<and> apply_discount_to_value P v t price \<le> price"
  unfolding apply_discount_to_value_def by (rule lower_price_bounds)





subsection \<open>The discount of a line\<close>

definition line_discount_recorded :: "priced_line \<Rightarrow> bool" where
  "line_discount_recorded l \<longleftrightarrow> 0 \<le> pl_base_unit_price_amount l \<and> 0 \<le> pl_unit_discount_amount l
     \<and> pl_base_unit_price_amount l + pl_unit_discount_amount l = pl_undiscounted_base_unit_price_amount l"

text \<open>The discount of a line is what its base price was lowered by, after every update and removal.\<close>

theorem line_discount_stays_recorded:
  assumes "prices_law P" "line_discount_recorded l" "0 \<le> pl_unit_discount_value l" "\<And>v. value = Some v \<Longrightarrow> 0 \<le> v"
  shows "line_discount_recorded (update_discount_for_order_line P reason value_type value l)
    \<and> line_discount_recorded (remove_discount_from_order_line l)
    \<and> pl_total_price (remove_discount_from_order_line (update_discount_for_order_line P reason value_type value l))
      = pl_total_price (remove_discount_from_order_line l)"
proof -
  define v where "v = (case value of Some v \<Rightarrow> if v = 0 then pl_unit_discount_value l else v | None \<Rightarrow> pl_unit_discount_value l)"
  define t where "t = (case value_type of Some t \<Rightarrow> t | None \<Rightarrow> pl_unit_discount_type l)"
  let ?u = "pl_undiscounted_base_unit_price_amount l"
  have "0 \<le> v" using assms(3,4) by (auto simp: v_def split: option.split)
  moreover have u: "0 \<le> ?u" using assms(2) by (simp add: line_discount_recorded_def)
  ultimately have low: "0 \<le> apply_discount_to_value P v t ?u" "apply_discount_to_value P v t ?u \<le> ?u"
    using lowered_value [OF assms(1)] by simp_all
  let ?l = "update_discount_for_order_line P reason value_type value l"
  have keep: "pl_undiscounted_base_unit_price_amount ?l = ?u" "pl_quantity ?l = pl_quantity l"
    by (simp_all add: update_discount_for_order_line_def Let_def split: option.split)
  have "line_discount_recorded ?l"
    using assms(2) low unfolding update_discount_for_order_line_def v_def [symmetric] t_def [symmetric] Let_def
    by (simp add: line_discount_recorded_def split: option.split)
  moreover have "line_discount_recorded (remove_discount_from_order_line l)"
    using u by (simp add: line_discount_recorded_def remove_discount_from_order_line_def Let_def)
  moreover have "pl_total_price (remove_discount_from_order_line ?l) = pl_total_price (remove_discount_from_order_line l)"
    using keep by (simp add: remove_discount_from_order_line_def Let_def)
  ultimately show ?thesis by blast
qed

subsection \<open>Rounding\<close>

lemma quantize_times_int:
  assumes "quantize p a = a"
  shows "quantize p (a * of_int q) = a * of_int q"
proof (rule quantize_exact)
  have "a * 10 ^ p = of_int (round_half_even (a * 10 ^ p))"
    using assms unfolding quantize_def by (metis (no_types, lifting) divide_eq_eq power_not_zero zero_neq_numeral)
  then show "a * of_int q * 10 ^ p = of_int (round_half_even (a * 10 ^ p) * q)"
    by (metis (no_types, lifting) mult.assoc mult.commute of_int_mult)
qed

definition line_priced :: "(string \<Rightarrow> nat) \<Rightarrow> string \<Rightarrow> (priced_line \<Rightarrow> decimal) \<Rightarrow> priced_line \<Rightarrow> bool" where
  "line_priced prec currency rate l \<longleftrightarrow> pl_variant l \<noteq> None \<and> 0 < pl_quantity l \<and> 0 \<le> pl_base_unit_price_amount l
     \<and> quantize (prec currency) (pl_base_unit_price_amount l) = pl_base_unit_price_amount l \<and> 0 \<le> rate l"

definition line_worth :: "priced_line \<Rightarrow> decimal" where
  "line_worth l = pl_base_unit_price_amount l * of_int (pl_quantity l)"

lemma tax_order_line_gross:
  assumes "0 \<le> r" "tax_order_line prec currency r True price l = Inr l'" "quantize (prec currency) price = price"
  shows "tm_gross (pl_total_price l') = price * of_int (pl_quantity l)"
  using assms quantize_times_int [OF assms(3)]
  by (auto simp: tax_order_line_def bindr_eq_Inr quantize_taxed_def map_taxed_def quantize_price_def Let_def
      dest!: flat_rate_gross [OF assms(1)])

text \<open>A line that takes the part \<open>a\<close> of the discount; if the part is more than the line is worth, it costs nothing.\<close>

lemma discounted_line_near:
  assumes q: "0 < pl_quantity l" and p: "discounted_unit_price prec currency a l = Inr price"
  shows "quantize (prec currency) price = price
    \<and> (a \<le> line_worth l \<longrightarrow>
        \<bar>price * of_int (pl_quantity l) - (line_worth l - a)\<bar> \<le> of_int (pl_quantity l) * (1 / 2 / 10 ^ prec currency))
    \<and> (line_worth l < a \<longrightarrow> price = 0)"
proof -
  let ?q = "of_int (pl_quantity l) :: decimal" and ?p = "prec currency"
  let ?u = "(line_worth l - a) / ?q"
  have q0: "0 < ?q" using q by simp
  have price: "price = max (quantize ?p ?u) 0"
    using p q by (auto simp: discounted_unit_price_def quantize_price_def line_worth_def Let_def)
  have "quantize ?p price = price" unfolding price by (simp add: max_def)
  moreover have "\<bar>price * ?q - (line_worth l - a)\<bar> \<le> ?q * (1 / 2 / 10 ^ ?p)" if "a \<le> line_worth l"
  proof -
    have "0 \<le> ?u" using that q0 by simp
    then have "price = quantize ?p ?u" unfolding price using quantize_nonneg [of ?u ?p] by simp
    then have "price * ?q - (line_worth l - a) = ?q * (quantize ?p ?u - ?u)" using q0 by (simp add: field_simps)
    then show ?thesis using mult_left_mono [OF quantize_near [of ?p ?u], of ?q] q0 by (simp add: abs_mult)
  qed
  moreover have "price = 0" if "line_worth l < a"
  proof -
    have "?u \<le> 0" using that q0 by (simp add: divide_le_0_iff)
    then have "quantize ?p ?u \<le> 0" using quantize_mono [of ?u 0 ?p] by simp
    then show ?thesis unfolding price by simp
  qed
  ultimately show ?thesis by blast
qed

lemma line_parts_near:
  assumes T: "0 < T" "0 < D" "D \<le> T"
  shows "list_all (line_priced prec currency rate) ls \<Longrightarrow> ls \<noteq> [] \<Longrightarrow>
    update_taxes_for_order_lines prec currency rate True D T taken ls = Inr (ls', u) \<Longrightarrow>
    \<bar>(D - taken) - D / T * sum_list (map line_worth ls)\<bar> \<le> of_nat k * (1 / 2 / 10 ^ prec currency) \<Longrightarrow>
    \<bar>sum_list (map (\<lambda>l. tm_gross (pl_total_price l)) ls') - (sum_list (map line_worth ls) - (D - taken))\<bar>
      \<le> (sum_list (map (\<lambda>l. of_int (pl_quantity l)) ls) + of_nat (k + length ls)) * (1 / 2 / 10 ^ prec currency)"
proof (induction ls arbitrary: taken k ls' u)
  case (Cons l ls)
  let ?e = "1 / 2 / 10 ^ prec currency :: decimal" and ?x = "line_worth l" and ?q = "of_int (pl_quantity l) :: decimal"
  have e: "0 \<le> ?e" by simp
  from Cons.prems(1) have l: "pl_variant l \<noteq> None" "0 < pl_quantity l" "0 \<le> rate l" "0 \<le> ?x"
    "quantize (prec currency) ?x = ?x"
    by (simp_all add: line_priced_def line_worth_def quantize_times_int)
  have ratio: "0 \<le> D / T" "D / T \<le> 1" using T by simp_all
  have ideal: "D / T * ?x \<le> ?x" using mult_right_mono [OF ratio(2) l(4)] by simp
  from Cons.prems(3) l(1) T(2) obtain a price l' ls1 u1 where
    a: "order_line_part prec currency D T taken (ls = []) ?x = Inr a"
    and p: "discounted_unit_price prec currency a l = Inr price"
    and l': "tax_order_line prec currency (rate l) True price l = Inr l'"
    and more: "update_taxes_for_order_lines prec currency rate True D T (taken + a) ls = Inr (ls1, u1)"
    and ls': "ls' = l' # ls1"
    by (auto simp: bindr_eq_Inr line_worth_def)
  note near = discounted_line_near [OF l(2) p]
  have gross: "tm_gross (pl_total_price l') = price * ?q" by (rule tax_order_line_gross [OF l(3) l']) (use near in blast)
  have own: "\<bar>tm_gross (pl_total_price l') - (?x - a)\<bar> \<le> ?q * ?e + of_nat j * ?e" if "a - ?x \<le> of_nat j * ?e" for j :: nat
  proof (cases "a \<le> ?x")
    case True
    then have "\<bar>tm_gross (pl_total_price l') - (?x - a)\<bar> \<le> ?q * ?e" unfolding gross using near by blast
    moreover have "0 \<le> of_nat j * ?e" using e by simp
    ultimately show ?thesis by linarith
  next
    case False
    then have "tm_gross (pl_total_price l') = 0" unfolding gross using near by simp
    moreover have "0 \<le> ?q * ?e" using l(2) e by simp
    ultimately show ?thesis using False that by linarith
  qed
  show ?case
  proof (cases "ls = []")
    case True
    then have a': "a = D - taken" using a by (simp add: order_line_part_def)
    have "a - ?x \<le> of_nat k * ?e" using Cons.prems(4) ideal True unfolding a' by (simp add: abs_le_iff)
    from own [OF this] have "\<bar>tm_gross (pl_total_price l') - (?x - (D - taken))\<bar> \<le> (?q + of_nat k) * ?e"
      unfolding a' by (simp only: distrib_right)
    moreover have "(?q + of_nat k) * ?e \<le> (?q + of_nat (k + 1)) * ?e" using e by (intro mult_right_mono) simp_all
    ultimately have "\<bar>tm_gross (pl_total_price l') - (?x - (D - taken))\<bar> \<le> (?q + of_nat (k + 1)) * ?e" by linarith
    moreover have "ls1 = []" using more True by simp
    ultimately show ?thesis unfolding ls' True by simp
  next
    case False
    with T(1) a have a': "a = quantize (prec currency) (?x / T * D)" by (simp add: order_line_part_def quantize_price_def Let_def)
    have swap: "?x / T * D = D / T * ?x" by simp
    have aq: "\<bar>a - D / T * ?x\<bar> \<le> ?e" unfolding a' swap by (rule quantize_near)
    have "a \<le> ?x" unfolding a' swap using quantize_mono [OF ideal] l(5) by metis
    then have "a - ?x \<le> of_nat 0 * ?e" by simp
    from own [OF this] have one: "\<bar>tm_gross (pl_total_price l') - (?x - a)\<bar> \<le> ?q * ?e" by simp
    have "\<bar>(D - (taken + a)) - D / T * sum_list (map line_worth ls)\<bar> \<le> of_nat (k + 1) * ?e"
    proof -
      have "(D - (taken + a)) - D / T * sum_list (map line_worth ls)
          = ((D - taken) - D / T * sum_list (map line_worth (l # ls))) - (a - D / T * ?x)"
        by (simp add: distrib_left)
      then have "\<bar>(D - (taken + a)) - D / T * sum_list (map line_worth ls)\<bar>
          \<le> of_nat k * ?e + ?e" using Cons.prems(4) aq by linarith
      then show ?thesis by (simp add: distrib_right add_divide_distrib)
    qed
    from Cons.IH [OF _ False more this] Cons.prems(1)
    have rest: "\<bar>sum_list (map (\<lambda>l. tm_gross (pl_total_price l)) ls1) - (sum_list (map line_worth ls) - (D - (taken + a)))\<bar>
      \<le> (sum_list (map (\<lambda>l. of_int (pl_quantity l)) ls) + of_nat (k + 1 + length ls)) * ?e" by simp
    have split: "(sum_list (map (\<lambda>l. of_int (pl_quantity l)) (l # ls)) + of_nat (k + length (l # ls))) * ?e
        = ?q * ?e + (sum_list (map (\<lambda>l. of_int (pl_quantity l)) ls) + of_nat (k + 1 + length ls)) * ?e"
      by (simp add: distrib_right add_divide_distrib add.assoc)
    have sum: "sum_list (map (\<lambda>l. tm_gross (pl_total_price l)) (l' # ls1)) - (sum_list (map line_worth (l # ls)) - (D - taken))
        = (tm_gross (pl_total_price l') - (?x - a))
          + (sum_list (map (\<lambda>l. tm_gross (pl_total_price l)) ls1) - (sum_list (map line_worth ls) - (D - (taken + a))))"
      by simp
    show ?thesis unfolding ls' sum split using one rest by linarith
  qed
qed simp

lemma undiscounted_lines_exact:
  "list_all (line_priced prec currency rate) ls \<Longrightarrow>
    update_taxes_for_order_lines prec currency rate True 0 T taken ls = Inr (ls', u) \<Longrightarrow>
    sum_list (map (\<lambda>l. tm_gross (pl_total_price l)) ls') = sum_list (map line_worth ls)"
proof (induction ls arbitrary: taken ls' u)
  case (Cons l ls)
  from Cons.prems(1) have l: "pl_variant l \<noteq> None" "0 \<le> rate l"
    "quantize (prec currency) (pl_base_unit_price_amount l) = pl_base_unit_price_amount l" by (simp_all add: line_priced_def)
  from Cons.prems(2) l(1) obtain l' ls1 u1 where
    l': "tax_order_line prec currency (rate l) True (pl_base_unit_price_amount l) l = Inr l'"
    and more: "update_taxes_for_order_lines prec currency rate True 0 T taken ls = Inr (ls1, u1)" and ls': "ls' = l' # ls1"
    by (auto simp: bindr_eq_Inr)
  have "tm_gross (pl_total_price l') = line_worth l"
    unfolding line_worth_def by (rule tax_order_line_gross [OF l(2) l' l(3)])
  moreover have "sum_list (map (\<lambda>l. tm_gross (pl_total_price l)) ls1) = sum_list (map line_worth ls)"
    by (rule Cons.IH [OF _ more]) (use Cons.prems(1) in simp)
  ultimately show ?case unfolding ls' by simp
qed simp

text \<open>
  C16: with prices entered with tax, when every line has a variant, a positive quantity, a
  rounded base price and a rate that is not negative, and the discount lies between zero and the
  subtotal: the gross lines of an order whose discount was divided among them differ from the
  discounted subtotal by at most half a unit of the currency for each piece and each line
\<close>

theorem order_lines_near_discounted:
  assumes lines: "list_all (line_priced prec currency rate) lines"
    and D: "0 \<le> D" "D \<le> base_order_subtotal lines"
    and run: "update_taxes_for_order_lines prec currency rate True D (base_order_subtotal lines) 0 lines = Inr (lines', u)"
  shows "\<bar>tm_gross (order_lines_subtotal lines') - (base_order_subtotal lines - D)\<bar>
    \<le> (sum_list (map (\<lambda>l. of_int (pl_quantity l)) lines) + of_nat (length lines)) * (1 / 2 / 10 ^ prec currency)"
proof -
  have T: "sum_list (map line_worth lines) = base_order_subtotal lines"
    by (simp add: base_order_subtotal_def line_worth_def [abs_def])
  have gross: "tm_gross (order_lines_subtotal lines') = sum_list (map (\<lambda>l. tm_gross (pl_total_price l)) lines')"
    by (simp add: order_lines_subtotal_def sum_taxed_gross comp_def)
  have nn: "0 \<le> sum_list (map (\<lambda>l. of_int (pl_quantity l) :: decimal) lines)"
    by (rule sum_list_nonneg) (use lines in \<open>auto simp: line_priced_def list_all_iff\<close>)
  show ?thesis
  proof (cases "D = 0")
    case True
    have "tm_gross (order_lines_subtotal lines') = base_order_subtotal lines"
      unfolding gross T [symmetric] by (rule undiscounted_lines_exact [OF lines]) (use run True in simp)
    then show ?thesis using True nn by simp
  next
    case False
    then have pos: "0 < D" "0 < base_order_subtotal lines" using D by simp_all
    then have "lines \<noteq> []" by (auto simp: base_order_subtotal_def)
    from line_parts_near [OF pos(2,1) D(2) lines this run, of 0] T pos(2) show ?thesis unfolding gross by simp
  qed
qed

end
