(* ===== verification/OrderPriceRuns.thy ===== *)
theory OrderPriceRuns
  imports OrderPriceLaws
begin

section \<open>Refreshing the prices of an order\<close>

text \<open>
  Prices are fetched once until they are invalidated; an order that is not charged taxes shows none; and what goes wrong
  with discounts: amounts that were not recorded before the refresh are left out of it, the last line can be made
  dearer by rounding, and lines without variants lose parts of the discount.
\<close>

subsection \<open>What a refresh keeps\<close>

lemma base_order_total_keeps [simp]:
  "po_status (snd (base_order_total P ord lines)) = po_status ord"
  "po_should_refresh_prices (snd (base_order_total P ord lines)) = po_should_refresh_prices ord"
  by (simp_all add: base_order_total_def split_beta)

lemma calculate_order_total_keeps [simp]:
  "po_status (snd (calculate_order_total P prec below ord lines)) = po_status ord"
  "po_should_refresh_prices (snd (calculate_order_total P prec below ord lines)) = po_should_refresh_prices ord"
  by (simp_all add: calculate_order_total_def Let_def split_beta)

definition same_status :: "priced_order \<Rightarrow> priced_order \<Rightarrow> bool" where
  "same_status a b \<longleftrightarrow> po_status a = po_status b \<and> po_should_refresh_prices a = po_should_refresh_prices b"

lemma flat_rates_same:
  "update_order_prices_with_flat_rates P prec w ord lines entered = Inr ol \<Longrightarrow> same_status (fst ol) ord"
  by (auto simp: update_order_prices_with_flat_rates_def Let_def bindr_eq_Inr split_beta same_status_def)

lemma base_prices_same: "same_status (fst (get_order_base_prices P prec ord lines)) ord"
  by (simp add: get_order_base_prices_def Let_def split_beta same_status_def)

lemma remove_order_tax_same: "same_status (fst (remove_order_tax ol)) (fst ol)"
  by (simp add: remove_order_tax_def split_beta same_status_def)

lemma recalculate_same: "same_status (fst (recalculate_order_prices P w ord lines)) ord"
  by (simp add: recalculate_order_prices_def update_order_discounts_and_base_undiscounted_total_def Let_def same_status_def
      split: option.split)

lemma apply_order_tax_data_same: "apply_order_tax_data data ol = Inr ol' \<Longrightarrow> same_status (fst ol') (fst ol)"
  by (auto simp: apply_order_tax_data_def bindr_eq_Inr Let_def split_beta same_status_def split: option.splits)

lemma order_tax_same:
  "calculate_and_add_order_tax P prec w strategy ord lines entered = Inr ol \<Longrightarrow> same_status (fst ol) ord"
  using recalculate_same [of P w ord lines]
  by (auto simp: calculate_and_add_order_tax_def split_beta same_status_def split: if_splits
      dest!: apply_order_tax_data_same flat_rates_same)

lemma update_order_discount_for_voucher_status:
  "po_status (update_order_discount_for_voucher s pk ord) = po_status ord"
  by (simp add: update_order_discount_for_voucher_def split: option.split)

text \<open>
  C22: prices of an order change only while it is editable and they are invalidated or forced;
  after a refresh they stay until they are invalidated again
\<close>

theorem prices_fetched_once:
  assumes "fetch_order_prices_if_expired P prec w pk force ol = Inr ol'"
  shows "fetch_order_prices_if_expired P prec w' pk' False ol' = Inr ol'
    \<and> po_status (fst ol') = po_status (fst ol)
    \<and> (order_editable (po_status (fst ol)) \<and> (force \<or> po_should_refresh_prices (fst ol)) \<or> ol' = ol)"
proof (cases "order_editable (po_status (fst ol)) \<and> (force \<or> po_should_refresh_prices (fst ol))")
  case False
  then have "ol' = ol" using assms by (auto simp: fetch_order_prices_if_expired_def split_beta split: if_splits)
  with False show ?thesis by (auto simp: fetch_order_prices_if_expired_def split_beta)
next
  case True
  define ord where "ord = (update_order_discount_for_voucher (ow_vouchers w) pk (fst ol))\<lparr>po_should_refresh_prices := False\<rparr>"
  have ord: "po_status ord = po_status (fst ol)" "\<not> po_should_refresh_prices ord"
    by (simp_all add: ord_def update_order_discount_for_voucher_status)
  have "same_status (fst ol') ord"
    using assms True remove_order_tax_same base_prices_same [of P prec ord]
    unfolding fetch_order_prices_if_expired_def split_beta Let_def ord_def [symmetric]
    by (auto simp: bindr_eq_Inr same_status_def split: if_splits dest!: order_tax_same)
  then have "po_status (fst ol') = po_status (fst ol)" "\<not> po_should_refresh_prices (fst ol')"
    using ord by (simp_all add: same_status_def)
  with True show ?thesis by (simp add: fetch_order_prices_if_expired_def split_beta)
qed

subsection \<open>Orders that are not charged taxes\<close>

definition line_untaxed :: "priced_line \<Rightarrow> bool" where
  "line_untaxed l \<longleftrightarrow> list_all (\<lambda>m. tm_gross m = tm_net m)
     [pl_unit_price l, pl_undiscounted_unit_price l, pl_total_price l, pl_undiscounted_total_price l] \<and> pl_tax_rate l = Some 0"

definition order_untaxed :: "priced_order \<times> priced_line list \<Rightarrow> bool" where
  "order_untaxed ol \<longleftrightarrow> (\<forall>m \<in> {po_shipping_price (fst ol), po_total (fst ol)}. tm_gross m = tm_net m)
     \<and> po_shipping_tax_rate (fst ol) = Some 0 \<and> list_all (\<lambda>l. pl_variant l \<noteq> None \<longrightarrow> line_untaxed l) (snd ol)"

lemma remove_order_tax_untaxed: "order_untaxed (remove_order_tax ol)"
  by (auto simp: remove_order_tax_def order_untaxed_def line_untaxed_def untaxed_def split_beta list_all_iff)

lemma no_rate: "calculate_tax_rate (quantize_taxed prec (untaxed a) c) = 0"
  by (simp add: calculate_tax_rate_def quantize_taxed_def map_taxed_def untaxed_def)

lemma base_prices_untaxed: "order_untaxed (get_order_base_prices P prec ord lines)"
proof -
  have "line_untaxed (base_order_line prec c l)" if "pl_variant l \<noteq> None" for c l
    using that no_rate [of prec "pl_base_unit_price_amount l" c]
    by (auto simp: line_untaxed_def base_order_line_def base_order_line_total_def Let_def quantize_taxed_def map_taxed_def untaxed_def)
  moreover have "pl_variant (base_order_line prec c l) = pl_variant l" for c l
    by (simp add: base_order_line_def Let_def)
  moreover have "po_shipping_price (snd (base_order_total P x ls)) = po_shipping_price x"
    "po_shipping_tax_rate (snd (base_order_total P x ls)) = po_shipping_tax_rate x" for x ls
    by (simp_all add: base_order_total_def split_beta)
  ultimately show ?thesis
    by (auto simp: get_order_base_prices_def order_untaxed_def Let_def split_beta list_all_iff no_rate)
      (simp_all add: quantize_taxed_def map_taxed_def untaxed_def)
qed

text \<open>A line whose variant was deleted is left as it is, with the taxes it had.\<close>

lemma deleted_variant_stays_taxed: "pl_variant l = None \<Longrightarrow> base_order_line prec currency l = l"
  by (simp add: base_order_line_def)

text \<open>
  C24: after a refresh of an editable order whose prices are expired and that is exempt or not
  charged taxes, gross equals net for the order's total, its shipping and its lines that have a
  variant, and their rates are zero; with net prices a line whose variant was deleted keeps what
  it had
\<close>

theorem exempt_order_untaxed:
  assumes "fetch_order_prices_if_expired P prec w pk force ol = Inr ol'"
    and "order_editable (po_status (fst ol))" "force \<or> po_should_refresh_prices (fst ol)" "\<not> should_charge_tax w (fst ol)"
  shows "order_untaxed ol'"
  using assms remove_order_tax_untaxed base_prices_untaxed
  unfolding fetch_order_prices_if_expired_def split_beta Let_def
  by (auto simp: bindr_eq_Inr split: if_splits)

subsection \<open>What goes wrong\<close>

text \<open>
  C25: with flat rates, discounts whose amounts were not recorded by an earlier refresh leave
  the lines as they are without any discount
\<close>

theorem unrecorded_discounts_ignored:
  assumes "list_all (\<lambda>d. od_amount_value d = 0) (po_discounts ord)" "0 \<le> tm_gross (po_undiscounted_total ord)"
    and "update_order_prices_with_flat_rates P prec w ord lines entered = Inr (ord1, lines1)"
  shows "\<exists>ord2. update_order_prices_with_flat_rates P prec w (ord\<lparr>po_discounts := []\<rparr>) lines entered = Inr (ord2, lines1)"
proof -
  have zero: "sum_list (map od_amount_value ds) = 0" if "list_all (\<lambda>d. od_amount_value d = 0) ds" for ds
    using that by (induction ds) simp_all
  have "sum_list (map od_amount_value (filter Q (po_discounts ord))) = 0" for Q
    by (rule zero) (use assms(1) in \<open>auto simp: list_all_iff\<close>)
  moreover have "sum_list (map od_amount_value (po_discounts ord)) = 0" by (rule zero [OF assms(1)])
  ultimately have D: "get_total_order_discount_excluding_shipping ord = 0"
    using assms(2) by (simp add: get_total_order_discount_excluding_shipping_def Let_def)
  have D': "get_total_order_discount_excluding_shipping (ord\<lparr>po_discounts := []\<rparr>) = 0"
    using assms(2) by (simp add: get_total_order_discount_excluding_shipping_def Let_def split: option.split)
  have same: "order_country w (ord\<lparr>po_discounts := []\<rparr>) = order_country w ord"
    "order_shipping_rate r d c (ord\<lparr>po_discounts := []\<rparr>) = order_shipping_rate r d c ord"
    "calculate_order_shipping prec (ord\<lparr>po_discounts := []\<rparr>) rate entered = calculate_order_shipping prec ord rate entered"
    for r d c rate
    by (simp_all add: order_country_def order_shipping_rate_def calculate_order_shipping_def cong: option.case_cong)
  show ?thesis using assms(3)
    by (auto simp: update_order_prices_with_flat_rates_def Let_def bindr_eq_Inr split_beta same D D')
qed

subsection \<open>Examples\<close>

definition coat_sale :: priced_line where
  "coat_sale = \<lparr>pl_pk = 1, pl_variant = Some 11, pl_product = 21, pl_category = None, pl_collections = [], pl_quantity = 2,
     pl_base_unit_price_amount = 50, pl_undiscounted_base_unit_price_amount = 50, pl_unit_price = untaxed 0,
     pl_undiscounted_unit_price = untaxed 0, pl_total_price = untaxed 0, pl_undiscounted_total_price = untaxed 0,
     pl_unit_discount_amount = 0, pl_unit_discount_value = 0, pl_unit_discount_type = DiscountValueType_FIXED,
     pl_unit_discount_reason = None, pl_tax_rate = None, pl_tax_class = None, pl_tax_class_name = None\<rparr>"

definition draft_sale :: priced_order where
  "draft_sale = \<lparr>po_pk = 1, po_status = OrderStatus_DRAFT, po_currency = ''PLN'', po_channel = 3, po_user = None,
     po_user_email = ''a@b.pl'', po_shipping_country = None, po_billing_country = None, po_voucher = Some winter_voucher,
     po_voucher_code = Some ''WINTER'', po_discounts = [], po_base_shipping_price_amount = 12, po_shipping_price = untaxed 0,
     po_shipping_tax_rate = None, po_shipping_method_tax_class = None, po_shipping_tax_class_name = None, po_total = untaxed 0,
     po_undiscounted_total = untaxed 112, po_should_refresh_prices = True, po_tax_exemption = False,
     po_display_gross_prices = True\<rparr>"

definition order_shop :: order_world where
  "order_shop = \<lparr>ow_country_rates = polish_rates, ow_configuration = (tw_configuration polish_taxes)\<lparr>tcf_charge_taxes := True\<rparr>,
     ow_default_country = ''PL'', ow_vouchers = voucher_shop, ow_below_zero = (\<lambda>m. tm_gross m < 0),
     ow_plugin_unit = (\<lambda>_ _. None), ow_plugin_total = (\<lambda>_ _. None), ow_plugin_rate = (\<lambda>_ _ _. None),
     ow_plugin_shipping = (\<lambda>_. None), ow_plugin_shipping_rate = (\<lambda>_ _. None), ow_plugin_order_total = (\<lambda>_ _. untaxed 0),
     ow_app_data = (\<lambda>_ _. None)\<rparr>"


abbreviation refresh_sale :: "bool \<Rightarrow> priced_order \<times> priced_line list \<Rightarrow> discount_error + priced_order \<times> priced_line list" where
  "refresh_sale \<equiv> fetch_order_prices_if_expired plain_prices zl order_shop 9"


lemma line_discount_stays_recorded_witness:
  "line_discount_recorded (update_discount_for_order_line plain_prices None (Some DiscountValueType_PERCENTAGE) (Some 10) coat_sale)"
  using line_discount_stays_recorded [of plain_prices coat_sale "Some 10" None "Some DiscountValueType_PERCENTAGE"]
  by (simp add: coat_sale_def line_discount_recorded_def)

lemma order_lines_near_discounted_witness:
  "case update_taxes_for_order_lines zl ''PLN'' (\<lambda>_. 23) True 10 200 0 [coat_sale, coat_sale\<lparr>pl_pk := 2\<rparr>] of
     Inl _ \<Rightarrow> False | Inr (ls, u) \<Rightarrow> \<bar>tm_gross (order_lines_subtotal ls) - 190\<bar> \<le> 3 / 100"
proof -
  let ?ls = "[coat_sale, coat_sale\<lparr>pl_pk := 2\<rparr>]"
  have T: "base_order_subtotal ?ls = 200" by (simp add: base_order_subtotal_def coat_sale_def)
  have "case update_taxes_for_order_lines zl ''PLN'' (\<lambda>_. 23) True 10 200 0 ?ls of Inl _ \<Rightarrow> False | Inr _ \<Rightarrow> True" by code_simp
  then obtain ls u where run: "update_taxes_for_order_lines zl ''PLN'' (\<lambda>_. 23) True 10 200 0 ?ls = Inr (ls, u)"
    by (auto split: sum.splits)
  have zl: "zl ''PLN'' = 2" "quantize 2 50 = 50" by code_simp+
  then have "list_all (line_priced zl ''PLN'' (\<lambda>_. 23)) ?ls" by (simp add: line_priced_def coat_sale_def)
  from order_lines_near_discounted [OF this, of 10 ls u] run T zl show ?thesis by (simp add: coat_sale_def)
qed

lemma prices_fetched_once_witness:
  "\<exists>ol. refresh_sale False (draft_sale, [coat_sale]) = Inr ol \<and> refresh_sale False ol = Inr ol"
proof -
  have "case refresh_sale False (draft_sale, [coat_sale]) of Inl _ \<Rightarrow> False | Inr _ \<Rightarrow> True" by code_simp
  then obtain ol where ol: "refresh_sale False (draft_sale, [coat_sale]) = Inr ol" by (auto split: sum.splits)
  from prices_fetched_once [OF ol] ol show ?thesis by blast
qed

lemma exempt_order_untaxed_witness:
  "\<exists>ol. refresh_sale False (draft_sale\<lparr>po_tax_exemption := True\<rparr>, [coat_sale]) = Inr ol \<and> order_untaxed ol"
proof -
  let ?s = "(draft_sale\<lparr>po_tax_exemption := True\<rparr>, [coat_sale])"
  have "case refresh_sale False ?s of Inl _ \<Rightarrow> False | Inr _ \<Rightarrow> True" by code_simp
  then obtain ol where ol: "refresh_sale False ?s = Inr ol" by (auto split: sum.splits)
  from exempt_order_untaxed [OF ol] ol show ?thesis
    by (simp add: draft_sale_def order_editable_def should_charge_tax_def)
qed

text \<open>
  The voucher's discount of 10, just made, is missing in the first refresh and taken off in the second, although nothing
  was changed in between.
\<close>

definition voucher_sale :: priced_order where
  "voucher_sale = (update_order_discount_for_voucher voucher_shop 9 draft_sale)\<lparr>po_should_refresh_prices := False\<rparr>"

lemma refresh_draft_sale:
  "refresh_sale False (draft_sale, [coat_sale])
     = update_order_prices_with_flat_rates plain_prices zl order_shop voucher_sale [coat_sale] True"
proof -
  have "should_charge_tax order_shop draft_sale" "tcf_prices_entered_with_tax (ow_configuration order_shop)"
    "get_tax_calculation_strategy (ow_configuration order_shop) (order_tax_configuration order_shop draft_sale)
       \<noteq> TaxCalculationStrategy_TAX_APP" by code_simp+
  moreover have "order_editable (po_status draft_sale)" "po_should_refresh_prices draft_sale" "ow_vouchers order_shop = voucher_shop"
    by code_simp+
  ultimately show ?thesis
    by (cases "update_order_prices_with_flat_rates plain_prices zl order_shop voucher_sale [coat_sale] True")
      (simp_all add: fetch_order_prices_if_expired_def Let_def calculate_and_add_order_tax_def voucher_sale_def)
qed

lemma unrecorded_discounts_ignored_witness:
  "case refresh_sale False (draft_sale, [coat_sale]) of Inl _ \<Rightarrow> False
   | Inr ol \<Rightarrow> tm_gross (po_total (fst ol)) = 112
       \<and> (case refresh_sale True ol of Inl _ \<Rightarrow> False | Inr ol' \<Rightarrow> tm_gross (po_total (fst ol')) = 102)
       \<and> (\<exists>ord2. update_order_prices_with_flat_rates plain_prices zl order_shop (voucher_sale\<lparr>po_discounts := []\<rparr>) [coat_sale] True
           = Inr (ord2, snd ol))"
proof -
  let ?s = "(draft_sale, [coat_sale])"
  have "case refresh_sale False ?s of Inl _ \<Rightarrow> False | Inr ol \<Rightarrow> tm_gross (po_total (fst ol)) = 112" by code_simp
  then obtain ol where ol: "refresh_sale False ?s = Inr ol" "tm_gross (po_total (fst ol)) = 112" by (auto split: sum.splits)
  have "case bindr (refresh_sale False ?s) (refresh_sale True) of Inl _ \<Rightarrow> False | Inr ol' \<Rightarrow> tm_gross (po_total (fst ol')) = 102"
    by code_simp
  then have second: "case refresh_sale True ol of Inl _ \<Rightarrow> False | Inr ol' \<Rightarrow> tm_gross (po_total (fst ol')) = 102"
    by (simp add: ol(1))
  have none: "list_all (\<lambda>d. od_amount_value d = 0) (po_discounts voucher_sale)"
    "0 \<le> tm_gross (po_undiscounted_total voucher_sale)" by code_simp+
  have "update_order_prices_with_flat_rates plain_prices zl order_shop voucher_sale [coat_sale] True = Inr (fst ol, snd ol)"
    using ol(1) by (simp add: refresh_draft_sale)
  from unrecorded_discounts_ignored [OF none this] second show ?thesis by (simp add: ol)
qed

text \<open>Five lines of 1.00 share 0.03: four take 0.01 each, and the last one is sold for 1.01.\<close>

definition penny_line :: priced_line where
  "penny_line = coat_sale\<lparr>pl_quantity := 1, pl_base_unit_price_amount := 1, pl_undiscounted_base_unit_price_amount := 1\<rparr>"

lemma rounding_raises_last_line:
  "order_line_part zl ''PLN'' (3 / 100) 5 taken False 1 = Inr (1 / 100)
   \<and> order_line_part zl ''PLN'' (3 / 100) 5 (1 / 100 + 1 / 100 + 1 / 100 + 1 / 100) True 1 = Inr (- 1 / 100)
   \<and> discounted_unit_price zl ''PLN'' (- 1 / 100) penny_line = Inr (101 / 100)"
proof -
  have "order_line_part zl ''PLN'' (3 / 100) 5 0 False 1 = Inr (1 / 100)" by code_simp
  moreover have "discounted_unit_price zl ''PLN'' (- 1 / 100) penny_line = Inr (101 / 100)" by code_simp
  ultimately show ?thesis by (simp add: order_line_part_def)
qed

text \<open>When the last line has no variant, what is left of the discount is not taken from any line.\<close>

lemma deleted_variant_loses_discount:
  "case update_taxes_for_order_lines zl ''PLN'' (\<lambda>_. 0) True 10 200 0 [coat_sale, coat_sale\<lparr>pl_pk := 2, pl_variant := None,
       pl_total_price := untaxed 100\<rparr>] of Inl _ \<Rightarrow> False
   | Inr (ls, _) \<Rightarrow> tm_gross (order_lines_subtotal ls) = 195"
  by code_simp

text \<open>A line whose variant was deleted makes a voucher for products raise, although the code tests for it.\<close>

lemma deleted_variant_breaks_voucher:
  assumes "vo_type v = VoucherType_SPECIFIC_PRODUCT" "vo_products v \<noteq> []" "l \<in> set lines" "pl_variant l = None"
  shows "get_products_voucher_discount_for_order P s channel lines v = Inl MissingVariant"
  using assms by (auto simp: get_products_voucher_discount_for_order_def order_discounted_prices_def order_discounted_lines_def
      list_all_iff)

end
