(* ===== verification/Spec2Isabelle.thy ===== *)
theory Spec2Isabelle
  imports Credit Barcode Report StockRuns PaymentBounds OrderProperties StoredPrices CheckoutRuns GiftCardRuns OrderPriceRuns
begin

text \<open>
  Aixinwu-core is the backend of a charity shop, a fork of the Saleor e-commerce platform in which
  goods are donated and paid for with credit: users earn credit by logging in, inviting others and
  donating, and spend it on orders. This development models the parts that decide something about
  credit, goods and rights, as functions over the rows of the database.

  The parts and the theories that model them (paths are under \<^verbatim>\<open>src/saleor\<close>):

  \<^item> \<^verbatim>\<open>Prelude\<close>: exact decimals and their rounding, results with errors as values (\<open>bindr\<close>), tables as
    lists of rows in key order (\<open>objects_get\<close>, \<open>save_row\<close>, \<open>bulk_update\<close>), dates; the locales
    \<open>choice_class\<close> and \<open>month_numbered\<close>.
  \<^item> \<^verbatim>\<open>Permissions\<close>: \<^verbatim>\<open>permission/\<close>, the permission part of \<^verbatim>\<open>account/models.py\<close>, \<^verbatim>\<open>app/models.py\<close> and
    \<^verbatim>\<open>core/auth_backend.py\<close>, the checks of \<^verbatim>\<open>graphql/utils\<close> and of the channel update.
  \<^item> \<^verbatim>\<open>Choices\<close>: the classes of string constants, one datatype each, interpreted as \<open>choice_class\<close>.
  \<^item> \<^verbatim>\<open>Tables\<close>: users, balance and customer events, donations, orders, payments in one record \<open>db\<close>, and
    the ledger law \<open>ledger_ok\<close>: the balance of a user is the sum of the user's balance events.
  \<^item> \<^verbatim>\<open>Account\<close>, \<^verbatim>\<open>Login\<close>, \<^verbatim>\<open>Donation\<close>, \<^verbatim>\<open>Credit\<close>: the operations that move credit:
    \<^verbatim>\<open>account/events.py\<close>; \<^verbatim>\<open>plugins/openid_connect/utils.py\<close> (finding or creating the user of a token,
    the login streak and its rewards); \<^verbatim>\<open>donation/models.py\<close> and \<^verbatim>\<open>graphql/donation\<close>;
    \<^verbatim>\<open>graphql/account/mutations\<close> (setting a balance), \<^verbatim>\<open>payment/gateways/balance\<close> and
    \<^verbatim>\<open>graphql/order/mutations/order_confirm.py\<close>. The lemmas follow the ledger law through them.
  \<^item> \<^verbatim>\<open>Barcode\<close>: \<^verbatim>\<open>barcode/models.py\<close> and \<^verbatim>\<open>graphql/barcode\<close>; \<^verbatim>\<open>Report\<close>: \<^verbatim>\<open>graphql/report\<close>.
  \<^item> \<^verbatim>\<open>Stock\<close> (\<^verbatim>\<open>warehouse/management.py\<close>, the querysets of \<^verbatim>\<open>warehouse/models.py\<close>), \<^verbatim>\<open>StockLaws\<close> and
    \<^verbatim>\<open>StockMoves\<close> (what the operations do to allocations, stored counters and quantities),
    \<^verbatim>\<open>Availability\<close> (\<^verbatim>\<open>warehouse/availability.py\<close>), \<^verbatim>\<open>Reservations\<close> (\<^verbatim>\<open>warehouse/reservations.py\<close>,
    \<^verbatim>\<open>tasks.py\<close>, \<^verbatim>\<open>validation.py\<close>) and \<^verbatim>\<open>StockRuns\<close>: the operations that do not oversell as the steps of one
    relation, and the invariant of every history, through the locale \<open>warehouse_operation\<close>.
  \<^item> \<^verbatim>\<open>TransactionAmounts\<close>: \<^verbatim>\<open>payment/transaction_item_calculations.py\<close>, against a reference that looks up
    the newest event of each kind, and the conservation of money over all columns.
  \<^item> \<^verbatim>\<open>Payments\<close> (\<^verbatim>\<open>payment/gateway.py\<close>, the part of \<^verbatim>\<open>payment/utils.py\<close> it uses, the rules of
    \<^verbatim>\<open>payment/models.py\<close>, the charge and authorize statuses of \<^verbatim>\<open>order/utils.py\<close>), \<^verbatim>\<open>PaymentLaws\<close> (the
    locale \<open>payment_function\<close>, and the order's charged amount in every history of the step relation
    \<open>pay_step\<close>) and \<^verbatim>\<open>PaymentBounds\<close> (the locale \<open>money_function\<close>, what a payment can hold, and that the
    second postprocessing of a capture changes nothing).
  \<^item> \<^verbatim>\<open>Fulfilment\<close> (the fulfilment part of \<^verbatim>\<open>order/actions.py\<close>, \<^verbatim>\<open>order/utils.py\<close> and \<^verbatim>\<open>order/tasks.py\<close>,
    and the mutations \<^verbatim>\<open>order_fulfill\<close>, \<^verbatim>\<open>fulfillment_approve\<close>, \<^verbatim>\<open>fulfillment_cancel\<close>,
    \<^verbatim>\<open>fulfillment_refund_products\<close>, \<^verbatim>\<open>fulfillment_return_products\<close>, \<^verbatim>\<open>order_cancel\<close> of \<^verbatim>\<open>graphql/order\<close>), over
    one record \<open>shop_db\<close> that joins stock, payments and fulfilments. \<^verbatim>\<open>FulfilmentLaws\<close>: the invariant
    \<open>shop_ok\<close> and how moving lines keeps it; \<^verbatim>\<open>FulfilmentRuns\<close> and \<^verbatim>\<open>OrderHistories\<close>: every operation
    keeps it, as steps of the relation \<open>shop_step\<close>; \<^verbatim>\<open>OrderProperties\<close>: the statements with an example.
  \<^item> \<^verbatim>\<open>Discounts\<close> (the vouchers of \<^verbatim>\<open>discount/models.py\<close>, \<^verbatim>\<open>discount/utils.py\<close>, \<^verbatim>\<open>discount/tasks.py\<close>, what
    \<^verbatim>\<open>checkout/\<close> and \<^verbatim>\<open>order/tasks.py\<close> do with their codes, \<^verbatim>\<open>core/utils/promo_code.py\<close>) with \<^verbatim>\<open>VoucherLaws\<close>,
    and \<^verbatim>\<open>Promotions\<close> (the promotions of \<^verbatim>\<open>discount/\<close> and \<^verbatim>\<open>product/utils/variant_prices.py\<close>) with
    \<^verbatim>\<open>PromotionLaws\<close> and \<^verbatim>\<open>StoredPrices\<close>: bounds of discounts, the limit of a voucher, releasing a code,
    and the stored prices against a reference that writes every row once.
  \<^item> \<^verbatim>\<open>CheckoutPrices\<close> (\<^verbatim>\<open>checkout/base_calculations.py\<close>: prices and totals before taxes, a discount divided
    among lines), \<^verbatim>\<open>CheckoutVouchers\<close> (the vouchers and promotion discounts of \<^verbatim>\<open>checkout/utils.py\<close>, \<^verbatim>\<open>checkout/fetch.py\<close>
    and \<^verbatim>\<open>discount/utils.py\<close>) and \<^verbatim>\<open>CheckoutLines\<close> (adding variants, payment statuses, the deletion of abandoned
    checkouts). \<^verbatim>\<open>CheckoutLaws\<close>, \<^verbatim>\<open>CheckoutDiscounts\<close> and \<^verbatim>\<open>CheckoutRuns\<close>: bounds of line prices, what adds up when a
    discount is divided, that refreshed lines cost the stored price, and the keys and quantities of lines.
  \<^item> \<^verbatim>\<open>GiftCards\<close> (\<^verbatim>\<open>giftcard/models.py\<close>, \<^verbatim>\<open>events.py\<close>, \<^verbatim>\<open>utils.py\<close>, \<^verbatim>\<open>tasks.py\<close>) and \<^verbatim>\<open>GiftCardOps\<close> (their use in
    \<^verbatim>\<open>checkout/utils.py\<close> and \<^verbatim>\<open>order/utils.py\<close>, the mutations of \<^verbatim>\<open>graphql/giftcard\<close>). \<^verbatim>\<open>GiftCardLaws\<close>: well-formed
    cards, what an order takes from them against what its total was lowered by (\<^verbatim>\<open>checkout/complete_checkout.py\<close>); \<^verbatim>\<open>GiftCardRuns\<close>: every operation as a step of \<open>gift_step\<close>, the periodic job,
    codes in a checkout.
  \<^item> \<^verbatim>\<open>Taxes\<close> (\<^verbatim>\<open>tax/utils.py\<close>, \<^verbatim>\<open>tax/calculations\<close>, \<^verbatim>\<open>core/utils/country.py\<close> and the refreshing of prices in
    \<^verbatim>\<open>checkout/calculations.py\<close>) with \<^verbatim>\<open>TaxLaws\<close>: flat rates and how far rounding moves the gross total of a checkout.
  \<^item> \<^verbatim>\<open>OrderPrices\<close> (\<^verbatim>\<open>order/base_calculations.py\<close>, the discounts of \<^verbatim>\<open>order/utils.py\<close>) and \<^verbatim>\<open>OrderTaxes\<close>
    (\<^verbatim>\<open>tax/calculations/order.py\<close>, \<^verbatim>\<open>order/calculations.py\<close>). \<^verbatim>\<open>OrderPriceLaws\<close>: recorded discounts account for the total,
    rounding of divided discounts; \<^verbatim>\<open>OrderPriceRuns\<close>: when prices are refreshed, exempt orders, and what goes wrong.

  State is passed explicitly: an operation takes the database and returns the changed one, or the
  exception as \<open>Inl\<close>; a transaction that raises leaves the database as it was. The clock is an argument.

  What the code calls but does not contain is a parameter, with what is relied on as a hypothesis:
  Django's \<open>bulk_update\<close> (\<open>bulk_update_law\<close>: of several updates of a row the first counts), babel's
  currency precision, the discount functions of \<^verbatim>\<open>prices\<close> (\<open>prices_law\<close>: they lower a price, not below
  zero), pytz's time zone, the comparison of taxed amounts (\<open>below_zero_law\<close>), what plugins and tax apps calculate, the adding of a \<open>relativedelta\<close> (\<open>progress\<close>: it moves a date
  forward). No definition uses fuel: loops are structural recursions, or, for the division of a date
  range, a \<open>partial_function\<close> whose termination is proved from \<open>progress\<close>. The batches and invocations that
  \<open>delete_expired_checkouts\<close> counts are bounds of the code itself.

  Not modelled: row locks and concurrent calls (an operation is one transaction), the dispatch of
  webhooks and plugins beyond the note that something is to be sent, e-mails, files, the GraphQL schema
  with its filters and sorters, tokens and their cryptography, search vectors, and the parts of Saleor
  that the manifest lists as not modelled.
\<close>

end
